(* ===== verification/Prelude.thy ===== *)
theory Prelude
  imports "HOL-Library.Word" "HOL-Library.Monad_Syntax" "HOL-Library.AList"
begin

unbundle bit_operations_syntax

text \<open>
  The vocabulary shared by every component: the machine types of the C++ sources
  (fixed width words, byte strings, the \<^verbatim>\<open>RaftIndex\<close> and \<^verbatim>\<open>RaftTerm\<close> aliases of
  src/src/util/common.h), the way an aborting step is modelled, and generic lemmas on
  options, association lists and words.

  A C++ function that can abort (a failing \<^verbatim>\<open>assert\<close>: the Makefile never defines
  \<^verbatim>\<open>NDEBUG\<close>) or read outside the memory it was given returns an \<open>option\<close> here:
  \<open>None\<close> is "the process does not survive this call". The error codes that the code
  itself returns (\<open>0\<close>, \<open>-1\<close>, \<open>-2\<close>) stay ordinary values of type \<open>int\<close>.
\<close>

section \<open>Machine types\<close>

type_synonym u8 = "8 word"
type_synonym u16 = "16 word"
type_synonym u32 = "32 word"
type_synonym u64 = "64 word"
type_synonym bytes = "u8 list"

type_synonym RaftIndex = u32
type_synonym RaftTerm = u64

section \<open>Assertions\<close>

definition check :: "bool \<Rightarrow> unit option" where
  "check b = (if b then Some () else None)"

lemma check_True [simp]: "check True = Some ()"
  by (simp add: check_def)

lemma check_False [simp]: "check False = None"
  by (simp add: check_def)

lemma check_eq_Some [simp]: "check b = Some u \<longleftrightarrow> b"
  by (simp add: check_def)

lemma check_eq_None [simp]: "check b = None \<longleftrightarrow> \<not> b"
  by (simp add: check_def)

lemma bind_check [simp]: "(check b \<bind> f) = (if b then f () else None)"
  by (simp add: check_def)

lemma bind_eq_SomeE:
  assumes "(m \<bind> f) = Some y"
  obtains x where "m = Some x" and "f x = Some y"
  using assms by (cases m) auto

section \<open>Collections of simplification rules\<close>

named_theorems codec_simps \<open>decoding what an encoder has written\<close>
named_theorems codec_length \<open>the number of bytes an encoder writes\<close>
named_theorems frame_simps \<open>the parts of a state that an operation leaves alone\<close>

section \<open>Association lists as unordered maps\<close>

text \<open>
  A \<^verbatim>\<open>std::unordered_map\<close> is an association list with distinct keys. Its
  \<^verbatim>\<open>operator[]\<close> inserts a value-initialised element when the key is missing.
\<close>

definition map_at :: "'v \<Rightarrow> 'k \<Rightarrow> ('k \<times> 'v) list \<Rightarrow> 'v" where
  "map_at d k m = (case map_of m k of Some v \<Rightarrow> v | None \<Rightarrow> d)"

definition map_upd_at :: "'v \<Rightarrow> 'k \<Rightarrow> ('v \<Rightarrow> 'v) \<Rightarrow> ('k \<times> 'v) list \<Rightarrow> ('k \<times> 'v) list" where
  "map_upd_at d k f m = AList.update k (f (map_at d k m)) m"

definition map_all :: "('v \<Rightarrow> 'v) \<Rightarrow> ('k \<times> 'v) list \<Rightarrow> ('k \<times> 'v) list" where
  "map_all f m = map (\<lambda>(k, v). (k, f v)) m"

lemma map_of_map_upd_at:
  "map_of (map_upd_at d k f m) = (map_of m)(k \<mapsto> f (map_at d k m))"
  by (simp add: map_upd_at_def update_conv')

lemma distinct_map_upd_at [simp]:
  "distinct (map fst m) \<Longrightarrow> distinct (map fst (map_upd_at d k f m))"
  by (simp add: map_upd_at_def distinct_update)

lemma keys_map_upd_at [simp]:
  "fst ` set (map_upd_at d k f m) = insert k (fst ` set m)"
  using dom_update [of k "f (map_at d k m)" m]
  by (simp add: map_upd_at_def dom_map_of_conv_image_fst)

lemma map_all_keys [simp]: "map fst (map_all f m) = map fst m"
  by (auto simp: map_all_def)

lemma length_map_all [simp]: "length (map_all f m) = length m"
  by (simp add: map_all_def)

lemma map_of_map_all: "map_of (map_all f m) k = map_option f (map_of m k)"
  by (induction m) (auto simp: map_all_def)

lemma map_at_map_all: "map_of m k \<noteq> None \<Longrightarrow> map_at d k (map_all f m) = f (map_at d k m)"
  by (auto simp: map_at_def map_of_map_all)

lemma set_map_all: "set (map_all f m) = (\<lambda>(k, v). (k, f v)) ` set m"
  by (simp add: map_all_def)

section \<open>Words\<close>

lemma unat_add_bound:
  fixes a b :: "'a::len word"
  assumes "unat a + unat b < 2 ^ LENGTH('a)"
  shows "unat (a + b) = unat a + unat b"
  using assms by (simp add: unat_word_ariths)

lemma unat_plus_one:
  fixes a :: "'a::len word"
  assumes "Suc (unat a) < 2 ^ LENGTH('a)"
  shows "unat (a + 1) = Suc (unat a)"
  using assms unat_add_bound [of a 1] by (cases "LENGTH('a) = 1") auto

lemma unat_minus_one_gt:
  fixes a :: "'a::len word"
  assumes "0 < a"
  shows "unat (a - 1) = unat a - 1"
  using assms by (metis unat_minus_one word_neq_0_conv)

lemma sint_of_nat_small:
  assumes "k < 2 ^ (LENGTH('a::len) - 1)"
  shows "sint (of_nat k :: 'a word) = int k"
proof -
  have "int k < 2 ^ (LENGTH('a) - 1)" using assms by (metis of_nat_less_iff of_nat_numeral of_nat_power)
  then have "signed_take_bit (LENGTH('a) - Suc 0) (int k) = int k"
    by (intro signed_take_bit_int_eq_self)
      (use order_trans [of "- (2 ^ (LENGTH('a) - 1))" 0 "int k"] in simp_all)
  then show ?thesis by (simp add: signed_of_nat)
qed

lemma unat_two_power: "n < LENGTH('a::len) \<Longrightarrow> unat (2 ^ n :: 'a word) = 2 ^ n"
  by transfer (simp add: nat_power_eq)

lemma unat_drop: "unat (drop_bit k (v::'a::len word)) = unat v div 2 ^ k"
    unfolding unat_drop_bit_eq by (rule drop_bit_eq_div)

end
