(* ===== verification/Coding.thy ===== *)
theory Coding
  imports Prelude
begin

unbundle bit_operations_syntax

text \<open>
  The byte codecs of src/src/util/coding.cc and the \<^verbatim>\<open>Slice\<close> of src/src/util/slice.h:
  fixed width integers in little-endian order on either kind of machine, varints, and the
  length-prefixed strings every message and every log record is built from.

  A \<^verbatim>\<open>const char *\<close> that is read from is the list of bytes from the pointer to the end of
  the object it points into; a decoder that would run past that end is \<open>None\<close>. An encoder
  is the list of bytes it stores from its destination pointer on.
\<close>

section \<open>Bytes of a word\<close>

definition byte_at :: "nat \<Rightarrow> 'a::len word \<Rightarrow> u8" where
  "byte_at k v = ucast (drop_bit k v AND 0xff)"

definition put_byte :: "nat \<Rightarrow> u8 \<Rightarrow> 'a::len word" where
  "put_byte k b = push_bit k (ucast b)"

lemma bit_byte_at: "bit (byte_at k v) n \<longleftrightarrow> n < 8 \<and> bit v (k + n)"
proof -
  have "(0xff :: 'a word) = mask 8" by (simp add: mask_eq_exp_minus_1)
  then have "byte_at k v = ucast (drop_bit k v AND mask 8)" by (simp only: byte_at_def)
  then show ?thesis
    by (simp only:) (auto simp: bit_simps dest: bit_imp_le_length)
qed

lemma bit_put_byte_at:
  fixes v :: "'a::len word"
  shows "bit (put_byte k (byte_at k v) :: 'a word) n \<longleftrightarrow> k \<le> n \<and> n < k + 8 \<and> bit v n"
  by (auto simp: put_byte_def bit_simps bit_byte_at dest: bit_imp_le_length)

lemma byte_at_put_byte: "k + 8 \<le> LENGTH('a::len) \<Longrightarrow>
   bit (put_byte k b :: 'a word) n \<longleftrightarrow> k \<le> n \<and> n < k + 8 \<and> bit b (n - k)"
  by (auto simp: put_byte_def bit_simps dest: bit_imp_le_length)

text \<open>\<^verbatim>\<open>memcpy\<close> between an integer and memory, on a machine whose byte order is
  little-endian exactly when \<open>host\<close> is true.\<close>

definition host_order :: "bool \<Rightarrow> bytes \<Rightarrow> bytes" where
  "host_order host bs = (if host then bs else rev bs)"

section \<open>Fixed width integers\<close>

definition le16 :: "u16 \<Rightarrow> bytes" where
  "le16 v = [byte_at 0 v, byte_at 8 v]"

definition le32 :: "u32 \<Rightarrow> bytes" where
  "le32 v = [byte_at 0 v, byte_at 8 v, byte_at 16 v, byte_at 24 v]"

definition le64 :: "u64 \<Rightarrow> bytes" where
  "le64 v = [byte_at 0 v, byte_at 8 v, byte_at 16 v, byte_at 24 v,
             byte_at 32 v, byte_at 40 v, byte_at 48 v, byte_at 56 v]"

fun un_le16 :: "bytes \<Rightarrow> u16 option" where
  "un_le16 (b0 # b1 # _) = Some (put_byte 0 b0 OR put_byte 8 b1)"
| "un_le16 _ = None"

fun un_le32 :: "bytes \<Rightarrow> u32 option" where
  "un_le32 (b0 # b1 # b2 # b3 # _) =
     Some (put_byte 0 b0 OR put_byte 8 b1 OR put_byte 16 b2 OR put_byte 24 b3)"
| "un_le32 _ = None"

fun un_le64 :: "bytes \<Rightarrow> u64 option" where
  "un_le64 (b0 # b1 # b2 # b3 # b4 # b5 # b6 # b7 # _) =
     Some (put_byte 0 b0 OR put_byte 8 b1 OR put_byte 16 b2 OR put_byte 24 b3 OR
           put_byte 32 b4 OR put_byte 40 b5 OR put_byte 48 b6 OR put_byte 56 b7)"
| "un_le64 _ = None"

text \<open>\<^verbatim>\<open>IsLittleEndian\<close> stores 1 in a word and looks at its first byte in memory;
  \<^verbatim>\<open>CodingInit\<close> records the answer in \<^verbatim>\<open>g_little_endian\<close>.\<close>

definition IsLittleEndian :: "bool \<Rightarrow> bool" where
  "IsLittleEndian host \<longleftrightarrow> hd (host_order host (le32 0x01)) = 0x01"

definition CodingInit :: "bool \<Rightarrow> bool" where
  "CodingInit host = IsLittleEndian host"

text \<open>The codecs on a machine of byte order \<open>host\<close> with the flag \<open>g\<close> set.\<close>

definition EncodeFixed16_on :: "bool \<Rightarrow> bool \<Rightarrow> u16 \<Rightarrow> bytes" where
  "EncodeFixed16_on host g v =
     (if g then host_order host (le16 v) else [byte_at 0 v, byte_at 8 v])"

definition DecodeFixed16_on :: "bool \<Rightarrow> bool \<Rightarrow> bytes \<Rightarrow> u16 option" where
  "DecodeFixed16_on host g p =
     (if g then (if length p < 2 then None else un_le16 (host_order host (take 2 p)))
      else un_le16 p)"

definition EncodeFixed32_on :: "bool \<Rightarrow> bool \<Rightarrow> u32 \<Rightarrow> bytes" where
  "EncodeFixed32_on host g v =
     (if g then host_order host (le32 v)
      else [byte_at 0 v, byte_at 8 v, byte_at 16 v, byte_at 24 v])"

definition DecodeFixed32_on :: "bool \<Rightarrow> bool \<Rightarrow> bytes \<Rightarrow> u32 option" where
  "DecodeFixed32_on host g p =
     (if g then (if length p < 4 then None else un_le32 (host_order host (take 4 p)))
      else un_le32 p)"

definition EncodeFixed64_on :: "bool \<Rightarrow> bool \<Rightarrow> u64 \<Rightarrow> bytes" where
  "EncodeFixed64_on host g v =
     (if g then host_order host (le64 v)
      else [byte_at 0 v, byte_at 8 v, byte_at 16 v, byte_at 24 v,
            byte_at 32 v, byte_at 40 v, byte_at 48 v, byte_at 56 v])"

definition DecodeFixed64_on :: "bool \<Rightarrow> bool \<Rightarrow> bytes \<Rightarrow> u64 option" where
  "DecodeFixed64_on host g p =
     (if g then (if length p < 8 then None else un_le64 (host_order host (take 8 p)))
      else do { lo \<leftarrow> DecodeFixed32_on host g p;
                hi \<leftarrow> DecodeFixed32_on host g (drop 4 p);
                Some (push_bit 32 (ucast hi) OR ucast lo) })"

text \<open>The rest of the development runs on the machines the project is built for:
  little-endian, with the flag as \<^verbatim>\<open>CodingInit\<close> leaves it.\<close>

definition EncodeFixed8 :: "u8 \<Rightarrow> bytes" where
  "EncodeFixed8 v = [v]"

fun DecodeFixed8 :: "bytes \<Rightarrow> u8 option" where
  "DecodeFixed8 (b # _) = Some b"
| "DecodeFixed8 [] = None"

definition EncodeFixed16 :: "u16 \<Rightarrow> bytes" where
  "EncodeFixed16 v = EncodeFixed16_on True True v"

definition DecodeFixed16 :: "bytes \<Rightarrow> u16 option" where
  "DecodeFixed16 p = DecodeFixed16_on True True p"

definition EncodeFixed32 :: "u32 \<Rightarrow> bytes" where
  "EncodeFixed32 v = EncodeFixed32_on True True v"

definition DecodeFixed32 :: "bytes \<Rightarrow> u32 option" where
  "DecodeFixed32 p = DecodeFixed32_on True True p"

definition EncodeFixed64 :: "u64 \<Rightarrow> bytes" where
  "EncodeFixed64 v = EncodeFixed64_on True True v"

definition DecodeFixed64 :: "bytes \<Rightarrow> u64 option" where
  "DecodeFixed64 p = DecodeFixed64_on True True p"

section \<open>Slices\<close>

text \<open>A slice is a pointer (the bytes from it to the end of the object) and a size, which
  nothing ties to the size of the object.\<close>

record slice =
  sl_data :: bytes
  sl_size :: nat

definition Slice_empty :: slice where
  "Slice_empty = \<lparr>sl_data = [], sl_size = 0\<rparr>"

definition remove_prefix :: "nat \<Rightarrow> slice \<Rightarrow> slice option" where
  "remove_prefix n s = do {
     check (n \<le> sl_size s);
     Some \<lparr>sl_data = drop n (sl_data s), sl_size = sl_size s - n\<rparr> }"

text \<open>\<^verbatim>\<open>std::string::append(result.data(), result.size())\<close>: copies the bytes out.\<close>

definition Slice_ToString :: "slice \<Rightarrow> bytes option" where
  "Slice_ToString s = do {
     check (sl_size s \<le> length (sl_data s));
     Some (take (sl_size s) (sl_data s)) }"

text \<open>Conversion of a signed length to \<^verbatim>\<open>size_t\<close>.\<close>

definition size_t :: "int \<Rightarrow> nat" where
  "size_t x = nat (x mod 2 ^ 64)"

section \<open>Varints\<close>

definition EncodeVarint32 :: "u32 \<Rightarrow> bytes" where
  "EncodeVarint32 v =
     (if v < 2 ^ 7 then [ucast v]
      else if v < 2 ^ 14 then [ucast (v OR 128), ucast (drop_bit 7 v)]
      else if v < 2 ^ 21 then
        [ucast (v OR 128), ucast (drop_bit 7 v OR 128), ucast (drop_bit 14 v)]
      else if v < 2 ^ 28 then
        [ucast (v OR 128), ucast (drop_bit 7 v OR 128), ucast (drop_bit 14 v OR 128),
         ucast (drop_bit 21 v)]
      else
        [ucast (v OR 128), ucast (drop_bit 7 v OR 128), ucast (drop_bit 14 v OR 128),
         ucast (drop_bit 21 v OR 128), ucast (drop_bit 28 v)])"

text \<open>The loop of \<^verbatim>\<open>GetVarint32PtrFallback\<close>. The pointers \<open>p\<close> and \<open>limit\<close> are
  the slice; the inner \<open>None\<close> is the null pointer it returns for a malformed varint.\<close>

function GetVarint32PtrFallback ::
    "nat \<Rightarrow> u32 \<Rightarrow> slice \<Rightarrow> (u32 \<times> slice) option option" where
  "GetVarint32PtrFallback shift result s =
     (if shift \<le> 28 \<and> 0 < sl_size s then do {
        b \<leftarrow> DecodeFixed8 (sl_data s);
        s' \<leftarrow> remove_prefix 1 s;
        if (ucast b :: u32) AND 128 \<noteq> 0
        then GetVarint32PtrFallback (shift + 7)
               (result OR push_bit shift (ucast b AND 127)) s'
        else Some (Some (result OR push_bit shift (ucast b), s')) }
      else Some None)"
  by pat_completeness auto
termination
  by (relation "measure (\<lambda>(shift, _, _). 29 - shift)") auto

declare GetVarint32PtrFallback.simps [simp del]

definition GetVarint32Ptr :: "slice \<Rightarrow> (u32 \<times> slice) option option" where
  "GetVarint32Ptr s =
     (if 0 < sl_size s then do {
        b \<leftarrow> DecodeFixed8 (sl_data s);
        s' \<leftarrow> remove_prefix 1 s;
        if (ucast b :: u32) AND 128 = 0 then Some (Some (ucast b, s'))
        else GetVarint32PtrFallback 0 0 s }
      else GetVarint32PtrFallback 0 0 s)"

text \<open>\<^verbatim>\<open>DecodeVarint32\<close> answers whether a varint was read; on success it moves the
  input slice past it and stores the value.\<close>

definition DecodeVarint32 :: "slice \<Rightarrow> (bool \<times> slice \<times> u32 option) option" where
  "DecodeVarint32 input = do {
     q \<leftarrow> GetVarint32Ptr input;
     (case q of
        None \<Rightarrow> Some (False, input, None)
      | Some (v, input') \<Rightarrow> Some (True, input', Some v)) }"

definition DecodeVarint32Bytes :: "slice \<Rightarrow> (int \<times> slice \<times> u32 option) option" where
  "DecodeVarint32Bytes input = do {
     q \<leftarrow> GetVarint32Ptr input;
     (case q of
        None \<Rightarrow> Some (-1, input, None)
      | Some (v, input') \<Rightarrow>
          Some (int (sl_size input) - int (sl_size input'), input', Some v)) }"

function EncodeVarint64 :: "u64 \<Rightarrow> bytes" where
  "EncodeVarint64 v =
     (if v \<ge> 128 then ucast (v OR 128) # EncodeVarint64 (drop_bit 7 v) else [ucast v])"
  by pat_completeness auto
termination
proof (relation "measure unat")
  fix v :: u64
  assume "v \<ge> 128"
  then have "128 \<le> unat v" by (simp add: word_le_nat_alt)
  moreover have "unat (drop_bit 7 v) = unat v div 2 ^ 7"
    unfolding unat_drop_bit_eq by (rule drop_bit_eq_div)
  ultimately show "(drop_bit 7 v, v) \<in> measure unat" by simp
qed simp

declare EncodeVarint64.simps [simp del]

function GetVarint64Ptr ::
    "nat \<Rightarrow> u64 \<Rightarrow> slice \<Rightarrow> (u64 \<times> slice) option option" where
  "GetVarint64Ptr shift result s =
     (if shift \<le> 63 \<and> 0 < sl_size s then do {
        b \<leftarrow> DecodeFixed8 (sl_data s);
        s' \<leftarrow> remove_prefix 1 s;
        if (ucast b :: u64) AND 128 \<noteq> 0
        then GetVarint64Ptr (shift + 7) (result OR push_bit shift (ucast b AND 127)) s'
        else Some (Some (result OR push_bit shift (ucast b), s')) }
      else Some None)"
  by pat_completeness auto
termination
  by (relation "measure (\<lambda>(shift, _, _). 64 - shift)") auto

declare GetVarint64Ptr.simps [simp del]

definition DecodeVarint64 :: "slice \<Rightarrow> (bool \<times> slice \<times> u64 option) option" where
  "DecodeVarint64 input = do {
     q \<leftarrow> GetVarint64Ptr 0 0 input;
     (case q of
        None \<Rightarrow> Some (False, input, None)
      | Some (v, input') \<Rightarrow> Some (True, input', Some v)) }"

section \<open>Strings\<close>

definition EncodeString :: "bytes \<Rightarrow> bytes \<Rightarrow> bytes" where
  "EncodeString dst value = dst @ EncodeVarint32 (of_nat (length value)) @ value"

definition DecodeString :: "slice \<Rightarrow> (bool \<times> slice \<times> slice option) option" where
  "DecodeString input = do {
     (ok, input', len) \<leftarrow> DecodeVarint32 input;
     (case len of
        Some n \<Rightarrow>
          if unat n \<le> sl_size input' then do {
            rest \<leftarrow> remove_prefix (unat n) input';
            Some (True, rest, Some \<lparr>sl_data = sl_data input', sl_size = unat n\<rparr>) }
          else Some (False, input', None)
      | None \<Rightarrow> Some (False, input', None)) }"

definition EncodeString2 :: "bytes \<Rightarrow> bytes" where
  "EncodeString2 value = EncodeVarint32 (of_nat (length value)) @ value"

text \<open>\<^verbatim>\<open>DecodeString2\<close> keeps the \<^verbatim>\<open>bool\<close> that \<^verbatim>\<open>DecodeVarint32\<close> returns in its
  variable \<^verbatim>\<open>bytes\<close>, so it adds 1 to the length whatever the size of the varint was.\<close>

definition DecodeString2 :: "slice \<Rightarrow> (int \<times> slice \<times> slice option) option" where
  "DecodeString2 input = do {
     (ok, input', len) \<leftarrow> DecodeVarint32 input;
     let bytes = (if ok then 1 else 0 :: int);
     (case len of
        Some n \<Rightarrow>
          if bytes > 0 \<and> unat n \<le> sl_size input' then do {
            rest \<leftarrow> remove_prefix (unat n) input';
            Some (sint (word_of_int bytes + n), rest,
                  Some \<lparr>sl_data = sl_data input', sl_size = unat n\<rparr>) }
          else Some (-1, input', None)
      | None \<Rightarrow> Some (-1, input', None)) }"

section \<open>Fixed width integers: what is read back is what was written\<close>

lemma un_le16_le16 [simp]: "un_le16 (le16 v @ r) = Some v"
  by (simp add: le16_def) (rule bit_word_eqI, auto simp: bit_or_iff bit_put_byte_at)

lemma un_le32_le32 [simp]: "un_le32 (le32 v @ r) = Some v"
  by (simp add: le32_def) (rule bit_word_eqI, auto simp: bit_or_iff bit_put_byte_at)

lemma un_le64_le64 [simp]: "un_le64 (le64 v @ r) = Some v"
  by (simp add: le64_def) (rule bit_word_eqI, auto simp: bit_or_iff bit_put_byte_at)

lemma length_le [simp]: "length (le16 a) = 2" "length (le32 b) = 4" "length (le64 c) = 8"
  by (simp_all add: le16_def le32_def le64_def)

lemma EncodeFixed_le: "EncodeFixed16 a = le16 a" "EncodeFixed32 b = le32 b" "EncodeFixed64 c = le64 c"
  by (simp_all add: EncodeFixed16_def EncodeFixed16_on_def EncodeFixed32_def EncodeFixed32_on_def
      EncodeFixed64_def EncodeFixed64_on_def host_order_def)

lemma DecodeFixed16_un_le: "DecodeFixed16 p = un_le16 p"
  by (simp add: DecodeFixed16_def DecodeFixed16_on_def host_order_def)
     (cases p rule: un_le16.cases; simp)

lemma DecodeFixed32_un_le: "DecodeFixed32 p = un_le32 p"
  by (simp add: DecodeFixed32_def DecodeFixed32_on_def host_order_def)
     (cases p rule: un_le32.cases; simp)

lemma DecodeFixed64_un_le: "DecodeFixed64 p = un_le64 p"
  by (simp add: DecodeFixed64_def DecodeFixed64_on_def host_order_def)
     (cases p rule: un_le64.cases; simp)

lemma EncodeFixed_length [simp, codec_length]:
  "length (EncodeFixed8 a) = 1" "length (EncodeFixed16 b) = 2"
  "length (EncodeFixed32 c) = 4" "length (EncodeFixed64 d) = 8"
  by (simp_all add: EncodeFixed8_def EncodeFixed_le)

lemma DecodeFixed_EncodeFixed [simp, codec_simps]:
  "DecodeFixed8 (EncodeFixed8 a @ r) = Some a"
  "DecodeFixed16 (EncodeFixed16 b @ r) = Some b"
  "DecodeFixed32 (EncodeFixed32 c @ r) = Some c"
  "DecodeFixed64 (EncodeFixed64 d @ r) = Some d"
  by (simp_all add: EncodeFixed8_def EncodeFixed_le DecodeFixed16_un_le DecodeFixed32_un_le
      DecodeFixed64_un_le)

lemma DecodeFixed_EncodeFixed_Nil [simp, codec_simps]:
  "DecodeFixed8 (EncodeFixed8 a) = Some a"
  "DecodeFixed16 (EncodeFixed16 b) = Some b"
  "DecodeFixed32 (EncodeFixed32 c) = Some c"
  "DecodeFixed64 (EncodeFixed64 d) = Some d"
  using DecodeFixed_EncodeFixed(1) [of a "[]"] DecodeFixed_EncodeFixed(2) [of b "[]"]
    DecodeFixed_EncodeFixed(3) [of c "[]"] DecodeFixed_EncodeFixed(4) [of d "[]"]
  by simp_all


section \<open>The wire format does not depend on the machine\<close>

lemma IsLittleEndian_host [simp]: "IsLittleEndian host = host"
  by (simp add: IsLittleEndian_def host_order_def le32_def byte_at_def)

lemma host_order_host_order [simp]: "host_order h (host_order h bs) = bs"
  by (simp add: host_order_def)

lemma ucast_put_byte:
  assumes "k + 8 \<le> 32"
  shows "(ucast (put_byte k b :: u32) :: u64) = put_byte k b"
  by (rule bit_word_eqI) (use assms in \<open>auto simp: put_byte_def bit_simps dest: bit_imp_le_length\<close>)

lemma push_put_byte: "push_bit n (put_byte k b :: 'a::len word) = put_byte (n + k) b"
  by (simp add: put_byte_def ac_simps)

lemma un_le64_halves:
  assumes "8 \<le> length p"
  shows "un_le64 p = do { lo \<leftarrow> un_le32 p; hi \<leftarrow> un_le32 (drop 4 p);
                          Some (push_bit 32 (ucast hi) OR ucast lo) }"
proof -
  from assms obtain b0 b1 b2 b3 b4 b5 b6 b7 r where
    p: "p = b0 # b1 # b2 # b3 # b4 # b5 # b6 # b7 # r"
    by (auto simp: Suc_le_length_iff numeral_eq_Suc)
  show ?thesis
    unfolding p
    by (simp add: unsigned_or_eq push_bit_or ucast_put_byte push_put_byte ac_simps)
qed

lemma CodingInit_host [simp]: "CodingInit host = host"
  by (simp add: CodingInit_def)

lemma EncodeFixed_portable:
  "EncodeFixed16_on host (CodingInit host) a = EncodeFixed16 a"
  "EncodeFixed32_on host (CodingInit host) b = EncodeFixed32 b"
  "EncodeFixed64_on host (CodingInit host) c = EncodeFixed64 c"
  by (simp_all add: EncodeFixed_le EncodeFixed16_on_def EncodeFixed32_on_def
      EncodeFixed64_on_def host_order_def) (simp_all add: le16_def le32_def le64_def)

lemma DecodeFixed16_portable: "DecodeFixed16_on host (CodingInit host) p = DecodeFixed16 p"
proof (cases host)
  case True
  then show ?thesis by (simp add: DecodeFixed16_def)
next
  case False
  then show ?thesis by (simp add: DecodeFixed16_un_le DecodeFixed16_on_def)
qed

lemma DecodeFixed32_portable: "DecodeFixed32_on host (CodingInit host) p = DecodeFixed32 p"
proof (cases host)
  case True
  then show ?thesis by (simp add: DecodeFixed32_def)
next
  case False
  then show ?thesis by (simp add: DecodeFixed32_un_le DecodeFixed32_on_def)
qed

lemma DecodeFixed64_portable:
  assumes "8 \<le> length p"
  shows "DecodeFixed64_on host (CodingInit host) p = DecodeFixed64 p"
proof (cases host)
  case True
  then show ?thesis by (simp add: DecodeFixed64_def)
next
  case False
  then have "DecodeFixed64_on host (CodingInit host) p =
      do { lo \<leftarrow> un_le32 p; hi \<leftarrow> un_le32 (drop 4 p); Some (push_bit 32 (ucast hi) OR ucast lo) }"
    by (simp add: DecodeFixed64_on_def DecodeFixed32_on_def)
  then show ?thesis using assms by (simp only: DecodeFixed64_un_le un_le64_halves)
qed

section \<open>Varints: what is read back is what was written\<close>

lemma bit_127_int: "bit (127 :: int) n \<longleftrightarrow> n < 7"
proof -
  have "(127 :: int) = mask 7" by (simp add: mask_eq_exp_minus_1)
  then show ?thesis by (simp only: bit_mask_iff) auto
qed
lemma bit_128_int: "bit (128 :: int) n \<longleftrightarrow> n = 7"
proof -
  have "(128 :: int) = 2 ^ 7" by simp
  then show ?thesis by (simp only: bit_exp_iff) auto
qed
lemma cont_byte_flag:
  fixes w :: "'a::len word"
  assumes "8 \<le> LENGTH('a)" 
  shows "(ucast (ucast (w OR 128) :: u8) :: 'a word) AND 128 \<noteq> 0"
proof -
  have "bit ((ucast (ucast (w OR 128) :: u8) :: 'a word) AND 128) 7"
    using assms by (simp add: bit_simps bit_128_int)
  then show ?thesis by (metis bit_0_eq bot_apply bot_bool_def)
qed

lemma cont_byte_value:
  fixes w :: "'a::len word"
  assumes "8 \<le> LENGTH('a)"
  shows "(ucast (ucast (w OR 128) :: u8) :: 'a word) AND 127 = take_bit 7 w"
  by (rule bit_word_eqI) (use assms in \<open>auto simp: bit_simps bit_127_int bit_128_int\<close>)

lemma less_128_bits:
  fixes w :: "'a::len word"
  assumes "w < 128" "8 < LENGTH('a)" "bit w n"
  shows "n < 7"
proof -
  have "unat (128 :: 'a word) = 128" 
    using assms(2) unat_two_power [of 7, where 'a = 'a] by simp
  with assms(1) have "unat w < 2 ^ 7" by (simp add: word_less_nat_alt)
  then have "take_bit 7 (unat w) = unat w" by (simp add: take_bit_nat_eq_self)
  moreover have "bit (unat w) n" using assms(3) by (simp add: bit_unsigned_iff)
  ultimately show ?thesis by (metis bit_take_bit_iff)
qed

lemma last_byte:
  fixes w :: "'a::len word"
  assumes "w < 128" "8 < LENGTH('a)"
  shows "(ucast (ucast w :: u8) :: 'a word) AND 128 = 0"  "(ucast (ucast w :: u8) :: 'a word) = w"
proof -
  note * = less_128_bits [OF assms]
  show "(ucast (ucast w :: u8) :: 'a word) AND 128 = 0"
    by (rule bit_word_eqI) (auto simp: bit_simps bit_128_int dest: *)
  show "(ucast (ucast w :: u8) :: 'a word) = w"
    by (rule bit_word_eqI) (auto simp: bit_simps dest: * )
qed

lemma less_drop_bit: fixes v :: "'a::len word"
  assumes "v < 2 ^ (k + 7)" "k + 7 < LENGTH('a)"
  shows "drop_bit k v < 128"
proof -
  have "unat v < 2 ^ (k + 7)" using assms unat_two_power [of "k + 7", where 'a = 'a] by (simp add: word_less_nat_alt)
  then have "unat v div 2 ^ k < 128" by (simp add: less_mult_imp_div_less power_add mult.commute)
  moreover have "unat (drop_bit k v) = unat v div 2 ^ k"  unfolding unat_drop_bit_eq by (rule drop_bit_eq_div)
  moreover have "unat (128 :: 'a word) = 128" 
    using assms(2) unat_two_power [of 7, where 'a = 'a] by simp
  ultimately show ?thesis by (simp add: word_less_nat_alt)
qed

text \<open>Both encoders write the same base-128 representation, the unrolled 32 bit one too.\<close>

function varint :: "'a::len word \<Rightarrow> bytes" where
  "varint v = (if v \<ge> 128 \<and> 7 < LENGTH('a) then ucast (v OR 128) # varint (drop_bit 7 v) else [ucast v])"
  by pat_completeness auto
termination
proof (relation "measure unat")
  fix v :: "'a word"
  assume "v \<ge> 128 \<and> 7 < LENGTH('a)"
  then have "128 \<le> unat v" using unat_two_power [of 7, where 'a='a] by (simp add: word_le_nat_alt)
  moreover have "unat (drop_bit 7 v) = unat v div 2 ^ 7"
    unfolding unat_drop_bit_eq by (rule drop_bit_eq_div)
  ultimately show "(drop_bit 7 v, v) \<in> measure unat" by simp
qed simp
declare varint.simps [simp del]

lemma EncodeVarint64_varint: "EncodeVarint64 v = varint v"
  by (induction v rule: EncodeVarint64.induct) (subst EncodeVarint64.simps, subst varint.simps, simp)

lemma ge_128_drop:
  fixes v :: u32
  assumes "n + 7 < 32"
  shows "drop_bit n v \<ge> 128 \<longleftrightarrow> v \<ge> 2 ^ (n + 7)"
proof -
  have "unat (2 ^ (n + 7) :: u32) = 128 * 2 ^ n"
    using assms by (subst unat_two_power) (simp_all add: power_add)
  then show ?thesis
    by (simp add: word_le_nat_alt unat_drop less_eq_div_iff_mult_less_eq)
qed

lemma varint_less: "v < 128 \<Longrightarrow> varint (v :: 'a::len word) = [ucast v]"
  by (subst varint.simps) (auto dest: leD)

lemma varint_ge: "v \<ge> 128 \<Longrightarrow> 7 < LENGTH('a) \<Longrightarrow>
    varint (v :: 'a::len word) = ucast (v OR 128) # varint (drop_bit 7 v)"
  by (subst varint.simps) simp

lemma drop_drop7: "drop_bit 7 (drop_bit n v) = drop_bit (n + 7) (v :: 'a::len word)"
  by (simp add: add.commute)

lemma varint_drop:
  fixes v :: u32
  assumes "n + 7 < 32"
  shows "varint (drop_bit n v) =
    (if v < 2 ^ (n + 7) then [ucast (drop_bit n v)]
     else ucast (drop_bit n v OR 128) # varint (drop_bit (n + 7) v))"
proof (cases "v < 2 ^ (n + 7)")
  case True
  then have "drop_bit n v < 128" using ge_128_drop [OF assms, of v] by (meson not_le)
  with True show ?thesis by (simp only: varint_less if_True)
next
  case False
  then have "drop_bit n v \<ge> 128" using ge_128_drop [OF assms, of v] by (meson not_less)
  with False show ?thesis by (simp add: varint_ge drop_drop7 del: drop_bit_drop_bit)
qed

lemma drop_28_less: "drop_bit 28 (v :: u32) < 128"
proof -
  have "unat v < 2 ^ 32" using unsigned_less [of v] by simp
  then have "unat (drop_bit 28 v) < 128" unfolding unat_drop by (simp add: less_mult_imp_div_less)
  then show ?thesis by (simp add: word_less_nat_alt)
qed

lemma EncodeVarint32_varint: "EncodeVarint32 v = varint v"
  using varint_drop [of 0 v] varint_drop [of 7 v] varint_drop [of 14 v] varint_drop [of 21 v]
    varint_less [OF drop_28_less [of v]]
  unfolding EncodeVarint32_def by simp

lemma read_first:
  "0 < n \<Longrightarrow> remove_prefix (Suc 0) \<lparr>sl_data = b # r, sl_size = n\<rparr> = Some \<lparr>sl_data = r, sl_size = n - 1\<rparr>"
  by (simp add: remove_prefix_def)

lemma take_bit_step: "(take_bit k v OR push_bit k (take_bit 7 (drop_bit k v))) = take_bit (k + 7) (v :: 'a::len word)"
  by (rule bit_word_eqI) (auto simp: bit_simps)

lemma take_bit_last: "(take_bit k v OR push_bit k (drop_bit k v)) = (v :: 'a::len word)"
proof (rule bit_word_eqI)
  fix n assume "n < LENGTH('a)"
  then show "bit (take_bit k v OR push_bit k (drop_bit k v)) n = bit v n"
    by (cases "n < k") (auto simp: bit_simps)
qed

lemma GetVarint32_varint:
  fixes v :: u32
  assumes "i \<le> 4" "length (varint (drop_bit (7 * i) v)) \<le> n"
  shows "GetVarint32PtrFallback (7 * i) (take_bit (7 * i) v)
           \<lparr>sl_data = varint (drop_bit (7 * i) v) @ r, sl_size = n\<rparr> =
         Some (Some (v, \<lparr>sl_data = r, sl_size = n - length (varint (drop_bit (7 * i) v))\<rparr>))"
  using assms
proof (induction "4 - i" arbitrary: i n)
  case 0
  then have i: "i = 4" by simp
  have small: "drop_bit (7 * i) v < 128" using drop_28_less by (simp add: i)
  show ?case using "0.prems" varint_less [OF small] last_byte [OF small]
    by (subst GetVarint32PtrFallback.simps) (simp add: i read_first take_bit_last)
next
  case (Suc x)
  show ?case
  proof (cases "drop_bit (7 * i) v < 128")
    case True
    then show ?thesis using Suc varint_less [OF True] last_byte [OF True]
      by (subst GetVarint32PtrFallback.simps) (simp add: read_first take_bit_last)
  next
    case False
    then have eq: "varint (drop_bit (7 * i) v) =
        ucast (drop_bit (7 * i) v OR 128) # varint (drop_bit (7 * Suc i) v)"
      by (subst varint_ge) (simp_all only: not_less drop_drop7 mult_Suc_right len_of_numeral_defs, simp_all add: add.commute)
    have n: "length (varint (drop_bit (7 * Suc i) v)) \<le> n - 1" "0 < n" using Suc.prems eq by auto
    have IH: "GetVarint32PtrFallback (7 * Suc i) (take_bit (7 * Suc i) v)
           \<lparr>sl_data = varint (drop_bit (7 * Suc i) v) @ r, sl_size = n - 1\<rparr> =
         Some (Some (v, \<lparr>sl_data = r, sl_size = n - 1 - length (varint (drop_bit (7 * Suc i) v))\<rparr>))"
      by (rule Suc.hyps(1)) (use Suc n in auto)
    have "7 * i \<le> 28" using Suc by simp
    with IH n show ?thesis unfolding eq
      by (subst GetVarint32PtrFallback.simps)
        (simp add: read_first cont_byte_flag cont_byte_value take_bit_step add.commute [of "7 * i" 7])
  qed
qed

lemma drop_63_less: "drop_bit 63 (v :: u64) < 128"
proof -
  have "unat v < 2 ^ 64" using unsigned_less [of v] by simp
  then have "unat (drop_bit 63 v) < 128" unfolding unat_drop by (simp add: less_mult_imp_div_less)
  then show ?thesis by (simp add: word_less_nat_alt)
qed

lemma GetVarint64_varint:
  fixes v :: u64
  assumes "i \<le> 9" "length (varint (drop_bit (7 * i) v)) \<le> n"
  shows "GetVarint64Ptr (7 * i) (take_bit (7 * i) v)
           \<lparr>sl_data = varint (drop_bit (7 * i) v) @ r, sl_size = n\<rparr> =
         Some (Some (v, \<lparr>sl_data = r, sl_size = n - length (varint (drop_bit (7 * i) v))\<rparr>))"
  using assms
proof (induction "9 - i" arbitrary: i n)
  case 0
  then have i: "i = 9" by simp
  have small: "drop_bit (7 * i) v < 128" using drop_63_less by (simp add: i)
  show ?case using "0.prems" varint_less [OF small] last_byte [OF small]
    by (subst GetVarint64Ptr.simps) (simp add: i read_first take_bit_last)
next
  case (Suc x)
  show ?case
  proof (cases "drop_bit (7 * i) v < 128")
    case True
    then show ?thesis using Suc varint_less [OF True] last_byte [OF True]
      by (subst GetVarint64Ptr.simps) (simp add: read_first take_bit_last)
  next
    case False
    then have eq: "varint (drop_bit (7 * i) v) =
        ucast (drop_bit (7 * i) v OR 128) # varint (drop_bit (7 * Suc i) v)"
      by (subst varint_ge) (simp_all only: not_less drop_drop7 mult_Suc_right len_of_numeral_defs, simp_all add: add.commute)
    have n: "length (varint (drop_bit (7 * Suc i) v)) \<le> n - 1" "0 < n" using Suc.prems eq by auto
    have IH: "GetVarint64Ptr (7 * Suc i) (take_bit (7 * Suc i) v)
           \<lparr>sl_data = varint (drop_bit (7 * Suc i) v) @ r, sl_size = n - 1\<rparr> =
         Some (Some (v, \<lparr>sl_data = r, sl_size = n - 1 - length (varint (drop_bit (7 * Suc i) v))\<rparr>))"
      by (rule Suc.hyps(1)) (use Suc n in auto)
    have "7 * i \<le> 63" using Suc by simp
    with IH n show ?thesis unfolding eq
      by (subst GetVarint64Ptr.simps)
        (simp add: read_first cont_byte_flag cont_byte_value take_bit_step add.commute [of "7 * i" 7])
  qed
qed

lemma GetVarint32Ptr_EncodeVarint32:
  assumes "length (EncodeVarint32 v) \<le> n"
  shows "GetVarint32Ptr \<lparr>sl_data = EncodeVarint32 v @ r, sl_size = n\<rparr> =
         Some (Some (v, \<lparr>sl_data = r, sl_size = n - length (EncodeVarint32 v)\<rparr>))"
proof (cases "v < 128")
  case True
  then show ?thesis using assms last_byte [OF True]
    by (simp add: GetVarint32Ptr_def EncodeVarint32_varint varint_less read_first)
next
  case False
  then have "EncodeVarint32 v = ucast (v OR 128) # varint (drop_bit 7 v)"
    by (simp add: EncodeVarint32_varint varint_ge)
  with assms GetVarint32_varint [of 0 v n r] cont_byte_flag [of v] show ?thesis
    by (simp add: GetVarint32Ptr_def read_first EncodeVarint32_varint)
qed

lemma DecodeVarint32_EncodeVarint32 [codec_simps]:
  "length (EncodeVarint32 v) \<le> n \<Longrightarrow>
   DecodeVarint32 \<lparr>sl_data = EncodeVarint32 v @ r, sl_size = n\<rparr> =
     Some (True, \<lparr>sl_data = r, sl_size = n - length (EncodeVarint32 v)\<rparr>, Some v)"
  by (simp add: DecodeVarint32_def GetVarint32Ptr_EncodeVarint32)

lemma DecodeVarint32Bytes_EncodeVarint32 [codec_simps]:
  "length (EncodeVarint32 v) \<le> n \<Longrightarrow>
   DecodeVarint32Bytes \<lparr>sl_data = EncodeVarint32 v @ r, sl_size = n\<rparr> =
     Some (int (length (EncodeVarint32 v)),
           \<lparr>sl_data = r, sl_size = n - length (EncodeVarint32 v)\<rparr>, Some v)"
  by (simp add: DecodeVarint32Bytes_def GetVarint32Ptr_EncodeVarint32)

lemma DecodeVarint64_EncodeVarint64 [codec_simps]:
  "length (EncodeVarint64 v) \<le> n \<Longrightarrow>
   DecodeVarint64 \<lparr>sl_data = EncodeVarint64 v @ r, sl_size = n\<rparr> =
     Some (True, \<lparr>sl_data = r, sl_size = n - length (EncodeVarint64 v)\<rparr>, Some v)"
  using GetVarint64_varint [of 0 v n r] by (simp add: DecodeVarint64_def EncodeVarint64_varint)

lemma EncodeVarint32_length:
  "0 < length (EncodeVarint32 v)" "length (EncodeVarint32 v) \<le> 5"
  "v < 128 \<longleftrightarrow> length (EncodeVarint32 v) = 1"
  by (simp_all add: EncodeVarint32_def)

section \<open>Strings: what is read back is what was written\<close>

lemma DecodeString_EncodeString:
  assumes "length s < 2 ^ 32" "length (EncodeString2 s) \<le> n"
  shows "DecodeString \<lparr>sl_data = EncodeString2 s @ r, sl_size = n\<rparr> =
         Some (True, \<lparr>sl_data = r, sl_size = n - length (EncodeString2 s)\<rparr>,
               Some \<lparr>sl_data = s @ r, sl_size = length s\<rparr>)"
  using assms
  by (simp add: DecodeString_def EncodeString2_def DecodeVarint32_EncodeVarint32 unat_of_nat
      take_bit_nat_eq_self remove_prefix_def)

lemma DecodeString2_EncodeString2 [codec_simps]:
  assumes "length s < 2 ^ 31 - 1" "length (EncodeString2 s) \<le> n"
  shows "DecodeString2 \<lparr>sl_data = EncodeString2 s @ r, sl_size = n\<rparr> =
         Some (1 + int (length s), \<lparr>sl_data = r, sl_size = n - length (EncodeString2 s)\<rparr>,
               Some \<lparr>sl_data = s @ r, sl_size = length s\<rparr>)"
proof -
  have "sint (1 + of_nat (length s) :: u32) = 1 + int (length s)"
    using assms(1) sint_of_nat_small [of "Suc (length s)", where 'a = 32] by simp
  then show ?thesis
    using assms
    by (simp add: DecodeString2_def EncodeString2_def DecodeVarint32_EncodeVarint32 unat_of_nat
      take_bit_nat_eq_self remove_prefix_def)
qed

section \<open>Properties\<close>

text \<open>C39. The wire and disk format does not depend on the machine: with the flag that
  \<open>CodingInit\<close> computes, the fixed width encoders write the same little-endian bytes on a
  big-endian as on a little-endian host, and on either host the decoders read back the value
  that was encoded, whatever follows it in memory.\<close>

theorem fixed_codecs_portable:
  "EncodeFixed16_on host (CodingInit host) a = EncodeFixed16 a \<and>
   EncodeFixed32_on host (CodingInit host) b = EncodeFixed32 b \<and>
   EncodeFixed64_on host (CodingInit host) c = EncodeFixed64 c \<and>
   DecodeFixed16_on host (CodingInit host) (EncodeFixed16 a @ r) = Some a \<and>
   DecodeFixed32_on host (CodingInit host) (EncodeFixed32 b @ r) = Some b \<and>
   DecodeFixed64_on host (CodingInit host) (EncodeFixed64 c @ r) = Some c"
  by (simp only: EncodeFixed_portable DecodeFixed16_portable DecodeFixed32_portable
      DecodeFixed_EncodeFixed simp_thms, subst DecodeFixed64_portable) simp_all

text \<open>A varint is read back whole, by both widths, from any slice that contains it:
  the value is the one encoded and the slice moves past exactly the bytes written, of which
  there are one to five for 32 bits, one exactly when the value is below 128.\<close>

theorem varint_roundtrip:
  assumes "length (EncodeVarint32 v) \<le> n" and "length (EncodeVarint64 w) \<le> m"
  shows "DecodeVarint32 \<lparr>sl_data = EncodeVarint32 v @ r, sl_size = n\<rparr> =
           Some (True, \<lparr>sl_data = r, sl_size = n - length (EncodeVarint32 v)\<rparr>, Some v) \<and>
         DecodeVarint64 \<lparr>sl_data = EncodeVarint64 w @ r, sl_size = m\<rparr> =
           Some (True, \<lparr>sl_data = r, sl_size = m - length (EncodeVarint64 w)\<rparr>, Some w) \<and>
         1 \<le> length (EncodeVarint32 v) \<and> length (EncodeVarint32 v) \<le> 5 \<and>
         (length (EncodeVarint32 v) = 1 \<longleftrightarrow> v < 128)"
  using assms EncodeVarint32_length [of v]
  by (simp add: DecodeVarint32_EncodeVarint32 DecodeVarint64_EncodeVarint64 Suc_le_eq)

theorem varint_roundtrip_witness:
  "DecodeVarint32 \<lparr>sl_data = EncodeVarint32 300 @ [7], sl_size = 2\<rparr> =
     Some (True, \<lparr>sl_data = [7], sl_size = 0\<rparr>, Some 300)"
proof -
  have l: "length (EncodeVarint32 300) = 2" "length (EncodeVarint64 5) = 1"
    by (simp_all add: EncodeVarint32_def EncodeVarint64.simps)
  with varint_roundtrip [of 300 2 5 1 "[7]"] show ?thesis by simp
qed

text \<open>A length-prefixed string is decoded to itself and the slice moves past all its bytes,
  but the size that \<open>DecodeString2\<close> returns is the number of bytes consumed exactly when the
  string is shorter than 128 bytes.\<close>

theorem string2_roundtrip:
  assumes "length s < 2 ^ 31 - 1" and "length (EncodeString2 s) \<le> n"
  shows "\<exists>sz rest v. DecodeString2 \<lparr>sl_data = EncodeString2 s @ r, sl_size = n\<rparr> =
             Some (sz, rest, Some v) \<and>
           Slice_ToString v = Some s \<and>
           rest = \<lparr>sl_data = r, sl_size = n - length (EncodeString2 s)\<rparr> \<and>
           (sz = int (length (EncodeString2 s)) \<longleftrightarrow> length s < 128)"
proof -
  have "length (EncodeVarint32 (of_nat (length s))) = 1 \<longleftrightarrow> length s < 128"
    using assms(1) EncodeVarint32_length(3) [of "of_nat (length s)"]
    by (simp add: word_less_nat_alt unat_of_nat take_bit_nat_eq_self)
  then show ?thesis
    using DecodeString2_EncodeString2 [OF assms, of r]
    by (auto simp: Slice_ToString_def EncodeString2_def)
qed

theorem string2_roundtrip_witness:
  "\<exists>sz rest v. DecodeString2 \<lparr>sl_data = EncodeString2 (replicate 128 0) @ [1], sl_size = 130\<rparr> =
      Some (sz, rest, Some v) \<and> Slice_ToString v = Some (replicate 128 0) \<and>
      sz \<noteq> int (length (EncodeString2 (replicate 128 0)))"
proof -
  have "length (EncodeString2 (replicate 128 (0 :: u8))) \<le> 130"
    by (simp add: EncodeString2_def EncodeVarint32_def)
  with string2_roundtrip [of "replicate 128 0" 130 "[1]"] show ?thesis by auto
qed

end
