(* ===== verification/RaftConfig.thy ===== *)
theory RaftConfig
  imports Coding
begin

text \<open>
  Server addresses (src/src/raft/raft_addr.h), cluster configurations
  (src/src/raft/raft_config.h, raft_config.cc and the codec in config_manager.cc) and the
  \<^verbatim>\<open>ConfigManager\<close> that keeps the current and the previous configuration.
\<close>

section \<open>Addresses\<close>

text \<open>The \<^verbatim>\<open>int16_t\<close> field \<open>ra_id\<close> is kept as its 16 bits.\<close>

datatype RaftAddr = RaftAddr (ra_ip: u32) (ra_port: u16) (ra_id: u16)

text \<open>\<^verbatim>\<open>ToU64\<close> encodes the three fields into the memory of a \<^verbatim>\<open>uint64_t\<close> and reads it
  as a number, \<^verbatim>\<open>FromU64\<close> decodes them from that memory; both stay inside its 8 bytes.\<close>

definition RaftAddr_ToU64 :: "RaftAddr \<Rightarrow> u64" where
  "RaftAddr_ToU64 a =
     the (un_le64 (EncodeFixed32 (ra_ip a) @ EncodeFixed16 (ra_port a) @ EncodeFixed16 (ra_id a)))"

definition RaftAddr_FromU64 :: "u64 \<Rightarrow> RaftAddr" where
  "RaftAddr_FromU64 u64 = (let p = le64 u64 in
     RaftAddr (the (DecodeFixed32 p)) (the (DecodeFixed16 (drop 4 p)))
       (the (DecodeFixed16 (drop 6 p))))"

definition RaftAddr_eq :: "RaftAddr \<Rightarrow> RaftAddr \<Rightarrow> bool" where
  "RaftAddr_eq a b \<longleftrightarrow> ra_ip a = ra_ip b \<and> ra_port a = ra_port b \<and> ra_id a = ra_id b"

definition RaftAddr_less :: "RaftAddr \<Rightarrow> RaftAddr \<Rightarrow> bool" where
  "RaftAddr_less a b \<longleftrightarrow> RaftAddr_ToU64 a < RaftAddr_ToU64 b"

section \<open>Configurations\<close>

record RaftConfig =
  rc_me :: RaftAddr
  rc_peers :: "RaftAddr list"

definition RaftConfig_eq :: "RaftConfig \<Rightarrow> RaftConfig \<Rightarrow> bool" where
  "RaftConfig_eq c1 c2 =
     (if \<not> RaftAddr_eq (rc_me c1) (rc_me c2) then False
      else if length (rc_peers c1) \<noteq> length (rc_peers c2) then False
      else list_all2 RaftAddr_eq (rc_peers c1) (rc_peers c2))"

definition RaftConfig_MaxBytes :: "RaftConfig \<Rightarrow> int" where
  "RaftConfig_MaxBytes rc = 8 + 4 * 2 + 8 * int (length (rc_peers rc))"

definition RaftConfig_ToString :: "RaftConfig \<Rightarrow> int \<Rightarrow> bytes option" where
  "RaftConfig_ToString rc len = (
     let peers_size = sint (of_nat (length (rc_peers rc)) :: u32);
         bs = EncodeFixed64 (RaftAddr_ToU64 (rc_me rc)) @
              EncodeFixed32 (word_of_int peers_size) @
              concat (map (\<lambda>a. EncodeFixed64 (RaftAddr_ToU64 a))
                        (take (nat peers_size) (rc_peers rc)))
     in do { check (int (length bs) \<le> len); Some bs })"

text \<open>The overload for \<^verbatim>\<open>std::string\<close> allocates \<^verbatim>\<open>MaxBytes()\<close> and encodes into it.\<close>

definition RaftConfig_ToStr :: "RaftConfig \<Rightarrow> bytes option" where
  "RaftConfig_ToStr rc = RaftConfig_ToString rc (RaftConfig_MaxBytes rc)"

fun DecodePeers :: "nat \<Rightarrow> bytes \<Rightarrow> RaftAddr list option" where
  "DecodePeers 0 p = Some []"
| "DecodePeers (Suc n) p = do {
     u64 \<leftarrow> DecodeFixed64 p;
     peers \<leftarrow> DecodePeers n (drop 8 p);
     Some (RaftAddr_FromU64 u64 # peers) }"

text \<open>The decoded peers are appended to the ones the object already has.\<close>

definition RaftConfig_FromString :: "RaftConfig \<Rightarrow> bytes \<Rightarrow> int \<Rightarrow> (RaftConfig \<times> int) option" where
  "RaftConfig_FromString rc p len = do {
     u64 \<leftarrow> DecodeFixed64 p;
     n \<leftarrow> DecodeFixed32 (drop 8 p);
     let peers_size = sint n;
     peers \<leftarrow> DecodePeers (nat peers_size) (drop 12 p);
     let size = 8 + 4 + 8 * int (nat peers_size);
     check (len - size \<ge> 0);
     Some (\<lparr>rc_me = RaftAddr_FromU64 u64, rc_peers = rc_peers rc @ peers\<rparr>, size) }"

definition RaftConfig_InConfig :: "RaftConfig \<Rightarrow> RaftAddr \<Rightarrow> bool" where
  "RaftConfig_InConfig rc addr =
     (if RaftAddr_ToU64 (rc_me rc) = RaftAddr_ToU64 addr then True
      else list_ex (\<lambda>a. RaftAddr_ToU64 a = RaftAddr_ToU64 addr) (rc_peers rc))"

definition RaftConfig_ToVector :: "RaftConfig \<Rightarrow> RaftAddr list" where
  "RaftConfig_ToVector rc = rc_me rc # rc_peers rc"

definition RaftConfig_ToSet :: "RaftConfig \<Rightarrow> RaftAddr set" where
  "RaftConfig_ToSet rc = fold insert (rc_peers rc) {rc_me rc}"

definition RaftConfig_IamIn :: "RaftConfig \<Rightarrow> RaftConfig \<Rightarrow> bool" where
  "RaftConfig_IamIn c rhs \<longleftrightarrow>
     list_all (\<lambda>a. a \<in> RaftConfig_ToSet rhs) (RaftConfig_ToVector c)"

definition ConfigCompare :: "RaftConfig \<Rightarrow> RaftConfig \<Rightarrow> int \<times> RaftAddr list" where
  "ConfigCompare c1 c2 =
     (if RaftConfig_eq c1 c2 then (0, [])
      else if RaftConfig_IamIn c1 c2 then
        (-1, filter (\<lambda>a. a \<notin> RaftConfig_ToSet c1) (RaftConfig_ToVector c2))
      else if RaftConfig_IamIn c2 c1 then
        (1, filter (\<lambda>a. a \<notin> RaftConfig_ToSet c2) (RaftConfig_ToVector c1))
      else (-2, []))"

section \<open>Configuration manager\<close>

text \<open>The callback \<^verbatim>\<open>current_cb_\<close>, run after each change, is a no-op for the replica: its
  effect on the managers of the peers is part of the configuration change of the replica.\<close>

record ConfigManager =
  cm_current :: RaftConfig
  cm_previous :: "RaftConfig option"

definition ConfigManager_new :: "RaftConfig \<Rightarrow> ConfigManager" where
  "ConfigManager_new current = \<lparr>cm_current = current, cm_previous = None\<rparr>"

definition ConfigManager_SetCurrent :: "RaftConfig \<Rightarrow> ConfigManager \<Rightarrow> ConfigManager" where
  "ConfigManager_SetCurrent rc cm = \<lparr>cm_current = rc, cm_previous = Some (cm_current cm)\<rparr>"

definition ConfigManager_Rollback :: "ConfigManager \<Rightarrow> ConfigManager option" where
  "ConfigManager_Rollback cm =
     (case cm_previous cm of
        None \<Rightarrow> None
      | Some p \<Rightarrow> Some \<lparr>cm_current = p, cm_previous = None\<rparr>)"

section \<open>Addresses are 64 bit numbers\<close>

lemma un_le64_eq_Some: "8 \<le> length p \<Longrightarrow> \<exists>v. un_le64 p = Some v"
  by (cases p rule: un_le64.cases) auto

lemma le64_un_le64:
  assumes "un_le64 p = Some v"
  shows "le64 v = take 8 p"
proof -
  from assms obtain b0 b1 b2 b3 b4 b5 b6 b7 r where
    p: "p = b0 # b1 # b2 # b3 # b4 # b5 # b6 # b7 # r" and
    v: "v = (put_byte 0 b0 OR put_byte 8 b1 OR put_byte 16 b2 OR put_byte 24 b3 OR
           put_byte 32 b4 OR put_byte 40 b5 OR put_byte 48 b6 OR put_byte 56 b7)"
    by (cases p rule: un_le64.cases) auto
  show ?thesis
    unfolding p v le64_def
    by (simp, intro conjI; rule bit_word_eqI)
       (auto simp: bit_byte_at bit_or_iff byte_at_put_byte)
qed

lemma le32_bytes:
  "le32 (put_byte 0 b0 OR put_byte 8 b1 OR put_byte 16 b2 OR put_byte 24 b3) = [b0, b1, b2, b3]"
  unfolding le32_def
  by (simp, intro conjI; rule bit_word_eqI) (auto simp: bit_byte_at bit_or_iff byte_at_put_byte)

lemma le16_bytes: "le16 (put_byte 0 b0 OR put_byte 8 b1) = [b0, b1]"
  unfolding le16_def
  by (simp, intro conjI; rule bit_word_eqI) (auto simp: bit_byte_at bit_or_iff byte_at_put_byte)

lemma le64_ToU64: "le64 (RaftAddr_ToU64 a) =
    EncodeFixed32 (ra_ip a) @ EncodeFixed16 (ra_port a) @ EncodeFixed16 (ra_id a)"
proof -
  obtain v where v: "un_le64 (EncodeFixed32 (ra_ip a) @ EncodeFixed16 (ra_port a) @
      EncodeFixed16 (ra_id a)) = Some v"
    using un_le64_eq_Some [of "EncodeFixed32 (ra_ip a) @ EncodeFixed16 (ra_port a) @
      EncodeFixed16 (ra_id a)"] by auto
  from le64_un_le64 [OF v] show ?thesis by (simp add: RaftAddr_ToU64_def v)
qed

lemma FromU64_ToU64 [simp, codec_simps]: "RaftAddr_FromU64 (RaftAddr_ToU64 a) = a"
  by (simp add: RaftAddr_FromU64_def le64_ToU64 Let_def)

lemma ToU64_inject [simp]: "RaftAddr_ToU64 a = RaftAddr_ToU64 b \<longleftrightarrow> a = b"
  by (metis FromU64_ToU64)

lemma ToU64_FromU64 [simp]: "RaftAddr_ToU64 (RaftAddr_FromU64 u) = u"
proof -
  obtain b0 b1 b2 b3 b4 b5 b6 b7 where p: "le64 u = [b0,b1,b2,b3,b4,b5,b6,b7]"
    by (auto simp: le64_def)
  have "le64 (RaftAddr_ToU64 (RaftAddr_FromU64 u)) = le64 u"
    by (simp add: le64_ToU64 EncodeFixed_le RaftAddr_FromU64_def p Let_def DecodeFixed32_un_le
        DecodeFixed16_un_le le32_bytes le16_bytes)
  then show ?thesis by (metis append_Nil2 option.inject un_le64_le64)
qed

instantiation RaftAddr :: linorder
begin
definition less_RaftAddr :: "RaftAddr \<Rightarrow> RaftAddr \<Rightarrow> bool" where
  "less_RaftAddr a b = RaftAddr_less a b"
definition less_eq_RaftAddr :: "RaftAddr \<Rightarrow> RaftAddr \<Rightarrow> bool" where
  "less_eq_RaftAddr a b \<longleftrightarrow> RaftAddr_ToU64 a \<le> RaftAddr_ToU64 b"
instance
  by standard (auto simp: less_RaftAddr_def less_eq_RaftAddr_def RaftAddr_less_def less_le)
end

lemma RaftAddr_eq_iff [simp]: "RaftAddr_eq a b \<longleftrightarrow> a = b"
  by (auto simp: RaftAddr_eq_def RaftAddr.expand)

section \<open>Comparing configurations\<close>

lemma RaftConfig_eq_iff [simp]: "RaftConfig_eq c1 c2 \<longleftrightarrow> c1 = c2"
proof -
  have "RaftAddr_eq = (=)" by (intro ext) simp
  then show ?thesis
    by (auto simp: RaftConfig_eq_def list.rel_eq)
qed

lemma ToSet_ToVector: "RaftConfig_ToSet rc = set (RaftConfig_ToVector rc)"
  by (simp add: RaftConfig_ToSet_def RaftConfig_ToVector_def flip: union_set_fold)

lemma IamIn_subset: "RaftConfig_IamIn c1 c2 \<longleftrightarrow> RaftConfig_ToSet c1 \<subseteq> RaftConfig_ToSet c2"
  by (auto simp: RaftConfig_IamIn_def ToSet_ToVector list_all_iff)

lemma InConfig_ToSet: "RaftConfig_InConfig rc a \<longleftrightarrow> a \<in> RaftConfig_ToSet rc"
  by (auto simp: RaftConfig_InConfig_def ToSet_ToVector RaftConfig_ToVector_def list_ex_iff)

section \<open>The codec of configurations\<close>

definition RaftConfig_ok :: "RaftConfig \<Rightarrow> bool" where
  "RaftConfig_ok rc \<longleftrightarrow> length (rc_peers rc) < 2 ^ 31"

lemma DecodePeers_encoded:
  "DecodePeers (length peers) (concat (map (\<lambda>a. EncodeFixed64 (RaftAddr_ToU64 a)) peers) @ r) =
     Some peers"
  by (induction peers) simp_all

lemma length_concat_Fixed64 [simp]:
  "length (concat (map (\<lambda>a. EncodeFixed64 (f a)) xs)) = 8 * length xs"
  by (induction xs) simp_all

lemma RaftConfig_ToStr_eq:
  assumes "RaftConfig_ok rc"
  shows "RaftConfig_ToStr rc = Some (EncodeFixed64 (RaftAddr_ToU64 (rc_me rc)) @
     EncodeFixed32 (of_nat (length (rc_peers rc))) @
     concat (map (\<lambda>a. EncodeFixed64 (RaftAddr_ToU64 a)) (rc_peers rc)))"
  using assms sint_of_nat_small [of "length (rc_peers rc)", where 'a = 32]
  by (simp add: RaftConfig_ToStr_def RaftConfig_ToString_def RaftConfig_MaxBytes_def
      RaftConfig_ok_def Let_def)

lemma RaftConfig_FromString_ToStr:
  assumes "RaftConfig_ok rc" "RaftConfig_ToStr rc = Some bs" "int (length bs) \<le> len"
  shows "RaftConfig_FromString old (bs @ r) len =
    Some (rc\<lparr>rc_peers := rc_peers old @ rc_peers rc\<rparr>, int (length bs))"
proof -
  have "sint (of_nat (length (rc_peers rc)) :: u32) = int (length (rc_peers rc))"
    using assms(1) by (simp add: RaftConfig_ok_def sint_of_nat_small)
  with assms show ?thesis
    by (auto simp: RaftConfig_ToStr_eq RaftConfig_FromString_def DecodePeers_encoded)
qed

section \<open>Properties\<close>

text \<open>\<open>ConfigCompare\<close> classifies two configurations as its comment says: 0 for equal ones,
  -1 when the members of the first are among those of the second, 1 the other way round, -2 when
  neither contains the other, and \<open>diff\<close> is the list of the members that only the larger one
  has.\<close>

theorem ConfigCompare_classifies:
  assumes "ConfigCompare c1 c2 = (r, diff)"
  shows "(r = 0 \<longleftrightarrow> c1 = c2) \<and>
    (r = -1 \<longleftrightarrow> c1 \<noteq> c2 \<and> RaftConfig_ToSet c1 \<subseteq> RaftConfig_ToSet c2) \<and>
    (r = 1 \<longleftrightarrow> RaftConfig_ToSet c2 \<subset> RaftConfig_ToSet c1) \<and>
    (r = -2 \<longleftrightarrow> \<not> RaftConfig_ToSet c1 \<subseteq> RaftConfig_ToSet c2 \<and>
       \<not> RaftConfig_ToSet c2 \<subseteq> RaftConfig_ToSet c1) \<and>
    (r = -1 \<longrightarrow> set diff = RaftConfig_ToSet c2 - RaftConfig_ToSet c1) \<and>
    (r = 1 \<longrightarrow> set diff = RaftConfig_ToSet c1 - RaftConfig_ToSet c2)"
  using assms
  by (auto simp: ConfigCompare_def IamIn_subset ToSet_ToVector split: if_splits)

theorem ConfigCompare_classifies_witness:
  "\<exists>c1 c2 d. ConfigCompare c1 c2 = (1, [d]) \<and> RaftConfig_ToSet c2 \<subset> RaftConfig_ToSet c1"
proof -
  let ?a = "RaftAddr 1 2 0" and ?b = "RaftAddr 1 3 0" and ?d = "RaftAddr 1 4 0"
  let ?c1 = "\<lparr>rc_me = ?a, rc_peers = [?b, ?d]\<rparr>" and ?c2 = "\<lparr>rc_me = ?a, rc_peers = [?b]\<rparr>"
  have "ConfigCompare ?c1 ?c2 = (1, [?d])"
    by (simp add: ConfigCompare_def IamIn_subset ToSet_ToVector RaftConfig_ToVector_def)
  with ConfigCompare_classifies [of ?c1 ?c2 1 "[?d]"] show ?thesis by blast
qed

end
