(* ===== verification/Util.thy ===== *)
theory Util
  imports Coding
begin

unbundle bit_operations_syntax

text \<open>
  The helpers of src/src/util/util.cc that the rest of the code computes with: the CRC-32 that
  guards log entries and places keys in partitions, and the string helpers of the configuration
  parser and the console.
\<close>

section \<open>CRC-32\<close>

definition crc_bit :: "u32 \<Rightarrow> u32" where
  "crc_bit crc =
     (if crc AND 1 \<noteq> 0 then drop_bit 1 crc XOR 0xEDB88320 else drop_bit 1 crc)"

definition crc_byte :: "u8 \<Rightarrow> u32 \<Rightarrow> u32" where
  "crc_byte b crc = (crc_bit ^^ 8) (crc XOR ucast b)"

definition Crc32 :: "bytes \<Rightarrow> u32" where
  "Crc32 buf = NOT (fold crc_byte buf 0xFFFFFFFF)"

definition PartitionId :: "bytes \<Rightarrow> int \<Rightarrow> int option" where
  "PartitionId key partition_num = do {
     check (partition_num \<noteq> 0);
     Some (sint (word_of_int (uint (Crc32 key) mod (partition_num mod 2 ^ 32)) :: u32)) }"

section \<open>Strings\<close>

text \<open>The helpers only compare characters, so they are stated for lists over any type: the
  configuration works on \<open>string\<close>, the stores on byte strings.\<close>

fun Split_loop :: "'a \<Rightarrow> 'a list \<Rightarrow> 'a list list \<Rightarrow> 'a list \<Rightarrow> 'a list list" where
  "Split_loop sep temp result [] = (if temp \<noteq> [] then result @ [temp] else result)"
| "Split_loop sep temp result (ch # str) =
     (if ch = sep then
        (if temp \<noteq> [] then Split_loop sep [] (result @ [temp]) str
         else Split_loop sep temp result str)
      else Split_loop sep (temp @ [ch]) result str)"

definition Split :: "'a list \<Rightarrow> 'a \<Rightarrow> 'a list list" where
  "Split str separator = Split_loop separator [] [] str"

definition DelSpace :: "bytes \<Rightarrow> bytes" where
  "DelSpace str = filter (\<lambda>c. c \<noteq> 0x20 \<and> c \<noteq> 0x09) str"

definition IsNumber :: "string \<Rightarrow> bool" where
  "IsNumber str = list_all (\<lambda>ch. ch \<in> set ''0123456789'') str"

function DelTail_len :: "'a list \<Rightarrow> 'a \<Rightarrow> nat \<Rightarrow> nat" where
  "DelTail_len s ch len = (if 0 < len \<and> s ! (len - 1) = ch then DelTail_len s ch (len - 1) else len)"
  by pat_completeness auto
termination
  by (relation "measure (\<lambda>(_, _, len). len)") auto

declare DelTail_len.simps [simp del]

definition DelTail :: "'a list \<Rightarrow> 'a \<Rightarrow> 'a list" where
  "DelTail s ch = take (DelTail_len s ch (length s)) s"

function DelHead_pos :: "'a list \<Rightarrow> 'a list \<Rightarrow> nat \<Rightarrow> nat" where
  "DelHead_pos s del pos =
     (if pos < length s \<and> s ! pos \<in> set del then DelHead_pos s del (pos + 1) else pos)"
  by pat_completeness auto
termination
  by (relation "measure (\<lambda>(s, _, pos). length s - pos)") auto

declare DelHead_pos.simps [simp del]

definition DelHead :: "'a list \<Rightarrow> 'a list \<Rightarrow> 'a list" where
  "DelHead s del = drop (DelHead_pos s del 0) s"

text \<open>The overload of \<^verbatim>\<open>DelTail\<close> that removes any of several characters.\<close>

function DelTails_len :: "'a list \<Rightarrow> 'a list \<Rightarrow> nat \<Rightarrow> nat" where
  "DelTails_len s del len =
     (if 0 < len \<and> s ! (len - 1) \<in> set del then DelTails_len s del (len - 1) else len)"
  by pat_completeness auto
termination
  by (relation "measure (\<lambda>(_, _, len). len)") auto

declare DelTails_len.simps [simp del]

definition DelTails :: "'a list \<Rightarrow> 'a list \<Rightarrow> 'a list" where
  "DelTails s del = take (DelTails_len s del (length s)) s"

text \<open>Character literals as the bytes they stand for.\<close>

definition lit :: "string \<Rightarrow> bytes" where
  "lit s = map of_char s"

text \<open>What \<^verbatim>\<open>%s\<close> and \<^verbatim>\<open>atoi\<close> see of a string: the characters before the first zero.\<close>

definition c_str :: "bytes \<Rightarrow> bytes" where
  "c_str = takeWhile (\<lambda>b. b \<noteq> 0)"

definition ToLower :: "bytes \<Rightarrow> bytes" where
  "ToLower = map (\<lambda>c. if 0x41 \<le> c \<and> c \<le> 0x5A then c + 0x20 else c)"

section \<open>The checksum step is invertible\<close>

lemma poly_31: "bit (0xEDB88320 :: u32) 31"
  by (simp add: bit_numeral_simps)

lemma bit_crc_bit:
  "bit (crc_bit c) n \<longleftrightarrow> (bit c (Suc n) \<noteq> (bit c 0 \<and> bit (0xEDB88320 :: u32) n))"
proof -
  have "c AND 1 \<noteq> 0 \<longleftrightarrow> bit c 0" by (simp add: and_one_eq bit_0 odd_iff_mod_2_eq_one)
  then show ?thesis
    by (cases "n < 32") (auto simp: crc_bit_def bit_simps dest: bit_imp_le_length)
qed

lemma crc_bit_inj: "crc_bit c = crc_bit d \<Longrightarrow> c = d"
proof (rule bit_word_eqI)
  fix n
  assume eq: "crc_bit c = crc_bit d" and "n < LENGTH(32)"
  have "\<not> bit c 32" "\<not> bit d 32" by (auto dest: bit_imp_le_length)
  then have zero: "bit c 0 = bit d 0"
    using arg_cong [OF eq, of "\<lambda>w. bit w 31"] poly_31 by (simp only: bit_crc_bit) simp
  then show "bit c n = bit d n"
    using arg_cong [OF eq, of "\<lambda>w. bit w (n - 1)"]
    by (cases n) (simp_all only: bit_crc_bit, auto)
qed

lemma crc_bits_inj: "(crc_bit ^^ k) c = (crc_bit ^^ k) d \<Longrightarrow> c = d"
  by (induction k) (auto dest: crc_bit_inj)

lemma crc_bit_xor:
  assumes "\<not> bit w 0"
  shows "crc_bit (c XOR w) = crc_bit c XOR drop_bit 1 w"
  by (rule bit_word_eqI) (use assms in \<open>auto simp: bit_crc_bit bit_xor_iff bit_drop_bit_eq\<close>)

lemma crc_bits_xor:
  assumes "\<And>i. i < k \<Longrightarrow> \<not> bit w i"
  shows "(crc_bit ^^ k) (c XOR w) = (crc_bit ^^ k) c XOR drop_bit k w"
  using assms
proof (induction k)
  case (Suc k)
  have "\<not> bit (drop_bit k w) 0" using Suc.prems [of k] by (simp add: bit_drop_bit_eq)
  then show ?case using Suc by (simp add: crc_bit_xor)
qed simp

lemma xor_cancel: "(a :: 'a::len word) XOR b = c XOR b \<longleftrightarrow> a = c"
  by (metis xor.assoc xor.comm_neutral xor_self_eq)

lemma fold_crc_inj: "fold crc_byte bs c = fold crc_byte bs d \<Longrightarrow> c = d"
proof (induction bs arbitrary: c d)
  case (Cons b bs)
  from Cons.IH [of "crc_byte b c" "crc_byte b d"] Cons.prems have "crc_byte b c = crc_byte b d"
    by simp
  then show ?case by (auto simp: crc_byte_def xor_cancel dest: crc_bits_inj)
qed simp

lemma put_byte_drop: "j \<le> k \<Longrightarrow> k + 8 \<le> 32 \<Longrightarrow> drop_bit j (put_byte k b :: u32) = put_byte (k - j) b"
  by (rule bit_word_eqI)
     (auto simp: put_byte_def bit_simps add.commute dest: bit_imp_le_length)

lemma put_byte_low: "i < k \<Longrightarrow> \<not> bit (put_byte k b :: u32) i"
  by (simp add: put_byte_def bit_simps)

text \<open>Four bytes are absorbed as one 32 bit word.\<close>

lemma fold_crc_4:
  "fold crc_byte [b0, b1, b2, b3] c =
     (crc_bit ^^ 32) ((((c XOR put_byte 0 b0) XOR put_byte 8 b1) XOR put_byte 16 b2) XOR put_byte 24 b3)"
proof -
  have 32: "(crc_bit ^^ 32) x = (crc_bit ^^ 8) ((crc_bit ^^ 8) ((crc_bit ^^ 8) ((crc_bit ^^ 8) x)))"
    for x by (simp flip: funpow_add comp_apply [of "crc_bit ^^ _"])
  have b: "put_byte 0 b = (ucast b :: u32)" for b by (simp add: put_byte_def)
  have s: "(crc_bit ^^ 8) (x XOR put_byte k y) = (crc_bit ^^ 8) x XOR put_byte (k - 8) y"
    if "8 \<le> k" "k \<le> 24" for x k y
    using that crc_bits_xor [of 8 "put_byte k y" x] put_byte_low [of _ k y] put_byte_drop [of 8 k y]
    by auto
  show ?thesis by (simp add: 32 s crc_byte_def flip: b)
qed


lemma xor_bytes_inj:
  assumes "put_byte 0 b0 XOR put_byte 8 b1 XOR put_byte 16 b2 XOR put_byte 24 b3 =
    (put_byte 0 d0 XOR put_byte 8 d1 XOR put_byte 16 d2 XOR put_byte 24 d3 :: u32)"
  shows "b0 = d0" "b1 = d1" "b2 = d2" "b3 = d3"
proof -
  note bits = arg_cong [OF assms, of "\<lambda>w. bit w _"]
  note * = bit_xor_iff byte_at_put_byte
  show "b0 = d0"
  proof (rule bit_word_eqI)
    fix n :: nat assume "n < LENGTH(8)"
    then show "bit b0 n = bit d0 n" using bits [of n] by (simp add: *)
  qed
  show "b1 = d1"
  proof (rule bit_word_eqI)
    fix n :: nat assume "n < LENGTH(8)"
    then show "bit b1 n = bit d1 n" using bits [of "n + 8"] by (simp add: *)
  qed
  show "b2 = d2"
  proof (rule bit_word_eqI)
    fix n :: nat assume "n < LENGTH(8)"
    then show "bit b2 n = bit d2 n" using bits [of "n + 16"] by (simp add: *)
  qed
  show "b3 = d3"
  proof (rule bit_word_eqI)
    fix n :: nat assume "n < LENGTH(8)"
    then show "bit b3 n = bit d3 n" using bits [of "n + 24"] by (simp add: *)
  qed
qed

lemma fold_crc_4_inj:
  assumes "fold crc_byte x c = fold crc_byte y c" "length x = 4" "length y = 4"
  shows "x = y"
proof -
  obtain b0 b1 b2 b3 where x: "x = [b0, b1, b2, b3]"
    using assms(2) by (auto simp: length_Suc_conv numeral_eq_Suc)
  obtain d0 d1 d2 d3 where y: "y = [d0, d1, d2, d3]"
    using assms(3) by (auto simp: length_Suc_conv numeral_eq_Suc)
  have "(((c XOR put_byte 0 b0) XOR put_byte 8 b1) XOR put_byte 16 b2) XOR put_byte 24 b3 =
      (((c XOR put_byte 0 d0) XOR put_byte 8 d1) XOR put_byte 16 d2) XOR put_byte 24 d3"
    using assms(1) unfolding x y fold_crc_4 by (rule crc_bits_inj)
  then have "c XOR (put_byte 0 b0 XOR put_byte 8 b1 XOR put_byte 16 b2 XOR put_byte 24 b3) =
      c XOR (put_byte 0 d0 XOR put_byte 8 d1 XOR put_byte 16 d2 XOR put_byte 24 d3)"
    by (simp add: ac_simps)
  then have "put_byte 0 b0 XOR put_byte 8 b1 XOR put_byte 16 b2 XOR put_byte 24 b3 =
      (put_byte 0 d0 XOR put_byte 8 d1 XOR put_byte 16 d2 XOR put_byte 24 d3 :: u32)"
    by (metis xor.commute xor_cancel)
  from xor_bytes_inj [OF this] show ?thesis by (simp add: x y)
qed

lemma fold_crc_burst_inj:
  assumes "fold crc_byte x c = fold crc_byte y c" "length x = length y" "length x \<le> 4"
  shows "x = y"
proof -
  let ?z = "replicate (4 - length x) (0 :: u8)"
  have "fold crc_byte (x @ ?z) c = fold crc_byte (y @ ?z) c" using assms(1) by simp
  then have "x @ ?z = y @ ?z" by (rule fold_crc_4_inj) (use assms in auto)
  then show ?thesis by simp
qed

lemma NOT_cancel: "NOT (a :: 'a::len word) = NOT b \<longleftrightarrow> a = b"
  by (metis bit.double_compl)

lemma Crc32_burst:
  assumes "length x = length y" "length x \<le> 4"
  shows "Crc32 (p @ x @ q) = Crc32 (p @ y @ q) \<longleftrightarrow> x = y"
  using assms by (auto simp: Crc32_def NOT_cancel dest!: fold_crc_inj fold_crc_burst_inj)

section \<open>Splitting strings\<close>

lemma Split_loop_pieces:
  assumes "\<And>t. t \<in> set result \<Longrightarrow> t \<noteq> [] \<and> sep \<notin> set t" "sep \<notin> set temp"
    "t \<in> set (Split_loop sep temp result str)"
  shows "t \<noteq> [] \<and> sep \<notin> set t"
  using assms
  by (induction sep temp result str rule: Split_loop.induct) (fastforce split: if_splits)+

lemma Split_loop_concat:
  "concat (Split_loop sep temp result str) = concat result @ temp @ filter (\<lambda>c. c \<noteq> sep) str"
  by (induction sep temp result str rule: Split_loop.induct) auto

lemma Split_loop_skip:
  "sep \<notin> set w \<Longrightarrow> Split_loop sep temp result (w @ str) = Split_loop sep (temp @ w) result str"
  by (induction w arbitrary: temp) auto

lemma Split_loop_join:
  assumes "\<forall>w \<in> set ws. w \<noteq> [] \<and> sep \<notin> set w"
  shows "Split_loop sep [] result (concat (map (\<lambda>w. w @ [sep]) ws)) = result @ ws"
  using assms by (induction ws arbitrary: result) (auto simp: Split_loop_skip)

lemma Split_word:
  assumes "w \<noteq> []" "sep \<notin> set w"
  shows "Split_loop sep [] result (w @ sep # rest) = Split_loop sep [] (result @ [w]) rest"
    "Split_loop sep [] result w = result @ [w]"
  using assms Split_loop_skip [of sep w "[]" result "sep # rest"] Split_loop_skip [of sep w "[]" result "[]"]
  by simp_all

lemma DelHead_none: "s = [] \<or> hd s \<notin> set del \<Longrightarrow> DelHead s del = s"
  unfolding DelHead_def by (subst DelHead_pos.simps) (cases s, simp_all)

lemma DelTails_none: "s = [] \<or> last s \<notin> set del \<Longrightarrow> DelTails s del = s"
  unfolding DelTails_def by (subst DelTails_len.simps) (auto simp: last_conv_nth)

section \<open>Properties\<close>

text \<open>C40. The checksum detects every corruption confined to four consecutive bytes, wherever
  they stand in the buffer: two buffers that differ only there have different CRCs.\<close>

theorem Crc32_detects_burst:
  assumes "length x = length y" and "length x \<le> 4" and "x \<noteq> y"
  shows "Crc32 (p @ x @ q) \<noteq> Crc32 (p @ y @ q)"
  using assms by (simp add: Crc32_burst)

theorem Crc32_detects_burst_witness:
  "Crc32 ([1, 2] @ [3 :: u8] @ [4]) \<noteq> Crc32 ([1, 2] @ [5] @ [4])"
  by (rule Crc32_detects_burst) simp_all

text \<open>\<open>Split\<close> returns the non-empty pieces between separators: no piece is empty or contains
  the separator, together they are the string without its separators, and a list of such words
  each followed by a separator is split into exactly these words.\<close>

theorem Split_pieces:
  "list_all (\<lambda>t. t \<noteq> [] \<and> sep \<notin> set t) (Split str sep) \<and>
   concat (Split str sep) = filter (\<lambda>c. c \<noteq> sep) str \<and>
   (list_all (\<lambda>w. w \<noteq> [] \<and> sep \<notin> set w) ws \<longrightarrow>
      Split (concat (map (\<lambda>w. w @ [sep]) ws)) sep = ws)"
  unfolding Split_def
  using Split_loop_pieces [of "[]" sep "[]" _ str] Split_loop_join [of ws sep "[]"]
  by (auto simp: list_all_iff Split_loop_concat)

theorem Split_pieces_witness:
  "Split (concat (map (\<lambda>w. w @ [CHR '':'']) [''ab'', ''c''])) CHR '':'' = [''ab'', ''c'']"
  using Split_pieces [of "CHR '':''" "[]" "[''ab'', ''c'']"] by simp

end
