(* ===== verification/LogEntry.thy ===== *)
theory LogEntry
  imports RaftConfig Util
begin

text \<open>
  Log entries (src/src/raft/raft_log.h): their types, the checksums that chain an entry to the
  log before it, and the encoding in which they travel inside \<^verbatim>\<open>AppendEntries\<close>. The theory
  starts with the reading cursor that all decoders of the code share.
\<close>

section \<open>Cursors\<close>

text \<open>Every \<^verbatim>\<open>FromString\<close> walks a pointer \<^verbatim>\<open>p\<close> over its input and adds up the \<^verbatim>\<open>size\<close>
  it has consumed; a cursor is that pair.\<close>

type_synonym cursor = "bytes \<times> int"

definition get8 :: "cursor \<Rightarrow> (u8 \<times> cursor) option" where
  "get8 c = (case c of (p, used) \<Rightarrow> do { v \<leftarrow> DecodeFixed8 p; Some (v, drop 1 p, used + 1) })"

definition get32 :: "cursor \<Rightarrow> (u32 \<times> cursor) option" where
  "get32 c = (case c of (p, used) \<Rightarrow> do { v \<leftarrow> DecodeFixed32 p; Some (v, drop 4 p, used + 4) })"

definition get64 :: "cursor \<Rightarrow> (u64 \<times> cursor) option" where
  "get64 c = (case c of (p, used) \<Rightarrow> do { v \<leftarrow> DecodeFixed64 p; Some (v, drop 8 p, used + 8) })"

definition get_addr :: "cursor \<Rightarrow> (RaftAddr \<times> cursor) option" where
  "get_addr c = do { (u64, c) \<leftarrow> get64 c; Some (RaftAddr_FromU64 u64, c) }"

definition get_bool :: "cursor \<Rightarrow> (bool \<times> cursor) option" where
  "get_bool c = do { (u8, c) \<leftarrow> get8 c; Some (u8 \<noteq> 0, c) }"

text \<open>The block that reads a string: a slice of \<open>n\<close> bytes at \<^verbatim>\<open>p\<close> is decoded; on success the
  string replaces \<open>old\<close> and the cursor moves by the size that \<^verbatim>\<open>DecodeString2\<close> returned, otherwise
  nothing changes.\<close>

definition get_string :: "bytes \<Rightarrow> nat \<Rightarrow> cursor \<Rightarrow> (bytes \<times> cursor) option" where
  "get_string old n c = (case c of (p, used) \<Rightarrow> do {
     (sz, input, result) \<leftarrow> DecodeString2 \<lparr>sl_data = p, sl_size = n\<rparr>;
     (case result of
        Some v \<Rightarrow>
          if sz > 0 then do { s \<leftarrow> Slice_ToString v; Some (s, drop (nat sz) p, used + sz) }
          else Some (old, c)
      | None \<Rightarrow> Some (old, c)) })"

definition put_addr :: "RaftAddr \<Rightarrow> bytes" where
  "put_addr a = EncodeFixed64 (RaftAddr_ToU64 a)"

definition put_bool :: "bool \<Rightarrow> bytes" where
  "put_bool b = EncodeFixed8 (of_bool b)"

section \<open>Entries\<close>

datatype EntryType = kUnknown | kData | kNoop | kConfig

fun EntryType_u32 :: "EntryType \<Rightarrow> u32" where
  "EntryType_u32 kUnknown = 0"
| "EntryType_u32 kData = 1"
| "EntryType_u32 kNoop = 2"
| "EntryType_u32 kConfig = 3"

definition U32ToEntryType :: "u32 \<Rightarrow> EntryType option" where
  "U32ToEntryType u32 =
     (if u32 = 0 then Some kUnknown else if u32 = 1 then Some kData
      else if u32 = 2 then Some kNoop else if u32 = 3 then Some kConfig else None)"

record AppendEntry =
  ae_term :: RaftTerm
  ae_type :: EntryType
  ae_value :: bytes

record LogEntry =
  le_index :: RaftIndex
  le_pre_chk_all :: u32
  le_chk_ths :: u32
  le_chk_all :: u32
  le_append_entry :: AppendEntry

text \<open>The buffer of \<^verbatim>\<open>CheckThis\<close>: the index is written twice.\<close>

definition CheckThis_buf :: "RaftIndex \<Rightarrow> AppendEntry \<Rightarrow> bytes" where
  "CheckThis_buf index e =
     EncodeFixed32 index @ EncodeFixed64 (ae_term e) @ EncodeFixed32 (EntryType_u32 (ae_type e)) @
     EncodeFixed32 index @ EncodeString2 (ae_value e)"

text \<open>The buffer of the code has room for a length of four bytes, which is enough for values shorter than \<open>2 ^ 28\<close> bytes; it is
  one byte short for longer ones, which are outside the model.\<close>

definition LogEntry_CheckThis :: "LogEntry \<Rightarrow> LogEntry" where
  "LogEntry_CheckThis e =
     e\<lparr>le_chk_ths := Crc32 (CheckThis_buf (le_index e) (le_append_entry e))\<rparr>"

definition LogEntry_CheckAll :: "LogEntry \<Rightarrow> LogEntry" where
  "LogEntry_CheckAll e =
     e\<lparr>le_chk_all := Crc32 (EncodeFixed32 (le_pre_chk_all e) @ EncodeFixed32 (le_chk_ths e))\<rparr>"

definition LogEntry_CheckSum :: "LogEntry \<Rightarrow> LogEntry" where
  "LogEntry_CheckSum e = LogEntry_CheckAll (LogEntry_CheckThis e)"

definition LogEntry_MaxBytes :: "LogEntry \<Rightarrow> int" where
  "LogEntry_MaxBytes e =
     4 + 4 + 4 + 4 + 8 + 4 + 2 * 4 + int (length (ae_value (le_append_entry e)))"

definition LogEntry_ToString :: "LogEntry \<Rightarrow> int \<Rightarrow> bytes option" where
  "LogEntry_ToString e len = (
     let bs = EncodeFixed32 (le_index e) @ EncodeFixed32 (le_chk_ths e) @
              EncodeFixed32 (le_chk_all e) @ EncodeFixed64 (ae_term (le_append_entry e)) @
              EncodeFixed32 (EntryType_u32 (ae_type (le_append_entry e))) @
              EncodeString2 (ae_value (le_append_entry e))
     in do { check (int (length bs) \<le> len); Some bs })"

text \<open>The slice for the value starts 24 bytes after \<^verbatim>\<open>ptr\<close> but is made \<open>len - 12\<close> long.
  \<open>-1\<close> is returned when no string could be decoded; \<open>le_pre_chk_all\<close> keeps what it was.\<close>

definition LogEntry_FromString :: "LogEntry \<Rightarrow> bytes \<Rightarrow> int \<Rightarrow> (LogEntry \<times> int) option" where
  "LogEntry_FromString old ptr len = do {
     (index, c) \<leftarrow> get32 (ptr, 0);
     (chk_ths, c) \<leftarrow> get32 c;
     (chk_all, c) \<leftarrow> get32 c;
     (term, c) \<leftarrow> get64 c;
     (u32, c) \<leftarrow> get32 c;
     type \<leftarrow> U32ToEntryType u32;
     let e = old\<lparr>le_index := index, le_chk_ths := chk_ths, le_chk_all := chk_all,
                 le_append_entry := (le_append_entry old)\<lparr>ae_term := term, ae_type := type\<rparr>\<rparr>;
     (sz, input, result) \<leftarrow> DecodeString2 \<lparr>sl_data = fst c, sl_size = size_t (len - 4 - 8)\<rparr>;
     (case result of
        Some v \<Rightarrow>
          if sz > 0 then do {
            s \<leftarrow> Slice_ToString v;
            Some (e\<lparr>le_append_entry := (le_append_entry e)\<lparr>ae_value := s\<rparr>\<rparr>, snd c + sz) }
          else Some (e, -1)
      | None \<Rightarrow> Some (e, -1)) }"

section \<open>Reading what was written\<close>

lemma get_encoded [simp, codec_simps]:
  "get8 (EncodeFixed8 a @ r, n) = Some (a, r, n + 1)"
  "get32 (EncodeFixed32 b @ r, n) = Some (b, r, n + 4)"
  "get64 (EncodeFixed64 c @ r, n) = Some (c, r, n + 8)"
  "get_addr (put_addr d @ r, n) = Some (d, r, n + 8)"
  "get_bool (put_bool e @ r, n) = Some (e, r, n + 1)"
  by (simp_all add: get8_def get32_def get64_def get_addr_def get_bool_def put_addr_def put_bool_def)

lemma get_last [simp, codec_simps]:
  "get8 (EncodeFixed8 a, n) = Some (a, [], n + 1)"
  "get32 (EncodeFixed32 b, n) = Some (b, [], n + 4)"
  "get64 (EncodeFixed64 c, n) = Some (c, [], n + 8)"
  "get_bool (put_bool e, n) = Some (e, [], n + 1)"
  using get_encoded(1) [of a "[]" n] get_encoded(2) [of b "[]" n] get_encoded(3) [of c "[]" n]
    get_encoded(5) [of e "[]" n] by simp_all

lemma length_put [simp, codec_length]: "length (put_addr a) = 8" "length (put_bool b) = 1"
  by (simp_all add: put_addr_def put_bool_def)

lemma put_nonempty [simp]:
  "EncodeFixed8 a \<noteq> []" "EncodeFixed32 b \<noteq> []" "EncodeFixed64 c \<noteq> []"
  "put_addr d \<noteq> []" "put_bool e \<noteq> []"
  using EncodeFixed_length(1) [of a] EncodeFixed_length(3) [of b] EncodeFixed_length(4) [of c]
    length_put(1) [of d] length_put(2) [of e] by (auto simp del: EncodeFixed_length length_put)

lemma EncodeString2_length:
  "length s < length (EncodeString2 s)" "length (EncodeString2 s) \<le> 5 + length s"
  using EncodeVarint32_length [of "of_nat (length s)"] by (simp_all add: EncodeString2_def)

lemma EncodeString2_nonempty [simp]: "EncodeString2 s \<noteq> []"
  using EncodeString2_length(1) [of s] by auto

lemma EncodeString2_length_short:
  assumes "length s < 128"
  shows "length (EncodeString2 s) = 1 + length s"
proof -
  have "(of_nat (length s) :: u32) < 128"
    using assms by (simp add: word_less_nat_alt unat_of_nat take_bit_nat_eq_self)
  then show ?thesis using EncodeVarint32_length(3) [of "of_nat (length s)"]
    by (simp add: EncodeString2_def)
qed

lemma get_string_encoded:
  assumes "length s < 2 ^ 31 - 1" "length (EncodeString2 s) \<le> n"
  shows "get_string old n (EncodeString2 s @ r, used) =
    Some (s, drop (Suc (length s)) (EncodeString2 s @ r), used + 1 + int (length s))"
  using DecodeString2_EncodeString2 [OF assms, of r]
  by (simp add: get_string_def Slice_ToString_def nat_add_distrib)

lemma get_string_short [codec_simps]:
  assumes "length s < 128" "Suc (length s) \<le> n"
  shows "get_string old n (EncodeString2 s @ r, used) = Some (s, r, used + 1 + int (length s))"
  using assms get_string_encoded [of s n old r used] by (simp add: EncodeString2_length_short)

lemma size_t_nat [simp]: "n < 2 ^ 64 \<Longrightarrow> size_t (int n) = n"
  by (simp add: size_t_def nat_mod_distrib)

lemma size_t_small: "0 \<le> x \<Longrightarrow> x < 2 ^ 64 \<Longrightarrow> size_t x = nat x"
  by (simp add: size_t_def)

lemma U32ToEntryType_u32 [simp, codec_simps]: "U32ToEntryType (EntryType_u32 t) = Some t"
  by (cases t) (simp_all add: U32ToEntryType_def)

section \<open>The codec of log entries\<close>

definition LogEntry_ok :: "LogEntry \<Rightarrow> bool" where
  "LogEntry_ok e \<longleftrightarrow> length (ae_value (le_append_entry e)) < 2 ^ 30"

definition LogEntry_enc :: "LogEntry \<Rightarrow> bytes" where
  "LogEntry_enc e = EncodeFixed32 (le_index e) @ EncodeFixed32 (le_chk_ths e) @
     EncodeFixed32 (le_chk_all e) @ EncodeFixed64 (ae_term (le_append_entry e)) @
     EncodeFixed32 (EntryType_u32 (ae_type (le_append_entry e))) @
     EncodeString2 (ae_value (le_append_entry e))"

lemma LogEntry_ToString_enc:
  "LogEntry_ToString e len =
     (if int (length (LogEntry_enc e)) \<le> len then Some (LogEntry_enc e) else None)"
  by (simp add: LogEntry_ToString_def LogEntry_enc_def Let_def)

lemma LogEntry_enc_length:
  "int (length (LogEntry_enc e)) \<le> LogEntry_MaxBytes e" "24 < length (LogEntry_enc e)"
  "length (LogEntry_enc e) = 24 + length (EncodeString2 (ae_value (le_append_entry e)))"
  using EncodeString2_length [of "ae_value (le_append_entry e)"]
  by (simp_all add: LogEntry_enc_def LogEntry_MaxBytes_def)

lemma LogEntry_FromString_enc:
  assumes "LogEntry_ok e" "int (length (LogEntry_enc e)) - 12 \<le> len" "len < 2 ^ 62"
  shows "LogEntry_FromString old (LogEntry_enc e @ r) len =
    Some (e\<lparr>le_pre_chk_all := le_pre_chk_all old\<rparr>,
          25 + int (length (ae_value (le_append_entry e))))"
proof -
  let ?s = "ae_value (le_append_entry e)"
  have s: "length ?s < 2 ^ 31 - 1" using assms(1) by (simp add: LogEntry_ok_def)
  have n: "length (EncodeString2 ?s) \<le> size_t (len - 12)"
    using assms(2,3) LogEntry_enc_length(2,3) [of e] by (simp add: size_t_small)
  show ?thesis
    using DecodeString2_EncodeString2 [OF s n, of r]
    by (simp add: LogEntry_FromString_def LogEntry_enc_def Slice_ToString_def)
qed

section \<open>The checksum chain\<close>

lemma CheckThis_CheckAll_simps [simp]:
  "le_index (LogEntry_CheckSum e) = le_index e"
  "le_pre_chk_all (LogEntry_CheckSum e) = le_pre_chk_all e"
  "le_append_entry (LogEntry_CheckSum e) = le_append_entry e"
  by (simp_all add: LogEntry_CheckSum_def LogEntry_CheckAll_def LogEntry_CheckThis_def)

lemma CheckAll_inject:
  "Crc32 (EncodeFixed32 a @ EncodeFixed32 b) = Crc32 (EncodeFixed32 a' @ EncodeFixed32 b) \<longleftrightarrow> a = a'"
  using Crc32_burst [of "EncodeFixed32 a" "EncodeFixed32 a'" "[]" "EncodeFixed32 b"]
  by (simp) (metis DecodeFixed_EncodeFixed_Nil(3) option.inject)

end
