(* ===== verification/Messages.thy ===== *)
theory Messages
  imports LogEntry
begin

text \<open>
  The messages of the protocol (src/src/raft/*.h and *.cc, one section per struct): the
  fields, \<^verbatim>\<open>MaxBytes\<close>, the encoder into a buffer of \<open>len\<close> bytes (\<open>None\<close> when its final
  \<^verbatim>\<open>assert(size <= len)\<close> fails) and the decoder, which overwrites the fields of an existing
  object and returns the number of bytes it believes it consumed. The overloads for
  \<^verbatim>\<open>std::string\<close> encode into a fresh buffer of \<^verbatim>\<open>MaxBytes()\<close> and decode with the size of
  the string. The interface of all messages is the locale \<open>message_codec\<close>; framing with a
  \<^verbatim>\<open>MsgHeader\<close> is proved once for all of them.

  Fields of type \<^verbatim>\<open>int32_t\<close> are kept as their 32 bits.
\<close>

section \<open>Commands and headers\<close>

datatype ClientCmd =
    kCmdPropose | kCmdLeaderTransfer | kCmdAddServer | kCmdRemoveServer | kCmdGet | kCmdError

fun ClientCmdToU32 :: "ClientCmd \<Rightarrow> u32" where
  "ClientCmdToU32 kCmdPropose = 0"
| "ClientCmdToU32 kCmdLeaderTransfer = 1"
| "ClientCmdToU32 kCmdAddServer = 2"
| "ClientCmdToU32 kCmdRemoveServer = 3"
| "ClientCmdToU32 kCmdGet = 4"
| "ClientCmdToU32 kCmdError = 5"

definition U32ToClientCmd :: "u32 \<Rightarrow> ClientCmd" where
  "U32ToClientCmd u32 =
     (if u32 = 0 then kCmdPropose else if u32 = 1 then kCmdLeaderTransfer
      else if u32 = 2 then kCmdAddServer else if u32 = 3 then kCmdRemoveServer
      else if u32 = 4 then kCmdGet else kCmdError)"

datatype MsgType =
    kClientRequet | kClientRequetReply | kPing | kPingReply | kRequestVote | kRequestVoteReply
  | kAppendEntries | kAppendEntriesReply | kInstallSnapshot | kInstallSnapshotReply | kTimeoutNow

fun MsgType_u32 :: "MsgType \<Rightarrow> u32" where
  "MsgType_u32 kClientRequet = 0"
| "MsgType_u32 kClientRequetReply = 1"
| "MsgType_u32 kPing = 2"
| "MsgType_u32 kPingReply = 3"
| "MsgType_u32 kRequestVote = 4"
| "MsgType_u32 kRequestVoteReply = 5"
| "MsgType_u32 kAppendEntries = 6"
| "MsgType_u32 kAppendEntriesReply = 7"
| "MsgType_u32 kInstallSnapshot = 8"
| "MsgType_u32 kInstallSnapshotReply = 9"
| "MsgType_u32 kTimeoutNow = 10"

record MsgHeader =
  mh_body_bytes :: u32
  mh_type :: u32

definition MsgHeader_Bytes :: int where
  "MsgHeader_Bytes = 8"

definition MsgHeader_ToString :: "MsgHeader \<Rightarrow> int \<Rightarrow> bytes option" where
  "MsgHeader_ToString h len = do {
     check (len \<ge> MsgHeader_Bytes);
     Some (EncodeFixed32 (mh_body_bytes h) @ EncodeFixed32 (mh_type h)) }"

definition MsgHeader_FromString :: "bytes \<Rightarrow> int \<Rightarrow> MsgHeader option" where
  "MsgHeader_FromString p len = do {
     check (len = MsgHeader_Bytes);
     (body_bytes, c) \<leftarrow> get32 (p, 0);
     (type, c) \<leftarrow> get32 c;
     Some \<lparr>mh_body_bytes = body_bytes, mh_type = type\<rparr> }"

section \<open>RequestVote\<close>

record RequestVote =
  rv_src :: RaftAddr
  rv_dest :: RaftAddr
  rv_term :: RaftTerm
  rv_uid :: u32
  rv_send_ts :: u64
  rv_elapse :: u64
  rv_last_log_index :: RaftIndex
  rv_last_log_term :: RaftTerm
  rv_leader_transfer :: bool
  rv_pre_vote :: bool

definition RequestVote_MaxBytes :: "RequestVote \<Rightarrow> int" where
  "RequestVote_MaxBytes m =
     8 + 8 + 8 + 4 + 8 + 8 + 4 + 8 + 1 + 1"

definition RequestVote_ToString :: "RequestVote \<Rightarrow> int \<Rightarrow> bytes option" where
  "RequestVote_ToString m len = (
     let bs = put_addr (rv_src m) @ put_addr (rv_dest m) @ EncodeFixed64 (rv_term m) @
              EncodeFixed32 (rv_uid m) @ EncodeFixed64 (rv_send_ts m) @
              EncodeFixed64 (rv_elapse m) @ EncodeFixed32 (rv_last_log_index m) @
              EncodeFixed64 (rv_last_log_term m) @ put_bool (rv_leader_transfer m) @
              put_bool (rv_pre_vote m)
     in do { check (int (length bs) \<le> len); Some bs })"

definition RequestVote_FromString :: "RequestVote \<Rightarrow> bytes \<Rightarrow> int \<Rightarrow> (RequestVote \<times> int) option" where
  "RequestVote_FromString old ptr len = do {
     (src, c) \<leftarrow> get_addr (ptr, 0);
     (dest, c) \<leftarrow> get_addr c;
     (term, c) \<leftarrow> get64 c;
     (uid, c) \<leftarrow> get32 c;
     (send_ts, c) \<leftarrow> get64 c;
     (elapse, c) \<leftarrow> get64 c;
     (last_log_index, c) \<leftarrow> get32 c;
     (last_log_term, c) \<leftarrow> get64 c;
     (leader_transfer, c) \<leftarrow> get_bool c;
     (pre_vote, c) \<leftarrow> get_bool c;
     Some (\<lparr>rv_src = src, rv_dest = dest, rv_term = term, rv_uid = uid,
            rv_send_ts = send_ts, rv_elapse = elapse, rv_last_log_index = last_log_index,
            rv_last_log_term = last_log_term, rv_leader_transfer = leader_transfer,
            rv_pre_vote = pre_vote\<rparr>, snd c) }"

section \<open>RequestVoteReply\<close>

record RequestVoteReply =
  rvr_src :: RaftAddr
  rvr_dest :: RaftAddr
  rvr_term :: RaftTerm
  rvr_uid :: u32
  rvr_send_ts :: u64
  rvr_elapse :: u64
  rvr_granted :: bool
  rvr_log_ok :: bool
  rvr_pre_vote :: bool
  rvr_interval_ok :: bool
  rvr_req_term :: RaftTerm

definition RequestVoteReply_MaxBytes :: "RequestVoteReply \<Rightarrow> int" where
  "RequestVoteReply_MaxBytes m =
     8 + 8 + 8 + 4 + 8 + 8 + 1 + 1 + 1 + 1 + 8"

definition RequestVoteReply_ToString :: "RequestVoteReply \<Rightarrow> int \<Rightarrow> bytes option" where
  "RequestVoteReply_ToString m len = (
     let bs = put_addr (rvr_src m) @ put_addr (rvr_dest m) @ EncodeFixed64 (rvr_term m) @
              EncodeFixed32 (rvr_uid m) @ EncodeFixed64 (rvr_send_ts m) @
              EncodeFixed64 (rvr_elapse m) @ put_bool (rvr_granted m) @
              put_bool (rvr_log_ok m) @ put_bool (rvr_pre_vote m) @
              put_bool (rvr_interval_ok m) @ EncodeFixed64 (rvr_req_term m)
     in do { check (int (length bs) \<le> len); Some bs })"

definition RequestVoteReply_FromString :: "RequestVoteReply \<Rightarrow> bytes \<Rightarrow> int \<Rightarrow> (RequestVoteReply \<times> int) option" where
  "RequestVoteReply_FromString old ptr len = do {
     (src, c) \<leftarrow> get_addr (ptr, 0);
     (dest, c) \<leftarrow> get_addr c;
     (term, c) \<leftarrow> get64 c;
     (uid, c) \<leftarrow> get32 c;
     (send_ts, c) \<leftarrow> get64 c;
     (elapse, c) \<leftarrow> get64 c;
     (granted, c) \<leftarrow> get_bool c;
     (log_ok, c) \<leftarrow> get_bool c;
     (pre_vote, c) \<leftarrow> get_bool c;
     (interval_ok, c) \<leftarrow> get_bool c;
     (req_term, c) \<leftarrow> get64 c;
     Some (\<lparr>rvr_src = src, rvr_dest = dest, rvr_term = term, rvr_uid = uid,
            rvr_send_ts = send_ts, rvr_elapse = elapse, rvr_granted = granted,
            rvr_log_ok = log_ok, rvr_pre_vote = pre_vote, rvr_interval_ok = interval_ok,
            rvr_req_term = req_term\<rparr>, snd c) }"

section \<open>AppendEntriesReply\<close>

record AppendEntriesReply =
  aer_src :: RaftAddr
  aer_dest :: RaftAddr
  aer_term :: RaftTerm
  aer_uid :: u32
  aer_send_ts :: u64
  aer_elapse :: u64
  aer_success :: bool
  aer_last_log_index :: RaftIndex
  aer_req_pre_index :: RaftIndex
  aer_req_num_entries :: u32
  aer_req_term :: RaftTerm

definition AppendEntriesReply_MaxBytes :: "AppendEntriesReply \<Rightarrow> int" where
  "AppendEntriesReply_MaxBytes m =
     8 + 8 + 8 + 4 + 8 + 8 + 1 + 4 + 4 + 4 + 8"

definition AppendEntriesReply_ToString :: "AppendEntriesReply \<Rightarrow> int \<Rightarrow> bytes option" where
  "AppendEntriesReply_ToString m len = (
     let bs = put_addr (aer_src m) @ put_addr (aer_dest m) @ EncodeFixed64 (aer_term m) @
              EncodeFixed32 (aer_uid m) @ EncodeFixed64 (aer_send_ts m) @
              EncodeFixed64 (aer_elapse m) @ put_bool (aer_success m) @
              EncodeFixed32 (aer_last_log_index m) @ EncodeFixed32 (aer_req_pre_index m) @
              EncodeFixed32 (aer_req_num_entries m) @ EncodeFixed64 (aer_req_term m)
     in do { check (int (length bs) \<le> len); Some bs })"

definition AppendEntriesReply_FromString :: "AppendEntriesReply \<Rightarrow> bytes \<Rightarrow> int \<Rightarrow> (AppendEntriesReply \<times> int) option" where
  "AppendEntriesReply_FromString old ptr len = do {
     (src, c) \<leftarrow> get_addr (ptr, 0);
     (dest, c) \<leftarrow> get_addr c;
     (term, c) \<leftarrow> get64 c;
     (uid, c) \<leftarrow> get32 c;
     (send_ts, c) \<leftarrow> get64 c;
     (elapse, c) \<leftarrow> get64 c;
     (success, c) \<leftarrow> get_bool c;
     (last_log_index, c) \<leftarrow> get32 c;
     (req_pre_index, c) \<leftarrow> get32 c;
     (req_num_entries, c) \<leftarrow> get32 c;
     (req_term, c) \<leftarrow> get64 c;
     Some (\<lparr>aer_src = src, aer_dest = dest, aer_term = term, aer_uid = uid,
            aer_send_ts = send_ts, aer_elapse = elapse, aer_success = success,
            aer_last_log_index = last_log_index, aer_req_pre_index = req_pre_index,
            aer_req_num_entries = req_num_entries, aer_req_term = req_term\<rparr>, snd c) }"

section \<open>InstallSnapshot\<close>

record InstallSnapshot =
  is_src :: RaftAddr
  is_dest :: RaftAddr
  is_term :: RaftTerm
  is_uid :: u32
  is_send_ts :: u64
  is_elapse :: u64
  is_last_index :: RaftIndex
  is_last_term :: RaftTerm
  is_offset :: u32
  is_data :: bytes
  is_done :: bool

definition InstallSnapshot_MaxBytes :: "InstallSnapshot \<Rightarrow> int" where
  "InstallSnapshot_MaxBytes m =
     8 + 8 + 8 + 4 + 8 + 8 + 4 + 8 + 4 + (2 * 4 + int (length (is_data m))) + 1"

definition InstallSnapshot_ToString :: "InstallSnapshot \<Rightarrow> int \<Rightarrow> bytes option" where
  "InstallSnapshot_ToString m len = (
     let bs = put_addr (is_src m) @ put_addr (is_dest m) @ EncodeFixed64 (is_term m) @
              EncodeFixed32 (is_uid m) @ EncodeFixed64 (is_send_ts m) @
              EncodeFixed64 (is_elapse m) @ EncodeFixed32 (is_last_index m) @
              EncodeFixed64 (is_last_term m) @ EncodeFixed32 (is_offset m) @
              EncodeString2 (is_data m) @ put_bool (is_done m)
     in do { check (int (length bs) \<le> len); Some bs })"

definition InstallSnapshot_FromString :: "InstallSnapshot \<Rightarrow> bytes \<Rightarrow> int \<Rightarrow> (InstallSnapshot \<times> int) option" where
  "InstallSnapshot_FromString old ptr len = do {
     (src, c) \<leftarrow> get_addr (ptr, 0);
     (dest, c) \<leftarrow> get_addr c;
     (term, c) \<leftarrow> get64 c;
     (uid, c) \<leftarrow> get32 c;
     (send_ts, c) \<leftarrow> get64 c;
     (elapse, c) \<leftarrow> get64 c;
     (last_index, c) \<leftarrow> get32 c;
     (last_term, c) \<leftarrow> get64 c;
     (offset, c) \<leftarrow> get32 c;
     (data, c) \<leftarrow> get_string (is_data old) (size_t (len - snd c)) c;
     (done, c) \<leftarrow> get_bool c;
     Some (\<lparr>is_src = src, is_dest = dest, is_term = term, is_uid = uid,
            is_send_ts = send_ts, is_elapse = elapse, is_last_index = last_index,
            is_last_term = last_term, is_offset = offset, is_data = data, is_done = done\<rparr>, snd c) }"

section \<open>InstallSnapshotReply\<close>

record InstallSnapshotReply =
  isr_src :: RaftAddr
  isr_dest :: RaftAddr
  isr_term :: RaftTerm
  isr_uid :: u32
  isr_send_ts :: u64
  isr_elapse :: u64
  isr_stored :: u32
  isr_req_term :: RaftTerm

definition InstallSnapshotReply_MaxBytes :: "InstallSnapshotReply \<Rightarrow> int" where
  "InstallSnapshotReply_MaxBytes m =
     8 + 8 + 8 + 4 + 8 + 8 + 4 + 8"

definition InstallSnapshotReply_ToString :: "InstallSnapshotReply \<Rightarrow> int \<Rightarrow> bytes option" where
  "InstallSnapshotReply_ToString m len = (
     let bs = put_addr (isr_src m) @ put_addr (isr_dest m) @ EncodeFixed64 (isr_term m) @
              EncodeFixed32 (isr_uid m) @ EncodeFixed64 (isr_send_ts m) @
              EncodeFixed64 (isr_elapse m) @ EncodeFixed32 (isr_stored m) @
              EncodeFixed64 (isr_req_term m)
     in do { check (int (length bs) \<le> len); Some bs })"

text \<open>The decoder returns \<^verbatim>\<open>bool\<close>: the size is converted to 1 when it is not 0.\<close>

definition InstallSnapshotReply_FromString :: "InstallSnapshotReply \<Rightarrow> bytes \<Rightarrow> int \<Rightarrow> (InstallSnapshotReply \<times> int) option" where
  "InstallSnapshotReply_FromString old ptr len = do {
     (src, c) \<leftarrow> get_addr (ptr, 0);
     (dest, c) \<leftarrow> get_addr c;
     (term, c) \<leftarrow> get64 c;
     (uid, c) \<leftarrow> get32 c;
     (send_ts, c) \<leftarrow> get64 c;
     (elapse, c) \<leftarrow> get64 c;
     (stored, c) \<leftarrow> get32 c;
     (req_term, c) \<leftarrow> get64 c;
     Some (\<lparr>isr_src = src, isr_dest = dest, isr_term = term, isr_uid = uid,
            isr_send_ts = send_ts, isr_elapse = elapse, isr_stored = stored,
            isr_req_term = req_term\<rparr>, of_bool (snd c \<noteq> 0)) }"

section \<open>TimeoutNow\<close>

record TimeoutNow =
  tn_src :: RaftAddr
  tn_dest :: RaftAddr
  tn_term :: RaftTerm
  tn_uid :: u32
  tn_send_ts :: u64
  tn_elapse :: u64
  tn_last_log_index :: RaftIndex
  tn_last_log_term :: RaftTerm
  tn_force :: bool

definition TimeoutNow_MaxBytes :: "TimeoutNow \<Rightarrow> int" where
  "TimeoutNow_MaxBytes m =
     8 + 8 + 8 + 4 + 8 + 8 + 4 + 8 + 1"

definition TimeoutNow_ToString :: "TimeoutNow \<Rightarrow> int \<Rightarrow> bytes option" where
  "TimeoutNow_ToString m len = (
     let bs = put_addr (tn_src m) @ put_addr (tn_dest m) @ EncodeFixed64 (tn_term m) @
              EncodeFixed32 (tn_uid m) @ EncodeFixed64 (tn_send_ts m) @
              EncodeFixed64 (tn_elapse m) @ EncodeFixed32 (tn_last_log_index m) @
              EncodeFixed64 (tn_last_log_term m) @ put_bool (tn_force m)
     in do { check (int (length bs) \<le> len); Some bs })"

text \<open>The flag \<^verbatim>\<open>force\<close> is one byte, but it is read with \<^verbatim>\<open>DecodeFixed64\<close>.\<close>

definition TimeoutNow_FromString :: "TimeoutNow \<Rightarrow> bytes \<Rightarrow> int \<Rightarrow> (TimeoutNow \<times> int) option" where
  "TimeoutNow_FromString old ptr len = do {
     (src, c) \<leftarrow> get_addr (ptr, 0);
     (dest, c) \<leftarrow> get_addr c;
     (term, c) \<leftarrow> get64 c;
     (uid, c) \<leftarrow> get32 c;
     (send_ts, c) \<leftarrow> get64 c;
     (elapse, c) \<leftarrow> get64 c;
     (last_log_index, c) \<leftarrow> get32 c;
     (last_log_term, c) \<leftarrow> get64 c;
     u64 \<leftarrow> DecodeFixed64 (fst c);
     let u8 = (ucast u64 :: u8);
     Some (\<lparr>tn_src = src, tn_dest = dest, tn_term = term, tn_uid = uid,
            tn_send_ts = send_ts, tn_elapse = elapse, tn_last_log_index = last_log_index,
            tn_last_log_term = last_log_term, tn_force = (u8 \<noteq> 0)\<rparr>, snd c + 1) }"

section \<open>Ping\<close>

record Ping =
  pg_src :: RaftAddr
  pg_dest :: RaftAddr
  pg_uid :: u32
  pg_send_ts :: u64
  pg_elapse :: u64
  pg_msg :: bytes

definition Ping_MaxBytes :: "Ping \<Rightarrow> int" where
  "Ping_MaxBytes m =
     8 + 8 + 4 + 8 + 8 + (2 * 4 + int (length (pg_msg m)))"

definition Ping_ToString :: "Ping \<Rightarrow> int \<Rightarrow> bytes option" where
  "Ping_ToString m len = (
     let bs = put_addr (pg_src m) @ put_addr (pg_dest m) @ EncodeFixed32 (pg_uid m) @
              EncodeFixed64 (pg_send_ts m) @ EncodeFixed64 (pg_elapse m) @
              EncodeString2 (pg_msg m)
     in do { check (int (length bs) \<le> len); Some bs })"

definition Ping_FromString :: "Ping \<Rightarrow> bytes \<Rightarrow> int \<Rightarrow> (Ping \<times> int) option" where
  "Ping_FromString old ptr len = do {
     (src, c) \<leftarrow> get_addr (ptr, 0);
     (dest, c) \<leftarrow> get_addr c;
     (uid, c) \<leftarrow> get32 c;
     (send_ts, c) \<leftarrow> get64 c;
     (elapse, c) \<leftarrow> get64 c;
     (msg, c) \<leftarrow> get_string (pg_msg old) (size_t (len - snd c)) c;
     Some (\<lparr>pg_src = src, pg_dest = dest, pg_uid = uid, pg_send_ts = send_ts,
            pg_elapse = elapse, pg_msg = msg\<rparr>, snd c) }"

section \<open>PingReply\<close>

record PingReply =
  pgr_src :: RaftAddr
  pgr_dest :: RaftAddr
  pgr_uid :: u32
  pgr_send_ts :: u64
  pgr_elapse :: u64
  pgr_msg :: bytes

definition PingReply_MaxBytes :: "PingReply \<Rightarrow> int" where
  "PingReply_MaxBytes m =
     8 + 8 + 4 + 8 + 8 + (2 * 4 + int (length (pgr_msg m)))"

definition PingReply_ToString :: "PingReply \<Rightarrow> int \<Rightarrow> bytes option" where
  "PingReply_ToString m len = (
     let bs = put_addr (pgr_src m) @ put_addr (pgr_dest m) @ EncodeFixed32 (pgr_uid m) @
              EncodeFixed64 (pgr_send_ts m) @ EncodeFixed64 (pgr_elapse m) @
              EncodeString2 (pgr_msg m)
     in do { check (int (length bs) \<le> len); Some bs })"

definition PingReply_FromString :: "PingReply \<Rightarrow> bytes \<Rightarrow> int \<Rightarrow> (PingReply \<times> int) option" where
  "PingReply_FromString old ptr len = do {
     (src, c) \<leftarrow> get_addr (ptr, 0);
     (dest, c) \<leftarrow> get_addr c;
     (uid, c) \<leftarrow> get32 c;
     (send_ts, c) \<leftarrow> get64 c;
     (elapse, c) \<leftarrow> get64 c;
     (msg, c) \<leftarrow> get_string (pgr_msg old) (size_t (len - snd c)) c;
     Some (\<lparr>pgr_src = src, pgr_dest = dest, pgr_uid = uid, pgr_send_ts = send_ts,
            pgr_elapse = elapse, pgr_msg = msg\<rparr>, snd c) }"

section \<open>ClientRequest\<close>

record ClientRequest =
  cr_uid :: u32
  cr_cmd :: ClientCmd
  cr_data :: bytes

definition ClientRequest_MaxBytes :: "ClientRequest \<Rightarrow> int" where
  "ClientRequest_MaxBytes m =
     4 + 4 + (2 * 4 + int (length (cr_data m)))"

definition ClientRequest_ToString :: "ClientRequest \<Rightarrow> int \<Rightarrow> bytes option" where
  "ClientRequest_ToString m len = (
     let bs = EncodeFixed32 (cr_uid m) @ EncodeFixed32 (ClientCmdToU32 (cr_cmd m)) @
              EncodeString2 (cr_data m)
     in do { check (int (length bs) \<le> len); Some bs })"

definition ClientRequest_FromString :: "ClientRequest \<Rightarrow> bytes \<Rightarrow> int \<Rightarrow> (ClientRequest \<times> int) option" where
  "ClientRequest_FromString old ptr len = do {
     (uid, c) \<leftarrow> get32 (ptr, 0);
     (u32, c) \<leftarrow> get32 c;
     (data, c) \<leftarrow> get_string (cr_data old) (size_t (len - snd c)) c;
     Some (\<lparr>cr_uid = uid, cr_cmd = U32ToClientCmd u32, cr_data = data\<rparr>, snd c) }"

section \<open>ClientRequestReply\<close>

record ClientRequestReply =
  crr_uid :: u32
  crr_code :: u32
  crr_msg :: bytes
  crr_data :: bytes

definition ClientRequestReply_MaxBytes :: "ClientRequestReply \<Rightarrow> int" where
  "ClientRequestReply_MaxBytes m =
     4 + 4 + (2 * 4 + int (length (crr_msg m))) + (2 * 4 + int (length (crr_data m)))"

definition ClientRequestReply_ToString :: "ClientRequestReply \<Rightarrow> int \<Rightarrow> bytes option" where
  "ClientRequestReply_ToString m len = (
     let bs = EncodeFixed32 (crr_uid m) @ EncodeFixed32 (crr_code m) @
              EncodeString2 (crr_msg m) @ EncodeString2 (crr_data m)
     in do { check (int (length bs) \<le> len); Some bs })"

definition ClientRequestReply_FromString :: "ClientRequestReply \<Rightarrow> bytes \<Rightarrow> int \<Rightarrow> (ClientRequestReply \<times> int) option" where
  "ClientRequestReply_FromString old ptr len = do {
     (uid, c) \<leftarrow> get32 (ptr, 0);
     (code, c) \<leftarrow> get32 c;
     (msg, c) \<leftarrow> get_string (crr_msg old) (size_t (len - snd c)) c;
     (data, c) \<leftarrow> get_string (crr_data old) (size_t (len - snd c)) c;
     Some (\<lparr>crr_uid = uid, crr_code = code, crr_msg = msg, crr_data = data\<rparr>, snd c) }"

section \<open>VstoreGet\<close>

record VstoreGet =
  vg_uid :: u32
  vg_key :: bytes

definition VstoreGet_MaxBytes :: "VstoreGet \<Rightarrow> int" where
  "VstoreGet_MaxBytes m =
     4 + (2 * 4 + int (length (vg_key m)))"

definition VstoreGet_ToString :: "VstoreGet \<Rightarrow> int \<Rightarrow> bytes option" where
  "VstoreGet_ToString m len = (
     let bs = EncodeFixed32 (vg_uid m) @ EncodeString2 (vg_key m)
     in do { check (int (length bs) \<le> len); Some bs })"

definition VstoreGet_FromString :: "VstoreGet \<Rightarrow> bytes \<Rightarrow> int \<Rightarrow> (VstoreGet \<times> int) option" where
  "VstoreGet_FromString old ptr len = do {
     (uid, c) \<leftarrow> get32 (ptr, 0);
     (key, c) \<leftarrow> get_string (vg_key old) (size_t (len - snd c)) c;
     Some (\<lparr>vg_uid = uid, vg_key = key\<rparr>, snd c) }"

section \<open>VstoreGetReply\<close>

record VstoreGetReply =
  vgr_uid :: u32
  vgr_value :: bytes

definition VstoreGetReply_MaxBytes :: "VstoreGetReply \<Rightarrow> int" where
  "VstoreGetReply_MaxBytes m =
     4 + (2 * 4 + int (length (vgr_value m)))"

definition VstoreGetReply_ToString :: "VstoreGetReply \<Rightarrow> int \<Rightarrow> bytes option" where
  "VstoreGetReply_ToString m len = (
     let bs = EncodeFixed32 (vgr_uid m) @ EncodeString2 (vgr_value m)
     in do { check (int (length bs) \<le> len); Some bs })"

definition VstoreGetReply_FromString :: "VstoreGetReply \<Rightarrow> bytes \<Rightarrow> int \<Rightarrow> (VstoreGetReply \<times> int) option" where
  "VstoreGetReply_FromString old ptr len = do {
     (uid, c) \<leftarrow> get32 (ptr, 0);
     (value, c) \<leftarrow> get_string (vgr_value old) (size_t (len - snd c)) c;
     Some (\<lparr>vgr_uid = uid, vgr_value = value\<rparr>, snd c) }"

section \<open>KV\<close>

record KV =
  kv_key :: bytes
  kv_value :: bytes

definition KV_MaxBytes :: "KV \<Rightarrow> int" where
  "KV_MaxBytes m =
     (2 * 4 + int (length (kv_key m))) + (2 * 4 + int (length (kv_value m)))"

definition KV_ToString :: "KV \<Rightarrow> int \<Rightarrow> bytes option" where
  "KV_ToString m len = (
     let bs = EncodeString2 (kv_key m) @ EncodeString2 (kv_value m)
     in do { check (int (length bs) \<le> len); Some bs })"

definition KV_FromString :: "KV \<Rightarrow> bytes \<Rightarrow> int \<Rightarrow> (KV \<times> int) option" where
  "KV_FromString old ptr len = do {
     (key, c) \<leftarrow> get_string (kv_key old) (size_t (len - snd (ptr, 0 :: int))) (ptr, 0);
     (value, c) \<leftarrow> get_string (kv_value old) (size_t (len - snd c)) c;
     Some (\<lparr>kv_key = key, kv_value = value\<rparr>, snd c) }"

section \<open>AppendEntries\<close>

record AppendEntries =
  ap_src :: RaftAddr
  ap_dest :: RaftAddr
  ap_term :: RaftTerm
  ap_uid :: u32
  ap_send_ts :: u64
  ap_elapse :: u64
  ap_pre_log_index :: RaftIndex
  ap_pre_log_term :: RaftTerm
  ap_commit_index :: RaftIndex
  ap_entries :: "LogEntry list"

definition AppendEntries_MaxBytes :: "AppendEntries \<Rightarrow> int" where
  "AppendEntries_MaxBytes m =
     8 + 8 + 8 + 4 + 8 + 8 + 4 + 8 + 4 + 2 * 4 +
     (\<Sum>e\<leftarrow>ap_entries m. 4 + 4 + 4 + 4 + 8 + 4 + 2 * 4 + int (length (ae_value (le_append_entry e))))"

text \<open>The loops over the entries. \<open>size\<close> is what has been written, \<open>len2\<close> what is thought to be
  left to read.\<close>

fun EncodeEntries :: "LogEntry list \<Rightarrow> int \<Rightarrow> int \<Rightarrow> bytes option" where
  "EncodeEntries [] len done = Some []"
| "EncodeEntries (e # es) len done = do {
     bs \<leftarrow> LogEntry_ToString e (len - done);
     check (0 < length bs);
     rest \<leftarrow> EncodeEntries es len (done + int (length bs));
     Some (bs @ rest) }"

definition AppendEntries_ToString :: "AppendEntries \<Rightarrow> int \<Rightarrow> bytes option" where
  "AppendEntries_ToString m len = (
     let entries_size = sint (of_nat (length (ap_entries m)) :: u32);
         bs = put_addr (ap_src m) @ put_addr (ap_dest m) @ EncodeFixed64 (ap_term m) @
              EncodeFixed32 (ap_uid m) @ EncodeFixed64 (ap_send_ts m) @
              EncodeFixed64 (ap_elapse m) @ EncodeFixed32 (ap_pre_log_index m) @
              EncodeFixed64 (ap_pre_log_term m) @ EncodeFixed32 (ap_commit_index m) @
              EncodeFixed32 (word_of_int entries_size)
     in do {
       es \<leftarrow> EncodeEntries (take (nat entries_size) (ap_entries m)) len (int (length bs));
       check (int (length (bs @ es)) \<le> len);
       Some (bs @ es) })"

text \<open>One \<^verbatim>\<open>LogEntry\<close> object is decoded into again and again and copied into the vector; the
  field \<^verbatim>\<open>pre_chk_all\<close>, which is not part of the encoding, keeps the indeterminate value it
  was created with, here that of \<open>entry\<close>.\<close>

fun DecodeEntries :: "nat \<Rightarrow> LogEntry \<Rightarrow> cursor \<Rightarrow> int \<Rightarrow> (LogEntry list \<times> cursor \<times> int) option" where
  "DecodeEntries 0 entry c len2 = Some ([], c, len2)"
| "DecodeEntries (Suc n) entry c len2 = do {
     (entry, bytes) \<leftarrow> LogEntry_FromString entry (fst c) len2;
     check (bytes > 0);
     (es, c', len2') \<leftarrow>
       DecodeEntries n entry (drop (nat bytes) (fst c), snd c + bytes) (len2 - bytes);
     Some (entry # es, c', len2') }"

definition LogEntry_raw :: LogEntry where
  "LogEntry_raw = \<lparr>le_index = 0, le_pre_chk_all = 0, le_chk_ths = 0, le_chk_all = 0,
     le_append_entry = \<lparr>ae_term = 0, ae_type = kUnknown, ae_value = []\<rparr>\<rparr>"

text \<open>\<open>len2\<close> is not lowered for \<^verbatim>\<open>send_ts\<close> and \<^verbatim>\<open>elapse\<close>.\<close>

definition AppendEntries_FromString ::
    "AppendEntries \<Rightarrow> bytes \<Rightarrow> int \<Rightarrow> (AppendEntries \<times> int) option" where
  "AppendEntries_FromString old ptr len = do {
     (src, c) \<leftarrow> get_addr (ptr, 0);
     (dest, c) \<leftarrow> get_addr c;
     (term, c) \<leftarrow> get64 c;
     (uid, c) \<leftarrow> get32 c;
     (send_ts, c) \<leftarrow> get64 c;
     (elapse, c) \<leftarrow> get64 c;
     (pre_log_index, c) \<leftarrow> get32 c;
     (pre_log_term, c) \<leftarrow> get64 c;
     (commit_index, c) \<leftarrow> get32 c;
     (n, c) \<leftarrow> get32 c;
     let entries_size = sint n;
     let len2 = len - 8 - 8 - 8 - 4 - 4 - 8 - 4 - 4;
     (es, c, len2) \<leftarrow> DecodeEntries (nat entries_size) LogEntry_raw c len2;
     check (len2 \<ge> 0);
     Some (\<lparr>ap_src = src, ap_dest = dest, ap_term = term, ap_uid = uid, ap_send_ts = send_ts,
            ap_elapse = elapse, ap_pre_log_index = pre_log_index,
            ap_pre_log_term = pre_log_term, ap_commit_index = commit_index,
            ap_entries = ap_entries old @ es\<rparr>, snd c) }"

section \<open>Framing\<close>

text \<open>Every \<^verbatim>\<open>Send\<close> of the replica puts a header with the size and the type of the message
  before its encoding.\<close>

definition frame :: "MsgType \<Rightarrow> bytes \<Rightarrow> bytes option" where
  "frame type body = do {
     header \<leftarrow> MsgHeader_ToString
       \<lparr>mh_body_bytes = of_nat (length body), mh_type = MsgType_u32 type\<rparr> MsgHeader_Bytes;
     Some (header @ body) }"

text \<open>\<open>received_as MaxBytes ToString FromString type old r m m'\<close>: the message \<open>m\<close> is encoded
  within \<^verbatim>\<open>MaxBytes()\<close> and framed; the receiver reads its header, finds the type and the size of
  the body there, and decodes the body, with the bytes \<open>r\<close> after it in memory, into \<open>old\<close>,
  which becomes \<open>m'\<close>; the size it gets back is positive.\<close>

definition received_as :: "('m \<Rightarrow> int) \<Rightarrow> ('m \<Rightarrow> int \<Rightarrow> bytes option) \<Rightarrow>
    ('m \<Rightarrow> bytes \<Rightarrow> int \<Rightarrow> ('m \<times> int) option) \<Rightarrow> MsgType \<Rightarrow> 'm \<Rightarrow> bytes \<Rightarrow> 'm \<Rightarrow> 'm \<Rightarrow> bool" where
  "received_as MaxBytes ToString FromString type old r m m' \<longleftrightarrow>
     (\<exists>bs f h sz. ToString m (MaxBytes m) = Some bs \<and> int (length bs) \<le> MaxBytes m \<and>
        frame type bs = Some f \<and> length f = 8 + length bs \<and>
        MsgHeader_FromString f MsgHeader_Bytes = Some h \<and> mh_type h = MsgType_u32 type \<and>
        sint (mh_body_bytes h) = int (length bs) \<and>
        FromString old (drop 8 f @ r) (sint (mh_body_bytes h)) = Some (m', sz) \<and> 0 < sz)"

section \<open>The interface of messages\<close>

text \<open>
  What the network layer relies on. \<open>ok\<close> are the messages for which the promise is made;
  \<open>fresh\<close> the objects it may be decoded into; \<open>canon\<close> what of a message survives the wire;
  \<open>slack\<close> how many bytes after the message the decoder reads.
\<close>

locale message_codec =
  fixes MaxBytes :: "'m \<Rightarrow> int"
    and ToString :: "'m \<Rightarrow> int \<Rightarrow> bytes option"
    and FromString :: "'m \<Rightarrow> bytes \<Rightarrow> int \<Rightarrow> ('m \<times> int) option"
    and ok :: "'m \<Rightarrow> bool"
    and fresh :: "'m \<Rightarrow> bool"
    and canon :: "'m \<Rightarrow> 'm"
    and slack :: nat
  assumes encoded: "ok m \<Longrightarrow>
      \<exists>bs. ToString m (MaxBytes m) = Some bs \<and> bs \<noteq> [] \<and> int (length bs) \<le> MaxBytes m \<and>
           length bs < 2 ^ 31 - 8"
    and decoded: "ok m \<Longrightarrow> fresh old \<Longrightarrow> ToString m (MaxBytes m) = Some bs \<Longrightarrow>
      slack \<le> length r \<Longrightarrow>
      \<exists>sz. FromString old (bs @ r) (int (length bs)) = Some (canon m, sz) \<and> 0 < sz"
begin

lemma received:
  assumes "ok m" "fresh old" "slack \<le> length r"
  shows "received_as MaxBytes ToString FromString type old r m (canon m)"
proof -
  obtain bs where bs: "ToString m (MaxBytes m) = Some bs" "int (length bs) \<le> MaxBytes m"
      and "length bs < 2 ^ 31"
    using encoded [OF assms(1)] by auto
  then have "sint (of_nat (length bs) :: u32) = int (length bs)"
    by (simp add: sint_of_nat_small)
  moreover obtain sz where "FromString old (bs @ r) (int (length bs)) = Some (canon m, sz)" "0 < sz"
    using decoded [OF assms(1,2) bs(1) assms(3)] by auto
  ultimately show ?thesis using bs
    by (simp add: received_as_def frame_def MsgHeader_ToString_def MsgHeader_FromString_def
        MsgHeader_Bytes_def)
qed

end

section \<open>The messages implement the interface\<close>

lemma U32ToClientCmd_ToU32 [simp, codec_simps]: "U32ToClientCmd (ClientCmdToU32 c) = c"
  by (cases c) (simp_all add: U32ToClientCmd_def)

interpretation request_vote: message_codec RequestVote_MaxBytes RequestVote_ToString
    RequestVote_FromString "\<lambda>_. True" "\<lambda>_. True" "\<lambda>m. m" 0
  by unfold_locales
     (auto simp: RequestVote_MaxBytes_def RequestVote_ToString_def RequestVote_FromString_def Let_def)

interpretation request_vote_reply: message_codec RequestVoteReply_MaxBytes RequestVoteReply_ToString
    RequestVoteReply_FromString "\<lambda>_. True" "\<lambda>_. True" "\<lambda>m. m" 0
  by unfold_locales
     (auto simp: RequestVoteReply_MaxBytes_def RequestVoteReply_ToString_def
       RequestVoteReply_FromString_def Let_def)

interpretation append_entries_reply: message_codec AppendEntriesReply_MaxBytes
    AppendEntriesReply_ToString AppendEntriesReply_FromString "\<lambda>_. True" "\<lambda>_. True" "\<lambda>m. m" 0
  by unfold_locales
     (auto simp: AppendEntriesReply_MaxBytes_def AppendEntriesReply_ToString_def
       AppendEntriesReply_FromString_def Let_def)

interpretation install_snapshot_reply: message_codec InstallSnapshotReply_MaxBytes
    InstallSnapshotReply_ToString InstallSnapshotReply_FromString
    "\<lambda>_. True" "\<lambda>_. True" "\<lambda>m. m" 0
  by unfold_locales
     (auto simp: InstallSnapshotReply_MaxBytes_def InstallSnapshotReply_ToString_def
       InstallSnapshotReply_FromString_def Let_def)

interpretation ping: message_codec Ping_MaxBytes Ping_ToString Ping_FromString
    "\<lambda>m. length (pg_msg m) < 2 ^ 30" "\<lambda>_. True" "\<lambda>m. m" 0
proof (unfold_locales, goal_cases)
  case (1 m)
  then show ?case
    using EncodeString2_length [of "pg_msg m"]
    by (simp add: Ping_MaxBytes_def Ping_ToString_def Let_def)
next
  case (2 m old bs r)
  then show ?case
    using EncodeString2_length [of "pg_msg m"]
    by (auto simp: Ping_MaxBytes_def Ping_ToString_def Ping_FromString_def Let_def
        get_string_encoded get_string_short EncodeString2_length_short size_t_small
        split: if_splits)
qed

interpretation ping_reply: message_codec PingReply_MaxBytes PingReply_ToString PingReply_FromString
    "\<lambda>m. length (pgr_msg m) < 2 ^ 30" "\<lambda>_. True" "\<lambda>m. m" 0
proof (unfold_locales, goal_cases)
  case (1 m)
  then show ?case
    using EncodeString2_length [of "pgr_msg m"]
    by (simp add: PingReply_MaxBytes_def PingReply_ToString_def Let_def)
next
  case (2 m old bs r)
  then show ?case
    using EncodeString2_length [of "pgr_msg m"]
    by (auto simp: PingReply_MaxBytes_def PingReply_ToString_def PingReply_FromString_def Let_def
        get_string_encoded get_string_short EncodeString2_length_short size_t_small
        split: if_splits)
qed

interpretation client_request: message_codec ClientRequest_MaxBytes ClientRequest_ToString ClientRequest_FromString
    "\<lambda>m. length (cr_data m) < 2 ^ 30" "\<lambda>_. True" "\<lambda>m. m" 0
proof (unfold_locales, goal_cases)
  case (1 m)
  then show ?case
    using EncodeString2_length [of "cr_data m"]
    by (simp add: ClientRequest_MaxBytes_def ClientRequest_ToString_def Let_def)
next
  case (2 m old bs r)
  then show ?case
    using EncodeString2_length [of "cr_data m"]
    by (auto simp: ClientRequest_MaxBytes_def ClientRequest_ToString_def ClientRequest_FromString_def Let_def
        get_string_encoded get_string_short EncodeString2_length_short size_t_small
        split: if_splits)
qed

interpretation vstore_get: message_codec VstoreGet_MaxBytes VstoreGet_ToString VstoreGet_FromString
    "\<lambda>m. length (vg_key m) < 2 ^ 30" "\<lambda>_. True" "\<lambda>m. m" 0
proof (unfold_locales, goal_cases)
  case (1 m)
  then show ?case
    using EncodeString2_length [of "vg_key m"]
    by (simp add: VstoreGet_MaxBytes_def VstoreGet_ToString_def Let_def)
next
  case (2 m old bs r)
  then show ?case
    using EncodeString2_length [of "vg_key m"]
    by (auto simp: VstoreGet_MaxBytes_def VstoreGet_ToString_def VstoreGet_FromString_def Let_def
        get_string_encoded get_string_short EncodeString2_length_short size_t_small
        split: if_splits)
qed

interpretation vstore_get_reply: message_codec VstoreGetReply_MaxBytes VstoreGetReply_ToString VstoreGetReply_FromString
    "\<lambda>m. length (vgr_value m) < 2 ^ 30" "\<lambda>_. True" "\<lambda>m. m" 0
proof (unfold_locales, goal_cases)
  case (1 m)
  then show ?case
    using EncodeString2_length [of "vgr_value m"]
    by (simp add: VstoreGetReply_MaxBytes_def VstoreGetReply_ToString_def Let_def)
next
  case (2 m old bs r)
  then show ?case
    using EncodeString2_length [of "vgr_value m"]
    by (auto simp: VstoreGetReply_MaxBytes_def VstoreGetReply_ToString_def VstoreGetReply_FromString_def Let_def
        get_string_encoded get_string_short EncodeString2_length_short size_t_small
        split: if_splits)
qed

interpretation install_snapshot: message_codec InstallSnapshot_MaxBytes InstallSnapshot_ToString InstallSnapshot_FromString
    "\<lambda>m. length (is_data m) < 128" "\<lambda>_. True" "\<lambda>m. m" 0
proof (unfold_locales, goal_cases)
  case (1 m)
  then show ?case
    using EncodeString2_length [of "is_data m"]
    by (simp add: InstallSnapshot_MaxBytes_def InstallSnapshot_ToString_def Let_def)
next
  case (2 m old bs r)
  then show ?case
    using EncodeString2_length [of "is_data m"]
    by (auto simp: InstallSnapshot_MaxBytes_def InstallSnapshot_ToString_def InstallSnapshot_FromString_def Let_def
        get_string_encoded get_string_short EncodeString2_length_short size_t_small
        split: if_splits)
qed

interpretation client_request_reply: message_codec ClientRequestReply_MaxBytes ClientRequestReply_ToString ClientRequestReply_FromString
    "\<lambda>m. length (crr_msg m) < 128 \<and> length (crr_data m) < 2 ^ 30" "\<lambda>_. True" "\<lambda>m. m" 0
proof (unfold_locales, goal_cases)
  case (1 m)
  then show ?case
    using EncodeString2_length [of "crr_msg m"] EncodeString2_length [of "crr_data m"]
    by (simp add: ClientRequestReply_MaxBytes_def ClientRequestReply_ToString_def Let_def)
next
  case (2 m old bs r)
  then show ?case
    using EncodeString2_length [of "crr_msg m"] EncodeString2_length [of "crr_data m"]
    by (auto simp: ClientRequestReply_MaxBytes_def ClientRequestReply_ToString_def ClientRequestReply_FromString_def Let_def
        get_string_encoded get_string_short EncodeString2_length_short size_t_small
        split: if_splits)
qed

interpretation kv: message_codec KV_MaxBytes KV_ToString KV_FromString
    "\<lambda>m. length (kv_key m) < 128 \<and> length (kv_value m) < 2 ^ 30" "\<lambda>_. True" "\<lambda>m. m" 0
proof (unfold_locales, goal_cases)
  case (1 m)
  then show ?case
    using EncodeString2_length [of "kv_key m"] EncodeString2_length [of "kv_value m"]
    by (simp add: KV_MaxBytes_def KV_ToString_def Let_def)
next
  case (2 m old bs r)
  then show ?case
    using EncodeString2_length [of "kv_key m"] EncodeString2_length [of "kv_value m"]
    by (auto simp: KV_MaxBytes_def KV_ToString_def KV_FromString_def Let_def
        get_string_encoded get_string_short EncodeString2_length_short size_t_small
        split: if_splits)
qed


lemma DecodeFixed64_first:
  assumes "7 \<le> length r"
  shows "\<exists>v. DecodeFixed64 (b # r) = Some v \<and> (ucast v :: u8) = b"
proof -
  from assms obtain b1 b2 b3 b4 b5 b6 b7 q where r: "r = b1 # b2 # b3 # b4 # b5 # b6 # b7 # q"
    by (auto simp: Suc_le_length_iff numeral_eq_Suc)
  have "(ucast (put_byte 0 b OR put_byte 8 b1 OR put_byte 16 b2 OR put_byte 24 b3 OR
      put_byte 32 b4 OR put_byte 40 b5 OR put_byte 48 b6 OR put_byte 56 b7 :: u64) :: u8) = b"
    by (rule bit_word_eqI) (auto simp: bit_simps byte_at_put_byte)
  then show ?thesis by (simp add: DecodeFixed64_un_le r)
qed

interpretation timeout_now: message_codec TimeoutNow_MaxBytes TimeoutNow_ToString
    TimeoutNow_FromString "\<lambda>_. True" "\<lambda>_. True" "\<lambda>m. m" 7
proof (unfold_locales, goal_cases)
  case (1 m)
  then show ?case by (simp add: TimeoutNow_MaxBytes_def TimeoutNow_ToString_def Let_def)
next
  case (2 m old bs r)
  then obtain v where "DecodeFixed64 (put_bool (tn_force m) @ r) = Some v"
      "(ucast v :: u8) = of_bool (tn_force m)"
    using DecodeFixed64_first [of r "of_bool (tn_force m)"]
    by (auto simp: put_bool_def EncodeFixed8_def)
  with 2 show ?case
    by (auto simp: TimeoutNow_MaxBytes_def TimeoutNow_ToString_def TimeoutNow_FromString_def Let_def)
qed

definition AppendEntries_ok :: "AppendEntries \<Rightarrow> bool" where
  "AppendEntries_ok m \<longleftrightarrow>
     length (ap_entries m) < 2 ^ 20 \<and>
     list_all (\<lambda>e. length (ae_value (le_append_entry e)) < 128) (butlast (ap_entries m)) \<and>
     list_all (\<lambda>e. length (ae_value (le_append_entry e)) < 2 ^ 30) (ap_entries m)"

definition AppendEntries_canon :: "AppendEntries \<Rightarrow> AppendEntries" where
  "AppendEntries_canon m =
     m\<lparr>ap_entries := map (\<lambda>e. e\<lparr>le_pre_chk_all := le_pre_chk_all LogEntry_raw\<rparr>) (ap_entries m)\<rparr>"

abbreviation entries_enc :: "LogEntry list \<Rightarrow> bytes" where
  "entries_enc es \<equiv> concat (map LogEntry_enc es)"

lemma EncodeEntries_enc:
  "done + int (length (entries_enc es)) \<le> len \<Longrightarrow> EncodeEntries es len done = Some (entries_enc es)"
proof (induction es arbitrary: "done")
  case (Cons e es)
  then show ?case using LogEntry_enc_length(2) [of e]
    by (auto simp: LogEntry_ToString_enc)
qed simp

lemma entries_enc_MaxBytes:
  "int (length (entries_enc es)) \<le>
     (\<Sum>e\<leftarrow>es. 4 + 4 + 4 + 4 + 8 + 4 + 2 * 4 + int (length (ae_value (le_append_entry e))))"
proof (induction es)
  case (Cons e es)
  then show ?case using LogEntry_enc_length(1) [of e] by (simp add: LogEntry_MaxBytes_def)
qed simp

lemma entries_enc_short:
  assumes "list_all (\<lambda>e. length (ae_value (le_append_entry e)) < 128) es"
  shows "length (entries_enc es) \<le> 153 * length es"
  using assms
  by (induction es) (auto simp: LogEntry_enc_length(3) EncodeString2_length_short)

lemma entries_enc_bound:
  assumes "AppendEntries_ok m"
  shows "length (entries_enc (ap_entries m)) < 2 ^ 30 + 2 ^ 28 + 2 ^ 20"
proof (cases "ap_entries m" rule: rev_cases)
  case (snoc es e)
  have "length (entries_enc es) \<le> 153 * length es"
    using assms snoc by (intro entries_enc_short) (simp add: AppendEntries_ok_def)
  moreover have "length (LogEntry_enc e) \<le> 29 + 2 ^ 30"
    using assms snoc EncodeString2_length(2) [of "ae_value (le_append_entry e)"]
    by (simp add: AppendEntries_ok_def LogEntry_enc_length(3))
  moreover have "length es < 2 ^ 20" using assms snoc by (simp add: AppendEntries_ok_def)
  ultimately show ?thesis by (simp add: snoc)
qed simp

lemma LogEntry_enc_short:
  "length (ae_value (le_append_entry e)) < 128 \<Longrightarrow>
   length (LogEntry_enc e) = 25 + length (ae_value (le_append_entry e))"
  by (simp add: LogEntry_enc_length(3) EncodeString2_length_short)

lemma DecodeEntries_enc:
  assumes "list_all (\<lambda>e. length (ae_value (le_append_entry e)) < 128) (butlast es)"
    and "list_all (\<lambda>e. length (ae_value (le_append_entry e)) < 2 ^ 30) es"
    and "int (length (entries_enc es)) \<le> len2" "len2 < 2 ^ 62"
  shows "\<exists>c' len2'. DecodeEntries (length es) entry (entries_enc es @ r, used) len2 =
      Some (map (\<lambda>e. e\<lparr>le_pre_chk_all := le_pre_chk_all entry\<rparr>) es, c', len2') \<and>
    0 \<le> len2' \<and> used \<le> snd c'"
  using assms
proof (induction es arbitrary: entry used len2)
  case (Cons e es)
  let ?v = "ae_value (le_append_entry e)"
  let ?e = "e\<lparr>le_pre_chk_all := le_pre_chk_all entry\<rparr>"
  have dec: "LogEntry_FromString entry (LogEntry_enc e @ q) len2 = Some (?e, 25 + int (length ?v))" for q
    using Cons.prems by (intro LogEntry_FromString_enc) (auto simp: LogEntry_ok_def)
  have pos: "int (length ?v) + 25 \<le> len2"
    using Cons.prems(3) EncodeString2_length(1) [of ?v] by (simp add: LogEntry_enc_length(3))
  show ?case
  proof (cases es)
    case Nil
    then show ?thesis using dec pos by simp
  next
    case (Cons e' es')
    then have short: "length (LogEntry_enc e) = 25 + length ?v"
      using Cons.prems(1) by (simp add: LogEntry_enc_short)
    obtain c' len2' where IH: "DecodeEntries (length es) ?e (entries_enc es @ r,
          used + (25 + int (length ?v))) (len2 - (25 + int (length ?v))) =
        Some (map (\<lambda>e. e\<lparr>le_pre_chk_all := le_pre_chk_all ?e\<rparr>) es, c', len2')"
        "0 \<le> len2'" "used + (25 + int (length ?v)) \<le> snd c'"
      using Cons.IH [of "len2 - (25 + int (length ?v))" ?e "used + (25 + int (length ?v))"]
        Cons.prems short local.Cons by auto
    show ?thesis using dec IH by (simp add: nat_add_distrib short)
  qed
qed simp

lemma AppendEntries_ToString_enc:
  assumes "AppendEntries_ok m"
  shows "AppendEntries_ToString m (AppendEntries_MaxBytes m) =
    Some (put_addr (ap_src m) @ put_addr (ap_dest m) @ EncodeFixed64 (ap_term m) @
      EncodeFixed32 (ap_uid m) @ EncodeFixed64 (ap_send_ts m) @
      EncodeFixed64 (ap_elapse m) @ EncodeFixed32 (ap_pre_log_index m) @
      EncodeFixed64 (ap_pre_log_term m) @ EncodeFixed32 (ap_commit_index m) @
      EncodeFixed32 (of_nat (length (ap_entries m))) @ entries_enc (ap_entries m))"
proof -
  have "sint (of_nat (length (ap_entries m)) :: u32) = int (length (ap_entries m))"
    using assms by (simp add: AppendEntries_ok_def sint_of_nat_small)
  then show ?thesis
    using entries_enc_MaxBytes [of "ap_entries m"]
    by (simp add: AppendEntries_ToString_def AppendEntries_MaxBytes_def EncodeEntries_enc Let_def)
qed

interpretation append_entries: message_codec AppendEntries_MaxBytes AppendEntries_ToString
    AppendEntries_FromString AppendEntries_ok "\<lambda>m. ap_entries m = []" AppendEntries_canon 0
proof (unfold_locales, goal_cases)
  case (1 m)
  then show ?case
    using AppendEntries_ToString_enc entries_enc_bound [of m] entries_enc_MaxBytes [of "ap_entries m"]
    by (simp add: AppendEntries_MaxBytes_def)
next
  case (2 m old bs r)
  let ?es = "ap_entries m"
  have n: "sint (of_nat (length ?es) :: u32) = int (length ?es)"
    using 2 by (simp add: AppendEntries_ok_def sint_of_nat_small)
  obtain c' len2' where "DecodeEntries (length ?es) LogEntry_raw (entries_enc ?es @ r, 64)
      (16 + int (length (entries_enc ?es))) =
        Some (map (\<lambda>e. e\<lparr>le_pre_chk_all := le_pre_chk_all LogEntry_raw\<rparr>) ?es, c', len2')"
      "0 \<le> len2'" "64 \<le> snd c'"
    using DecodeEntries_enc [of ?es "16 + int (length (entries_enc ?es))" LogEntry_raw r 64] 2
      entries_enc_bound [of m] by (auto simp: AppendEntries_ok_def)
  with 2 n show ?case
    by (auto simp: AppendEntries_ToString_enc AppendEntries_FromString_def AppendEntries_canon_def)
qed


lemma EncodeString2_two_bytes:
  assumes "128 \<le> length s" "length s < 2 ^ 14"
  shows "length (EncodeString2 s) = 2 + length s" "drop (Suc (length s)) (EncodeString2 s) = [last s]"
proof -
  have w: "(of_nat (length s) :: u32) < 2 ^ 14" "\<not> (of_nat (length s) :: u32) < 2 ^ 7"
    using assms by (simp_all add: word_less_nat_alt unat_of_nat take_bit_nat_eq_self)
  obtain t b where s: "s = t @ [b]" using assms by (cases s rule: rev_cases) auto
  have "EncodeString2 s = [ucast (of_nat (length s) OR 128 :: u32),
      ucast (drop_bit 7 (of_nat (length s) :: u32))] @ s"
    using w by (simp add: EncodeString2_def EncodeVarint32_def)
  then show "length (EncodeString2 s) = 2 + length s"
    "drop (Suc (length s)) (EncodeString2 s) = [last s]" by (simp_all add: s)
qed

section \<open>Properties\<close>

text \<open>The fixed size messages of the protocol are delivered: sent as a frame and received into
  any message object, with any bytes following in the buffer, each of them is the message that was
  sent. Their encodings never exceed \<open>MaxBytes\<close>, so no \<^verbatim>\<open>assert\<close> of an encoder fails.\<close>

theorem fixed_messages_delivered:
  "received_as RequestVote_MaxBytes RequestVote_ToString RequestVote_FromString
     kRequestVote old1 r m1 m1 \<and>
   received_as RequestVoteReply_MaxBytes RequestVoteReply_ToString RequestVoteReply_FromString
     kRequestVoteReply old2 r m2 m2 \<and>
   received_as AppendEntriesReply_MaxBytes AppendEntriesReply_ToString
     AppendEntriesReply_FromString kAppendEntriesReply old3 r m3 m3 \<and>
   received_as InstallSnapshotReply_MaxBytes InstallSnapshotReply_ToString
     InstallSnapshotReply_FromString kInstallSnapshotReply old4 r m4 m4"
  by (simp add: request_vote.received request_vote_reply.received append_entries_reply.received
      install_snapshot_reply.received)

text \<open>Client and ping messages are delivered when their strings are shorter than a gigabyte and,
  in a reply, the text before the data is shorter than 128 bytes.\<close>

theorem client_messages_delivered:
  assumes "length (cr_data m1) < 2 ^ 30"
    and "length (crr_msg m2) < 128" and "length (crr_data m2) < 2 ^ 30"
    and "length (pg_msg m3) < 2 ^ 30" and "length (pgr_msg m4) < 2 ^ 30"
  shows "received_as ClientRequest_MaxBytes ClientRequest_ToString ClientRequest_FromString
           kClientRequet old1 r m1 m1 \<and>
         received_as ClientRequestReply_MaxBytes ClientRequestReply_ToString
           ClientRequestReply_FromString kClientRequetReply old2 r m2 m2 \<and>
         received_as Ping_MaxBytes Ping_ToString Ping_FromString kPing old3 r m3 m3 \<and>
         received_as PingReply_MaxBytes PingReply_ToString PingReply_FromString
           kPingReply old4 r m4 m4"
  using assms by (simp add: client_request.received client_request_reply.received ping.received
      ping_reply.received)

theorem client_messages_delivered_witness:
  "\<exists>m1 old r. received_as ClientRequest_MaxBytes ClientRequest_ToString ClientRequest_FromString
     kClientRequet old r m1 m1 \<and> cr_data m1 = [1, 2, 3]"
proof -
  let ?m1 = "\<lparr>cr_uid = 7, cr_cmd = kCmdPropose, cr_data = [1, 2, 3]\<rparr>"
  let ?m2 = "\<lparr>crr_uid = 7, crr_code = 0, crr_msg = [1], crr_data = [2]\<rparr>"
  let ?a = "RaftAddr 1 2 3"
  let ?m3 = "\<lparr>pg_src = ?a, pg_dest = ?a, pg_uid = 1, pg_send_ts = 2, pg_elapse = 3, pg_msg = [4]\<rparr>"
  let ?m4 = "\<lparr>pgr_src = ?a, pgr_dest = ?a, pgr_uid = 1, pgr_send_ts = 2, pgr_elapse = 3, pgr_msg = [4]\<rparr>"
  have "received_as ClientRequest_MaxBytes ClientRequest_ToString ClientRequest_FromString
     kClientRequet ?m1 [] ?m1 ?m1"
    using client_messages_delivered [of ?m1 ?m2 ?m3 ?m4 ?m1 "[]" ?m2 ?m3 ?m4] by simp
  then show ?thesis by (intro exI [of _ ?m1] exI [of _ "[]"]) simp
qed

text \<open>C38. An \<open>AppendEntries\<close> message is delivered entry by entry, up to the field
  \<open>pre_chk_all\<close> that is not transmitted, when the values of all entries but the last are shorter
  than 128 bytes.\<close>

theorem append_entries_delivered:
  assumes "AppendEntries_ok m" and "ap_entries old = []"
  shows "received_as AppendEntries_MaxBytes AppendEntries_ToString AppendEntries_FromString
    kAppendEntries old r m (AppendEntries_canon m)"
  using assms by (simp add: append_entries.received)

theorem append_entries_delivered_witness:
  "\<exists>m old. length (ap_entries m) = 2 \<and>
     received_as AppendEntries_MaxBytes AppendEntries_ToString AppendEntries_FromString
       kAppendEntries old [] m m"
proof -
  let ?a = "RaftAddr 1 2 3"
  let ?e = "\<lparr>le_index = 1, le_pre_chk_all = 0, le_chk_ths = 1, le_chk_all = 2,
    le_append_entry = \<lparr>ae_term = 1, ae_type = kData, ae_value = [1, 2]\<rparr>\<rparr>"
  let ?m = "\<lparr>ap_src = ?a, ap_dest = ?a, ap_term = 1, ap_uid = 2, ap_send_ts = 3, ap_elapse = 4,
    ap_pre_log_index = 0, ap_pre_log_term = 0, ap_commit_index = 0, ap_entries = [?e, ?e]\<rparr>"
  have "AppendEntries_canon ?m = ?m" by (simp add: AppendEntries_canon_def LogEntry_raw_def)
  moreover have "AppendEntries_ok ?m" by (simp add: AppendEntries_ok_def)
  ultimately have "received_as AppendEntries_MaxBytes AppendEntries_ToString AppendEntries_FromString
       kAppendEntries (?m\<lparr>ap_entries := []\<rparr>) [] ?m ?m"
    using append_entries_delivered [of ?m "?m\<lparr>ap_entries := []\<rparr>" "[]"] by simp
  then show ?thesis by (intro exI [of _ ?m] exI [of _ "?m\<lparr>ap_entries := []\<rparr>"]) simp
qed

text \<open>The decoder of \<open>TimeoutNow\<close> reads seven bytes past the end of the message: on exactly the
  bytes that were encoded it runs out of bounds, and it delivers the message when at least
  seven readable bytes follow.\<close>

theorem TimeoutNow_overreads:
  assumes "TimeoutNow_ToString m (TimeoutNow_MaxBytes m) = Some bs"
  shows "TimeoutNow_FromString old bs (int (length bs)) = None \<and>
    (7 \<le> length r \<longrightarrow> (\<exists>sz. TimeoutNow_FromString old (bs @ r) (int (length bs)) = Some (m, sz)))"
proof -
  have none: "DecodeFixed64 (put_bool b) = None" for b
    by (simp add: put_bool_def EncodeFixed8_def DecodeFixed64_un_le)
  have "TimeoutNow_FromString old bs (int (length bs)) = None"
    using assms by (auto simp: TimeoutNow_ToString_def TimeoutNow_FromString_def Let_def none
        split: if_splits)
  then show ?thesis using assms timeout_now.decoded [of m bs r old] by auto
qed

theorem TimeoutNow_overreads_witness:
  "\<exists>m bs old. TimeoutNow_ToString m (TimeoutNow_MaxBytes m) = Some bs \<and>
     TimeoutNow_FromString old bs (int (length bs)) = None"
proof -
  let ?a = "RaftAddr 1 2 3"
  let ?m = "\<lparr>tn_src = ?a, tn_dest = ?a, tn_term = 1, tn_uid = 2, tn_send_ts = 3, tn_elapse = 4,
    tn_last_log_index = 5, tn_last_log_term = 6, tn_force = True\<rparr>"
  obtain bs where bs: "TimeoutNow_ToString ?m (TimeoutNow_MaxBytes ?m) = Some bs"
    using timeout_now.encoded [of ?m] by auto
  from bs TimeoutNow_overreads [OF bs, of ?m] show ?thesis by blast
qed

text \<open>A snapshot chunk of 128 bytes or more is not delivered: the flag \<open>done\<close> that the
  receiver sees is whether the last byte of the data is non-zero, because the decoder believes
  the length prefix to be one byte long.\<close>

theorem InstallSnapshot_misreads_done:
  assumes "128 \<le> length (is_data m)" and "length (is_data m) < 2 ^ 14"
    and "InstallSnapshot_ToString m (InstallSnapshot_MaxBytes m) = Some bs"
  shows "InstallSnapshot_FromString old bs (int (length bs)) =
    Some (m\<lparr>is_done := (last (is_data m) \<noteq> 0)\<rparr>, int (length bs) - 1)"
proof -
  have g: "get_bool (b # q, u) = Some (b \<noteq> 0, q, u + 1)" for b q u
    by (simp add: get_bool_def get8_def)
  show ?thesis using assms EncodeString2_two_bytes [of "is_data m"]
    by (auto simp: InstallSnapshot_MaxBytes_def InstallSnapshot_ToString_def
        InstallSnapshot_FromString_def Let_def get_string_encoded size_t_small g
        split: if_splits)
qed

theorem InstallSnapshot_misreads_done_witness:
  "\<exists>m bs old m'. InstallSnapshot_ToString m (InstallSnapshot_MaxBytes m) = Some bs \<and>
     is_done m \<and> InstallSnapshot_FromString old bs (int (length bs)) = Some (m', int (length bs) - 1) \<and>
     \<not> is_done m'"
proof -
  let ?a = "RaftAddr 1 2 3"
  let ?m = "\<lparr>is_src = ?a, is_dest = ?a, is_term = 1, is_uid = 2, is_send_ts = 3, is_elapse = 4,
    is_last_index = 5, is_last_term = 6, is_offset = 0, is_data = replicate 128 0, is_done = True\<rparr>"
  have l: "length (EncodeString2 (replicate 128 (0 :: u8))) = 130"
    using EncodeString2_two_bytes [of "replicate 128 (0 :: u8)"] by simp
  then obtain bs where bs: "InstallSnapshot_ToString ?m (InstallSnapshot_MaxBytes ?m) = Some bs"
    by (simp add: InstallSnapshot_ToString_def InstallSnapshot_MaxBytes_def Let_def)
  have "last (replicate 128 (0 :: u8)) = 0" by (rule last_replicate) simp
  with InstallSnapshot_misreads_done [OF _ _ bs, of ?m] bs show ?thesis
    by (intro exI [of _ ?m] exI [of _ bs] exI [of _ "?m\<lparr>is_done := False\<rparr>"]) auto
qed

end
