(* ===== verification/Leveldb.thy ===== *)
theory Leveldb
  imports Prelude
begin

text \<open>
  LevelDB as the code relies on it. The store is third-party code: every definition that uses it
  takes its operations as an argument of type \<open>'db leveldb\<close>, and the locale \<open>leveldb_store\<close> states
  the documented behaviour the code depends on (a batch applies its updates in order, \<^verbatim>\<open>Get\<close> sees
  the last update of a key, an iterator visits the live entries in the order of the comparator when
  that is a strict total order on the stored keys). A failing status is asserted away
  everywhere in the code, so the operations here are those of a store that does not fail.
\<close>

section \<open>Operations\<close>

datatype batch_op = Put bytes bytes | Delete bytes

fun apply_op :: "batch_op \<Rightarrow> (bytes \<rightharpoonup> bytes) \<Rightarrow> (bytes \<rightharpoonup> bytes)" where
  "apply_op (Put k v) m = m(k \<mapsto> v)"
| "apply_op (Delete k) m = m(k := None)"

text \<open>A comparator answers with the sign of its result; \<open>None\<close> is a failed assertion in it.\<close>

type_synonym comparator = "bytes \<Rightarrow> bytes \<Rightarrow> int option"

text \<open>\<open>ldb_open\<close> is the database that \<^verbatim>\<open>DB::Open\<close> creates when there is none, \<open>ldb_write\<close> takes
  the \<^verbatim>\<open>sync\<close> option first, and \<open>ldb_scan\<close> is the sequence of entries an iterator moves over.\<close>

record 'db leveldb =
  ldb_open :: 'db
  ldb_get :: "'db \<Rightarrow> bytes \<Rightarrow> bytes option"
  ldb_write :: "bool \<Rightarrow> batch_op list \<Rightarrow> 'db \<Rightarrow> 'db"
  ldb_scan :: "comparator \<Rightarrow> 'db \<Rightarrow> (bytes \<times> bytes) list"

section \<open>Comparators\<close>

definition cmp_less :: "comparator \<Rightarrow> bytes \<Rightarrow> bytes \<Rightarrow> bool" where
  "cmp_less cmp a b \<longleftrightarrow> (case cmp a b of Some r \<Rightarrow> r < 0 | None \<Rightarrow> False)"

definition orders :: "comparator \<Rightarrow> bytes set \<Rightarrow> bool" where
  "orders cmp K \<longleftrightarrow>
     (\<forall>a\<in>K. \<not> cmp_less cmp a a) \<and>
     (\<forall>a\<in>K. \<forall>b\<in>K. a \<noteq> b \<longrightarrow> cmp_less cmp a b \<or> cmp_less cmp b a) \<and>
     (\<forall>a\<in>K. \<forall>b\<in>K. \<forall>c\<in>K. cmp_less cmp a b \<longrightarrow> cmp_less cmp b c \<longrightarrow> cmp_less cmp a c)"

abbreviation sorted_rows :: "comparator \<Rightarrow> (bytes \<times> bytes) list \<Rightarrow> bool" where
  "sorted_rows cmp xs \<equiv> sorted_wrt (\<lambda>x y. cmp_less cmp (fst x) (fst y)) xs"

lemma orders_mono: "orders cmp K \<Longrightarrow> K' \<subseteq> K \<Longrightarrow> orders cmp K'"
  unfolding orders_def by blast

lemma orders_irrefl: "orders cmp K \<Longrightarrow> a \<in> K \<Longrightarrow> \<not> cmp_less cmp a a"
  by (simp add: orders_def)

lemma orders_total: "orders cmp K \<Longrightarrow> a \<in> K \<Longrightarrow> b \<in> K \<Longrightarrow> a \<noteq> b \<Longrightarrow> cmp_less cmp a b \<or> cmp_less cmp b a"
  by (simp add: orders_def)

lemma orders_trans:
  "orders cmp K \<Longrightarrow> a \<in> K \<Longrightarrow> b \<in> K \<Longrightarrow> c \<in> K \<Longrightarrow> cmp_less cmp a b \<Longrightarrow> cmp_less cmp b c \<Longrightarrow> cmp_less cmp a c"
  unfolding orders_def by blast

lemma sorted_rows_distinct:
  assumes "orders cmp (fst ` set xs)" "sorted_rows cmp xs"
  shows "distinct (map fst xs)"
  using assms
proof (induction xs)
  case (Cons x xs)
  have "orders cmp (fst ` set xs)" using Cons.prems(1) by (rule orders_mono) auto
  moreover have "fst x \<notin> fst ` set xs"
  proof
    assume "fst x \<in> fst ` set xs"
    then have "cmp_less cmp (fst x) (fst x)" using Cons.prems(2) by auto
    then show False using orders_irrefl [OF Cons.prems(1), of "fst x"] by simp
  qed
  ultimately show ?case using Cons by simp
qed simp

text \<open>A map has only one enumeration in the order of the comparator.\<close>

lemma sorted_rows_unique:
  assumes "orders cmp (dom m)" "sorted_rows cmp xs" "sorted_rows cmp ys"
    "map_of xs = m" "map_of ys = m"
  shows "xs = ys"
  using assms
proof (induction xs arbitrary: ys m)
  case Nil
  then show ?case by (cases ys) (auto simp: fun_eq_iff split: if_splits)
next
  case (Cons x xs)
  have dom_xs: "fst ` set (x # xs) = dom m" using Cons.prems(4) by (metis dom_map_of_conv_image_fst)
  have dom_ys: "fst ` set ys = dom m" using Cons.prems(5) by (metis dom_map_of_conv_image_fst)
  then obtain y zs where ys: "ys = y # zs" using dom_xs by (cases ys) auto
  have o: "orders cmp (fst ` set (x # xs))" "orders cmp (fst ` set (y # zs))"
    using Cons.prems(1) dom_xs dom_ys ys by simp_all
  have fx: "fst x \<in> dom m" and fy: "fst y \<in> dom m" using dom_xs dom_ys ys by auto
  have "fst x = fst y"
  proof (rule ccontr)
    assume ne: "fst x \<noteq> fst y"
    have "fst x \<in> fst ` set (y # zs)" "fst y \<in> fst ` set (x # xs)"
      using fx fy dom_xs dom_ys ys by metis+
    then have "fst x \<in> fst ` set zs" "fst y \<in> fst ` set xs" using ne by auto
    then have "cmp_less cmp (fst y) (fst x)" "cmp_less cmp (fst x) (fst y)"
      using Cons.prems(2,3) ys by auto
    then have "cmp_less cmp (fst x) (fst x)" using orders_trans [OF Cons.prems(1) fx fy fx] by blast
    then show False using orders_irrefl [OF Cons.prems(1) fx] by simp
  qed
  moreover have "snd x = snd y"
  proof -
    have "map_of (x # xs) (fst x) = map_of (y # zs) (fst y)"
      using Cons.prems(4,5) ys \<open>fst x = fst y\<close> by metis
    then show ?thesis by (cases x; cases y) simp
  qed
  ultimately have xy: "x = y" by (simp add: prod_eq_iff)
  have dx: "fst x \<notin> fst ` set xs" "fst y \<notin> fst ` set zs"
    using sorted_rows_distinct [OF o(1) Cons.prems(2)]
      sorted_rows_distinct [OF o(2)] Cons.prems(3) ys by simp_all
  have mx: "map_of xs = m(fst x := None)" and my: "map_of zs = m(fst x := None)"
  proof -
    have none: "map_of xs (fst x) = None" "map_of zs (fst y) = None"
      using dx by (simp_all add: map_of_eq_None_iff)
    have "m = (map_of xs)(fst x \<mapsto> snd x)" by (simp only: map_of.simps flip: Cons.prems(4))
    then show "map_of xs = m(fst x := None)" using none by (simp add: fun_upd_idem)
    have "m = (map_of zs)(fst y \<mapsto> snd y)" by (simp only: ys map_of.simps flip: Cons.prems(5))
    then show "map_of zs = m(fst x := None)" using none xy by (simp add: fun_upd_idem)
  qed
  have "orders cmp (dom (m(fst x := None)))" by (rule orders_mono [OF Cons.prems(1)]) auto
  then have "xs = zs" by (rule Cons.IH [OF _ _ _ mx my]) (use Cons.prems(2,3) ys in simp_all)
  then show ?case using xy ys by simp
qed

section \<open>Documented behaviour\<close>

locale leveldb_store =
  fixes L :: "'db leveldb"
  assumes get_open: "ldb_get L (ldb_open L) k = None"
    and get_write: "ldb_get L (ldb_write L sync ops db) = fold apply_op ops (ldb_get L db)"
    and scan: "orders cmp (dom (ldb_get L db)) \<Longrightarrow>
      sorted_rows cmp (ldb_scan L cmp db) \<and> map_of (ldb_scan L cmp db) = ldb_get L db"
begin

lemma scan_eq:
  assumes "ldb_get L db = map_of rows" "orders cmp (fst ` set rows)" "sorted_rows cmp rows"
  shows "ldb_scan L cmp db = rows"
proof -
  have dom: "dom (ldb_get L db) = fst ` set rows"
    by (simp add: assms(1) dom_map_of_conv_image_fst)
  with assms(2) have o: "orders cmp (dom (ldb_get L db))" by simp
  show ?thesis
    by (rule sorted_rows_unique [OF o _ assms(3)]) (use scan [OF o] assms(1) in auto)
qed

lemma scan_open: "ldb_scan L cmp (ldb_open L) = []"
  by (rule scan_eq) (simp_all add: fun_eq_iff get_open orders_def)

end

section \<open>Batches\<close>

lemma fold_Delete:
  "fold apply_op (map Delete ks) m = m |` (- set ks)"
proof (induction ks arbitrary: m)
  case (Cons k ks)
  then show ?case by (auto simp: restrict_map_def fun_eq_iff)
qed (simp add: restrict_map_def)

section \<open>An implementation\<close>

text \<open>The laws are consistent: an association list, sorted when it is scanned, satisfies them.\<close>

fun insert_row :: "comparator \<Rightarrow> bytes \<times> bytes \<Rightarrow> (bytes \<times> bytes) list \<Rightarrow> (bytes \<times> bytes) list" where
  "insert_row cmp x [] = [x]"
| "insert_row cmp x (y # ys) =
     (if cmp_less cmp (fst x) (fst y) then x # y # ys else y # insert_row cmp x ys)"

definition alist_store :: "(bytes \<times> bytes) list leveldb" where
  "alist_store = \<lparr>ldb_open = [],
     ldb_get = map_of,
     ldb_write = (\<lambda>sync. fold (\<lambda>op db. case op of Put k v \<Rightarrow> AList.update k v db
                                           | Delete k \<Rightarrow> AList.delete k db)),
     ldb_scan = (\<lambda>cmp db. foldr (insert_row cmp) (AList.clearjunk db) [])\<rparr>"

lemma set_insert_row: "set (insert_row cmp x ys) = insert x (set ys)"
  by (induction ys) auto

lemma insert_row_sorted:
  assumes "orders cmp (fst ` set (x # ys))" "fst x \<notin> fst ` set ys" "sorted_rows cmp ys"
  shows "sorted_rows cmp (insert_row cmp x ys)"
  using assms
proof (induction ys)
  case (Cons y ys)
  let ?K = "fst ` set (x # y # ys)"
  have "orders cmp (fst ` set (x # ys))" using Cons.prems(1) by (rule orders_mono) auto
  then have IH: "sorted_rows cmp (insert_row cmp x ys)" using Cons by simp
  show ?case
  proof (cases "cmp_less cmp (fst x) (fst y)")
    case True
    have "cmp_less cmp (fst x) (fst z)" if "z \<in> set ys" for z
      by (rule orders_trans [OF Cons.prems(1) _ _ _ True]) (use that Cons.prems(3) in auto)
    with True Cons.prems show ?thesis by simp
  next
    case False
    moreover have "fst x \<noteq> fst y" using Cons.prems(2) by auto
    ultimately have "cmp_less cmp (fst y) (fst x)"
      using orders_total [OF Cons.prems(1), of "fst x" "fst y"] by auto
    with False IH Cons.prems show ?thesis by (auto simp: set_insert_row)
  qed
qed simp

lemma map_of_insert_row:
  "fst x \<notin> fst ` set ys \<Longrightarrow> map_of (insert_row cmp x ys) = (map_of ys)(fst x \<mapsto> snd x)"
  by (induction ys) (auto simp: fun_eq_iff)

lemma sort_rows:
  assumes "orders cmp (fst ` set xs)" "distinct (map fst xs)"
  shows "sorted_rows cmp (foldr (insert_row cmp) xs []) \<and>
    map_of (foldr (insert_row cmp) xs []) = map_of xs \<and>
    set (foldr (insert_row cmp) xs []) = set xs"
  using assms
proof (induction xs)
  case (Cons x xs)
  have o: "orders cmp (fst ` set xs)" using Cons.prems(1) by (rule orders_mono) auto
  with Cons have IH: "sorted_rows cmp (foldr (insert_row cmp) xs [])"
      "map_of (foldr (insert_row cmp) xs []) = map_of xs"
      "set (foldr (insert_row cmp) xs []) = set xs" by simp_all
  with Cons.prems show ?case
    by (simp add: insert_row_sorted map_of_insert_row set_insert_row map_of_Cons_code fun_eq_iff)
qed simp

interpretation alist_store: leveldb_store alist_store
proof (unfold_locales, goal_cases)
  case (1 k)
  then show ?case by (simp add: alist_store_def)
next
  case (2 sync ops db)
  show ?case
  proof (induction ops arbitrary: db)
    case (Cons op ops)
    have "map_of (case op of Put k v \<Rightarrow> AList.update k v db | Delete k \<Rightarrow> AList.delete k db) =
        apply_op op (map_of db)"
      by (cases op) (simp_all add: update_conv' delete_conv')
    then show ?case using Cons by (simp add: alist_store_def)
  qed (simp add: alist_store_def)
next
  case (3 cmp db)
  have "fst ` set (AList.clearjunk db) = dom (map_of db)"
    by (metis dom_map_of_conv_image_fst map_of_clearjunk)
  with 3 have "orders cmp (fst ` set (AList.clearjunk db))" by (simp add: alist_store_def)
  from sort_rows [OF this distinct_clearjunk] show ?case
    by (simp add: alist_store_def map_of_clearjunk)
qed

end
