(* ===== verification/RaftLog.thy ===== *)
theory RaftLog
  imports LogEntry Leveldb
begin

text \<open>
  The persistent log (src/src/raft/raft_log.h and raft_log.cc). Entry \<open>i\<close> occupies two rows of a
  LevelDB database with 32 bit keys, its meta data at \<open>2 i - 1\<close> and its value at \<open>2 i\<close>; row 0
  remembers the next index and the running checksum while the log is empty. Configuration entries
  are stored a second time in the database \<^verbatim>\<open>config_db_\<close>.

  The operations return the changed log; \<open>None\<close> is a failed \<^verbatim>\<open>assert\<close>. Return codes are kept where
  the source distinguishes them: the inner \<open>None\<close> of \<open>RaftLog_GetMeta\<close>, \<open>RaftLog_GetValue\<close> and
  \<open>RaftLog_Get\<close> is \<open>-1\<close>.
\<close>

section \<open>Keys and rows\<close>

record MetaValue =
  mv_term :: RaftTerm
  mv_type :: EntryType
  mv_pre_chk_all :: u32
  mv_chk_ths :: u32
  mv_chk_all :: u32

definition LogIndexToMetaIndex :: "RaftIndex \<Rightarrow> RaftIndex" where
  "LogIndexToMetaIndex log_index = log_index * 2 - 1"

definition MetaIndexToLogIndex :: "RaftIndex \<Rightarrow> RaftIndex option" where
  "MetaIndexToLogIndex term_index = do {
     check (term_index mod 2 = 1);
     Some ((term_index + 1) div 2) }"

definition LogIndexToDataIndex :: "RaftIndex \<Rightarrow> RaftIndex" where
  "LogIndexToDataIndex log_index = log_index * 2"

definition DataIndexToLogIndex :: "RaftIndex \<Rightarrow> RaftIndex option" where
  "DataIndexToLogIndex value_index = do {
     check (value_index mod 2 = 0);
     Some (value_index div 2) }"

definition EncodeDataKey :: "RaftIndex \<Rightarrow> bytes" where
  "EncodeDataKey log_index = EncodeFixed32 (LogIndexToDataIndex log_index)"

definition EncodeMetaKey :: "RaftIndex \<Rightarrow> bytes" where
  "EncodeMetaKey log_index = EncodeFixed32 (LogIndexToMetaIndex log_index)"

definition MetaValueBytes :: nat where
  "MetaValueBytes = 8 + 4 * 4"

definition EncodeMetaValue :: "MetaValue \<Rightarrow> bytes" where
  "EncodeMetaValue meta =
     EncodeFixed64 (mv_term meta) @ EncodeFixed32 (EntryType_u32 (mv_type meta)) @
     EncodeFixed32 (mv_pre_chk_all meta) @ EncodeFixed32 (mv_chk_ths meta) @
     EncodeFixed32 (mv_chk_all meta)"

definition DecodeMetaValue :: "bytes \<Rightarrow> MetaValue option" where
  "DecodeMetaValue buf = do {
     (term, c) \<leftarrow> get64 (buf, 0);
     (u32, c) \<leftarrow> get32 c;
     type \<leftarrow> U32ToEntryType u32;
     (pre_chk_all, c) \<leftarrow> get32 c;
     (chk_ths, c) \<leftarrow> get32 c;
     (chk_all, c) \<leftarrow> get32 c;
     Some \<lparr>mv_term = term, mv_type = type, mv_pre_chk_all = pre_chk_all,
           mv_chk_ths = chk_ths, mv_chk_all = chk_all\<rparr> }"

definition kZeroKey :: bytes where
  "kZeroKey = [0, 0, 0, 0]"

definition EncodeZeroValue :: "RaftIndex \<Rightarrow> u32 \<Rightarrow> bytes" where
  "EncodeZeroValue append_index checksum = EncodeFixed32 append_index @ EncodeFixed32 checksum"

definition DecodeZeroValue :: "bytes \<Rightarrow> (RaftIndex \<times> u32) option" where
  "DecodeZeroValue buf = do {
     (append_index, c) \<leftarrow> get32 (buf, 0);
     (checksum, c) \<leftarrow> get32 c;
     Some (append_index, checksum) }"

definition U32Compare :: comparator where
  "U32Compare a b = do {
     check (length a = 4);
     check (length b = 4);
     da \<leftarrow> DecodeFixed32 a;
     db \<leftarrow> DecodeFixed32 b;
     let diff = sint (da - db);
     Some (if diff < 0 then -1 else if diff > 0 then 1 else 0) }"

section \<open>The log\<close>

record 'db RaftLog =
  rl_first :: RaftIndex
  rl_last :: RaftIndex
  rl_append :: RaftIndex
  rl_config_indices :: "RaftIndex set"
  rl_checksum :: bool
  rl_last_checksum :: u32
  rl_db :: 'db
  rl_config_db :: 'db

text \<open>The constructor, and the two databases as they are on disk.\<close>

definition RaftLog_new :: "'db \<Rightarrow> 'db \<Rightarrow> 'db RaftLog" where
  "RaftLog_new db config_db = \<lparr>rl_first = 0, rl_last = 0, rl_append = 0, rl_config_indices = {},
     rl_checksum = True, rl_last_checksum = 0, rl_db = db, rl_config_db = config_db\<rparr>"

definition RaftLog_Check :: "'db RaftLog \<Rightarrow> unit option" where
  "RaftLog_Check l =
     (if rl_first l = rl_last l then do {
        check (rl_first l = 0 \<longrightarrow> rl_append l \<ge> 1);
        check (rl_first l > 0 \<longrightarrow> rl_append l = rl_last l + 1) }
      else do {
        check (rl_first l \<le> rl_last l);
        check (rl_first l \<ge> 1);
        check (rl_append l = rl_last l + 1) })"

definition RaftLog_IndexValid :: "'db RaftLog \<Rightarrow> RaftIndex \<Rightarrow> bool" where
  "RaftLog_IndexValid l index =
     (if index = 0 then False else rl_first l \<le> index \<and> index \<le> rl_last l)"

definition RaftLog_GetMeta ::
    "'db leveldb \<Rightarrow> 'db RaftLog \<Rightarrow> RaftIndex \<Rightarrow> MetaValue option option" where
  "RaftLog_GetMeta L l index = do {
     RaftLog_Check l;
     (case ldb_get L (rl_db l) (EncodeMetaKey index) of
        Some meta_value \<Rightarrow> do {
          check (length meta_value = MetaValueBytes);
          meta \<leftarrow> DecodeMetaValue meta_value;
          Some (Some meta) }
      | None \<Rightarrow> Some None) }"

definition RaftLog_GetValue ::
    "'db leveldb \<Rightarrow> 'db RaftLog \<Rightarrow> RaftIndex \<Rightarrow> bytes option option" where
  "RaftLog_GetValue L l index = do {
     RaftLog_Check l;
     Some (ldb_get L (rl_db l) (EncodeDataKey index)) }"

definition RaftLog_Get ::
    "'db leveldb \<Rightarrow> 'db RaftLog \<Rightarrow> RaftIndex \<Rightarrow> LogEntry option option" where
  "RaftLog_Get L l index = do {
     RaftLog_Check l;
     m \<leftarrow> RaftLog_GetMeta L l index;
     (case m of
        None \<Rightarrow> Some None
      | Some meta \<Rightarrow> do {
          v \<leftarrow> RaftLog_GetValue L l index;
          value \<leftarrow> v;
          Some (Some \<lparr>le_index = index, le_pre_chk_all = mv_pre_chk_all meta,
                      le_chk_ths = mv_chk_ths meta, le_chk_all = mv_chk_all meta,
                      le_append_entry = \<lparr>ae_term = mv_term meta, ae_type = mv_type meta,
                                         ae_value = value\<rparr>\<rparr>) }) }"

definition RaftLog_LastEntry :: "'db leveldb \<Rightarrow> 'db RaftLog \<Rightarrow> LogEntry option option" where
  "RaftLog_LastEntry L l = do {
     RaftLog_Check l;
     if rl_last l = 0 then Some None
     else do {
       r \<leftarrow> RaftLog_Get L l (rl_last l);
       entry \<leftarrow> r;
       Some (Some entry) } }"

definition RaftLog_LastMeta :: "'db leveldb \<Rightarrow> 'db RaftLog \<Rightarrow> MetaValue option option" where
  "RaftLog_LastMeta L l = do {
     RaftLog_Check l;
     if rl_last l = 0 then Some None
     else do {
       r \<leftarrow> RaftLog_GetMeta L l (rl_last l);
       meta \<leftarrow> r;
       Some (Some meta) } }"

text \<open>The loop of \<^verbatim>\<open>Init\<close> over the configuration database.\<close>

fun config_log_indices :: "(bytes \<times> bytes) list \<Rightarrow> RaftIndex set option" where
  "config_log_indices [] = Some {}"
| "config_log_indices ((key, _) # rows) = do {
     index \<leftarrow> DecodeFixed32 key;
     log_index \<leftarrow> (if index = 0 then Some index
                   else if index mod 2 = 0 then DataIndexToLogIndex index
                   else MetaIndexToLogIndex index);
     rest \<leftarrow> config_log_indices rows;
     Some (insert log_index rest) }"

text \<open>The first part of \<^verbatim>\<open>Init\<close>: a new database gets its row 0.\<close>

definition RaftLog_init_db :: "'db leveldb \<Rightarrow> 'db \<Rightarrow> 'db" where
  "RaftLog_init_db L db =
     (if ldb_scan L U32Compare db = []
      then ldb_write L True [Put kZeroKey (EncodeZeroValue 1 0)] db else db)"

text \<open>The second part: the indexes and the checksum are read back from the rows.\<close>

definition RaftLog_init_indexes :: "'db leveldb \<Rightarrow> 'db RaftLog \<Rightarrow> 'db RaftLog option" where
  "RaftLog_init_indexes L l = (let rows = ldb_scan L U32Compare (rl_db l) in do {
     check (rows \<noteq> []);
     check (length (fst (last rows)) = 4);
     index \<leftarrow> DecodeFixed32 (fst (last rows));
     if index = 0 then do {
       check (length (snd (last rows)) = 4 + 4);
       (append_index, checksum) \<leftarrow> DecodeZeroValue (snd (last rows));
       Some (l\<lparr>rl_first := 0, rl_last := 0, rl_append := append_index,
               rl_last_checksum := checksum\<rparr>) }
     else do {
       last_idx \<leftarrow> DataIndexToLogIndex index;
       check (1 < length rows);
       meta_index \<leftarrow> DecodeFixed32 (fst (rows ! 1));
       first_idx \<leftarrow> MetaIndexToLogIndex meta_index;
       let l = l\<lparr>rl_last := last_idx, rl_first := first_idx, rl_append := last_idx + 1\<rparr>;
       ptr \<leftarrow> RaftLog_LastMeta L l;
       meta \<leftarrow> ptr;
       Some (l\<lparr>rl_last_checksum := mv_chk_all meta\<rparr>) } })"

definition RaftLog_Init :: "'db leveldb \<Rightarrow> 'db RaftLog \<Rightarrow> 'db RaftLog option" where
  "RaftLog_Init L l = do {
     l \<leftarrow> RaftLog_init_indexes L (l\<lparr>rl_db := RaftLog_init_db L (rl_db l)\<rparr>);
     indices \<leftarrow> config_log_indices (ldb_scan L U32Compare (rl_config_db l));
     let l = l\<lparr>rl_config_indices := rl_config_indices l \<union> indices\<rparr>;
     RaftLog_Check l;
     Some l }"

text \<open>\<^verbatim>\<open>LastConfig\<close> decodes into a fresh object; the code returns 0 for the configuration
  under key 0, 1 for a configuration entry of the log and -1 when there is none.\<close>

definition RaftConfig_raw :: RaftConfig where
  "RaftConfig_raw = \<lparr>rc_me = RaftAddr_FromU64 0, rc_peers = []\<rparr>"

definition RaftLog_LastConfig ::
    "'db leveldb \<Rightarrow> 'db RaftLog \<Rightarrow> (int \<times> (RaftConfig \<times> MetaValue) option) option" where
  "RaftLog_LastConfig L l = (let rows = ldb_scan L U32Compare (rl_config_db l) in
     if rows = [] then Some (-1, None)
     else do {
       let config_str = snd (last rows);
       (rc, rv) \<leftarrow> RaftConfig_FromString RaftConfig_raw config_str (int (length config_str));
       check (rv > 0);
       u32 \<leftarrow> DecodeFixed32 (fst (last rows));
       if sint u32 > 0 then do {
         check (1 < length rows);
         meta \<leftarrow> DecodeMetaValue (snd (rows ! (length rows - 2)));
         Some (1, Some (rc, meta)) }
       else Some (0, Some (rc, \<lparr>mv_term = 0, mv_type = kConfig, mv_pre_chk_all = 0,
                               mv_chk_ths = 0, mv_chk_all = 0\<rparr>)) })"

definition RaftLog_AppendFirstConfig ::
    "'db leveldb \<Rightarrow> RaftConfig \<Rightarrow> RaftTerm \<Rightarrow> 'db RaftLog \<Rightarrow> 'db RaftLog option" where
  "RaftLog_AppendFirstConfig L rc term l = do {
     value \<leftarrow> RaftConfig_ToStr rc;
     Some (l\<lparr>rl_config_db := ldb_write L True [Put (EncodeFixed32 0) value] (rl_config_db l),
             rl_config_indices := insert 0 (rl_config_indices l)\<rparr>) }"

subsection \<open>Appending\<close>

text \<open>The configuration callback \<^verbatim>\<open>insert_cb_\<close> runs after the entry has been written and before
  the indexes move; it sees that log and changes the state \<open>'s\<close> of the replica around it.\<close>

type_synonym ('db, 's) insert_cb = "RaftConfig \<Rightarrow> RaftIndex \<Rightarrow> 'db RaftLog \<Rightarrow> 's \<Rightarrow> 's option"
type_synonym ('db, 's) delete_cb = "RaftIndex \<Rightarrow> 'db RaftLog \<Rightarrow> 's \<Rightarrow> 's option"

definition AppendOne_meta :: "'db RaftLog \<Rightarrow> AppendEntry \<Rightarrow> MetaValue" where
  "AppendOne_meta l entry =
     (if rl_checksum l then
        let log_entry = LogEntry_CheckSum
              \<lparr>le_index = rl_append l, le_pre_chk_all = rl_last_checksum l, le_chk_ths = 0,
               le_chk_all = 0, le_append_entry = entry\<rparr>
        in \<lparr>mv_term = ae_term entry, mv_type = ae_type entry,
            mv_pre_chk_all = le_pre_chk_all log_entry, mv_chk_ths = le_chk_ths log_entry,
            mv_chk_all = le_chk_all log_entry\<rparr>
      else \<lparr>mv_term = ae_term entry, mv_type = ae_type entry, mv_pre_chk_all = 0,
            mv_chk_ths = 0, mv_chk_all = 0\<rparr>)"

definition RaftLog_AppendOne :: "'db leveldb \<Rightarrow> ('db, 's) insert_cb \<Rightarrow> AppendEntry \<Rightarrow>
    'db RaftLog \<Rightarrow> 's \<Rightarrow> ('db RaftLog \<times> 's) option" where
  "RaftLog_AppendOne L insert_cb entry l s = do {
     RaftLog_Check l;
     let (tmp_first, tmp_last, tmp_append) =
       (if rl_first l = rl_last l \<and> rl_first l = 0
        then (rl_append l, rl_append l, rl_append l + 1)
        else (rl_first l, rl_last l + 1, rl_last l + 1 + 1));
     let log_index = tmp_last;
     let mv = AppendOne_meta l entry;
     let tmp_checksum = (if rl_checksum l then mv_chk_all mv else 0);
     let batch = [Put (EncodeMetaKey log_index) (EncodeMetaValue mv),
                  Put (EncodeDataKey log_index) (ae_value entry)];
     let l = l\<lparr>rl_db := ldb_write L True batch (rl_db l)\<rparr>;
     (l, s) \<leftarrow>
       (if ae_type entry = kConfig then do {
          let l = l\<lparr>rl_config_db := ldb_write L True batch (rl_config_db l),
                    rl_config_indices := insert log_index (rl_config_indices l)\<rparr>;
          (rc, _) \<leftarrow> RaftConfig_FromString RaftConfig_raw (ae_value entry)
                     (int (length (ae_value entry)));
          s \<leftarrow> insert_cb rc (rl_append l) l s;
          Some (l, s) }
        else Some (l, s));
     let l = l\<lparr>rl_first := tmp_first, rl_last := tmp_last, rl_append := tmp_append,
               rl_last_checksum := tmp_checksum\<rparr>;
     RaftLog_Check l;
     Some (l, s) }"

subsection \<open>Deleting\<close>

text \<open>The indexes a deletion loop runs over. A loop up to the largest index would not end: that
  case is \<open>None\<close> in the callers.\<close>

definition index_range :: "RaftIndex \<Rightarrow> RaftIndex \<Rightarrow> RaftIndex list" where
  "index_range i j = map of_nat [unat i ..< Suc (unat j)]"

definition delete_rows :: "RaftIndex list \<Rightarrow> batch_op list" where
  "delete_rows is = concat (map (\<lambda>i. [Delete (EncodeMetaKey i), Delete (EncodeDataKey i)]) is)"

fun delete_configs :: "('db, 's) delete_cb \<Rightarrow> RaftIndex list \<Rightarrow> 'db RaftLog \<Rightarrow> 's \<Rightarrow>
    ('db RaftLog \<times> 's) option" where
  "delete_configs delete_cb [] l s = Some (l, s)"
| "delete_configs delete_cb (i # is) l s = do {
     let l = l\<lparr>rl_config_indices := rl_config_indices l - {i}\<rparr>;
     s \<leftarrow> delete_cb i l s;
     delete_configs delete_cb is l s }"

definition RaftLog_DeleteFrom :: "'db leveldb \<Rightarrow> ('db, 's) delete_cb \<Rightarrow> RaftIndex \<Rightarrow>
    'db RaftLog \<Rightarrow> 's \<Rightarrow> ('db RaftLog \<times> 's) option" where
  "RaftLog_DeleteFrom L delete_cb from_index l s = do {
     RaftLog_Check l;
     if rl_first l = rl_last l \<and> rl_first l = 0 then Some (l, s)
     else do {
       check (rl_first l > 0);
       check (rl_last l > 0);
       check (rl_last l \<ge> rl_first l);
       check (rl_append l = rl_last l + 1);
       if from_index > rl_last l then Some (l, s)
       else do {
         let from_index = (if from_index < rl_first l then rl_first l else from_index);
         check (rl_first l \<le> from_index);
         check (from_index \<le> rl_last l);
         let (tmp_first, tmp_last, tmp_append) =
           (if from_index = rl_first l then (0, 0, from_index)
            else (rl_first l, from_index - 1, from_index));
         check (from_index \<ge> 1);
         m \<leftarrow> RaftLog_GetMeta L l from_index;
         meta \<leftarrow> m;
         let tmp_checksum = mv_pre_chk_all meta;
         check (rl_last l \<noteq> -1);
         let range = index_range from_index (rl_last l);
         let batch = delete_rows range @
           (if from_index = rl_first l
            then [Put kZeroKey (EncodeZeroValue tmp_append tmp_checksum)] else []);
         let delete_config_indices = filter (\<lambda>i. i \<in> rl_config_indices l) range;
         let l = l\<lparr>rl_db := ldb_write L False batch (rl_db l),
                   rl_config_db :=
                     ldb_write L False (delete_rows delete_config_indices) (rl_config_db l)\<rparr>;
         (l, s) \<leftarrow> delete_configs delete_cb delete_config_indices l s;
         let l = l\<lparr>rl_first := tmp_first, rl_last := tmp_last, rl_append := tmp_append,
                   rl_last_checksum := tmp_checksum\<rparr>;
         RaftLog_Check l;
         Some (l, s) } } }"

definition RaftLog_DeleteUtil ::
    "'db leveldb \<Rightarrow> RaftIndex \<Rightarrow> 'db RaftLog \<Rightarrow> 'db RaftLog option" where
  "RaftLog_DeleteUtil L to_index l = do {
     RaftLog_Check l;
     if rl_first l = rl_last l \<and> rl_first l = 0 then Some l
     else do {
       check (rl_first l > 0);
       check (rl_last l > 0);
       check (rl_last l \<ge> rl_first l);
       check (rl_append l = rl_last l + 1);
       if to_index < rl_first l then Some l
       else do {
         let to_index = (if to_index > rl_last l then rl_last l else to_index);
         check (rl_first l \<le> to_index);
         check (to_index \<le> rl_last l);
         let (tmp_first, tmp_last, tmp_append) =
           (if to_index = rl_last l then (0, 0, rl_last l + 1)
            else (to_index + 1, rl_last l, rl_last l + 1));
         tmp_checksum \<leftarrow>
           (if to_index < rl_last l then Some (rl_last_checksum l)
            else do { m \<leftarrow> RaftLog_GetMeta L l to_index; meta \<leftarrow> m; Some (mv_chk_all meta) });
         check (to_index \<noteq> -1);
         let batch = delete_rows (index_range (rl_first l) to_index) @
           (if to_index = rl_last l
            then [Put kZeroKey (EncodeZeroValue tmp_append tmp_checksum)] else []);
         let l = l\<lparr>rl_db := ldb_write L False batch (rl_db l), rl_first := tmp_first,
                   rl_last := tmp_last, rl_append := tmp_append,
                   rl_last_checksum := tmp_checksum\<rparr>;
         RaftLog_Check l;
         Some l } } }"

section \<open>Rows of an abstract log\<close>

abbreviation row_key :: "nat \<Rightarrow> bytes" where
  "row_key n \<equiv> EncodeFixed32 (of_nat n)"

definition enc_rows :: "(nat \<times> bytes) list \<Rightarrow> (bytes \<times> bytes) list" where
  "enc_rows rows = map (\<lambda>(n, v). (row_key n, v)) rows"

definition log_meta :: "u32 \<Rightarrow> nat \<Rightarrow> AppendEntry \<Rightarrow> MetaValue" where
  "log_meta c i e = (let ths = Crc32 (CheckThis_buf (of_nat i) e) in
     \<lparr>mv_term = ae_term e, mv_type = ae_type e, mv_pre_chk_all = c, mv_chk_ths = ths,
      mv_chk_all = Crc32 (EncodeFixed32 c @ EncodeFixed32 ths)\<rparr>)"

fun log_metas :: "u32 \<Rightarrow> nat \<Rightarrow> AppendEntry list \<Rightarrow> MetaValue list" where
  "log_metas c i [] = []"
| "log_metas c i (e # es) = log_meta c i e # log_metas (mv_chk_all (log_meta c i e)) (Suc i) es"

fun log_chk :: "u32 \<Rightarrow> nat \<Rightarrow> AppendEntry list \<Rightarrow> u32" where
  "log_chk c i [] = c"
| "log_chk c i (e # es) = log_chk (mv_chk_all (log_meta c i e)) (Suc i) es"

fun log_rows :: "u32 \<Rightarrow> nat \<Rightarrow> AppendEntry list \<Rightarrow> (nat \<times> bytes) list" where
  "log_rows c i [] = []"
| "log_rows c i (e # es) =
     (2 * i - 1, EncodeMetaValue (log_meta c i e)) # (2 * i, ae_value e) #
     log_rows (mv_chk_all (log_meta c i e)) (Suc i) es"

lemma unat_u32 [simp]: "n < 2 ^ 32 \<Longrightarrow> unat (of_nat n :: u32) = n"
  by (simp add: unat_of_nat take_bit_nat_eq_self)

lemma u32_of_nat_inj: "n < 2 ^ 32 \<Longrightarrow> m < 2 ^ 32 \<Longrightarrow> (of_nat n :: u32) = of_nat m \<longleftrightarrow> n = m"
  by (metis unat_u32)

lemma EncodeFixed32_inject [simp]: "EncodeFixed32 a = EncodeFixed32 b \<longleftrightarrow> a = b"
  by (metis DecodeFixed_EncodeFixed_Nil(3) option.inject)

lemma row_key_inject: "n < 2 ^ 32 \<Longrightarrow> m < 2 ^ 32 \<Longrightarrow> row_key n = row_key m \<longleftrightarrow> n = m"
  by (simp add: u32_of_nat_inj)

lemma kZeroKey_row: "kZeroKey = row_key 0"
  by (simp add: kZeroKey_def EncodeFixed_le le32_def byte_at_def)

lemma EncodeMetaKey_row: "0 < i \<Longrightarrow> EncodeMetaKey (of_nat i) = row_key (2 * i - 1)"
  by (simp add: EncodeMetaKey_def LogIndexToMetaIndex_def of_nat_diff algebra_simps)

lemma EncodeDataKey_row: "EncodeDataKey (of_nat i) = row_key (2 * i)"
  by (simp add: EncodeDataKey_def LogIndexToDataIndex_def algebra_simps)

lemma sint_diff_u32:
  assumes "n < 2 ^ 31" "m < 2 ^ 31"
  shows "sint (of_nat n - of_nat m :: u32) = int n - int m"
proof -
  have "(of_nat n - of_nat m :: u32) = word_of_int (int n - int m)" by simp
  then show ?thesis
    using assms by (simp only: sint_sbintrunc') (simp add: signed_take_bit_int_eq_self)
qed

lemma cmp_less_row:
  assumes "n < 2 ^ 31" "m < 2 ^ 31"
  shows "cmp_less U32Compare (row_key n) (row_key m) \<longleftrightarrow> n < m"
  using sint_diff_u32 [OF assms] by (simp add: cmp_less_def U32Compare_def)

lemma U32Compare_orders: "orders U32Compare (row_key ` {n. n < 2 ^ 31})"
  unfolding orders_def by (auto simp: cmp_less_row u32_of_nat_inj) 

lemma enc_rows_orders:
  "\<forall>n \<in> fst ` set rows. n < 2 ^ 31 \<Longrightarrow> orders U32Compare (fst ` set (enc_rows rows))"
  by (rule orders_mono [OF U32Compare_orders]) (auto simp: enc_rows_def)

lemma enc_rows_sorted:
  assumes "\<forall>n \<in> fst ` set rows. n < 2 ^ 31" "sorted_wrt (<) (map fst rows)"
  shows "sorted_rows U32Compare (enc_rows rows)"
  using assms
proof (induction rows)
  case (Cons x rows)
  have "cmp_less U32Compare (row_key (fst x)) (row_key (fst y))" if "y \<in> set rows" for y
    using Cons.prems that by (subst cmp_less_row) auto
  with Cons show ?case by (auto simp: enc_rows_def split: prod.splits)
qed (simp add: enc_rows_def)

lemma map_of_enc_rows:
  assumes "\<forall>n \<in> fst ` set rows. n < 2 ^ 31" "k < 2 ^ 32"
  shows "map_of (enc_rows rows) (row_key k) = map_of rows k"
  using assms by (induction rows) (auto simp: enc_rows_def u32_of_nat_inj)

lemma map_of_snoc: "k \<notin> fst ` set xs \<Longrightarrow> map_of (xs @ [(k, v)]) = (map_of xs)(k \<mapsto> v)"
  by (induction xs) (auto simp: fun_eq_iff)

lemma map_of_snoc2:
  assumes "k1 \<notin> fst ` set xs" "k2 \<notin> fst ` set xs" "k2 \<noteq> k1"
  shows "map_of (xs @ [(k1, v1), (k2, v2)]) = (map_of xs)(k1 \<mapsto> v1, k2 \<mapsto> v2)"
  using assms map_of_snoc [of k1 xs v1] map_of_snoc [of k2 "xs @ [(k1, v1)]" v2] by simp

lemma map_of_filter_keys: "map_of xs |` (- K) = map_of (filter (\<lambda>x. fst x \<notin> K) xs)"
proof (rule ext)
  fix k
  show "(map_of xs |` (- K)) k = map_of (filter (\<lambda>x. fst x \<notin> K) xs) k"
    by (induction xs) (auto simp: restrict_map_def)
qed

lemma log_rows_keys: "0 < i \<Longrightarrow> map fst (log_rows c i es) = [2 * i - 1 ..< 2 * (i + length es) - 1]"
proof (induction c i es rule: log_rows.induct)
  case (2 c i e es)
  have "[2 * i - 1 ..< 2 * (i + length (e # es)) - 1] =
      (2 * i - 1) # 2 * i # [2 * Suc i - 1 ..< 2 * (Suc i + length es) - 1]"
    using 2(2) upt_conv_Cons [of "2 * i - 1" "2 * (i + length (e # es)) - 1"]
      upt_conv_Cons [of "2 * i" "2 * (i + length (e # es)) - 1"] by simp
  then show ?case using 2 by simp
qed simp

lemma log_rows_keys_set:
  "0 < i \<Longrightarrow> fst ` set (log_rows c i es) = {2 * i - 1 ..< 2 * (i + length es) - 1}"
  using arg_cong [OF log_rows_keys [of i c es], of set] by simp

lemma log_rows_append:
  "log_rows c i (es @ fs) = log_rows c i es @ log_rows (log_chk c i es) (i + length es) fs"
  by (induction c i es rule: log_rows.induct) simp_all

lemma log_metas_append:
  "log_metas c i (es @ fs) = log_metas c i es @ log_metas (log_chk c i es) (i + length es) fs"
  by (induction c i es rule: log_metas.induct) simp_all

lemma log_chk_append: "log_chk c i (es @ fs) = log_chk (log_chk c i es) (i + length es) fs"
  by (induction c i es rule: log_chk.induct) simp_all

lemma length_log_metas [simp]: "length (log_metas c i es) = length es"
  by (induction c i es rule: log_metas.induct) simp_all

lemma map_of_log_rows:
  assumes "0 < i" "k < length es"
  shows "map_of (log_rows c i es) (2 * (i + k) - 1) = Some (EncodeMetaValue (log_metas c i es ! k))"
    "map_of (log_rows c i es) (2 * (i + k)) = Some (ae_value (es ! k))"
  using assms
proof (induction c i es arbitrary: k rule: log_rows.induct)
  case (2 c i e es)
  { case 1
    then show ?case using 2 by (cases k) auto }
  { case 2
    then show ?case using "2.IH" by (cases k) auto }
qed simp_all

lemma log_metas_nth:
  assumes "k < length es"
  shows "log_metas c i es ! k = log_meta (log_chk c i (take k es)) (i + k) (es ! k)"
  using assms
proof (induction c i es arbitrary: k rule: log_metas.induct)
  case (2 c i e es)
  then show ?case by (cases k) auto
qed simp

lemma DecodeMetaValue_Encode [simp, codec_simps]: "DecodeMetaValue (EncodeMetaValue m) = Some m"
  by (simp add: DecodeMetaValue_def EncodeMetaValue_def)

lemma EncodeMetaValue_length [simp, codec_length]: "length (EncodeMetaValue m) = MetaValueBytes"
  by (simp add: EncodeMetaValue_def MetaValueBytes_def)

lemma DecodeZeroValue_Encode [simp, codec_simps]: "DecodeZeroValue (EncodeZeroValue a c) = Some (a, c)"
  by (simp add: DecodeZeroValue_def EncodeZeroValue_def)

section \<open>Representation\<close>

text \<open>The rows on disk of the log that starts after index \<open>b\<close> with checksum \<open>c\<close> and holds the
  entries \<open>es\<close>. Row 0 tells index and checksum when there is no entry.\<close>

definition disk_rep :: "'db leveldb \<Rightarrow> 'db \<Rightarrow> nat \<Rightarrow> u32 \<Rightarrow> AppendEntry list \<Rightarrow> bool" where
  "disk_rep L db b c es \<longleftrightarrow>
     b + length es < 2 ^ 30 \<and>
     (\<exists>z. ldb_get L db = map_of (enc_rows ((0, z) # log_rows c (Suc b) es)) \<and>
          (es = [] \<longrightarrow> z = EncodeZeroValue (of_nat (Suc b)) c))"

definition log_rep :: "'db leveldb \<Rightarrow> 'db RaftLog \<Rightarrow> nat \<Rightarrow> u32 \<Rightarrow> AppendEntry list \<Rightarrow> bool" where
  "log_rep L l b c es \<longleftrightarrow>
     rl_checksum l \<and> disk_rep L (rl_db l) b c es \<and>
     rl_first l = (if es = [] then 0 else of_nat (Suc b)) \<and>
     rl_last l = (if es = [] then 0 else of_nat (b + length es)) \<and>
     rl_append l = of_nat (Suc (b + length es)) \<and>
     rl_last_checksum l = log_chk c (Suc b) es"

lemma log_rep_Check:
  assumes "log_rep L l b c es"
  shows "RaftLog_Check l = Some ()"
proof -
  have bound: "b + length es < 2 ^ 30" using assms by (simp add: log_rep_def disk_rep_def)
  show ?thesis
  proof (cases "es = []")
    case True
    have "1 \<le> (of_nat (Suc b) :: u32)" using bound by (simp add: word_le_nat_alt del: of_nat_Suc)
    with assms True show ?thesis by (simp add: log_rep_def RaftLog_Check_def)
  next
    case False
    then have pos: "1 \<le> length es" by (cases es) auto
    have 1: "(of_nat (Suc b) :: u32) \<le> of_nat (b + length es)"
      using bound pos by (simp add: word_le_nat_alt del: of_nat_Suc of_nat_add)
    have 2: "1 \<le> (of_nat (Suc b) :: u32)" using bound by (simp add: word_le_nat_alt del: of_nat_Suc)
    have 3: "(of_nat (Suc (b + length es)) :: u32) = of_nat (b + length es) + 1" by simp
    have f: "rl_first l = of_nat (Suc b)" "rl_last l = of_nat (b + length es)"
       "rl_append l = of_nat (Suc (b + length es))" using assms False by (simp_all add: log_rep_def)
    show ?thesis unfolding RaftLog_Check_def f 3 using 1 2 by auto
  qed
qed

lemma disk_rep_get:
  assumes "disk_rep L db b c es"
  shows "k < length es \<Longrightarrow> ldb_get L db (row_key (2 * (Suc b + k) - 1)) =
           Some (EncodeMetaValue (log_metas c (Suc b) es ! k))"
    and "k < length es \<Longrightarrow> ldb_get L db (row_key (2 * (Suc b + k))) = Some (ae_value (es ! k))"
    and "n < 2 ^ 32 \<Longrightarrow> 0 < n \<Longrightarrow> n < 2 * Suc b - 1 \<or> 2 * (Suc b + length es) - 1 \<le> n \<Longrightarrow>
         ldb_get L db (row_key n) = None"
proof -
  from assms obtain z where bound: "b + length es < 2 ^ 30"
    and get: "ldb_get L db = map_of (enc_rows ((0, z) # log_rows c (Suc b) es))"
    by (auto simp: disk_rep_def)
  have small: "\<forall>n \<in> fst ` set ((0, z) # log_rows c (Suc b) es). n < 2 ^ 31"
    using bound by (simp add: log_rows_keys_set)
  note lookup = map_of_enc_rows [OF small]
  show "ldb_get L db (row_key (2 * (Suc b + k) - 1)) =
           Some (EncodeMetaValue (log_metas c (Suc b) es ! k))" if "k < length es"
  proof -
    have "2 * (Suc b + k) - 1 < 2 ^ 32" using that bound by simp
    from lookup [OF this] show ?thesis
      using that map_of_log_rows(1) [of "Suc b" k es c] by (simp add: get)
  qed
  show "ldb_get L db (row_key (2 * (Suc b + k))) = Some (ae_value (es ! k))" if "k < length es"
  proof -
    have "2 * (Suc b + k) < 2 ^ 32" using that bound by simp
    from lookup [OF this] show ?thesis
      using that map_of_log_rows(2) [of "Suc b" k es c] by (simp add: get)
  qed
  show "ldb_get L db (row_key n) = None"
    if "n < 2 ^ 32" "0 < n" "n < 2 * Suc b - 1 \<or> 2 * (Suc b + length es) - 1 \<le> n"
    using lookup [OF that(1)] that log_rows_keys_set [of "Suc b" c es]
    by (auto simp: get map_of_eq_None_iff)
qed

lemma GetMeta_rep:
  assumes "log_rep L l b c es"
  shows "k < length es \<Longrightarrow> RaftLog_GetMeta L l (of_nat (Suc b + k)) = Some (Some (log_metas c (Suc b) es ! k))"
  using assms disk_rep_get(1) [of L "rl_db l" b c es k] log_rep_Check [OF assms]
  by (simp add: RaftLog_GetMeta_def EncodeMetaKey_row log_rep_def del: of_nat_Suc of_nat_add)


lemma Get_rep:
  assumes "log_rep L l b c es" "k < length es"
  shows "RaftLog_Get L l (of_nat (Suc b + k)) =
    Some (Some \<lparr>le_index = of_nat (Suc b + k),
      le_pre_chk_all = mv_pre_chk_all (log_metas c (Suc b) es ! k),
      le_chk_ths = mv_chk_ths (log_metas c (Suc b) es ! k),
      le_chk_all = mv_chk_all (log_metas c (Suc b) es ! k), le_append_entry = es ! k\<rparr>)"
proof -
  have "RaftLog_GetValue L l (of_nat (Suc b + k)) = Some (Some (ae_value (es ! k)))"
    using assms disk_rep_get(2) [of L "rl_db l" b c es k] log_rep_Check [OF assms(1)]
    by (simp add: RaftLog_GetValue_def EncodeDataKey_row log_rep_def del: of_nat_Suc of_nat_add)
  then show ?thesis
    using GetMeta_rep [OF assms] log_rep_Check [OF assms(1)] assms(2)
    by (simp add: RaftLog_Get_def log_metas_nth log_meta_def Let_def del: of_nat_Suc of_nat_add)
qed

lemma Get_missing:
  assumes "log_rep L l b c es" "0 < i" "i < 2 ^ 31" "i \<le> b \<or> b + length es < i"
  shows "RaftLog_GetMeta L l (of_nat i) = Some None" "RaftLog_Get L l (of_nat i) = Some None"
proof -
  have "2 * i - 1 < 2 ^ 32" "0 < 2 * i - 1"
      "2 * i - 1 < 2 * Suc b - 1 \<or> 2 * (Suc b + length es) - 1 \<le> 2 * i - 1"
    using assms by auto
  from disk_rep_get(3) [OF _ this, of L "rl_db l" c] assms(1)
  have "ldb_get L (rl_db l) (row_key (2 * i - 1)) = None" by (simp add: log_rep_def)
  then show "RaftLog_GetMeta L l (of_nat i) = Some None"
    using log_rep_Check [OF assms(1)] assms(2) by (simp add: RaftLog_GetMeta_def EncodeMetaKey_row)
  then show "RaftLog_Get L l (of_nat i) = Some None"
    using log_rep_Check [OF assms(1)] by (simp add: RaftLog_Get_def)
qed

lemma LastMeta_rep:
  assumes "log_rep L l b c es"
  shows "RaftLog_LastMeta L l = Some (if es = [] then None else Some (last (log_metas c (Suc b) es)))"
proof (cases "es = []")
  case True
  then show ?thesis using assms log_rep_Check [OF assms] by (simp add: RaftLog_LastMeta_def log_rep_def)
next
  case False
  then obtain n where n: "length es = Suc n" by (cases es) auto
  have last: "rl_last l = of_nat (Suc b + n)" and bound: "b + length es < 2 ^ 30"
    using assms False n by (simp_all add: log_rep_def disk_rep_def)
  have "unat (rl_last l) \<noteq> 0" unfolding last using bound n by (simp del: of_nat_Suc of_nat_add)
  then have "rl_last l \<noteq> 0" by auto
  moreover have "log_metas c (Suc b) es ! n = last (log_metas c (Suc b) es)"
    using n by (metis diff_Suc_1 last_conv_nth length_0_conv length_log_metas nat.distinct(1))
  ultimately show ?thesis
    using GetMeta_rep [OF assms, of n] n False log_rep_Check [OF assms]
    by (simp add: RaftLog_LastMeta_def last del: of_nat_Suc of_nat_add)
qed

lemma Check_checksum: "RaftLog_Check (l\<lparr>rl_last_checksum := x\<rparr>) = RaftLog_Check l"
  unfolding RaftLog_Check_def by simp

lemma LastMeta_checksum: "RaftLog_LastMeta L (l\<lparr>rl_last_checksum := x\<rparr>) = RaftLog_LastMeta L l"
  by (simp add: RaftLog_LastMeta_def RaftLog_GetMeta_def Check_checksum)

lemma AppendOne_meta_rep:
  assumes "log_rep L l b c es"
  shows "AppendOne_meta l e = log_meta (log_chk c (Suc b) es) (Suc (b + length es)) e"
  using assms
  by (simp add: AppendOne_meta_def log_rep_def log_meta_def LogEntry_CheckSum_def
      LogEntry_CheckAll_def LogEntry_CheckThis_def Let_def)

text \<open>The index at which the next entry is stored, and the indexes after it.\<close>

lemma next_indexes_rep:
  assumes "log_rep L l b c es"
  shows "(if rl_first l = rl_last l \<and> rl_first l = 0 then (rl_append l, rl_append l, rl_append l + 1)
          else (rl_first l, rl_last l + 1, rl_last l + 1 + 1)) =
     (of_nat (Suc b), of_nat (Suc (b + length es)), of_nat (Suc (Suc (b + length es))))"
proof (cases "es = []")
  case True
  then show ?thesis using assms by (simp add: log_rep_def)
next
  case False
  have "b + length es < 2 ^ 30" using assms by (simp add: log_rep_def disk_rep_def)
  then have "unat (of_nat (Suc b) :: u32) \<noteq> 0" by (subst unat_u32) (use False in auto)
  then have "rl_first l \<noteq> 0" using assms False by (auto simp: log_rep_def simp del: of_nat_Suc)
  then show ?thesis using assms False by (simp add: log_rep_def)
qed

lemma enc_rows_append: "enc_rows (xs @ ys) = enc_rows xs @ enc_rows ys"
  by (simp add: enc_rows_def)

lemma enc_rows_keys_iff:
  assumes "\<forall>n \<in> fst ` set rows. n < 2 ^ 31" "k < 2 ^ 32"
  shows "row_key k \<in> fst ` set (enc_rows rows) \<longleftrightarrow> k \<in> fst ` set rows"
proof -
  have "row_key k \<in> fst ` set (enc_rows rows) \<longleftrightarrow> map_of (enc_rows rows) (row_key k) \<noteq> None"
    by (simp add: map_of_eq_None_iff)
  also have "\<dots> \<longleftrightarrow> k \<in> fst ` set rows"
    using map_of_enc_rows [OF assms] by (simp add: map_of_eq_None_iff)
  finally show ?thesis .
qed

lemma DataIndex_nat:
  assumes "n < 2 ^ 31"
  shows "DataIndexToLogIndex (of_nat (2 * n)) = Some (of_nat n)"
proof -
  have "(of_nat (2 * n) :: u32) mod 2 = 0" "(of_nat (2 * n) :: u32) div 2 = of_nat n"
    using assms by (simp_all add: word_unat_eq_iff unat_mod unat_div del: of_nat_mult)
  then show ?thesis by (simp add: DataIndexToLogIndex_def)
qed

lemma MetaIndex_nat:
  assumes "0 < n" "n < 2 ^ 31"
  shows "MetaIndexToLogIndex (of_nat (2 * n - 1)) = Some (of_nat n)"
proof -
  obtain m where n: "n = Suc m" using assms(1) by (cases n) auto
  have "(of_nat (2 * n - 1) :: u32) mod 2 = 1"
    using assms by (simp add: n word_unat_eq_iff unat_mod del: of_nat_mult of_nat_Suc)
  moreover have "(of_nat (2 * n - 1) :: u32) + 1 = of_nat (2 * n)" by (simp add: n)
  moreover have "(of_nat (2 * n) :: u32) div 2 = of_nat n"
    using assms(2) by (simp add: word_unat_eq_iff unat_div del: of_nat_mult)
  ultimately show ?thesis by (simp add: MetaIndexToLogIndex_def)
qed

context leveldb_store
begin

lemma disk_rep_append:
  assumes "disk_rep L db b c es" "Suc (b + length es) < 2 ^ 30"
  shows "disk_rep L (ldb_write L sync
     [Put (EncodeMetaKey (of_nat (Suc (b + length es))))
          (EncodeMetaValue (log_meta (log_chk c (Suc b) es) (Suc (b + length es)) e)),
      Put (EncodeDataKey (of_nat (Suc (b + length es)))) (ae_value e)] db) b c (es @ [e])"
proof -
  let ?i = "Suc (b + length es)" and ?m = "log_meta (log_chk c (Suc b) es) (Suc (b + length es)) e"
  from assms(1) obtain z where
    get: "ldb_get L db = map_of (enc_rows ((0, z) # log_rows c (Suc b) es))"
    by (auto simp: disk_rep_def)
  let ?R = "(0, z) # log_rows c (Suc b) es"
  have small: "\<forall>n \<in> fst ` set ?R. n < 2 ^ 31"
    using assms(2) by (simp add: log_rows_keys_set)
  have new: "row_key (2 * ?i - 1) \<notin> fst ` set (enc_rows ?R)"
      "row_key (2 * ?i) \<notin> fst ` set (enc_rows ?R)"
    using assms(2) log_rows_keys_set [of "Suc b" c es]
    by (subst enc_rows_keys_iff [OF small]; auto)+
  have ne: "row_key (2 * ?i) \<noteq> row_key (2 * ?i - 1)"
    using assms(2) by (subst row_key_inject) auto
  have rows: "enc_rows ((0, z) # log_rows c (Suc b) (es @ [e])) =
      enc_rows ?R @ [(row_key (2 * ?i - 1), EncodeMetaValue ?m), (row_key (2 * ?i), ae_value e)]"
    by (simp add: log_rows_append enc_rows_def)
  have "map_of (enc_rows ((0, z) # log_rows c (Suc b) (es @ [e]))) =
      (ldb_get L db)(row_key (2 * ?i - 1) \<mapsto> EncodeMetaValue ?m, row_key (2 * ?i) \<mapsto> ae_value e)"
    unfolding rows get by (rule map_of_snoc2 [OF new ne])
  then show ?thesis
    using assms(2) unfolding disk_rep_def get_write
    by (auto simp: EncodeMetaKey_row EncodeDataKey_row simp del: of_nat_Suc of_nat_add
        intro!: exI [of _ z])
qed


lemma AppendOne_plain:
  assumes "log_rep L l b c es" "Suc (b + length es) < 2 ^ 30" "ae_type e \<noteq> kConfig"
  shows "\<exists>l'. RaftLog_AppendOne L cb e l s = Some (l', s) \<and> log_rep L l' b c (es @ [e]) \<and>
    rl_config_indices l' = rl_config_indices l \<and> rl_config_db l' = rl_config_db l"
proof -
  let ?i = "Suc (b + length es)"
  let ?m = "log_meta (log_chk c (Suc b) es) ?i e"
  let ?db = "ldb_write L True [Put (EncodeMetaKey (of_nat ?i)) (EncodeMetaValue ?m),
      Put (EncodeDataKey (of_nat ?i)) (ae_value e)] (rl_db l)"
  let ?l = "l\<lparr>rl_db := ?db, rl_first := of_nat (Suc b), rl_last := of_nat ?i,
      rl_append := of_nat (Suc ?i), rl_last_checksum := mv_chk_all ?m\<rparr>"
  have rep: "log_rep L ?l b c (es @ [e])"
    using assms disk_rep_append [of "rl_db l" b c es True e]
    by (simp add: log_rep_def log_chk_append)
  have "rl_checksum l" using assms(1) by (simp add: log_rep_def)
  then have "RaftLog_AppendOne L cb e l s = Some (?l, s)"
    using log_rep_Check [OF assms(1)] log_rep_Check [OF rep] assms(3)
    unfolding RaftLog_AppendOne_def next_indexes_rep [OF assms(1)] AppendOne_meta_rep [OF assms(1)]
    by (simp add: Let_def del: of_nat_Suc of_nat_add)
  then show ?thesis using rep by auto
qed

lemma AppendOne_config:
  assumes "log_rep L l b c es" "Suc (b + length es) < 2 ^ 30" "ae_type e = kConfig"
    and "RaftConfig_FromString RaftConfig_raw (ae_value e) (int (length (ae_value e))) = Some (rc, n)"
  shows "\<exists>l' l''. log_rep L l' b c (es @ [e]) \<and>
    rl_config_indices l' = insert (of_nat (Suc (b + length es))) (rl_config_indices l) \<and>
    rl_first l'' = rl_first l \<and> rl_last l'' = rl_last l \<and> rl_append l'' = rl_append l \<and>
    RaftLog_AppendOne L cb e l s = do { s' \<leftarrow> cb rc (rl_append l) l'' s; Some (l', s') }"
proof -
  let ?i = "Suc (b + length es)"
  let ?m = "log_meta (log_chk c (Suc b) es) ?i e"
  let ?batch = "[Put (EncodeMetaKey (of_nat ?i)) (EncodeMetaValue ?m),
      Put (EncodeDataKey (of_nat ?i)) (ae_value e)]"
  let ?l'' = "l\<lparr>rl_db := ldb_write L True ?batch (rl_db l),
      rl_config_db := ldb_write L True ?batch (rl_config_db l),
      rl_config_indices := insert (of_nat ?i) (rl_config_indices l)\<rparr>"
  let ?l = "?l''\<lparr>rl_first := of_nat (Suc b), rl_last := of_nat ?i,
      rl_append := of_nat (Suc ?i), rl_last_checksum := mv_chk_all ?m\<rparr>"
  have rep: "log_rep L ?l b c (es @ [e])"
    using assms disk_rep_append [of "rl_db l" b c es True e]
    by (simp add: log_rep_def log_chk_append)
  have "rl_checksum l" using assms(1) by (simp add: log_rep_def)
  then have "RaftLog_AppendOne L cb e l s = do { s' \<leftarrow> cb rc (rl_append l) ?l'' s; Some (?l, s') }"
    using log_rep_Check [OF assms(1)] log_rep_Check [OF rep] assms(3,4)
    unfolding RaftLog_AppendOne_def next_indexes_rep [OF assms(1)] AppendOne_meta_rep [OF assms(1)]
    by (simp add: Let_def del: of_nat_Suc of_nat_add)
  with rep show ?thesis by (intro exI [of _ ?l] exI [of _ ?l'']) simp
qed

end

section \<open>Deleting rows\<close>

lemma index_range_nat:
  assumes "i \<le> j" "j < 2 ^ 32"
  shows "index_range (of_nat i) (of_nat j) = map of_nat [i ..< Suc j]"
  using assms by (simp add: index_range_def del: upt_Suc)

lemma delete_rows_range:
  assumes "0 < i"
  shows "delete_rows (map of_nat [i ..< j]) = map Delete (map row_key [2 * i - 1 ..< 2 * j - 1])"
proof (induction j)
  case (Suc j)
  show ?case
  proof (cases "i \<le> j")
    case True
    then have "[2 * i - 1 ..< 2 * Suc j - 1] = [2 * i - 1 ..< 2 * j - 1] @ [2 * j - 1, 2 * j]"
      using assms upt_add_eq_append [of "2 * i - 1" "2 * j - 1" 2]
      by (cases j) (auto simp: upt_rec)
    with Suc True assms show ?thesis
      by (simp add: delete_rows_def EncodeMetaKey_row EncodeDataKey_row del: upt_Suc)
         (simp add: upt_Suc EncodeMetaKey_row EncodeDataKey_row)
  next
    case False
    then show ?thesis by (simp add: delete_rows_def)
  qed
qed (simp add: delete_rows_def)

lemma filter_enc_rows:
  assumes "\<forall>n \<in> fst ` set rows. n < 2 ^ 31" "\<forall>k \<in> K. k < 2 ^ 32"
  shows "filter (\<lambda>x. fst x \<notin> row_key ` K) (enc_rows rows) =
    enc_rows (filter (\<lambda>x. fst x \<notin> K) rows)"
proof -
  have *: "row_key (fst x) \<in> row_key ` K \<longleftrightarrow> fst x \<in> K" if "x \<in> set rows" for x
  proof -
    have "fst x < 2 ^ 32" using assms(1) that by force
    then show ?thesis using assms(2) by (auto simp: u32_of_nat_inj)
  qed
  have "filter (\<lambda>x. fst x \<notin> row_key ` K) (enc_rows rows) =
      map (\<lambda>(n, v). (row_key n, v)) (filter (\<lambda>x. row_key (fst x) \<notin> row_key ` K) rows)"
    by (simp add: enc_rows_def filter_map o_def split_def)
  also have "filter (\<lambda>x. row_key (fst x) \<notin> row_key ` K) rows = filter (\<lambda>x. fst x \<notin> K) rows"
    by (rule filter_cong) (use * in auto)
  finally show ?thesis by (simp add: enc_rows_def)
qed

lemma filter_log_rows_out:
  assumes "0 < i"
  shows "{2 * i - 1 ..< 2 * (i + length es) - 1} \<subseteq> K \<Longrightarrow>
      filter (\<lambda>x. fst x \<notin> K) (log_rows c i es) = []"
    and "{2 * i - 1 ..< 2 * (i + length es) - 1} \<inter> K = {} \<Longrightarrow>
      filter (\<lambda>x. fst x \<notin> K) (log_rows c i es) = log_rows c i es"
  using log_rows_keys_set [OF assms, of c es]
  by (auto simp: filter_empty_conv filter_id_conv)


context leveldb_store
begin

lemma get_delete_rows:
  assumes "ldb_get L db = map_of (enc_rows rows)" "\<forall>n \<in> fst ` set rows. n < 2 ^ 31"
    and "0 < i" "i \<le> j" "j < 2 ^ 30"
  shows "ldb_get L (ldb_write L sync (delete_rows (index_range (of_nat i) (of_nat j)) @ ops) db) =
    fold apply_op ops
      (map_of (enc_rows (filter (\<lambda>x. fst x \<notin> {2 * i - 1 ..< 2 * Suc j - 1}) rows)))"
proof -
  let ?K = "{2 * i - 1 ..< 2 * Suc j - 1}"
  have ops: "delete_rows (index_range (of_nat i) (of_nat j)) =
      map Delete (map row_key [2 * i - 1 ..< 2 * Suc j - 1])"
    using index_range_nat [of i j] delete_rows_range [OF assms(3), of "Suc j"] assms(4,5)
    by (simp del: upt_Suc)
  have "map_of (enc_rows rows) |` (- (row_key ` ?K)) =
      map_of (filter (\<lambda>x. fst x \<notin> row_key ` ?K) (enc_rows rows))"
    by (rule map_of_filter_keys)
  also have "filter (\<lambda>x. fst x \<notin> row_key ` ?K) (enc_rows rows) =
      enc_rows (filter (\<lambda>x. fst x \<notin> ?K) rows)"
    by (rule filter_enc_rows [OF assms(2)]) (use assms in auto)
  finally show ?thesis
    by (simp only: get_write ops fold_append o_apply fold_Delete assms(1) set_map set_upt)
qed

lemma disk_rep_truncate:
  assumes "disk_rep L db b c es" "k < length es"
  shows "disk_rep L (ldb_write L sync
     (delete_rows (index_range (of_nat (Suc b + k)) (of_nat (b + length es))) @
      (if k = 0 then [Put kZeroKey (EncodeZeroValue (of_nat (Suc b)) c)] else [])) db)
     b c (take k es)"
proof -
  let ?K = "{2 * (Suc b + k) - 1 ..< 2 * Suc (b + length es) - 1}"
  from assms(1) obtain z where bound: "b + length es < 2 ^ 30" and
    get: "ldb_get L db = map_of (enc_rows ((0, z) # log_rows c (Suc b) es))"
    by (auto simp: disk_rep_def)
  have rows: "log_rows c (Suc b) es = log_rows c (Suc b) (take k es) @
      log_rows (log_chk c (Suc b) (take k es)) (Suc b + k) (drop k es)"
    using log_rows_append [of c "Suc b" "take k es" "drop k es"] assms(2) by simp
  have "filter (\<lambda>x. fst x \<notin> ?K) (log_rows (log_chk c (Suc b) (take k es)) (Suc b + k) (drop k es)) = []"
    using assms(2) by (intro filter_log_rows_out(1)) auto
  moreover have "filter (\<lambda>x. fst x \<notin> ?K) (log_rows c (Suc b) (take k es)) =
      log_rows c (Suc b) (take k es)"
    using assms(2) by (intro filter_log_rows_out(2)) auto
  ultimately have filtered: "filter (\<lambda>x. fst x \<notin> ?K) ((0, z) # log_rows c (Suc b) es) =
      (0, z) # log_rows c (Suc b) (take k es)"
    unfolding rows by simp
  have small: "\<forall>n \<in> fst ` set ((0, z) # log_rows c (Suc b) es). n < 2 ^ 31"
    using bound by (simp add: log_rows_keys_set)
  note got = get_delete_rows [OF get small, of "Suc b + k" "b + length es" sync, unfolded filtered]
  show ?thesis
  proof (cases "k = 0")
    case True
    then show ?thesis
      using got [of "[Put kZeroKey (EncodeZeroValue (of_nat (Suc b)) c)]"] assms(2) bound
      by (simp add: disk_rep_def enc_rows_def kZeroKey_row)
  next
    case False
    then show ?thesis
      using got [of "[]"] assms(2) bound by (auto simp: disk_rep_def)
  qed
qed

lemma disk_rep_compact:
  assumes "disk_rep L db b c es" "0 < k" "k \<le> length es"
  shows "disk_rep L (ldb_write L sync
     (delete_rows (index_range (of_nat (Suc b)) (of_nat (b + k))) @
      (if k = length es
       then [Put kZeroKey (EncodeZeroValue (of_nat (Suc (b + k))) (log_chk c (Suc b) es))]
       else [])) db)
     (b + k) (log_chk c (Suc b) (take k es)) (drop k es)"
proof -
  let ?K = "{2 * Suc b - 1 ..< 2 * Suc (b + k) - 1}"
  from assms(1) obtain z where bound: "b + length es < 2 ^ 30" and
    get: "ldb_get L db = map_of (enc_rows ((0, z) # log_rows c (Suc b) es))"
    by (auto simp: disk_rep_def)
  have rows: "log_rows c (Suc b) es = log_rows c (Suc b) (take k es) @
      log_rows (log_chk c (Suc b) (take k es)) (Suc (b + k)) (drop k es)"
    using log_rows_append [of c "Suc b" "take k es" "drop k es"] assms(3) by simp
  have "filter (\<lambda>x. fst x \<notin> ?K) (log_rows c (Suc b) (take k es)) = []"
    using assms(3) by (intro filter_log_rows_out(1)) auto
  moreover have "filter (\<lambda>x. fst x \<notin> ?K)
        (log_rows (log_chk c (Suc b) (take k es)) (Suc (b + k)) (drop k es)) =
      log_rows (log_chk c (Suc b) (take k es)) (Suc (b + k)) (drop k es)"
    using assms(3) by (intro filter_log_rows_out(2)) auto
  ultimately have filtered: "filter (\<lambda>x. fst x \<notin> ?K) ((0, z) # log_rows c (Suc b) es) =
      (0, z) # log_rows (log_chk c (Suc b) (take k es)) (Suc (b + k)) (drop k es)"
    unfolding rows by simp
  have small: "\<forall>n \<in> fst ` set ((0, z) # log_rows c (Suc b) es). n < 2 ^ 31"
    using bound by (simp add: log_rows_keys_set)
  note got = get_delete_rows [OF get small, of "Suc b" "b + k" sync, unfolded filtered]
  show ?thesis
  proof (cases "k = length es")
    case True
    then show ?thesis
      using got [of "[Put kZeroKey (EncodeZeroValue (of_nat (Suc (b + k))) (log_chk c (Suc b) es))]"]
        assms(2) bound
      by (simp add: disk_rep_def enc_rows_def kZeroKey_row)
  next
    case False
    then show ?thesis
      using got [of "[]"] assms bound by (auto simp: disk_rep_def)
  qed
qed

end


lemma delete_configs_log:
  "delete_configs cb is l s = Some (l', s') \<Longrightarrow>
   l' = l\<lparr>rl_config_indices := rl_config_indices l - set is\<rparr>"
proof (induction "is" arbitrary: l s)
  case (Cons i "is")
  then obtain s1 where "delete_configs cb is (l\<lparr>rl_config_indices := rl_config_indices l - {i}\<rparr>) s1 = Some (l', s')"
    by (auto simp: Let_def elim!: bind_eq_SomeE)
  moreover have "rl_config_indices l - {i} - set is = rl_config_indices l - set (i # is)" by auto
  ultimately show ?case using Cons.IH by fastforce
qed simp

lemma log_rep_bound: "log_rep L l b c es \<Longrightarrow> b + length es < 2 ^ 30"
  by (simp add: log_rep_def disk_rep_def)

lemma log_rep_nonempty:
  assumes "log_rep L l b c es" "es \<noteq> []"
  shows "rl_first l = of_nat (Suc b)" "rl_last l = of_nat (b + length es)"
    "rl_append l = rl_last l + 1" "0 < rl_first l" "0 < rl_last l" "rl_first l \<le> rl_last l"
    "rl_last l \<noteq> - 1" "1 \<le> length es"
proof -
  note bound = log_rep_bound [OF assms(1)]
  show f: "rl_first l = of_nat (Suc b)" and la: "rl_last l = of_nat (b + length es)"
    and "rl_append l = rl_last l + 1" using assms by (simp_all add: log_rep_def)
  show pos: "1 \<le> length es" using assms(2) by (cases es) auto
  have "0 < b + length es" using pos by linarith
  then show "0 < rl_first l" "0 < rl_last l" "rl_first l \<le> rl_last l"
    using bound pos by (simp_all add: f la word_less_nat_alt word_le_nat_alt del: of_nat_Suc of_nat_add)
  show "rl_last l \<noteq> - 1"
  proof
    assume "rl_last l = - 1"
    then have "unat (rl_last l) = 2 ^ 32 - 1" by (simp add: unsigned_minus_1_eq_mask mask_eq_exp_minus_1)
    then show False using bound by (simp add: la del: of_nat_add)
  qed
qed

context leveldb_store
begin

lemma DeleteFrom_nop:
  assumes "log_rep L l b c es" "es = [] \<or> b + length es < i" "i < 2 ^ 32"
  shows "RaftLog_DeleteFrom L cb (of_nat i) l s = Some (l, s)"
proof (cases "es = []")
  case True
  then show ?thesis using assms(1) log_rep_Check [OF assms(1)]
    by (simp add: RaftLog_DeleteFrom_def log_rep_def)
next
  case False
  note ne = log_rep_nonempty [OF assms(1) False]
  have "rl_last l < of_nat i"
    using assms False log_rep_bound [OF assms(1)] by (simp add: ne(2) word_less_nat_alt del: of_nat_add)
  then show ?thesis using ne log_rep_Check [OF assms(1)]
    by (auto simp: RaftLog_DeleteFrom_def)
qed

text \<open>A deletion that reaches into the log writes one batch, runs the callbacks of the deleted
  configurations, and leaves the entries before the index.\<close>

lemma DeleteFrom_rep:
  assumes "log_rep L l b c es" "es \<noteq> []" "i \<le> b + length es"
  shows "\<exists>l1 upd. RaftLog_DeleteFrom L cb (of_nat i) l s =
      map_option (\<lambda>(l2, s'). (upd l2, s'))
        (delete_configs cb (filter (\<lambda>i. i \<in> rl_config_indices l)
           (index_range (of_nat (Suc b + (i - Suc b))) (rl_last l))) l1 s) \<and>
    (\<forall>l2 s'. delete_configs cb (filter (\<lambda>i. i \<in> rl_config_indices l)
           (index_range (of_nat (Suc b + (i - Suc b))) (rl_last l))) l1 s = Some (l2, s') \<longrightarrow>
       log_rep L (upd l2) b c (take (i - Suc b) es))"
proof -
  note bound = log_rep_bound [OF assms(1)]
  note ne = log_rep_nonempty [OF assms(1,2)]
  let ?k = "i - Suc b"
  let ?from = "of_nat (Suc b + ?k) :: u32"
  have k: "?k < length es" using assms(3) ne(8) by linarith
  have not_gt: "\<not> rl_last l < of_nat i"
    using assms(3) bound by (simp add: ne(2) word_less_nat_alt del: of_nat_add)
  have lt: "of_nat i < rl_first l \<longleftrightarrow> i \<le> b"
    using assms(3) bound by (simp add: ne(1) word_less_nat_alt less_Suc_eq_le del: of_nat_Suc)
  have from_eq: "(if of_nat i < rl_first l then rl_first l else of_nat i) = ?from"
    using lt by (auto simp: ne(1) not_le simp del: of_nat_Suc of_nat_add)
  have isfirst: "?from = rl_first l \<longleftrightarrow> ?k = 0"
    using k bound by (simp only: ne(1)) (subst u32_of_nat_inj; simp)
  have ge: "rl_first l \<le> ?from" "?from \<le> rl_last l" "1 \<le> ?from"
    using k bound by (simp_all add: ne(1,2) word_le_nat_alt del: of_nat_Suc of_nat_add)
  let ?chk = "mv_pre_chk_all (log_metas c (Suc b) es ! ?k)"
  have chk: "?chk = log_chk c (Suc b) (take ?k es)"
    using k by (simp add: log_metas_nth log_meta_def Let_def)
  let ?range = "index_range ?from (rl_last l)"
  let ?batch = "delete_rows ?range @
           (if ?k = 0 then [Put kZeroKey (EncodeZeroValue ?from ?chk)] else [])"
  let ?dels = "filter (\<lambda>i. i \<in> rl_config_indices l) ?range"
  let ?l1 = "l\<lparr>rl_db := ldb_write L False ?batch (rl_db l),
      rl_config_db := ldb_write L False (delete_rows ?dels) (rl_config_db l)\<rparr>"
  let ?upd = "\<lambda>x. x\<lparr>rl_first := if ?k = 0 then 0 else rl_first l,
      rl_last := if ?k = 0 then 0 else ?from - 1, rl_append := ?from, rl_last_checksum := ?chk\<rparr>"
  have disk: "disk_rep L (ldb_write L False ?batch (rl_db l)) b c (take ?k es)"
  proof -
    have "?batch = delete_rows (index_range ?from (of_nat (b + length es))) @
        (if ?k = 0 then [Put kZeroKey (EncodeZeroValue (of_nat (Suc b)) c)] else [])"
      unfolding chk ne(2) by (cases "?k = 0") simp_all
    moreover have "disk_rep L (rl_db l) b c es" using assms(1) by (simp add: log_rep_def)
    ultimately show ?thesis using disk_rep_truncate [OF _ k] by presburger
  qed
  have last: "?from - 1 = of_nat (b + ?k)" by simp
  have rep: "log_rep L (?upd l2) b c (take ?k es)"
    if "delete_configs cb ?dels ?l1 s = Some (l2, s')" for l2 s'
  proof -
    have "rl_checksum l2" "rl_db l2 = ldb_write L False ?batch (rl_db l)"
      using delete_configs_log [OF that] assms(1) by (simp_all add: log_rep_def)
    moreover have "take ?k es = [] \<longleftrightarrow> ?k = 0" "length (take ?k es) = ?k" using k assms(2) by auto
    moreover have "(of_nat (Suc 0) :: u32) = 1" by simp
    ultimately show ?thesis
      using k ne(1) chk disk by (simp add: log_rep_def last del: of_nat_Suc of_nat_add)
  qed
  have run: "RaftLog_DeleteFrom L cb (of_nat i) l s =
      map_option (\<lambda>(l2, s'). (?upd l2, s')) (delete_configs cb ?dels ?l1 s)"
  proof (cases "delete_configs cb ?dels ?l1 s")
    case None
    then show ?thesis
      using GetMeta_rep [OF assms(1) k] log_rep_Check [OF assms(1)] ne(3-7) not_gt ge isfirst
      unfolding RaftLog_DeleteFrom_def
      by (auto simp: from_eq Let_def split: if_splits simp del: of_nat_Suc of_nat_add)
  next
    case (Some p)
    obtain l2 s' where p: "p = (l2, s')" by (cases p)
    show ?thesis
      using Some p log_rep_Check [OF rep [OF Some [unfolded p]]]
        GetMeta_rep [OF assms(1) k] log_rep_Check [OF assms(1)] ne(3-7) not_gt ge isfirst
      unfolding RaftLog_DeleteFrom_def
      by (auto simp: from_eq Let_def split: if_splits simp del: of_nat_Suc of_nat_add)
  qed
  show ?thesis
    by (intro exI [of _ ?l1] exI [of _ ?upd] conjI allI impI) (fact run, erule rep)
qed

lemma DeleteUtil_nop:
  assumes "log_rep L l b c es" "es = [] \<or> i \<le> b" "i < 2 ^ 32"
  shows "RaftLog_DeleteUtil L (of_nat i) l = Some l"
proof (cases "es = []")
  case True
  then show ?thesis using assms(1) log_rep_Check [OF assms(1)]
    by (simp add: RaftLog_DeleteUtil_def log_rep_def)
next
  case False
  note ne = log_rep_nonempty [OF assms(1) False]
  have "of_nat i < rl_first l"
    using assms False log_rep_bound [OF assms(1)] by (simp add: ne(1) word_less_nat_alt del: of_nat_Suc)
  then show ?thesis using ne log_rep_Check [OF assms(1)]
    by (auto simp: RaftLog_DeleteUtil_def)
qed

text \<open>A compaction removes the entries up to the index and keeps the rest with its checksums.\<close>

lemma DeleteUtil_rep:
  assumes "log_rep L l b c es" "es \<noteq> []" "b < i" "i < 2 ^ 32"
  shows "\<exists>l'. RaftLog_DeleteUtil L (of_nat i) l = Some l' \<and>
    log_rep L l' (b + min (i - b) (length es)) (log_chk c (Suc b) (take (i - b) es)) (drop (i - b) es) \<and>
    rl_config_indices l' = rl_config_indices l \<and> rl_config_db l' = rl_config_db l"
proof -
  note bound = log_rep_bound [OF assms(1)]
  note ne = log_rep_nonempty [OF assms(1,2)]
  define k where "k = min (i - b) (length es)"
  let ?to = "of_nat (b + k) :: u32"
  have k: "0 < k" "k \<le> length es" using assms(2,3) by (simp_all add: k_def)
  have take: "take (i - b) es = take k es" and drop: "drop (i - b) es = drop k es"
    by (simp_all add: k_def min_def)
  have not_lt: "\<not> of_nat i < rl_first l"
    using assms(3,4) bound by (simp add: ne(1) word_less_nat_alt del: of_nat_Suc)
  have gt: "rl_last l < of_nat i \<longleftrightarrow> b + length es < i"
    using assms(4) bound by (simp add: ne(2) word_less_nat_alt del: of_nat_add)
  have to_eq: "(if rl_last l < of_nat i then rl_last l else of_nat i) = ?to"
    using gt assms(3) by (auto simp: ne(2) k_def min_def simp del: of_nat_add)
  have islast: "?to = rl_last l \<longleftrightarrow> k = length es" "?to < rl_last l \<longleftrightarrow> k < length es"
    using k bound by (simp_all add: ne(2) u32_of_nat_inj word_less_nat_alt del: of_nat_add)
  have ge: "rl_first l \<le> ?to" "?to \<le> rl_last l"
    using k bound by (simp_all add: ne(1,2) word_le_nat_alt del: of_nat_Suc of_nat_add)
  have m1: "?to \<noteq> - 1" using islast ne(7) k bound
    by (metis ge(2) word_order.extremum_uniqueI)
  let ?chk = "log_chk c (Suc b) es"
  have chk: "(if ?to < rl_last l then Some (rl_last_checksum l)
      else do { m \<leftarrow> RaftLog_GetMeta L l ?to; meta \<leftarrow> m; Some (mv_chk_all meta) }) = Some ?chk"
  proof (cases "k = length es")
    case True
    have "b + length es = Suc b + (length es - 1)" using ne(8) by linarith
    with True have "?to = of_nat (Suc b + (length es - 1))" by (simp only:)
    moreover have "mv_chk_all (log_metas c (Suc b) es ! (length es - 1)) = ?chk"
    proof -
      obtain fs e where es: "es = fs @ [e]" using assms(2) by (cases es rule: rev_cases) auto
      show ?thesis by (simp add: es log_metas_append log_chk_append nth_append)
    qed
    ultimately show ?thesis
      using GetMeta_rep [OF assms(1), of "length es - 1"] ne(8) True islast
      by (simp del: of_nat_Suc of_nat_add)
  next
    case False
    then show ?thesis using islast k assms(1) by (simp add: log_rep_def)
  qed
  let ?batch = "delete_rows (index_range (rl_first l) ?to) @
      (if k = length es then [Put kZeroKey (EncodeZeroValue (rl_last l + 1) ?chk)] else [])"
  let ?l = "l\<lparr>rl_db := ldb_write L False ?batch (rl_db l),
      rl_first := if k = length es then 0 else ?to + 1, rl_last := if k = length es then 0 else rl_last l,
      rl_append := rl_last l + 1, rl_last_checksum := ?chk\<rparr>"
  have disk: "disk_rep L (ldb_write L False ?batch (rl_db l)) (b + k) (log_chk c (Suc b) (take k es)) (drop k es)"
  proof -
    have "?batch = delete_rows (index_range (of_nat (Suc b)) (of_nat (b + k))) @
        (if k = length es then [Put kZeroKey (EncodeZeroValue (of_nat (Suc (b + k))) ?chk)] else [])"
      by (simp add: ne(1,2) ac_simps)
    moreover have "disk_rep L (rl_db l) b c es" using assms(1) by (simp add: log_rep_def)
    ultimately show ?thesis using disk_rep_compact [OF _ k] by presburger
  qed
  have chk_eq: "?chk = log_chk (log_chk c (Suc b) (take k es)) (Suc (b + k)) (drop k es)"
    using log_chk_append [of c "Suc b" "take k es" "drop k es"] k by simp
  have rep: "log_rep L ?l (b + k) (log_chk c (Suc b) (take k es)) (drop k es)"
  proof -
    have nil: "drop k es = [] \<longleftrightarrow> k = length es" using k by auto
    have len: "b + k + length (drop k es) = b + length es" using k by simp
    have cs: "rl_checksum l" using assms(1) by (simp add: log_rep_def)
    show ?thesis
      unfolding log_rep_def chk_eq [symmetric] nil len
    proof (intro conjI)
      show "disk_rep L (rl_db ?l) (b + k) (log_chk c (Suc b) (take k es)) (drop k es)"
      proof -
        have "rl_db ?l = ldb_write L False ?batch (rl_db l)" by simp
        with disk show ?thesis by (simp only:)
      qed
    qed (simp_all add: cs ne(2))
  qed
  have "RaftLog_DeleteUtil L (of_nat i) l = Some ?l"
  proof -
    have nz: "rl_first l \<noteq> 0" "\<not> (rl_first l = rl_last l \<and> rl_first l = 0)" using ne(4) by auto
    note simps = log_rep_Check [OF assms(1)] log_rep_Check [OF rep] ne(3) not_lt ge m1 to_eq chk nz
    show ?thesis
    proof (cases "k = length es")
      case True
      show ?thesis
        using ne(4-6) True simps unfolding RaftLog_DeleteUtil_def Let_def to_eq chk
        by (simp add: ne(2) [symmetric] del: of_nat_Suc of_nat_add)
    next
      case False
      then have to: "?to \<noteq> rl_last l" "?to < rl_last l" using islast k by simp_all
      show ?thesis
        using ne(4-6) False simps to unfolding RaftLog_DeleteUtil_def Let_def to_eq chk
        by (simp del: of_nat_Suc of_nat_add)
    qed
  qed
  with rep show ?thesis by (simp add: take drop flip: k_def)
qed

text \<open>Starting and restarting.\<close>

lemma disk_rep_scan:
  assumes "disk_rep L db b c es"
  shows "\<exists>z. ldb_scan L U32Compare db = enc_rows ((0, z) # log_rows c (Suc b) es) \<and>
    (es = [] \<longrightarrow> z = EncodeZeroValue (of_nat (Suc b)) c)"
proof -
  from assms obtain z where bound: "b + length es < 2 ^ 30" and
    get: "ldb_get L db = map_of (enc_rows ((0, z) # log_rows c (Suc b) es))" and
    z: "es = [] \<longrightarrow> z = EncodeZeroValue (of_nat (Suc b)) c"
    by (auto simp: disk_rep_def)
  have small: "\<forall>n \<in> fst ` set ((0, z) # log_rows c (Suc b) es). n < 2 ^ 31"
    using bound by (simp add: log_rows_keys_set)
  have "sorted_wrt (<) (map fst ((0, z) # log_rows c (Suc b) es))"
    using log_rows_keys [of "Suc b" c es] by (simp add: log_rows_keys_set del: upt_Suc)
  with scan_eq [OF get enc_rows_orders [OF small] enc_rows_sorted [OF small]] z show ?thesis by blast
qed

lemma init_db_fresh:
  assumes "ldb_get L db = Map.empty"
  shows "disk_rep L (RaftLog_init_db L db) 0 0 []"
proof -
  have "ldb_scan L U32Compare db = []"
    by (rule scan_eq) (simp_all add: assms orders_def)
  then show ?thesis
    by (simp add: disk_rep_def RaftLog_init_db_def get_write assms enc_rows_def kZeroKey_row)
qed

lemma init_db_rep: "disk_rep L db b c es \<Longrightarrow> RaftLog_init_db L db = db"
  using disk_rep_scan [of db b c es] by (auto simp: RaftLog_init_db_def enc_rows_def)

lemma init_indexes_rep:
  assumes "disk_rep L (rl_db l) b c es" "rl_checksum l"
  shows "\<exists>l'. RaftLog_init_indexes L l = Some l' \<and> log_rep L l' b c es \<and>
    rl_config_db l' = rl_config_db l \<and> rl_config_indices l' = rl_config_indices l"
proof -
  from disk_rep_scan [OF assms(1)] obtain z where
    scan: "ldb_scan L U32Compare (rl_db l) = enc_rows ((0, z) # log_rows c (Suc b) es)" and
    z: "es = [] \<longrightarrow> z = EncodeZeroValue (of_nat (Suc b)) c" by blast
  have bound: "b + length es < 2 ^ 30" using assms(1) by (simp add: disk_rep_def)
  show ?thesis
  proof (cases es rule: rev_cases)
    case Nil
    with scan z have "ldb_scan L U32Compare (rl_db l) = [(row_key 0, EncodeZeroValue (of_nat (Suc b)) c)]"
      by (simp add: enc_rows_def)
    then show ?thesis using assms Nil
      by (simp add: RaftLog_init_indexes_def log_rep_def EncodeZeroValue_def)
         (simp add: EncodeZeroValue_def [symmetric])
  next
    case (snoc fs e)
    let ?n = "b + length es"
    let ?l = "l\<lparr>rl_last := of_nat ?n, rl_first := of_nat (Suc b), rl_append := of_nat ?n + 1\<rparr>"
    let ?l' = "?l\<lparr>rl_last_checksum := log_chk c (Suc b) es\<rparr>"
    obtain g gs where es: "es = g # gs" using snoc by (metis list.exhaust snoc_eq_iff_butlast)
    have last: "fst (last (ldb_scan L U32Compare (rl_db l))) = row_key (2 * ?n)"
      unfolding scan by (simp add: enc_rows_def snoc log_rows_append)
    have second: "fst (ldb_scan L U32Compare (rl_db l) ! 1) = row_key (2 * Suc b - 1)"
        "1 < length (ldb_scan L U32Compare (rl_db l))"
      unfolding scan by (simp_all add: enc_rows_def es)
    have last_idx: "DataIndexToLogIndex (of_nat (2 * ?n)) = Some (of_nat ?n)"
      using bound by (intro DataIndex_nat) simp
    have first_idx: "MetaIndexToLogIndex (of_nat (2 * Suc b - 1)) = Some (of_nat (Suc b))"
      using bound by (intro MetaIndex_nat) simp_all
    have "unat (of_nat (2 * ?n) :: u32) \<noteq> 0" using bound snoc by (subst unat_u32) simp_all
    then have nz: "(of_nat (2 * ?n) :: u32) \<noteq> 0" by auto
    have rep: "log_rep L ?l' b c es"
      using assms snoc by (simp add: log_rep_def)
    have meta: "RaftLog_LastMeta L ?l = Some (Some (last (log_metas c (Suc b) es)))"
      using LastMeta_rep [OF rep] snoc by (simp only: LastMeta_checksum) simp
    have "mv_chk_all (last (log_metas c (Suc b) es)) = log_chk c (Suc b) es"
      by (simp add: snoc log_metas_append log_chk_append)
    with meta last second last_idx first_idx nz have "RaftLog_init_indexes L l = Some ?l'"
      unfolding RaftLog_init_indexes_def
      by (auto simp: Let_def simp del: of_nat_add of_nat_Suc of_nat_mult)
    with rep show ?thesis by auto
  qed
qed

end


lemma config_log_indices_total:
  "\<forall>x \<in> set rows. length (fst x) = 4 \<Longrightarrow> \<exists>is. config_log_indices rows = Some is"
proof (induction rows)
  case (Cons x rows)
  obtain k v where x: "x = (k, v)" by (cases x)
  have "length k = 4" using Cons.prems x by simp
  then obtain b0 b1 b2 b3 where "k = [b0, b1, b2, b3]"
    by (auto simp: length_Suc_conv numeral_eq_Suc)
  then obtain index where index: "DecodeFixed32 k = Some index" by (simp add: DecodeFixed32_un_le)
  have "index mod 2 = 0 \<or> index mod 2 = 1"
    by (simp add: word_unat_eq_iff unat_mod) presburger
  with Cons index x show ?case
    by (auto simp: DataIndexToLogIndex_def MetaIndexToLogIndex_def)
qed simp

lemma log_rep_Init_fields:
  assumes "log_rep L l b c es" "log_rep L l' b c es"
  shows "rl_first l' = rl_first l" "rl_last l' = rl_last l" "rl_append l' = rl_append l"
    "rl_last_checksum l' = rl_last_checksum l"
  using assms by (simp_all add: log_rep_def)

context leveldb_store
begin

lemma Init_rep:
  assumes "disk_rep L (RaftLog_init_db L db) b c es"
    and "\<forall>x \<in> set (ldb_scan L U32Compare cdb). length (fst x) = 4"
  shows "\<exists>l'. RaftLog_Init L (RaftLog_new db cdb) = Some l' \<and> log_rep L l' b c es \<and>
    rl_config_db l' = cdb \<and>
    config_log_indices (ldb_scan L U32Compare cdb) = Some (rl_config_indices l')"
proof -
  let ?l = "(RaftLog_new db cdb)\<lparr>rl_db := RaftLog_init_db L db\<rparr>"
  have "disk_rep L (rl_db ?l) b c es" "rl_checksum ?l"
    using assms(1) by (simp_all add: RaftLog_new_def)
  from init_indexes_rep [OF this] obtain l' where
    l': "RaftLog_init_indexes L ?l = Some l'" "log_rep L l' b c es" "rl_config_db l' = cdb"
    "rl_config_indices l' = {}"
    by (auto simp: RaftLog_new_def)
  obtain "is" where "is": "config_log_indices (ldb_scan L U32Compare cdb) = Some is"
    using config_log_indices_total [OF assms(2)] by blast
  let ?l' = "l'\<lparr>rl_config_indices := rl_config_indices l' \<union> is\<rparr>"
  have rep: "log_rep L ?l' b c es" using l'(2) by (simp add: log_rep_def)
  have "RaftLog_Init L (RaftLog_new db cdb) = Some ?l'"
    using l' "is" log_rep_Check [OF rep] by (simp add: RaftLog_Init_def RaftLog_new_def)
  with rep l'(3,4) "is" show ?thesis by auto
qed

end

section \<open>The running checksum\<close>

lemma log_chk_inject: "log_chk c i es = log_chk c' i es \<longleftrightarrow> c = c'"
proof (induction es arbitrary: c c' i)
  case (Cons e es)
  then show ?case by (simp add: log_meta_def Let_def CheckAll_inject)
qed simp

text \<open>Every list of entries is the content of some log of the reference store.\<close>

lemma sample_log:
  assumes "list_all (\<lambda>e. ae_type e \<noteq> kConfig) es" "length es < 2 ^ 30"
  shows "\<exists>l. log_rep alist_store l 0 0 es \<and> rl_config_db l = [] \<and> rl_config_indices l = {}"
  using assms
proof (induction es rule: rev_induct)
  case Nil
  have "disk_rep alist_store (RaftLog_init_db alist_store []) 0 0 []"
    by (rule alist_store.init_db_fresh) (simp add: alist_store_def)
  moreover have "ldb_scan alist_store U32Compare [] = []" by (simp add: alist_store_def)
  ultimately show ?case using alist_store.Init_rep [of "[]" 0 0 "[]" "[]"] by auto
next
  case (snoc e es)
  then obtain l where l: "log_rep alist_store l 0 0 es" "rl_config_db l = []"
      "rl_config_indices l = {}" by auto
  with snoc.prems show ?case
    using alist_store.AppendOne_plain [OF l(1), of e "\<lambda>rc i l s. Some s" "()"] by auto
qed

section \<open>Operations on represented logs\<close>

lemma AppendOne_represents:
  assumes "leveldb_store L" and "log_rep L l b c es" and "Suc (b + length es) < 2 ^ 30"
  shows "(ae_type e \<noteq> kConfig \<longrightarrow> (\<exists>l'. RaftLog_AppendOne L cb e l s = Some (l', s))) \<and>
    (\<forall>l' s'. RaftLog_AppendOne L cb e l s = Some (l', s') \<longrightarrow> log_rep L l' b c (es @ [e]))"
proof (cases "ae_type e = kConfig")
  case False
  then show ?thesis using leveldb_store.AppendOne_plain [OF assms, of e cb s] by auto
next
  case True
  show ?thesis
  proof (cases "RaftConfig_FromString RaftConfig_raw (ae_value e) (int (length (ae_value e)))")
    case None
    then have "RaftLog_AppendOne L cb e l s = None"
      using True by (simp add: RaftLog_AppendOne_def Let_def split: prod.split)
    with True show ?thesis by simp
  next
    case (Some p)
    then obtain rc n where "RaftConfig_FromString RaftConfig_raw (ae_value e)
        (int (length (ae_value e))) = Some (rc, n)" by (cases p) auto
    from leveldb_store.AppendOne_config [OF assms True this, of cb s] obtain l' l'' where
      "log_rep L l' b c (es @ [e])"
      "RaftLog_AppendOne L cb e l s = do { s' \<leftarrow> cb rc (rl_append l) l'' s; Some (l', s') }"
      by blast
    with True show ?thesis by (cases "cb rc (rl_append l) l'' s") auto
  qed
qed

lemma DeleteFrom_represents:
  assumes "leveldb_store L" and "log_rep L l b c es" and "i < 2 ^ 32"
  shows "(rl_config_indices l \<subseteq> {0} \<longrightarrow> (\<exists>l'. RaftLog_DeleteFrom L cb (of_nat i) l s = Some (l', s))) \<and>
    (\<forall>l' s'. RaftLog_DeleteFrom L cb (of_nat i) l s = Some (l', s') \<longrightarrow>
       log_rep L l' b c (take (i - Suc b) es))"
proof (cases "es = [] \<or> b + length es < i")
  case True
  then show ?thesis
    using leveldb_store.DeleteFrom_nop [OF assms(1,2) True assms(3), of cb s] assms(2) by auto
next
  case False
  then have "es \<noteq> []" "i \<le> b + length es" by auto
  let ?is = "filter (\<lambda>i. i \<in> rl_config_indices l)
    (index_range (of_nat (Suc b + (i - Suc b))) (rl_last l))"
  from leveldb_store.DeleteFrom_rep [OF assms(1,2) \<open>es \<noteq> []\<close> \<open>i \<le> b + length es\<close>, of cb s]
  obtain l1 upd where
    "RaftLog_DeleteFrom L cb (of_nat i) l s =
       map_option (\<lambda>(l2, s'). (upd l2, s')) (delete_configs cb ?is l1 s)"
    "\<forall>l2 s'. delete_configs cb ?is l1 s = Some (l2, s') \<longrightarrow>
       log_rep L (upd l2) b c (take (i - Suc b) es)" by blast
  moreover have "?is = []" if "rl_config_indices l \<subseteq> {0}"
  proof -
    have "index_range (of_nat (Suc b + (i - Suc b))) (rl_last l) =
        map of_nat [Suc b + (i - Suc b) ..< Suc (b + length es)]"
      using log_rep_bound [OF assms(2)] log_rep_nonempty(2) [OF assms(2) \<open>es \<noteq> []\<close>] \<open>i \<le> b + length es\<close>
        \<open>es \<noteq> []\<close> index_range_nat [of "Suc b + (i - Suc b)" "b + length es"]
      by (simp del: of_nat_add of_nat_Suc upt_Suc) (cases es, simp_all del: of_nat_add of_nat_Suc upt_Suc)
    moreover have "(of_nat n :: u32) \<noteq> 0" if "0 < n" "n \<le> b + length es" for n
    proof -
      have "unat (of_nat n :: u32) = n" using that log_rep_bound [OF assms(2)] by (intro unat_u32) simp
      with that(1) show ?thesis by auto
    qed
    ultimately show ?thesis using that by (auto simp: filter_empty_conv simp del: of_nat_add of_nat_Suc upt_Suc)
  qed
  ultimately show ?thesis by (cases "delete_configs cb ?is l1 s") auto
qed

section \<open>Properties\<close>

text \<open>C9. Appending refines appending to a list: on a log that represents the entries \<open>es\<close>
  (after index \<open>b\<close>, with running checksum \<open>c\<close> there) an append of any entry that is not a
  configuration succeeds, and whenever an append returns the new log represents \<open>es\<close> followed by
  the entry: its two rows, the indexes, the meta data with both checksums and the running
  checksum are those of the longer list.\<close>

theorem AppendOne_refines:
  assumes "leveldb_store L" and "log_rep L l b c es" and "Suc (b + length es) < 2 ^ 30"
  shows "(ae_type e \<noteq> kConfig \<longrightarrow> (\<exists>l'. RaftLog_AppendOne L cb e l s = Some (l', s))) \<and>
    (\<forall>l' s'. RaftLog_AppendOne L cb e l s = Some (l', s') \<longrightarrow> log_rep L l' b c (es @ [e]))"
  by (rule AppendOne_represents [OF assms])

theorem AppendOne_refines_witness:
  "\<exists>l l' (e :: AppendEntry). log_rep alist_store l 0 0 [] \<and>
     RaftLog_AppendOne alist_store (\<lambda>rc i l s. Some s) e l () = Some (l', ()) \<and>
     log_rep alist_store l' 0 0 [e]"
proof -
  let ?e = "\<lparr>ae_term = 1, ae_type = kData, ae_value = [1]\<rparr>"
  obtain l where l: "log_rep alist_store l 0 0 []" using sample_log [of "[]"] by auto
  from AppendOne_refines [OF alist_store.leveldb_store_axioms l, of ?e "\<lambda>rc i l s. Some s" "()"] l
  show ?thesis by auto
qed

text \<open>C10. Truncation refines \<open>take\<close>: \<open>DeleteFrom\<close> with index \<open>i\<close> keeps the entries before \<open>i\<close> (all of
  them when \<open>i\<close> is past the end) together with the running checksum at that point, and it
  succeeds when the log has no configuration entry (the first configuration has index 0).\<close>

theorem DeleteFrom_refines:
  assumes "leveldb_store L" and "log_rep L l b c es" and "i < 2 ^ 32"
  shows "(rl_config_indices l \<subseteq> {0} \<longrightarrow> (\<exists>l'. RaftLog_DeleteFrom L cb (of_nat i) l s = Some (l', s))) \<and>
    (\<forall>l' s'. RaftLog_DeleteFrom L cb (of_nat i) l s = Some (l', s') \<longrightarrow>
       log_rep L l' b c (take (i - Suc b) es))"
  by (rule DeleteFrom_represents [OF assms])

theorem DeleteFrom_refines_witness:
  "\<exists>l e l'. log_rep alist_store l 0 0 [e, e] \<and>
     RaftLog_DeleteFrom alist_store (\<lambda>i l s. Some s) (of_nat 2) l () = Some (l', ()) \<and>
     log_rep alist_store l' 0 0 [e]"
proof -
  let ?e = "\<lparr>ae_term = 1, ae_type = kData, ae_value = [1]\<rparr>"
  obtain l where l: "log_rep alist_store l 0 0 [?e, ?e]" "rl_config_indices l = {}"
    using sample_log [of "[?e, ?e]"] by auto
  with DeleteFrom_refines [OF alist_store.leveldb_store_axioms l(1), of 2 "\<lambda>i l s. Some s" "()"]
  obtain l' where "RaftLog_DeleteFrom alist_store (\<lambda>i l s. Some s) (of_nat 2) l () = Some (l', ())"
    "log_rep alist_store l' 0 0 [?e]" by auto
  with l(1) show ?thesis by blast
qed

text \<open>Compaction refines \<open>drop\<close>: \<open>DeleteUtil\<close> with index \<open>i\<close> succeeds and leaves the entries after
  \<open>i\<close>; the base moves up to \<open>i\<close> (or to the end of the log) and the checksum chain continues
  from the checksum of the last removed entry.\<close>

theorem DeleteUtil_refines:
  assumes "leveldb_store L" and "log_rep L l b c es" and "i < 2 ^ 32"
  shows "\<exists>l'. RaftLog_DeleteUtil L (of_nat i) l = Some l' \<and>
    log_rep L l' (b + min (i - b) (length es)) (log_chk c (Suc b) (take (i - b) es)) (drop (i - b) es)"
proof (cases "es = [] \<or> i \<le> b")
  case True
  then show ?thesis
    using leveldb_store.DeleteUtil_nop [OF assms(1,2) True assms(3)] assms(2) by auto
next
  case False
  then show ?thesis
    using leveldb_store.DeleteUtil_rep [OF assms(1,2) _ _ assms(3)] by auto
qed

theorem DeleteUtil_refines_witness:
  "\<exists>l l' e c. log_rep alist_store l 0 0 [e] \<and>
     RaftLog_DeleteUtil alist_store (of_nat 1) l = Some l' \<and> log_rep alist_store l' 1 c []"
proof -
  let ?e = "\<lparr>ae_term = 1, ae_type = kData, ae_value = [1]\<rparr>"
  obtain l where l: "log_rep alist_store l 0 0 [?e]" using sample_log [of "[?e]"] by auto
  from DeleteUtil_refines [OF alist_store.leveldb_store_axioms l, of 1] l show ?thesis by auto
qed

text \<open>C11. A restart loses nothing: opening the databases of a log again gives a log with the same
  entries, indexes and running checksum; opening an empty database gives the empty log at
  index 1.\<close>

theorem restart_recovers:
  assumes "leveldb_store L" and "log_rep L l b c es"
    and "\<forall>x \<in> set (ldb_scan L U32Compare (rl_config_db l)). length (fst x) = 4"
    and "ldb_get L db0 = Map.empty"
  shows "(\<exists>l'. RaftLog_Init L (RaftLog_new (rl_db l) (rl_config_db l)) = Some l' \<and>
      log_rep L l' b c es \<and> rl_first l' = rl_first l \<and> rl_last l' = rl_last l \<and>
      rl_append l' = rl_append l \<and> rl_last_checksum l' = rl_last_checksum l) \<and>
    (\<exists>l'. RaftLog_Init L (RaftLog_new db0 (rl_config_db l)) = Some l' \<and> log_rep L l' 0 0 [])"
proof -
  have "disk_rep L (RaftLog_init_db L (rl_db l)) b c es"
    using assms(2) leveldb_store.init_db_rep [OF assms(1), of "rl_db l" b c es]
    by (simp add: log_rep_def)
  from leveldb_store.Init_rep [OF assms(1) this assms(3)]
    leveldb_store.Init_rep [OF assms(1) leveldb_store.init_db_fresh [OF assms(1,4)] assms(3)]
  show ?thesis using log_rep_Init_fields [OF assms(2)] by blast
qed

theorem restart_recovers_witness:
  "\<exists>l e l'. log_rep alist_store l 0 0 [e] \<and>
     RaftLog_Init alist_store (RaftLog_new (rl_db l) (rl_config_db l)) = Some l' \<and>
     log_rep alist_store l' 0 0 [e]"
proof -
  let ?e = "\<lparr>ae_term = 1, ae_type = kData, ae_value = [1]\<rparr>"
  obtain l where l: "log_rep alist_store l 0 0 [?e]" "rl_config_db l = []"
    using sample_log [of "[?e]"] by auto
  have "ldb_scan alist_store U32Compare [] = []" "ldb_get alist_store [] = Map.empty"
    by (simp_all add: alist_store_def)
  with restart_recovers [OF alist_store.leveldb_store_axioms l(1), of "[]"] l obtain l' where
    "RaftLog_Init alist_store (RaftLog_new (rl_db l) (rl_config_db l)) = Some l'"
    "log_rep alist_store l' 0 0 [?e]" by auto
  with l(1) show ?thesis by blast
qed

text \<open>Reading: \<open>Get\<close> returns exactly the entries of the log, each with the checksums of the
  chain up to it, and reports a missing entry for every other index below \<open>2 ^ 31\<close>.\<close>

theorem Get_reads_entries:
  assumes "log_rep L l b c es" and "0 < i" and "i < 2 ^ 31"
  shows "RaftLog_Get L l (of_nat i) =
    (if b < i \<and> i \<le> b + length es then
       Some (Some \<lparr>le_index = of_nat i,
         le_pre_chk_all = log_chk c (Suc b) (take (i - Suc b) es),
         le_chk_ths = Crc32 (CheckThis_buf (of_nat i) (es ! (i - Suc b))),
         le_chk_all = log_chk c (Suc b) (take (i - b) es),
         le_append_entry = es ! (i - Suc b)\<rparr>)
     else Some None)"
proof (cases "b < i \<and> i \<le> b + length es")
  case True
  let ?k = "i - Suc b"
  have k: "?k < length es" and i: "Suc b + ?k = i" using True by auto
  have t: "take (i - b) es = take ?k es @ [es ! ?k]"
    using take_Suc_conv_app_nth [OF k] i by (metis True Suc_diff_Suc)
  show ?thesis
    using Get_rep [OF assms(1) k] True k unfolding i t log_chk_append
    by (simp add: log_metas_nth log_meta_def Let_def)
next
  case False
  then show ?thesis using Get_missing(2) [OF assms] by auto
qed

theorem Get_reads_entries_witness:
  "\<exists>l e. log_rep alist_store l 0 0 [e] \<and> RaftLog_Get alist_store l (of_nat 2) = Some None"
proof -
  let ?e = "\<lparr>ae_term = 1, ae_type = kData, ae_value = [1]\<rparr>"
  obtain l where l: "log_rep alist_store l 0 0 [?e]" using sample_log [of "[?e]"] by auto
  have "RaftLog_Get alist_store l (of_nat 2) = Some None"
    using Get_reads_entries [OF l, of 2] by (simp del: of_nat_numeral)
  with l show ?thesis by blast
qed

text \<open>The comparator of the log database is a strict total order on the keys below \<open>2 ^ 31\<close>,
  which is what LevelDB requires of it, but not on all 32 bit keys: the signed difference wraps
  around and three keys can precede each other in a circle.\<close>

theorem U32Compare_order:
  "orders U32Compare (row_key ` {n. n < 2 ^ 31}) \<and>
   \<not> orders U32Compare (row_key ` {n. n < 2 ^ 32})"
proof -
  have "cmp_less U32Compare (row_key 0) (row_key 0x60000000)"
    "cmp_less U32Compare (row_key 0x60000000) (row_key 0xC0000000)"
    "cmp_less U32Compare (row_key 0xC0000000) (row_key 0)"
    by (simp_all add: cmp_less_def U32Compare_def)
  moreover have "row_key 0 \<in> row_key ` {n. n < 2 ^ 32}"
    "row_key 0x60000000 \<in> row_key ` {n. n < 2 ^ 32}" "row_key 0xC0000000 \<in> row_key ` {n. n < 2 ^ 32}"
    by (rule imageI, simp)+
  ultimately have "\<not> orders U32Compare (row_key ` {n. n < 2 ^ 32})"
    using orders_trans orders_irrefl by meson
  then show ?thesis using U32Compare_orders by blast
qed

text \<open>The running checksum never forgets: after the same further entries the checksums of two
  logs agree exactly when they agreed before them.\<close>

theorem checksum_remembers:
  assumes "log_rep L l b c (es @ fs)" and "log_rep L' l' b c' (es' @ fs)" and "length es = length es'"
  shows "rl_last_checksum l = rl_last_checksum l' \<longleftrightarrow> log_chk c (Suc b) es = log_chk c' (Suc b) es'"
  using assms by (simp add: log_rep_def log_chk_append log_chk_inject)

theorem checksum_remembers_witness:
  "\<exists>l (e :: AppendEntry). log_rep alist_store l 0 0 ([] @ [e]) \<and>
     (rl_last_checksum l = rl_last_checksum l \<longleftrightarrow> log_chk 0 (Suc 0) [] = log_chk 0 (Suc 0) [])"
proof -
  let ?e = "\<lparr>ae_term = 1, ae_type = kData, ae_value = [1]\<rparr>"
  obtain l where l: "log_rep alist_store l 0 0 ([] @ [?e])" using sample_log [of "[?e]"] by auto
  from checksum_remembers [OF l l] l show ?thesis by blast
qed

end
