(* ===== verification/Quorum.thy ===== *)
theory Quorum
  imports RaftConfig
begin

text \<open>
  The bookkeeping of a candidate and of a leader about the other servers: the \<^verbatim>\<open>IndexManager\<close>
  (src/src/raft/index_manager.h), the \<^verbatim>\<open>VoteManager\<close> (vote_manager.h, vote_manager.cc) and the
  \<^verbatim>\<open>PeerManager\<close> (peer_manager.h, peer_manager.cc), and what their majorities are worth: which
  quorums intersect. The managers are maps from the 64 bit form of an address to an item; reading
  through \<^verbatim>\<open>operator[]\<close> inserts a missing item.
\<close>

section \<open>Index manager\<close>

record IndexItem =
  ii_next :: RaftIndex
  ii_match :: RaftIndex

type_synonym IndexManager = "(u64 \<times> IndexItem) list"

definition IndexItem_zero :: IndexItem where
  "IndexItem_zero = \<lparr>ii_next = 0, ii_match = 0\<rparr>"

definition IndexManager_MajorityMax :: "RaftIndex \<Rightarrow> IndexManager \<Rightarrow> RaftIndex" where
  "IndexManager_MajorityMax leader_match_index m = (
     let matches = sort (leader_match_index # map (\<lambda>item. ii_match (snd item)) m)
     in matches ! ((length matches - 1) div 2))"

definition IndexManager_Reset :: "RaftAddr list \<Rightarrow> IndexManager" where
  "IndexManager_Reset peers =
     fold (\<lambda>addr. AList.update (RaftAddr_ToU64 addr) \<lparr>ii_next = 1, ii_match = 0\<rparr>) peers []"

definition IndexManager_ResetNext :: "RaftIndex \<Rightarrow> IndexManager \<Rightarrow> IndexManager" where
  "IndexManager_ResetNext index = map_all (\<lambda>it. it\<lparr>ii_next := index\<rparr>)"

definition IndexManager_ResetMatch :: "RaftIndex \<Rightarrow> IndexManager \<Rightarrow> IndexManager" where
  "IndexManager_ResetMatch index = map_all (\<lambda>it. it\<lparr>ii_match := index\<rparr>)"

definition IndexManager_DecrNext :: "u64 \<Rightarrow> IndexManager \<Rightarrow> IndexManager" where
  "IndexManager_DecrNext addr =
     map_upd_at IndexItem_zero addr (\<lambda>it. it\<lparr>ii_next := ii_next it - 1\<rparr>)"

definition IndexManager_SetNext :: "u64 \<Rightarrow> RaftIndex \<Rightarrow> IndexManager \<Rightarrow> IndexManager" where
  "IndexManager_SetNext addr index =
     map_upd_at IndexItem_zero addr (\<lambda>it. it\<lparr>ii_next := index\<rparr>)"

definition IndexManager_GetNext :: "u64 \<Rightarrow> IndexManager \<Rightarrow> RaftIndex \<times> IndexManager" where
  "IndexManager_GetNext addr m =
     (ii_next (map_at IndexItem_zero addr m), map_upd_at IndexItem_zero addr (\<lambda>it. it) m)"

definition IndexManager_SetMatch :: "u64 \<Rightarrow> RaftIndex \<Rightarrow> IndexManager \<Rightarrow> IndexManager" where
  "IndexManager_SetMatch addr index =
     map_upd_at IndexItem_zero addr (\<lambda>it. it\<lparr>ii_match := index\<rparr>)"

definition IndexManager_GetMatch :: "u64 \<Rightarrow> IndexManager \<Rightarrow> RaftIndex \<times> IndexManager" where
  "IndexManager_GetMatch addr m =
     (ii_match (map_at IndexItem_zero addr m), map_upd_at IndexItem_zero addr (\<lambda>it. it) m)"

section \<open>Vote manager\<close>

record VoteItem =
  vi_grant :: bool
  vi_done :: bool
  vi_logok :: bool
  vi_interval_ok :: bool

type_synonym VoteManager = "(u64 \<times> VoteItem) list"

definition VoteItem_zero :: VoteItem where
  "VoteItem_zero = \<lparr>vi_grant = False, vi_done = False, vi_logok = False, vi_interval_ok = False\<rparr>"

definition VoteManager_Reset :: "RaftAddr list \<Rightarrow> VoteManager" where
  "VoteManager_Reset peers = fold (\<lambda>addr. AList.update (RaftAddr_ToU64 addr) VoteItem_zero) peers []"

text \<open>The three majority tests differ in what they count.\<close>

definition vote_count :: "(VoteItem \<Rightarrow> bool) \<Rightarrow> bool \<Rightarrow> VoteManager \<Rightarrow> nat" where
  "vote_count P my_vote votes =
     of_bool my_vote + length (filter (\<lambda>v. P (snd v)) votes)"

definition VoteManager_Majority :: "bool \<Rightarrow> VoteManager \<Rightarrow> bool" where
  "VoteManager_Majority my_vote votes \<longleftrightarrow>
     vote_count vi_grant my_vote votes \<ge> (length votes + 1 + 1) div 2"

definition VoteManager_MajorityLogOK :: "bool \<Rightarrow> VoteManager \<Rightarrow> bool" where
  "VoteManager_MajorityLogOK my_vote votes \<longleftrightarrow>
     vote_count vi_logok my_vote votes \<ge> (length votes + 1 + 1) div 2"

definition VoteManager_MajorityPreVoteOK :: "bool \<Rightarrow> VoteManager \<Rightarrow> bool" where
  "VoteManager_MajorityPreVoteOK my_vote votes \<longleftrightarrow>
     vote_count (\<lambda>v. vi_logok v \<and> vi_interval_ok v) my_vote votes \<ge> (length votes + 1 + 1) div 2"

definition VoteManager_QuorumAll :: "bool \<Rightarrow> VoteManager \<Rightarrow> bool" where
  "VoteManager_QuorumAll my_vote votes =
     (if \<not> my_vote then False else list_all (\<lambda>v. vi_grant (snd v)) votes)"

definition VoteManager_Clear :: "VoteManager \<Rightarrow> VoteManager" where
  "VoteManager_Clear = map_all (\<lambda>v. v\<lparr>vi_grant := False, vi_done := False, vi_logok := False,
                                     vi_interval_ok := False\<rparr>)"

definition VoteManager_GetVote :: "u64 \<Rightarrow> VoteManager \<Rightarrow> VoteManager" where
  "VoteManager_GetVote peer = map_upd_at VoteItem_zero peer (\<lambda>v. v\<lparr>vi_grant := True\<rparr>)"

definition VoteManager_Done :: "u64 \<Rightarrow> VoteManager \<Rightarrow> VoteManager" where
  "VoteManager_Done peer = map_upd_at VoteItem_zero peer (\<lambda>v. v\<lparr>vi_done := True\<rparr>)"

definition VoteManager_LogOK :: "u64 \<Rightarrow> VoteManager \<Rightarrow> VoteManager" where
  "VoteManager_LogOK peer = map_upd_at VoteItem_zero peer (\<lambda>v. v\<lparr>vi_logok := True\<rparr>)"

definition VoteManager_IntervalOK :: "u64 \<Rightarrow> VoteManager \<Rightarrow> VoteManager" where
  "VoteManager_IntervalOK peer = map_upd_at VoteItem_zero peer (\<lambda>v. v\<lparr>vi_interval_ok := True\<rparr>)"

section \<open>Peer manager\<close>

record PeerItem =
  pi_pre_voting :: bool

type_synonym PeerManager = "(u64 \<times> PeerItem) list"

definition PeerManager_Reset :: "RaftAddr list \<Rightarrow> PeerManager" where
  "PeerManager_Reset peers =
     fold (\<lambda>addr. AList.update (RaftAddr_ToU64 addr) \<lparr>pi_pre_voting = False\<rparr>) peers []"

definition PeerManager_ClearPreVoting :: "PeerManager \<Rightarrow> PeerManager" where
  "PeerManager_ClearPreVoting = map_all (\<lambda>v. v\<lparr>pi_pre_voting := False\<rparr>)"

definition PeerManager_Clear :: "PeerManager \<Rightarrow> PeerManager" where
  "PeerManager_Clear m = PeerManager_ClearPreVoting m"

definition PeerManager_SetPreVoting :: "PeerManager \<Rightarrow> PeerManager" where
  "PeerManager_SetPreVoting = map_all (\<lambda>v. v\<lparr>pi_pre_voting := True\<rparr>)"

section \<open>Keys of the managers\<close>

text \<open>Resetting a manager gives it exactly the peers, whatever the item.\<close>

lemma reset_keys:
  "fst ` set (fold (\<lambda>addr. AList.update (RaftAddr_ToU64 addr) it) peers m) =
     RaftAddr_ToU64 ` set peers \<union> fst ` set m"
proof (induction peers arbitrary: m)
  case (Cons a peers)
  have "fst ` set (AList.update (RaftAddr_ToU64 a) it m) = insert (RaftAddr_ToU64 a) (fst ` set m)"
    using dom_update [of "RaftAddr_ToU64 a" it m] by (simp add: dom_map_of_conv_image_fst)
  with Cons show ?case by auto
qed simp

lemma reset_distinct:
  "distinct (map fst m) \<Longrightarrow>
   distinct (map fst (fold (\<lambda>addr. AList.update (RaftAddr_ToU64 addr) it) peers m))"
  by (induction peers arbitrary: m) (simp_all add: distinct_update)

lemma reset_items:
  "(k, v) \<in> set (fold (\<lambda>addr. AList.update (RaftAddr_ToU64 addr) it) peers m) \<Longrightarrow>
   distinct (map fst m) \<Longrightarrow> v = it \<or> (k, v) \<in> set m"
proof (induction peers arbitrary: m)
  case (Cons a peers)
  have "v = it \<or> (k, v) \<in> set (AList.update (RaftAddr_ToU64 a) it m)"
    using Cons by (simp add: distinct_update)
  moreover have "(k, v) \<in> set (AList.update (RaftAddr_ToU64 a) it m) \<Longrightarrow> v = it \<or> (k, v) \<in> set m"
    by (induction m) (auto split: if_splits)
  ultimately show ?case by blast
qed simp

lemma Reset_keys [simp]:
  "fst ` set (IndexManager_Reset peers) = RaftAddr_ToU64 ` set peers"
  "fst ` set (VoteManager_Reset peers) = RaftAddr_ToU64 ` set peers"
  "distinct (map fst (IndexManager_Reset peers))" "distinct (map fst (VoteManager_Reset peers))"
  by (simp_all add: IndexManager_Reset_def VoteManager_Reset_def reset_keys reset_distinct)

section \<open>Counting\<close>

lemma sorted_nth_count:
  fixes xs :: "'a::linorder list"
  assumes "sorted xs" "i < length xs"
  shows "x \<le> xs ! i \<longleftrightarrow> length xs - i \<le> length (filter (\<lambda>y. x \<le> y) xs)"
  using assms
proof (induction xs arbitrary: i)
  case (Cons y ys)
  show ?case
  proof (cases "x \<le> y")
    case True
    then have all: "filter (\<lambda>z. x \<le> z) (y # ys) = y # ys"
      using Cons.prems(1) by (auto simp: filter_id_conv)
    have "x \<le> (y # ys) ! i"
      using True Cons.prems sorted_nth_mono [of "y # ys" 0 i] by simp
    with all show ?thesis by simp
  next
    case False
    show ?thesis
    proof (cases i)
      case 0
      have "length (filter (\<lambda>z. x \<le> z) ys) \<le> length ys" by (rule length_filter_le)
      with False 0 show ?thesis by (simp add: Suc_le_eq not_less)
    next
      case (Suc j)
      with False Cons show ?thesis by simp
    qed
  qed
qed simp

lemma length_filter_sort: "length (filter P (sort xs)) = length (filter P xs)"
  by (simp add: filter_sort)

lemma MajorityMax_iff:
  "x \<le> IndexManager_MajorityMax leader m \<longleftrightarrow>
   (length m + 1) div 2 <
     of_bool (x \<le> leader) + length (filter (\<lambda>item. x \<le> ii_match (snd item)) m)"
proof -
  let ?xs = "leader # map (\<lambda>item. ii_match (snd item)) m"
  have "x \<le> IndexManager_MajorityMax leader m \<longleftrightarrow>
      length ?xs - (length ?xs - 1) div 2 \<le> length (filter (\<lambda>y. x \<le> y) (sort ?xs))"
    unfolding IndexManager_MajorityMax_def Let_def
    using sorted_nth_count [of "sort ?xs" "(length ?xs - 1) div 2" x]
    by (simp only: sorted_sort length_sort) simp
  also have "length (filter (\<lambda>y. x \<le> y) (sort ?xs)) =
      of_bool (x \<le> leader) + length (filter (\<lambda>item. x \<le> ii_match (snd item)) m)"
    unfolding length_filter_sort by (simp add: filter_map o_def)
  finally show ?thesis by auto
qed

section \<open>Quorums\<close>

text \<open>The servers that support a decision: those of the map whose item satisfies \<open>P\<close>, and this
  server when \<open>my\<close> holds.\<close>

definition supporters :: "('i \<Rightarrow> bool) \<Rightarrow> bool \<Rightarrow> u64 \<Rightarrow> (u64 \<times> 'i) list \<Rightarrow> u64 set" where
  "supporters P my me m = (if my then {me} else {}) \<union> fst ` set (filter (\<lambda>x. P (snd x)) m)"

definition members :: "u64 \<Rightarrow> (u64 \<times> 'i) list \<Rightarrow> u64 set" where
  "members me m = insert me (fst ` set m)"

lemma supporters_members: "supporters P my me m \<subseteq> members me m"
  by (auto simp: supporters_def members_def)

lemma card_supporters:
  assumes "distinct (map fst m)" "me \<notin> fst ` set m"
  shows "card (supporters P my me m) = of_bool my + length (filter (\<lambda>x. P (snd x)) m)"
proof -
  have "distinct (map fst (filter (\<lambda>x. P (snd x)) m))" using assms(1) by (rule distinct_map_filter)
  then have "card (fst ` set (filter (\<lambda>x. P (snd x)) m)) = length (filter (\<lambda>x. P (snd x)) m)"
    by (metis distinct_card length_map list.set_map)
  then show ?thesis using assms(2) by (auto simp: supporters_def card_insert_if)
qed

lemma card_members:
  assumes "distinct (map fst m)" "me \<notin> fst ` set m"
  shows "card (members me m) = length m + 1"
  using card_supporters [OF assms, of "\<lambda>_. True" True] by (simp add: supporters_def members_def)

lemma card_meet:
  assumes "finite C" "A \<subseteq> C" "B \<subseteq> C" "card C < card A + card B"
  shows "A \<inter> B \<noteq> {}"
proof
  assume "A \<inter> B = {}"
  then have "card (A \<union> B) = card A + card B"
    using assms by (meson card_Un_disjoint finite_subset)
  moreover have "card (A \<union> B) \<le> card C" using assms by (intro card_mono) auto
  ultimately show False using assms(4) by simp
qed

text \<open>The interface the election and the commit rule rest on: a kind of decision whose supporters
  form a quorum of the cluster, and two kinds of which any two quorums share a server.\<close>

locale meeting_quorums =
  fixes dec1 :: "u64 set \<Rightarrow> u64 set \<Rightarrow> bool"
    and dec2 :: "u64 set \<Rightarrow> u64 set \<Rightarrow> bool"
    and size_ok :: "nat \<Rightarrow> bool"
  assumes supported: "dec1 C Q \<Longrightarrow> Q \<subseteq> C" "dec2 C Q \<Longrightarrow> Q \<subseteq> C"
    and enough: "finite C \<Longrightarrow> size_ok (card C) \<Longrightarrow> dec1 C Q \<Longrightarrow> dec2 C R \<Longrightarrow> card C < card Q + card R"
begin

lemma meet:
  assumes "finite C" "size_ok (card C)" "dec1 C Q" "dec2 C R"
  shows "Q \<inter> R \<noteq> {}"
  by (rule card_meet [OF assms(1)]) (use assms supported enough in auto)

text \<open>Servers that support only one value cannot support two different ones in two quorums.\<close>

lemma agree:
  assumes "finite C" "size_ok (card C)" "dec1 C Q" "dec2 C R"
    and "\<And>s. s \<in> Q \<Longrightarrow> choice s = v" "\<And>s. s \<in> R \<Longrightarrow> choice s = w"
  shows "v = w"
  using meet [OF assms(1-4)] assms(5,6) by fastforce

end

definition vote_quorum :: "u64 set \<Rightarrow> u64 set \<Rightarrow> bool" where
  "vote_quorum C Q \<longleftrightarrow> (\<exists>me my votes. distinct (map fst votes) \<and> me \<notin> fst ` set votes \<and>
     members me votes = C \<and> supporters vi_grant my me votes = Q \<and> VoteManager_Majority my votes)"

definition commit_quorum :: "u64 set \<Rightarrow> u64 set \<Rightarrow> bool" where
  "commit_quorum C Q \<longleftrightarrow> (\<exists>me leader m i. distinct (map fst m) \<and> me \<notin> fst ` set m \<and>
     members me m = C \<and> supporters (\<lambda>it. i \<le> ii_match it) (i \<le> leader) me m = Q \<and>
     i \<le> IndexManager_MajorityMax leader m)"

lemma vote_quorum_card: "vote_quorum C Q \<Longrightarrow> Q \<subseteq> C \<and> (card C + 1) div 2 \<le> card Q"
  using supporters_members
  by (force simp: vote_quorum_def VoteManager_Majority_def vote_count_def card_supporters card_members)

lemma commit_quorum_card: "commit_quorum C Q \<Longrightarrow> Q \<subseteq> C \<and> card C div 2 < card Q"
  using supporters_members
  by (force simp: commit_quorum_def MajorityMax_iff card_supporters card_members)

interpretation elections: meeting_quorums vote_quorum vote_quorum odd
proof unfold_locales
  fix C Q R
  assume "odd (card C)" "vote_quorum C Q" "vote_quorum C R"
  then show "card C < card Q + card R"
    using vote_quorum_card [of C Q] vote_quorum_card [of C R] by (elim oddE) simp
qed (simp_all add: vote_quorum_card)

interpretation commits: meeting_quorums commit_quorum vote_quorum "\<lambda>_. True"
proof (unfold_locales, goal_cases)
  case (3 C Q R)
  then show ?case using vote_quorum_card [of C R] commit_quorum_card [of C Q] by linarith
qed (simp_all add: vote_quorum_card commit_quorum_card)

section \<open>Properties\<close>

text \<open>\<open>MajorityMax\<close> is the commit rule: an index is at most its result exactly when more than
  half of the servers (the leader with its own index and every peer with its match index) have
  reached it.\<close>

theorem MajorityMax_is_majority:
  "x \<le> IndexManager_MajorityMax leader m \<longleftrightarrow>
   (length m + 1) div 2 <
     length (filter (\<lambda>match. x \<le> match) (leader # map (\<lambda>item. ii_match (snd item)) m))"
  by (simp add: MajorityMax_iff filter_map o_def)

text \<open>In a cluster with an odd number of servers two candidates that both hold a majority of
  votes have a voter in common, so servers that grant one vote per term elect at most one of
  them.\<close>

theorem vote_majorities_meet:
  assumes "distinct (map fst votes1)" and "me1 \<notin> fst ` set votes1"
    and "distinct (map fst votes2)" and "me2 \<notin> fst ` set votes2"
    and "members me1 votes1 = members me2 votes2" and "odd (length votes1 + 1)"
    and "VoteManager_Majority my1 votes1" and "VoteManager_Majority my2 votes2"
  shows "supporters vi_grant my1 me1 votes1 \<inter> supporters vi_grant my2 me2 votes2 \<noteq> {}"
proof (rule elections.meet)
  show "finite (members me1 votes1)" by (simp add: members_def)
  show "odd (card (members me1 votes1))" using card_members [OF assms(1,2)] assms(6) by simp
  show "vote_quorum (members me1 votes1) (supporters vi_grant my1 me1 votes1)"
    "vote_quorum (members me1 votes1) (supporters vi_grant my2 me2 votes2)"
    unfolding vote_quorum_def using assms by blast+
qed

theorem vote_majorities_meet_witness:
  "\<exists>(votes1 :: VoteManager) (votes2 :: VoteManager). length votes1 = 2 \<and>
     supporters vi_grant True 1 votes1 \<inter> supporters vi_grant True 2 votes2 \<noteq> {}"
proof -
  let ?yes = "VoteItem_zero\<lparr>vi_grant := True\<rparr>"
  let ?v1 = "[(2, VoteItem_zero), (3, ?yes)] :: VoteManager"
  let ?v2 = "[(1, VoteItem_zero), (3, ?yes)] :: VoteManager"
  have "supporters vi_grant True 1 ?v1 \<inter> supporters vi_grant True 2 ?v2 \<noteq> {}"
    by (rule vote_majorities_meet)
       (auto simp: members_def VoteManager_Majority_def vote_count_def VoteItem_zero_def)
  then show ?thesis by (intro exI [of _ ?v1] exI [of _ ?v2]) simp
qed

text \<open>With an even number of servers the vote threshold is only one half: in a cluster of four,
  two candidates can both pass the majority test with disjoint sets of voters.\<close>

theorem vote_majorities_split_even:
  "\<exists>me1 votes1 me2 votes2. me1 \<noteq> me2 \<and>
     distinct (map fst votes1) \<and> me1 \<notin> fst ` set votes1 \<and>
     distinct (map fst votes2) \<and> me2 \<notin> fst ` set votes2 \<and>
     members me1 votes1 = members me2 votes2 \<and> card (members me1 votes1) = 4 \<and>
     VoteManager_Majority True votes1 \<and> VoteManager_Majority True votes2 \<and>
     supporters vi_grant True me1 votes1 \<inter> supporters vi_grant True me2 votes2 = {}"
proof -
  let ?no = VoteItem_zero and ?yes = "VoteItem_zero\<lparr>vi_grant := True\<rparr>"
  let ?v1 = "[(2, ?yes), (3, ?no), (4, ?no)] :: VoteManager"
  let ?v2 = "[(1, ?no), (2, ?no), (4, ?yes)] :: VoteManager"
  have "members 1 ?v1 = members 3 ?v2" "card (members 1 ?v1) = 4"
    by (auto simp: members_def)
  moreover have "VoteManager_Majority True ?v1" "VoteManager_Majority True ?v2"
    "supporters vi_grant True 1 ?v1 \<inter> supporters vi_grant True 3 ?v2 = {}"
    by (simp_all add: VoteManager_Majority_def vote_count_def VoteItem_zero_def supporters_def)
  ultimately show ?thesis
    by (intro exI [of _ 1] exI [of _ ?v1] exI [of _ 3] exI [of _ ?v2]) simp
qed

text \<open>C21. Whatever the size of the cluster, the servers that have reached a committed index and the
  voters of an elected candidate have a server in common: a new leader hears of every committed
  entry.\<close>

theorem commit_meets_vote:
  assumes "distinct (map fst m)" and "me1 \<notin> fst ` set m"
    and "distinct (map fst votes)" and "me2 \<notin> fst ` set votes"
    and "members me1 m = members me2 votes"
    and "i \<le> IndexManager_MajorityMax leader m" and "VoteManager_Majority my votes"
  shows "supporters (\<lambda>it. i \<le> ii_match it) (i \<le> leader) me1 m \<inter>
    supporters vi_grant my me2 votes \<noteq> {}"
proof (rule commits.meet)
  show "finite (members me1 m)" by (simp add: members_def)
  show "commit_quorum (members me1 m) (supporters (\<lambda>it. i \<le> ii_match it) (i \<le> leader) me1 m)"
    "vote_quorum (members me1 m) (supporters vi_grant my me2 votes)"
    unfolding vote_quorum_def commit_quorum_def using assms by blast+
qed simp

theorem commit_meets_vote_witness:
  "\<exists>(m :: IndexManager) (votes :: VoteManager). length m = 2 \<and>
     supporters (\<lambda>it. 5 \<le> ii_match it) (5 \<le> (7 :: RaftIndex)) 1 m \<inter>
     supporters vi_grant True 2 votes \<noteq> {}"
proof -
  let ?m = "[(2, \<lparr>ii_next = 1, ii_match = 0\<rparr>), (3, \<lparr>ii_next = 6, ii_match = 5\<rparr>)] :: IndexManager"
  let ?v = "[(1, VoteItem_zero), (3, VoteItem_zero\<lparr>vi_grant := True\<rparr>)] :: VoteManager"
  have "supporters (\<lambda>it. 5 \<le> ii_match it) (5 \<le> (7 :: RaftIndex)) 1 ?m \<inter>
      supporters vi_grant True 2 ?v \<noteq> {}"
    by (rule commit_meets_vote)
       (auto simp: members_def MajorityMax_iff VoteManager_Majority_def vote_count_def
         VoteItem_zero_def)
  then show ?thesis by (intro exI [of _ ?m] exI [of _ ?v]) simp
qed

end
