(* ===== verification/SolidData.thy ===== *)
theory SolidData
  imports Coding Leveldb
begin

text \<open>
  The persistent term and vote of a server (src/src/raft/solid_data.h and solid_data.cc): two rows
  of a LevelDB database with the default comparator, written on every change with the default
  write options, that is without \<^verbatim>\<open>sync\<close>.
\<close>

record 'db SolidData =
  sd_term :: u64
  sd_vote :: u64
  sd_db :: 'db

definition kTermKey :: bytes where
  "kTermKey = [0]"

definition kVoteKey :: bytes where
  "kVoteKey = [1]"

text \<open>The constructor leaves term and vote uninitialised; \<^verbatim>\<open>Init\<close> sets both.\<close>

definition SolidData_Init :: "'db leveldb \<Rightarrow> 'db \<Rightarrow> 'db SolidData option" where
  "SolidData_Init L db = do {
     (term, db) \<leftarrow> (case ldb_get L db kTermKey of
        None \<Rightarrow> Some (1, ldb_write L False [Put kTermKey (EncodeFixed64 1)] db)
      | Some value \<Rightarrow> do {
          check (length value = 8);
          term \<leftarrow> DecodeFixed64 value;
          Some (term, db) });
     (vote, db) \<leftarrow> (case ldb_get L db kVoteKey of
        None \<Rightarrow> Some (0, ldb_write L False [Put kVoteKey (EncodeFixed64 0)] db)
      | Some value \<Rightarrow> do {
          check (length value = 8);
          vote \<leftarrow> DecodeFixed64 value;
          Some (vote, db) });
     Some \<lparr>sd_term = term, sd_vote = vote, sd_db = db\<rparr> }"

definition SolidData_PersistTerm :: "'db leveldb \<Rightarrow> 'db SolidData \<Rightarrow> 'db SolidData" where
  "SolidData_PersistTerm L sd =
     sd\<lparr>sd_db := ldb_write L False [Put kTermKey (EncodeFixed64 (sd_term sd))] (sd_db sd)\<rparr>"

definition SolidData_PersistVote :: "'db leveldb \<Rightarrow> 'db SolidData \<Rightarrow> 'db SolidData" where
  "SolidData_PersistVote L sd =
     sd\<lparr>sd_db := ldb_write L False [Put kVoteKey (EncodeFixed64 (sd_vote sd))] (sd_db sd)\<rparr>"

definition SolidData_IncrTerm :: "'db leveldb \<Rightarrow> 'db SolidData \<Rightarrow> 'db SolidData" where
  "SolidData_IncrTerm L sd = SolidData_PersistTerm L (sd\<lparr>sd_term := sd_term sd + 1\<rparr>)"

definition SolidData_SetTerm :: "'db leveldb \<Rightarrow> u64 \<Rightarrow> 'db SolidData \<Rightarrow> 'db SolidData" where
  "SolidData_SetTerm L term sd = SolidData_PersistTerm L (sd\<lparr>sd_term := term\<rparr>)"

definition SolidData_SetVote :: "'db leveldb \<Rightarrow> u64 \<Rightarrow> 'db SolidData \<Rightarrow> 'db SolidData" where
  "SolidData_SetVote L vote sd = SolidData_PersistVote L (sd\<lparr>sd_vote := vote\<rparr>)"

lemmas SolidData_defs = SolidData_IncrTerm_def SolidData_SetTerm_def SolidData_SetVote_def
  SolidData_PersistTerm_def SolidData_PersistVote_def

lemma SolidData_fields [simp, frame_simps]:
  "sd_term (SolidData_IncrTerm L sd) = sd_term sd + 1"
  "sd_vote (SolidData_IncrTerm L sd) = sd_vote sd"
  "sd_term (SolidData_SetTerm L t sd) = t" "sd_vote (SolidData_SetTerm L t sd) = sd_vote sd"
  "sd_term (SolidData_SetVote L v sd) = sd_term sd" "sd_vote (SolidData_SetVote L v sd) = v"
  by (simp_all add: SolidData_defs)

section \<open>What is on disk\<close>

text \<open>The rows agree with the fields.\<close>

definition solid_rep :: "'db leveldb \<Rightarrow> 'db SolidData \<Rightarrow> bool" where
  "solid_rep L sd \<longleftrightarrow>
     ldb_get L (sd_db sd) kTermKey = Some (EncodeFixed64 (sd_term sd)) \<and>
     ldb_get L (sd_db sd) kVoteKey = Some (EncodeFixed64 (sd_vote sd))"

lemma kTermKey_kVoteKey [simp]: "kTermKey \<noteq> kVoteKey" "kVoteKey \<noteq> kTermKey"
  by (simp_all add: kTermKey_def kVoteKey_def)

lemma solid_Init_rep:
  assumes "ldb_get L db kTermKey = Some (EncodeFixed64 t)"
    and "ldb_get L db kVoteKey = Some (EncodeFixed64 v)"
  shows "SolidData_Init L db = Some \<lparr>sd_term = t, sd_vote = v, sd_db = db\<rparr>"
  using assms by (simp add: SolidData_Init_def codec_simps codec_length)

text \<open>The changes a server makes to its term and vote.\<close>

datatype solid_op = IncrTerm | SetTerm u64 | SetVote u64

fun solid_step :: "'db leveldb \<Rightarrow> solid_op \<Rightarrow> 'db SolidData \<Rightarrow> 'db SolidData" where
  "solid_step L IncrTerm sd = SolidData_IncrTerm L sd"
| "solid_step L (SetTerm t) sd = SolidData_SetTerm L t sd"
| "solid_step L (SetVote v) sd = SolidData_SetVote L v sd"

context leveldb_store
begin

lemma solid_step_rep: "solid_rep L sd \<Longrightarrow> solid_rep L (solid_step L op sd)"
  by (cases op) (simp_all add: solid_rep_def SolidData_defs get_write)

lemma solid_steps_rep: "solid_rep L sd \<Longrightarrow> solid_rep L (fold (solid_step L) ops sd)"
  by (induction ops arbitrary: sd) (simp_all add: solid_step_rep)

lemma solid_Init_fresh:
  assumes "ldb_get L db kTermKey = None" "ldb_get L db kVoteKey = None"
  shows "\<exists>sd. SolidData_Init L db = Some sd \<and> sd_term sd = 1 \<and> sd_vote sd = 0 \<and> solid_rep L sd"
  using assms by (simp add: SolidData_Init_def solid_rep_def get_write)

lemma solid_Init_restart: "solid_rep L sd \<Longrightarrow> SolidData_Init L (sd_db sd) = Some sd"
  by (simp add: solid_rep_def solid_Init_rep)

end

section \<open>Properties\<close>

text \<open>C22. Term and vote survive a restart: a fresh database starts with term 1 and no vote, and
  after any sequence of changes \<^verbatim>\<open>Init\<close> on the database gives back exactly the term, the vote and
  the rows the server had.\<close>

theorem term_and_vote_persist:
  assumes "leveldb_store L"
  shows "\<exists>sd. SolidData_Init L (ldb_open L) = Some sd \<and> sd_term sd = 1 \<and> sd_vote sd = 0 \<and>
    (\<forall>ops. SolidData_Init L (sd_db (fold (solid_step L) ops sd)) = Some (fold (solid_step L) ops sd))"
  using leveldb_store.solid_Init_fresh [OF assms leveldb_store.get_open [OF assms] leveldb_store.get_open [OF assms]]
    leveldb_store.solid_steps_rep [OF assms] leveldb_store.solid_Init_restart [OF assms] by blast

theorem term_and_vote_persist_witness:
  "\<exists>sd. SolidData_Init alist_store (ldb_open alist_store) = Some sd \<and>
     SolidData_Init alist_store (sd_db (solid_step alist_store (SetVote 7)
       (solid_step alist_store (SetTerm 5) sd))) =
     Some \<lparr>sd_term = 5, sd_vote = 7, sd_db = sd_db (solid_step alist_store (SetVote 7)
       (solid_step alist_store (SetTerm 5) sd))\<rparr>"
proof -
  obtain sd where sd: "SolidData_Init alist_store (ldb_open alist_store) = Some sd"
    "\<And>ops. SolidData_Init alist_store (sd_db (fold (solid_step alist_store) ops sd)) =
       Some (fold (solid_step alist_store) ops sd)"
    using term_and_vote_persist [OF alist_store.leveldb_store_axioms] by blast
  let ?sd = "fold (solid_step alist_store) [SetTerm 5, SetVote 7] sd"
  have "?sd = \<lparr>sd_term = 5, sd_vote = 7, sd_db = sd_db ?sd\<rparr>" by simp
  with sd(1) sd(2) [of "[SetTerm 5, SetVote 7]"] show ?thesis by (intro exI [of _ sd]) simp
qed

end
