(* ===== verification/Timers.thy ===== *)
theory Timers
  imports RaftConfig
begin

text \<open>
  Timers (src/src/seda/timer.h and timer.cc) over the libuv handle they own, and the
  \<^verbatim>\<open>TimerManager\<close> of a replica (src/src/raft/timer_manager.h and timer_manager.cc): the tick and
  election timers and one request-vote and one heartbeat timer per peer. All of this runs in the
  thread of the event loop, which is alive as long as its timers are used. The handle is
  described by the flags and times that libuv's timer.c keeps; a start of a closing handle fails
  there, and the code asserts that it does not. A null \<^verbatim>\<open>TimerSPtr\<close> is \<open>None\<close>.
\<close>

section \<open>Timers\<close>

text \<open>The callback of a timer: \<^verbatim>\<open>Raft::Init\<close> installs one function per kind, a connector one that connects
  again, and an event loop the one that reports it has started.\<close>

datatype timer_func = tick_func | election_func | requestvote_func | heartbeat_func | TimerConnectCb | Started_func

record Timer =
  t_timeout_ms :: u64
  t_repeat_ms :: u64
  t_cb :: timer_func
  t_repeat_times :: int
  t_repeat_counter :: int
  t_dest_addr :: u64
  uv_active :: bool
  uv_closing :: bool
  uv_timeout :: u64
  uv_repeat :: u64

definition Timer_new :: "u64 \<Rightarrow> u64 \<Rightarrow> timer_func \<Rightarrow> Timer" where
  "Timer_new timeout_ms repeat_ms cb = \<lparr>t_timeout_ms = timeout_ms, t_repeat_ms = repeat_ms, t_cb = cb,
     t_repeat_times = 0, t_repeat_counter = 0, t_dest_addr = 0, uv_active = False, uv_closing = False, uv_timeout = 0, uv_repeat = 0\<rparr>"

definition Timer_set_repeat_times :: "int \<Rightarrow> Timer \<Rightarrow> Timer" where
  "Timer_set_repeat_times repeat_times t = t\<lparr>t_repeat_times := repeat_times, t_repeat_counter := repeat_times\<rparr>"

definition Timer_RepeatDecr :: "Timer \<Rightarrow> Timer" where
  "Timer_RepeatDecr t = t\<lparr>t_repeat_counter := t_repeat_counter t - 1\<rparr>"

definition UvTimerStop :: "Timer \<Rightarrow> Timer" where
  "UvTimerStop t = t\<lparr>uv_active := False\<rparr>"

definition UvTimerStart :: "u64 \<Rightarrow> u64 \<Rightarrow> Timer \<Rightarrow> Timer option" where
  "UvTimerStart timeout rp t =
     (if uv_closing t then None
      else Some (t\<lparr>uv_active := True, uv_timeout := timeout, uv_repeat := rp\<rparr>))"

definition Timer_Start :: "Timer \<Rightarrow> Timer option" where
  "Timer_Start t = UvTimerStart (t_timeout_ms t) (t_repeat_ms t) t"

definition Timer_Stop :: "Timer \<Rightarrow> Timer" where
  "Timer_Stop t = (if \<not> uv_closing t then UvTimerStop t else t)"

definition Timer_Again :: "u64 \<Rightarrow> u64 \<Rightarrow> Timer \<Rightarrow> Timer option" where
  "Timer_Again to_ms rp_ms t = (
     let t = UvTimerStop (t\<lparr>t_timeout_ms := to_ms, t_repeat_ms := rp_ms\<rparr>)
     in UvTimerStart (t_timeout_ms t) (t_repeat_ms t) t)"

definition Timer_Close :: "Timer \<Rightarrow> Timer" where
  "Timer_Close t = (if \<not> uv_closing t then t\<lparr>uv_closing := True, uv_active := False\<rparr> else t)"

text \<open>Before libuv calls the callback of an expired timer it stops the timer and, if it repeats,
  starts it again. Only an active timer expires.\<close>

definition uv_expire :: "Timer \<Rightarrow> Timer option" where
  "uv_expire t =
     (if uv_active t then
        (let t = UvTimerStop t in
         if uv_repeat t \<noteq> 0 then UvTimerStart (uv_repeat t) (uv_repeat t) t else Some t)
      else None)"

section \<open>Random election timeouts\<close>

text \<open>The generator of \<^verbatim>\<open>SimpleRandom\<close> (src/src/util/simple_random.h) is the sequence of its draws,
  which lie between its two bounds.\<close>

record SimpleRandom =
  sr_begin :: u32
  sr_end :: u32
  sr_gen :: "nat \<Rightarrow> u32"

definition SimpleRandom_Get :: "SimpleRandom \<Rightarrow> u32 \<times> SimpleRandom" where
  "SimpleRandom_Get r = (sr_gen r 0, r\<lparr>sr_gen := \<lambda>n. sr_gen r (Suc n)\<rparr>)"

definition random_ok :: "SimpleRandom \<Rightarrow> bool" where
  "random_ok r \<longleftrightarrow> (\<forall>n. sr_begin r \<le> sr_gen r n \<and> sr_gen r n \<le> sr_end r)"

section \<open>Timer manager\<close>

type_synonym timer_map = "(u64 \<times> Timer option) list"

record TimerManager =
  tm_tick :: "Timer option"
  tm_election :: "Timer option"
  tm_request_votes :: timer_map
  tm_heartbeats :: timer_map
  tm_tick_ms :: u32
  tm_election_ms :: u32
  tm_request_vote_ms :: u32
  tm_heartbeat_ms :: u32
  tm_random_election_ms :: SimpleRandom
  tm_last_election_ms :: u32
  tm_next_election_ms :: u32
  tm_maketimer_func :: bool

definition TimerManager_Reset :: "RaftAddr list \<Rightarrow> TimerManager \<Rightarrow> TimerManager" where
  "TimerManager_Reset peers tm =
     (let nulls = fold (\<lambda>addr. AList.update (RaftAddr_ToU64 addr) None) peers []
      in tm\<lparr>tm_request_votes := nulls, tm_heartbeats := nulls\<rparr>)"

definition TimerManager_new :: "(nat \<Rightarrow> u32) \<Rightarrow> RaftAddr list \<Rightarrow> TimerManager" where
  "TimerManager_new gen peers = TimerManager_Reset peers
     \<lparr>tm_tick = None, tm_election = None, tm_request_votes = [], tm_heartbeats = [],
      tm_tick_ms = 1000, tm_election_ms = 2000, tm_request_vote_ms = 1000, tm_heartbeat_ms = 500,
      tm_random_election_ms = \<lparr>sr_begin = 2000, sr_end = 2 * 2000, sr_gen = gen\<rparr>,
      tm_last_election_ms = 0, tm_next_election_ms = 0, tm_maketimer_func = False\<rparr>"

subsection \<open>Making timers\<close>

definition TimerManager_MakeTick :: "TimerManager \<Rightarrow> TimerManager option" where
  "TimerManager_MakeTick tm = do {
     check (tm_maketimer_func tm);
     Some (tm\<lparr>tm_tick := Some (Timer_new 0 (ucast (tm_tick_ms tm)) tick_func)\<rparr>) }"

definition TimerManager_MakeElection :: "TimerManager \<Rightarrow> TimerManager option" where
  "TimerManager_MakeElection tm = do {
     check (tm_maketimer_func tm);
     let (ms, rand) = SimpleRandom_Get (tm_random_election_ms tm);
     Some (tm\<lparr>tm_random_election_ms := rand,
              tm_election := Some (Timer_new (ucast ms) 0 election_func)\<rparr>) }"

definition TimerManager_CreateRpcTimer :: "u64 \<Rightarrow> TimerManager \<Rightarrow> Timer option" where
  "TimerManager_CreateRpcTimer dest tm = do {
     check (tm_maketimer_func tm);
     Some ((Timer_new 0 (ucast (tm_request_vote_ms tm)) requestvote_func)\<lparr>t_dest_addr := dest\<rparr>) }"

definition TimerManager_CreateHeartbeatTimer :: "u64 \<Rightarrow> TimerManager \<Rightarrow> Timer option" where
  "TimerManager_CreateHeartbeatTimer dest tm = do {
     check (tm_maketimer_func tm);
     Some ((Timer_new 0 (ucast (tm_heartbeat_ms tm)) heartbeat_func)\<lparr>t_dest_addr := dest\<rparr>) }"

definition TimerManager_AddRpcTimer :: "u64 \<Rightarrow> Timer \<Rightarrow> TimerManager \<Rightarrow> TimerManager option" where
  "TimerManager_AddRpcTimer dest sptr tm = do {
     check (map_of (tm_request_votes tm) dest = None);
     check (dest = t_dest_addr sptr);
     Some (tm\<lparr>tm_request_votes := AList.update dest (Some sptr) (tm_request_votes tm)\<rparr>) }"

definition TimerManager_AddHeartbeatTimer :: "u64 \<Rightarrow> Timer \<Rightarrow> TimerManager \<Rightarrow> TimerManager option" where
  "TimerManager_AddHeartbeatTimer dest sptr tm = do {
     check (map_of (tm_heartbeats tm) dest = None);
     check (dest = t_dest_addr sptr);
     Some (tm\<lparr>tm_heartbeats := AList.update dest (Some sptr) (tm_heartbeats tm)\<rparr>) }"

definition TimerManager_DeleteRpcTimer :: "u64 \<Rightarrow> TimerManager \<Rightarrow> TimerManager" where
  "TimerManager_DeleteRpcTimer dest tm =
     tm\<lparr>tm_request_votes := AList.delete dest (tm_request_votes tm)\<rparr>"

definition TimerManager_DeleteHeartBeat :: "u64 \<Rightarrow> TimerManager \<Rightarrow> TimerManager" where
  "TimerManager_DeleteHeartBeat dest tm =
     tm\<lparr>tm_heartbeats := AList.delete dest (tm_heartbeats tm)\<rparr>"

fun make_all :: "(u64 \<Rightarrow> Timer option) \<Rightarrow> timer_map \<Rightarrow> timer_map option" where
  "make_all mk [] = Some []"
| "make_all mk ((addr, _) # m) = do {
     sptr \<leftarrow> mk addr;
     m \<leftarrow> make_all mk m;
     Some ((addr, Some sptr) # m) }"

definition TimerManager_MakeElectionPpc :: "TimerManager \<Rightarrow> TimerManager option" where
  "TimerManager_MakeElectionPpc tm = do {
     m \<leftarrow> make_all (\<lambda>addr. TimerManager_CreateRpcTimer addr tm) (tm_request_votes tm);
     Some (tm\<lparr>tm_request_votes := m\<rparr>) }"

definition TimerManager_MakeHeartbeat :: "TimerManager \<Rightarrow> TimerManager option" where
  "TimerManager_MakeHeartbeat tm = do {
     m \<leftarrow> make_all (\<lambda>addr. TimerManager_CreateHeartbeatTimer addr tm) (tm_heartbeats tm);
     Some (tm\<lparr>tm_heartbeats := m\<rparr>) }"

definition TimerManager_MakeTimer :: "TimerManager \<Rightarrow> TimerManager option" where
  "TimerManager_MakeTimer tm = do {
     tm \<leftarrow> TimerManager_MakeTick tm;
     tm \<leftarrow> TimerManager_MakeElection tm;
     tm \<leftarrow> TimerManager_MakeElectionPpc tm;
     TimerManager_MakeHeartbeat tm }"

subsection \<open>Starting and stopping\<close>

text \<open>The loops over a map of timers, and the operations on the timer of one peer, skip null
  pointers and missing peers.\<close>

fun each_timer :: "(Timer \<Rightarrow> Timer option) \<Rightarrow> timer_map \<Rightarrow> timer_map option" where
  "each_timer f [] = Some []"
| "each_timer f ((addr, None) # m) = do { m \<leftarrow> each_timer f m; Some ((addr, None) # m) }"
| "each_timer f ((addr, Some t) # m) = do {
     t \<leftarrow> f t;
     m \<leftarrow> each_timer f m;
     Some ((addr, Some t) # m) }"

definition at_timer :: "(Timer \<Rightarrow> Timer option) \<Rightarrow> u64 \<Rightarrow> timer_map \<Rightarrow> timer_map option" where
  "at_timer f addr m = (case map_of m addr of
      Some (Some t) \<Rightarrow> do { t \<leftarrow> f t; Some (AList.update addr (Some t) m) }
    | _ \<Rightarrow> Some m)"

definition TimerManager_StartTick :: "TimerManager \<Rightarrow> TimerManager option" where
  "TimerManager_StartTick tm = do {
     t \<leftarrow> tm_tick tm;
     t \<leftarrow> Timer_Start t;
     Some (tm\<lparr>tm_tick := Some t\<rparr>) }"

definition TimerManager_StartElection :: "TimerManager \<Rightarrow> TimerManager option" where
  "TimerManager_StartElection tm = do {
     let (ms, rand) = SimpleRandom_Get (tm_random_election_ms tm);
     t \<leftarrow> tm_election tm;
     t \<leftarrow> Timer_Again 0 (ucast ms) t;
     Some (tm\<lparr>tm_random_election_ms := rand, tm_next_election_ms := ms, tm_election := Some t\<rparr>) }"

definition TimerManager_AgainElection :: "TimerManager \<Rightarrow> TimerManager option" where
  "TimerManager_AgainElection tm = do {
     let (ms, rand) = SimpleRandom_Get (tm_random_election_ms tm);
     t \<leftarrow> tm_election tm;
     t \<leftarrow> Timer_Again (ucast ms) 0 t;
     Some (tm\<lparr>tm_random_election_ms := rand, tm_last_election_ms := tm_next_election_ms tm,
              tm_next_election_ms := ms, tm_election := Some t\<rparr>) }"

definition TimerManager_StartRequestVote :: "TimerManager \<Rightarrow> TimerManager option" where
  "TimerManager_StartRequestVote tm = do {
     m \<leftarrow> each_timer Timer_Start (tm_request_votes tm);
     Some (tm\<lparr>tm_request_votes := m\<rparr>) }"

definition TimerManager_StartRequestVote_peer :: "u64 \<Rightarrow> TimerManager \<Rightarrow> TimerManager option" where
  "TimerManager_StartRequestVote_peer addr tm = do {
     m \<leftarrow> at_timer Timer_Start addr (tm_request_votes tm);
     Some (tm\<lparr>tm_request_votes := m\<rparr>) }"

definition TimerManager_StartHeartBeat :: "TimerManager \<Rightarrow> TimerManager option" where
  "TimerManager_StartHeartBeat tm = do {
     m \<leftarrow> each_timer (Timer_Again 0 (ucast (tm_heartbeat_ms tm))) (tm_heartbeats tm);
     Some (tm\<lparr>tm_heartbeats := m\<rparr>) }"

definition TimerManager_StartHeartBeat_peer :: "u64 \<Rightarrow> TimerManager \<Rightarrow> TimerManager option" where
  "TimerManager_StartHeartBeat_peer addr tm = do {
     m \<leftarrow> at_timer (Timer_Again 0 (ucast (tm_heartbeat_ms tm))) addr (tm_heartbeats tm);
     Some (tm\<lparr>tm_heartbeats := m\<rparr>) }"

definition TimerManager_AgainHeartBeat :: "TimerManager \<Rightarrow> TimerManager option" where
  "TimerManager_AgainHeartBeat tm = do {
     m \<leftarrow> each_timer (Timer_Again (ucast (tm_heartbeat_ms tm)) (ucast (tm_heartbeat_ms tm)))
            (tm_heartbeats tm);
     Some (tm\<lparr>tm_heartbeats := m\<rparr>) }"

definition TimerManager_AgainHeartBeat_peer :: "u64 \<Rightarrow> TimerManager \<Rightarrow> TimerManager option" where
  "TimerManager_AgainHeartBeat_peer addr tm = do {
     m \<leftarrow> at_timer (Timer_Again (ucast (tm_heartbeat_ms tm)) (ucast (tm_heartbeat_ms tm)))
            addr (tm_heartbeats tm);
     Some (tm\<lparr>tm_heartbeats := m\<rparr>) }"

definition TimerManager_StopTick :: "TimerManager \<Rightarrow> TimerManager option" where
  "TimerManager_StopTick tm = do { t \<leftarrow> tm_tick tm; Some (tm\<lparr>tm_tick := Some (Timer_Stop t)\<rparr>) }"

definition TimerManager_StopElection :: "TimerManager \<Rightarrow> TimerManager option" where
  "TimerManager_StopElection tm = do {
     t \<leftarrow> tm_election tm;
     Some (tm\<lparr>tm_election := Some (Timer_Stop t)\<rparr>) }"

definition TimerManager_StopRequestVote :: "TimerManager \<Rightarrow> TimerManager" where
  "TimerManager_StopRequestVote tm =
     tm\<lparr>tm_request_votes := map_all (map_option Timer_Stop) (tm_request_votes tm)\<rparr>"

definition TimerManager_StopRequestVote_peer :: "u64 \<Rightarrow> TimerManager \<Rightarrow> TimerManager option" where
  "TimerManager_StopRequestVote_peer addr tm = do {
     m \<leftarrow> at_timer (\<lambda>t. Some (Timer_Stop t)) addr (tm_request_votes tm);
     Some (tm\<lparr>tm_request_votes := m\<rparr>) }"

definition TimerManager_StopHeartBeat :: "TimerManager \<Rightarrow> TimerManager" where
  "TimerManager_StopHeartBeat tm =
     tm\<lparr>tm_heartbeats := map_all (map_option Timer_Stop) (tm_heartbeats tm)\<rparr>"

definition TimerManager_StopHeartBeat_peer :: "u64 \<Rightarrow> TimerManager \<Rightarrow> TimerManager option" where
  "TimerManager_StopHeartBeat_peer addr tm = do {
     m \<leftarrow> at_timer (\<lambda>t. Some (Timer_Stop t)) addr (tm_heartbeats tm);
     Some (tm\<lparr>tm_heartbeats := m\<rparr>) }"

definition TimerManager_Stop :: "TimerManager \<Rightarrow> TimerManager option" where
  "TimerManager_Stop tm = do {
     tm \<leftarrow> TimerManager_StopTick tm;
     tm \<leftarrow> TimerManager_StopElection tm;
     let tm = TimerManager_StopRequestVote tm;
     Some (TimerManager_StopHeartBeat tm) }"

subsection \<open>Closing\<close>

definition TimerManager_CloseTick :: "TimerManager \<Rightarrow> TimerManager option" where
  "TimerManager_CloseTick tm = do { t \<leftarrow> tm_tick tm; Some (tm\<lparr>tm_tick := Some (Timer_Close t)\<rparr>) }"

definition TimerManager_CloseElection :: "TimerManager \<Rightarrow> TimerManager option" where
  "TimerManager_CloseElection tm = do {
     t \<leftarrow> tm_election tm;
     Some (tm\<lparr>tm_election := Some (Timer_Close t)\<rparr>) }"

definition TimerManager_CloseRequestVote :: "TimerManager \<Rightarrow> TimerManager" where
  "TimerManager_CloseRequestVote tm =
     tm\<lparr>tm_request_votes := map_all (map_option Timer_Close) (tm_request_votes tm)\<rparr>"

definition TimerManager_CloseRequestVote_peer :: "u64 \<Rightarrow> TimerManager \<Rightarrow> TimerManager option" where
  "TimerManager_CloseRequestVote_peer addr tm = do {
     m \<leftarrow> at_timer (\<lambda>t. Some (Timer_Close t)) addr (tm_request_votes tm);
     Some (tm\<lparr>tm_request_votes := m\<rparr>) }"

definition TimerManager_CloseHeartBeat :: "TimerManager \<Rightarrow> TimerManager" where
  "TimerManager_CloseHeartBeat tm =
     tm\<lparr>tm_heartbeats := map_all (map_option Timer_Close) (tm_heartbeats tm)\<rparr>"

definition TimerManager_CloseHeartBeat_peer :: "u64 \<Rightarrow> TimerManager \<Rightarrow> TimerManager option" where
  "TimerManager_CloseHeartBeat_peer addr tm = do {
     m \<leftarrow> at_timer (\<lambda>t. Some (Timer_Close t)) addr (tm_heartbeats tm);
     Some (tm\<lparr>tm_heartbeats := m\<rparr>) }"

definition TimerManager_Close :: "TimerManager \<Rightarrow> TimerManager option" where
  "TimerManager_Close tm = do {
     tm \<leftarrow> TimerManager_CloseTick tm;
     tm \<leftarrow> TimerManager_CloseElection tm;
     let tm = TimerManager_CloseRequestVote tm;
     Some (TimerManager_CloseHeartBeat tm) }"

end
