(* ===== verification/Raft.thy ===== *)
theory Raft
  imports Messages RaftLog Quorum SolidData Timers
begin

text \<open>
  A replica (src/src/raft/raft.h, raft.cc and raft_core.cc): its state, start and stop, the
  configuration changes its log reports to it, the role changes, the commit rule and the
  application of committed entries. Every operation takes the replica and returns the changed
  one; \<open>None\<close> is a failed \<^verbatim>\<open>assert\<close> or a null pointer that is followed.

  LevelDB (\<open>L\<close>) and the state machine with its snapshots (\<open>S\<close>, the functions installed with
  \<^verbatim>\<open>set_create_sm\<close>, \<^verbatim>\<open>set_reader_sm\<close> and \<^verbatim>\<open>set_writer_sm\<close> and the virtual methods of what they
  create) are arguments. The clock and the unique ids are sequences of readings that the replica
  consumes; the random election timeouts are in its \<^verbatim>\<open>TimerManager\<close>. Messages handed to \<^verbatim>\<open>send_\<close>
  collect in an outbox. Tracing, logging, JSON and the configuration file are not modelled.
\<close>

section \<open>State machine and snapshots\<close>

text \<open>\<open>so_create\<close>, \<open>so_create_reader\<close> and \<open>so_create_writer\<close> are \<open>None\<close> when no function is
  installed, and their results are \<open>None\<close> when the function returns a null pointer. \<open>'dir\<close> is what
  a directory holds: \<open>so_dir\<close> of the directory of a state machine, \<open>wr_dir\<close> of a finished
  snapshot.\<close>

record ('sm, 'dir, 'rd, 'wr) sm_ops =
  so_create :: "('dir \<Rightarrow> 'sm option) option"
  so_dir :: "'sm \<Rightarrow> 'dir"
  so_Restore :: "'sm \<Rightarrow> 'sm"
  so_Apply :: "LogEntry \<Rightarrow> RaftAddr \<Rightarrow> 'sm \<Rightarrow> int \<times> 'sm"
  so_LastIndex :: "'sm \<Rightarrow> RaftIndex"
  so_LastTerm :: "'sm \<Rightarrow> RaftTerm"
  so_Get :: "bytes \<Rightarrow> 'sm \<Rightarrow> int \<times> bytes"
  so_create_reader :: "('dir \<Rightarrow> int \<Rightarrow> 'rd option) option"
  rd_last_index :: "'rd \<Rightarrow> RaftIndex"
  rd_last_term :: "'rd \<Rightarrow> RaftTerm"
  rd_offset :: "'rd \<Rightarrow> u32"
  rd_data :: "'rd \<Rightarrow> bytes"
  rd_done :: "'rd \<Rightarrow> bool"
  rd_Read :: "'rd \<Rightarrow> int \<times> 'rd"
  so_create_writer :: "(RaftIndex \<Rightarrow> RaftTerm \<Rightarrow> 'wr option) option"
  wr_last_index :: "'wr \<Rightarrow> RaftIndex"
  wr_last_term :: "'wr \<Rightarrow> RaftTerm"
  wr_stored :: "'wr \<Rightarrow> u32"
  wr_Write :: "bytes \<Rightarrow> 'wr \<Rightarrow> int \<times> 'wr"
  wr_Finish :: "'wr \<Rightarrow> int \<times> 'wr"
  wr_dir :: "'wr \<Rightarrow> 'dir"

record ('rd, 'wr) Snapshot =
  sn_reader :: "'rd option"
  sn_writer :: "'wr option"

type_synonym ('rd, 'wr) SnapshotManager = "(u64 \<times> ('rd, 'wr) Snapshot) list"

definition Snapshot_null :: "('rd, 'wr) Snapshot" where
  "Snapshot_null = \<lparr>sn_reader = None, sn_writer = None\<rparr>"

definition SnapshotManager_Reset :: "RaftAddr list \<Rightarrow> ('rd, 'wr) SnapshotManager" where
  "SnapshotManager_Reset peers =
     fold (\<lambda>addr. AList.update (RaftAddr_ToU64 addr) Snapshot_null) peers []"

section \<open>The replica\<close>

datatype State = STATE_FOLLOWER | STATE_CANDIDATE | STATE_LEADER | STATE_STANDBY | STATE_ERROR

text \<open>The messages a replica sends.\<close>

datatype Msg =
    MPing Ping
  | MPingReply PingReply
  | MRequestVote RequestVote
  | MRequestVoteReply RequestVoteReply
  | MAppendEntries AppendEntries
  | MAppendEntriesReply AppendEntriesReply
  | MInstallSnapshot InstallSnapshot
  | MInstallSnapshotReply InstallSnapshotReply
  | MTimeoutNow TimeoutNow

record ('db, 'sm, 'dir, 'rd, 'wr) Raft =
  r_started :: bool
  r_state :: State
  r_commit :: RaftIndex
  r_last_apply :: RaftIndex
  r_log :: "'db RaftLog"
  r_meta :: "'db SolidData"
  r_leader :: RaftAddr
  r_config_mgr :: ConfigManager
  r_vote_mgr :: VoteManager
  r_index_mgr :: IndexManager
  r_sm :: "'sm option"
  r_sm_dir :: 'dir
  r_snapshot_mgr :: "('rd, 'wr) SnapshotManager"
  r_timer_mgr :: TimerManager
  r_send :: bool
  r_make_timer :: bool
  r_enable_send :: bool
  r_enable_recv :: bool
  r_leader_times :: nat
  r_enable_pre_vote :: bool
  r_pre_voting :: bool
  r_leader_transfer :: bool
  r_transfer_max_term :: RaftTerm
  r_interval_check :: bool
  r_last_heartbeat_timestamp :: int
  r_changing_index :: RaftIndex
  r_standby :: bool
  r_clock :: "nat \<Rightarrow> int"
  r_uids :: "nat \<Rightarrow> u32"
  r_outbox :: "(u64 \<times> Msg) list"

definition INT64_MAX :: int where
  "INT64_MAX = 2 ^ 63 - 1"

abbreviation r_term :: "('db, 'sm, 'dir, 'rd, 'wr) Raft \<Rightarrow> RaftTerm" where
  "r_term r \<equiv> sd_term (r_meta r)"

abbreviation r_vote :: "('db, 'sm, 'dir, 'rd, 'wr) Raft \<Rightarrow> u64" where
  "r_vote r \<equiv> sd_vote (r_meta r)"

text \<open>The constructor, on the databases and the state machine directory found on disk; the term
  and the vote in \<open>meta\<close> are not initialised yet.\<close>

definition Raft_new :: "'db \<Rightarrow> 'db \<Rightarrow> 'db SolidData \<Rightarrow> 'dir \<Rightarrow> (nat \<Rightarrow> u32) \<Rightarrow> (nat \<Rightarrow> int) \<Rightarrow>
    (nat \<Rightarrow> u32) \<Rightarrow> RaftConfig \<Rightarrow> ('db, 'sm, 'dir, 'rd, 'wr) Raft" where
  "Raft_new log_db config_db meta dir gen clock uids rc =
     \<lparr>r_started = False, r_state = STATE_FOLLOWER, r_commit = 0, r_last_apply = 0,
      r_log = RaftLog_new log_db config_db, r_meta = meta, r_leader = RaftAddr_FromU64 0,
      r_config_mgr = ConfigManager_new rc, r_vote_mgr = VoteManager_Reset (rc_peers rc),
      r_index_mgr = IndexManager_Reset (rc_peers rc), r_sm = None, r_sm_dir = dir,
      r_snapshot_mgr = SnapshotManager_Reset (rc_peers rc),
      r_timer_mgr = TimerManager_new gen (rc_peers rc), r_send = False, r_make_timer = False,
      r_enable_send = True, r_enable_recv = True, r_leader_times = 0, r_enable_pre_vote = False,
      r_pre_voting = False, r_leader_transfer = False, r_transfer_max_term = 0,
      r_interval_check = True, r_last_heartbeat_timestamp = 0, r_changing_index = 0,
      r_standby = False, r_clock = clock, r_uids = uids, r_outbox = []\<rparr>"

definition Raft_Me :: "('db, 'sm, 'dir, 'rd, 'wr) Raft \<Rightarrow> RaftAddr" where
  "Raft_Me r = rc_me (cm_current (r_config_mgr r))"

definition Raft_Peers :: "('db, 'sm, 'dir, 'rd, 'wr) Raft \<Rightarrow> RaftAddr list" where
  "Raft_Peers r = rc_peers (cm_current (r_config_mgr r))"

definition Raft_IfSelfVote :: "('db, 'sm, 'dir, 'rd, 'wr) Raft \<Rightarrow> bool" where
  "Raft_IfSelfVote r \<longleftrightarrow> r_vote r = RaftAddr_ToU64 (Raft_Me r)"

text \<open>Reading the clock, and a unique id.\<close>

definition NSec :: "('db, 'sm, 'dir, 'rd, 'wr) Raft \<Rightarrow> int \<times> ('db, 'sm, 'dir, 'rd, 'wr) Raft" where
  "NSec r = (r_clock r 0, r\<lparr>r_clock := \<lambda>n. r_clock r (Suc n)\<rparr>)"

definition UniqId :: "('db, 'sm, 'dir, 'rd, 'wr) Raft \<Rightarrow> u32 \<times> ('db, 'sm, 'dir, 'rd, 'wr) Raft" where
  "UniqId r = (r_uids r 0, r\<lparr>r_uids := \<lambda>n. r_uids r (Suc n)\<rparr>)"

section \<open>Sending\<close>

text \<open>The bytes of a message with its header, as every \<^verbatim>\<open>Send\<close> function makes them.\<close>

fun wire :: "Msg \<Rightarrow> bytes option" where
  "wire (MPing m) = Ping_ToString m (Ping_MaxBytes m) \<bind> frame kPing"
| "wire (MPingReply m) = PingReply_ToString m (PingReply_MaxBytes m) \<bind> frame kPingReply"
| "wire (MRequestVote m) = RequestVote_ToString m (RequestVote_MaxBytes m) \<bind> frame kRequestVote"
| "wire (MRequestVoteReply m) =
     RequestVoteReply_ToString m (RequestVoteReply_MaxBytes m) \<bind> frame kRequestVoteReply"
| "wire (MAppendEntries m) =
     AppendEntries_ToString m (AppendEntries_MaxBytes m) \<bind> frame kAppendEntries"
| "wire (MAppendEntriesReply m) =
     AppendEntriesReply_ToString m (AppendEntriesReply_MaxBytes m) \<bind> frame kAppendEntriesReply"
| "wire (MInstallSnapshot m) =
     InstallSnapshot_ToString m (InstallSnapshot_MaxBytes m) \<bind> frame kInstallSnapshot"
| "wire (MInstallSnapshotReply m) =
     InstallSnapshotReply_ToString m (InstallSnapshotReply_MaxBytes m) \<bind> frame kInstallSnapshotReply"
| "wire (MTimeoutNow m) = TimeoutNow_ToString m (TimeoutNow_MaxBytes m) \<bind> frame kTimeoutNow"

text \<open>The common end of the \<^verbatim>\<open>Send\<close> functions: encode, then call \<^verbatim>\<open>send_\<close> if it is set. Its result
  is only traced.\<close>

definition Raft_send :: "u64 \<Rightarrow> Msg \<Rightarrow> ('db, 'sm, 'dir, 'rd, 'wr) Raft \<Rightarrow>
    ('db, 'sm, 'dir, 'rd, 'wr) Raft option" where
  "Raft_send dest m r = do {
     wire m;
     Some (if r_send r then r\<lparr>r_outbox := r_outbox r @ [(dest, m)]\<rparr> else r) }"

definition Raft_SendPing :: "u64 \<Rightarrow> ('db, 'sm, 'dir, 'rd, 'wr) Raft \<Rightarrow>
    ('db, 'sm, 'dir, 'rd, 'wr) Raft option" where
  "Raft_SendPing dest r = do {
     let (uid, r) = UniqId r;
     let (send_ts, r) = NSec r;
     Raft_send dest (MPing \<lparr>pg_src = Raft_Me r, pg_dest = RaftAddr_FromU64 dest, pg_uid = uid,
       pg_send_ts = of_int send_ts, pg_elapse = 0, pg_msg = [0x70, 0x69, 0x6E, 0x67]\<rparr>) r }"

section \<open>Index and term of the last entry\<close>

definition Raft_LastIndex :: "('sm, 'dir, 'rd, 'wr) sm_ops \<Rightarrow> ('db, 'sm, 'dir, 'rd, 'wr) Raft \<Rightarrow>
    RaftIndex" where
  "Raft_LastIndex S r =
     (let snapshot_last = (case r_sm r of None \<Rightarrow> 0 | Some sm \<Rightarrow> so_LastIndex S sm);
          log_last = rl_last (r_log r)
      in max snapshot_last log_last)"

definition Raft_LastTerm :: "'db leveldb \<Rightarrow> ('sm, 'dir, 'rd, 'wr) sm_ops \<Rightarrow>
    ('db, 'sm, 'dir, 'rd, 'wr) Raft \<Rightarrow> RaftTerm option" where
  "Raft_LastTerm L S r =
     (let snapshot_last = (case r_sm r of None \<Rightarrow> 0 | Some sm \<Rightarrow> so_LastIndex S sm);
          log_last = rl_last (r_log r)
      in if log_last \<ge> snapshot_last then
           (if log_last = 0 then Some 0
            else do {
              ptr \<leftarrow> RaftLog_LastMeta L (r_log r);
              meta \<leftarrow> ptr;
              Some (mv_term meta) })
         else do {
           sm \<leftarrow> r_sm r;
           Some (so_LastTerm S sm) })"

definition Raft_GetTerm :: "'db leveldb \<Rightarrow> ('sm, 'dir, 'rd, 'wr) sm_ops \<Rightarrow> RaftIndex \<Rightarrow>
    ('db, 'sm, 'dir, 'rd, 'wr) Raft \<Rightarrow> RaftTerm option" where
  "Raft_GetTerm L S index r =
     (if index = 0 then Some 0
      else do {
        rv \<leftarrow> RaftLog_GetMeta L (r_log r) index;
        (case rv of
           Some meta \<Rightarrow> Some (mv_term meta)
         | None \<Rightarrow> do { sm \<leftarrow> r_sm r; Some (so_LastTerm S sm) }) })"

section \<open>Configuration changes\<close>

definition Raft_ResetManagerPeers :: "RaftAddr list \<Rightarrow> ('db, 'sm, 'dir, 'rd, 'wr) Raft \<Rightarrow>
    ('db, 'sm, 'dir, 'rd, 'wr) Raft" where
  "Raft_ResetManagerPeers peers r =
     r\<lparr>r_index_mgr := IndexManager_Reset peers, r_vote_mgr := VoteManager_Reset peers,
       r_snapshot_mgr := SnapshotManager_Reset peers,
       r_timer_mgr := TimerManager_Reset peers (r_timer_mgr r)\<rparr>"

text \<open>The heartbeat timer of a new peer is started through the pointer that the map holds too.\<close>

definition Raft_AddPeer :: "('sm, 'dir, 'rd, 'wr) sm_ops \<Rightarrow> RaftAddr \<Rightarrow>
    ('db, 'sm, 'dir, 'rd, 'wr) Raft \<Rightarrow> ('db, 'sm, 'dir, 'rd, 'wr) Raft option" where
  "Raft_AddPeer S addr r = do {
     let a = RaftAddr_ToU64 addr;
     let item = (if r_state r = STATE_LEADER
                 then \<lparr>ii_next = Raft_LastIndex S r + 1, ii_match = 0\<rparr>
                 else \<lparr>ii_next = 1, ii_match = 0\<rparr>);
     let r = r\<lparr>r_index_mgr := AList.update a item (r_index_mgr r),
               r_vote_mgr := AList.update a VoteItem_zero (r_vote_mgr r),
               r_snapshot_mgr := AList.update a Snapshot_null (r_snapshot_mgr r)\<rparr>;
     let tm = r_timer_mgr r;
     sptr \<leftarrow> TimerManager_CreateRpcTimer a tm;
     tm \<leftarrow> TimerManager_AddRpcTimer a sptr tm;
     sptr \<leftarrow> TimerManager_CreateHeartbeatTimer a tm;
     tm \<leftarrow> TimerManager_AddHeartbeatTimer a sptr tm;
     tm \<leftarrow> (if r_state r = STATE_LEADER then TimerManager_StartHeartBeat_peer a tm else Some tm);
     Some (r\<lparr>r_timer_mgr := tm\<rparr>) }"

definition Raft_DeletePeer :: "RaftAddr \<Rightarrow> ('db, 'sm, 'dir, 'rd, 'wr) Raft \<Rightarrow>
    ('db, 'sm, 'dir, 'rd, 'wr) Raft option" where
  "Raft_DeletePeer addr r = do {
     let a = RaftAddr_ToU64 addr;
     let r = r\<lparr>r_index_mgr := AList.delete a (r_index_mgr r),
               r_vote_mgr := AList.delete a (r_vote_mgr r),
               r_snapshot_mgr := AList.delete a (r_snapshot_mgr r)\<rparr>;
     tm \<leftarrow> TimerManager_CloseRequestVote_peer a (r_timer_mgr r);
     let tm = TimerManager_DeleteRpcTimer a tm;
     tm \<leftarrow> TimerManager_CloseHeartBeat_peer a tm;
     let tm = TimerManager_DeleteHeartBeat a tm;
     Some (r\<lparr>r_timer_mgr := tm\<rparr>) }"

fun add_nodes :: "('sm, 'dir, 'rd, 'wr) sm_ops \<Rightarrow> RaftAddr list \<Rightarrow> RaftConfig \<Rightarrow>
    ('db, 'sm, 'dir, 'rd, 'wr) Raft \<Rightarrow> (RaftConfig \<times> ('db, 'sm, 'dir, 'rd, 'wr) Raft) option" where
  "add_nodes S [] c r = Some (c, r)"
| "add_nodes S (node # nodes) c r = do {
     r \<leftarrow> Raft_AddPeer S node r;
     add_nodes S nodes (c\<lparr>rc_peers := rc_peers c @ [node]\<rparr>) r }"

fun remove_nodes :: "RaftAddr list \<Rightarrow> RaftConfig \<Rightarrow>
    ('db, 'sm, 'dir, 'rd, 'wr) Raft \<Rightarrow> (RaftConfig \<times> ('db, 'sm, 'dir, 'rd, 'wr) Raft) option" where
  "remove_nodes [] c r = Some (c, r)"
| "remove_nodes (node # nodes) c r = do {
     r \<leftarrow> Raft_DeletePeer node r;
     remove_nodes nodes (c\<lparr>rc_peers := filter (\<lambda>p. \<not> RaftAddr_eq p node) (rc_peers c)\<rparr>) r }"

definition Raft_DoConfigChange :: "('sm, 'dir, 'rd, 'wr) sm_ops \<Rightarrow> RaftConfig \<Rightarrow>
    ('db, 'sm, 'dir, 'rd, 'wr) Raft \<Rightarrow> (RaftConfig \<times> ('db, 'sm, 'dir, 'rd, 'wr) Raft) option" where
  "Raft_DoConfigChange S rc r = do {
     let current = cm_current (r_config_mgr r);
     let add = RaftConfig_IamIn current rc;
     let rm = RaftConfig_IamIn rc current;
     let (rv, diff_nodes) = ConfigCompare current rc;
     if \<not> r_standby r then do {
       check ((add \<and> \<not> rm) \<or> (rm \<and> \<not> add));
       if add \<and> \<not> rm then do {
         check (rv = -1);
         add_nodes S diff_nodes current r }
       else do {
         check (rv = 1);
         remove_nodes diff_nodes current r } }
     else do {
       check (add \<and> \<not> rm);
       check (rv = -1);
       add_nodes S diff_nodes current r } }"

definition Raft_ConfigChange :: "('sm, 'dir, 'rd, 'wr) sm_ops \<Rightarrow> RaftConfig \<Rightarrow> RaftIndex \<Rightarrow>
    ('db, 'sm, 'dir, 'rd, 'wr) Raft \<Rightarrow> ('db, 'sm, 'dir, 'rd, 'wr) Raft option" where
  "Raft_ConfigChange S rc i r = do {
     (new_config, r) \<leftarrow> Raft_DoConfigChange S rc r;
     Some (r\<lparr>r_config_mgr := ConfigManager_SetCurrent new_config (r_config_mgr r),
             r_changing_index := i\<rparr>) }"

definition Raft_ConfigRollback :: "('sm, 'dir, 'rd, 'wr) sm_ops \<Rightarrow> RaftIndex \<Rightarrow>
    ('db, 'sm, 'dir, 'rd, 'wr) Raft \<Rightarrow> ('db, 'sm, 'dir, 'rd, 'wr) Raft option" where
  "Raft_ConfigRollback S i r = do {
     pre_config \<leftarrow> cm_previous (r_config_mgr r);
     (_, r) \<leftarrow> Raft_DoConfigChange S pre_config r;
     cm \<leftarrow> ConfigManager_Rollback (r_config_mgr r);
     let r = r\<lparr>r_config_mgr := cm\<rparr>;
     Some (if r_changing_index r = i then r\<lparr>r_changing_index := 0\<rparr> else r) }"

text \<open>The log calls back into the replica that owns it, which then sees the log as it is at that
  point.\<close>

definition log_AppendOne :: "'db leveldb \<Rightarrow> ('sm, 'dir, 'rd, 'wr) sm_ops \<Rightarrow> AppendEntry \<Rightarrow>
    ('db, 'sm, 'dir, 'rd, 'wr) Raft \<Rightarrow> ('db, 'sm, 'dir, 'rd, 'wr) Raft option" where
  "log_AppendOne L S entry r = do {
     (l, r) \<leftarrow> RaftLog_AppendOne L (\<lambda>rc i l s. Raft_ConfigChange S rc i (s\<lparr>r_log := l\<rparr>))
                 entry (r_log r) r;
     Some (r\<lparr>r_log := l\<rparr>) }"

definition log_DeleteFrom :: "'db leveldb \<Rightarrow> ('sm, 'dir, 'rd, 'wr) sm_ops \<Rightarrow> RaftIndex \<Rightarrow>
    ('db, 'sm, 'dir, 'rd, 'wr) Raft \<Rightarrow> ('db, 'sm, 'dir, 'rd, 'wr) Raft option" where
  "log_DeleteFrom L S from_index r = do {
     (l, r) \<leftarrow> RaftLog_DeleteFrom L (\<lambda>i l s. Raft_ConfigRollback S i (s\<lparr>r_log := l\<rparr>))
                 from_index (r_log r) r;
     Some (r\<lparr>r_log := l\<rparr>) }"

section \<open>Role changes\<close>

definition Raft_StepDown :: "'db leveldb \<Rightarrow> RaftTerm \<Rightarrow> ('db, 'sm, 'dir, 'rd, 'wr) Raft \<Rightarrow>
    ('db, 'sm, 'dir, 'rd, 'wr) Raft option" where
  "Raft_StepDown L new_term r = do {
     check (r_term r \<le> new_term);
     let r = (if r_term r < new_term
              then r\<lparr>r_meta := SolidData_SetVote L 0 (SolidData_SetTerm L new_term (r_meta r)),
                     r_leader := RaftAddr_FromU64 0, r_state := STATE_FOLLOWER\<rparr>
              else r\<lparr>r_state := STATE_FOLLOWER\<rparr>);
     let tm = TimerManager_StopHeartBeat (r_timer_mgr r);
     let tm = TimerManager_StopRequestVote tm;
     tm \<leftarrow> TimerManager_AgainElection tm;
     let r = r\<lparr>r_timer_mgr := tm\<rparr>;
     Some (if r_last_heartbeat_timestamp r = INT64_MAX
           then r\<lparr>r_last_heartbeat_timestamp := 0\<rparr> else r) }"

definition Raft_BecomeCandidate :: "('db, 'sm, 'dir, 'rd, 'wr) Raft \<Rightarrow>
    ('db, 'sm, 'dir, 'rd, 'wr) Raft" where
  "Raft_BecomeCandidate r = r\<lparr>r_state := STATE_CANDIDATE, r_leader := RaftAddr_FromU64 0,
     r_vote_mgr := VoteManager_Clear (r_vote_mgr r)\<rparr>"

definition Raft_AppendNoop :: "'db leveldb \<Rightarrow> ('sm, 'dir, 'rd, 'wr) sm_ops \<Rightarrow>
    ('db, 'sm, 'dir, 'rd, 'wr) Raft \<Rightarrow> ('db, 'sm, 'dir, 'rd, 'wr) Raft option" where
  "Raft_AppendNoop L S r =
     log_AppendOne L S \<lparr>ae_term = r_term r, ae_type = kNoop, ae_value = [0x30]\<rparr> r"

definition Raft_BecomeLeader :: "'db leveldb \<Rightarrow> ('sm, 'dir, 'rd, 'wr) sm_ops \<Rightarrow>
    ('db, 'sm, 'dir, 'rd, 'wr) Raft \<Rightarrow> ('db, 'sm, 'dir, 'rd, 'wr) Raft option" where
  "Raft_BecomeLeader L S r = do {
     check (r_state r = STATE_CANDIDATE);
     let r = r\<lparr>r_leader_transfer := False, r_state := STATE_LEADER, r_leader := Raft_Me r,
               r_leader_times := Suc (r_leader_times r),
               r_last_heartbeat_timestamp := INT64_MAX\<rparr>;
     tm \<leftarrow> TimerManager_StopElection (r_timer_mgr r);
     let tm = TimerManager_StopRequestVote tm;
     let im = IndexManager_ResetNext (Raft_LastIndex S r + 1) (r_index_mgr r);
     let im = IndexManager_ResetMatch 0 im;
     tm \<leftarrow> TimerManager_StartHeartBeat tm;
     Raft_AppendNoop L S (r\<lparr>r_timer_mgr := tm, r_index_mgr := im\<rparr>) }"

definition Raft_DoRequestVote :: "'db leveldb \<Rightarrow> ('sm, 'dir, 'rd, 'wr) sm_ops \<Rightarrow>
    ('db, 'sm, 'dir, 'rd, 'wr) Raft \<Rightarrow> ('db, 'sm, 'dir, 'rd, 'wr) Raft option" where
  "Raft_DoRequestVote L S r = do {
     let r = r\<lparr>r_meta := SolidData_IncrTerm L (r_meta r)\<rparr>;
     let r = Raft_BecomeCandidate r;
     let r = r\<lparr>r_meta := SolidData_SetVote L (RaftAddr_ToU64 (Raft_Me r)) (r_meta r)\<rparr>;
     if VoteManager_QuorumAll (Raft_IfSelfVote r) (r_vote_mgr r) then Raft_BecomeLeader L S r
     else do {
       tm \<leftarrow> TimerManager_StartRequestVote (r_timer_mgr r);
       tm \<leftarrow> TimerManager_AgainElection tm;
       Some (r\<lparr>r_timer_mgr := tm\<rparr>) } }"

definition Raft_DoPreVote :: "('db, 'sm, 'dir, 'rd, 'wr) Raft \<Rightarrow>
    ('db, 'sm, 'dir, 'rd, 'wr) Raft option" where
  "Raft_DoPreVote r = do {
     let r = Raft_BecomeCandidate r;
     tm \<leftarrow> TimerManager_StartRequestVote (r_timer_mgr r);
     tm \<leftarrow> TimerManager_AgainElection tm;
     Some (r\<lparr>r_timer_mgr := tm\<rparr>) }"

text \<open>The callback of the election timer.\<close>

definition Elect :: "'db leveldb \<Rightarrow> ('sm, 'dir, 'rd, 'wr) sm_ops \<Rightarrow>
    ('db, 'sm, 'dir, 'rd, 'wr) Raft \<Rightarrow> ('db, 'sm, 'dir, 'rd, 'wr) Raft option" where
  "Elect L S r = do {
     check (r_state r = STATE_FOLLOWER \<or> r_state r = STATE_CANDIDATE);
     if r_standby r then do {
       tm \<leftarrow> TimerManager_AgainElection (r_timer_mgr r);
       Some (r\<lparr>r_timer_mgr := tm\<rparr>) }
     else if r_enable_pre_vote r \<and> length (Raft_Peers r) > 0
     then Raft_DoPreVote (r\<lparr>r_pre_voting := True\<rparr>)
     else Raft_DoRequestVote L S (r\<lparr>r_pre_voting := False\<rparr>) }"

definition Raft_StartElection :: "('db, 'sm, 'dir, 'rd, 'wr) Raft \<Rightarrow>
    (int \<times> ('db, 'sm, 'dir, 'rd, 'wr) Raft) option" where
  "Raft_StartElection r =
     (if r_state r = STATE_FOLLOWER then do {
        tm \<leftarrow> TimerManager_StartElection (r_timer_mgr r);
        Some (0, r\<lparr>r_timer_mgr := tm\<rparr>) }
      else Some (-1, r))"

section \<open>Committing and applying\<close>

definition apply_one :: "'db leveldb \<Rightarrow> ('sm, 'dir, 'rd, 'wr) sm_ops \<Rightarrow> RaftIndex \<Rightarrow>
    ('db, 'sm, 'dir, 'rd, 'wr) Raft \<Rightarrow> ('db, 'sm, 'dir, 'rd, 'wr) Raft option" where
  "apply_one L S i r = do {
     rv \<leftarrow> RaftLog_Get L (r_log r) i;
     log_entry \<leftarrow> rv;
     (case ae_type (le_append_entry log_entry) of
        kData \<Rightarrow>
          (case r_sm r of
             Some sm \<Rightarrow> do {
               let (rv, sm) = so_Apply S log_entry (Raft_Me r) sm;
               check (rv = 0);
               Some (r\<lparr>r_sm := Some sm\<rparr>) }
           | None \<Rightarrow> Some r)
      | kConfig \<Rightarrow>
          Some (if r_changing_index r = le_index log_entry
                then r\<lparr>r_changing_index := 0, r_standby := False\<rparr> else r)
      | kNoop \<Rightarrow> Some r
      | _ \<Rightarrow> None) }"

fun apply_each :: "'db leveldb \<Rightarrow> ('sm, 'dir, 'rd, 'wr) sm_ops \<Rightarrow> RaftIndex list \<Rightarrow>
    ('db, 'sm, 'dir, 'rd, 'wr) Raft \<Rightarrow> ('db, 'sm, 'dir, 'rd, 'wr) Raft option" where
  "apply_each L S [] r = Some r"
| "apply_each L S (i # is) r = do {
     r \<leftarrow> apply_one L S i r;
     apply_each L S is r }"

text \<open>The loop over the indexes would not end for the largest commit index.\<close>

definition Raft_StateMachineApply :: "'db leveldb \<Rightarrow> ('sm, 'dir, 'rd, 'wr) sm_ops \<Rightarrow>
    ('db, 'sm, 'dir, 'rd, 'wr) Raft \<Rightarrow> ('db, 'sm, 'dir, 'rd, 'wr) Raft option" where
  "Raft_StateMachineApply L S r =
     (if r_commit r > r_last_apply r then do {
        check (r_commit r \<noteq> - 1);
        r \<leftarrow> apply_each L S (index_range (r_last_apply r + 1) (r_commit r)) r;
        Some (r\<lparr>r_last_apply := r_commit r\<rparr>) }
      else Some r)"

definition Raft_MaybeCommit :: "'db leveldb \<Rightarrow> ('sm, 'dir, 'rd, 'wr) sm_ops \<Rightarrow>
    ('db, 'sm, 'dir, 'rd, 'wr) Raft \<Rightarrow> ('db, 'sm, 'dir, 'rd, 'wr) Raft option" where
  "Raft_MaybeCommit L S r = do {
     check (r_state r = STATE_LEADER);
     let new_commit = IndexManager_MajorityMax (Raft_LastIndex S r) (r_index_mgr r);
     if r_commit r \<ge> new_commit then Some r
     else do {
       check (new_commit \<ge> rl_first (r_log r));
       rv \<leftarrow> RaftLog_GetMeta L (r_log r) new_commit;
       new_commit_meta \<leftarrow> rv;
       if mv_term new_commit_meta \<noteq> r_term r then Some r
       else do {
         let r = r\<lparr>r_commit := new_commit\<rparr>;
         check (r_commit r \<le> rl_last (r_log r));
         Raft_StateMachineApply L S r } } }"

section \<open>Life cycle\<close>

definition Raft_InitConfig :: "'db leveldb \<Rightarrow> ('db, 'sm, 'dir, 'rd, 'wr) Raft \<Rightarrow>
    ('db, 'sm, 'dir, 'rd, 'wr) Raft option" where
  "Raft_InitConfig L r = do {
     (rv, found) \<leftarrow> RaftLog_LastConfig L (r_log r);
     r \<leftarrow> (if rv \<ge> 0 then do {
              (rc, mv) \<leftarrow> found;
              Some (r\<lparr>r_config_mgr := ConfigManager_SetCurrent rc (r_config_mgr r)\<rparr>) }
            else do {
              l \<leftarrow> RaftLog_AppendFirstConfig L (cm_current (r_config_mgr r)) (r_term r) (r_log r);
              Some (r\<lparr>r_log := l\<rparr>) });
     Some (Raft_ResetManagerPeers (Raft_Peers r) r) }"

definition Raft_Init :: "'db leveldb \<Rightarrow> ('sm, 'dir, 'rd, 'wr) sm_ops \<Rightarrow>
    ('db, 'sm, 'dir, 'rd, 'wr) Raft \<Rightarrow> ('db, 'sm, 'dir, 'rd, 'wr) Raft option" where
  "Raft_Init L S r = do {
     meta \<leftarrow> SolidData_Init L (sd_db (r_meta r));
     l \<leftarrow> RaftLog_Init L (r_log r);
     r \<leftarrow> Raft_InitConfig L (r\<lparr>r_meta := meta, r_log := l\<rparr>);
     let im = IndexManager_ResetNext (Raft_LastIndex S r + 1) (r_index_mgr r);
     Some (r\<lparr>r_index_mgr := IndexManager_ResetMatch 0 im\<rparr>) }"

definition Raft_Start :: "'db leveldb \<Rightarrow> ('sm, 'dir, 'rd, 'wr) sm_ops \<Rightarrow>
    ('db, 'sm, 'dir, 'rd, 'wr) Raft \<Rightarrow> ('db, 'sm, 'dir, 'rd, 'wr) Raft option" where
  "Raft_Start L S r = do {
     r \<leftarrow> (case (so_create S, r_sm r) of
             (Some create_sm, None) \<Rightarrow> do {
               sm \<leftarrow> create_sm (r_sm_dir r);
               Some (r\<lparr>r_sm := Some sm\<rparr>) }
           | _ \<Rightarrow> Some r);
     let r = (case r_sm r of
                Some sm \<Rightarrow> (let sm = so_Restore S sm
                            in r\<lparr>r_sm := Some sm, r_last_apply := so_LastIndex S sm\<rparr>)
              | None \<Rightarrow> r);
     let r = r\<lparr>r_started := True\<rparr>;
     check (r_make_timer r);
     tm \<leftarrow> TimerManager_MakeTimer ((r_timer_mgr r)\<lparr>tm_maketimer_func := True\<rparr>);
     tm \<leftarrow> TimerManager_StartTick tm;
     let r = r\<lparr>r_timer_mgr := tm\<rparr>;
     Raft_StepDown L (r_term r) r }"

definition Raft_Stop :: "('sm, 'dir, 'rd, 'wr) sm_ops \<Rightarrow> ('db, 'sm, 'dir, 'rd, 'wr) Raft \<Rightarrow>
    ('db, 'sm, 'dir, 'rd, 'wr) Raft option" where
  "Raft_Stop S r = do {
     let r = r\<lparr>r_started := False\<rparr>;
     tm \<leftarrow> TimerManager_Stop (r_timer_mgr r);
     let r = r\<lparr>r_timer_mgr := tm\<rparr>;
     Some (case r_sm r of Some sm \<Rightarrow> r\<lparr>r_sm := None, r_sm_dir := so_dir S sm\<rparr> | None \<Rightarrow> r) }"

definition Raft_DisableSend :: "('db, 'sm, 'dir, 'rd, 'wr) Raft \<Rightarrow> ('db, 'sm, 'dir, 'rd, 'wr) Raft" where
  "Raft_DisableSend r = r\<lparr>r_enable_send := False\<rparr>"

definition Raft_EnableSend :: "('db, 'sm, 'dir, 'rd, 'wr) Raft \<Rightarrow> ('db, 'sm, 'dir, 'rd, 'wr) Raft" where
  "Raft_EnableSend r = r\<lparr>r_enable_send := True\<rparr>"

definition Raft_DisableRecv :: "('db, 'sm, 'dir, 'rd, 'wr) Raft \<Rightarrow> ('db, 'sm, 'dir, 'rd, 'wr) Raft" where
  "Raft_DisableRecv r = r\<lparr>r_enable_recv := False\<rparr>"

definition Raft_EnableRecv :: "('db, 'sm, 'dir, 'rd, 'wr) Raft \<Rightarrow> ('db, 'sm, 'dir, 'rd, 'wr) Raft" where
  "Raft_EnableRecv r = r\<lparr>r_enable_recv := True\<rparr>"

end
