(* ===== verification/RaftRpc.thy ===== *)
theory RaftRpc
  imports Raft Util
begin

text \<open>
  The messages a replica sends and handles and the requests of its clients
  (src/src/raft/raft_request_vote.cc, raft_append_entries.cc, raft_install_snapshot.cc,
  raft_timeout_now.cc, raft_ping.cc, raft_client_request.cc and the timer callbacks of
  raft_core.cc), and the replica as a machine that handles one event at a time.
\<close>

type_synonym ('db, 'sm, 'dir, 'rd, 'wr) action =
  "('db, 'sm, 'dir, 'rd, 'wr) Raft \<Rightarrow> ('db, 'sm, 'dir, 'rd, 'wr) Raft option"

section \<open>Shared steps\<close>

text \<open>Stopping the request-vote timers and restarting the election timer.\<close>

definition reset_election :: "('db, 'sm, 'dir, 'rd, 'wr) action" where
  "reset_election r = do {
     let tm = TimerManager_StopRequestVote (r_timer_mgr r);
     tm \<leftarrow> TimerManager_AgainElection tm;
     Some (r\<lparr>r_timer_mgr := tm\<rparr>) }"

definition record_heartbeat :: "('db, 'sm, 'dir, 'rd, 'wr) Raft \<Rightarrow> ('db, 'sm, 'dir, 'rd, 'wr) Raft" where
  "record_heartbeat r = (let (now, r) = NSec r in r\<lparr>r_last_heartbeat_timestamp := now\<rparr>)"

definition update_leader :: "RaftAddr \<Rightarrow> ('db, 'sm, 'dir, 'rd, 'wr) action" where
  "update_leader src r =
     (if RaftAddr_ToU64 (r_leader r) = 0 then Some (r\<lparr>r_leader := src\<rparr>)
      else do {
        check (RaftAddr_ToU64 (r_leader r) = RaftAddr_ToU64 src);
        Some r })"

section \<open>Voting\<close>

definition Raft_SendRequestVote :: "'db leveldb \<Rightarrow> ('sm, 'dir, 'rd, 'wr) sm_ops \<Rightarrow> u64 \<Rightarrow>
    ('db, 'sm, 'dir, 'rd, 'wr) action" where
  "Raft_SendRequestVote L S dest r = do {
     let (uid, r) = UniqId r;
     let (send_ts, r) = NSec r;
     last_log_term \<leftarrow> Raft_LastTerm L S r;
     let transfer = (r_leader_transfer r \<and> r_term r \<le> r_transfer_max_term r);
     let m = \<lparr>rv_src = Raft_Me r, rv_dest = RaftAddr_FromU64 dest, rv_term = r_term r, rv_uid = uid,
              rv_send_ts = of_int send_ts, rv_elapse = 0, rv_last_log_index = Raft_LastIndex S r,
              rv_last_log_term = last_log_term, rv_leader_transfer = transfer,
              rv_pre_vote = r_pre_voting r\<rparr>;
     let r = (if transfer then r else r\<lparr>r_leader_transfer := False, r_transfer_max_term := 0\<rparr>);
     Raft_send dest (MRequestVote m) r }"

definition Raft_SendRequestVoteReply :: "RequestVoteReply \<Rightarrow> ('db, 'sm, 'dir, 'rd, 'wr) action" where
  "Raft_SendRequestVoteReply m r = Raft_send (RaftAddr_ToU64 (rvr_dest m)) (MRequestVoteReply m) r"

text \<open>Whether the log of a candidate is at least as complete as this one.\<close>

definition log_up_to_date :: "RaftTerm \<Rightarrow> RaftIndex \<Rightarrow> RaftTerm \<Rightarrow> RaftIndex \<Rightarrow> bool" where
  "log_up_to_date last_log_term last_log_index last_term last_index \<longleftrightarrow>
     last_log_term > last_term \<or> (last_log_term = last_term \<and> last_log_index \<ge> last_index)"

text \<open>The middle part of \<^verbatim>\<open>OnRequestVote\<close>: step down for a newer term, then perhaps vote.\<close>

definition maybe_step_down :: "'db leveldb \<Rightarrow> RaftTerm \<Rightarrow> ('db, 'sm, 'dir, 'rd, 'wr) action" where
  "maybe_step_down L term r = do {
     r \<leftarrow> (if term > r_term r then Raft_StepDown L term r else Some r);
     check (term \<le> r_term r);
     Some r }"

definition give_vote :: "'db leveldb \<Rightarrow> RequestVote \<Rightarrow> bool \<Rightarrow> ('db, 'sm, 'dir, 'rd, 'wr) action" where
  "give_vote L m log_ok r =
     (if rv_term m = r_term r \<and> log_ok \<and> r_vote r = 0 then do {
       r \<leftarrow> Raft_StepDown L (r_term r) r;
       r \<leftarrow> reset_election r;
       Some (if \<not> rv_pre_vote m
             then r\<lparr>r_meta := SolidData_SetVote L (RaftAddr_ToU64 (rv_src m)) (r_meta r)\<rparr> else r) }
     else Some r)"

text \<open>Whether enough time has passed since the last heartbeat of a leader.\<close>

definition check_interval :: "RequestVote \<Rightarrow> ('db, 'sm, 'dir, 'rd, 'wr) Raft \<Rightarrow>
    bool \<times> ('db, 'sm, 'dir, 'rd, 'wr) Raft" where
  "check_interval m r =
     (if r_interval_check r \<and> \<not> rv_leader_transfer m
      then let (now, r) = NSec r
           in (now - r_last_heartbeat_timestamp r \<ge>
                 uint (tm_election_ms (r_timer_mgr r) * 1000 * 1000), r)
      else (True, r))"

text \<open>The reply is filled in at the end of both branches.\<close>

definition answer_vote :: "RequestVote \<Rightarrow> u32 \<Rightarrow> bool \<Rightarrow> bool \<Rightarrow> ('db, 'sm, 'dir, 'rd, 'wr) action" where
  "answer_vote m uid log_ok interval_ok r = do {
     let (send_ts, r) = NSec r;
     Raft_SendRequestVoteReply
       \<lparr>rvr_src = rv_dest m, rvr_dest = rv_src m, rvr_term = r_term r, rvr_uid = uid,
        rvr_send_ts = of_int send_ts, rvr_elapse = 0,
        rvr_granted = (interval_ok \<and> rv_term m = r_term r \<and> r_vote r = RaftAddr_ToU64 (rv_src m)),
        rvr_log_ok = log_ok, rvr_pre_vote = rv_pre_vote m, rvr_interval_ok = interval_ok,
        rvr_req_term = rv_term m\<rparr> r }"

definition Raft_OnRequestVote :: "'db leveldb \<Rightarrow> ('sm, 'dir, 'rd, 'wr) sm_ops \<Rightarrow> RequestVote \<Rightarrow>
    ('db, 'sm, 'dir, 'rd, 'wr) action" where
  "Raft_OnRequestVote L S m r =
     (if \<not> r_started r then Some r
      else do {
        let (uid, r) = UniqId r;
        let last_index = Raft_LastIndex S r;
        last_term \<leftarrow> Raft_LastTerm L S r;
        let log_ok = log_up_to_date (rv_last_log_term m) (rv_last_log_index m) last_term last_index;
        let (interval_ok, r) = check_interval m r;
        r \<leftarrow> (if interval_ok then maybe_step_down L (rv_term m) r \<bind> give_vote L m log_ok
               else Some r);
        answer_vote m uid log_ok interval_ok r })"

text \<open>The reply to a request for a vote, and to a pre-vote.\<close>

definition vote_answered :: "'db leveldb \<Rightarrow> ('sm, 'dir, 'rd, 'wr) sm_ops \<Rightarrow> RequestVoteReply \<Rightarrow>
    ('db, 'sm, 'dir, 'rd, 'wr) action" where
  "vote_answered L S m r = do {
     let src = RaftAddr_ToU64 (rvr_src m);
     let r = r\<lparr>r_vote_mgr := VoteManager_Done src (r_vote_mgr r)\<rparr>;
     tm \<leftarrow> TimerManager_StopRequestVote_peer src (r_timer_mgr r);
     let r = r\<lparr>r_timer_mgr := tm\<rparr>;
     if rvr_granted m then do {
       let r = r\<lparr>r_vote_mgr := VoteManager_GetVote src (r_vote_mgr r)\<rparr>;
       if VoteManager_Majority (Raft_IfSelfVote r) (r_vote_mgr r) \<and> r_state r = STATE_CANDIDATE
       then Raft_BecomeLeader L S r
       else Some r }
     else Some r }"

definition pre_vote_flags :: "RequestVoteReply \<Rightarrow> VoteManager \<Rightarrow> VoteManager" where
  "pre_vote_flags m votes = (
     let src = RaftAddr_ToU64 (rvr_src m);
         votes = (if rvr_log_ok m then VoteManager_LogOK src votes else votes)
     in if rvr_interval_ok m then VoteManager_IntervalOK src votes else votes)"

definition pre_vote_answered :: "'db leveldb \<Rightarrow> ('sm, 'dir, 'rd, 'wr) sm_ops \<Rightarrow> RequestVoteReply \<Rightarrow>
    ('db, 'sm, 'dir, 'rd, 'wr) action" where
  "pre_vote_answered L S m r = do {
     let src = RaftAddr_ToU64 (rvr_src m);
     tm \<leftarrow> TimerManager_StopRequestVote_peer src (r_timer_mgr r);
     let r = r\<lparr>r_timer_mgr := tm\<rparr>;
     let r = r\<lparr>r_vote_mgr := pre_vote_flags m (r_vote_mgr r)\<rparr>;
     if rvr_log_ok m \<and> VoteManager_MajorityPreVoteOK True (r_vote_mgr r) \<and>
        r_state r = STATE_CANDIDATE \<and> r_pre_voting r
     then Raft_DoRequestVote L S (r\<lparr>r_pre_voting := False\<rparr>)
     else Some r }"

definition Raft_OnRequestVoteReply :: "'db leveldb \<Rightarrow> ('sm, 'dir, 'rd, 'wr) sm_ops \<Rightarrow>
    RequestVoteReply \<Rightarrow> ('db, 'sm, 'dir, 'rd, 'wr) action" where
  "Raft_OnRequestVoteReply L S m r =
     (if \<not> r_started r then Some r
      else if rvr_term m < r_term r then Some r
      else if rvr_req_term m \<noteq> r_term r then Some r
      else if rvr_term m > r_term r then Raft_StepDown L (rvr_term m) r
      else if \<not> rvr_pre_vote m then vote_answered L S m r
      else pre_vote_answered L S m r)"

text \<open>The callback of the request-vote timer of a peer.\<close>

definition RequestVoteRpc :: "'db leveldb \<Rightarrow> ('sm, 'dir, 'rd, 'wr) sm_ops \<Rightarrow> u64 \<Rightarrow>
    ('db, 'sm, 'dir, 'rd, 'wr) action" where
  "RequestVoteRpc L S dest_addr r = do {
     check (r_state r = STATE_CANDIDATE);
     Raft_SendRequestVote L S dest_addr r }"

section \<open>Sending entries and snapshots\<close>

definition SNAPSHOT_MAX_READ :: int where
  "SNAPSHOT_MAX_READ = 10"

text \<open>The directory of the state machine, open or not.\<close>

definition sm_path_dir :: "('sm, 'dir, 'rd, 'wr) sm_ops \<Rightarrow> ('db, 'sm, 'dir, 'rd, 'wr) Raft \<Rightarrow> 'dir" where
  "sm_path_dir S r = (case r_sm r of Some sm \<Rightarrow> so_dir S sm | None \<Rightarrow> r_sm_dir r)"

definition snapshot_at :: "u64 \<Rightarrow> ('db, 'sm, 'dir, 'rd, 'wr) Raft \<Rightarrow> ('rd, 'wr) Snapshot" where
  "snapshot_at a r = map_at Snapshot_null a (r_snapshot_mgr r)"

definition snapshot_upd :: "u64 \<Rightarrow> (('rd, 'wr) Snapshot \<Rightarrow> ('rd, 'wr) Snapshot) \<Rightarrow>
    ('db, 'sm, 'dir, 'rd, 'wr) Raft \<Rightarrow> ('db, 'sm, 'dir, 'rd, 'wr) Raft" where
  "snapshot_upd a f r = r\<lparr>r_snapshot_mgr := map_upd_at Snapshot_null a f (r_snapshot_mgr r)\<rparr>"

definition Raft_SendInstallSnapshot :: "('sm, 'dir, 'rd, 'wr) sm_ops \<Rightarrow> u64 \<Rightarrow>
    ('db, 'sm, 'dir, 'rd, 'wr) action" where
  "Raft_SendInstallSnapshot S dest r = do {
     let (uid, r) = UniqId r;
     let (send_ts, r) = NSec r;
     let r = (case (sn_reader (snapshot_at dest r), so_create_reader S) of
                (None, Some create_reader) \<Rightarrow>
                  snapshot_upd dest
                    (\<lambda>sn. sn\<lparr>sn_reader := create_reader (sm_path_dir S r) SNAPSHOT_MAX_READ\<rparr>) r
              | _ \<Rightarrow> snapshot_upd dest (\<lambda>sn. sn) r);
     reader \<leftarrow> sn_reader (snapshot_at dest r);
     let (rv, reader') = rd_Read S reader;
     check (rv \<ge> 0);
     let r = snapshot_upd dest (\<lambda>sn. sn\<lparr>sn_reader := Some reader'\<rparr>) r;
     Raft_send dest (MInstallSnapshot
       \<lparr>is_src = Raft_Me r, is_dest = RaftAddr_FromU64 dest, is_term = r_term r, is_uid = uid,
        is_send_ts = of_int send_ts, is_elapse = 0, is_last_index = rd_last_index S reader,
        is_last_term = rd_last_term S reader, is_offset = rd_offset S reader,
        is_data = rd_data S reader', is_done = (rv = 0)\<rparr>) r }"

text \<open>The term of the entry before the next one, or \<open>None\<close> inside when a snapshot has to be
  sent.\<close>

definition entries_pre_term :: "'db leveldb \<Rightarrow> ('sm, 'dir, 'rd, 'wr) sm_ops \<Rightarrow> RaftIndex \<Rightarrow>
    ('db, 'sm, 'dir, 'rd, 'wr) Raft \<Rightarrow> RaftTerm option option" where
  "entries_pre_term L S pre_index r =
     (if pre_index \<ge> rl_first (r_log r) then do {
        t \<leftarrow> Raft_GetTerm L S pre_index r;
        Some (Some t) }
      else if pre_index = 0 then Some (Some 0)
      else case r_sm r of
             Some sm \<Rightarrow> Some (if pre_index = so_LastIndex S sm then Some (so_LastTerm S sm) else None)
           | None \<Rightarrow> Some None)"

definition Raft_SendAppendEntries :: "'db leveldb \<Rightarrow> ('sm, 'dir, 'rd, 'wr) sm_ops \<Rightarrow> u64 \<Rightarrow>
    ('db, 'sm, 'dir, 'rd, 'wr) action" where
  "Raft_SendAppendEntries L S dest r = do {
     let last_index = Raft_LastIndex S r;
     let (next_index, im) = IndexManager_GetNext dest (r_index_mgr r);
     let r = r\<lparr>r_index_mgr := im\<rparr>;
     let pre_index = next_index - 1;
     check (pre_index \<le> last_index);
     if next_index < rl_first (r_log r) then Raft_SendInstallSnapshot S dest r
     else do {
       pt \<leftarrow> entries_pre_term L S pre_index r;
       (case pt of
          None \<Rightarrow> Raft_SendInstallSnapshot S dest r
        | Some pre_term \<Rightarrow> do {
            let (uid, r) = UniqId r;
            let (send_ts, r) = NSec r;
            entries \<leftarrow> (if RaftLog_IndexValid (r_log r) next_index then do {
                          rv \<leftarrow> RaftLog_Get L (r_log r) next_index;
                          entry \<leftarrow> rv;
                          Some [entry] }
                        else Some []);
            Raft_send dest (MAppendEntries
              \<lparr>ap_src = Raft_Me r, ap_dest = RaftAddr_FromU64 dest, ap_term = r_term r, ap_uid = uid,
               ap_send_ts = of_int send_ts, ap_elapse = 0, ap_pre_log_index = pre_index,
               ap_pre_log_term = pre_term,
               ap_commit_index = min (r_commit r) (pre_index + of_nat (length entries)),
               ap_entries = entries\<rparr>) r }) } }"

text \<open>The callback of the heartbeat timer of a peer.\<close>

definition HeartBeat :: "'db leveldb \<Rightarrow> ('sm, 'dir, 'rd, 'wr) sm_ops \<Rightarrow> u64 \<Rightarrow>
    ('db, 'sm, 'dir, 'rd, 'wr) action" where
  "HeartBeat L S dest_addr r = do {
     check (r_state r = STATE_LEADER);
     Raft_SendAppendEntries L S dest_addr r }"

section \<open>Receiving entries\<close>

definition Raft_SendAppendEntriesReply :: "AppendEntriesReply \<Rightarrow> ('db, 'sm, 'dir, 'rd, 'wr) action" where
  "Raft_SendAppendEntriesReply m r = Raft_send (RaftAddr_ToU64 (aer_dest m)) (MAppendEntriesReply m) r"

text \<open>The inner loop of \<^verbatim>\<open>OnAppendEntries\<close>: this and all following entries are appended.\<close>

fun append_all :: "'db leveldb \<Rightarrow> ('sm, 'dir, 'rd, 'wr) sm_ops \<Rightarrow> LogEntry list \<Rightarrow>
    ('db, 'sm, 'dir, 'rd, 'wr) action" where
  "append_all L S [] r = Some r"
| "append_all L S (e # es) r = do {
     r \<leftarrow> log_AppendOne L S (le_append_entry e) r;
     append_all L S es r }"

text \<open>The outer loop: entries that match are skipped, the first that does not is where the log is
  cut and appending starts.\<close>

fun match_entries :: "'db leveldb \<Rightarrow> ('sm, 'dir, 'rd, 'wr) sm_ops \<Rightarrow> RaftIndex \<Rightarrow> LogEntry list \<Rightarrow>
    ('db, 'sm, 'dir, 'rd, 'wr) action" where
  "match_entries L S index [] r = Some r"
| "match_entries L S index (e # es) r = do {
     check (le_index e = index + 1);
     if index + 1 < rl_first (r_log r) then match_entries L S (index + 1) es r
     else if rl_last (r_log r) \<ge> index + 1 then do {
       rv \<leftarrow> RaftLog_GetMeta L (r_log r) (index + 1);
       meta \<leftarrow> rv;
       if mv_term meta = ae_term (le_append_entry e) then match_entries L S (index + 1) es r
       else do {
         check (r_commit r < index + 1);
         r \<leftarrow> log_DeleteFrom L S (index + 1) r;
         append_all L S (e # es) r } }
     else append_all L S (e # es) r }"

definition pre_term_mismatch :: "'db leveldb \<Rightarrow> ('sm, 'dir, 'rd, 'wr) sm_ops \<Rightarrow> AppendEntries \<Rightarrow>
    ('db, 'sm, 'dir, 'rd, 'wr) Raft \<Rightarrow> bool option" where
  "pre_term_mismatch L S m r =
     (if RaftLog_IndexValid (r_log r) (ap_pre_log_index m) then do {
        my_pre_term \<leftarrow> Raft_GetTerm L S (ap_pre_log_index m) r;
        Some (my_pre_term \<noteq> ap_pre_log_term m) }
      else Some False)"

definition follow_commit :: "'db leveldb \<Rightarrow> ('sm, 'dir, 'rd, 'wr) sm_ops \<Rightarrow> RaftIndex \<Rightarrow>
    ('db, 'sm, 'dir, 'rd, 'wr) action" where
  "follow_commit L S commit_index r =
     (if r_commit r < commit_index then do {
        let r = r\<lparr>r_commit := commit_index\<rparr>;
        check (r_commit r \<le> Raft_LastIndex S r);
        Raft_StateMachineApply L S r }
      else Some r)"

text \<open>The part of \<^verbatim>\<open>OnAppendEntries\<close> after the leader is known, which fills in the reply.\<close>

definition accept_entries :: "'db leveldb \<Rightarrow> ('sm, 'dir, 'rd, 'wr) sm_ops \<Rightarrow> AppendEntries \<Rightarrow>
    AppendEntriesReply \<Rightarrow> ('db, 'sm, 'dir, 'rd, 'wr) action" where
  "accept_entries L S m reply r =
     (if ap_pre_log_index m > Raft_LastIndex S r then Raft_SendAppendEntriesReply reply r
      else do {
        mismatch \<leftarrow> pre_term_mismatch L S m r;
        if mismatch then Raft_SendAppendEntriesReply reply r
        else do {
          r \<leftarrow> match_entries L S (ap_pre_log_index m) (ap_entries m) r;
          let reply = reply\<lparr>aer_success := True, aer_last_log_index := Raft_LastIndex S r\<rparr>;
          r \<leftarrow> follow_commit L S (ap_commit_index m) r;
          r \<leftarrow> reset_election r;
          Raft_SendAppendEntriesReply reply (record_heartbeat r) } })"

text \<open>The reply starts as a rejection, with the newer of the two terms.\<close>

definition entries_rejection :: "AppendEntries \<Rightarrow> u32 \<Rightarrow> int \<Rightarrow> RaftTerm \<Rightarrow> RaftIndex \<Rightarrow>
    AppendEntriesReply" where
  "entries_rejection m uid send_ts term last_index =
     \<lparr>aer_src = ap_dest m, aer_dest = ap_src m,
      aer_term = (if ap_term m > term then ap_term m else term), aer_uid = uid,
      aer_send_ts = of_int send_ts, aer_elapse = 0, aer_success = False,
      aer_last_log_index = last_index, aer_req_pre_index = ap_pre_log_index m,
      aer_req_num_entries = of_nat (length (ap_entries m)), aer_req_term = ap_term m\<rparr>"

definition Raft_OnAppendEntries :: "'db leveldb \<Rightarrow> ('sm, 'dir, 'rd, 'wr) sm_ops \<Rightarrow> AppendEntries \<Rightarrow>
    ('db, 'sm, 'dir, 'rd, 'wr) action" where
  "Raft_OnAppendEntries L S m r =
     (if \<not> r_started r then Some r
      else do {
        let (uid, r) = UniqId r;
        let (send_ts, r) = NSec r;
        let reply = entries_rejection m uid send_ts (r_term r) (Raft_LastIndex S r);
        if ap_term m < r_term r then Raft_SendAppendEntriesReply reply r
        else do {
          r \<leftarrow> Raft_StepDown L (ap_term m) r;
          r \<leftarrow> reset_election r;
          r \<leftarrow> update_leader (ap_src m) (record_heartbeat r);
          accept_entries L S m reply r } })"

section \<open>Progress of a leader\<close>

text \<open>The two branches of \<^verbatim>\<open>OnAppendEntriesReply\<close> for a reply of the current term.\<close>

definition reply_success :: "'db leveldb \<Rightarrow> ('sm, 'dir, 'rd, 'wr) sm_ops \<Rightarrow> u64 \<Rightarrow> RaftIndex \<Rightarrow>
    ('db, 'sm, 'dir, 'rd, 'wr) action" where
  "reply_success L S src reached r = do {
     let (match, im) = IndexManager_GetMatch src (r_index_mgr r);
     let r = r\<lparr>r_index_mgr := im\<rparr>;
     r \<leftarrow> (if match > reached then Some r
            else Raft_MaybeCommit L S (r\<lparr>r_index_mgr := IndexManager_SetMatch src reached im\<rparr>));
     let (match, im) = IndexManager_GetMatch src (r_index_mgr r);
     Some (r\<lparr>r_index_mgr := IndexManager_SetNext src (match + 1) im\<rparr>) }"

definition reply_failure :: "u64 \<Rightarrow> RaftIndex \<Rightarrow> ('db, 'sm, 'dir, 'rd, 'wr) Raft \<Rightarrow>
    ('db, 'sm, 'dir, 'rd, 'wr) Raft" where
  "reply_failure src last_log_index r = (
     let (next, im) = IndexManager_GetNext src (r_index_mgr r);
         im = (if next > 1 then IndexManager_DecrNext src im else im);
         (next, im) = IndexManager_GetNext src im;
         im = (if next > last_log_index + 1 then IndexManager_SetNext src (last_log_index + 1) im
               else im)
     in r\<lparr>r_index_mgr := im\<rparr>)"

text \<open>The end of both reply handlers: if the peer misses entries, send them at once.\<close>

definition send_more :: "'db leveldb \<Rightarrow> ('sm, 'dir, 'rd, 'wr) sm_ops \<Rightarrow> u64 \<Rightarrow>
    ('db, 'sm, 'dir, 'rd, 'wr) action" where
  "send_more L S src r = do {
     let (next, im) = IndexManager_GetNext src (r_index_mgr r);
     let r = r\<lparr>r_index_mgr := im\<rparr>;
     if next \<le> Raft_LastIndex S r then do {
       r \<leftarrow> Raft_SendAppendEntries L S src r;
       tm \<leftarrow> TimerManager_AgainHeartBeat_peer src (r_timer_mgr r);
       Some (r\<lparr>r_timer_mgr := tm\<rparr>) }
     else Some r }"

definition Raft_OnAppendEntriesReply :: "'db leveldb \<Rightarrow> ('sm, 'dir, 'rd, 'wr) sm_ops \<Rightarrow>
    AppendEntriesReply \<Rightarrow> ('db, 'sm, 'dir, 'rd, 'wr) action" where
  "Raft_OnAppendEntriesReply L S m r =
     (if \<not> r_started r then Some r
      else if aer_term m < r_term r then Some r
      else if aer_req_term m \<noteq> r_term r then Some r
      else do {
        check (r_state r = STATE_LEADER);
        if aer_term m > r_term r then Raft_StepDown L (aer_term m) r
        else do {
          let src = RaftAddr_ToU64 (aer_src m);
          r \<leftarrow> (if aer_success m
                 then reply_success L S src (aer_req_pre_index m + aer_req_num_entries m) r
                 else Some (reply_failure src (aer_last_log_index m) r));
          send_more L S src r } })"

section \<open>Snapshots\<close>

definition Raft_SendInstallSnapshotReply :: "InstallSnapshotReply \<Rightarrow>
    ('db, 'sm, 'dir, 'rd, 'wr) action" where
  "Raft_SendInstallSnapshotReply m r =
     Raft_send (RaftAddr_ToU64 (isr_dest m)) (MInstallSnapshotReply m) r"

text \<open>The writer for a snapshot: the current one if it is for the same snapshot, else a new one in
  a directory named after the clock.\<close>

definition snapshot_writer :: "('sm, 'dir, 'rd, 'wr) sm_ops \<Rightarrow> u64 \<Rightarrow> RaftIndex \<Rightarrow> RaftTerm \<Rightarrow>
    ('db, 'sm, 'dir, 'rd, 'wr) Raft \<Rightarrow> ('wr \<times> ('db, 'sm, 'dir, 'rd, 'wr) Raft) option" where
  "snapshot_writer S src last_index last_term r = do {
     let r = snapshot_upd src
       (\<lambda>sn. case sn_writer sn of
          Some w \<Rightarrow> (if wr_last_index S w = last_index \<and> wr_last_term S w = last_term then sn
                     else sn\<lparr>sn_writer := None\<rparr>)
        | None \<Rightarrow> sn) r;
     let r = (case (sn_writer (snapshot_at src r), so_create_writer S) of
                (None, Some create_writer) \<Rightarrow>
                  snapshot_upd src (\<lambda>sn. sn\<lparr>sn_writer := create_writer last_index last_term\<rparr>)
                    (snd (NSec r))
              | _ \<Rightarrow> r);
     writer \<leftarrow> sn_writer (snapshot_at src r);
     Some (writer, r) }"

text \<open>The last chunk replaces the state machine by the one the snapshot holds, unless it is older.\<close>

definition install_done :: "('sm, 'dir, 'rd, 'wr) sm_ops \<Rightarrow> u64 \<Rightarrow> RaftIndex \<Rightarrow> 'wr \<Rightarrow>
    ('db, 'sm, 'dir, 'rd, 'wr) action" where
  "install_done S src last_index writer r =
     (if (case r_sm r of Some sm \<Rightarrow> last_index < so_LastIndex S sm | None \<Rightarrow> False)
      then Some (snapshot_upd src (\<lambda>sn. sn\<lparr>sn_writer := None\<rparr>) r)
      else do {
        let (rv, writer) = wr_Finish S writer;
        check (rv = 0);
        let (ns, r) = NSec r;
        let r = r\<lparr>r_sm := None, r_sm_dir := wr_dir S writer\<rparr>;
        r \<leftarrow> (case so_create S of
                Some create_sm \<Rightarrow> do {
                  sm \<leftarrow> create_sm (r_sm_dir r);
                  Some (r\<lparr>r_sm := Some sm\<rparr>) }
              | None \<Rightarrow> Some r);
        Some (snapshot_upd src (\<lambda>sn. sn\<lparr>sn_writer := None\<rparr>) r) })"

definition store_chunk :: "('sm, 'dir, 'rd, 'wr) sm_ops \<Rightarrow> InstallSnapshot \<Rightarrow> InstallSnapshotReply \<Rightarrow>
    ('db, 'sm, 'dir, 'rd, 'wr) action" where
  "store_chunk S m reply r = do {
     let src = RaftAddr_ToU64 (is_src m);
     (writer, r) \<leftarrow> snapshot_writer S src (is_last_index m) (is_last_term m) r;
     let reply = reply\<lparr>isr_stored := wr_stored S writer\<rparr>;
     if sint (is_offset m) < sint (wr_stored S writer) then Raft_SendInstallSnapshotReply reply r
     else do {
       check (sint (is_offset m) > sint (wr_stored S writer));
       let (rv, writer) = wr_Write S (is_data m) writer;
       check (rv = 0);
       let r = snapshot_upd src (\<lambda>sn. sn\<lparr>sn_writer := Some writer\<rparr>) r;
       let reply = reply\<lparr>isr_stored := wr_stored S writer\<rparr>;
       r \<leftarrow> reset_election r;
       r \<leftarrow> (if is_done m then install_done S src (is_last_index m) writer r else Some r);
       Raft_SendInstallSnapshotReply reply r } }"

text \<open>The handler never sets \<^verbatim>\<open>req_term\<close> of its reply; \<open>junk\<close> is the value found there.\<close>

definition snapshot_reply :: "InstallSnapshot \<Rightarrow> u32 \<Rightarrow> int \<Rightarrow> RaftTerm \<Rightarrow> u64 \<Rightarrow>
    InstallSnapshotReply" where
  "snapshot_reply m uid send_ts term junk =
     \<lparr>isr_src = is_dest m, isr_dest = is_src m,
      isr_term = (if is_term m > term then is_term m else term), isr_uid = uid,
      isr_send_ts = of_int send_ts, isr_elapse = 0, isr_stored = 0, isr_req_term = junk\<rparr>"

definition Raft_OnInstallSnapshot :: "'db leveldb \<Rightarrow> ('sm, 'dir, 'rd, 'wr) sm_ops \<Rightarrow> u64 \<Rightarrow>
    InstallSnapshot \<Rightarrow> ('db, 'sm, 'dir, 'rd, 'wr) action" where
  "Raft_OnInstallSnapshot L S junk m r =
     (if \<not> r_started r then Some r
      else do {
        let (uid, r) = UniqId r;
        let (send_ts, r) = NSec r;
        let reply = snapshot_reply m uid send_ts (r_term r) junk;
        if is_term m < r_term r then Raft_SendInstallSnapshotReply reply r
        else do {
          r \<leftarrow> Raft_StepDown L (is_term m) r;
          r \<leftarrow> reset_election r;
          r \<leftarrow> update_leader (is_src m) (record_heartbeat r);
          store_chunk S m reply r } })"

definition snapshot_stored :: "'db leveldb \<Rightarrow> ('sm, 'dir, 'rd, 'wr) sm_ops \<Rightarrow> u64 \<Rightarrow> u32 \<Rightarrow> 'rd \<Rightarrow>
    ('db, 'sm, 'dir, 'rd, 'wr) action" where
  "snapshot_stored L S src stored reader r =
     (if stored = rd_offset S reader - 1 \<and> rd_done S reader then do {
        let last = rd_last_index S reader;
        let im = IndexManager_SetMatch src last (r_index_mgr r);
        r \<leftarrow> Raft_MaybeCommit L S (r\<lparr>r_index_mgr := IndexManager_SetNext src (last + 1) im\<rparr>);
        Some (snapshot_upd src (\<lambda>sn. sn\<lparr>sn_reader := None\<rparr>) r) }
      else Some r)"

definition snapshot_progress :: "'db leveldb \<Rightarrow> ('sm, 'dir, 'rd, 'wr) sm_ops \<Rightarrow>
    InstallSnapshotReply \<Rightarrow> 'rd \<Rightarrow> ('db, 'sm, 'dir, 'rd, 'wr) action" where
  "snapshot_progress L S m reader r =
     (if isr_term m < r_term r then Some r
      else if isr_req_term m \<noteq> r_term r then Some r
      else do {
        check (r_state r = STATE_LEADER);
        if isr_term m > r_term r then Raft_StepDown L (isr_term m) r
        else do {
          let src = RaftAddr_ToU64 (isr_src m);
          r \<leftarrow> snapshot_stored L S src (isr_stored m) reader r;
          send_more L S src r } })"

definition Raft_OnInstallSnapshotReply :: "'db leveldb \<Rightarrow> ('sm, 'dir, 'rd, 'wr) sm_ops \<Rightarrow>
    InstallSnapshotReply \<Rightarrow> ('db, 'sm, 'dir, 'rd, 'wr) action" where
  "Raft_OnInstallSnapshotReply L S m r =
     (if \<not> r_started r then Some r
      else do {
        let r = snapshot_upd (RaftAddr_ToU64 (isr_src m)) (\<lambda>sn. sn) r;
        reader \<leftarrow> sn_reader (snapshot_at (RaftAddr_ToU64 (isr_src m)) r);
        snapshot_progress L S m reader r })"

section \<open>Leadership transfer and pings\<close>

definition MAX_TRANSFER_TERM :: RaftTerm where
  "MAX_TRANSFER_TERM = 3"

definition Raft_OnTimeoutNow :: "'db leveldb \<Rightarrow> ('sm, 'dir, 'rd, 'wr) sm_ops \<Rightarrow> TimeoutNow \<Rightarrow>
    ('db, 'sm, 'dir, 'rd, 'wr) action" where
  "Raft_OnTimeoutNow L S m r =
     (if \<not> r_started r then Some r
      else do {
        let r = r\<lparr>r_leader_transfer := True, r_transfer_max_term := r_term r + MAX_TRANSFER_TERM\<rparr>;
        let last_index = Raft_LastIndex S r;
        last_term \<leftarrow> Raft_LastTerm L S r;
        let my_log_enough = (tn_last_log_term m \<le> last_term \<or>
          (tn_last_log_term m = last_term \<and> tn_last_log_index m \<le> last_index));
        r \<leftarrow> maybe_step_down L (tn_term m) r;
        if \<not> tn_force m \<and> \<not> my_log_enough then Some r
        else if r_state r = STATE_FOLLOWER then do {
          tm \<leftarrow> TimerManager_StartElection (r_timer_mgr r);
          Some (r\<lparr>r_timer_mgr := tm\<rparr>) }
        else Some r })"

definition Raft_SendTimeoutNow :: "'db leveldb \<Rightarrow> ('sm, 'dir, 'rd, 'wr) sm_ops \<Rightarrow> u64 \<Rightarrow> bool \<Rightarrow>
    ('db, 'sm, 'dir, 'rd, 'wr) action" where
  "Raft_SendTimeoutNow L S dest force r = do {
     let (uid, r) = UniqId r;
     let (send_ts, r) = NSec r;
     last_log_term \<leftarrow> Raft_LastTerm L S r;
     Raft_send dest (MTimeoutNow
       \<lparr>tn_src = Raft_Me r, tn_dest = RaftAddr_FromU64 dest, tn_term = r_term r, tn_uid = uid,
        tn_send_ts = of_int send_ts, tn_elapse = 0, tn_last_log_index = Raft_LastIndex S r,
        tn_last_log_term = last_log_term, tn_force = force\<rparr>) r }"

definition Raft_OnPing :: "Ping \<Rightarrow> ('db, 'sm, 'dir, 'rd, 'wr) action" where
  "Raft_OnPing m r =
     (if \<not> r_started r then Some r
      else do {
        let (uid, r) = UniqId r;
        let (send_ts, r) = NSec r;
        Raft_send (RaftAddr_ToU64 (pg_src m)) (MPingReply
          \<lparr>pgr_src = pg_dest m, pgr_dest = pg_src m, pgr_uid = uid, pgr_send_ts = of_int send_ts,
           pgr_elapse = 0, pgr_msg = [0x70, 0x61, 0x6E, 0x67]\<rparr>) r })"

definition Raft_OnPingReply :: "PingReply \<Rightarrow> ('db, 'sm, 'dir, 'rd, 'wr) action" where
  "Raft_OnPingReply m r = Some r"

section \<open>Clients\<close>

fun send_peers :: "'db leveldb \<Rightarrow> ('sm, 'dir, 'rd, 'wr) sm_ops \<Rightarrow> RaftAddr list \<Rightarrow>
    ('db, 'sm, 'dir, 'rd, 'wr) action" where
  "send_peers L S [] r = Some r"
| "send_peers L S (peer # peers) r = do {
     r \<leftarrow> Raft_SendAppendEntries L S (RaftAddr_ToU64 peer) r;
     tm \<leftarrow> TimerManager_AgainHeartBeat_peer (RaftAddr_ToU64 peer) (r_timer_mgr r);
     send_peers L S peers (r\<lparr>r_timer_mgr := tm\<rparr>) }"

definition Raft_DoPropose :: "'db leveldb \<Rightarrow> ('sm, 'dir, 'rd, 'wr) sm_ops \<Rightarrow> bytes \<Rightarrow> EntryType \<Rightarrow>
    ('db, 'sm, 'dir, 'rd, 'wr) action" where
  "Raft_DoPropose L S value type r = do {
     r \<leftarrow> log_AppendOne L S \<lparr>ae_term = r_term r, ae_type = type, ae_value = value\<rparr> r;
     r \<leftarrow> Raft_MaybeCommit L S r;
     send_peers L S (Raft_Peers r) r }"

definition Raft_Propose :: "'db leveldb \<Rightarrow> ('sm, 'dir, 'rd, 'wr) sm_ops \<Rightarrow> bytes \<Rightarrow>
    ('db, 'sm, 'dir, 'rd, 'wr) Raft \<Rightarrow> (int \<times> ('db, 'sm, 'dir, 'rd, 'wr) Raft) option" where
  "Raft_Propose L S value r =
     (if r_state r \<noteq> STATE_LEADER \<or> \<not> r_started r then Some (-1, r)
      else do { r \<leftarrow> Raft_DoPropose L S value kData r; Some (0, r) })"

definition Raft_LeaderTransfer :: "'db leveldb \<Rightarrow> ('sm, 'dir, 'rd, 'wr) sm_ops \<Rightarrow> RaftAddr \<Rightarrow>
    ('db, 'sm, 'dir, 'rd, 'wr) Raft \<Rightarrow> (int \<times> ('db, 'sm, 'dir, 'rd, 'wr) Raft) option" where
  "Raft_LeaderTransfer L S dest r =
     (if r_state r \<noteq> STATE_LEADER \<or> \<not> r_started r then Some (-1, r)
      else do { r \<leftarrow> Raft_SendTimeoutNow L S (RaftAddr_ToU64 dest) False r; Some (0, r) })"

definition Raft_LeaderTransferFirstPeer :: "'db leveldb \<Rightarrow> ('sm, 'dir, 'rd, 'wr) sm_ops \<Rightarrow>
    ('db, 'sm, 'dir, 'rd, 'wr) Raft \<Rightarrow> (int \<times> ('db, 'sm, 'dir, 'rd, 'wr) Raft) option" where
  "Raft_LeaderTransferFirstPeer L S r = (case Raft_Peers r of
      [] \<Rightarrow> Some (-1, r)
    | peer # _ \<Rightarrow> Raft_LeaderTransfer L S peer r)"

definition Raft_AddServer :: "'db leveldb \<Rightarrow> ('sm, 'dir, 'rd, 'wr) sm_ops \<Rightarrow> RaftAddr \<Rightarrow>
    ('db, 'sm, 'dir, 'rd, 'wr) Raft \<Rightarrow> (int \<times> ('db, 'sm, 'dir, 'rd, 'wr) Raft) option" where
  "Raft_AddServer L S addr r = (let current = cm_current (r_config_mgr r) in
     if r_changing_index r > 0 then Some (-1, r)
     else if RaftConfig_InConfig current addr then Some (-1, r)
     else do {
       value \<leftarrow> RaftConfig_ToStr (current\<lparr>rc_peers := rc_peers current @ [addr]\<rparr>);
       if r_state r \<noteq> STATE_LEADER \<or> \<not> r_started r then Some (-1, r)
       else do { r \<leftarrow> Raft_DoPropose L S value kConfig r; Some (0, r) } })"

definition Raft_RemoveServer :: "'db leveldb \<Rightarrow> ('sm, 'dir, 'rd, 'wr) sm_ops \<Rightarrow> RaftAddr \<Rightarrow>
    ('db, 'sm, 'dir, 'rd, 'wr) Raft \<Rightarrow> (int \<times> ('db, 'sm, 'dir, 'rd, 'wr) Raft) option" where
  "Raft_RemoveServer L S addr r = (let current = cm_current (r_config_mgr r) in
     if r_changing_index r > 0 then Some (-1, r)
     else if \<not> RaftConfig_InConfig current addr then Some (-1, r)
     else if RaftAddr_eq (rc_me current) addr then Some (-1, r)
     else do {
       value \<leftarrow> RaftConfig_ToStr
         (current\<lparr>rc_peers := filter (\<lambda>p. \<not> RaftAddr_eq p addr) (rc_peers current)\<rparr>);
       if r_state r \<noteq> STATE_LEADER \<or> \<not> r_started r then Some (-1, r)
       else do { r \<leftarrow> Raft_DoPropose L S value kConfig r; Some (0, r) } })"

text \<open>\<^verbatim>\<open>RaftAddr::FromString\<close> of src/src/raft/raft_addr.h. \<open>scan_number\<close> is what \<^verbatim>\<open>sscanf\<close> reads for an
  integer conversion: white space, an optional sign and digits, \<open>None\<close> when there are no digits; the
  value is limited to the range \<open>lo\<close> to \<open>hi\<close> of the conversion and then stored in 16 bits. \<open>resolve\<close>
  is the name service behind \<^verbatim>\<open>HostNameToIpU32\<close>.\<close>

definition scan_number :: "int \<Rightarrow> int \<Rightarrow> string \<Rightarrow> u16 option" where
  "scan_number lo hi s = (
     let s = dropWhile (\<lambda>c. c \<in> set '' '' \<or> of_char c \<in> {9..13::nat}) s;
         (sign, s) = (case s of
            c # cs \<Rightarrow> (if c = CHR ''-'' then (-1, cs) else if c = CHR ''+'' then (1, cs) else (1, s))
          | [] \<Rightarrow> (1, s));
         ds = takeWhile (\<lambda>c. of_char c \<in> {48..57::nat}) s;
         v = sign * fold (\<lambda>c acc. acc * 10 + (of_char c - 48)) ds 0
     in if ds = [] then None else Some (of_int (max lo (min hi v))))"

definition RaftAddr_FromString :: "(string \<Rightarrow> u32 option) \<Rightarrow> string \<Rightarrow> RaftAddr \<Rightarrow>
    (bool \<times> RaftAddr) option" where
  "RaftAddr_FromString resolve s a = (let result = Split s CHR ''#'' in do {
     check (length result = 2);
     let i = (case scan_number (- (2 ^ 63)) (2 ^ 63 - 1) (result ! 1) of Some v \<Rightarrow> v | None \<Rightarrow> ra_id a);
     let ipport = Split (result ! 0) CHR '':'';
     check (1 < length ipport);
     let p = (case scan_number (- (2 ^ 64 - 1)) (2 ^ 64 - 1) (ipport ! 1) of
                Some v \<Rightarrow> v | None \<Rightarrow> ra_port a);
     Some (case resolve (ipport ! 0) of
             Some ip \<Rightarrow> (True, RaftAddr ip p i)
           | None \<Rightarrow> (False, RaftAddr (ra_ip a) p i)) })"

text \<open>\<^verbatim>\<open>OnClientRequest\<close> returns its code, what it writes to the connection, and the replica.\<close>

definition Raft_OnClientRequest :: "(string \<Rightarrow> u32 option) \<Rightarrow> 'db leveldb \<Rightarrow>
    ('sm, 'dir, 'rd, 'wr) sm_ops \<Rightarrow> ClientRequest \<Rightarrow> ('db, 'sm, 'dir, 'rd, 'wr) Raft \<Rightarrow>
    (int \<times> bytes option \<times> ('db, 'sm, 'dir, 'rd, 'wr) Raft) option" where
  "Raft_OnClientRequest resolve L S m r =
     (if \<not> r_started r then Some (0, None, r)
      else case cr_cmd m of
        kCmdPropose \<Rightarrow> do { (rv, r) \<leftarrow> Raft_Propose L S (cr_data m) r; Some (rv, None, r) }
      | kCmdLeaderTransfer \<Rightarrow> do {
          (b, dest) \<leftarrow> RaftAddr_FromString resolve (map (\<lambda>x. char_of (unat x)) (cr_data m))
                         (RaftAddr_FromU64 0);
          if b then do { (rv, r) \<leftarrow> Raft_LeaderTransfer L S dest r; Some (rv, None, r) }
          else Some (-1, None, r) }
      | kCmdGet \<Rightarrow> do {
          sm \<leftarrow> r_sm r;
          let (rv, value) = so_Get S (cr_data m) sm;
          let value = (if rv = -2 then map (\<lambda>c. of_char c) ''not found''
                       else if rv = -1 then map (\<lambda>c. of_char c) ''error'' else value);
          Some (rv, Some value, r) }
      | _ \<Rightarrow> Some (0, None, r))"

section \<open>One event at a time\<close>

text \<open>What the event loop of a replica calls: the expiry of a timer, a message, a request. The tick
  timer only prints.\<close>

datatype event =
    ElectionTimeout
  | RequestVoteTimeout u64
  | HeartBeatTimeout u64
  | RecvMsg Msg u64
  | ClientPropose bytes
  | ClientTransfer RaftAddr
  | ClientAddServer RaftAddr
  | ClientRemoveServer RaftAddr
  | DebugElection
  | StopReplica

definition map_snd :: "(int \<times> 'r) option \<Rightarrow> 'r option" where
  "map_snd = map_option snd"

fun Raft_recv :: "'db leveldb \<Rightarrow> ('sm, 'dir, 'rd, 'wr) sm_ops \<Rightarrow> u64 \<Rightarrow> Msg \<Rightarrow>
    ('db, 'sm, 'dir, 'rd, 'wr) action" where
  "Raft_recv L S junk (MPing m) r = Raft_OnPing m r"
| "Raft_recv L S junk (MPingReply m) r = Raft_OnPingReply m r"
| "Raft_recv L S junk (MRequestVote m) r = Raft_OnRequestVote L S m r"
| "Raft_recv L S junk (MRequestVoteReply m) r = Raft_OnRequestVoteReply L S m r"
| "Raft_recv L S junk (MAppendEntries m) r = Raft_OnAppendEntries L S m r"
| "Raft_recv L S junk (MAppendEntriesReply m) r = Raft_OnAppendEntriesReply L S m r"
| "Raft_recv L S junk (MInstallSnapshot m) r = Raft_OnInstallSnapshot L S junk m r"
| "Raft_recv L S junk (MInstallSnapshotReply m) r = Raft_OnInstallSnapshotReply L S m r"
| "Raft_recv L S junk (MTimeoutNow m) r = Raft_OnTimeoutNow L S m r"

text \<open>A timer event of a timer that is not active does not happen; it leaves the replica as it is.\<close>

definition expire_election :: "'db leveldb \<Rightarrow> ('sm, 'dir, 'rd, 'wr) sm_ops \<Rightarrow>
    ('db, 'sm, 'dir, 'rd, 'wr) action" where
  "expire_election L S r = (case tm_election (r_timer_mgr r) of
      Some t \<Rightarrow> (if uv_active t then do {
                   t \<leftarrow> uv_expire t;
                   Elect L S (r\<lparr>r_timer_mgr := (r_timer_mgr r)\<lparr>tm_election := Some t\<rparr>\<rparr>) }
                 else Some r)
    | None \<Rightarrow> Some r)"

definition expire_request_vote :: "'db leveldb \<Rightarrow> ('sm, 'dir, 'rd, 'wr) sm_ops \<Rightarrow> u64 \<Rightarrow>
    ('db, 'sm, 'dir, 'rd, 'wr) action" where
  "expire_request_vote L S a r = (case map_of (tm_request_votes (r_timer_mgr r)) a of
      Some (Some t) \<Rightarrow> (if uv_active t then do {
          t \<leftarrow> uv_expire t;
          let tm = (r_timer_mgr r)\<lparr>tm_request_votes :=
                     AList.update a (Some t) (tm_request_votes (r_timer_mgr r))\<rparr>;
          RequestVoteRpc L S (t_dest_addr t) (r\<lparr>r_timer_mgr := tm\<rparr>) }
        else Some r)
    | _ \<Rightarrow> Some r)"

definition expire_heartbeat :: "'db leveldb \<Rightarrow> ('sm, 'dir, 'rd, 'wr) sm_ops \<Rightarrow> u64 \<Rightarrow>
    ('db, 'sm, 'dir, 'rd, 'wr) action" where
  "expire_heartbeat L S a r = (case map_of (tm_heartbeats (r_timer_mgr r)) a of
      Some (Some t) \<Rightarrow> (if uv_active t then do {
          t \<leftarrow> uv_expire t;
          let tm = (r_timer_mgr r)\<lparr>tm_heartbeats :=
                     AList.update a (Some t) (tm_heartbeats (r_timer_mgr r))\<rparr>;
          HeartBeat L S (t_dest_addr t) (r\<lparr>r_timer_mgr := tm\<rparr>) }
        else Some r)
    | _ \<Rightarrow> Some r)"

fun Raft_step :: "'db leveldb \<Rightarrow> ('sm, 'dir, 'rd, 'wr) sm_ops \<Rightarrow> event \<Rightarrow>
    ('db, 'sm, 'dir, 'rd, 'wr) action" where
  "Raft_step L S ElectionTimeout r = expire_election L S r"
| "Raft_step L S (RequestVoteTimeout a) r = expire_request_vote L S a r"
| "Raft_step L S (HeartBeatTimeout a) r = expire_heartbeat L S a r"
| "Raft_step L S (RecvMsg m junk) r = Raft_recv L S junk m r"
| "Raft_step L S (ClientPropose v) r = map_snd (Raft_Propose L S v r)"
| "Raft_step L S (ClientTransfer a) r = map_snd (Raft_LeaderTransfer L S a r)"
| "Raft_step L S (ClientAddServer a) r = map_snd (Raft_AddServer L S a r)"
| "Raft_step L S (ClientRemoveServer a) r = map_snd (Raft_RemoveServer L S a r)"
| "Raft_step L S DebugElection r = map_snd (Raft_StartElection r)"
| "Raft_step L S StopReplica r = Raft_Stop S r"

end
