(* ===== verification/RaftSteps.thy ===== *)
theory RaftSteps
  imports RaftRpc
begin

text \<open>
  Every handler of a replica is a composition of a few primitive changes. This theory states them
  as the interface \<open>replica_steps\<close>: a relation between the replica before and after that contains
  the primitive changes, each under the condition the code makes it under, contains every event the
  replica handles; \<open>replica_lead_steps\<close> adds the change that makes a leader. The safety properties
  are interpretations of the two.
\<close>

section \<open>What a configuration change may touch\<close>

definition config_frame :: "('db, 'sm, 'dir, 'rd, 'wr) Raft \<Rightarrow> ('db, 'sm, 'dir, 'rd, 'wr) Raft \<Rightarrow> bool" where
  "config_frame r r' \<longleftrightarrow>
     r_started r' = r_started r \<and> r_state r' = r_state r \<and>
     r_commit r' = r_commit r \<and> r_last_apply r' = r_last_apply r \<and>
     r_meta r' = r_meta r \<and> r_leader r' = r_leader r \<and>
     r_sm r' = r_sm r \<and> r_sm_dir r' = r_sm_dir r \<and>
     r_send r' = r_send r \<and> r_make_timer r' = r_make_timer r \<and>
     r_enable_send r' = r_enable_send r \<and> r_enable_recv r' = r_enable_recv r \<and>
     r_leader_times r' = r_leader_times r \<and> r_enable_pre_vote r' = r_enable_pre_vote r \<and>
     r_pre_voting r' = r_pre_voting r \<and> r_leader_transfer r' = r_leader_transfer r \<and>
     r_transfer_max_term r' = r_transfer_max_term r \<and> r_interval_check r' = r_interval_check r \<and>
     r_last_heartbeat_timestamp r' = r_last_heartbeat_timestamp r \<and> r_standby r' = r_standby r \<and>
     r_clock r' = r_clock r \<and> r_uids r' = r_uids r \<and>
     r_outbox r' = r_outbox r"

lemma config_frame_refl [simp]: "config_frame r r"
  by (simp add: config_frame_def)

lemma config_frame_trans: "config_frame r r' \<Longrightarrow> config_frame r' r'' \<Longrightarrow> config_frame r r''"
  by (simp add: config_frame_def)

lemma AddPeer_frame: "Raft_AddPeer S a r = Some r' \<Longrightarrow> config_frame r r' \<and>
    r_log r' = r_log r \<and> r_config_mgr r' = r_config_mgr r"
  by (auto simp: Raft_AddPeer_def config_frame_def Let_def elim!: bind_eq_SomeE split: if_splits)

lemma DeletePeer_frame: "Raft_DeletePeer a r = Some r' \<Longrightarrow> config_frame r r' \<and>
    r_log r' = r_log r \<and> r_config_mgr r' = r_config_mgr r"
  by (auto simp: Raft_DeletePeer_def config_frame_def Let_def elim!: bind_eq_SomeE)

lemma add_nodes_frame: "add_nodes S ns c r = Some (c', r') \<Longrightarrow> config_frame r r' \<and>
    r_log r' = r_log r \<and> r_config_mgr r' = r_config_mgr r \<and> rc_me c' = rc_me c"
proof (induction ns arbitrary: c r)
  case (Cons n ns)
  then obtain x where x: "Raft_AddPeer S n r = Some x"
    "add_nodes S ns (c\<lparr>rc_peers := rc_peers c @ [n]\<rparr>) x = Some (c', r')"
    by (auto elim!: bind_eq_SomeE)
  from AddPeer_frame [OF x(1)] Cons.IH [OF x(2)] show ?case by (auto intro: config_frame_trans)
qed simp

lemma remove_nodes_frame: "remove_nodes ns c r = Some (c', r') \<Longrightarrow> config_frame r r' \<and>
    r_log r' = r_log r \<and> r_config_mgr r' = r_config_mgr r \<and> rc_me c' = rc_me c"
proof (induction ns arbitrary: c r)
  case (Cons n ns)
  then obtain x where x: "Raft_DeletePeer n r = Some x"
    "remove_nodes ns (c\<lparr>rc_peers := filter (\<lambda>p. \<not> RaftAddr_eq p n) (rc_peers c)\<rparr>) x = Some (c', r')"
    by (auto elim!: bind_eq_SomeE)
  from DeletePeer_frame [OF x(1)] Cons.IH [OF x(2)] show ?case by (auto intro: config_frame_trans)
qed simp

lemma DoConfigChange_frame:
  "Raft_DoConfigChange S rc r = Some (c', r') \<Longrightarrow> config_frame r r' \<and>
    r_log r' = r_log r \<and> r_config_mgr r' = r_config_mgr r \<and>
    rc_me c' = rc_me (cm_current (r_config_mgr r))"
  by (auto simp: Raft_DoConfigChange_def Let_def split: if_splits prod.splits
      dest!: add_nodes_frame remove_nodes_frame)

lemma ConfigChange_frame:
  "Raft_ConfigChange S rc i r = Some r' \<Longrightarrow> config_frame r r' \<and> r_log r' = r_log r \<and>
    Raft_Me r' = Raft_Me r"
  by (auto simp: Raft_ConfigChange_def Raft_Me_def ConfigManager_SetCurrent_def config_frame_def
      elim!: bind_eq_SomeE dest!: DoConfigChange_frame)

lemma ConfigRollback_frame:
  "Raft_ConfigRollback S i r = Some r' \<Longrightarrow> config_frame r r' \<and> r_log r' = r_log r"
  by (auto simp: Raft_ConfigRollback_def Let_def config_frame_def
      elim!: bind_eq_SomeE dest!: DoConfigChange_frame split: if_splits)

text \<open>The log touches the replica only through its callbacks.\<close>

lemma AppendOne_callback:
  assumes "RaftLog_AppendOne L cb e l s = Some (l', s')"
    and "\<And>rc i l s s'. cb rc i l s = Some s' \<Longrightarrow> P s s'" and "P s s"
  shows "P s s'"
  using assms
  by (auto simp: RaftLog_AppendOne_def Let_def elim!: bind_eq_SomeE split: if_splits prod.splits)

lemma delete_configs_callback:
  assumes "delete_configs cb is l s = Some (l', s')"
    and "\<And>i l s s'. cb i l s = Some s' \<Longrightarrow> P s s'" and "\<And>s. P s s"
    and "\<And>s s' s''. P s s' \<Longrightarrow> P s' s'' \<Longrightarrow> P s s''"
  shows "P s s'"
  using assms(1)
proof (induction "is" arbitrary: l s)
  case (Cons i "is")
  then show ?case using assms(2,4) by (fastforce simp: Let_def elim!: bind_eq_SomeE)
qed (simp add: assms(3))

lemma DeleteFrom_callback:
  assumes "RaftLog_DeleteFrom L cb i l s = Some (l', s')"
    and "\<And>i l s s'. cb i l s = Some s' \<Longrightarrow> P s s'" and "\<And>s. P s s"
    and "\<And>s s' s''. P s s' \<Longrightarrow> P s' s'' \<Longrightarrow> P s s''"
  shows "P s s'"
  using assms(1,3)
  by (auto simp: RaftLog_DeleteFrom_def Let_def elim!: bind_eq_SomeE split: if_splits prod.splits
      intro: delete_configs_callback [where P = P, OF _ assms(2-4)])

lemma log_AppendOne_frame: "log_AppendOne L S e r = Some r' \<Longrightarrow> config_frame r r'"
proof -
  assume "log_AppendOne L S e r = Some r'"
  then obtain l r0 where a: "RaftLog_AppendOne L (\<lambda>rc i l s. Raft_ConfigChange S rc i (s\<lparr>r_log := l\<rparr>))
      e (r_log r) r = Some (l, r0)" and r': "r' = r0\<lparr>r_log := l\<rparr>"
    by (auto simp: log_AppendOne_def elim!: bind_eq_SomeE)
  have "config_frame r r0"
    by (rule AppendOne_callback [where P = config_frame, OF a])
       (auto dest!: ConfigChange_frame simp: config_frame_def)
  then show ?thesis by (simp add: r' config_frame_def)
qed

lemma log_AppendOne_Me: "log_AppendOne L S e r = Some r' \<Longrightarrow> Raft_Me r' = Raft_Me r"
proof -
  assume "log_AppendOne L S e r = Some r'"
  then obtain l r0 where a: "RaftLog_AppendOne L (\<lambda>rc i l s. Raft_ConfigChange S rc i (s\<lparr>r_log := l\<rparr>))
      e (r_log r) r = Some (l, r0)" and r': "r' = r0\<lparr>r_log := l\<rparr>"
    by (auto simp: log_AppendOne_def elim!: bind_eq_SomeE)
  have "Raft_Me r0 = Raft_Me r"
    by (rule AppendOne_callback [where P = "\<lambda>r r'. Raft_Me r' = Raft_Me r", OF a])
       (auto dest!: ConfigChange_frame simp: Raft_Me_def)
  then show ?thesis by (simp add: r' Raft_Me_def)
qed

lemma log_DeleteFrom_frame: "log_DeleteFrom L S i r = Some r' \<Longrightarrow> config_frame r r'"
proof -
  assume "log_DeleteFrom L S i r = Some r'"
  then obtain l r0 where a: "RaftLog_DeleteFrom L (\<lambda>i l s. Raft_ConfigRollback S i (s\<lparr>r_log := l\<rparr>))
      i (r_log r) r = Some (l, r0)" and r': "r' = r0\<lparr>r_log := l\<rparr>"
    by (auto simp: log_DeleteFrom_def elim!: bind_eq_SomeE)
  have "config_frame r r0"
    by (rule DeleteFrom_callback [where P = config_frame, OF a])
       (auto dest!: ConfigRollback_frame simp: config_frame_def)
  then show ?thesis by (simp add: r' config_frame_def)
qed

section \<open>Other frames\<close>

text \<open>Changes that no property below depends on: the clock, the leader cache, the index and snapshot
  managers and the flags.\<close>

definition soft_eq :: "('db, 'sm, 'dir, 'rd, 'wr) Raft \<Rightarrow> ('db, 'sm, 'dir, 'rd, 'wr) Raft \<Rightarrow> bool" where
  "soft_eq r r' \<longleftrightarrow>
     r_started r' = r_started r \<and> r_state r' = r_state r \<and>
     r_commit r' = r_commit r \<and> r_last_apply r' = r_last_apply r \<and>
     r_log r' = r_log r \<and> r_meta r' = r_meta r \<and>
     r_config_mgr r' = r_config_mgr r \<and> r_vote_mgr r' = r_vote_mgr r \<and>
     r_sm r' = r_sm r \<and> r_sm_dir r' = r_sm_dir r \<and>
     r_timer_mgr r' = r_timer_mgr r \<and> r_send r' = r_send r \<and>
     r_changing_index r' = r_changing_index r \<and> r_standby r' = r_standby r \<and>
     r_outbox r' = r_outbox r"

text \<open>Sending changes nothing else but the outbox.\<close>

definition quiet :: "('db, 'sm, 'dir, 'rd, 'wr) Raft \<Rightarrow> ('db, 'sm, 'dir, 'rd, 'wr) Raft \<Rightarrow> bool" where
  "quiet r r' \<longleftrightarrow> soft_eq r (r'\<lparr>r_outbox := r_outbox r\<rparr>)"

lemma quiet_simps:
  assumes "quiet r r'"
  shows "r_state r' = r_state r" "r_meta r' = r_meta r" "r_config_mgr r' = r_config_mgr r"
    "r_timer_mgr r' = r_timer_mgr r" "r_commit r' = r_commit r" "Raft_Me r' = Raft_Me r"
  using assms by (simp_all add: quiet_def soft_eq_def Raft_Me_def)

lemma soft_eq_Me: "soft_eq r r' \<Longrightarrow> Raft_Me r' = Raft_Me r"
  by (simp add: soft_eq_def Raft_Me_def)

lemma StepDown_post:
  assumes "Raft_StepDown L t r = Some r'"
  shows "r_state r' = STATE_FOLLOWER" "r_term r' = t" "r_term r \<le> t"
    "r_vote r' = (if r_term r < t then 0 else r_vote r)" "Raft_Me r' = Raft_Me r"
    "r_commit r' = r_commit r" "r_log r' = r_log r" "r_sm r' = r_sm r"
  using assms
  by (auto simp: Raft_StepDown_def Let_def Raft_Me_def elim!: bind_eq_SomeE split: if_splits)

lemma reset_election_post:
  "reset_election r = Some r' \<Longrightarrow> \<exists>tm. r' = r\<lparr>r_timer_mgr := tm\<rparr>"
  by (auto simp: reset_election_def Let_def elim!: bind_eq_SomeE)

lemma update_leader_soft: "update_leader a r = Some r' \<Longrightarrow> soft_eq r r'"
  by (auto simp: update_leader_def soft_eq_def split: if_splits)

lemma record_heartbeat_soft: "soft_eq r (record_heartbeat r)"
  by (simp add: record_heartbeat_def NSec_def soft_eq_def)

text \<open>Applying entries changes the state machine and ends a configuration change.\<close>

definition apply_frame :: "('db, 'sm, 'dir, 'rd, 'wr) Raft \<Rightarrow> ('db, 'sm, 'dir, 'rd, 'wr) Raft \<Rightarrow> bool" where
  "apply_frame r r' \<longleftrightarrow>
     r_started r' = r_started r \<and> r_state r' = r_state r \<and>
     r_commit r' = r_commit r \<and> r_log r' = r_log r \<and>
     r_meta r' = r_meta r \<and> r_leader r' = r_leader r \<and>
     r_config_mgr r' = r_config_mgr r \<and> r_vote_mgr r' = r_vote_mgr r \<and>
     r_index_mgr r' = r_index_mgr r \<and> r_sm_dir r' = r_sm_dir r \<and>
     r_snapshot_mgr r' = r_snapshot_mgr r \<and> r_timer_mgr r' = r_timer_mgr r \<and>
     r_send r' = r_send r \<and> r_make_timer r' = r_make_timer r \<and>
     r_enable_send r' = r_enable_send r \<and> r_enable_recv r' = r_enable_recv r \<and>
     r_leader_times r' = r_leader_times r \<and> r_enable_pre_vote r' = r_enable_pre_vote r \<and>
     r_pre_voting r' = r_pre_voting r \<and> r_leader_transfer r' = r_leader_transfer r \<and>
     r_transfer_max_term r' = r_transfer_max_term r \<and> r_interval_check r' = r_interval_check r \<and>
     r_last_heartbeat_timestamp r' = r_last_heartbeat_timestamp r \<and> r_clock r' = r_clock r \<and>
     r_uids r' = r_uids r \<and> r_outbox r' = r_outbox r"

lemma apply_one_frame:
  "apply_one L S i r = Some r' \<Longrightarrow> apply_frame r r' \<and> r_last_apply r' = r_last_apply r"
  by (auto simp: apply_one_def Let_def apply_frame_def elim!: bind_eq_SomeE
      split: EntryType.splits option.splits prod.splits if_splits)

lemma apply_each_frame:
  "apply_each L S is r = Some r' \<Longrightarrow> apply_frame r r' \<and> r_last_apply r' = r_last_apply r"
proof (induction "is" arbitrary: r)
  case (Cons i "is")
  then obtain x where x: "apply_one L S i r = Some x" "apply_each L S is x = Some r'"
    by (auto elim!: bind_eq_SomeE)
  from apply_one_frame [OF x(1)] Cons.IH [OF x(2)] show ?case by (simp add: apply_frame_def)
qed (simp add: apply_frame_def)

lemma StateMachineApply_frame:
  "Raft_StateMachineApply L S r = Some r' \<Longrightarrow>
    apply_frame r r' \<and> r_last_apply r' = max (r_last_apply r) (r_commit r)"
  by (auto simp: Raft_StateMachineApply_def max_def apply_frame_def elim!: bind_eq_SomeE
      dest!: apply_each_frame split: if_splits)

section \<open>The primitive changes\<close>

text \<open>\<^verbatim>\<open>DoRequestVote\<close> up to the vote for itself, and \<^verbatim>\<open>BecomeLeader\<close> up to its first entry.\<close>

definition campaign :: "'db leveldb \<Rightarrow> ('db, 'sm, 'dir, 'rd, 'wr) Raft \<Rightarrow>
    ('db, 'sm, 'dir, 'rd, 'wr) Raft" where
  "campaign L r = (let r = Raft_BecomeCandidate (r\<lparr>r_meta := SolidData_IncrTerm L (r_meta r)\<rparr>)
     in r\<lparr>r_meta := SolidData_SetVote L (RaftAddr_ToU64 (Raft_Me r)) (r_meta r)\<rparr>)"

definition take_lead :: "('sm, 'dir, 'rd, 'wr) sm_ops \<Rightarrow> ('db, 'sm, 'dir, 'rd, 'wr) action" where
  "take_lead S r = do {
     check (r_state r = STATE_CANDIDATE);
     let r = r\<lparr>r_leader_transfer := False, r_state := STATE_LEADER, r_leader := Raft_Me r,
               r_leader_times := Suc (r_leader_times r),
               r_last_heartbeat_timestamp := INT64_MAX\<rparr>;
     tm \<leftarrow> TimerManager_StopElection (r_timer_mgr r);
     let tm = TimerManager_StopRequestVote tm;
     let im = IndexManager_ResetNext (Raft_LastIndex S r + 1) (r_index_mgr r);
     let im = IndexManager_ResetMatch 0 im;
     tm \<leftarrow> TimerManager_StartHeartBeat tm;
     Some (r\<lparr>r_timer_mgr := tm, r_index_mgr := im\<rparr>) }"

lemma BecomeLeader_take_lead: "Raft_BecomeLeader L S r = take_lead S r \<bind> Raft_AppendNoop L S"
  by (simp add: Raft_BecomeLeader_def take_lead_def Let_def)

lemma DoRequestVote_campaign:
  "Raft_DoRequestVote L S r = (let r = campaign L r in
     if VoteManager_QuorumAll (Raft_IfSelfVote r) (r_vote_mgr r) then Raft_BecomeLeader L S r
     else do {
       tm \<leftarrow> TimerManager_StartRequestVote (r_timer_mgr r);
       tm \<leftarrow> TimerManager_AgainElection tm;
       Some (r\<lparr>r_timer_mgr := tm\<rparr>) })"
  by (simp add: Raft_DoRequestVote_def campaign_def Let_def)

lemma campaign_post:
  "r_state (campaign L r) = STATE_CANDIDATE" "r_term (campaign L r) = r_term r + 1"
  "Raft_IfSelfVote (campaign L r)" "Raft_Me (campaign L r) = Raft_Me r"
  by (simp_all add: campaign_def Let_def Raft_BecomeCandidate_def Raft_IfSelfVote_def Raft_Me_def)

lemma QuorumAll_Majority:
  "VoteManager_QuorumAll my votes \<Longrightarrow> VoteManager_Majority my votes"
  by (auto simp: VoteManager_QuorumAll_def VoteManager_Majority_def vote_count_def list_all_iff
      split: if_splits)

text \<open>What a message to \<open>d\<close> says of its sender, the replica with address \<open>self\<close>.\<close>

fun honest :: "u64 \<Rightarrow> ('db, 'sm, 'dir, 'rd, 'wr) Raft \<Rightarrow> u64 \<Rightarrow> Msg \<Rightarrow> bool" where
  "honest self r d (MRequestVote m) \<longleftrightarrow> RaftAddr_ToU64 (rv_dest m) = d \<and>
     r_state r = STATE_CANDIDATE \<and> rv_term m = r_term r \<and> rv_src m = Raft_Me r"
| "honest self r d (MRequestVoteReply m) \<longleftrightarrow> RaftAddr_ToU64 (rvr_dest m) = d \<and>
     (rvr_granted m \<longrightarrow> RaftAddr_ToU64 (rvr_src m) = self \<and> rvr_term m = r_term r \<and>
        rvr_req_term m = r_term r \<and> r_vote r = d)"
| "honest self r d (MAppendEntries m) \<longleftrightarrow>
     r_state r = STATE_LEADER \<and> ap_term m = r_term r \<and> ap_src m = Raft_Me r"
| "honest self r d (MAppendEntriesReply m) \<longleftrightarrow> aer_term m = r_term r"
| "honest self r d (MInstallSnapshot m) \<longleftrightarrow>
     r_state r = STATE_LEADER \<and> is_term m = r_term r \<and> is_src m = Raft_Me r"
| "honest self r d (MInstallSnapshotReply m) \<longleftrightarrow> isr_term m = r_term r"
| "honest self r d (MTimeoutNow m) \<longleftrightarrow>
     r_state r = STATE_LEADER \<and> tn_term m = r_term r \<and> tn_src m = Raft_Me r"
| "honest self r d (MPing m) \<longleftrightarrow> pg_src m = Raft_Me r"
| "honest self r d (MPingReply m) \<longleftrightarrow> True"

text \<open>The events that can end in a won election, and the events of messages that were sent to
  \<open>self\<close>.\<close>

fun may_lead :: "event \<Rightarrow> bool" where
  "may_lead ElectionTimeout \<longleftrightarrow> True"
| "may_lead (RecvMsg (MRequestVoteReply m) junk) \<longleftrightarrow> True"
| "may_lead _ \<longleftrightarrow> False"

fun addressed :: "u64 \<Rightarrow> event \<Rightarrow> bool" where
  "addressed self (RecvMsg (MRequestVote m) junk) \<longleftrightarrow> RaftAddr_ToU64 (rv_dest m) = self"
| "addressed self _ \<longleftrightarrow> True"

text \<open>The peers whose vote is recorded.\<close>

definition granted :: "VoteManager \<Rightarrow> u64 set" where
  "granted votes = {k. \<exists>v. map_of votes k = Some v \<and> vi_grant v}"

lemma mem_granted: "k \<in> granted votes \<longleftrightarrow> vi_grant (map_at VoteItem_zero k votes)"
  by (simp add: granted_def map_at_def VoteItem_zero_def split: option.splits)

lemma map_at_map_upd_at:
  "map_at d j (map_upd_at d k f m) = (if j = k then f (map_at d k m) else map_at d j m)"
  by (simp add: map_at_def [of d j] map_of_map_upd_at)

lemma granted_map_upd_at:
  assumes "\<And>v. vi_grant (f v) = vi_grant v"
  shows "granted (map_upd_at VoteItem_zero k f votes) = granted votes"
  by (rule set_eqI) (simp add: mem_granted map_at_map_upd_at assms)

lemma granted_same [simp]:
  "granted (VoteManager_Done k votes) = granted votes"
  "granted (VoteManager_LogOK k votes) = granted votes"
  "granted (VoteManager_IntervalOK k votes) = granted votes"
  by (simp_all add: VoteManager_Done_def VoteManager_LogOK_def VoteManager_IntervalOK_def
      granted_map_upd_at)

lemma distinct_votes [simp]:
  "distinct (map fst votes) \<Longrightarrow> distinct (map fst (VoteManager_Done k votes))"
  "distinct (map fst votes) \<Longrightarrow> distinct (map fst (VoteManager_LogOK k votes))"
  "distinct (map fst votes) \<Longrightarrow> distinct (map fst (VoteManager_IntervalOK k votes))"
  "distinct (map fst votes) \<Longrightarrow> distinct (map fst (VoteManager_GetVote k votes))"
  by (simp_all add: VoteManager_Done_def VoteManager_LogOK_def VoteManager_IntervalOK_def
      VoteManager_GetVote_def map_upd_at_def distinct_update)

lemma granted_GetVote [simp]: "granted (VoteManager_GetVote k votes) = insert k (granted votes)"
  by (auto simp: granted_def VoteManager_GetVote_def map_of_map_upd_at)

lemma granted_Clear [simp]: "granted (VoteManager_Clear votes) = {}"
  by (auto simp: granted_def VoteManager_Clear_def map_of_map_all)

locale replica_steps =
  fixes L :: "'db leveldb" and S :: "('sm, 'dir, 'rd, 'wr) sm_ops"
    and R :: "('db, 'sm, 'dir, 'rd, 'wr) Raft \<Rightarrow> ('db, 'sm, 'dir, 'rd, 'wr) Raft \<Rightarrow> bool"
    and self :: u64 and vote_from :: "u64 \<Rightarrow> RaftTerm \<Rightarrow> bool"
  assumes trans: "R r r' \<Longrightarrow> R r' r'' \<Longrightarrow> R r r''"
    and soft: "soft_eq r r' \<Longrightarrow> R r r'"
    and send: "honest self r d m \<Longrightarrow> R r (r\<lparr>r_outbox := r_outbox r @ [(d, m)]\<rparr>)"
    and again_election: "r_state r \<noteq> STATE_LEADER \<Longrightarrow>
      TimerManager_AgainElection (r_timer_mgr r) = Some tm \<Longrightarrow> R r (r\<lparr>r_timer_mgr := tm\<rparr>)"
    and start_election: "r_state r = STATE_FOLLOWER \<Longrightarrow>
      TimerManager_StartElection (r_timer_mgr r) = Some tm \<Longrightarrow> R r (r\<lparr>r_timer_mgr := tm\<rparr>)"
    and expire_election: "tm_election (r_timer_mgr r) = Some t \<Longrightarrow> uv_expire t = Some t' \<Longrightarrow>
      R r (r\<lparr>r_timer_mgr := (r_timer_mgr r)\<lparr>tm_election := Some t'\<rparr>\<rparr>)"
    and stop_request_vote:
      "R r (r\<lparr>r_timer_mgr := TimerManager_StopRequestVote (r_timer_mgr r)\<rparr>)"
    and stop_request_vote_peer:
      "TimerManager_StopRequestVote_peer a (r_timer_mgr r) = Some tm \<Longrightarrow> R r (r\<lparr>r_timer_mgr := tm\<rparr>)"
    and start_request_vote: "r_state r = STATE_CANDIDATE \<Longrightarrow>
      TimerManager_StartRequestVote (r_timer_mgr r) = Some tm \<Longrightarrow> R r (r\<lparr>r_timer_mgr := tm\<rparr>)"
    and expire_request_vote: "map_of (tm_request_votes (r_timer_mgr r)) a = Some (Some t) \<Longrightarrow>
      uv_expire t = Some t' \<Longrightarrow> R r (r\<lparr>r_timer_mgr := (r_timer_mgr r)\<lparr>tm_request_votes :=
        AList.update a (Some t') (tm_request_votes (r_timer_mgr r))\<rparr>\<rparr>)"
    and again_heartbeat: "r_state r = STATE_LEADER \<Longrightarrow>
      TimerManager_AgainHeartBeat_peer a (r_timer_mgr r) = Some tm \<Longrightarrow> R r (r\<lparr>r_timer_mgr := tm\<rparr>)"
    and expire_heartbeat: "map_of (tm_heartbeats (r_timer_mgr r)) a = Some (Some t) \<Longrightarrow>
      uv_expire t = Some t' \<Longrightarrow> R r (r\<lparr>r_timer_mgr := (r_timer_mgr r)\<lparr>tm_heartbeats :=
        AList.update a (Some t') (tm_heartbeats (r_timer_mgr r))\<rparr>\<rparr>)"
    and step_down: "Raft_StepDown L term r = Some r' \<Longrightarrow> R r r'"
    and candidate: "r_state r = STATE_FOLLOWER \<or> r_state r = STATE_CANDIDATE \<Longrightarrow>
      R r (Raft_BecomeCandidate r)"
    and campaigning: "r_state r = STATE_FOLLOWER \<or> r_state r = STATE_CANDIDATE \<Longrightarrow>
      r_term r \<noteq> - 1 \<Longrightarrow> R r (campaign L r)"
    and voting: "r_state r = STATE_FOLLOWER \<Longrightarrow> r_vote r = 0 \<Longrightarrow>
      R r (r\<lparr>r_meta := SolidData_SetVote L v (r_meta r)\<rparr>)"
    and answered: "granted votes = granted (r_vote_mgr r) \<Longrightarrow>
      (distinct (map fst (r_vote_mgr r)) \<Longrightarrow> distinct (map fst votes)) \<Longrightarrow>
      R r (r\<lparr>r_vote_mgr := votes\<rparr>)"
    and granting: "vote_from src (r_term r) \<Longrightarrow>
      R r (r\<lparr>r_vote_mgr := VoteManager_GetVote src (r_vote_mgr r)\<rparr>)"
    and appending: "log_AppendOne L S e r = Some r' \<Longrightarrow> R r r'"
    and deleting: "r_state r = STATE_FOLLOWER \<Longrightarrow> r_commit r < i \<Longrightarrow>
      log_DeleteFrom L S i r = Some r' \<Longrightarrow> R r r'"
    and committing: "r_commit r < c \<Longrightarrow> c \<le> Raft_LastIndex S r \<Longrightarrow>
      Raft_StateMachineApply L S (r\<lparr>r_commit := c\<rparr>) = Some r' \<Longrightarrow> R r r'"
    and installing: "r_state r = STATE_FOLLOWER \<Longrightarrow> R r (r\<lparr>r_sm := sm, r_sm_dir := dir\<rparr>)"
    and stopping: "Raft_Stop S r = Some r' \<Longrightarrow> R r r'"
begin

lemma refl: "R r r"
  by (rule soft) (simp add: soft_eq_def)

lemma sending:
  assumes "Raft_send d m r = Some r'" "honest self r d m"
  shows "R r r'"
  using assms send refl by (auto simp: Raft_send_def elim!: bind_eq_SomeE split: if_splits)

lemma resetting:
  assumes "reset_election r = Some r'" "r_state r \<noteq> STATE_LEADER"
  shows "R r r'"
proof -
  let ?r = "r\<lparr>r_timer_mgr := TimerManager_StopRequestVote (r_timer_mgr r)\<rparr>"
  from assms(1) obtain tm where tm: "TimerManager_AgainElection (r_timer_mgr ?r) = Some tm"
    "r' = ?r\<lparr>r_timer_mgr := tm\<rparr>"
    by (auto simp: reset_election_def Let_def elim!: bind_eq_SomeE)
  show ?thesis unfolding tm(2)
    by (rule trans [OF stop_request_vote again_election]) (use assms(2) tm(1) in simp_all)
qed

end

section \<open>Frames of the handlers\<close>

lemma append_all_frame: "append_all L S es r = Some r' \<Longrightarrow> config_frame r r'"
proof (induction es arbitrary: r)
  case (Cons e es)
  then show ?case by (auto elim!: bind_eq_SomeE intro: config_frame_trans log_AppendOne_frame)
qed simp

lemma match_entries_frame: "match_entries L S index es r = Some r' \<Longrightarrow> config_frame r r'"
proof (induction es arbitrary: index)
  case (Cons e es)
  from Cons show ?case
    by (auto split: if_splits elim!: bind_eq_SomeE simp del: append_all.simps
        intro: append_all_frame config_frame_trans [OF log_DeleteFrom_frame append_all_frame])
qed simp

lemma follow_commit_frame:
  "follow_commit L S c r = Some r' \<Longrightarrow> apply_frame (r\<lparr>r_commit := max (r_commit r) c\<rparr>) r'"
  by (auto simp: follow_commit_def Let_def max_def apply_frame_def split: if_splits
      dest!: StateMachineApply_frame)

lemma MaybeCommit_frame:
  "Raft_MaybeCommit L S r = Some r' \<Longrightarrow> \<exists>c \<ge> r_commit r. apply_frame (r\<lparr>r_commit := c\<rparr>) r'"
  by (auto simp: Raft_MaybeCommit_def Let_def apply_frame_def elim!: bind_eq_SomeE split: if_splits
      dest!: StateMachineApply_frame)

lemma quiet_refl: "soft_eq r r' \<Longrightarrow> quiet r r'"
  by (simp add: quiet_def soft_eq_def)

lemma quiet_trans: "quiet r r' \<Longrightarrow> quiet r' r'' \<Longrightarrow> quiet r r''"
  by (simp add: quiet_def soft_eq_def)

lemma quiet_send: "Raft_send d m r1 = Some r' \<Longrightarrow> soft_eq r r1 \<Longrightarrow> quiet r r'"
  by (auto simp: Raft_send_def quiet_def soft_eq_def elim!: bind_eq_SomeE)

lemmas stamp_defs = NSec_def UniqId_def Let_def soft_eq_def Raft_Me_def

lemma SendInstallSnapshot_quiet: "Raft_SendInstallSnapshot S dest r = Some r' \<Longrightarrow> quiet r r'"
  by (auto simp: Raft_SendInstallSnapshot_def stamp_defs snapshot_upd_def
      elim!: bind_eq_SomeE quiet_send split: prod.splits if_splits option.splits)

lemma SendAppendEntries_cases:
  assumes "Raft_SendAppendEntries L S dest r = Some r'"
  obtains (snapshot) im where "Raft_SendInstallSnapshot S dest (r\<lparr>r_index_mgr := im\<rparr>) = Some r'"
  | (entries) r2 m where "Raft_send dest (MAppendEntries m) r2 = Some r'" "soft_eq r r2"
      "ap_term m = r_term r" "ap_src m = Raft_Me r"
proof -
  obtain nx im where im: "IndexManager_GetNext dest (r_index_mgr r) = (nx, im)" by fastforce
  from assms show ?thesis
    by (fastforce simp: Raft_SendAppendEntries_def im stamp_defs intro: that elim!: bind_eq_SomeE
      split: if_splits option.splits)
qed

lemma SendAppendEntries_quiet: "Raft_SendAppendEntries L S dest r = Some r' \<Longrightarrow> quiet r r'"
proof (erule SendAppendEntries_cases)
  fix im
  assume "Raft_SendInstallSnapshot S dest (r\<lparr>r_index_mgr := im\<rparr>) = Some r'"
  from SendInstallSnapshot_quiet [OF this] show "quiet r r'" by (simp add: quiet_def soft_eq_def)
qed (rule quiet_send)

lemma reply_success_state: "reply_success L S src reached r = Some r' \<Longrightarrow> r_state r' = r_state r"
  by (auto simp: reply_success_def Let_def elim!: bind_eq_SomeE split: prod.splits if_splits
      dest!: MaybeCommit_frame) (simp_all add: apply_frame_def)

lemma install_done_meta: "install_done S src i w r = Some r' \<Longrightarrow> r_meta r' = r_meta r"
  by (auto simp: install_done_def Let_def snapshot_upd_def NSec_def elim!: bind_eq_SomeE
      split: if_splits prod.splits option.splits)

lemma snapshot_stored_state: "snapshot_stored L S src st rd r = Some r' \<Longrightarrow> r_state r' = r_state r"
  by (auto simp: snapshot_stored_def Let_def snapshot_upd_def elim!: bind_eq_SomeE split: if_splits
      dest!: MaybeCommit_frame) (simp add: apply_frame_def)

lemma NSec_soft: "soft_eq r (snd (NSec r))" "soft_eq r (snd (UniqId r))"
  by (simp_all add: NSec_def UniqId_def soft_eq_def)

lemma check_interval_soft: "soft_eq r (snd (check_interval m r))"
  by (auto simp: check_interval_def NSec_def soft_eq_def)

lemma stamp_soft:
  assumes "UniqId r = (uid, r1)" "NSec r1 = (ts, r2)"
  shows "soft_eq r r2" "r_term r2 = r_term r" "r_state r2 = r_state r" "Raft_Me r2 = Raft_Me r"
    "r_timer_mgr r2 = r_timer_mgr r" "r_vote r2 = r_vote r"
  using assms by (auto simp: NSec_def UniqId_def soft_eq_def Raft_Me_def)

section \<open>Every event is a chain of primitive changes\<close>

context replica_steps
begin

declare trans [trans]

lemma start_campaign:
  assumes "TimerManager_StartRequestVote (r_timer_mgr r) = Some tm"
    and "TimerManager_AgainElection tm = Some tm'" and "r_state r = STATE_CANDIDATE"
  shows "R r (r\<lparr>r_timer_mgr := tm'\<rparr>)"
proof -
  let ?r = "r\<lparr>r_timer_mgr := tm\<rparr>"
  have "R ?r (?r\<lparr>r_timer_mgr := tm'\<rparr>)" by (rule again_election) (use assms in simp_all)
  with start_request_vote [OF assms(3,1)] show ?thesis by (auto intro: trans)
qed

lemma DoPreVote_steps:
  assumes "Raft_DoPreVote r = Some r'" "r_state r = STATE_FOLLOWER \<or> r_state r = STATE_CANDIDATE"
  shows "R r r'"
  using assms(1)
  by (auto simp: Raft_DoPreVote_def Let_def elim!: bind_eq_SomeE
      intro!: trans [OF candidate [OF assms(2)]] start_campaign)
     (simp_all add: Raft_BecomeCandidate_def)

lemma maybe_step_down_steps: "maybe_step_down L t r = Some r' \<Longrightarrow> R r r'"
  using step_down refl by (auto simp: maybe_step_down_def elim!: bind_eq_SomeE split: if_splits)

lemma give_vote_steps:
  assumes "give_vote L m log_ok r = Some r'"
  shows "R r r'"
proof (cases "rv_term m = r_term r \<and> log_ok \<and> r_vote r = 0")
  case True
  then obtain r2 r3 where r2: "Raft_StepDown L (r_term r) r = Some r2"
    and r3: "reset_election r2 = Some r3"
    and r': "r' = (if \<not> rv_pre_vote m
      then r3\<lparr>r_meta := SolidData_SetVote L (RaftAddr_ToU64 (rv_src m)) (r_meta r3)\<rparr> else r3)"
    using assms by (auto simp: give_vote_def elim!: bind_eq_SomeE)
  note post = StepDown_post [OF r2]
  have "r_state r3 = STATE_FOLLOWER" "r_vote r3 = 0"
    using reset_election_post [OF r3] post True by auto
  then have "R r3 r'" using r' voting refl by auto
  moreover have "R r2 r3" by (rule resetting [OF r3]) (simp add: post)
  ultimately show ?thesis using step_down [OF r2] trans by blast
qed (use assms refl in \<open>auto simp: give_vote_def split: if_splits\<close>)

lemma answer_vote_steps:
  assumes "answer_vote m uid log_ok io r = Some r'" "RaftAddr_ToU64 (rv_dest m) = self"
  shows "R r r'"
proof -
  have "R r (snd (NSec r))" by (rule soft [OF NSec_soft(1)])
  also have "R (snd (NSec r)) r'"
    using assms
    by (auto simp: answer_vote_def Raft_SendRequestVoteReply_def NSec_def elim!: sending)
  finally show ?thesis .
qed

lemma OnRequestVote_steps:
  assumes "Raft_OnRequestVote L S m r = Some r'" "RaftAddr_ToU64 (rv_dest m) = self"
  shows "R r r'"
proof (cases "r_started r")
  case True
  obtain uid r1 where r1: "UniqId r = (uid, r1)" by fastforce
  obtain io r2 where r2: "check_interval m r1 = (io, r2)" by fastforce
  obtain log_ok r3 where r3: "(if io then maybe_step_down L (rv_term m) r2 \<bind> give_vote L m log_ok
      else Some r2) = Some r3" and r': "answer_vote m uid log_ok io r3 = Some r'"
    using assms(1) True by (auto simp: Raft_OnRequestVote_def r1 r2 Let_def elim!: bind_eq_SomeE)
  have "R r r1" using soft [OF NSec_soft(2) [of r]] r1 by simp
  also have "R r1 r2" using soft [OF check_interval_soft [of r1 m]] r2 by simp
  also have "R r2 r3"
    using r3 by (auto elim!: bind_eq_SomeE split: if_splits
      intro: refl trans [OF maybe_step_down_steps give_vote_steps])
  also have "R r3 r'" by (rule answer_vote_steps [OF r' assms(2)])
  finally show ?thesis .
qed (use assms refl in \<open>simp add: Raft_OnRequestVote_def\<close>)

lemma soft_send: "Raft_send d m r1 = Some r' \<Longrightarrow> soft_eq r r1 \<Longrightarrow> honest self r1 d m \<Longrightarrow> R r r'"
  by (rule trans [OF soft sending])

lemma SendRequestVote_steps:
  assumes "Raft_SendRequestVote L S dest r = Some r'" "r_state r = STATE_CANDIDATE"
  shows "R r r'"
  using assms
  by (auto simp: Raft_SendRequestVote_def stamp_defs elim!: bind_eq_SomeE soft_send)

lemma RequestVoteRpc_steps: "RequestVoteRpc L S dest r = Some r' \<Longrightarrow> R r r'"
  by (auto simp: RequestVoteRpc_def split: if_splits intro: SendRequestVote_steps)

lemma SendTimeoutNow_steps:
  assumes "Raft_SendTimeoutNow L S dest force r = Some r'" "r_state r = STATE_LEADER"
  shows "R r r'"
  using assms by (auto simp: Raft_SendTimeoutNow_def stamp_defs elim!: bind_eq_SomeE soft_send)

lemma SendPing_steps: "Raft_SendPing dest r = Some r' \<Longrightarrow> R r r'"
  by (auto simp: Raft_SendPing_def stamp_defs elim!: soft_send)

lemma OnPing_steps: "Raft_OnPing m r = Some r' \<Longrightarrow> R r r'"
  using refl by (auto simp: Raft_OnPing_def stamp_defs split: if_splits elim!: soft_send)

lemma SendInstallSnapshot_steps:
  assumes "Raft_SendInstallSnapshot S dest r = Some r'" "r_state r = STATE_LEADER"
  shows "R r r'"
  using assms
  by (auto simp: Raft_SendInstallSnapshot_def stamp_defs snapshot_upd_def elim!: bind_eq_SomeE soft_send
      split: prod.splits if_splits option.splits)

lemma SendAppendEntries_steps:
  assumes "Raft_SendAppendEntries L S dest r = Some r'" "r_state r = STATE_LEADER"
  shows "R r r'"
  using assms(1)
proof (cases rule: SendAppendEntries_cases)
  case (snapshot im)
  have "R r (r\<lparr>r_index_mgr := im\<rparr>)" by (rule soft) (simp add: soft_eq_def)
  also have "R \<dots> r'" by (rule SendInstallSnapshot_steps [OF snapshot]) (simp add: assms(2))
  finally show ?thesis .
next
  case (entries r2 m)
  show ?thesis
    by (rule soft_send [OF entries(1,2)])
       (use entries assms(2) in \<open>simp add: soft_eq_def soft_eq_Me [OF entries(2)]\<close>)
qed

lemma HeartBeat_steps: "HeartBeat L S dest r = Some r' \<Longrightarrow> R r r'"
  by (auto simp: HeartBeat_def split: if_splits intro: SendAppendEntries_steps)

lemma append_all_steps: "append_all L S es r = Some r' \<Longrightarrow> R r r'"
proof (induction es arbitrary: r)
  case (Cons e es)
  then show ?case by (auto elim!: bind_eq_SomeE intro: trans [OF appending])
qed (simp add: refl)

lemma match_entries_steps:
  "match_entries L S index es r = Some r' \<Longrightarrow> r_state r = STATE_FOLLOWER \<Longrightarrow> R r r'"
proof (induction es arbitrary: index)
  case (Cons e es)
  note delete = trans [OF deleting append_all_steps [of "e # es"]]
  from Cons show ?case
    by (auto split: if_splits elim!: bind_eq_SomeE simp del: append_all.simps
        intro: append_all_steps [of "e # es"] delete)
qed (simp add: refl)

lemma follow_commit_steps: "follow_commit L S c r = Some r' \<Longrightarrow> R r r'"
  using refl committing [of r c r']
  by (auto simp: follow_commit_def Raft_LastIndex_def Let_def split: if_splits)

lemma MaybeCommit_steps: "Raft_MaybeCommit L S r = Some r' \<Longrightarrow> R r r'"
  using refl committing [of r "IndexManager_MajorityMax (Raft_LastIndex S r) (r_index_mgr r)" r']
  by (auto simp: Raft_MaybeCommit_def Let_def elim!: bind_eq_SomeE split: if_splits)
     (auto simp: Raft_LastIndex_def Let_def le_max_iff_disj)

lemma accept_entries_steps:
  assumes "accept_entries L S m reply r = Some r'" "r_state r = STATE_FOLLOWER"
    and "aer_term reply = r_term r"
  shows "R r r'"
proof -
  consider "Raft_SendAppendEntriesReply reply r = Some r'"
    | r1 r2 r3 where "match_entries L S (ap_pre_log_index m) (ap_entries m) r = Some r1"
      "follow_commit L S (ap_commit_index m) r1 = Some r2" "reset_election r2 = Some r3"
      "Raft_SendAppendEntriesReply (reply\<lparr>aer_success := True,
         aer_last_log_index := Raft_LastIndex S r1\<rparr>) (record_heartbeat r3) = Some r'"
    using assms(1)
    by (auto simp: accept_entries_def Let_def elim!: bind_eq_SomeE split: if_splits)
  then show ?thesis
  proof cases
    case 1
    then show ?thesis unfolding Raft_SendAppendEntriesReply_def by (rule sending) (use assms(3) in simp)
  next
    case 2
    obtain tm where r3: "r3 = r2\<lparr>r_timer_mgr := tm\<rparr>" using reset_election_post [OF 2(3)] by blast
    have st: "r_state r2 = STATE_FOLLOWER" "r_term r3 = r_term r"
      using match_entries_frame [OF 2(1)] follow_commit_frame [OF 2(2)] assms(2)
      by (simp_all add: r3 config_frame_def apply_frame_def)
    have "R r r1" by (rule match_entries_steps [OF 2(1) assms(2)])
    also have "R r1 r2" by (rule follow_commit_steps [OF 2(2)])
    also have "R r2 r3" by (rule resetting [OF 2(3)]) (simp add: st)
    also have "R r3 r'"
      by (rule soft_send [OF 2(4) [unfolded Raft_SendAppendEntriesReply_def] record_heartbeat_soft])
         (use st assms(3) in \<open>simp add: record_heartbeat_def NSec_def\<close>)
    finally show ?thesis .
  qed
qed

text \<open>The common start of the handlers that hear from a leader.\<close>

lemma hear_leader_steps:
  assumes "Raft_StepDown L t r = Some r1" "reset_election r1 = Some r2"
    and "update_leader src (record_heartbeat r2) = Some r3"
  shows "R r r3" "r_state r3 = STATE_FOLLOWER" "r_term r3 = t"
proof -
  have "R r r1" by (rule step_down [OF assms(1)])
  also have "R r1 r2" by (rule resetting [OF assms(2)]) (simp add: StepDown_post [OF assms(1)])
  also have "R r2 (record_heartbeat r2)" by (rule soft [OF record_heartbeat_soft])
  also have "R (record_heartbeat r2) r3" by (rule soft [OF update_leader_soft [OF assms(3)]])
  finally show "R r r3" .
  show "r_state r3 = STATE_FOLLOWER" "r_term r3 = t"
    using update_leader_soft [OF assms(3)] record_heartbeat_soft [of r2]
      reset_election_post [OF assms(2)] StepDown_post [OF assms(1)]
    by (auto simp: soft_eq_def)
qed

lemma OnAppendEntries_steps:
  assumes "Raft_OnAppendEntries L S m r = Some r'"
  shows "R r r'"
proof (cases "r_started r")
  case True
  obtain uid r0 where r0: "UniqId r = (uid, r0)" by fastforce
  obtain ts r1 where r1: "NSec r0 = (ts, r1)" by fastforce
  note stamp = stamp_soft [OF r0 r1]
  have "R r r1" by (rule soft [OF stamp(1)])
  also have "R r1 r'"
  proof (cases "ap_term m < r_term r1")
    case True
    then show ?thesis using assms \<open>r_started r\<close>
      by (auto simp: Raft_OnAppendEntries_def r0 r1 Let_def Raft_SendAppendEntriesReply_def
          entries_rejection_def elim!: sending)
  next
    case False
    let ?reply = "entries_rejection m uid ts (r_term r1) (Raft_LastIndex S r1)"
    from False obtain r2 r3 r4 where *: "Raft_StepDown L (ap_term m) r1 = Some r2"
      "reset_election r2 = Some r3" "update_leader (ap_src m) (record_heartbeat r3) = Some r4"
      and r': "accept_entries L S m ?reply r4 = Some r'"
      using assms \<open>r_started r\<close>
      by (auto simp: Raft_OnAppendEntries_def r0 r1 Let_def elim!: bind_eq_SomeE)
    have reply: "aer_term ?reply = ap_term m" using False by (simp add: entries_rejection_def)
    note hear = hear_leader_steps [OF *]
    show ?thesis by (rule trans [OF hear(1) accept_entries_steps [OF r']]) (use hear reply in simp_all)
  qed
  finally show ?thesis .
qed (use assms refl in \<open>simp add: Raft_OnAppendEntries_def\<close>)

lemma send_more_steps:
  assumes "send_more L S src r = Some r'" "r_state r = STATE_LEADER"
  shows "R r r'"
proof -
  obtain nx im where im: "IndexManager_GetNext src (r_index_mgr r) = (nx, im)" by fastforce
  let ?r1 = "r\<lparr>r_index_mgr := im\<rparr>"
  have soft1: "R r ?r1" by (rule soft) (simp add: soft_eq_def)
  show ?thesis
  proof (cases "nx \<le> Raft_LastIndex S ?r1")
    case True
    then obtain r2 tm where r2: "Raft_SendAppendEntries L S src ?r1 = Some r2"
      "TimerManager_AgainHeartBeat_peer src (r_timer_mgr r2) = Some tm" "r' = r2\<lparr>r_timer_mgr := tm\<rparr>"
      using assms(1) by (auto simp: send_more_def im Let_def elim!: bind_eq_SomeE)
    have st: "r_state r2 = STATE_LEADER"
      using quiet_simps(1) [OF SendAppendEntries_quiet [OF r2(1)]] assms(2) by simp
    note soft1
    also have "R ?r1 r2" by (rule SendAppendEntries_steps [OF r2(1)]) (simp add: assms(2))
    also have "R r2 r'" unfolding r2(3) by (rule again_heartbeat [OF st r2(2)])
    finally show ?thesis .
  next
    case False
    then show ?thesis using assms(1) soft1 by (auto simp: send_more_def im Let_def)
  qed
qed

lemma reply_success_steps: "reply_success L S src reached r = Some r' \<Longrightarrow> R r r'"
proof -
  assume a: "reply_success L S src reached r = Some r'"
  obtain mt im where im: "IndexManager_GetMatch src (r_index_mgr r) = (mt, im)" by fastforce
  obtain r1 where r1: "(if mt > reached then Some (r\<lparr>r_index_mgr := im\<rparr>)
      else Raft_MaybeCommit L S (r\<lparr>r_index_mgr := IndexManager_SetMatch src reached im\<rparr>)) = Some r1"
    and r': "soft_eq r1 r'"
    using a by (auto simp: reply_success_def im Let_def soft_eq_def elim!: bind_eq_SomeE
      split: prod.splits if_splits)
  have "R r (r\<lparr>r_index_mgr := m\<rparr>)" for m by (rule soft) (simp add: soft_eq_def)
  then have "R r r1" using r1 by (auto split: if_splits intro: trans MaybeCommit_steps)
  also have "R r1 r'" by (rule soft [OF r'])
  finally show ?thesis .
qed

lemma OnAppendEntriesReply_steps:
  assumes "Raft_OnAppendEntriesReply L S m r = Some r'"
  shows "R r r'"
proof (cases "r_started r \<and> aer_term m = r_term r \<and> aer_req_term m = r_term r")
  case True
  let ?src = "RaftAddr_ToU64 (aer_src m)"
  obtain r1 where st: "r_state r = STATE_LEADER" and r1: "(if aer_success m
      then reply_success L S ?src (aer_req_pre_index m + aer_req_num_entries m) r
      else Some (reply_failure ?src (aer_last_log_index m) r)) = Some r1"
    and r': "send_more L S ?src r1 = Some r'"
    using assms True
    by (auto simp: Raft_OnAppendEntriesReply_def Let_def elim!: bind_eq_SomeE split: if_splits)
  have fail: "soft_eq r (reply_failure ?src i r)" for i
    by (simp add: reply_failure_def Let_def soft_eq_def split: prod.splits)
  have "R r r1" using r1 reply_success_steps soft [OF fail] by (auto split: if_splits)
  moreover have "r_state r1 = STATE_LEADER"
    using r1 st fail [of "aer_last_log_index m"] reply_success_state [of L S ?src _ r r1]
    by (auto simp: soft_eq_def split: if_splits)
  ultimately show ?thesis using send_more_steps [OF r'] trans by blast
qed (use assms step_down refl in \<open>auto simp: Raft_OnAppendEntriesReply_def split: if_splits\<close>)

lemma install_done_steps:
  assumes "install_done S src i w r = Some r'" "r_state r = STATE_FOLLOWER"
  shows "R r r'"
proof -
  consider "soft_eq r r'" | sm dir where "soft_eq (r\<lparr>r_sm := sm, r_sm_dir := dir\<rparr>) r'"
    using assms(1)
    by (auto simp: install_done_def Let_def soft_eq_def snapshot_upd_def NSec_def elim!: bind_eq_SomeE
        split: if_splits prod.splits option.splits)
  then show ?thesis
    using soft installing [OF assms(2)] trans by cases blast+
qed

lemma store_chunk_steps:
  assumes "store_chunk S m reply r = Some r'" "r_state r = STATE_FOLLOWER"
    and "isr_term reply = r_term r"
  shows "R r r'"
proof -
  let ?src = "RaftAddr_ToU64 (is_src m)"
  obtain w r1 where r1: "snapshot_writer S ?src (is_last_index m) (is_last_term m) r = Some (w, r1)"
    using assms(1) by (auto simp: store_chunk_def Let_def elim!: bind_eq_SomeE)
  have s1: "soft_eq r r1"
    using r1 by (auto simp: snapshot_writer_def Let_def snapshot_upd_def NSec_def soft_eq_def
      elim!: bind_eq_SomeE split: option.splits)
  show ?thesis
  proof (cases "sint (is_offset m) < sint (wr_stored S w)")
    case True
    then show ?thesis using assms r1 s1
      by (auto simp: store_chunk_def Raft_SendInstallSnapshotReply_def Let_def
          elim!: soft_send) (simp add: soft_eq_def)
  next
    case False
    obtain rv w' where w: "wr_Write S (is_data m) w = (rv, w')" by fastforce
    let ?r2 = "snapshot_upd ?src (\<lambda>sn. sn\<lparr>sn_writer := Some w'\<rparr>) r1"
    have s2: "soft_eq r ?r2" using s1 by (simp add: soft_eq_def snapshot_upd_def)
    obtain r3 r4 where r3: "reset_election ?r2 = Some r3"
      and r4: "(if is_done m then install_done S ?src (is_last_index m) w' r3 else Some r3) = Some r4"
      and r': "Raft_SendInstallSnapshotReply (reply\<lparr>isr_stored := wr_stored S w'\<rparr>) r4 = Some r'"
      using assms(1) r1 w False
      by (auto simp: store_chunk_def Let_def elim!: bind_eq_SomeE split: if_splits)
    obtain tm where r3': "r3 = ?r2\<lparr>r_timer_mgr := tm\<rparr>" using reset_election_post [OF r3] by blast
    have st: "r_state r3 = STATE_FOLLOWER" "r_state ?r2 \<noteq> STATE_LEADER" "r_meta r3 = r_meta r"
      using s2 assms(2) by (simp_all add: r3' soft_eq_def)
    have "r_meta r4 = r_meta r3"
      using r4 by (auto split: if_splits dest!: install_done_meta)
    then have h: "honest self r4 (RaftAddr_ToU64 (isr_dest reply)) (MInstallSnapshotReply (reply\<lparr>isr_stored := wr_stored S w'\<rparr>))"
      using st assms(3) by simp
    have "R r ?r2" by (rule soft [OF s2])
    also have "R ?r2 r3" by (rule resetting [OF r3 st(2)])
    also have "R r3 r4" using r4 refl install_done_steps [OF _ st(1)] by (auto split: if_splits)
    also have "R r4 r'" by (rule sending [OF r' [unfolded Raft_SendInstallSnapshotReply_def]]) (use h in simp)
    finally show ?thesis .
  qed
qed

lemma OnInstallSnapshot_steps:
  assumes "Raft_OnInstallSnapshot L S junk m r = Some r'"
  shows "R r r'"
proof (cases "r_started r")
  case True
  obtain uid r0 where r0: "UniqId r = (uid, r0)" by fastforce
  obtain ts r1 where r1: "NSec r0 = (ts, r1)" by fastforce
  note stamp = stamp_soft [OF r0 r1]
  have "R r r1" by (rule soft [OF stamp(1)])
  also have "R r1 r'"
  proof (cases "is_term m < r_term r1")
    case True
    then show ?thesis using assms \<open>r_started r\<close>
      by (auto simp: Raft_OnInstallSnapshot_def r0 r1 Let_def Raft_SendInstallSnapshotReply_def
          snapshot_reply_def elim!: sending)
  next
    case False
    let ?reply = "snapshot_reply m uid ts (r_term r1) junk"
    from False obtain r2 r3 r4 where *: "Raft_StepDown L (is_term m) r1 = Some r2"
      "reset_election r2 = Some r3" "update_leader (is_src m) (record_heartbeat r3) = Some r4"
      and r': "store_chunk S m ?reply r4 = Some r'"
      using assms \<open>r_started r\<close>
      by (auto simp: Raft_OnInstallSnapshot_def r0 r1 Let_def elim!: bind_eq_SomeE)
    have reply: "isr_term ?reply = is_term m" using False by (simp add: snapshot_reply_def)
    note hear = hear_leader_steps [OF *]
    show ?thesis by (rule trans [OF hear(1) store_chunk_steps [OF r']]) (use hear reply in simp_all)
  qed
  finally show ?thesis .
qed (use assms refl in \<open>simp add: Raft_OnInstallSnapshot_def\<close>)

lemma snapshot_stored_steps:
  assumes "snapshot_stored L S src st reader r = Some r'"
  shows "R r r'"
proof -
  consider "r' = r" | im r1 where "Raft_MaybeCommit L S (r\<lparr>r_index_mgr := im\<rparr>) = Some r1" "soft_eq r1 r'"
    using assms
    by (auto simp: snapshot_stored_def Let_def soft_eq_def snapshot_upd_def elim!: bind_eq_SomeE
        split: if_splits)
  then show ?thesis
  proof cases
    case 2
    have "R r (r\<lparr>r_index_mgr := im\<rparr>)" by (rule soft) (simp add: soft_eq_def)
    also have "R \<dots> r1" by (rule MaybeCommit_steps [OF 2(1)])
    also have "R r1 r'" by (rule soft [OF 2(2)])
    finally show ?thesis .
  qed (simp add: refl)
qed

lemma snapshot_progress_steps:
  assumes "snapshot_progress L S m rd r = Some r'"
  shows "R r r'"
proof (cases "isr_term m < r_term r \<or> isr_req_term m \<noteq> r_term r")
  case True
  then have "r' = r" using assms by (simp add: snapshot_progress_def split: if_splits)
  then show ?thesis by (simp add: refl)
next
  case False
  let ?src = "RaftAddr_ToU64 (isr_src m)"
  have st: "r_state r = STATE_LEADER"
    using assms False by (simp add: snapshot_progress_def split: if_splits)
  show ?thesis
  proof (cases "isr_term m > r_term r")
    case True
    then show ?thesis using assms False st step_down by (simp add: snapshot_progress_def)
  next
    case le: False
    then obtain r2 where r2: "snapshot_stored L S ?src (isr_stored m) rd r = Some r2"
      "send_more L S ?src r2 = Some r'"
      using assms False st by (simp add: snapshot_progress_def Let_def) (erule bind_eq_SomeE, rule that)
    have "r_state r2 = STATE_LEADER" using st snapshot_stored_state [OF r2(1)] by simp
    then show ?thesis by (rule trans [OF snapshot_stored_steps [OF r2(1)] send_more_steps [OF r2(2)]])
  qed
qed

lemma OnInstallSnapshotReply_steps:
  assumes "Raft_OnInstallSnapshotReply L S m r = Some r'"
  shows "R r r'"
proof (cases "r_started r")
  case True
  let ?r1 = "snapshot_upd (RaftAddr_ToU64 (isr_src m)) (\<lambda>sn. sn) r"
  have "R r ?r1" by (rule soft) (simp add: soft_eq_def snapshot_upd_def)
  also have "R ?r1 r'"
    using assms True
    by (auto simp: Raft_OnInstallSnapshotReply_def Let_def elim!: bind_eq_SomeE snapshot_progress_steps)
  finally show ?thesis .
qed (use assms refl in \<open>simp add: Raft_OnInstallSnapshotReply_def\<close>)

lemma OnTimeoutNow_steps:
  assumes "Raft_OnTimeoutNow L S m r = Some r'"
  shows "R r r'"
proof (cases "r_started r")
  case True
  let ?r1 = "r\<lparr>r_leader_transfer := True, r_transfer_max_term := r_term r + MAX_TRANSFER_TERM\<rparr>"
  have r1: "R r ?r1" by (rule soft) (simp add: soft_eq_def)
  obtain r2 where r2: "maybe_step_down L (tn_term m) ?r1 = Some r2"
    and "r' = r2 \<or> r_state r2 = STATE_FOLLOWER \<and>
      (\<exists>tm. TimerManager_StartElection (r_timer_mgr r2) = Some tm \<and> r' = r2\<lparr>r_timer_mgr := tm\<rparr>)"
    using assms True
    by (auto simp: Raft_OnTimeoutNow_def Let_def elim!: bind_eq_SomeE split: if_splits)
  then have "R r2 r'" using refl start_election by auto
  with r1 maybe_step_down_steps [OF r2] show ?thesis by (blast intro: trans)
qed (use assms refl in \<open>simp add: Raft_OnTimeoutNow_def\<close>)

lemma send_peers_steps:
  "send_peers L S peers r = Some r' \<Longrightarrow> r_state r = STATE_LEADER \<Longrightarrow> R r r'"
proof (induction peers arbitrary: r)
  case (Cons p peers)
  let ?p = "RaftAddr_ToU64 p"
  obtain r1 tm where r1: "Raft_SendAppendEntries L S ?p r = Some r1"
    "TimerManager_AgainHeartBeat_peer ?p (r_timer_mgr r1) = Some tm"
    "send_peers L S peers (r1\<lparr>r_timer_mgr := tm\<rparr>) = Some r'"
    using Cons.prems(1) by (auto elim!: bind_eq_SomeE)
  have st: "r_state r1 = STATE_LEADER"
    using quiet_simps(1) [OF SendAppendEntries_quiet [OF r1(1)]] Cons.prems(2) by simp
  have "R r r1" by (rule SendAppendEntries_steps [OF r1(1) Cons.prems(2)])
  also have "R r1 (r1\<lparr>r_timer_mgr := tm\<rparr>)" by (rule again_heartbeat [OF st r1(2)])
  also have "R \<dots> r'" by (rule Cons.IH [OF r1(3)]) (simp add: st)
  finally show ?case .
qed (simp add: refl)

lemma DoPropose_steps:
  assumes "Raft_DoPropose L S value type r = Some r'" "r_state r = STATE_LEADER"
  shows "R r r'"
proof -
  obtain e r1 r2 where r1: "log_AppendOne L S e r = Some r1" and r2: "Raft_MaybeCommit L S r1 = Some r2"
    and r': "send_peers L S (Raft_Peers r2) r2 = Some r'"
    using assms(1) by (auto simp: Raft_DoPropose_def elim!: bind_eq_SomeE)
  have st: "r_state r2 = STATE_LEADER"
    using log_AppendOne_frame [OF r1] MaybeCommit_frame [OF r2] assms(2)
    by (auto simp: config_frame_def apply_frame_def)
  have "R r r1" by (rule appending [OF r1])
  also have "R r1 r2" by (rule MaybeCommit_steps [OF r2])
  also have "R r2 r'" by (rule send_peers_steps [OF r' st])
  finally show ?thesis .
qed

lemma client_steps:
  "map_snd (Raft_Propose L S v r) = Some r' \<Longrightarrow> R r r'"
  "map_snd (Raft_LeaderTransfer L S a r) = Some r' \<Longrightarrow> R r r'"
  "map_snd (Raft_AddServer L S a r) = Some r' \<Longrightarrow> R r r'"
  "map_snd (Raft_RemoveServer L S a r) = Some r' \<Longrightarrow> R r r'"
  "map_snd (Raft_StartElection r) = Some r' \<Longrightarrow> R r r'"
  by (auto simp: map_snd_def Raft_Propose_def Raft_LeaderTransfer_def Raft_AddServer_def
      Raft_RemoveServer_def Raft_StartElection_def Let_def elim!: bind_eq_SomeE split: if_splits
      intro: refl start_election DoPropose_steps SendTimeoutNow_steps)

lemma expire_steps:
  "RaftRpc.expire_request_vote L S a r = Some r' \<Longrightarrow> R r r'"
  "RaftRpc.expire_heartbeat L S a r = Some r' \<Longrightarrow> R r r'"
  by (auto simp: expire_request_vote_def expire_heartbeat_def Let_def refl
      elim!: bind_eq_SomeE split: option.splits if_splits
      intro: trans [OF expire_request_vote RequestVoteRpc_steps]
        trans [OF expire_heartbeat HeartBeat_steps])

lemma step_without_election:
  assumes "Raft_step L S ev r = Some r'" "\<not> may_lead ev" "addressed self ev"
  shows "R r r'"
proof (cases ev)
  case (RecvMsg m junk)
  then show ?thesis
    using assms refl
    by (cases m) (auto simp: Raft_OnPingReply_def intro: OnPing_steps OnRequestVote_steps
      OnAppendEntries_steps OnAppendEntriesReply_steps OnInstallSnapshot_steps
      OnInstallSnapshotReply_steps OnTimeoutNow_steps)
qed (use assms in \<open>auto intro: expire_steps client_steps stopping\<close>)

end

text \<open>Only winning an election makes a leader, which is the last primitive change.\<close>

locale replica_lead_steps = replica_steps +
  assumes leading: "VoteManager_Majority (Raft_IfSelfVote r) (r_vote_mgr r) \<Longrightarrow>
      take_lead S r = Some r' \<Longrightarrow> R r r'"
begin

lemma BecomeLeader_steps:
  assumes "Raft_BecomeLeader L S r = Some r'"
    and "VoteManager_Majority (Raft_IfSelfVote r) (r_vote_mgr r)"
  shows "R r r'"
  using assms
  by (auto simp: BecomeLeader_take_lead Raft_AppendNoop_def elim!: bind_eq_SomeE
      intro: trans [OF leading appending])

lemma DoRequestVote_steps:
  assumes "Raft_DoRequestVote L S r = Some r'"
    and "r_state r = STATE_FOLLOWER \<or> r_state r = STATE_CANDIDATE" "r_term r \<noteq> - 1"
  shows "R r r'"
proof -
  have "R (campaign L r) r'"
    using assms(1)
    using BecomeLeader_steps [of "campaign L r" r', OF _ QuorumAll_Majority]
    by (auto simp: DoRequestVote_campaign Let_def campaign_post elim!: bind_eq_SomeE split: if_splits
        intro: start_campaign)
  with campaigning [OF assms(2,3)] show ?thesis by (rule trans)
qed

lemma Elect_steps:
  assumes "Elect L S r = Some r'" "r_term r \<noteq> - 1"
  shows "R r r'"
proof -
  have st: "r_state r = STATE_FOLLOWER \<or> r_state r = STATE_CANDIDATE"
    using assms(1) by (auto simp: Elect_def split: if_splits)
  have pv: "R r (r\<lparr>r_pre_voting := b\<rparr>)" for b by (rule soft) (simp add: soft_eq_def)
  consider "\<exists>tm. TimerManager_AgainElection (r_timer_mgr r) = Some tm \<and> r' = r\<lparr>r_timer_mgr := tm\<rparr>"
    | "Raft_DoPreVote (r\<lparr>r_pre_voting := True\<rparr>) = Some r'"
    | "Raft_DoRequestVote L S (r\<lparr>r_pre_voting := False\<rparr>) = Some r'"
    using assms(1) by (auto simp: Elect_def elim!: bind_eq_SomeE split: if_splits)
  then show ?thesis
  proof cases
    case 1
    then show ?thesis using st by (auto intro: again_election)
  next
    case 2
    then show ?thesis by (rule trans [OF pv DoPreVote_steps]) (use st in simp)
  next
    case 3
    then show ?thesis by (rule trans [OF pv DoRequestVote_steps]) (use st assms(2) in simp_all)
  qed
qed

lemma vote_answered_steps:
  assumes "vote_answered L S m r = Some r'"
    and "rvr_granted m \<Longrightarrow> vote_from (RaftAddr_ToU64 (rvr_src m)) (r_term r)"
  shows "R r r'"
proof -
  let ?src = "RaftAddr_ToU64 (rvr_src m)"
  let ?r1 = "r\<lparr>r_vote_mgr := VoteManager_Done ?src (r_vote_mgr r)\<rparr>"
  obtain tm where tm: "TimerManager_StopRequestVote_peer ?src (r_timer_mgr ?r1) = Some tm"
    and rest: "(let r = ?r1\<lparr>r_timer_mgr := tm\<rparr> in
     if rvr_granted m then do {
       let r = r\<lparr>r_vote_mgr := VoteManager_GetVote ?src (r_vote_mgr r)\<rparr>;
       if VoteManager_Majority (Raft_IfSelfVote r) (r_vote_mgr r) \<and> r_state r = STATE_CANDIDATE
       then Raft_BecomeLeader L S r
       else Some r }
     else Some r) = Some r'"
    using assms(1) by (auto simp: vote_answered_def Let_def elim!: bind_eq_SomeE)
  let ?r2 = "?r1\<lparr>r_timer_mgr := tm\<rparr>"
  have "R r ?r1" by (rule answered) simp_all
  also have "R ?r1 ?r2" by (rule stop_request_vote_peer [OF tm])
  also have "R ?r2 r'"
  proof (cases "rvr_granted m")
    case True
    have "R ?r2 (?r2\<lparr>r_vote_mgr := VoteManager_GetVote ?src (r_vote_mgr ?r2)\<rparr>)"
      by (rule granting) (use assms(2) True in simp)
    also have "R \<dots> r'"
      using rest True by (auto simp: Let_def split: if_splits intro: BecomeLeader_steps refl)
    finally show ?thesis .
  qed (use rest refl in \<open>auto simp: Let_def\<close>)
  finally show ?thesis .
qed

lemma pre_vote_answered_steps:
  assumes "pre_vote_answered L S m r = Some r'" "r_term r \<noteq> - 1"
  shows "R r r'"
proof -
  let ?src = "RaftAddr_ToU64 (rvr_src m)"
  obtain tm where tm: "TimerManager_StopRequestVote_peer ?src (r_timer_mgr r) = Some tm"
    using assms(1) by (auto simp: pre_vote_answered_def Let_def elim!: bind_eq_SomeE)
  let ?votes = "pre_vote_flags m (r_vote_mgr r)"
  have votes: "granted ?votes = granted (r_vote_mgr r)"
    "distinct (map fst (r_vote_mgr r)) \<Longrightarrow> distinct (map fst ?votes)"
    by (simp_all add: pre_vote_flags_def Let_def)
  have rest: "(let r = r\<lparr>r_timer_mgr := tm, r_vote_mgr := ?votes\<rparr> in
      if rvr_log_ok m \<and> VoteManager_MajorityPreVoteOK True (r_vote_mgr r) \<and>
        r_state r = STATE_CANDIDATE \<and> r_pre_voting r
      then Raft_DoRequestVote L S (r\<lparr>r_pre_voting := False\<rparr>) else Some r) = Some r'"
    using assms(1) tm by (auto simp: pre_vote_answered_def Let_def split: if_splits)
  let ?r1 = "r\<lparr>r_timer_mgr := tm\<rparr>"
  let ?r2 = "?r1\<lparr>r_vote_mgr := ?votes\<rparr>"
  have "R r ?r1" by (rule stop_request_vote_peer [OF tm])
  also have "R ?r1 ?r2" by (rule answered) (simp_all add: votes)
  also have "R ?r2 r'"
  proof (cases "Some ?r2 = Some r'")
    case False
    then have req: "Raft_DoRequestVote L S (?r2\<lparr>r_pre_voting := False\<rparr>) = Some r'"
      and st: "r_state r = STATE_CANDIDATE"
      using rest by (auto simp: Let_def split: if_splits)
    have "R ?r2 (?r2\<lparr>r_pre_voting := False\<rparr>)" by (rule soft) (simp add: soft_eq_def)
    also have "R \<dots> r'" by (rule DoRequestVote_steps [OF req]) (use st assms(2) in simp_all)
    finally show ?thesis .
  qed (simp add: refl)
  finally show ?thesis .
qed

lemma OnRequestVoteReply_steps:
  assumes "Raft_OnRequestVoteReply L S m r = Some r'" "r_term r \<noteq> - 1"
    and "rvr_granted m \<Longrightarrow> rvr_term m = r_term r \<Longrightarrow> vote_from (RaftAddr_ToU64 (rvr_src m)) (r_term r)"
  shows "R r r'"
  using assms vote_answered_steps [of m r r'] pre_vote_answered_steps [of m r r'] step_down refl
  by (auto simp: Raft_OnRequestVoteReply_def split: if_splits)

theorem step_all:
  assumes "Raft_step L S ev r = Some r'" "addressed self ev" "r_term r \<noteq> - 1"
    and "\<And>m junk. ev = RecvMsg (MRequestVoteReply m) junk \<Longrightarrow> rvr_granted m \<Longrightarrow>
      rvr_term m = r_term r \<Longrightarrow> vote_from (RaftAddr_ToU64 (rvr_src m)) (r_term r)"
  shows "R r r'"
proof (cases "may_lead ev")
  case True
  then consider "ev = ElectionTimeout" | m junk where "ev = RecvMsg (MRequestVoteReply m) junk"
    by (cases ev rule: may_lead.cases) auto
  then show ?thesis
  proof cases
    case 1
    with assms show ?thesis
      by (auto simp: expire_election_def refl elim!: bind_eq_SomeE split: option.splits if_splits
          intro: trans [OF expire_election Elect_steps])
  next
    case 2
    with assms show ?thesis using OnRequestVoteReply_steps by simp
  qed
qed (rule step_without_election [OF assms(1) _ assms(2)])

end

end
