(* ===== verification/RaftServer.thy ===== *)
theory RaftServer
  imports RaftSteps
begin

text \<open>
  The server around a replica (src/src/raft/raft_server.cc): how it sets a replica up and starts
  it.
\<close>

section \<open>Setting up a replica\<close>

text \<open>\<^verbatim>\<open>RaftServer::Init\<close> on the databases found on disk: the replica is constructed and initialised, and
  the functions that send and make timers are installed. Whether pre-votes are used is set by the
  application before the start.\<close>

definition RaftServer_Init :: "'db leveldb \<Rightarrow> ('sm, 'dir, 'rd, 'wr) sm_ops \<Rightarrow> 'db \<Rightarrow> 'db \<Rightarrow> 'db \<Rightarrow>
    'dir \<Rightarrow> (nat \<Rightarrow> u32) \<Rightarrow> (nat \<Rightarrow> int) \<Rightarrow> (nat \<Rightarrow> u32) \<Rightarrow> RaftConfig \<Rightarrow>
    ('db, 'sm, 'dir, 'rd, 'wr) Raft option" where
  "RaftServer_Init L S log_db config_db meta_db dir gen clock uids rc = do {
     r \<leftarrow> Raft_Init L S (Raft_new log_db config_db \<lparr>sd_term = 0, sd_vote = 0, sd_db = meta_db\<rparr>
            dir gen clock uids rc);
     let r = r\<lparr>r_send := True, r_make_timer := True\<rparr>;
     Some (Raft_EnableRecv (Raft_EnableSend r)) }"

definition RaftServer_Start :: "'db leveldb \<Rightarrow> ('sm, 'dir, 'rd, 'wr) sm_ops \<Rightarrow>
    ('db, 'sm, 'dir, 'rd, 'wr) action" where
  "RaftServer_Start L S r = Raft_Start L S r"

text \<open>A replica that has just been set up and started.\<close>

definition booted :: "'db leveldb \<Rightarrow> ('sm, 'dir, 'rd, 'wr) sm_ops \<Rightarrow> 'db \<Rightarrow> 'db \<Rightarrow> 'db \<Rightarrow>
    ('db, 'sm, 'dir, 'rd, 'wr) Raft \<Rightarrow> bool" where
  "booted L S log_db config_db meta_db r \<longleftrightarrow> (\<exists>dir gen clock uids rc r0 pre_vote standby.
     RaftServer_Init L S log_db config_db meta_db dir gen clock uids rc = Some r0 \<and>
     RaftServer_Start L S (r0\<lparr>r_enable_pre_vote := pre_vote, r_standby := standby\<rparr>) = Some r)"

lemma booted_cases:
  assumes "booted L S log_db config_db meta_db r"
  obtains meta r1 peers where "SolidData_Init L meta_db = Some meta"
    "r_meta r1 = meta" "r_state r1 = STATE_FOLLOWER" "r_commit r1 = 0" "r_outbox r1 = []"
    "r_vote_mgr r1 = VoteManager_Reset peers" "Raft_Start L S r1 = Some r"
proof -
  obtain dir gen clock uids rc r0 pv sb where r0:
    "RaftServer_Init L S log_db config_db meta_db dir gen clock uids rc = Some r0"
    and r: "Raft_Start L S (r0\<lparr>r_enable_pre_vote := pv, r_standby := sb\<rparr>) = Some r"
    using assms by (auto simp: booted_def RaftServer_Start_def)
  from r0 obtain meta where meta: "SolidData_Init L meta_db = Some meta"
    and r0': "r_meta r0 = meta" "r_state r0 = STATE_FOLLOWER" "r_commit r0 = 0" "r_outbox r0 = []"
      "r_vote_mgr r0 = VoteManager_Reset (Raft_Peers r0)"
    by (auto simp: RaftServer_Init_def Raft_Init_def Raft_new_def Raft_InitConfig_def Let_def Raft_Peers_def
        Raft_ResetManagerPeers_def Raft_EnableSend_def Raft_EnableRecv_def
        elim!: bind_eq_SomeE split: if_splits)
  then show ?thesis using that [OF meta _ _ _ _ _ r] by auto
qed

lemma Start_cases:
  assumes "Raft_Start L S r1 = Some r"
  obtains r2 tm1 tm2 where "r_started r2" "r_meta r2 = r_meta r1" "r_state r2 = r_state r1" "r_commit r2 = r_commit r1"
    "r_outbox r2 = r_outbox r1" "r_vote_mgr r2 = r_vote_mgr r1" "r_log r2 = r_log r1"
    "r_config_mgr r2 = r_config_mgr r1"
    "TimerManager_MakeTimer ((r_timer_mgr r1)\<lparr>tm_maketimer_func := True\<rparr>) = Some tm1"
    "TimerManager_StartTick tm1 = Some tm2" "r_timer_mgr r2 = tm2"
    "Raft_StepDown L (r_term r1) r2 = Some r"
proof -
  obtain ra where ra: "(case (so_create S, r_sm r1) of
      (Some create_sm, None) \<Rightarrow> do { sm \<leftarrow> create_sm (r_sm_dir r1); Some (r1\<lparr>r_sm := Some sm\<rparr>) }
    | _ \<Rightarrow> Some r1) = Some ra"
    and rest: "do {
     let r = (case r_sm ra of
                Some sm \<Rightarrow> (let sm = so_Restore S sm
                            in ra\<lparr>r_sm := Some sm, r_last_apply := so_LastIndex S sm\<rparr>)
              | None \<Rightarrow> ra);
     let r = r\<lparr>r_started := True\<rparr>;
     check (r_make_timer r);
     tm \<leftarrow> TimerManager_MakeTimer ((r_timer_mgr r)\<lparr>tm_maketimer_func := True\<rparr>);
     tm \<leftarrow> TimerManager_StartTick tm;
     let r = r\<lparr>r_timer_mgr := tm\<rparr>;
     Raft_StepDown L (r_term r) r } = Some r"
    using assms unfolding Raft_Start_def by (rule bind_eq_SomeE)
  have ra': "ra = r1 \<or> (\<exists>sm. ra = r1\<lparr>r_sm := Some sm\<rparr>)"
    using ra by (cases "so_create S"; cases "r_sm r1") (auto elim!: bind_eq_SomeE)
  show ?thesis
  proof (cases "r_sm ra")
    case None
    with rest ra' show ?thesis
      by (auto simp: Let_def elim!: bind_eq_SomeE split: if_splits intro: that [rotated 11])
  next
    case (Some a)
    with rest ra' show ?thesis
      by (auto simp: Let_def elim!: bind_eq_SomeE split: if_splits intro: that [rotated 11])
  qed
qed

section \<open>Runs\<close>

text \<open>What a replica with address \<open>self\<close> goes through: events one after the other, requests for votes
  being addressed to it, and its term staying below the largest number.\<close>

inductive replica_run :: "'db leveldb \<Rightarrow> ('sm, 'dir, 'rd, 'wr) sm_ops \<Rightarrow> u64 \<Rightarrow>
    ('db, 'sm, 'dir, 'rd, 'wr) Raft \<Rightarrow> ('db, 'sm, 'dir, 'rd, 'wr) Raft \<Rightarrow> bool"
  for L :: "'db leveldb" and S :: "('sm, 'dir, 'rd, 'wr) sm_ops" and self :: u64
    and r0 :: "('db, 'sm, 'dir, 'rd, 'wr) Raft" where
  start: "replica_run L S self r0 r0"
| event: "replica_run L S self r0 r \<Longrightarrow> addressed self ev \<Longrightarrow> r_term r \<noteq> - 1 \<Longrightarrow>
    Raft_step L S ev r = Some r' \<Longrightarrow> replica_run L S self r0 r'"

lemma run_all:
  assumes "replica_lead_steps L S R self (\<lambda>_ _. True)" and "replica_run L S self r r'"
  shows "R r r'"
  using assms(2)
proof induction
  case start
  from assms(1) show ?case by (rule replica_steps.refl [OF replica_lead_steps.axioms(1)])
next
  case (event r1 ev r2)
  then have "R r1 r2" using replica_lead_steps.step_all [OF assms(1)] by blast
  with event.IH show ?case
    using replica_steps.trans [OF replica_lead_steps.axioms(1) [OF assms(1)]] by blast
qed

section \<open>A new server\<close>

lemma make_all_total:
  "(\<And>a. \<exists>t. f a = Some t) \<Longrightarrow> \<exists>m'. make_all f m = Some m' \<and> map fst m' = map fst m"
proof (induction m)
  case (Cons x m)
  then obtain m' t where "make_all f m = Some m'" "map fst m' = map fst m" "f (fst x) = Some t" by blast
  then show ?case by (cases x) simp
qed simp

text \<open>What \<^verbatim>\<open>Start\<close> needs of the timers.\<close>

lemma MakeTimer_total:
  assumes "tm_maketimer_func tm"
  obtains tm' tick election where "TimerManager_MakeTimer tm = Some tm'"
    "tm_tick tm' = Some tick" "\<not> uv_closing tick"
    "tm_election tm' = Some election" "\<not> uv_closing election"
    "map fst (tm_request_votes tm') = map fst (tm_request_votes tm)"
    "map fst (tm_heartbeats tm') = map fst (tm_heartbeats tm)"
proof -
  obtain tm1 where tm1: "TimerManager_MakeTick tm = Some tm1" "tm_maketimer_func tm1"
    "\<exists>t. tm_tick tm1 = Some t \<and> \<not> uv_closing t" "tm_request_votes tm1 = tm_request_votes tm"
    "tm_heartbeats tm1 = tm_heartbeats tm"
    using assms by (auto simp: TimerManager_MakeTick_def Timer_new_def)
  obtain tm2 where tm2: "TimerManager_MakeElection tm1 = Some tm2" "tm_maketimer_func tm2"
    "\<exists>t. tm_election tm2 = Some t \<and> \<not> uv_closing t" "tm_tick tm2 = tm_tick tm1"
    "tm_request_votes tm2 = tm_request_votes tm" "tm_heartbeats tm2 = tm_heartbeats tm"
    using tm1 by (auto simp: TimerManager_MakeElection_def SimpleRandom_Get_def Timer_new_def)
  obtain m where m: "make_all (\<lambda>a. TimerManager_CreateRpcTimer a tm2) (tm_request_votes tm2) = Some m"
    "map fst m = map fst (tm_request_votes tm)"
    using make_all_total [of "\<lambda>a. TimerManager_CreateRpcTimer a tm2" "tm_request_votes tm2"] tm2
    by (auto simp: TimerManager_CreateRpcTimer_def)
  let ?tm3 = "tm2\<lparr>tm_request_votes := m\<rparr>"
  obtain m' where m': "make_all (\<lambda>a. TimerManager_CreateHeartbeatTimer a ?tm3) (tm_heartbeats ?tm3) = Some m'"
    "map fst m' = map fst (tm_heartbeats tm)"
    using make_all_total [of "\<lambda>a. TimerManager_CreateHeartbeatTimer a ?tm3" "tm_heartbeats ?tm3"] tm2
    by (auto simp: TimerManager_CreateHeartbeatTimer_def)
  have "TimerManager_MakeTimer tm = Some (?tm3\<lparr>tm_heartbeats := m'\<rparr>)"
    using tm1(1) tm2(1) m m'
    by (simp add: TimerManager_MakeTimer_def TimerManager_MakeElectionPpc_def TimerManager_MakeHeartbeat_def)
  moreover obtain t1 t2 where "tm_tick tm1 = Some t1" "\<not> uv_closing t1" "tm_election tm2 = Some t2" "\<not> uv_closing t2"
    using tm1(3) tm2(3) by blast
  ultimately show ?thesis using that [of "?tm3\<lparr>tm_heartbeats := m'\<rparr>" t1 t2] tm2 m m' by simp
qed

lemma AgainElection_total:
  assumes "tm_election tm = Some t" "\<not> uv_closing t"
  obtains tm' t' where "TimerManager_AgainElection tm = Some tm'" "tm_election tm' = Some t'"
    "uv_active t'" "\<not> uv_closing t'" "uv_repeat t' = 0" "tm_request_votes tm' = tm_request_votes tm"
    "tm_heartbeats tm' = tm_heartbeats tm"
  using assms
  by (auto simp: TimerManager_AgainElection_def SimpleRandom_Get_def Timer_Again_def UvTimerStart_def
      UvTimerStop_def Let_def)

context leveldb_store
begin

lemma fresh_log:
  obtains l where "RaftLog_Init L (RaftLog_new (ldb_open L) (ldb_open L)) = Some l"
    "log_rep L l 0 0 []" "rl_config_db l = ldb_open L"
  using Init_rep [OF init_db_fresh, of "ldb_open L" "ldb_open L"] scan_open get_open
  by (auto simp: fun_eq_iff)

lemma fresh_Init:
  assumes "RaftConfig_ok rc"
  obtains r where
    "RaftServer_Init L S (ldb_open L) (ldb_open L) (ldb_open L) dir gen clock uids rc = Some r"
    "r_term r = 1" "r_vote r = 0" "solid_rep L (r_meta r)" "log_rep L (r_log r) 0 0 []"
    "cm_current (r_config_mgr r) = rc" "r_vote_mgr r = VoteManager_Reset (rc_peers rc)"
    "r_sm r = None" "r_sm_dir r = dir" "r_make_timer r" "r_send r" "r_outbox r = []"
    "map fst (tm_heartbeats (r_timer_mgr r)) = map fst (r_vote_mgr r)"
proof -
  obtain sd where sd: "SolidData_Init L (ldb_open L) = Some sd" "sd_term sd = 1" "sd_vote sd = 0"
    "solid_rep L sd"
    using solid_Init_fresh [OF get_open get_open] by blast
  obtain l where l: "RaftLog_Init L (RaftLog_new (ldb_open L) (ldb_open L)) = Some l"
    "log_rep L l 0 0 []" "rl_config_db l = ldb_open L" by (rule fresh_log)
  obtain l' where l': "RaftLog_AppendFirstConfig L rc 1 l = Some l'" "log_rep L l' 0 0 []"
    using l(2) RaftConfig_ToStr_eq [OF assms] by (simp add: RaftLog_AppendFirstConfig_def log_rep_def)
  have keys: "map fst (fold (\<lambda>addr. AList.update (RaftAddr_ToU64 addr) a) ps xs) =
      map fst (fold (\<lambda>addr. AList.update (RaftAddr_ToU64 addr) b) ps ys)"
    if "map fst xs = map fst ys" for a :: "Timer option" and b :: VoteItem and ps xs ys
    using that by (induction ps arbitrary: xs ys) (simp_all add: AList.update_keys)
  show ?thesis
    using sd l l' that RaftLog_LastConfig_def scan_open keys [of "[]" "[]"]
    by (simp add: RaftServer_Init_def Raft_Init_def Raft_new_def Raft_InitConfig_def ConfigManager_new_def
        Raft_ResetManagerPeers_def Raft_Peers_def Raft_EnableSend_def Raft_EnableRecv_def
        TimerManager_Reset_def VoteManager_Reset_def RaftLog_LastConfig_def Let_def)
qed

text \<open>Starting succeeds when the state machine, if the server has one, can be created.\<close>

lemma fresh_start:
  assumes "RaftConfig_ok rc" "case so_create S of Some create \<Rightarrow> create dir \<noteq> None | None \<Rightarrow> True"
  obtains r0 r t where "RaftServer_Init L S (ldb_open L) (ldb_open L) (ldb_open L) dir gen clock uids rc = Some r0"
    "RaftServer_Start L S (r0\<lparr>r_enable_pre_vote := pre_vote, r_standby := standby\<rparr>) = Some r"
    "r_state r = STATE_FOLLOWER" "r_term r = 1" "r_vote r = 0" "solid_rep L (r_meta r)"
    "log_rep L (r_log r) 0 0 []" "cm_current (r_config_mgr r) = rc"
    "r_vote_mgr r = VoteManager_Reset (rc_peers rc)"
    "r_standby r = standby" "tm_election (r_timer_mgr r) = Some t" "uv_active t" "\<not> uv_closing t" "uv_repeat t = 0"
    "map fst (tm_heartbeats (r_timer_mgr r)) = map fst (r_vote_mgr r)" "r_outbox r = []"
proof -
  obtain r0 where r0: "RaftServer_Init L S (ldb_open L) (ldb_open L) (ldb_open L) dir gen clock uids rc = Some r0"
    "r_term r0 = 1" "r_vote r0 = 0" "solid_rep L (r_meta r0)" "log_rep L (r_log r0) 0 0 []"
    "cm_current (r_config_mgr r0) = rc" "r_vote_mgr r0 = VoteManager_Reset (rc_peers rc)"
    "r_sm r0 = None" "r_sm_dir r0 = dir" "r_make_timer r0" "r_send r0" "r_outbox r0 = []"
    "map fst (tm_heartbeats (r_timer_mgr r0)) = map fst (r_vote_mgr r0)"
    by (rule fresh_Init [OF assms(1)])
  let ?r1 = "r0\<lparr>r_enable_pre_vote := pre_vote, r_standby := standby\<rparr>"
  obtain tm tick el where tm: "TimerManager_MakeTimer ((r_timer_mgr r0)\<lparr>tm_maketimer_func := True\<rparr>) = Some tm"
    "tm_tick tm = Some tick" "\<not> uv_closing tick" "tm_election tm = Some el" "\<not> uv_closing el"
    "map fst (tm_heartbeats tm) = map fst (r_vote_mgr r0)"
    by (rule MakeTimer_total [of "(r_timer_mgr r0)\<lparr>tm_maketimer_func := True\<rparr>"]) (simp_all add: r0)
  obtain tm2 where tm2: "TimerManager_StartTick tm = Some tm2" "tm_election tm2 = Some el"
    "tm_heartbeats tm2 = tm_heartbeats tm"
    using tm by (auto simp: TimerManager_StartTick_def Timer_Start_def UvTimerStart_def)
  let ?tm3 = "TimerManager_StopRequestVote (TimerManager_StopHeartBeat tm2)"
  have el: "tm_election ?tm3 = Some el"
    using tm2 by (simp add: TimerManager_StopRequestVote_def TimerManager_StopHeartBeat_def)
  obtain tm4 t where tm4: "TimerManager_AgainElection ?tm3 = Some tm4" "tm_election tm4 = Some t"
    "uv_active t" "\<not> uv_closing t" "uv_repeat t = 0" "tm_heartbeats tm4 = tm_heartbeats ?tm3"
    by (rule AgainElection_total [OF el tm(5)])
  have hb: "map fst (tm_heartbeats tm4) = map fst (r_vote_mgr r0)"
    using tm4(6) tm2(3) tm(6)
    by (simp add: TimerManager_StopRequestVote_def TimerManager_StopHeartBeat_def)
  obtain r where r: "Raft_Start L S ?r1 = Some r" "r_state r = STATE_FOLLOWER" "r_meta r = r_meta r0"
    "r_log r = r_log r0" "r_config_mgr r = r_config_mgr r0" "r_vote_mgr r = r_vote_mgr r0"
    "r_standby r = standby" "r_timer_mgr r = tm4" "r_outbox r = []"
    using tm tm2 tm4 r0 assms(2) by (auto simp: Raft_Start_def Raft_StepDown_def Let_def split: option.splits)
  then have "RaftServer_Start L S ?r1 = Some r" by (simp add: RaftServer_Start_def)
  then show ?thesis using that [OF r0(1), of r] r r0 tm4 hb by simp
qed

lemma lone_leads:
  assumes "r_state r = STATE_FOLLOWER" "\<not> r_standby r" "Raft_Peers r = []" "r_vote_mgr r = []"
    and "tm_election (r_timer_mgr r) = Some t" "uv_active t" "\<not> uv_closing t" "uv_repeat t = 0"
    and "list_all (\<lambda>(a, t). case t of Some t \<Rightarrow> \<not> uv_closing t | None \<Rightarrow> True) (tm_heartbeats (r_timer_mgr r))"
    and "log_rep L (r_log r) b c es" "Suc (b + length es) < 2 ^ 30"
  shows "\<exists>r'. Raft_step L S ElectionTimeout r = Some r' \<and> r_state r' = STATE_LEADER \<and>
    r_term r' = r_term r + 1 \<and> r_vote r' = RaftAddr_ToU64 (Raft_Me r) \<and>
    r_vote_mgr r' = [] \<and> Raft_Me r' = Raft_Me r \<and>
    log_rep L (r_log r') b c (es @ [\<lparr>ae_term = r_term r + 1, ae_type = kNoop, ae_value = [0x30]\<rparr>])"
proof -
  let ?t = "t\<lparr>uv_active := False\<rparr>"
  let ?r = "campaign L (r\<lparr>r_timer_mgr := (r_timer_mgr r)\<lparr>tm_election := Some ?t\<rparr>, r_pre_voting := False\<rparr>)"
  have el: "uv_expire t = Some ?t"
    using assms(6-8) by (simp add: uv_expire_def UvTimerStop_def Let_def)
  have start: "\<exists>m'. each_timer (Timer_Again x y) m = Some m'"
    if "list_all (\<lambda>(a, t). case t of Some t \<Rightarrow> \<not> uv_closing t | None \<Rightarrow> True) m" for x y and m :: timer_map
    using that
  proof (induction m)
    case (Cons z m)
    obtain a o' where "z = (a, o')" by fastforce
    with Cons show ?case
      by (cases o') (auto simp: Timer_Again_def UvTimerStart_def UvTimerStop_def Let_def)
  qed simp
  have votes: "r_vote_mgr ?r = []" "Raft_IfSelfVote ?r"
    using assms(4) by (simp_all add: campaign_post) (simp add: campaign_def Let_def Raft_BecomeCandidate_def VoteManager_Clear_def map_all_def)
  have tm: "r_timer_mgr ?r = (r_timer_mgr r)\<lparr>tm_election := Some ?t\<rparr>" "r_log ?r = r_log r"
    "r_config_mgr ?r = r_config_mgr r"
    "r_meta ?r = SolidData_SetVote L (RaftAddr_ToU64 (Raft_Me r)) (SolidData_IncrTerm L (r_meta r))"
    by (simp_all add: campaign_def Let_def Raft_BecomeCandidate_def Raft_Me_def)
  obtain m where m: "each_timer (Timer_Again 0 (ucast (tm_heartbeat_ms (r_timer_mgr r))))
      (tm_heartbeats (r_timer_mgr r)) = Some m" using start [OF assms(9)] by blast
  obtain r2 where r2: "take_lead S ?r = Some r2" "r_state r2 = STATE_LEADER" "r_log r2 = r_log r"
    "r_meta r2 = r_meta ?r" "r_vote_mgr r2 = []" "Raft_Me r2 = Raft_Me r"
    using m votes(1) by (simp add: take_lead_def campaign_post tm Raft_Me_def TimerManager_StopElection_def
      TimerManager_StopRequestVote_def TimerManager_StartHeartBeat_def Let_def)
  let ?e = "\<lparr>ae_term = r_term r2, ae_type = kNoop, ae_value = [0x30]\<rparr>"
  obtain l where l: "RaftLog_AppendOne L (\<lambda>rc i l s. Raft_ConfigChange S rc i (s\<lparr>r_log := l\<rparr>)) ?e (r_log r2) r2
      = Some (l, r2)" "log_rep L l b c (es @ [?e])"
    using AppendOne_plain [of "r_log r2" b c es ?e "\<lambda>rc i l s. Raft_ConfigChange S rc i (s\<lparr>r_log := l\<rparr>)" r2]
      assms(10,11) r2(3) by auto
  have "Elect L S (r\<lparr>r_timer_mgr := (r_timer_mgr r)\<lparr>tm_election := Some ?t\<rparr>\<rparr>) = Some (r2\<lparr>r_log := l\<rparr>)"
    using assms(1,2) assms(3) [unfolded Raft_Peers_def] votes r2 l(1)
    by (simp add: Elect_def Raft_Peers_def DoRequestVote_campaign BecomeLeader_take_lead Raft_AppendNoop_def
        log_AppendOne_def VoteManager_QuorumAll_def Let_def)
  then have "Raft_step L S ElectionTimeout r = Some (r2\<lparr>r_log := l\<rparr>)"
    using assms(5,6) el by (simp add: expire_election_def)
  with l(2) r2 tm(4) show ?thesis by (simp add: Raft_Me_def del: of_nat_Suc)
qed

lemma lone_server:
  assumes "RaftConfig_ok rc" "rc_peers rc = []" "case so_create S of Some create \<Rightarrow> create dir \<noteq> None | None \<Rightarrow> True"
  obtains r0 r r' where "RaftServer_Init L S (ldb_open L) (ldb_open L) (ldb_open L) dir gen clock uids rc = Some r0"
    "RaftServer_Start L S (r0\<lparr>r_enable_pre_vote := pre_vote, r_standby := False\<rparr>) = Some r"
    "r_state r = STATE_FOLLOWER" "r_term r = 1" "Raft_Me r = rc_me rc" "r_vote_mgr r = []"
    "Raft_step L S ElectionTimeout r = Some r'" "r_state r' = STATE_LEADER" "r_term r' = 2"
    "r_vote r' = RaftAddr_ToU64 (rc_me rc)" "r_outbox r = []" "r_vote_mgr r' = []" "Raft_Me r' = rc_me rc"
    "log_rep L (r_log r') 0 0 [\<lparr>ae_term = 2, ae_type = kNoop, ae_value = [0x30]\<rparr>]"
proof -
  obtain r0 r t where boot: "RaftServer_Init L S (ldb_open L) (ldb_open L) (ldb_open L) dir gen clock uids rc = Some r0"
    "RaftServer_Start L S (r0\<lparr>r_enable_pre_vote := pre_vote, r_standby := False\<rparr>) = Some r"
    and r: "r_state r = STATE_FOLLOWER" "r_term r = 1" "log_rep L (r_log r) 0 0 []"
    "cm_current (r_config_mgr r) = rc" "r_vote_mgr r = VoteManager_Reset (rc_peers rc)" "r_standby r = False"
    "tm_election (r_timer_mgr r) = Some t" "uv_active t" "\<not> uv_closing t" "uv_repeat t = 0"
    "map fst (tm_heartbeats (r_timer_mgr r)) = map fst (r_vote_mgr r)" "r_outbox r = []"
    by (rule fresh_start [OF assms(1,3), where gen = gen and clock = clock and uids = uids and pre_vote = pre_vote and standby = False])
  have votes: "r_vote_mgr r = []" "Raft_Peers r = []" using r(4,5) assms(2) by (simp_all add: VoteManager_Reset_def Raft_Peers_def)
  have "\<exists>r'. Raft_step L S ElectionTimeout r = Some r' \<and> r_state r' = STATE_LEADER \<and>
    r_term r' = r_term r + 1 \<and> r_vote r' = RaftAddr_ToU64 (Raft_Me r) \<and>
    r_vote_mgr r' = [] \<and> Raft_Me r' = Raft_Me r \<and>
    log_rep L (r_log r') 0 0 ([] @ [\<lparr>ae_term = r_term r + 1, ae_type = kNoop, ae_value = [0x30]\<rparr>])"
    by (rule lone_leads [OF r(1) _ votes(2,1) r(7-10) _ r(3)]) (use r(6,11) votes in simp_all)
  then show ?thesis using that [OF boot r(1,2) _ votes(1)] r(2,4,12) by (auto simp: Raft_Me_def)
qed

end

text \<open>A replica without a state machine, on the reference store.\<close>

definition no_sm :: "(unit, unit, unit, unit) sm_ops" where
  "no_sm = \<lparr>so_create = None, so_dir = (\<lambda>_. ()), so_Restore = id, so_Apply = (\<lambda>_ _ s. (0, s)),
     so_LastIndex = (\<lambda>_. 0), so_LastTerm = (\<lambda>_. 0), so_Get = (\<lambda>_ _. (0, [])),
     so_create_reader = None, rd_last_index = (\<lambda>_. 0), rd_last_term = (\<lambda>_. 0), rd_offset = (\<lambda>_. 0),
     rd_data = (\<lambda>_. []), rd_done = (\<lambda>_. True), rd_Read = (\<lambda>r. (0, r)), so_create_writer = None,
     wr_last_index = (\<lambda>_. 0), wr_last_term = (\<lambda>_. 0), wr_stored = (\<lambda>_. 0),
     wr_Write = (\<lambda>_ w. (0, w)), wr_Finish = (\<lambda>w. (0, w)), wr_dir = (\<lambda>_. ())\<rparr>"

lemma sample_leader:
  assumes "RaftConfig_ok rc" "rc_peers rc = []"
  obtains r r' where "booted alist_store no_sm [] [] [] r" "r_state r = STATE_FOLLOWER" "r_term r = 1"
    "Raft_Me r = rc_me rc" "r_vote_mgr r = []"
    "Raft_step alist_store no_sm ElectionTimeout r = Some r'" "r_state r' = STATE_LEADER" "r_term r' = 2"
    "r_outbox r = []" "r_vote_mgr r' = []" "Raft_Me r' = rc_me rc"
    "replica_run alist_store no_sm self r r'"
proof -
  have db: "ldb_open alist_store = []" by (simp add: alist_store_def)
  let ?z = "\<lambda>_. 0"
  obtain r0 r r' where boot: "RaftServer_Init alist_store no_sm [] [] [] () ?z ?z ?z rc = Some r0"
    "RaftServer_Start alist_store no_sm (r0\<lparr>r_enable_pre_vote := False, r_standby := False\<rparr>) = Some r"
    and steps: "r_state r = STATE_FOLLOWER" "r_term r = 1" "Raft_Me r = rc_me rc" "r_vote_mgr r = []"
    "Raft_step alist_store no_sm ElectionTimeout r = Some r'" "r_state r' = STATE_LEADER" "r_term r' = 2"
    "r_outbox r = []" "r_vote_mgr r' = []" "Raft_Me r' = rc_me rc"
    by (rule alist_store.lone_server [OF assms, where S = no_sm and dir = "()" and gen = ?z and clock = ?z and uids = ?z
      and pre_vote = False, unfolded db]) (simp add: no_sm_def)
  have "booted alist_store no_sm [] [] [] r" unfolding booted_def using boot by blast
  note r = this steps
  have "replica_run alist_store no_sm self r r'"
    by (rule replica_run.event [OF replica_run.start _ _ r(6)]) (simp_all add: r)
  with r that show ?thesis by blast
qed

section \<open>Properties\<close>

text \<open>C8. A new server can lead: set up on empty databases without peers it starts as a follower in term 1,
  and its first election timeout makes it the leader of term 2, with its vote given to itself and one
  no-op entry in its log. This holds whatever the clock, the random numbers and the unique ids, with
  and without pre-votes, for a server that is not a standby and whose state machine, if it has one,
  can be created.\<close>

theorem lone_server_leads:
  assumes "leveldb_store L" "RaftConfig_ok rc" "rc_peers rc = []"
    and "case so_create S of Some create \<Rightarrow> create dir \<noteq> None | None \<Rightarrow> True"
  shows "\<exists>r0 r r'. RaftServer_Init L S (ldb_open L) (ldb_open L) (ldb_open L) dir gen clock uids rc = Some r0 \<and>
    RaftServer_Start L S (r0\<lparr>r_enable_pre_vote := pre_vote, r_standby := False\<rparr>) = Some r \<and>
    r_state r = STATE_FOLLOWER \<and> r_term r = 1 \<and> Raft_Me r = rc_me rc \<and>
    Raft_step L S ElectionTimeout r = Some r' \<and> r_state r' = STATE_LEADER \<and> r_term r' = 2 \<and>
    r_vote r' = RaftAddr_ToU64 (rc_me rc) \<and>
    log_rep L (r_log r') 0 0 [\<lparr>ae_term = 2, ae_type = kNoop, ae_value = [0x30]\<rparr>]"
  by (rule leveldb_store.lone_server [OF assms]) blast

theorem lone_server_leads_witness:
  "\<exists>r0 r r'. RaftServer_Init alist_store no_sm [] [] [] () (\<lambda>_. 7) (\<lambda>_. 0) (\<lambda>_. 0) \<lparr>rc_me = RaftAddr 1 2 3, rc_peers = []\<rparr> = Some r0 \<and>
     RaftServer_Start alist_store no_sm (r0\<lparr>r_enable_pre_vote := True, r_standby := False\<rparr>) = Some r \<and>
     Raft_step alist_store no_sm ElectionTimeout r = Some r' \<and> r_state r' = STATE_LEADER"
proof -
  have db: "ldb_open alist_store = []" by (simp add: alist_store_def)
  have "RaftConfig_ok \<lparr>rc_me = RaftAddr 1 2 3, rc_peers = []\<rparr>" "rc_peers \<lparr>rc_me = RaftAddr 1 2 3, rc_peers = []\<rparr> = []"
    "case so_create no_sm of Some create \<Rightarrow> create () \<noteq> None | None \<Rightarrow> True"
    by (simp_all add: RaftConfig_ok_def no_sm_def)
  from lone_server_leads [OF alist_store.leveldb_store_axioms this, where gen = "\<lambda>_. 7" and clock = "\<lambda>_. 0" and uids = "\<lambda>_. 0" and pre_vote = True]
  show ?thesis unfolding db by blast
qed

end
