(* ===== verification/RaftTimers.thy ===== *)
theory RaftTimers
  imports RaftServer
begin

text \<open>
  Which timers of a replica run in which role. The callbacks of the timers assert the role of the
  replica (src/src/raft/raft_core.cc); this theory shows that the code that starts and stops the
  timers keeps them in agreement with the role, so that these assertions cannot fail.
\<close>

section \<open>Maps of timers\<close>

definition timers_all :: "(Timer \<Rightarrow> bool) \<Rightarrow> timer_map \<Rightarrow> bool" where
  "timers_all P m \<longleftrightarrow> list_all (\<lambda>(a, t). case t of Some t \<Rightarrow> P t | None \<Rightarrow> True) m"

lemma timers_all_simps [simp]:
  "timers_all P []"
  "timers_all P ((a, t) # m) \<longleftrightarrow> (\<forall>x. t = Some x \<longrightarrow> P x) \<and> timers_all P m"
  by (auto simp: timers_all_def split: option.splits)

lemma timers_all_update:
  "timers_all P m \<Longrightarrow> (\<And>x. t = Some x \<Longrightarrow> P x) \<Longrightarrow> timers_all P (AList.update a t m)"
  by (induction m) auto

lemma timers_all_delete: "timers_all P m \<Longrightarrow> timers_all P (AList.delete a m)"
  by (auto simp: timers_all_def list_all_iff AList.delete_eq)

lemma timers_all_map_of: "timers_all P m \<Longrightarrow> map_of m a = Some (Some t) \<Longrightarrow> P t"
  by (auto simp: timers_all_def list_all_iff dest!: map_of_SomeD)

lemma timers_all_map:
  "timers_all P m \<Longrightarrow> (\<And>t. P t \<Longrightarrow> Q (f t)) \<Longrightarrow> timers_all Q (map_all (map_option f) m)"
  by (induction m) (auto simp: map_all_def)

lemma timers_all_mono: "timers_all P m \<Longrightarrow> (\<And>t. P t \<Longrightarrow> Q t) \<Longrightarrow> timers_all Q m"
  by (induction m) auto

lemma timers_all_each:
  assumes "each_timer f m = Some m'" "timers_all P m" "\<And>t t'. P t \<Longrightarrow> f t = Some t' \<Longrightarrow> Q t'"
  shows "timers_all Q m'"
  using assms(1,2)
proof (induction m arbitrary: m')
  case (Cons x m)
  obtain a t where "x = (a, t)" by fastforce
  with Cons show ?case by (cases t) (auto elim!: bind_eq_SomeE intro: assms(3))
qed simp

lemma timers_all_at:
  assumes "at_timer f a m = Some m'" "timers_all P m" "\<And>t t'. P t \<Longrightarrow> f t = Some t' \<Longrightarrow> P t'"
  shows "timers_all P m'"
  using assms(1,2)
  by (auto simp: at_timer_def split: option.splits elim!: bind_eq_SomeE
      intro!: timers_all_update dest: timers_all_map_of assms(3))

section \<open>Roles\<close>

text \<open>A timer that may run only if \<open>b\<close>; a timer that is being closed does not run.\<close>

definition runs_if :: "bool \<Rightarrow> Timer \<Rightarrow> bool" where
  "runs_if b t \<longleftrightarrow> (uv_active t \<longrightarrow> b \<and> \<not> uv_closing t)"

lemma runs_if_mono: "runs_if b t \<Longrightarrow> (b \<Longrightarrow> c) \<Longrightarrow> runs_if c t"
  by (auto simp: runs_if_def)

lemma runs_if_stop [simp]: "runs_if b t \<Longrightarrow> runs_if c (Timer_Stop t)"
  by (auto simp: runs_if_def Timer_Stop_def UvTimerStop_def)

lemma runs_if_close [simp]: "runs_if b t \<Longrightarrow> runs_if c (Timer_Close t)"
  by (auto simp: runs_if_def Timer_Close_def)

lemma runs_if_start: "Timer_Start t = Some t' \<Longrightarrow> runs_if True t'"
  by (auto simp: runs_if_def Timer_Start_def UvTimerStart_def split: if_splits)

lemma runs_if_again: "Timer_Again a b t = Some t' \<Longrightarrow> runs_if True t'"
  by (auto simp: runs_if_def Timer_Again_def UvTimerStart_def UvTimerStop_def Let_def split: if_splits)

lemma runs_if_expire: "uv_expire t = Some t' \<Longrightarrow> runs_if b t \<Longrightarrow> runs_if b t'"
  by (auto simp: runs_if_def uv_expire_def UvTimerStart_def UvTimerStop_def Let_def split: if_splits)

lemma runs_if_new [simp]: "runs_if b (Timer_new a c d)" "runs_if b (Timer_new a c d\<lparr>t_dest_addr := e\<rparr>)"
  by (simp_all add: runs_if_def Timer_new_def)

definition timers_ok :: "State \<Rightarrow> TimerManager \<Rightarrow> bool" where
  "timers_ok st tm \<longleftrightarrow>
     (\<forall>t. tm_election tm = Some t \<longrightarrow> runs_if (st = STATE_FOLLOWER \<or> st = STATE_CANDIDATE) t) \<and>
     timers_all (runs_if (st = STATE_CANDIDATE)) (tm_request_votes tm) \<and>
     timers_all (runs_if (st = STATE_LEADER)) (tm_heartbeats tm)"

definition role_timers :: "('db, 'sm, 'dir, 'rd, 'wr) Raft \<Rightarrow> bool" where
  "role_timers r \<longleftrightarrow> r_state r \<in> {STATE_FOLLOWER, STATE_CANDIDATE, STATE_LEADER} \<and>
     timers_ok (r_state r) (r_timer_mgr r)"

text \<open>Every operation of the timer manager, in the role that calls it.\<close>

lemma AgainElection_ok: "TimerManager_AgainElection tm = Some tm' \<Longrightarrow> timers_ok st tm \<Longrightarrow>
    st = STATE_FOLLOWER \<or> st = STATE_CANDIDATE \<Longrightarrow> timers_ok st tm'"
  by (auto simp: TimerManager_AgainElection_def timers_ok_def Let_def elim!: bind_eq_SomeE
      dest!: runs_if_again split: prod.splits)

lemma StartElection_ok: "TimerManager_StartElection tm = Some tm' \<Longrightarrow> timers_ok st tm \<Longrightarrow>
    st = STATE_FOLLOWER \<or> st = STATE_CANDIDATE \<Longrightarrow> timers_ok st tm'"
  by (auto simp: TimerManager_StartElection_def timers_ok_def Let_def elim!: bind_eq_SomeE
      dest!: runs_if_again split: prod.splits)

lemma StopElection_ok: "TimerManager_StopElection tm = Some tm' \<Longrightarrow> timers_ok st tm \<Longrightarrow>
    timers_ok st tm' \<and> (\<forall>t. tm_election tm' = Some t \<longrightarrow> runs_if False t)"
  by (auto simp: TimerManager_StopElection_def timers_ok_def elim!: bind_eq_SomeE)

lemma StopRequestVote_ok: "timers_ok st tm \<Longrightarrow> timers_ok st (TimerManager_StopRequestVote tm) \<and>
    timers_all (runs_if False) (tm_request_votes (TimerManager_StopRequestVote tm))"
  by (auto simp: TimerManager_StopRequestVote_def timers_ok_def intro!: timers_all_map runs_if_stop)

lemma StopHeartBeat_ok: "timers_ok st tm \<Longrightarrow> timers_ok st (TimerManager_StopHeartBeat tm) \<and>
    timers_all (runs_if False) (tm_heartbeats (TimerManager_StopHeartBeat tm))"
  by (auto simp: TimerManager_StopHeartBeat_def timers_ok_def intro!: timers_all_map runs_if_stop)

lemma StopRequestVote_peer_ok:
  "TimerManager_StopRequestVote_peer a tm = Some tm' \<Longrightarrow> timers_ok st tm \<Longrightarrow> timers_ok st tm'"
  by (auto simp: TimerManager_StopRequestVote_peer_def timers_ok_def elim!: bind_eq_SomeE timers_all_at)

lemma StartRequestVote_ok:
  "TimerManager_StartRequestVote tm = Some tm' \<Longrightarrow> timers_ok STATE_CANDIDATE tm \<Longrightarrow>
    timers_ok STATE_CANDIDATE tm'"
  by (auto simp: TimerManager_StartRequestVote_def timers_ok_def elim!: bind_eq_SomeE timers_all_each
      intro: runs_if_start)

lemma StartHeartBeat_ok:
  "TimerManager_StartHeartBeat tm = Some tm' \<Longrightarrow> timers_ok STATE_LEADER tm \<Longrightarrow>
    timers_ok STATE_LEADER tm'"
  by (auto simp: TimerManager_StartHeartBeat_def timers_ok_def elim!: bind_eq_SomeE timers_all_each
      intro: runs_if_again)

lemma heartbeat_peer_ok:
  "TimerManager_AgainHeartBeat_peer a tm = Some tm' \<Longrightarrow> timers_ok STATE_LEADER tm \<Longrightarrow>
    timers_ok STATE_LEADER tm'"
  "TimerManager_StartHeartBeat_peer a tm = Some tm' \<Longrightarrow> timers_ok STATE_LEADER tm \<Longrightarrow>
    timers_ok STATE_LEADER tm'"
  by (auto simp: TimerManager_AgainHeartBeat_peer_def TimerManager_StartHeartBeat_peer_def timers_ok_def
      elim!: bind_eq_SomeE timers_all_at intro: runs_if_again)

lemma AddRpcTimer_ok: "TimerManager_AddRpcTimer a t tm = Some tm' \<Longrightarrow>
    TimerManager_CreateRpcTimer b tm1 = Some t \<Longrightarrow> timers_ok st tm \<Longrightarrow> timers_ok st tm'"
  by (auto simp: TimerManager_AddRpcTimer_def TimerManager_CreateRpcTimer_def timers_ok_def
      elim!: bind_eq_SomeE intro!: timers_all_update split: if_splits)

lemma AddHeartbeatTimer_ok: "TimerManager_AddHeartbeatTimer a t tm = Some tm' \<Longrightarrow>
    TimerManager_CreateHeartbeatTimer b tm1 = Some t \<Longrightarrow> timers_ok st tm \<Longrightarrow> timers_ok st tm'"
  by (auto simp: TimerManager_AddHeartbeatTimer_def TimerManager_CreateHeartbeatTimer_def timers_ok_def
      elim!: bind_eq_SomeE intro!: timers_all_update split: if_splits)

lemma close_peer_ok:
  "TimerManager_CloseRequestVote_peer a tm = Some tm' \<Longrightarrow> timers_ok st tm \<Longrightarrow> timers_ok st tm'"
  "TimerManager_CloseHeartBeat_peer a tm = Some tm' \<Longrightarrow> timers_ok st tm \<Longrightarrow> timers_ok st tm'"
  "timers_ok st tm \<Longrightarrow> timers_ok st (TimerManager_DeleteRpcTimer a tm)"
  "timers_ok st tm \<Longrightarrow> timers_ok st (TimerManager_DeleteHeartBeat a tm)"
  by (auto simp: TimerManager_CloseRequestVote_peer_def TimerManager_CloseHeartBeat_peer_def
      TimerManager_DeleteRpcTimer_def TimerManager_DeleteHeartBeat_def timers_ok_def
      elim!: bind_eq_SomeE timers_all_at intro: timers_all_delete)

section \<open>The replica\<close>

lemma AddPeer_timers:
  assumes "Raft_AddPeer S a r = Some r'" "role_timers r"
  shows "role_timers r'"
proof -
  let ?a = "RaftAddr_ToU64 a"
  obtain t1 tm1 t2 tm2 tm3 where tm:
    "TimerManager_CreateRpcTimer ?a (r_timer_mgr r) = Some t1"
    "TimerManager_AddRpcTimer ?a t1 (r_timer_mgr r) = Some tm1"
    "TimerManager_CreateHeartbeatTimer ?a tm1 = Some t2"
    "TimerManager_AddHeartbeatTimer ?a t2 tm1 = Some tm2"
    "(if r_state r = STATE_LEADER then TimerManager_StartHeartBeat_peer ?a tm2 else Some tm2) = Some tm3"
    and r': "r_timer_mgr r' = tm3" "r_state r' = r_state r"
    using assms(1) by (auto simp: Raft_AddPeer_def Let_def elim!: bind_eq_SomeE)
  have "timers_ok (r_state r) tm2"
    using assms(2) AddRpcTimer_ok [OF tm(2,1)] AddHeartbeatTimer_ok [OF tm(4,3)]
    by (simp add: role_timers_def)
  then show ?thesis
    using tm(5) r' assms(2) heartbeat_peer_ok(2) by (auto simp: role_timers_def split: if_splits)
qed

lemma DeletePeer_timers: "Raft_DeletePeer a r = Some r' \<Longrightarrow> role_timers r \<Longrightarrow> role_timers r'"
  by (auto simp: Raft_DeletePeer_def role_timers_def Let_def elim!: bind_eq_SomeE)
     (blast intro: close_peer_ok)+

lemma add_nodes_timers: "add_nodes S ns c r = Some (c', r') \<Longrightarrow> role_timers r \<Longrightarrow> role_timers r'"
  by (induction ns arbitrary: c r) (auto elim!: bind_eq_SomeE dest: AddPeer_timers)

lemma remove_nodes_timers: "remove_nodes ns c r = Some (c', r') \<Longrightarrow> role_timers r \<Longrightarrow> role_timers r'"
  by (induction ns arbitrary: c r) (auto elim!: bind_eq_SomeE dest: DeletePeer_timers)

lemma DoConfigChange_timers:
  "Raft_DoConfigChange S rc r = Some (c', r') \<Longrightarrow> role_timers r \<Longrightarrow> role_timers r'"
  by (auto simp: Raft_DoConfigChange_def Let_def split: if_splits prod.splits
      dest: add_nodes_timers remove_nodes_timers)

lemma config_timers:
  "Raft_ConfigChange S rc i r = Some r' \<Longrightarrow> role_timers r \<Longrightarrow> role_timers r'"
  "Raft_ConfigRollback S i r = Some r' \<Longrightarrow> role_timers r \<Longrightarrow> role_timers r'"
  by (auto simp: Raft_ConfigChange_def Raft_ConfigRollback_def Let_def elim!: bind_eq_SomeE
      dest!: DoConfigChange_timers split: if_splits) (simp_all add: role_timers_def)

lemma log_timers:
  "log_AppendOne L S e r = Some r' \<Longrightarrow> role_timers r \<Longrightarrow> role_timers r'"
  "log_DeleteFrom L S i r = Some r' \<Longrightarrow> role_timers r \<Longrightarrow> role_timers r'"
proof -
  let ?P = "\<lambda>r r'. role_timers r \<longrightarrow> role_timers r'"
  have log: "role_timers (r\<lparr>r_log := l\<rparr>) \<longleftrightarrow> role_timers r" for r :: "('a, 'b, 'c, 'd, 'e) Raft" and l
    by (simp add: role_timers_def)
  show "log_AppendOne L S e r = Some r' \<Longrightarrow> role_timers r \<Longrightarrow> role_timers r'"
    by (auto simp: log_AppendOne_def log elim!: bind_eq_SomeE dest!: AppendOne_callback [where P = ?P]
        dest: config_timers(1))
  show "log_DeleteFrom L S i r = Some r' \<Longrightarrow> role_timers r \<Longrightarrow> role_timers r'"
    by (auto simp: log_DeleteFrom_def log elim!: bind_eq_SomeE dest!: DeleteFrom_callback [where P = ?P]
        dest: config_timers(2))
qed

lemma StepDown_timers:
  assumes "Raft_StepDown L t r = Some r'" "role_timers r"
  shows "role_timers r'"
proof -
  let ?tm = "TimerManager_StopRequestVote (TimerManager_StopHeartBeat (r_timer_mgr r))"
  obtain tm where tm: "TimerManager_AgainElection ?tm = Some tm"
    and r': "r_timer_mgr r' = tm" "r_state r' = STATE_FOLLOWER"
    using assms(1) by (auto simp: Raft_StepDown_def Let_def elim!: bind_eq_SomeE split: if_splits)
  note stop = StopHeartBeat_ok [of "r_state r" "r_timer_mgr r"]
    StopRequestVote_ok [of "r_state r" "TimerManager_StopHeartBeat (r_timer_mgr r)"]
  have "timers_ok STATE_FOLLOWER (?tm\<lparr>tm_election := None\<rparr>)"
    using assms(2) stop
    by (auto simp: role_timers_def timers_ok_def TimerManager_StopRequestVote_def
        elim!: timers_all_mono)
  moreover obtain t where "tm_election tm = Some t" "runs_if True t"
    "tm_request_votes tm = tm_request_votes ?tm" "tm_heartbeats tm = tm_heartbeats ?tm"
    using tm by (auto simp: TimerManager_AgainElection_def Let_def elim!: bind_eq_SomeE
      dest!: runs_if_again split: prod.splits)
  ultimately show ?thesis by (simp add: role_timers_def timers_ok_def r')
qed

lemma take_lead_timers:
  assumes "take_lead S r = Some r'" "role_timers r"
  shows "role_timers r'"
proof -
  obtain tm tm' where tm: "TimerManager_StopElection (r_timer_mgr r) = Some tm"
    "TimerManager_StartHeartBeat (TimerManager_StopRequestVote tm) = Some tm'"
    and st: "r_state r = STATE_CANDIDATE"
    and r': "r_timer_mgr r' = tm'" "r_state r' = STATE_LEADER"
    using assms(1) by (auto simp: take_lead_def Let_def elim!: bind_eq_SomeE split: if_splits)
  let ?tm = "TimerManager_StopRequestVote tm"
  have ok: "timers_ok STATE_CANDIDATE tm" "\<forall>t. tm_election tm = Some t \<longrightarrow> runs_if False t"
    using StopElection_ok [OF tm(1)] assms(2) st by (auto simp: role_timers_def)
  note stop = StopRequestVote_ok [OF ok(1)]
  have "timers_all (runs_if True) (tm_heartbeats ?tm)"
    using stop by (auto simp: timers_ok_def elim!: timers_all_mono runs_if_mono)
  then have "timers_ok STATE_LEADER ?tm"
    using stop ok(2) by (simp add: timers_ok_def TimerManager_StopRequestVote_def)
  from StartHeartBeat_ok [OF tm(2) this] show ?thesis by (simp add: role_timers_def r')
qed

lemma candidate_timers:
  assumes "role_timers r" "r_state r = STATE_FOLLOWER \<or> r_state r = STATE_CANDIDATE"
    and "r_state r' = STATE_CANDIDATE" "r_timer_mgr r' = r_timer_mgr r"
  shows "role_timers r'"
  using assms by (auto simp: role_timers_def timers_ok_def elim!: timers_all_mono)
     (auto simp: runs_if_def)

lemma TimerManager_Stop_ok:
  assumes "TimerManager_Stop tm = Some tm'" "timers_ok st tm"
  shows "timers_ok st tm'"
proof -
  obtain tm1 tm2 where tm1: "TimerManager_StopTick tm = Some tm1"
    and tm2: "TimerManager_StopElection tm1 = Some tm2"
    and tm': "tm' = TimerManager_StopHeartBeat (TimerManager_StopRequestVote tm2)"
    using assms(1) by (auto simp: TimerManager_Stop_def elim!: bind_eq_SomeE)
  have "timers_ok st tm1"
    using assms(2) tm1 by (auto simp: TimerManager_StopTick_def timers_ok_def elim!: bind_eq_SomeE)
  then show ?thesis
    using StopElection_ok [OF tm2] StopRequestVote_ok StopHeartBeat_ok by (simp add: tm')
qed

lemma Stop_timers: "Raft_Stop S r = Some r' \<Longrightarrow> role_timers r \<Longrightarrow> role_timers r'"
  by (auto simp: Raft_Stop_def role_timers_def Let_def elim!: bind_eq_SomeE split: option.splits
      dest: TimerManager_Stop_ok)

interpretation roles: replica_lead_steps L S "\<lambda>r r'. role_timers r \<longrightarrow> role_timers r'" self
  "\<lambda>_ _. True" for L S self
proof (unfold_locales, goal_cases)
  case (2 r r')
  then show ?case by (simp add: soft_eq_def role_timers_def)
next
  case (4 r tm)
  then show ?case by (auto simp: role_timers_def intro: AgainElection_ok)
next
  case (5 r tm)
  then show ?case by (auto simp: role_timers_def intro: StartElection_ok)
next
  case (6 r t t')
  then show ?case by (auto simp: role_timers_def timers_ok_def intro: runs_if_expire)
next
  case (7 r)
  then show ?case using StopRequestVote_ok by (auto simp: role_timers_def)
next
  case (8 a r tm)
  then show ?case using StopRequestVote_peer_ok by (auto simp: role_timers_def)
next
  case (9 r tm)
  then show ?case using StartRequestVote_ok by (auto simp: role_timers_def)
next
  case (10 r a t t')
  then show ?case
    by (auto simp: role_timers_def timers_ok_def intro!: timers_all_update
        intro: runs_if_expire dest: timers_all_map_of)
next
  case (11 r a tm)
  then show ?case using heartbeat_peer_ok(1) by (auto simp: role_timers_def)
next
  case (12 r a t t')
  then show ?case
    by (auto simp: role_timers_def timers_ok_def intro!: timers_all_update
        intro: runs_if_expire dest: timers_all_map_of)
next
  case (14 r)
  then show ?case by (auto intro: candidate_timers simp: Raft_BecomeCandidate_def)
next
  case (15 r)
  then show ?case by (auto intro: candidate_timers simp: campaign_def Let_def Raft_BecomeCandidate_def)
next
  case (20 r c r')
  then show ?case using log_timers(2) by blast
next
  case (21 r c r')
  then show ?case by (auto simp: role_timers_def apply_frame_def dest!: StateMachineApply_frame)
next
  case (19 e r r')
  then show ?case using log_timers(1) by blast
qed (auto dest: StepDown_timers Stop_timers take_lead_timers simp: role_timers_def) 

section \<open>Starting\<close>

lemma make_all_timers:
  assumes "make_all f m = Some m'" "\<And>a t. f a = Some t \<Longrightarrow> P t"
  shows "timers_all P m'"
  using assms(1)
proof (induction m arbitrary: m')
  case (Cons x m)
  then show ?case by (cases x) (auto elim!: bind_eq_SomeE intro: assms(2))
qed simp

lemma MakeTimer_ok:
  assumes "TimerManager_MakeTimer tm = Some tm'"
  shows "timers_ok st tm'"
  using assms
  by (auto simp: TimerManager_MakeTimer_def TimerManager_MakeTick_def TimerManager_MakeElection_def
      TimerManager_MakeElectionPpc_def TimerManager_MakeHeartbeat_def timers_ok_def Let_def
      TimerManager_CreateRpcTimer_def TimerManager_CreateHeartbeatTimer_def
      elim!: bind_eq_SomeE make_all_timers split: if_splits prod.splits)

lemma booted_timers: "booted L S log_db config_db meta_db r \<Longrightarrow> role_timers r"
proof (erule booted_cases, erule Start_cases)
  fix r1 r2 :: "('a, 'b, 'c, 'd, 'e) Raft" and tm1 tm2
  assume *: "r_state r1 = STATE_FOLLOWER" "r_state r2 = r_state r1"
    "TimerManager_MakeTimer ((r_timer_mgr r1)\<lparr>tm_maketimer_func := True\<rparr>) = Some tm1"
    "TimerManager_StartTick tm1 = Some tm2" "r_timer_mgr r2 = tm2"
    "Raft_StepDown L (r_term r1) r2 = Some r"
  have "timers_ok STATE_FOLLOWER tm2"
    using *(4) MakeTimer_ok [OF *(3), of STATE_FOLLOWER]
    by (auto simp: TimerManager_StartTick_def timers_ok_def elim!: bind_eq_SomeE)
  then show "role_timers r" using * by (intro StepDown_timers [OF *(6)]) (simp add: role_timers_def)
qed

section \<open>Properties\<close>

text \<open>C7. The role assertions of the timer callbacks cannot fail: whatever a replica has gone through
  since it was started, its election timer runs only when it is a follower or a candidate, its
  request-vote timers only when it is a candidate and its heartbeat timers only when it is the
  leader.\<close>

theorem timers_follow_role:
  assumes "booted L S log_db config_db meta_db r0" and "replica_run L S self r0 r"
  shows "(\<forall>t. tm_election (r_timer_mgr r) = Some t \<longrightarrow> uv_active t \<longrightarrow>
      r_state r = STATE_FOLLOWER \<or> r_state r = STATE_CANDIDATE) \<and>
    (\<forall>a t. map_of (tm_request_votes (r_timer_mgr r)) a = Some (Some t) \<longrightarrow> uv_active t \<longrightarrow>
      r_state r = STATE_CANDIDATE) \<and>
    (\<forall>a t. map_of (tm_heartbeats (r_timer_mgr r)) a = Some (Some t) \<longrightarrow> uv_active t \<longrightarrow>
      r_state r = STATE_LEADER)"
proof -
  have "role_timers r"
    using run_all [OF roles.replica_lead_steps_axioms assms(2)] booted_timers [OF assms(1)] by blast
  then show ?thesis
    unfolding role_timers_def timers_ok_def
    using timers_all_map_of [where P = "runs_if b" for b] by (fastforce simp: runs_if_def)
qed

theorem timers_follow_role_witness:
  "\<exists>r0 r. booted alist_store no_sm [] [] [] r0 \<and> replica_run alist_store no_sm 0 r0 r \<and>
     r_state r = STATE_LEADER \<and> (\<forall>t. tm_election (r_timer_mgr r) = Some t \<longrightarrow> \<not> uv_active t)"
proof -
  have "RaftConfig_ok \<lparr>rc_me = RaftAddr 1 2 3, rc_peers = []\<rparr>" by (simp add: RaftConfig_ok_def)
  then obtain r0 r where "booted alist_store no_sm [] [] [] r0" "replica_run alist_store no_sm 0 r0 r"
    "r_state r = STATE_LEADER"
    by (rule sample_leader [where self = 0]) simp_all
  with timers_follow_role [OF this(1,2)] show ?thesis by force
qed

end
