(* ===== verification/RaftSafety.thy ===== *)
theory RaftSafety
  imports RaftServer
begin

text \<open>
  Invariants of one replica over everything it does: interpretations of the interfaces of
  \<open>RaftSteps\<close>, and the properties they give for runs of events.
\<close>

section \<open>Term and vote\<close>

text \<open>The term never goes back, and a vote that was given is kept as long as the term lasts.\<close>

definition durable :: "('db, 'sm, 'dir, 'rd, 'wr) Raft \<Rightarrow> ('db, 'sm, 'dir, 'rd, 'wr) Raft \<Rightarrow> bool" where
  "durable r r' \<longleftrightarrow> r_term r < r_term r' \<or>
     r_term r' = r_term r \<and> (r_vote r = 0 \<or> r_vote r' = r_vote r)"

lemma durable_same: "r_meta r' = r_meta r \<Longrightarrow> durable r r'"
  by (simp add: durable_def)

lemma Stop_meta: "Raft_Stop S r = Some r' \<Longrightarrow> r_meta r' = r_meta r \<and> r_state r' = r_state r \<and>
    r_commit r' = r_commit r \<and> r_last_apply r' = r_last_apply r \<and> r_vote_mgr r' = r_vote_mgr r \<and>
    r_outbox r' = r_outbox r \<and> r_config_mgr r' = r_config_mgr r"
  by (auto simp: Raft_Stop_def Let_def elim!: bind_eq_SomeE split: option.splits)

lemma word_inc_less: "(t :: u64) \<noteq> - 1 \<Longrightarrow> t < t + 1"
  by (metis add.commute add_eq_0_iff unatSuc lessI word_less_nat_alt)

lemma campaign_fields:
  "r_meta (campaign L r) =
     SolidData_SetVote L (RaftAddr_ToU64 (Raft_Me r)) (SolidData_IncrTerm L (r_meta r))"
  "r_commit (campaign L r) = r_commit r" "r_last_apply (campaign L r) = r_last_apply r"
  "r_timer_mgr (campaign L r) = r_timer_mgr r" "r_outbox (campaign L r) = r_outbox r"
  "r_vote_mgr (campaign L r) = VoteManager_Clear (r_vote_mgr r)"
  "r_config_mgr (campaign L r) = r_config_mgr r"
  by (simp_all add: campaign_def Let_def Raft_BecomeCandidate_def Raft_Me_def)

lemma take_lead_frame: "take_lead S r = Some r' \<Longrightarrow> r_meta r' = r_meta r \<and>
    r_commit r' = r_commit r \<and> r_last_apply r' = r_last_apply r \<and> r_outbox r' = r_outbox r \<and>
    r_vote_mgr r' = r_vote_mgr r \<and> r_config_mgr r' = r_config_mgr r \<and>
    r_state r = STATE_CANDIDATE \<and> r_state r' = STATE_LEADER"
  by (auto simp: take_lead_def Let_def elim!: bind_eq_SomeE split: if_splits)

lemma StepDown_frame: "Raft_StepDown L t r = Some r' \<Longrightarrow> r_last_apply r' = r_last_apply r \<and>
    r_outbox r' = r_outbox r \<and> r_vote_mgr r' = r_vote_mgr r \<and> r_config_mgr r' = r_config_mgr r"
  by (auto simp: Raft_StepDown_def Let_def elim!: bind_eq_SomeE split: if_splits)

interpretation term_vote: replica_lead_steps L S durable self "\<lambda>_ _. True" for L S self
proof (unfold_locales, goal_cases)
  case (1 r r' r'')
  then show ?case by (auto simp: durable_def)
next
  case (13 t r r')
  then show ?case using StepDown_post [OF 13] by (auto simp: durable_def)
next
  case (15 r)
  then show ?case by (auto simp: durable_def campaign_fields word_inc_less)
qed (auto simp: durable_def soft_eq_def Raft_BecomeCandidate_def
    dest!: log_AppendOne_frame log_DeleteFrom_frame StateMachineApply_frame Stop_meta take_lead_frame
    simp: config_frame_def apply_frame_def)

section \<open>Commit and apply\<close>

text \<open>The commit index never goes back, and when it moves everything up to it is applied.\<close>

definition progress :: "('db, 'sm, 'dir, 'rd, 'wr) Raft \<Rightarrow> ('db, 'sm, 'dir, 'rd, 'wr) Raft \<Rightarrow> bool" where
  "progress r r' \<longleftrightarrow> r_commit r \<le> r_commit r' \<and>
     r_last_apply r' = (if r_commit r' = r_commit r then r_last_apply r
                        else max (r_last_apply r) (r_commit r'))"

interpretation commit_apply: replica_lead_steps L S progress self "\<lambda>_ _. True" for L S self
proof (unfold_locales, goal_cases)
  case (1 r r' r'')
  then show ?case by (auto simp: progress_def max_def split: if_splits)
next
  case (13 t r r')
  then show ?case using StepDown_post [OF 13] StepDown_frame [OF 13] by (auto simp: progress_def)
next
  case (21 r c r')
  then show ?case by (auto simp: progress_def apply_frame_def dest!: StateMachineApply_frame)
qed (auto simp: progress_def soft_eq_def Raft_BecomeCandidate_def campaign_fields
    dest!: log_AppendOne_frame log_DeleteFrom_frame Stop_meta take_lead_frame
    simp: config_frame_def apply_frame_def)

section \<open>Properties\<close>

text \<open>C5. Whatever a replica goes through, its term never decreases and within one term it votes at
  most once: a vote that is set stays the same until the term increases.\<close>

theorem one_vote_per_term:
  assumes "replica_run L S self r r'"
  shows "r_term r \<le> r_term r' \<and>
    (r_term r' = r_term r \<and> r_vote r \<noteq> 0 \<longrightarrow> r_vote r' = r_vote r)"
  using run_all [OF term_vote.replica_lead_steps_axioms assms] by (auto simp: durable_def)

theorem one_vote_per_term_witness:
  "\<exists>r r'. replica_run alist_store no_sm 0 r r' \<and> r_term r = 1 \<and> r_term r' = 2 \<and> r_term r \<le> r_term r'"
proof -
  have "RaftConfig_ok \<lparr>rc_me = RaftAddr 1 2 3, rc_peers = []\<rparr>" by (simp add: RaftConfig_ok_def)
  then obtain r0 r where "replica_run alist_store no_sm 0 r0 r" "r_term r0 = 1" "r_term r = 2"
    by (rule sample_leader [where self = 0]) simp_all
  with one_vote_per_term [OF this(1)] show ?thesis by blast
qed

text \<open>C6. Whatever a replica goes through, its commit index and its applied index never decrease, the
  applied index changes only together with the commit index, and after a change everything up to
  the commit index is applied.\<close>

theorem commit_and_apply_advance:
  assumes "replica_run L S self r r'"
  shows "r_commit r \<le> r_commit r' \<and> r_last_apply r \<le> r_last_apply r' \<and>
    (r_commit r' = r_commit r \<longrightarrow> r_last_apply r' = r_last_apply r) \<and>
    (r_commit r' \<noteq> r_commit r \<longrightarrow> r_last_apply r' = max (r_last_apply r) (r_commit r'))"
  using run_all [OF commit_apply.replica_lead_steps_axioms assms]
  by (auto simp: progress_def split: if_splits)

theorem commit_and_apply_advance_witness:
  "\<exists>r r'. replica_run alist_store no_sm 0 r r' \<and> r_term r' = 2 \<and> r_commit r \<le> r_commit r'"
proof -
  have "RaftConfig_ok \<lparr>rc_me = RaftAddr 1 2 3, rc_peers = []\<rparr>" by (simp add: RaftConfig_ok_def)
  then obtain r0 r where "replica_run alist_store no_sm 0 r0 r" "r_term r = 2"
    by (rule sample_leader [where self = 0]) simp_all
  with commit_and_apply_advance [OF this(1)] show ?thesis by blast
qed

end
