(* ===== verification/RaftVotes.thy ===== *)
theory RaftVotes
  imports RaftSafety
begin

text \<open>
  What one replica contributes to the safety of elections: the history of its votes, the votes it
  has recorded from others, and how it becomes the leader. Each is an interpretation of the
  interfaces of \<open>RaftSteps\<close>.
\<close>

section \<open>The history of votes\<close>

text \<open>A history tells for every term whom the replica voted for; \<open>remembers\<close> is that its durable
  state is the latest part of the history.\<close>

definition remembers :: "(RaftTerm \<rightharpoonup> u64) \<Rightarrow> ('db, 'sm, 'dir, 'rd, 'wr) Raft \<Rightarrow> bool" where
  "remembers h r \<longleftrightarrow> (\<forall>t v. h t = Some v \<longrightarrow> t \<le> r_term r \<and> v \<noteq> 0) \<and>
     h (r_term r) = (if r_vote r = 0 then None else Some (r_vote r))"

text \<open>A message that grants a vote is backed by the history.\<close>

fun vouched :: "u64 \<Rightarrow> (RaftTerm \<rightharpoonup> u64) \<Rightarrow> u64 \<times> Msg \<Rightarrow> bool" where
  "vouched self h (d, MRequestVote m) \<longleftrightarrow> RaftAddr_ToU64 (rv_dest m) = d"
| "vouched self h (d, MRequestVoteReply m) \<longleftrightarrow> (rvr_granted m \<longrightarrow>
     RaftAddr_ToU64 (rvr_src m) = self \<and> (d \<noteq> 0 \<longrightarrow> h (rvr_term m) = Some d))"
| "vouched self h (d, _) \<longleftrightarrow> True"

lemma vouched_mono: "vouched self h x \<Longrightarrow> h \<subseteq>\<^sub>m h' \<Longrightarrow> vouched self h' x"
  by (cases "(self, h, x)" rule: vouched.cases) (auto simp: map_le_def dom_def)

lemma honest_vouched: "honest self r d m \<Longrightarrow> remembers h r \<Longrightarrow> vouched self h (d, m)"
  by (cases m) (auto simp: remembers_def)

definition accounted :: "u64 \<Rightarrow> (RaftTerm \<rightharpoonup> u64) \<Rightarrow> ('db, 'sm, 'dir, 'rd, 'wr) Raft \<Rightarrow> bool" where
  "accounted self h r \<longleftrightarrow> remembers h r \<and> (\<forall>x \<in> set (r_outbox r). vouched self h x)"

definition extends :: "u64 \<Rightarrow> ('db, 'sm, 'dir, 'rd, 'wr) Raft \<Rightarrow> ('db, 'sm, 'dir, 'rd, 'wr) Raft \<Rightarrow> bool" where
  "extends self r r' \<longleftrightarrow> (\<forall>h. accounted self h r \<longrightarrow> (\<exists>h'. h \<subseteq>\<^sub>m h' \<and> accounted self h' r'))"

lemma extends_same:
  "r_term r' = r_term r \<Longrightarrow> r_vote r' = r_vote r \<Longrightarrow> r_outbox r' = r_outbox r \<Longrightarrow> extends self r r'"
  by (auto simp: extends_def accounted_def remembers_def intro!: exI map_le_refl)

lemma extends_newer:
  assumes "r_outbox r' = r_outbox r" "r_term r < r_term r'"
  shows "extends self r r'"
  unfolding extends_def
proof (intro allI impI)
  fix h
  assume h: "accounted self h r"
  let ?h = "if r_vote r' = 0 then h else h(r_term r' \<mapsto> r_vote r')"
  have none: "h (r_term r') = None"
  proof (rule ccontr)
    assume "h (r_term r') \<noteq> None"
    then have "r_term r' \<le> r_term r" using h by (auto simp: accounted_def remembers_def)
    with assms(2) show False by simp
  qed
  then have le: "h \<subseteq>\<^sub>m ?h" by (simp add: map_le_def dom_def)
  moreover have "remembers ?h r'"
    using h none less_imp_le [OF assms(2)] unfolding accounted_def remembers_def
    by (auto intro: order.trans [of _ "r_term r"])
  ultimately show "\<exists>h'. h \<subseteq>\<^sub>m h' \<and> accounted self h' r'"
    using h assms(1) vouched_mono [OF _ le] unfolding accounted_def by fastforce
qed

lemma extends_vote:
  assumes "r_outbox r' = r_outbox r" "r_term r' = r_term r" "r_vote r = 0"
  shows "extends self r r'"
  unfolding extends_def
proof (intro allI impI)
  fix h
  assume h: "accounted self h r"
  let ?h = "if r_vote r' = 0 then h else h(r_term r' \<mapsto> r_vote r')"
  have none: "h (r_term r) = None"
    using h assms(3) by (simp add: accounted_def remembers_def)
  then have le: "h \<subseteq>\<^sub>m ?h" using assms(2) by (simp add: map_le_def dom_def)
  moreover have "remembers ?h r'"
    using h assms none by (auto simp: accounted_def remembers_def)
  ultimately show "\<exists>h'. h \<subseteq>\<^sub>m h' \<and> accounted self h' r'"
    using h assms(1) vouched_mono [OF _ le] unfolding accounted_def by fastforce
qed

interpretation history: replica_lead_steps L S "extends self" self "\<lambda>_ _. True" for L S self
proof (unfold_locales, goal_cases)
  case (1 r r' r'')
  then show ?case unfolding extends_def by (meson map_le_trans)
next
  case (3 r d m)
  have "accounted self h (r\<lparr>r_outbox := r_outbox r @ [(d, m)]\<rparr>)" if "accounted self h r" for h
    using that honest_vouched [OF 3] by (auto simp: accounted_def remembers_def)
  then show ?case unfolding extends_def by (meson map_le_refl)
next
  case (13 t r r')
  note post = StepDown_post [OF 13] StepDown_frame [OF 13]
  show ?case
  proof (cases "r_term r < t")
    case True
    then show ?thesis by (intro extends_newer) (simp_all add: post)
  next
    case False
    then show ?thesis using post by (intro extends_same) auto
  qed
next
  case (15 r)
  then show ?case by (intro extends_newer) (simp_all add: campaign_fields word_inc_less)
next
  case (16 r v)
  then show ?case by (intro extends_vote) simp_all
qed (auto intro!: extends_same simp: soft_eq_def Raft_BecomeCandidate_def
    dest!: log_AppendOne_frame log_DeleteFrom_frame StateMachineApply_frame Stop_meta take_lead_frame
    simp: config_frame_def apply_frame_def)

section \<open>Votes received\<close>

text \<open>Every recorded vote of a candidate or leader was given to it in its term: \<open>vote_from\<close> tells who
  voted for it when.\<close>

definition votes_ok :: "(u64 \<Rightarrow> RaftTerm \<Rightarrow> bool) \<Rightarrow> ('db, 'sm, 'dir, 'rd, 'wr) Raft \<Rightarrow> bool" where
  "votes_ok vote_from r \<longleftrightarrow> distinct (map fst (r_vote_mgr r)) \<and>
     (r_state r \<noteq> STATE_FOLLOWER \<longrightarrow> (\<forall>s \<in> granted (r_vote_mgr r). vote_from s (r_term r)))"

text \<open>A configuration change only removes recorded votes.\<close>

definition fewer_votes :: "('db, 'sm, 'dir, 'rd, 'wr) Raft \<Rightarrow> ('db, 'sm, 'dir, 'rd, 'wr) Raft \<Rightarrow> bool" where
  "fewer_votes r r' \<longleftrightarrow> granted (r_vote_mgr r') \<subseteq> granted (r_vote_mgr r) \<and>
     (distinct (map fst (r_vote_mgr r)) \<longrightarrow> distinct (map fst (r_vote_mgr r')))"

lemma fewer_votes_trans: "fewer_votes r r' \<Longrightarrow> fewer_votes r' r'' \<Longrightarrow> fewer_votes r r''"
  by (auto simp: fewer_votes_def)

lemma AddPeer_votes: "Raft_AddPeer S a r = Some r' \<Longrightarrow> fewer_votes r r'"
  by (auto simp: Raft_AddPeer_def fewer_votes_def granted_def Let_def update_conv' distinct_update
      VoteItem_zero_def elim!: bind_eq_SomeE split: if_splits)

lemma DeletePeer_votes: "Raft_DeletePeer a r = Some r' \<Longrightarrow> fewer_votes r r'"
  by (auto simp: Raft_DeletePeer_def fewer_votes_def granted_def Let_def AList.delete_conv'
      distinct_delete elim!: bind_eq_SomeE split: if_splits)

lemma nodes_votes:
  "add_nodes S ns c r = Some (c', r') \<Longrightarrow> fewer_votes r r'"
  "remove_nodes ns c r = Some (c', r') \<Longrightarrow> fewer_votes r r'"
  by (induction ns arbitrary: c r)
     (auto elim!: bind_eq_SomeE intro: fewer_votes_trans AddPeer_votes DeletePeer_votes
       simp: fewer_votes_def [of r' r'])

lemma config_votes:
  "Raft_ConfigChange S rc i r = Some r' \<Longrightarrow> fewer_votes r r'"
  "Raft_ConfigRollback S i r = Some r' \<Longrightarrow> fewer_votes r r'"
  by (auto simp: Raft_ConfigChange_def Raft_ConfigRollback_def Raft_DoConfigChange_def Let_def
      elim!: bind_eq_SomeE dest!: nodes_votes split: if_splits prod.splits) (auto simp: fewer_votes_def)

lemma log_votes:
  "log_AppendOne L S e r = Some r' \<Longrightarrow> fewer_votes r r'"
  "log_DeleteFrom L S i r = Some r' \<Longrightarrow> fewer_votes r r'"
proof -
  have log: "fewer_votes (r\<lparr>r_log := l\<rparr>) r' \<longleftrightarrow> fewer_votes r r'"
    "fewer_votes r (r'\<lparr>r_log := l\<rparr>) \<longleftrightarrow> fewer_votes r r'"
    for r r' :: "('a, 'b, 'c, 'd, 'e) Raft" and l
    by (simp_all add: fewer_votes_def)
  have refl: "fewer_votes r r" for r :: "('a, 'b, 'c, 'd, 'e) Raft" by (simp add: fewer_votes_def)
  show "fewer_votes r r'" if app: "log_AppendOne L S e r = Some r'"
  proof -
    from app obtain l r0 where a: "RaftLog_AppendOne L
        (\<lambda>rc i l s. Raft_ConfigChange S rc i (s\<lparr>r_log := l\<rparr>)) e (r_log r) r = Some (l, r0)"
      and r': "r' = r0\<lparr>r_log := l\<rparr>"
      by (auto simp: log_AppendOne_def elim!: bind_eq_SomeE)
    have "fewer_votes r r0"
      by (rule AppendOne_callback [where P = fewer_votes, OF a])
         (drule config_votes, simp_all add: log refl)
    then show ?thesis by (simp add: r' log)
  qed
  show "fewer_votes r r'" if del: "log_DeleteFrom L S i r = Some r'"
  proof -
    from del obtain l r0 where a: "RaftLog_DeleteFrom L
        (\<lambda>i l s. Raft_ConfigRollback S i (s\<lparr>r_log := l\<rparr>)) i (r_log r) r = Some (l, r0)"
      and r': "r' = r0\<lparr>r_log := l\<rparr>"
      by (auto simp: log_DeleteFrom_def elim!: bind_eq_SomeE)
    have "fewer_votes r r0"
      by (rule DeleteFrom_callback [where P = fewer_votes, OF a])
         (drule config_votes, simp add: log, rule refl, erule (1) fewer_votes_trans)
    then show ?thesis by (simp add: r' log)
  qed
qed

lemma keys_Clear [simp]: "map fst (VoteManager_Clear votes) = map fst votes"
  by (simp add: VoteManager_Clear_def)

lemma votes_ok_fewer:
  assumes "fewer_votes r r'" "config_frame r r'" "votes_ok vote_from r"
  shows "votes_ok vote_from r'"
proof -
  have "r_meta r' = r_meta r" "r_state r' = r_state r" using assms(2) by (simp_all add: config_frame_def)
  with assms(1,3) show ?thesis by (auto simp: votes_ok_def fewer_votes_def)
qed

interpretation recorded: replica_lead_steps L S "\<lambda>r r'. votes_ok vote_from r \<longrightarrow> votes_ok vote_from r'"
  self vote_from for L S self vote_from
proof (unfold_locales, goal_cases)
  case (13 t r r')
  then show ?case using StepDown_post [OF 13] StepDown_frame [OF 13] by (simp add: votes_ok_def)
next
  case (19 e r r')
  then show ?case
    using votes_ok_fewer [OF log_votes(1) log_AppendOne_frame] by blast
next
  case (20 r i r')
  then show ?case
    using votes_ok_fewer [OF log_votes(2) log_DeleteFrom_frame] by blast
qed (auto simp: votes_ok_def soft_eq_def Raft_BecomeCandidate_def campaign_fields campaign_post
    dest!: StateMachineApply_frame Stop_meta take_lead_frame
    simp: config_frame_def apply_frame_def)

section \<open>Becoming the leader\<close>

text \<open>Apart from the events that may win an election, a replica that leads has led before in the same
  term.\<close>

definition led_before :: "('db, 'sm, 'dir, 'rd, 'wr) Raft \<Rightarrow> ('db, 'sm, 'dir, 'rd, 'wr) Raft \<Rightarrow> bool" where
  "led_before r r' \<longleftrightarrow> (r_state r' = STATE_LEADER \<longrightarrow> r_state r = STATE_LEADER \<and> r_term r' = r_term r)"

interpretation leading: replica_steps L S led_before self "\<lambda>_ _. True" for L S self
proof (unfold_locales, goal_cases)
  case (13 t r r')
  then show ?case using StepDown_post [OF 13] by (simp add: led_before_def)
qed (auto simp: led_before_def soft_eq_def Raft_BecomeCandidate_def campaign_post
    dest!: log_AppendOne_frame log_DeleteFrom_frame StateMachineApply_frame Stop_meta
    simp: config_frame_def apply_frame_def)

lemma AppendNoop_post:
  "Raft_AppendNoop L S r = Some r' \<Longrightarrow> r_vote_mgr r' = r_vote_mgr r \<and> r_meta r' = r_meta r \<and>
    r_config_mgr r' = r_config_mgr r \<and> r_state r' = r_state r"
  by (auto simp: Raft_AppendNoop_def log_AppendOne_def RaftLog_AppendOne_def Let_def
      elim!: bind_eq_SomeE split: if_splits prod.splits)

lemma BecomeLeader_post:
  assumes "Raft_BecomeLeader L S r = Some r'"
  shows "r_vote_mgr r' = r_vote_mgr r" "Raft_IfSelfVote r' = Raft_IfSelfVote r"
  using assms
  by (auto simp: BecomeLeader_take_lead Raft_IfSelfVote_def Raft_Me_def elim!: bind_eq_SomeE
      dest!: take_lead_frame AppendNoop_post)

definition has_majority :: "('db, 'sm, 'dir, 'rd, 'wr) Raft \<Rightarrow> bool" where
  "has_majority r \<longleftrightarrow> VoteManager_Majority (Raft_IfSelfVote r) (r_vote_mgr r)"

lemma BecomeLeader_majority:
  "Raft_BecomeLeader L S r = Some r' \<Longrightarrow> has_majority r \<Longrightarrow> has_majority r'"
  using BecomeLeader_post [of L S r r'] by (simp add: has_majority_def)

lemma DoRequestVote_majority:
  assumes "Raft_DoRequestVote L S r = Some r'" "r_state r' = STATE_LEADER"
  shows "has_majority r'"
proof (cases "VoteManager_QuorumAll (Raft_IfSelfVote (campaign L r)) (r_vote_mgr (campaign L r))")
  case True
  then have "Raft_BecomeLeader L S (campaign L r) = Some r'" "has_majority (campaign L r)"
    using assms(1) QuorumAll_Majority by (simp_all add: DoRequestVote_campaign Let_def has_majority_def)
  then show ?thesis by (rule BecomeLeader_majority)
next
  case False
  then have "r_state r' = STATE_CANDIDATE"
    using assms(1) by (auto simp: DoRequestVote_campaign Let_def campaign_post elim!: bind_eq_SomeE)
  with assms(2) show ?thesis by simp
qed

lemma Elect_majority:
  assumes "Elect L S r = Some r'" "r_state r' = STATE_LEADER"
  shows "has_majority r'"
proof -
  have "r_state r \<noteq> STATE_LEADER" using assms(1) by (auto simp: Elect_def split: if_splits)
  then have "Raft_DoRequestVote L S (r\<lparr>r_pre_voting := False\<rparr>) = Some r'"
    using assms by (auto simp: Elect_def Raft_DoPreVote_def Raft_BecomeCandidate_def Let_def
      elim!: bind_eq_SomeE split: if_splits)
  with assms(2) show ?thesis by (rule DoRequestVote_majority [rotated])
qed

lemma vote_answered_majority:
  assumes "vote_answered L S m r = Some r'" "r_state r' = STATE_LEADER"
  shows "r_state r = STATE_LEADER \<and> r_term r' = r_term r \<or> has_majority r'"
proof -
  consider "r_state r' = r_state r" "r_term r' = r_term r"
    | r1 where "Raft_BecomeLeader L S r1 = Some r'" "has_majority r1"
    using assms(1)
    by (fastforce simp: vote_answered_def Let_def has_majority_def elim!: bind_eq_SomeE split: if_splits)
  then show ?thesis using assms(2) BecomeLeader_majority by cases auto
qed

lemma pre_vote_answered_majority:
  assumes "pre_vote_answered L S m r = Some r'" "r_state r' = STATE_LEADER"
  shows "r_state r = STATE_LEADER \<and> r_term r' = r_term r \<or> has_majority r'"
proof -
  consider "r_state r' = r_state r" "r_term r' = r_term r"
    | r1 where "Raft_DoRequestVote L S r1 = Some r'"
    using assms(1)
    by (fastforce simp: pre_vote_answered_def Let_def elim!: bind_eq_SomeE split: if_splits)
  then show ?thesis using assms(2) DoRequestVote_majority by cases auto
qed

lemma leader_elected:
  assumes "Raft_step L S ev r = Some r'" "addressed self ev" "r_state r' = STATE_LEADER"
  shows "r_state r = STATE_LEADER \<and> r_term r' = r_term r \<or> has_majority r'"
proof (cases "may_lead ev")
  case False
  then show ?thesis
    using leading.step_without_election [OF assms(1) False assms(2)] assms(3) by (simp add: led_before_def)
next
  case True
  then consider "ev = ElectionTimeout" | m junk where "ev = RecvMsg (MRequestVoteReply m) junk"
    by (cases ev rule: may_lead.cases) auto
  then show ?thesis
  proof cases
    case 1
    with assms Elect_majority show ?thesis
      by (fastforce simp: expire_election_def elim!: bind_eq_SomeE split: option.splits if_splits)
  next
    case 2
    with assms show ?thesis
      using vote_answered_majority [of L S m r r'] pre_vote_answered_majority [of L S m r r']
        StepDown_post(1) [of L "rvr_term m" r r']
      by (auto simp: Raft_OnRequestVoteReply_def split: if_splits)
  qed
qed

end
