(* ===== verification/Cluster.thy ===== *)
theory Cluster
  imports RaftVotes
begin

text \<open>
  Replicas that exchange messages. The network loses, repeats and reorders messages; replicas crash
  at any point between two events and are set up again from their databases. The theorem of this
  theory is election safety: in a cluster of fixed, odd membership no term has two leaders.
\<close>

section \<open>The cluster\<close>

record ('db, 'sm, 'dir, 'rd, 'wr) cluster =
  nodes :: "u64 \<Rightarrow> ('db, 'sm, 'dir, 'rd, 'wr) Raft"
  net :: "(u64 \<times> Msg) set"

text \<open>Membership is fixed as long as every server knows itself under its own address and keeps votes
  of exactly the other members.\<close>

definition member_view :: "u64 set \<Rightarrow> u64 \<Rightarrow> ('db, 'sm, 'dir, 'rd, 'wr) Raft \<Rightarrow> bool" where
  "member_view C n r \<longleftrightarrow> fst ` set (r_vote_mgr r) = C - {n} \<and> RaftAddr_ToU64 (Raft_Me r) = n"

fun available :: "(u64 \<times> Msg) set \<Rightarrow> u64 \<Rightarrow> event \<Rightarrow> bool" where
  "available N n (RecvMsg m junk) \<longleftrightarrow> (n, m) \<in> N"
| "available N n _ \<longleftrightarrow> True"

definition cluster_init :: "'db leveldb \<Rightarrow> ('sm, 'dir, 'rd, 'wr) sm_ops \<Rightarrow> u64 set \<Rightarrow>
    ('db, 'sm, 'dir, 'rd, 'wr) cluster \<Rightarrow> bool" where
  "cluster_init L S C c \<longleftrightarrow> net c = {} \<and> (\<forall>n \<in> C. member_view C n (nodes c n) \<and>
     booted L S (ldb_open L) (ldb_open L) (ldb_open L) (nodes c n))"

inductive cluster_step :: "'db leveldb \<Rightarrow> ('sm, 'dir, 'rd, 'wr) sm_ops \<Rightarrow> u64 set \<Rightarrow>
    ('db, 'sm, 'dir, 'rd, 'wr) cluster \<Rightarrow> ('db, 'sm, 'dir, 'rd, 'wr) cluster \<Rightarrow> bool"
  for L :: "'db leveldb" and S :: "('sm, 'dir, 'rd, 'wr) sm_ops" and C :: "u64 set" where
  handle: "n \<in> C \<Longrightarrow> available (net c) n ev \<Longrightarrow> r_term (nodes c n) \<noteq> - 1 \<Longrightarrow>
    Raft_step L S ev ((nodes c n)\<lparr>r_outbox := []\<rparr>) = Some r' \<Longrightarrow> member_view C n r' \<Longrightarrow>
    cluster_step L S C c (c\<lparr>nodes := (nodes c)(n := r'), net := net c \<union> set (r_outbox r')\<rparr>)"
| restart: "n \<in> C \<Longrightarrow> booted L S (rl_db (r_log (nodes c n))) (rl_config_db (r_log (nodes c n)))
      (sd_db (r_meta (nodes c n))) r' \<Longrightarrow> member_view C n r' \<Longrightarrow>
    cluster_step L S C c (c\<lparr>nodes := (nodes c)(n := r')\<rparr>)"

inductive cluster_reachable :: "'db leveldb \<Rightarrow> ('sm, 'dir, 'rd, 'wr) sm_ops \<Rightarrow> u64 set \<Rightarrow>
    ('db, 'sm, 'dir, 'rd, 'wr) cluster \<Rightarrow> bool"
  for L :: "'db leveldb" and S :: "('sm, 'dir, 'rd, 'wr) sm_ops" and C :: "u64 set" where
  init: "cluster_init L S C c \<Longrightarrow> cluster_reachable L S C c"
| step: "cluster_reachable L S C c \<Longrightarrow> cluster_step L S C c c' \<Longrightarrow> cluster_reachable L S C c'"

section \<open>What holds of every server\<close>

sublocale leveldb_store \<subseteq> on_disk: replica_lead_steps L S
  "\<lambda>r r'. solid_rep L (r_meta r) \<longrightarrow> solid_rep L (r_meta r')" self "\<lambda>_ _. True" for S self
proof (unfold_locales, goal_cases)
  case (13 t r r')
  have "r_meta r' = r_meta r \<or>
      r_meta r' = solid_step L (SetVote 0) (solid_step L (SetTerm t) (r_meta r))"
    using 13 by (auto simp: Raft_StepDown_def Let_def elim!: bind_eq_SomeE split: if_splits)
  then show ?case using solid_step_rep by metis
next
  case (15 r)
  have "r_meta (campaign L r) =
      solid_step L (SetVote (RaftAddr_ToU64 (Raft_Me r))) (solid_step L IncrTerm (r_meta r))"
    by (simp add: campaign_fields)
  then show ?case using solid_step_rep by metis
next
  case (16 r v)
  then show ?case using solid_step_rep [of "r_meta r" "SetVote v"] by simp
qed (auto simp: soft_eq_def Raft_BecomeCandidate_def
    dest!: log_AppendOne_frame log_DeleteFrom_frame StateMachineApply_frame Stop_meta take_lead_frame
    simp: config_frame_def apply_frame_def)

lemma StepDown_same: "Raft_StepDown L (r_term r) r = Some r' \<Longrightarrow> r_meta r' = r_meta r"
  by (auto simp: Raft_StepDown_def Let_def elim!: bind_eq_SomeE)

lemma VoteManager_Reset_distinct: "distinct (map fst (VoteManager_Reset peers))"
proof -
  have "distinct (map fst (fold (\<lambda>a. AList.update (RaftAddr_ToU64 a) VoteItem_zero) peers m))"
    if "distinct (map fst m)" for m
    using that by (induction peers arbitrary: m) (simp_all add: distinct_update)
  then show ?thesis by (simp add: VoteManager_Reset_def)
qed

lemma booted_fields:
  assumes "booted L S log_db config_db meta_db r"
  shows "SolidData_Init L meta_db = Some (r_meta r)" "r_state r = STATE_FOLLOWER"
    "distinct (map fst (r_vote_mgr r))"
proof -
  obtain meta r1 peers where r1: "SolidData_Init L meta_db = Some meta" "r_meta r1 = meta"
    "r_vote_mgr r1 = VoteManager_Reset peers" "Raft_Start L S r1 = Some r"
    by (rule booted_cases [OF assms])
  obtain r2 where r2: "r_meta r2 = r_meta r1" "r_vote_mgr r2 = r_vote_mgr r1"
    "Raft_StepDown L (r_term r1) r2 = Some r"
    by (rule Start_cases [OF r1(4)])
  note post = StepDown_post [OF r2(3)] StepDown_frame [OF r2(3)]
  show "SolidData_Init L meta_db = Some (r_meta r)"
    using r1 r2 StepDown_same [of L r2 r] by simp
  show "r_state r = STATE_FOLLOWER" by (rule post(1))
  show "distinct (map fst (r_vote_mgr r))" using post r2(2) r1(3) VoteManager_Reset_distinct by simp
qed

section \<open>The invariant\<close>

text \<open>\<open>cast n\<close> is the history of the votes of server \<open>n\<close>.\<close>

definition server_ok :: "'db leveldb \<Rightarrow> u64 set \<Rightarrow> (u64 \<Rightarrow> RaftTerm \<rightharpoonup> u64) \<Rightarrow> u64 \<Rightarrow>
    ('db, 'sm, 'dir, 'rd, 'wr) Raft \<Rightarrow> bool" where
  "server_ok L C cast n r \<longleftrightarrow> solid_rep L (r_meta r) \<and> remembers (cast n) r \<and>
     votes_ok (\<lambda>s t. cast s t = Some n) r \<and>
     (r_state r = STATE_LEADER \<longrightarrow> (\<exists>Q. vote_quorum C Q \<and> (\<forall>s \<in> Q. cast s (r_term r) = Some n)))"

definition cluster_ok :: "'db leveldb \<Rightarrow> u64 set \<Rightarrow> (u64 \<Rightarrow> RaftTerm \<rightharpoonup> u64) \<Rightarrow>
    ('db, 'sm, 'dir, 'rd, 'wr) cluster \<Rightarrow> bool" where
  "cluster_ok L C cast c \<longleftrightarrow> (\<forall>n \<in> C. server_ok L C cast n (nodes c n)) \<and>
     (\<forall>x \<in> net c. \<exists>s. vouched s (cast s) x)"

lemma votes_ok_mono:
  "votes_ok V r \<Longrightarrow> (\<And>s t. V s t \<Longrightarrow> W s t) \<Longrightarrow> votes_ok W r"
  by (auto simp: votes_ok_def)

lemma server_ok_mono:
  assumes "server_ok L C cast n r" "\<And>s. cast s \<subseteq>\<^sub>m cast' s" "cast' n = cast n"
  shows "server_ok L C cast' n r"
proof -
  have "cast' s t = Some v" if "cast s t = Some v" for s t v
    using assms(2) [of s] that by (metis domI map_le_def)
  note le = this
  have "votes_ok (\<lambda>s t. cast s t = Some n) r" using assms(1) by (simp add: server_ok_def)
  then have "votes_ok (\<lambda>s t. cast' s t = Some n) r" using le by (rule votes_ok_mono)
  moreover have "\<exists>Q. vote_quorum C Q \<and> (\<forall>s \<in> Q. cast' s (r_term r) = Some n)"
    if leads: "r_state r = STATE_LEADER"
  proof -
    obtain Q where "vote_quorum C Q" "\<forall>s \<in> Q. cast s (r_term r) = Some n"
      using assms(1) leads by (auto simp: server_ok_def)
    then show ?thesis using le by blast
  qed
  ultimately show ?thesis using assms(1,3) by (simp add: server_ok_def)
qed

lemma booted_server:
  assumes "booted L S log_db config_db meta_db r" "solid_rep L (r_meta r)" "remembers (cast n) r"
  shows "server_ok L C cast n r"
  using booted_fields [OF assms(1)] assms(2,3) by (simp add: server_ok_def votes_ok_def)

text \<open>A candidate that finds a majority in its vote manager has a quorum of the cluster.\<close>

lemma majority_quorum:
  assumes "has_majority r" "member_view C n r" "n \<in> C" "n \<noteq> 0" "remembers (cast n) r"
    and "votes_ok (\<lambda>s t. cast s t = Some n) r" "r_state r \<noteq> STATE_FOLLOWER"
  shows "\<exists>Q. vote_quorum C Q \<and> (\<forall>s \<in> Q. cast s (r_term r) = Some n)"
proof -
  let ?Q = "supporters vi_grant (Raft_IfSelfVote r) n (r_vote_mgr r)"
  have dist: "distinct (map fst (r_vote_mgr r))" using assms(6) by (simp add: votes_ok_def)
  have "n \<notin> fst ` set (r_vote_mgr r)" "members n (r_vote_mgr r) = C"
    using assms(2,3) by (auto simp: member_view_def members_def)
  then have "vote_quorum C ?Q"
    using assms(1) dist unfolding vote_quorum_def has_majority_def by blast
  moreover have "cast s (r_term r) = Some n" if "s \<in> ?Q" for s
  proof (cases "s \<in> granted (r_vote_mgr r)")
    case True
    then show ?thesis using assms(6,7) by (simp add: votes_ok_def)
  next
    case False
    then have "s = n" "Raft_IfSelfVote r"
      using that dist by (auto simp: supporters_def granted_def split: if_splits)
    then show ?thesis
      using assms(2,4,5) by (simp add: Raft_IfSelfVote_def member_view_def remembers_def)
  qed
  ultimately show ?thesis by blast
qed

context leveldb_store
begin

lemma init_ok:
  assumes "cluster_init L S C c"
  shows "\<exists>cast. cluster_ok L C cast c"
proof -
  let ?cast = "\<lambda>_. Map.empty"
  have "server_ok L C ?cast n (nodes c n)" if "n \<in> C" for n
  proof -
    have boot: "booted L S (ldb_open L) (ldb_open L) (ldb_open L) (nodes c n)"
      using assms that by (simp add: cluster_init_def)
    obtain sd where "SolidData_Init L (ldb_open L) = Some sd" "sd_vote sd = 0" "solid_rep L sd"
      using solid_Init_fresh [OF get_open get_open] by blast
    with booted_fields(1) [OF boot] have "solid_rep L (r_meta (nodes c n))" "r_vote (nodes c n) = 0"
      by simp_all
    then show ?thesis by (intro booted_server [OF boot]) (simp_all add: remembers_def)
  qed
  then show ?thesis using assms by (auto simp: cluster_ok_def cluster_init_def)
qed

lemma restart_ok:
  assumes "cluster_ok L C cast c" "n \<in> C"
    and "booted L S log_db config_db (sd_db (r_meta (nodes c n))) r'"
  shows "cluster_ok L C cast (c\<lparr>nodes := (nodes c)(n := r')\<rparr>)"
proof -
  have ok: "server_ok L C cast n (nodes c n)" using assms(1,2) by (simp add: cluster_ok_def)
  then have "r_meta r' = r_meta (nodes c n)"
    using solid_Init_restart booted_fields(1) [OF assms(3)] by (simp add: server_ok_def)
  with ok have "server_ok L C cast n r'"
    by (intro booted_server [OF assms(3)]) (simp_all add: server_ok_def remembers_def)
  then show ?thesis using assms(1) by (simp add: cluster_ok_def)
qed

lemma handle_server:
  assumes "server_ok L C cast n r" "n \<in> C" "n \<noteq> 0" "r_outbox r = []" "r_term r \<noteq> - 1"
    and "Raft_step L S ev r = Some r'" "member_view C n r'" "addressed n ev"
    and "\<And>m junk. ev = RecvMsg (MRequestVoteReply m) junk \<Longrightarrow> rvr_granted m \<Longrightarrow>
      cast (RaftAddr_ToU64 (rvr_src m)) (rvr_term m) = Some n"
  shows "\<exists>h. cast n \<subseteq>\<^sub>m h \<and> server_ok L C (cast(n := h)) n r' \<and> (\<forall>x \<in> set (r_outbox r'). vouched n h x)"
proof -
  have "extends n r r'" by (rule history.step_all [OF assms(6,8,5)]) simp
  then obtain h where h: "cast n \<subseteq>\<^sub>m h" "accounted n h r'"
    using assms(1,4) unfolding extends_def by (metis accounted_def empty_iff empty_set server_ok_def)
  let ?cast = "cast(n := h)"
  have le: "?cast s t = Some v" if "cast s t = Some v" for s t v
    using h(1) that by (auto simp: map_le_def dom_def)
  have "votes_ok (\<lambda>s t. cast s t = Some n) r \<longrightarrow> votes_ok (\<lambda>s t. cast s t = Some n) r'"
    by (rule recorded.step_all [OF assms(6,8,5)]) (use assms(9) in fastforce)
  then have "votes_ok (\<lambda>s t. cast s t = Some n) r'" using assms(1) by (simp add: server_ok_def)
  then have votes: "votes_ok (\<lambda>s t. ?cast s t = Some n) r'" using le by (rule votes_ok_mono)
  have solid: "solid_rep L (r_meta r')"
    using on_disk.step_all [OF assms(6,8,5)] assms(1) by (simp add: server_ok_def)
  have rem: "remembers (?cast n) r'" using h(2) by (simp add: accounted_def)
  have quorum: "\<exists>Q. vote_quorum C Q \<and> (\<forall>s \<in> Q. ?cast s (r_term r') = Some n)"
    if "r_state r' = STATE_LEADER"
    using leader_elected [OF assms(6,8) that]
  proof
    assume "has_majority r'"
    then show ?thesis
      by (rule majority_quorum [OF _ assms(7,2,3) rem votes]) (simp add: that)
  next
    assume *: "r_state r = STATE_LEADER \<and> r_term r' = r_term r"
    with assms(1) le show ?thesis unfolding server_ok_def by metis
  qed
  have "server_ok L C ?cast n r'" unfolding server_ok_def using solid rem votes quorum by blast
  then show ?thesis using h unfolding accounted_def by blast
qed

lemma handle_ok:
  assumes "cluster_ok L C cast c" "n \<in> C" "0 \<notin> C" "available (net c) n ev" "r_term (nodes c n) \<noteq> - 1"
    and "Raft_step L S ev ((nodes c n)\<lparr>r_outbox := []\<rparr>) = Some r'" "member_view C n r'"
  shows "\<exists>cast. cluster_ok L C cast
    (c\<lparr>nodes := (nodes c)(n := r'), net := net c \<union> set (r_outbox r')\<rparr>)"
proof -
  have net: "\<exists>s. vouched s (cast s) (n, m)" if "ev = RecvMsg m junk" for m junk
    using that assms(1,4) by (auto simp: cluster_ok_def)
  have n0: "n \<noteq> 0" using assms(2,3) by auto
  have addr: "addressed n ev"
    by (cases "(n, ev)" rule: addressed.cases) (use net in auto)
  have "server_ok L C cast n ((nodes c n)\<lparr>r_outbox := []\<rparr>)"
    using assms(1,2) by (simp add: cluster_ok_def server_ok_def remembers_def votes_ok_def)
  from handle_server [OF this assms(2) n0 _ _ assms(6,7) addr] net n0 assms(5)
  obtain h where h: "cast n \<subseteq>\<^sub>m h" "server_ok L C (cast(n := h)) n r'"
    "\<forall>x \<in> set (r_outbox r'). vouched n h x" by fastforce
  let ?cast = "cast(n := h)"
  have le: "cast s \<subseteq>\<^sub>m ?cast s" for s using h(1) by simp
  have "server_ok L C ?cast m (nodes c m)" if "m \<in> C" "m \<noteq> n" for m
    by (rule server_ok_mono [OF _ le]) (use that assms(1) in \<open>auto simp: cluster_ok_def\<close>)
  moreover have "\<exists>s. vouched s (?cast s) x" if "x \<in> net c \<union> set (r_outbox r')" for x
    using that assms(1) h(3) vouched_mono [OF _ le] unfolding cluster_ok_def
    by (metis UnE fun_upd_same)
  ultimately show ?thesis using h(2) by (intro exI [of _ ?cast]) (simp add: cluster_ok_def)
qed

lemma reachable_ok:
  assumes "cluster_reachable L S C c" "0 \<notin> C"
  shows "\<exists>cast. cluster_ok L C cast c"
  using assms(1)
proof induction
  case (init c)
  then show ?case by (rule init_ok)
next
  case (step c c')
  then obtain cast where "cluster_ok L C cast c" by blast
  note ok = this
  from step.hyps(2) show ?case
  proof cases
    case (handle n ev r')
    then show ?thesis using handle_ok [OF ok] assms(2) by simp
  next
    case (restart n r')
    then show ?thesis using restart_ok [OF ok] by blast
  qed
qed

end

section \<open>Properties\<close>

text \<open>C1. Election safety. In a cluster whose fixed membership is a set of an odd number of servers,
  none with the address 0, no two servers are leaders of the same term, whatever messages are lost,
  repeated or reordered and whichever servers crash and restart from their databases.\<close>

theorem election_safety:
  assumes "leveldb_store L" "finite C" "odd (card C)" "0 \<notin> C"
    and "cluster_reachable L S C c" "a \<in> C" "b \<in> C"
    and "r_state (nodes c a) = STATE_LEADER" "r_state (nodes c b) = STATE_LEADER"
    and "r_term (nodes c a) = r_term (nodes c b)"
  shows "a = b"
proof -
  obtain cast where ok: "cluster_ok L C cast c"
    using leveldb_store.reachable_ok [OF assms(1,5,4)] by blast
  have "server_ok L C cast a (nodes c a)" "server_ok L C cast b (nodes c b)"
    using ok assms(6,7) by (simp_all add: cluster_ok_def)
  then obtain Q R where Q: "vote_quorum C Q" "\<forall>s \<in> Q. cast s (r_term (nodes c a)) = Some a"
    and R: "vote_quorum C R" "\<forall>s \<in> R. cast s (r_term (nodes c a)) = Some b"
    using assms(8-10) by (auto simp: server_ok_def)
  have "Some a = Some b"
    by (rule elections.agree [OF assms(2,3) Q(1) R(1), where choice = "\<lambda>s. cast s (r_term (nodes c a))"])
       (simp_all add: Q R)
  then show ?thesis by simp
qed

theorem election_safety_witness:
  "\<exists>c a. cluster_reachable alist_store no_sm {a} c \<and> r_state (nodes c a) = STATE_LEADER \<and>
     (\<forall>b \<in> {a}. r_state (nodes c b) = STATE_LEADER \<longrightarrow> a = b)"
proof -
  let ?rc = "\<lparr>rc_me = RaftAddr 1 2 3, rc_peers = []\<rparr>"
  let ?a = "RaftAddr_ToU64 (RaftAddr 1 2 3)"
  have "RaftConfig_ok ?rc" by (simp add: RaftConfig_ok_def)
  then obtain r r' where r: "booted alist_store no_sm [] [] [] r" "r_term r = 1" "Raft_Me r = RaftAddr 1 2 3"
    "r_vote_mgr r = []" "Raft_step alist_store no_sm ElectionTimeout r = Some r'" "r_outbox r = []"
    "r_state r' = STATE_LEADER" "r_vote_mgr r' = []" "Raft_Me r' = RaftAddr 1 2 3"
    by (rule sample_leader) simp_all
  let ?c = "\<lparr>nodes = \<lambda>_. r, net = {}\<rparr>"
  have "cluster_reachable alist_store no_sm {?a} ?c"
    by (rule cluster_reachable.init)
       (use r in \<open>simp add: cluster_init_def member_view_def alist_store_def\<close>)
  moreover have same: "r\<lparr>r_outbox := []\<rparr> = r" using r(6) by (cases r) simp
  have "cluster_step alist_store no_sm {?a} ?c
      (?c\<lparr>nodes := (nodes ?c)(?a := r'), net := net ?c \<union> set (r_outbox r')\<rparr>)"
    by (intro cluster_step.handle [where ev = ElectionTimeout]) 
       (use r(5) in \<open>simp_all add: r same member_view_def\<close>)
  ultimately have reach: "cluster_reachable alist_store no_sm {?a}
      (?c\<lparr>nodes := (nodes ?c)(?a := r'), net := net ?c \<union> set (r_outbox r')\<rparr>)"
    by (rule cluster_reachable.step)
  have "?a \<noteq> 0" by code_simp
  then have "0 \<notin> {?a}" by simp
  from election_safety [OF alist_store.leveldb_store_axioms _ _ this reach] reach r(7) show ?thesis by fastforce
qed

end
