(* ===== verification/RaftReplication.thy ===== *)
theory RaftReplication
  imports RaftServer
begin

text \<open>
  What replication does to the log of a replica and to its state machine, in terms of the list of
  entries the log represents.
\<close>

section \<open>The merge of a follower\<close>

text \<open>The specification: \<open>es\<close> are the entries of the follower, \<open>ns\<close> those of the message, the first of
  which has position \<open>k\<close> in the list. Entries with the same term are the same; the first
  conflict or the end of the list is where the entries of the message take over.\<close>

fun raft_merge :: "AppendEntry list \<Rightarrow> nat \<Rightarrow> AppendEntry list \<Rightarrow> AppendEntry list" where
  "raft_merge es k [] = es"
| "raft_merge es k (n # ns) =
     (if k < length es \<and> ae_term (es ! k) = ae_term n then raft_merge es (Suc k) ns
      else take k es @ n # ns)"

lemma raft_merge_take: "j \<le> k \<Longrightarrow> k \<le> length es \<Longrightarrow> take j (raft_merge es k ns) = take j es"
  by (induction es k ns rule: raft_merge.induct) (auto simp: min_def)

lemma raft_merge_length: "k \<le> length es \<Longrightarrow> k + length ns \<le> length (raft_merge es k ns)"
  by (induction es k ns rule: raft_merge.induct) auto

lemma raft_merge_terms:
  "k \<le> length es \<Longrightarrow> i < length ns \<Longrightarrow> ae_term (raft_merge es k ns ! (k + i)) = ae_term (ns ! i)"
proof (induction es k ns arbitrary: i rule: raft_merge.induct)
  case (2 es k n ns)
  show ?case
  proof (cases "k < length es \<and> ae_term (es ! k) = ae_term n")
    case True
    show ?thesis
    proof (cases i)
      case 0
      have "take (Suc k) (raft_merge es (Suc k) ns) = take (Suc k) es"
        using True by (intro raft_merge_take) simp_all
      then have "raft_merge es (Suc k) ns ! k = es ! k" by (metis lessI nth_take)
      then show ?thesis using True 0 by simp
    next
      case (Suc j)
      then show ?thesis using 2 True by simp
    qed
  next
    case False
    then show ?thesis using 2 by (auto simp: nth_append min_def)
  qed
qed simp

text \<open>Nothing is cut when the follower already has all entries.\<close>

lemma raft_merge_same:
  "\<forall>i < length ns. k + i < length es \<and> ae_term (es ! (k + i)) = ae_term (ns ! i) \<Longrightarrow> raft_merge es k ns = es"
proof (induction es k ns rule: raft_merge.induct)
  case (2 es k n ns)
  then have "\<forall>i < length ns. Suc k + i < length es \<and> ae_term (es ! (Suc k + i)) = ae_term (ns ! i)"
    by fastforce
  moreover have "k < length es" "ae_term (es ! k) = ae_term n" using 2(2) by force+
  ultimately show ?case using 2(1) by simp
qed simp

section \<open>The code implements it\<close>

lemma log_AppendOne_rep:
  assumes "leveldb_store L" "log_rep L (r_log r) b c es" "Suc (b + length es) < 2 ^ 30"
  shows "ae_type e \<noteq> kConfig \<Longrightarrow> \<exists>l. log_AppendOne L S e r = Some (r\<lparr>r_log := l\<rparr>)"
    and "log_AppendOne L S e r = Some r' \<Longrightarrow> log_rep L (r_log r') b c (es @ [e])"
  using AppendOne_represents [OF assms, of e "\<lambda>rc i l s. Raft_ConfigChange S rc i (s\<lparr>r_log := l\<rparr>)" r]
  by (auto simp: log_AppendOne_def elim!: bind_eq_SomeE)

lemma append_all_rep:
  assumes "leveldb_store L" "log_rep L (r_log r) b c es" "b + length es + length ns < 2 ^ 30"
  shows "append_all L S ns r = Some r' \<Longrightarrow> log_rep L (r_log r') b c (es @ map le_append_entry ns)"
    and "list_all (\<lambda>n. ae_type (le_append_entry n) \<noteq> kConfig) ns \<Longrightarrow> \<exists>l. append_all L S ns r = Some (r\<lparr>r_log := l\<rparr>)"
proof -
  show "log_rep L (r_log r') b c (es @ map le_append_entry ns)" if "append_all L S ns r = Some r'"
    using that assms(2,3)
  proof (induction ns arbitrary: r es)
    case (Cons n ns)
    then obtain r1 where r1: "log_AppendOne L S (le_append_entry n) r = Some r1" "append_all L S ns r1 = Some r'"
      by (auto elim!: bind_eq_SomeE)
    have "log_rep L (r_log r1) b c (es @ [le_append_entry n])"
      using log_AppendOne_rep(2) [OF assms(1) Cons.prems(2) _ r1(1)] Cons.prems(3) by simp
    from Cons.IH [OF r1(2) this] Cons.prems(3) show ?case by simp
  qed simp
  show "\<exists>l. append_all L S ns r = Some (r\<lparr>r_log := l\<rparr>)"
    if "list_all (\<lambda>n. ae_type (le_append_entry n) \<noteq> kConfig) ns"
    using that assms(2,3)
  proof (induction ns arbitrary: r es)
    case Nil
    show ?case by (rule exI [of _ "r_log r"]) simp
  next
    case (Cons n ns)
    obtain l where l: "log_AppendOne L S (le_append_entry n) r = Some (r\<lparr>r_log := l\<rparr>)"
      using log_AppendOne_rep(1) [OF assms(1) Cons.prems(2)] Cons.prems by fastforce
    have "log_rep L l b c (es @ [le_append_entry n])"
      using log_AppendOne_rep(2) [OF assms(1) Cons.prems(2) _ l] Cons.prems(3) by simp
    with Cons.IH [of "r\<lparr>r_log := l\<rparr>" "es @ [le_append_entry n]"] l Cons.prems show ?case by simp
  qed
qed

lemma log_DeleteFrom_rep:
  assumes "leveldb_store L" "log_rep L (r_log r) b c es" "i < 2 ^ 32"
  shows "rl_config_indices (r_log r) \<subseteq> {0} \<Longrightarrow> \<exists>l. log_DeleteFrom L S (of_nat i) r = Some (r\<lparr>r_log := l\<rparr>)"
    and "log_DeleteFrom L S (of_nat i) r = Some r' \<Longrightarrow> log_rep L (r_log r') b c (take (i - Suc b) es)"
  using DeleteFrom_represents [OF assms, of "\<lambda>i l s. Raft_ConfigRollback S i (s\<lparr>r_log := l\<rparr>)" r]
  by (auto simp: log_DeleteFrom_def elim!: bind_eq_SomeE)

text \<open>How the index tests of the loop read the represented list.\<close>

lemma match_index:
  assumes "log_rep L l b c es" "b \<le> p" "p \<le> b + length es"
  shows "\<not> (of_nat p + 1 :: RaftIndex) < rl_first l"
    and "rl_last l \<ge> of_nat p + 1 \<longleftrightarrow> p < b + length es"
    and "p < b + length es \<Longrightarrow>
      \<exists>meta. RaftLog_GetMeta L l (of_nat p + 1) = Some (Some meta) \<and> mv_term meta = ae_term (es ! (p - b))"
proof -
  have bound: "Suc p < 2 ^ 32" "b + length es < 2 ^ 32" "Suc b < 2 ^ 32"
    using log_rep_bound [OF assms(1)] assms(3) by auto
  have suc: "of_nat p + 1 = (of_nat (Suc p) :: RaftIndex)" by simp
  have first: "rl_first l = (if es = [] then 0 else of_nat (Suc b))"
    and last: "rl_last l = (if es = [] then 0 else of_nat (b + length es))"
    using assms(1) by (simp_all add: log_rep_def)
  show "\<not> (of_nat p + 1 :: RaftIndex) < rl_first l"
    unfolding suc first using bound assms(2) by (auto simp: word_less_nat_alt simp del: of_nat_Suc)
  show "rl_last l \<ge> of_nat p + 1 \<longleftrightarrow> p < b + length es"
    unfolding suc last using bound assms(2,3)
    by (auto simp: word_le_nat_alt simp del: of_nat_Suc of_nat_add)
  show "\<exists>meta. RaftLog_GetMeta L l (of_nat p + 1) = Some (Some meta) \<and> mv_term meta = ae_term (es ! (p - b))"
    if "p < b + length es"
  proof -
    have k: "p - b < length es" "Suc b + (p - b) = Suc p" using that assms(2) by auto
    show ?thesis
      using GetMeta_rep [OF assms(1) k(1)] log_metas_nth [OF k(1), of c "Suc b"]
      unfolding k(2) suc by (auto simp: log_meta_def Let_def)
  qed
qed

lemma match_entries_rep:
  assumes "leveldb_store L" "log_rep L (r_log r) b c es" "match_entries L S (of_nat p) ns r = Some r'"
    and "b \<le> p" "p \<le> b + length es" "p + length ns < 2 ^ 30"
  shows "log_rep L (r_log r') b c (raft_merge es (p - b) (map le_append_entry ns))"
  using assms(3-)
proof (induction ns arbitrary: p)
  case Nil
  then show ?case using assms(2) by simp
next
  case (Cons n ns)
  note ix = match_index [OF assms(2) Cons.prems(2,3)]
  have suc: "(of_nat (Suc p) :: RaftIndex) = of_nat p + 1" by simp
  show ?case
  proof (cases "p < b + length es")
    case True
    obtain meta where meta: "RaftLog_GetMeta L (r_log r) (of_nat p + 1) = Some (Some meta)"
      "mv_term meta = ae_term (es ! (p - b))" using ix(3) True by blast
    have k: "p - b < length es" "Suc p - b = Suc (p - b)" using True Cons.prems(2) by auto
    show ?thesis
    proof (cases "ae_term (es ! (p - b)) = ae_term (le_append_entry n)")
      case same: True
      then have "match_entries L S (of_nat (Suc p)) ns r = Some r'"
        using Cons.prems(1) ix True meta by (simp add: suc del: of_nat_Suc split: if_splits)
      from Cons.IH [OF this] Cons.prems True k same show ?thesis by simp
    next
      case False
      then obtain r1 where r1: "log_DeleteFrom L S (of_nat (Suc p)) r = Some r1"
        "append_all L S (n # ns) r1 = Some r'"
        using Cons.prems(1) ix True meta
        by (auto simp: suc simp del: append_all.simps of_nat_Suc split: if_splits elim!: bind_eq_SomeE)
      have "log_rep L (r_log r1) b c (take (p - b) es)"
        using log_DeleteFrom_rep(2) [OF assms(1,2) _ r1(1)] Cons.prems(4) by simp
      from append_all_rep(1) [OF assms(1) this _ r1(2)] k False Cons.prems show ?thesis by simp
    qed
  next
    case False
    then have p: "p = b + length es" using Cons.prems(3) by simp
    have "append_all L S (n # ns) r = Some r'"
      using Cons.prems(1) ix False by (simp del: append_all.simps split: if_splits)
    from append_all_rep(1) [OF assms(1,2) _ this] Cons.prems(4) p show ?thesis by simp
  qed
qed

text \<open>A follower whose committed entries do not conflict, without configuration entries, never
  aborts in the loop.\<close>

lemma match_entries_total:
  assumes "leveldb_store L" "log_rep L (r_log r) b c es" "rl_config_indices (r_log r) \<subseteq> {0}"
    and "list_all (\<lambda>n. ae_type (le_append_entry n) \<noteq> kConfig) ns"
    and "b \<le> p" "p \<le> b + length es" "p + length ns < 2 ^ 30"
    and "\<forall>i < length ns. le_index (ns ! i) = of_nat (Suc p + i)"
    and "\<forall>i < length ns. p - b + i < length es \<longrightarrow>
      ae_term (es ! (p - b + i)) \<noteq> ae_term (le_append_entry (ns ! i)) \<longrightarrow> r_commit r < of_nat (Suc p + i)"
  shows "\<exists>l. match_entries L S (of_nat p) ns r = Some (r\<lparr>r_log := l\<rparr>)"
  using assms(4-)
proof (induction ns arbitrary: p)
  case Nil
  show ?case by (rule exI [of _ "r_log r"]) simp
next
  case (Cons n ns)
  note ix = match_index [OF assms(2) Cons.prems(2,3)]
  have suc: "(of_nat (Suc p) :: RaftIndex) = of_nat p + 1" by simp
  have n: "le_index n = of_nat p + 1" using Cons.prems(5) [rule_format, of 0] by (simp add: add.commute)
  show ?case
  proof (cases "p < b + length es")
    case True
    obtain meta where meta: "RaftLog_GetMeta L (r_log r) (of_nat p + 1) = Some (Some meta)"
      "mv_term meta = ae_term (es ! (p - b))" using ix(3) True by blast
    have k: "p - b < length es" "Suc p - b = Suc (p - b)" using True Cons.prems(2) by auto
    show ?thesis
    proof (cases "ae_term (es ! (p - b)) = ae_term (le_append_entry n)")
      case same: True
      have "\<exists>l. match_entries L S (of_nat (Suc p)) ns r = Some (r\<lparr>r_log := l\<rparr>)"
      proof (rule Cons.IH)
        show "\<forall>i < length ns. le_index (ns ! i) = of_nat (Suc (Suc p) + i)"
          using Cons.prems(5) by (auto dest: spec [of _ "Suc i" for i])
        show "\<forall>i < length ns. Suc p - b + i < length es \<longrightarrow>
            ae_term (es ! (Suc p - b + i)) \<noteq> ae_term (le_append_entry (ns ! i)) \<longrightarrow>
            r_commit r < of_nat (Suc (Suc p) + i)"
          using Cons.prems(6) unfolding k(2) by (auto dest: spec [of _ "Suc i" for i])
      qed (use Cons.prems True in simp_all)
      then show ?thesis using ix True meta same n by (simp add: suc del: of_nat_Suc)
    next
      case False
      have commit: "r_commit r < of_nat p + 1"
        using Cons.prems(6) [rule_format, of 0] False k by (simp add: add.commute)
      obtain l where l: "log_DeleteFrom L S (of_nat (Suc p)) r = Some (r\<lparr>r_log := l\<rparr>)"
        using log_DeleteFrom_rep(1) [OF assms(1,2) _ assms(3), of "Suc p" S] Cons.prems(4) by auto
      have rep: "log_rep L (r_log (r\<lparr>r_log := l\<rparr>)) b c (take (p - b) es)"
        using log_DeleteFrom_rep(2) [OF assms(1,2) _ l] Cons.prems(4) by simp
      obtain l' where "append_all L S (n # ns) (r\<lparr>r_log := l\<rparr>) = Some (r\<lparr>r_log := l\<rparr>\<lparr>r_log := l'\<rparr>)"
        using append_all_rep(2) [OF assms(1) rep _ Cons.prems(1), of S] k Cons.prems(2,4) by auto
      then show ?thesis
        using ix True meta False n l commit
        by (simp add: suc del: append_all.simps of_nat_Suc) blast
    qed
  next
    case False
    then have p: "p = b + length es" using Cons.prems(3) by simp
    obtain l' where "append_all L S (n # ns) r = Some (r\<lparr>r_log := l'\<rparr>)"
      using append_all_rep(2) [OF assms(1,2) _ Cons.prems(1), of S] Cons.prems(4) p by auto
    then show ?thesis using ix False n by (simp del: append_all.simps) blast
  qed
qed

section \<open>Applying entries\<close>

text \<open>The entry at position \<open>k\<close> as the log returns it.\<close>

definition stored_entry :: "u32 \<Rightarrow> nat \<Rightarrow> AppendEntry list \<Rightarrow> nat \<Rightarrow> LogEntry" where
  "stored_entry c b es k = (let m = log_metas c (Suc b) es ! k in
     \<lparr>le_index = of_nat (Suc b + k), le_pre_chk_all = mv_pre_chk_all m, le_chk_ths = mv_chk_ths m,
      le_chk_all = mv_chk_all m, le_append_entry = es ! k\<rparr>)"

text \<open>The state machine sees the data entries only.\<close>

definition sm_apply_all :: "('sm, 'dir, 'rd, 'wr) sm_ops \<Rightarrow> RaftAddr \<Rightarrow> LogEntry list \<Rightarrow> 'sm \<Rightarrow> 'sm" where
  "sm_apply_all S me entries =
     fold (\<lambda>e sm. snd (so_Apply S e me sm)) (filter (\<lambda>e. ae_type (le_append_entry e) = kData) entries)"

lemma apply_one_sm:
  assumes "log_rep L (r_log r) b c es" "k < length es" "apply_one L S (of_nat (Suc b + k)) r = Some r'"
  shows "r_sm r' = map_option (sm_apply_all S (Raft_Me r) [stored_entry c b es k]) (r_sm r)"
proof -
  have "RaftLog_Get L (r_log r) (of_nat (Suc b + k)) = Some (Some (stored_entry c b es k))"
    using Get_rep [OF assms(1,2)] by (simp add: stored_entry_def Let_def del: of_nat_add of_nat_Suc)
  moreover have "le_append_entry (stored_entry c b es k) = es ! k" by (simp add: stored_entry_def Let_def)
  ultimately show ?thesis
    using assms(3)
    by (auto simp: apply_one_def sm_apply_all_def Let_def option.map_id simp del: of_nat_add of_nat_Suc
        split: EntryType.splits option.splits prod.splits if_splits)
qed

lemma apply_each_sm:
  assumes "apply_each L S (map (\<lambda>k. of_nat (Suc b + k)) ks) r = Some r'"
    and "log_rep L (r_log r) b c es" "\<forall>k \<in> set ks. k < length es"
  shows "r_sm r' = map_option (sm_apply_all S (Raft_Me r) (map (stored_entry c b es) ks)) (r_sm r)"
  using assms
proof (induction ks arbitrary: r)
  case Nil
  then show ?case by (cases "r_sm r") (auto simp: sm_apply_all_def)
next
  case (Cons k ks)
  then obtain x where x: "apply_one L S (of_nat (Suc b + k)) r = Some x"
    "apply_each L S (map (\<lambda>k. of_nat (Suc b + k)) ks) x = Some r'"
    by (auto simp del: of_nat_add of_nat_Suc elim!: bind_eq_SomeE)
  have same: "r_log x = r_log r" "Raft_Me x = Raft_Me r"
    using apply_one_frame [OF x(1)] by (simp_all add: apply_frame_def Raft_Me_def)
  have "r_sm r' = map_option (sm_apply_all S (Raft_Me x) (map (stored_entry c b es) ks)) (r_sm x)"
    by (rule Cons.IH [OF x(2)]) (use Cons.prems same in auto)
  moreover have "r_sm x = map_option (sm_apply_all S (Raft_Me r) [stored_entry c b es k]) (r_sm r)"
    by (rule apply_one_sm [OF Cons.prems(2) _ x(1)]) (use Cons.prems in auto)
  ultimately show ?case by (cases "r_sm r") (auto simp: same sm_apply_all_def)
qed

lemma apply_each_total:
  assumes "log_rep L (r_log r) b c es" "\<forall>k \<in> set ks. k < length es"
    and "\<forall>k \<in> set ks. ae_type (es ! k) \<in> {kData, kNoop, kConfig}"
    and "\<forall>k \<in> set ks. ae_type (es ! k) = kData \<longrightarrow>
      (\<forall>sm. fst (so_Apply S (stored_entry c b es k) (Raft_Me r) sm) = 0)"
  shows "\<exists>r'. apply_each L S (map (\<lambda>k. of_nat (Suc b + k)) ks) r = Some r'"
  using assms
proof (induction ks arbitrary: r)
  case (Cons k ks)
  have get: "RaftLog_Get L (r_log r) (of_nat (Suc b + k)) = Some (Some (stored_entry c b es k))"
    using Get_rep [OF Cons.prems(1), of k] Cons.prems(2)
    by (simp add: stored_entry_def Let_def del: of_nat_add of_nat_Suc)
  have e: "le_append_entry (stored_entry c b es k) = es ! k" by (simp add: stored_entry_def Let_def)
  obtain x where x: "apply_one L S (of_nat (Suc b + k)) r = Some x"
  proof (cases "ae_type (es ! k) = kData")
    case True
    have ap: "\<exists>sm'. so_Apply S (stored_entry c b es k) (Raft_Me r) sm = (0, sm')" for sm
      using Cons.prems(4) True by (metis list.set_intros(1) prod.collapse)
    show ?thesis
    proof (cases "r_sm r")
      case None
      then show ?thesis using that get e True by (simp add: apply_one_def del: of_nat_add of_nat_Suc)
    next
      case (Some a)
      with ap [of a] show ?thesis using that get e True
        by (auto simp: apply_one_def simp del: of_nat_add of_nat_Suc)
    qed
  next
    case False
    then show ?thesis using that get e Cons.prems(3)
      by (auto simp: apply_one_def Let_def simp del: of_nat_add of_nat_Suc)
  qed
  have same: "r_log x = r_log r" "Raft_Me x = Raft_Me r"
    using apply_one_frame [OF x] by (simp_all add: apply_frame_def Raft_Me_def)
  have "\<exists>r'. apply_each L S (map (\<lambda>k. of_nat (Suc b + k)) ks) x = Some r'"
    by (rule Cons.IH) (use Cons.prems same in auto)
  with x show ?case by (simp del: of_nat_add of_nat_Suc)
qed simp

lemma map_add_upt_Suc: "map (\<lambda>k. Suc (b + k)) [i ..< j] = [Suc (b + i) ..< Suc (b + j)]"
  by (induction j) auto

lemma apply_range:
  assumes "r_last_apply r = of_nat (b + i)" "r_commit r = of_nat (b + j)" "i < j" "b + j < 2 ^ 30"
  shows "r_commit r > r_last_apply r" "r_commit r \<noteq> - 1"
    "index_range (r_last_apply r + 1) (r_commit r) = map (\<lambda>k. of_nat (Suc b + k)) [i ..< j]"
proof -
  show "r_commit r > r_last_apply r"
    unfolding assms using assms(3,4) by (simp add: word_less_nat_alt del: of_nat_add)
  have "unat (r_commit r) < 2 ^ 30" using assms(2,4) by (simp del: of_nat_add)
  then show "r_commit r \<noteq> - 1" by (auto simp: unsigned_minus_1_eq_mask mask_eq_exp_minus_1)
  have "r_last_apply r + 1 = of_nat (Suc b + i)" using assms(1) by simp
  then have "index_range (r_last_apply r + 1) (r_commit r) = map of_nat [Suc b + i ..< Suc (b + j)]"
    using index_range_nat [of "Suc b + i" "b + j"] assms(2-4) by (simp del: of_nat_add of_nat_Suc upt_Suc)
  also have "\<dots> = map of_nat (map (\<lambda>k. Suc (b + k)) [i ..< j])" by (simp only: map_add_upt_Suc add_Suc)
  finally show "index_range (r_last_apply r + 1) (r_commit r) = map (\<lambda>k. of_nat (Suc b + k)) [i ..< j]"
    by (simp add: o_def del: of_nat_add of_nat_Suc upt_Suc)
qed

lemma StateMachineApply_each:
  assumes "log_rep L (r_log r) b c es" "r_last_apply r = of_nat (b + i)" "r_commit r = of_nat (b + j)"
    and "i < j" "j \<le> length es"
  shows "Raft_StateMachineApply L S r = do {
      r' \<leftarrow> apply_each L S (map (\<lambda>k. of_nat (Suc b + k)) [i ..< j]) r;
      Some (r'\<lparr>r_last_apply := r_commit r'\<rparr>) }"
proof -
  have "b + j < 2 ^ 30" using log_rep_bound [OF assms(1)] assms(5) by simp
  note range = apply_range [OF assms(2,3,4) this]
  show ?thesis unfolding Raft_StateMachineApply_def range(3) using range(1,2) by simp
qed

lemma StateMachineApply_sm:
  assumes "log_rep L (r_log r) b c es" "r_last_apply r = of_nat (b + i)" "r_commit r = of_nat (b + j)"
    and "i < j" "j \<le> length es" "Raft_StateMachineApply L S r = Some r'"
  shows "r_last_apply r' = r_commit r"
    "r_sm r' = map_option (sm_apply_all S (Raft_Me r) (map (stored_entry c b es) [i ..< j])) (r_sm r)"
proof -
  obtain r1 where r1: "apply_each L S (map (\<lambda>k. of_nat (Suc b + k)) [i ..< j]) r = Some r1"
    "r' = r1\<lparr>r_last_apply := r_commit r1\<rparr>"
    using assms(6) unfolding StateMachineApply_each [OF assms(1-5)] by (auto elim!: bind_eq_SomeE)
  have small: "\<forall>k \<in> set [i ..< j]. k < length es" using assms(5) by auto
  show "r_last_apply r' = r_commit r"
    using apply_each_frame [OF r1(1)] r1(2) by (simp add: apply_frame_def)
  show "r_sm r' = map_option (sm_apply_all S (Raft_Me r) (map (stored_entry c b es) [i ..< j])) (r_sm r)"
    using apply_each_sm [OF r1(1) assms(1) small] r1(2) by simp
qed

lemma StateMachineApply_total:
  assumes "log_rep L (r_log r) b c es" "r_last_apply r = of_nat (b + i)" "r_commit r = of_nat (b + j)"
    and "i < j" "j \<le> length es" "\<forall>k \<in> {i ..< j}. ae_type (es ! k) \<in> {kData, kNoop, kConfig}"
    and "\<forall>k \<in> {i ..< j}. ae_type (es ! k) = kData \<longrightarrow>
      (\<forall>sm. fst (so_Apply S (stored_entry c b es k) (Raft_Me r) sm) = 0)"
  shows "\<exists>r'. Raft_StateMachineApply L S r = Some r'"
proof -
  have small: "\<forall>k \<in> set [i ..< j]. k < length es" using assms(5) by auto
  obtain r1 where "apply_each L S (map (\<lambda>k. of_nat (Suc b + k)) [i ..< j]) r = Some r1"
    using apply_each_total [OF assms(1) small, of S] assms(6,7) by auto
  then show ?thesis unfolding StateMachineApply_each [OF assms(1-5)] by simp
qed

section \<open>Committing\<close>

lemma index_in_log:
  assumes "log_rep L l b c es" "rl_first l \<le> i" "i \<le> rl_last l" "0 < i"
  obtains k where "k < length es" "i = of_nat (Suc b + k)"
proof -
  have ne: "es \<noteq> []" using assms by (auto simp: log_rep_def)
  note f = log_rep_nonempty(1,2) [OF assms(1) ne]
  have "Suc b \<le> unat i" "unat i \<le> b + length es"
    using assms(2,3) log_rep_bound [OF assms(1)] ne unfolding f
    by (auto simp: word_le_nat_alt simp del: of_nat_Suc of_nat_add)
  then have "unat i - Suc b < length es" "i = of_nat (Suc b + (unat i - Suc b))"
    using ne by (auto simp del: of_nat_Suc of_nat_add simp: Suc_le_eq less_diff_conv2)
  then show ?thesis by (rule that)
qed

lemma MaybeCommit_cases:
  assumes "Raft_MaybeCommit L S r = Some r'" "r_commit r' \<noteq> r_commit r"
  defines "new \<equiv> IndexManager_MajorityMax (Raft_LastIndex S r) (r_index_mgr r)"
  shows "r_commit r' = new" "r_commit r < new" "rl_first (r_log r) \<le> new" "new \<le> rl_last (r_log r)"
    "\<exists>meta. RaftLog_GetMeta L (r_log r) new = Some (Some meta) \<and> mv_term meta = r_term r"
proof -
  obtain meta where *: "\<not> new \<le> r_commit r" "rl_first (r_log r) \<le> new"
    "RaftLog_GetMeta L (r_log r) new = Some (Some meta)" "mv_term meta = r_term r"
    "new \<le> rl_last (r_log r)" "Raft_StateMachineApply L S (r\<lparr>r_commit := new\<rparr>) = Some r'"
    using assms(1,2) unfolding new_def
    by (auto simp: Raft_MaybeCommit_def Let_def elim!: bind_eq_SomeE split: if_splits)
  then show "r_commit r' = new" "r_commit r < new" "rl_first (r_log r) \<le> new" "new \<le> rl_last (r_log r)"
    "\<exists>meta. RaftLog_GetMeta L (r_log r) new = Some (Some meta) \<and> mv_term meta = r_term r"
    using StateMachineApply_frame [OF *(6)] by (auto simp: apply_frame_def)
qed

lemma booted_started: "booted L S log_db config_db meta_db r \<Longrightarrow> r_started r \<and> r_state r = STATE_FOLLOWER"
proof (erule booted_cases, erule Start_cases)
  fix r1 r2 :: "('a, 'b, 'c, 'd, 'e) Raft"
  assume "r_started r2" "Raft_StepDown L (r_term r1) r2 = Some r"
  then show "r_started r \<and> r_state r = STATE_FOLLOWER"
    using StepDown_post(1) [of L "r_term r1" r2 r]
    by (auto simp: Raft_StepDown_def Let_def elim!: bind_eq_SomeE split: if_splits)
qed

text \<open>A replica of the reference store with any log.\<close>

lemma sample_replica:
  assumes "list_all (\<lambda>e. ae_type e \<noteq> kConfig) es" "length es < 2 ^ 30"
  obtains r :: "((bytes \<times> bytes) list, unit, unit, unit, unit) Raft" where
    "log_rep alist_store (r_log r) 0 0 es" "rl_config_indices (r_log r) = {}" "r_commit r = 0"
    "r_last_apply r = 0" "r_sm r = None" "r_term r = 1" "r_index_mgr r = []"
proof -
  obtain l where "log_rep alist_store l 0 0 es" "rl_config_indices l = {}"
    using sample_log [OF assms] by blast
  then show ?thesis
    using that [of "(Raft_new [] [] \<lparr>sd_term = 1, sd_vote = 0, sd_db = []\<rparr> () (\<lambda>_. 0) (\<lambda>_. 0) (\<lambda>_. 0)
      \<lparr>rc_me = RaftAddr 1 2 3, rc_peers = []\<rparr>)\<lparr>r_log := l\<rparr>"]
    by (simp add: Raft_new_def IndexManager_Reset_def)
qed

section \<open>Properties\<close>

text \<open>C3. The loop of \<^verbatim>\<open>OnAppendEntries\<close> implements the merge of Raft: on a log that represents the
  entries \<open>es\<close> after index \<open>b\<close>, entries for the indexes after \<open>p\<close> leave a log that represents the
  merged list, whenever the loop returns; it returns when no configuration entries are involved and
  no committed entry conflicts. The merged list keeps the entries up to \<open>p\<close> and has the terms of the
  message after it.\<close>

theorem follower_log_merges:
  assumes "leveldb_store L" "log_rep L (r_log r) b c es"
    and "b \<le> p" "p \<le> b + length es" "p + length ns < 2 ^ 30"
  shows "(match_entries L S (of_nat p) ns r = Some r' \<longrightarrow>
      log_rep L (r_log r') b c (raft_merge es (p - b) (map le_append_entry ns))) \<and>
    (rl_config_indices (r_log r) \<subseteq> {0} \<and> list_all (\<lambda>n. ae_type (le_append_entry n) \<noteq> kConfig) ns \<and>
      (\<forall>i < length ns. le_index (ns ! i) = of_nat (Suc p + i)) \<and>
      (\<forall>i < length ns. p - b + i < length es \<longrightarrow>
        ae_term (es ! (p - b + i)) \<noteq> ae_term (le_append_entry (ns ! i)) \<longrightarrow> r_commit r < of_nat (Suc p + i))
      \<longrightarrow> (\<exists>l. match_entries L S (of_nat p) ns r = Some (r\<lparr>r_log := l\<rparr>))) \<and>
    take (p - b) (raft_merge es (p - b) (map le_append_entry ns)) = take (p - b) es \<and>
    (\<forall>i < length ns. ae_term (raft_merge es (p - b) (map le_append_entry ns) ! (p - b + i)) =
      ae_term (le_append_entry (ns ! i)))"
proof (intro conjI impI allI)
  assume "match_entries L S (of_nat p) ns r = Some r'"
  then show "log_rep L (r_log r') b c (raft_merge es (p - b) (map le_append_entry ns))"
    using match_entries_rep [OF assms(1,2) _ assms(3-5)] by blast
next
  assume "rl_config_indices (r_log r) \<subseteq> {0} \<and> list_all (\<lambda>n. ae_type (le_append_entry n) \<noteq> kConfig) ns \<and>
      (\<forall>i < length ns. le_index (ns ! i) = of_nat (Suc p + i)) \<and>
      (\<forall>i < length ns. p - b + i < length es \<longrightarrow>
        ae_term (es ! (p - b + i)) \<noteq> ae_term (le_append_entry (ns ! i)) \<longrightarrow> r_commit r < of_nat (Suc p + i))"
  then show "\<exists>l. match_entries L S (of_nat p) ns r = Some (r\<lparr>r_log := l\<rparr>)"
    by (elim conjE) (rule match_entries_total [OF assms(1,2) _ _ assms(3-5)])
next
  show "take (p - b) (raft_merge es (p - b) (map le_append_entry ns)) = take (p - b) es"
    by (rule raft_merge_take) (use assms(3,4) in auto)
next
  fix i
  assume "i < length ns"
  then show "ae_term (raft_merge es (p - b) (map le_append_entry ns) ! (p - b + i)) =
      ae_term (le_append_entry (ns ! i))"
    using raft_merge_terms [of "p - b" es i "map le_append_entry ns"] assms(3,4) by simp
qed

theorem follower_log_merges_witness:
  "\<exists>(r :: ((bytes \<times> bytes) list, unit, unit, unit, unit) Raft) r' e n.
     log_rep alist_store (r_log r) 0 0 [e, e] \<and> match_entries alist_store no_sm (of_nat 1) [n] r = Some r' \<and>
     log_rep alist_store (r_log r') 0 0 [e, le_append_entry n]"
proof -
  let ?e = "\<lparr>ae_term = 1, ae_type = kData, ae_value = [1]\<rparr>"
  let ?n = "\<lparr>le_index = 2, le_pre_chk_all = 0, le_chk_ths = 0, le_chk_all = 0,
    le_append_entry = \<lparr>ae_term = 2, ae_type = kData, ae_value = [2]\<rparr>\<rparr>"
  obtain r :: "((bytes \<times> bytes) list, unit, unit, unit, unit) Raft" where
    r: "log_rep alist_store (r_log r) 0 0 [?e, ?e]" "rl_config_indices (r_log r) = {}" "r_commit r = 0"
    by (rule sample_replica [of "[?e, ?e]"]) auto
  note merges = follower_log_merges [OF alist_store.leveldb_store_axioms r(1), of 1 "[?n]" no_sm]
  obtain l where "match_entries alist_store no_sm (of_nat 1) [?n] r = Some (r\<lparr>r_log := l\<rparr>)"
    using merges [of r] r by auto
  with merges [of "r\<lparr>r_log := l\<rparr>"] r show ?thesis
    by (intro exI [of _ r] exI [of _ "r\<lparr>r_log := l\<rparr>"] exI [of _ ?e] exI [of _ ?n]) auto
qed

text \<open>C4. Committed entries are applied once and in order: applying from index \<open>b + i\<close> to the commit
  index \<open>b + j\<close> gives the state machine exactly the data entries between them, in the order of the
  log, and it does not abort when the state machine accepts them.\<close>

theorem committed_entries_applied:
  assumes "log_rep L (r_log r) b c es" "r_last_apply r = of_nat (b + i)" "r_commit r = of_nat (b + j)"
    and "i < j" "j \<le> length es"
  shows "(Raft_StateMachineApply L S r = Some r' \<longrightarrow> r_last_apply r' = r_commit r \<and>
      r_sm r' = map_option (sm_apply_all S (Raft_Me r) (map (stored_entry c b es) [i ..< j])) (r_sm r)) \<and>
    ((\<forall>k \<in> {i ..< j}. ae_type (es ! k) \<in> {kData, kNoop, kConfig}) \<and>
      (\<forall>k \<in> {i ..< j}. ae_type (es ! k) = kData \<longrightarrow>
        (\<forall>sm. fst (so_Apply S (stored_entry c b es k) (Raft_Me r) sm) = 0)) \<longrightarrow>
      (\<exists>r'. Raft_StateMachineApply L S r = Some r'))"
proof (intro conjI impI)
  assume "Raft_StateMachineApply L S r = Some r'"
  from StateMachineApply_sm [OF assms this] show "r_last_apply r' = r_commit r"
    "r_sm r' = map_option (sm_apply_all S (Raft_Me r) (map (stored_entry c b es) [i ..< j])) (r_sm r)" .
next
  assume "(\<forall>k \<in> {i ..< j}. ae_type (es ! k) \<in> {kData, kNoop, kConfig}) \<and>
    (\<forall>k \<in> {i ..< j}. ae_type (es ! k) = kData \<longrightarrow>
      (\<forall>sm. fst (so_Apply S (stored_entry c b es k) (Raft_Me r) sm) = 0))"
  then show "\<exists>r'. Raft_StateMachineApply L S r = Some r'"
    by (elim conjE) (rule StateMachineApply_total [OF assms])
qed

theorem committed_entries_applied_witness:
  "\<exists>(r :: ((bytes \<times> bytes) list, unit, unit, unit, unit) Raft) r' e.
     log_rep alist_store (r_log r) 0 0 [e] \<and> Raft_StateMachineApply alist_store no_sm r = Some r' \<and>
     r_last_apply r' = 1"
proof -
  let ?e = "\<lparr>ae_term = 1, ae_type = kData, ae_value = [1]\<rparr>"
  obtain r0 :: "((bytes \<times> bytes) list, unit, unit, unit, unit) Raft" where
    r0: "log_rep alist_store (r_log r0) 0 0 [?e]" "r_last_apply r0 = 0"
    by (rule sample_replica [of "[?e]"]) auto
  let ?r = "r0\<lparr>r_commit := 1\<rparr>"
  have r: "log_rep alist_store (r_log ?r) 0 0 [?e]" "r_last_apply ?r = of_nat (0 + 0)"
    "r_commit ?r = of_nat (0 + 1)" using r0 by simp_all
  note applied = committed_entries_applied [OF r, of no_sm]
  obtain r' where "Raft_StateMachineApply alist_store no_sm ?r = Some r'"
    using applied [of r0] by (auto simp: no_sm_def)
  with applied [of r'] r show ?thesis
    by (intro exI [of _ ?r] exI [of _ r'] exI [of _ ?e]) auto
qed

text \<open>C2. A leader moves its commit index only forward, to the index of an entry of its own term that
  more than half of the servers have (itself with the whole log and every peer with its match index).\<close>

theorem leader_commits_own_term:
  assumes "log_rep L (r_log r) b c es" "Raft_MaybeCommit L S r = Some r'" "r_commit r' \<noteq> r_commit r"
  shows "r_commit r < r_commit r' \<and>
    (\<exists>k < length es. r_commit r' = of_nat (Suc b + k) \<and> ae_term (es ! k) = r_term r) \<and>
    (length (r_index_mgr r) + 1) div 2 < length (filter (\<lambda>match. r_commit r' \<le> match)
      (Raft_LastIndex S r # map (\<lambda>item. ii_match (snd item)) (r_index_mgr r)))"
proof -
  note new = MaybeCommit_cases [OF assms(2,3)]
  have pos: "0 < r_commit r'" using new(1,2) by (metis word_gt_0 word_not_simps(1))
  obtain k where k: "k < length es" "r_commit r' = of_nat (Suc b + k)"
    by (rule index_in_log [OF assms(1) _ _ pos]) (use new in simp_all)
  moreover have "ae_term (es ! k) = r_term r"
    using new(1,5) GetMeta_rep [OF assms(1) k(1)] log_metas_nth [OF k(1), of c "Suc b"] k(2)
    by (auto simp: log_meta_def Let_def simp del: of_nat_Suc of_nat_add)
  moreover have "(length (r_index_mgr r) + 1) div 2 < length (filter (\<lambda>match. r_commit r' \<le> match)
      (Raft_LastIndex S r # map (\<lambda>item. ii_match (snd item)) (r_index_mgr r)))"
    using new(1) MajorityMax_iff [of "r_commit r'" "Raft_LastIndex S r" "r_index_mgr r"]
    by (cases "r_commit r' \<le> Raft_LastIndex S r") (simp_all add: filter_map o_def)
  ultimately show ?thesis using new(1,2) by (simp only:) blast
qed

theorem leader_commits_own_term_witness:
  "\<exists>(r :: ((bytes \<times> bytes) list, unit, unit, unit, unit) Raft) r'.
     Raft_MaybeCommit alist_store no_sm r = Some r' \<and> r_commit r < r_commit r'"
proof -
  let ?e = "\<lparr>ae_term = 1, ae_type = kData, ae_value = [1]\<rparr>"
  obtain r0 :: "((bytes \<times> bytes) list, unit, unit, unit, unit) Raft" where
    r0: "log_rep alist_store (r_log r0) 0 0 [?e]" "r_commit r0 = 0" "r_last_apply r0 = 0" "r_sm r0 = None"
      "r_term r0 = 1" "r_index_mgr r0 = []"
    by (rule sample_replica [of "[?e]"]) auto
  let ?r = "r0\<lparr>r_state := STATE_LEADER\<rparr>"
  have rep: "log_rep alist_store (r_log ?r) 0 0 [?e]" using r0(1) by simp
  have ends: "rl_first (r_log r0) = 1" "rl_last (r_log r0) = 1" using log_rep_nonempty(1,2) [OF r0(1)] by simp_all
  have meta: "\<exists>meta. RaftLog_GetMeta alist_store (r_log r0) 1 = Some (Some meta) \<and> mv_term meta = 1"
    using GetMeta_rep [OF r0(1), of 0] log_metas_nth [of 0 "[?e]" 0 "Suc 0"] by (simp add: log_meta_def Let_def)
  obtain r' where r': "Raft_StateMachineApply alist_store no_sm (?r\<lparr>r_commit := 1\<rparr>) = Some r'"
    using StateMachineApply_total [of alist_store "?r\<lparr>r_commit := 1\<rparr>" 0 0 "[?e]" 0 1 no_sm] r0
    by (auto simp: no_sm_def)
  have "Raft_MaybeCommit alist_store no_sm ?r = Some r'"
    using r0 ends meta r' by (auto simp: Raft_MaybeCommit_def IndexManager_MajorityMax_def Raft_LastIndex_def)
  moreover have "r_commit r' = 1" using StateMachineApply_frame [OF r'] by (simp add: apply_frame_def)
  ultimately show ?thesis
    using leader_commits_own_term [OF rep, of no_sm r'] r0(2) by (intro exI [of _ ?r] exI [of _ r']) auto
qed

text \<open>C26. A restarted leader cannot tell its old replies: a server that has just started stands at its
  stored term as a follower, so a reply to a request of its own term that is not
  stale, which its previous life as the leader may have sent, runs into the assertion of
  \<^verbatim>\<open>OnAppendEntriesReply\<close> and aborts the process.\<close>

theorem late_reply_aborts:
  assumes "booted L S log_db config_db meta_db r"
    and "r_term r \<le> aer_term m" "aer_req_term m = r_term r"
  shows "Raft_OnAppendEntriesReply L S m r = None"
  using booted_started [OF assms(1)] assms(2,3) by (simp add: Raft_OnAppendEntriesReply_def)

theorem late_reply_aborts_witness:
  "\<exists>r m. booted alist_store no_sm [] [] [] r \<and> aer_term m = 1 \<and>
     Raft_OnAppendEntriesReply alist_store no_sm m r = None"
proof -
  let ?m = "\<lparr>aer_src = RaftAddr 1 2 4, aer_dest = RaftAddr 1 2 3, aer_term = 1, aer_uid = 0,
    aer_send_ts = 0, aer_elapse = 0, aer_success = True, aer_last_log_index = 0, aer_req_pre_index = 0,
    aer_req_num_entries = 0, aer_req_term = 1\<rparr>"
  obtain r where "booted alist_store no_sm [] [] [] r" "r_term r = 1"
    by (rule sample_leader [of "\<lparr>rc_me = RaftAddr 1 2 3, rc_peers = []\<rparr>"]) (auto simp: RaftConfig_ok_def)
  then show ?thesis
    using late_reply_aborts [of alist_store no_sm "[]" "[]" "[]" r ?m]
    by (intro exI [of _ r] exI [of _ ?m]) simp
qed

end
