(* ===== verification/Buffer.thy ===== *)
theory Buffer
  imports Coding
begin

text \<open>
  The input buffer of a connection (src/src/seda/buffer.h). Its bytes live in a \<^verbatim>\<open>std::vector\<close> whose
  size is left at zero: the class writes into the capacity that \<^verbatim>\<open>reserve\<close> allocated. \<open>bf_mem\<close> is that
  memory up to the capacity and \<open>bf_size\<close> the size of the vector, which decides what survives a
  reallocation. The indexes are unbounded integers: buffers are smaller than two gigabytes.
\<close>

section \<open>The class\<close>

record Buffer =
  bf_init_bytes :: int
  bf_max_waste_bytes :: int
  bf_mem :: bytes
  bf_size :: nat
  bf_read_index :: int
  bf_write_index :: int

definition BUF_INIT_BYTES :: int where
  "BUF_INIT_BYTES = 1024 * 64"

definition BUF_MAX_WASTE_BYTES :: int where
  "BUF_MAX_WASTE_BYTES = BUF_INIT_BYTES div 2"

text \<open>\<open>junk\<close> is what the allocated memory contains.\<close>

definition Buffer_new :: "bytes \<Rightarrow> int \<Rightarrow> int \<Rightarrow> Buffer option" where
  "Buffer_new junk init_bytes max_waste_bytes = do {
     check (max_waste_bytes > 0);
     check (init_bytes > max_waste_bytes);
     Some \<lparr>bf_init_bytes = init_bytes, bf_max_waste_bytes = max_waste_bytes,
           bf_mem = take (nat init_bytes) (junk @ replicate (nat init_bytes) 0), bf_size = 0,
           bf_read_index = 0, bf_write_index = 0\<rparr> }"

definition Buffer_default :: "bytes \<Rightarrow> Buffer option" where
  "Buffer_default junk = Buffer_new junk BUF_INIT_BYTES BUF_MAX_WASTE_BYTES"

definition ReadableBytes :: "Buffer \<Rightarrow> int" where
  "ReadableBytes b = bf_write_index b - bf_read_index b"

definition WritableBytes :: "Buffer \<Rightarrow> int" where
  "WritableBytes b = int (length (bf_mem b)) - bf_write_index b"

definition WastefulBytes :: "Buffer \<Rightarrow> int" where
  "WastefulBytes b = bf_read_index b"

definition Buffer_Reset :: "Buffer \<Rightarrow> Buffer" where
  "Buffer_Reset b = b\<lparr>bf_read_index := 0, bf_write_index := 0\<rparr>"

text \<open>\<^verbatim>\<open>std::copy\<close> to the front of the memory.\<close>

definition Buffer_Move :: "Buffer \<Rightarrow> Buffer" where
  "Buffer_Move b =
     (if WastefulBytes b > 0 then
        let bytes = ReadableBytes b;
            moved = take (nat bytes) (drop (nat (bf_read_index b)) (bf_mem b))
        in b\<lparr>bf_mem := moved @ drop (length moved) (bf_mem b), bf_read_index := 0, bf_write_index := bytes\<rparr>
      else b)"

definition Buffer_MaybeMove :: "Buffer \<Rightarrow> Buffer" where
  "Buffer_MaybeMove b = (if WastefulBytes b > bf_max_waste_bytes b then Buffer_Move b else b)"

definition Buffer_MaybeReset :: "Buffer \<Rightarrow> Buffer" where
  "Buffer_MaybeReset b =
     (if bf_read_index b = bf_write_index b \<and> bf_read_index b > 0 then Buffer_Reset b else b)"

definition Buffer_Retrieve :: "int \<Rightarrow> Buffer \<Rightarrow> Buffer option" where
  "Buffer_Retrieve len b = do {
     check (len \<le> ReadableBytes b);
     let b = b\<lparr>bf_read_index := bf_read_index b + len\<rparr>;
     Some (Buffer_MaybeMove (Buffer_MaybeReset b)) }"

definition Buffer_RetrieveInt8 :: "Buffer \<Rightarrow> Buffer option" where
  "Buffer_RetrieveInt8 = Buffer_Retrieve 1"

definition Buffer_RetrieveInt16 :: "Buffer \<Rightarrow> Buffer option" where
  "Buffer_RetrieveInt16 = Buffer_Retrieve 2"

definition Buffer_RetrieveInt32 :: "Buffer \<Rightarrow> Buffer option" where
  "Buffer_RetrieveInt32 = Buffer_Retrieve 4"

definition Buffer_RetrieveInt64 :: "Buffer \<Rightarrow> Buffer option" where
  "Buffer_RetrieveInt64 = Buffer_Retrieve 8"

definition Buffer_RetrieveAll :: "Buffer \<Rightarrow> Buffer" where
  "Buffer_RetrieveAll b = Buffer_Reset b"

text \<open>\<^verbatim>\<open>vector::resize\<close> to \<open>n\<close> elements: elements that are added are zero; beyond the capacity the
  elements move to new memory of at least that size, and only the elements below the old size are
  moved. \<open>grow\<close> is how much more than needed the library allocates.\<close>

definition vector_resize :: "(nat \<Rightarrow> nat) \<Rightarrow> nat \<Rightarrow> Buffer \<Rightarrow> Buffer" where
  "vector_resize grow n b =
     (if n \<le> bf_size b then b\<lparr>bf_size := n\<rparr>
      else if n \<le> length (bf_mem b)
      then b\<lparr>bf_size := n,
             bf_mem := take (bf_size b) (bf_mem b) @ replicate (n - bf_size b) 0 @ drop n (bf_mem b)\<rparr>
      else b\<lparr>bf_size := n,
             bf_mem := take (bf_size b) (bf_mem b) @ replicate (n - bf_size b) 0 @ replicate (grow n) 0\<rparr>)"

definition Buffer_MakeSpace :: "(nat \<Rightarrow> nat) \<Rightarrow> int \<Rightarrow> Buffer \<Rightarrow> Buffer" where
  "Buffer_MakeSpace grow len b =
     (if WritableBytes b < len then vector_resize grow (nat (bf_write_index b + len)) b else b)"

definition Buffer_EnsureWritableBytes :: "(nat \<Rightarrow> nat) \<Rightarrow> int \<Rightarrow> Buffer \<Rightarrow> Buffer option" where
  "Buffer_EnsureWritableBytes grow len b = do {
     let b = (if WritableBytes b < len then Buffer_MakeSpace grow len b else b);
     check (WritableBytes b \<ge> len);
     Some b }"

definition Buffer_Append :: "(nat \<Rightarrow> nat) \<Rightarrow> bytes \<Rightarrow> Buffer \<Rightarrow> Buffer option" where
  "Buffer_Append grow data b = do {
     b \<leftarrow> Buffer_EnsureWritableBytes grow (int (length data)) b;
     let w = nat (bf_write_index b);
     Some (b\<lparr>bf_mem := take w (bf_mem b) @ data @ drop (w + length data) (bf_mem b),
             bf_write_index := bf_write_index b + int (length data)\<rparr>) }"

text \<open>The memory from the read position on, which the decoders get a pointer to. A position before
  the memory is undefined behaviour.\<close>

definition Buffer_BeginRead :: "Buffer \<Rightarrow> bytes option" where
  "Buffer_BeginRead b = do {
     check (0 \<le> bf_read_index b);
     Some (drop (nat (bf_read_index b)) (bf_mem b)) }"

definition Buffer_PeekInt8 :: "Buffer \<Rightarrow> int option" where
  "Buffer_PeekInt8 b = do {
     check (ReadableBytes b \<ge> 1);
     p \<leftarrow> Buffer_BeginRead b;
     i8 \<leftarrow> DecodeFixed8 p;
     Some (sint i8) }"

definition Buffer_PeekInt16 :: "Buffer \<Rightarrow> int option" where
  "Buffer_PeekInt16 b = do {
     check (ReadableBytes b \<ge> 2);
     p \<leftarrow> Buffer_BeginRead b;
     i16 \<leftarrow> DecodeFixed16 p;
     Some (sint i16) }"

definition Buffer_PeekInt32 :: "Buffer \<Rightarrow> int option" where
  "Buffer_PeekInt32 b = do {
     check (ReadableBytes b \<ge> 4);
     p \<leftarrow> Buffer_BeginRead b;
     i32 \<leftarrow> DecodeFixed32 p;
     Some (sint i32) }"

definition Buffer_PeekInt64 :: "Buffer \<Rightarrow> int option" where
  "Buffer_PeekInt64 b = do {
     check (ReadableBytes b \<ge> 8);
     p \<leftarrow> Buffer_BeginRead b;
     i64 \<leftarrow> DecodeFixed64 p;
     Some (sint i64) }"

section \<open>The bytes that wait to be read\<close>

definition buffer_ok :: "Buffer \<Rightarrow> bool" where
  "buffer_ok b \<longleftrightarrow> 0 \<le> bf_read_index b \<and> bf_read_index b \<le> bf_write_index b \<and>
     bf_write_index b \<le> int (length (bf_mem b)) \<and> bf_size b \<le> length (bf_mem b) \<and>
     0 < bf_max_waste_bytes b"

definition pending :: "Buffer \<Rightarrow> bytes" where
  "pending b = take (nat (ReadableBytes b)) (drop (nat (bf_read_index b)) (bf_mem b))"

lemma length_pending: "buffer_ok b \<Longrightarrow> int (length (pending b)) = ReadableBytes b"
  by (auto simp: buffer_ok_def pending_def ReadableBytes_def min_def)

lemma new_ok:
  "Buffer_new junk n w = Some b \<Longrightarrow> buffer_ok b \<and> pending b = [] \<and> bf_size b = 0 \<and> WritableBytes b = n"
  by (auto simp: Buffer_new_def buffer_ok_def pending_def ReadableBytes_def WritableBytes_def
      split: if_splits)

text \<open>The bytes a pointer to the read position reaches: the pending ones, then others.\<close>

lemma BeginRead_pending:
  assumes "buffer_ok b"
  shows "\<exists>r. Buffer_BeginRead b = Some (pending b @ r)"
proof -
  have "drop (nat (bf_read_index b)) (bf_mem b) =
      pending b @ drop (nat (ReadableBytes b)) (drop (nat (bf_read_index b)) (bf_mem b))"
    unfolding pending_def by (rule append_take_drop_id [symmetric])
  then show ?thesis using assms by (simp add: Buffer_BeginRead_def buffer_ok_def)
qed

lemma Move_ok: "buffer_ok b \<Longrightarrow> buffer_ok (Buffer_Move b) \<and> pending (Buffer_Move b) = pending b \<and>
    bf_max_waste_bytes (Buffer_Move b) = bf_max_waste_bytes b"
  by (auto simp: Buffer_Move_def buffer_ok_def pending_def ReadableBytes_def WastefulBytes_def Let_def
      min_def)

lemma MaybeMove_ok: "buffer_ok b \<Longrightarrow> buffer_ok (Buffer_MaybeMove b) \<and> pending (Buffer_MaybeMove b) = pending b"
  by (simp add: Buffer_MaybeMove_def Move_ok)

lemma MaybeReset_ok: "buffer_ok b \<Longrightarrow> buffer_ok (Buffer_MaybeReset b) \<and> pending (Buffer_MaybeReset b) = pending b"
  by (auto simp: Buffer_MaybeReset_def Buffer_Reset_def buffer_ok_def pending_def ReadableBytes_def)

lemma Retrieve_ok:
  assumes "buffer_ok b" "n \<le> length (pending b)"
  shows "\<exists>b'. Buffer_Retrieve (int n) b = Some b' \<and> buffer_ok b' \<and> pending b' = drop n (pending b)"
proof -
  let ?b = "b\<lparr>bf_read_index := bf_read_index b + int n\<rparr>"
  have n: "int n \<le> ReadableBytes b" using assms length_pending by fastforce
  then have ok: "buffer_ok ?b" "pending ?b = drop n (pending b)"
    using assms(1)
    by (auto simp: buffer_ok_def pending_def ReadableBytes_def drop_take nat_add_distrib nat_diff_distrib
        add.commute)
  show ?thesis
    using n MaybeReset_ok [OF ok(1)] MaybeMove_ok [of "Buffer_MaybeReset ?b"] ok(2)
    by (simp add: Buffer_Retrieve_def Let_def)
qed

lemma PeekInt32_ok:
  assumes "buffer_ok b" "pending b = EncodeFixed32 w @ r"
  shows "Buffer_PeekInt32 b = Some (sint w)"
proof -
  obtain q where "Buffer_BeginRead b = Some (EncodeFixed32 w @ r @ q)"
    using BeginRead_pending [OF assms(1)] assms(2) by auto
  moreover have "4 \<le> ReadableBytes b"
    using length_pending [OF assms(1)] assms(2) by (simp add: codec_length)
  ultimately show ?thesis by (simp add: Buffer_PeekInt32_def codec_simps)
qed

lemma Append_fits:
  assumes "buffer_ok b" "int (length data) \<le> WritableBytes b"
  shows "\<exists>b'. Buffer_Append grow data b = Some b' \<and> buffer_ok b' \<and> pending b' = pending b @ data \<and>
    bf_size b' = bf_size b"
proof -
  let ?w = "nat (bf_write_index b)" and ?r = "nat (bf_read_index b)"
  let ?mem = "take ?w (bf_mem b) @ data @ drop (?w + length data) (bf_mem b)"
  let ?b = "b\<lparr>bf_mem := ?mem, bf_write_index := bf_write_index b + int (length data)\<rparr>"
  have idx: "?r \<le> ?w" "?w + length data \<le> length (bf_mem b)" "length ?mem = length (bf_mem b)"
    using assms by (auto simp: buffer_ok_def WritableBytes_def)
  have "drop ?r ?mem = drop ?r (take ?w (bf_mem b)) @ data @ drop (?w + length data) (bf_mem b)"
    using idx by simp
  moreover have "drop ?r (take ?w (bf_mem b)) = pending b"
    using assms(1) idx(1) by (simp add: pending_def ReadableBytes_def buffer_ok_def drop_take nat_diff_distrib)
  moreover have "nat (ReadableBytes ?b) = length (pending b) + length data"
    using length_pending [OF assms(1)] by (simp add: ReadableBytes_def)
  ultimately have "pending ?b = pending b @ data" by (simp add: pending_def [of ?b])
  moreover have "buffer_ok ?b"
    using assms idx by (simp add: buffer_ok_def WritableBytes_def)
  ultimately show ?thesis
    using assms(2) by (simp add: Buffer_Append_def Buffer_EnsureWritableBytes_def Let_def)
qed

section \<open>Properties\<close>

text \<open>C27. The buffer is a queue of bytes as long as it does not have to grow: appending data that
  fits puts it behind the pending bytes, and retrieving removes bytes from their front, with the
  indexes staying inside the memory and no assertion failing.\<close>

theorem buffer_is_queue:
  assumes "buffer_ok b"
  shows "(int (length data) \<le> WritableBytes b \<longrightarrow>
      (\<exists>b'. Buffer_Append grow data b = Some b' \<and> buffer_ok b' \<and> pending b' = pending b @ data)) \<and>
    (n \<le> length (pending b) \<longrightarrow>
      (\<exists>b'. Buffer_Retrieve (int n) b = Some b' \<and> buffer_ok b' \<and> pending b' = drop n (pending b)))"
  using Append_fits [OF assms] Retrieve_ok [OF assms] by blast

theorem buffer_is_queue_witness:
  "\<exists>b b'. Buffer_new [] 8 4 = Some b \<and> Buffer_Append id [1, 2, 3] b = Some b' \<and> pending b' = [1, 2, 3]"
proof -
  obtain b where b: "Buffer_new [] 8 4 = Some b" by (simp add: Buffer_new_def)
  with new_ok [OF b] buffer_is_queue [of b "[1, 2, 3]" id 0] show ?thesis by auto
qed

text \<open>The buffer cannot grow: appending data that does not fit to a buffer that has not grown
  before replaces all bytes that wait to be read by zeros, because the vector that holds them has
  size zero and moves no element to the new memory.\<close>

theorem growing_loses_pending:
  assumes "buffer_ok b" "bf_size b = 0" "WritableBytes b < int (length data)"
  shows "\<exists>b'. Buffer_Append grow data b = Some b' \<and>
    pending b' = replicate (length (pending b)) 0 @ data"
proof -
  let ?w = "nat (bf_write_index b)" and ?n = "nat (bf_write_index b + int (length data))"
  have w: "0 \<le> bf_read_index b" "bf_read_index b \<le> bf_write_index b" "?n = ?w + length data"
    "\<not> ?n \<le> length (bf_mem b)" "?n \<noteq> 0" "bf_write_index b = int ?w"
    using assms by (auto simp: buffer_ok_def WritableBytes_def)
  let ?b = "b\<lparr>bf_size := ?n, bf_mem := replicate ?n 0 @ replicate (grow ?n) 0\<rparr>"
  have space: "Buffer_EnsureWritableBytes grow (int (length data)) b = Some ?b"
    using assms(2,3) w
    by (simp add: Buffer_EnsureWritableBytes_def Buffer_MakeSpace_def vector_resize_def WritableBytes_def Let_def)
  let ?b' = "?b\<lparr>bf_mem := replicate ?w 0 @ data @ replicate (grow ?n) 0,
    bf_write_index := bf_write_index b + int (length data)\<rparr>"
  have "Buffer_Append grow data b = Some ?b'"
    using w space by (simp add: Buffer_Append_def Let_def min_def)
  moreover have "pending ?b' = replicate (length (pending b)) 0 @ data"
  proof -
    have len: "length (pending b) = ?w - nat (bf_read_index b)"
      using length_pending [OF assms(1)] w by (simp add: ReadableBytes_def)
    show ?thesis using w unfolding len
      by (simp add: pending_def ReadableBytes_def nat_add_distrib nat_diff_distrib)
  qed
  ultimately show ?thesis by blast
qed

theorem growing_loses_pending_witness:
  "\<exists>b b'. buffer_ok b \<and> pending b = [1, 2, 3, 4, 5] \<and> Buffer_Append (\<lambda>_. 0) [6, 7] b = Some b' \<and>
     pending b' = [0, 0, 0, 0, 0, 6, 7]"
proof -
  let ?b = "\<lparr>bf_init_bytes = 6, bf_max_waste_bytes = 3, bf_mem = [1, 2, 3, 4, 5, 0], bf_size = 0,
    bf_read_index = 0, bf_write_index = 5\<rparr>"
  have b: "buffer_ok ?b" "pending ?b = [1, 2, 3, 4, 5]"
    by (simp_all add: buffer_ok_def pending_def ReadableBytes_def)
  obtain b' where "Buffer_Append (\<lambda>_. 0) [6, 7] ?b = Some b'"
    "pending b' = replicate (length (pending ?b)) 0 @ [6, 7]"
    using growing_loses_pending [OF b(1), of "[6, 7]" "\<lambda>_. 0"] by (auto simp: WritableBytes_def)
  moreover from this(2) have "pending b' = [0, 0, 0, 0, 0, 6, 7]" by (simp add: b(2) numeral_eq_Suc)
  ultimately show ?thesis using b by blast
qed

end
