(* ===== verification/ServerLoop.thy ===== *)
theory ServerLoop
  imports RaftServer Buffer "HOL-Library.While_Combinator"
begin

text \<open>
  The network side of a server (src/src/raft/raft_server.cc): what it does with the bytes that
  arrive on a connection, and how it sends. \<^verbatim>\<open>OnMessage\<close> is a \<^verbatim>\<open>while\<close> loop over the input buffer. Its
  model is \<open>while_option\<close>: \<open>None\<close> is a loop that never ends, \<open>Some None\<close> a failed assertion.
\<close>

section \<open>The server\<close>

record ('db, 'sm, 'dir, 'rd, 'wr, 'c) RaftServer =
  sv_clients :: "(u64 \<times> 'c) list"
  sv_enable_send :: bool
  sv_enable_recv :: bool
  sv_raft :: "('db, 'sm, 'dir, 'rd, 'wr) Raft"

definition RaftServer_DisableSend :: "('db, 'sm, 'dir, 'rd, 'wr, 'c) RaftServer \<Rightarrow>
    ('db, 'sm, 'dir, 'rd, 'wr, 'c) RaftServer" where
  "RaftServer_DisableSend sv = sv\<lparr>sv_enable_send := False\<rparr>"

definition RaftServer_EnableSend :: "('db, 'sm, 'dir, 'rd, 'wr, 'c) RaftServer \<Rightarrow>
    ('db, 'sm, 'dir, 'rd, 'wr, 'c) RaftServer" where
  "RaftServer_EnableSend sv = sv\<lparr>sv_enable_send := True\<rparr>"

definition RaftServer_DisableRecv :: "('db, 'sm, 'dir, 'rd, 'wr, 'c) RaftServer \<Rightarrow>
    ('db, 'sm, 'dir, 'rd, 'wr, 'c) RaftServer" where
  "RaftServer_DisableRecv sv = sv\<lparr>sv_enable_recv := False\<rparr>"

definition RaftServer_EnableRecv :: "('db, 'sm, 'dir, 'rd, 'wr, 'c) RaftServer \<Rightarrow>
    ('db, 'sm, 'dir, 'rd, 'wr, 'c) RaftServer" where
  "RaftServer_EnableRecv sv = sv\<lparr>sv_enable_recv := True\<rparr>"

section \<open>Receiving\<close>

text \<open>A message is decoded into an object on the stack, whose contents before are arbitrary; the
  vector of entries in it is empty.\<close>

record raw_objects =
  raw_Ping :: Ping
  raw_PingReply :: PingReply
  raw_RequestVote :: RequestVote
  raw_RequestVoteReply :: RequestVoteReply
  raw_AppendEntries :: AppendEntries
  raw_AppendEntriesReply :: AppendEntriesReply
  raw_InstallSnapshot :: InstallSnapshot
  raw_InstallSnapshotReply :: InstallSnapshotReply
  raw_TimeoutNow :: TimeoutNow
  raw_ClientRequest :: ClientRequest

datatype incoming = FromPeer Msg | FromClient ClientRequest

definition parsed :: "('m \<times> int) option \<Rightarrow> ('m \<Rightarrow> incoming) \<Rightarrow> incoming option" where
  "parsed res f = do { (m, n) \<leftarrow> res; check (n > 0); Some (f m) }"

definition diff_ms :: "u64 \<Rightarrow> u64 \<Rightarrow> u64" where
  "diff_ms recv_ns send_ts = (recv_ns - send_ts) div (1000 * 1000)"

text \<open>The \<^verbatim>\<open>switch\<close> of \<^verbatim>\<open>OnMessage\<close> up to the handlers.\<close>

definition parse_body :: "raw_objects \<Rightarrow> u64 \<Rightarrow> u32 \<Rightarrow> bytes \<Rightarrow> int \<Rightarrow> incoming option" where
  "parse_body raw now type p body_bytes = (
     if type = MsgType_u32 kPing then
       parsed (Ping_FromString (raw_Ping raw) p body_bytes)
         (\<lambda>m. FromPeer (MPing (m\<lparr>pg_elapse := diff_ms now (pg_send_ts m)\<rparr>)))
     else if type = MsgType_u32 kPingReply then
       parsed (PingReply_FromString (raw_PingReply raw) p body_bytes)
         (\<lambda>m. FromPeer (MPingReply (m\<lparr>pgr_elapse := diff_ms now (pgr_send_ts m)\<rparr>)))
     else if type = MsgType_u32 kRequestVote then
       parsed (RequestVote_FromString (raw_RequestVote raw) p body_bytes)
         (\<lambda>m. FromPeer (MRequestVote (m\<lparr>rv_elapse := diff_ms now (rv_send_ts m)\<rparr>)))
     else if type = MsgType_u32 kRequestVoteReply then
       parsed (RequestVoteReply_FromString (raw_RequestVoteReply raw) p body_bytes)
         (\<lambda>m. FromPeer (MRequestVoteReply (m\<lparr>rvr_elapse := diff_ms now (rvr_send_ts m)\<rparr>)))
     else if type = MsgType_u32 kAppendEntries then
       parsed (AppendEntries_FromString (raw_AppendEntries raw) p body_bytes)
         (\<lambda>m. FromPeer (MAppendEntries (m\<lparr>ap_elapse := diff_ms now (ap_send_ts m)\<rparr>)))
     else if type = MsgType_u32 kAppendEntriesReply then
       parsed (AppendEntriesReply_FromString (raw_AppendEntriesReply raw) p body_bytes)
         (\<lambda>m. FromPeer (MAppendEntriesReply (m\<lparr>aer_elapse := diff_ms now (aer_send_ts m)\<rparr>)))
     else if type = MsgType_u32 kInstallSnapshot then
       parsed (InstallSnapshot_FromString (raw_InstallSnapshot raw) p body_bytes)
         (\<lambda>m. FromPeer (MInstallSnapshot (m\<lparr>is_elapse := diff_ms now (is_send_ts m)\<rparr>)))
     else if type = MsgType_u32 kInstallSnapshotReply then
       parsed (InstallSnapshotReply_FromString (raw_InstallSnapshotReply raw) p body_bytes)
         (\<lambda>m. FromPeer (MInstallSnapshotReply (m\<lparr>isr_elapse := diff_ms now (isr_send_ts m)\<rparr>)))
     else if type = MsgType_u32 kTimeoutNow then
       parsed (TimeoutNow_FromString (raw_TimeoutNow raw) p body_bytes)
         (\<lambda>m. FromPeer (MTimeoutNow (m\<lparr>tn_elapse := diff_ms now (tn_send_ts m)\<rparr>)))
     else if type = MsgType_u32 kClientRequet then
       parsed (ClientRequest_FromString (raw_ClientRequest raw) p body_bytes) FromClient
     else None)"

text \<open>The calls of the handlers; what a handler writes to the connection is collected.\<close>

fun handle_incoming :: "(string \<Rightarrow> u32 option) \<Rightarrow> 'db leveldb \<Rightarrow> ('sm, 'dir, 'rd, 'wr) sm_ops \<Rightarrow>
    u64 \<Rightarrow> incoming \<Rightarrow> ('db, 'sm, 'dir, 'rd, 'wr, 'c) RaftServer \<times> bytes list \<Rightarrow>
    (('db, 'sm, 'dir, 'rd, 'wr, 'c) RaftServer \<times> bytes list) option" where
  "handle_incoming resolve L S junk (FromPeer m) (sv, out) =
     (if sv_enable_recv sv then do {
        r \<leftarrow> Raft_recv L S junk m (sv_raft sv);
        Some (sv\<lparr>sv_raft := r\<rparr>, out) }
      else Some (sv, out))"
| "handle_incoming resolve L S junk (FromClient m) (sv, out) =
     (if sv_enable_recv sv then do {
        (rv, value, r) \<leftarrow> Raft_OnClientRequest resolve L S m (sv_raft sv);
        Some (sv\<lparr>sv_raft := r\<rparr>, out @ (case value of Some v \<Rightarrow> [v] | None \<Rightarrow> [])) }
      else Some (sv, out))"

text \<open>One iteration. When the body of the message has not arrived yet nothing happens. The sum of the two sizes is an
  \<^verbatim>\<open>int32_t\<close>, and undefined when it overflows.\<close>

definition on_message_once :: "('i \<Rightarrow> 's \<Rightarrow> 's option) \<Rightarrow> (u32 \<Rightarrow> bytes \<Rightarrow> int \<Rightarrow> 'i option) \<Rightarrow>
    Buffer \<times> 's \<Rightarrow> (Buffer \<times> 's) option" where
  "on_message_once handle parse = (\<lambda>(buf, st). do {
     body_bytes \<leftarrow> Buffer_PeekInt32 buf;
     check (MsgHeader_Bytes + body_bytes < 2 ^ 31);
     if ReadableBytes buf \<ge> MsgHeader_Bytes + body_bytes then do {
       p \<leftarrow> Buffer_BeginRead buf;
       header \<leftarrow> MsgHeader_FromString p MsgHeader_Bytes;
       buf \<leftarrow> Buffer_Retrieve MsgHeader_Bytes buf;
       p \<leftarrow> Buffer_BeginRead buf;
       x \<leftarrow> parse (mh_type header) p body_bytes;
       buf \<leftarrow> Buffer_Retrieve body_bytes buf;
       st \<leftarrow> handle x st;
       Some (buf, st) }
     else Some (buf, st) })"

definition message_loop :: "('i \<Rightarrow> 's \<Rightarrow> 's option) \<Rightarrow> (u32 \<Rightarrow> bytes \<Rightarrow> int \<Rightarrow> 'i option) \<Rightarrow>
    Buffer \<times> 's \<Rightarrow> (Buffer \<times> 's) option option" where
  "message_loop handle parse x = while_option
     (\<lambda>st. case st of Some (buf, _) \<Rightarrow> ReadableBytes buf \<ge> MsgHeader_Bytes | None \<Rightarrow> False)
     (\<lambda>st. st \<bind> on_message_once handle parse) (Some x)"

definition RaftServer_OnMessage :: "(string \<Rightarrow> u32 option) \<Rightarrow> 'db leveldb \<Rightarrow>
    ('sm, 'dir, 'rd, 'wr) sm_ops \<Rightarrow> u64 \<Rightarrow> raw_objects \<Rightarrow> u64 \<Rightarrow>
    Buffer \<times> ('db, 'sm, 'dir, 'rd, 'wr, 'c) RaftServer \<times> bytes list \<Rightarrow>
    (Buffer \<times> ('db, 'sm, 'dir, 'rd, 'wr, 'c) RaftServer \<times> bytes list) option option" where
  "RaftServer_OnMessage resolve L S junk raw recv_ns =
     message_loop (handle_incoming resolve L S junk) (parse_body raw recv_ns)"

section \<open>Frames\<close>

text \<open>A frame whose body parses to \<open>x\<close>, whatever follows it in memory.\<close>

definition delivers :: "(u32 \<Rightarrow> bytes \<Rightarrow> int \<Rightarrow> 'i option) \<Rightarrow> bytes \<Rightarrow> 'i \<Rightarrow> bool" where
  "delivers parse f x \<longleftrightarrow> (\<exists>t bs. f = EncodeFixed32 (of_nat (length bs)) @ EncodeFixed32 t @ bs \<and>
     length bs < 2 ^ 31 - 8 \<and> (\<forall>r. parse t (bs @ r) (int (length bs)) = Some x))"

fun handle_all :: "('i \<Rightarrow> 's \<Rightarrow> 's option) \<Rightarrow> 'i list \<Rightarrow> 's \<Rightarrow> 's option" where
  "handle_all handle [] st = Some st"
| "handle_all handle (x # xs) st = do { st \<leftarrow> handle x st; handle_all handle xs st }"

lemma once_frame:
  assumes "buffer_ok buf" "pending buf = f @ rest" "delivers parse f x"
  shows "\<exists>buf'. on_message_once handle parse (buf, st) =
      do { st \<leftarrow> handle x st; Some (buf', st) } \<and> buffer_ok buf' \<and> pending buf' = rest"
proof -
  obtain t bs where f: "f = EncodeFixed32 (of_nat (length bs)) @ EncodeFixed32 t @ bs"
    and len: "length bs < 2 ^ 31 - 8" and parse: "\<And>r. parse t (bs @ r) (int (length bs)) = Some x"
    using assms(3) by (auto simp: delivers_def)
  have body: "sint (of_nat (length bs) :: u32) = int (length bs)" using len by (simp add: sint_of_nat_small)
  have peek: "Buffer_PeekInt32 buf = Some (int (length bs))"
    using PeekInt32_ok [OF assms(1), of "of_nat (length bs)"] assms(2) f body by simp
  have fits: "MsgHeader_Bytes + int (length bs) < 2 ^ 31" using len by (simp add: MsgHeader_Bytes_def)
  have enough: "MsgHeader_Bytes + int (length bs) \<le> ReadableBytes buf"
    using length_pending [OF assms(1)] assms(2) f by (simp add: codec_length MsgHeader_Bytes_def)
  obtain r where r: "Buffer_BeginRead buf = Some (f @ r)"
    using BeginRead_pending [OF assms(1)] assms(2) by auto
  have header: "MsgHeader_FromString (f @ r) MsgHeader_Bytes = Some \<lparr>mh_body_bytes = of_nat (length bs), mh_type = t\<rparr>"
    by (simp add: MsgHeader_FromString_def f MsgHeader_Bytes_def codec_simps)
  have pend: "pending buf = EncodeFixed32 (of_nat (length bs)) @ EncodeFixed32 t @ bs @ rest"
    using assms(2) f by simp
  obtain buf1 where buf1: "Buffer_Retrieve MsgHeader_Bytes buf = Some buf1" "buffer_ok buf1"
    "pending buf1 = bs @ rest"
    using Retrieve_ok [OF assms(1), of 8] pend by (auto simp: MsgHeader_Bytes_def codec_length)
  obtain r1 where r1: "Buffer_BeginRead buf1 = Some (bs @ r1)"
    using BeginRead_pending [OF buf1(2)] buf1(3) by auto
  obtain buf2 where buf2: "Buffer_Retrieve (int (length bs)) buf1 = Some buf2" "buffer_ok buf2"
    "pending buf2 = rest"
    using Retrieve_ok [OF buf1(2), of "length bs"] buf1(3) by auto
  have "on_message_once handle parse (buf, st) = do { st \<leftarrow> handle x st; Some (buf2, st) }"
    using peek fits enough r header buf1(1) r1 parse buf2(1) by (simp add: on_message_once_def)
  with buf2 show ?thesis by blast
qed

lemma loop_frames:
  assumes "list_all2 (delivers parse) fs xs" "buffer_ok buf" "pending buf = concat fs @ tail" "length tail < 8"
  shows "\<exists>buf'. message_loop handle parse (buf, st) =
      Some (map_option (\<lambda>st. (buf', st)) (handle_all handle xs st)) \<and> buffer_ok buf' \<and> pending buf' = tail"
  using assms(1-3)
proof (induction fs xs arbitrary: buf st rule: list_all2_induct)
  case Nil
  then have "ReadableBytes buf < MsgHeader_Bytes"
    using length_pending [of buf] assms(4) by (simp add: MsgHeader_Bytes_def)
  then show ?case
    using Nil by (auto simp: message_loop_def while_option_unfold intro!: exI [of _ buf])
next
  case (Cons f fs x xs)
  have "MsgHeader_Bytes \<le> ReadableBytes buf"
    using length_pending [OF Cons.prems(1)] Cons.prems(2) Cons.hyps(1)
    by (auto simp: delivers_def codec_length MsgHeader_Bytes_def)
  then have unfold: "message_loop handle parse (buf, st) =
      while_option (\<lambda>st. case st of Some (buf, _) \<Rightarrow> ReadableBytes buf \<ge> MsgHeader_Bytes | None \<Rightarrow> False)
        (\<lambda>st. st \<bind> on_message_once handle parse) (on_message_once handle parse (buf, st))"
    unfolding message_loop_def by (subst while_option_unfold) simp
  obtain buf1 where buf1: "on_message_once handle parse (buf, st) = do { st \<leftarrow> handle x st; Some (buf1, st) }"
    "buffer_ok buf1" "pending buf1 = concat fs @ tail"
    using once_frame [OF Cons.prems(1) _ Cons.hyps(1), of "concat fs @ tail" handle st] Cons.prems(2) by auto
  show ?case
  proof (cases "handle x st")
    case None
    obtain buf' where "buffer_ok buf'" "pending buf' = tail" using Cons.IH [OF buf1(2,3)] by blast
    with None buf1 unfold show ?thesis by (auto simp: while_option_unfold)
  next
    case (Some st1)
    then have "message_loop handle parse (buf, st) = message_loop handle parse (buf1, st1)"
      using unfold buf1(1) by (simp add: message_loop_def)
    with Some Cons.IH [OF buf1(2,3), of st1] show ?thesis by simp
  qed
qed

lemma loop_spins:
  assumes "MsgHeader_Bytes \<le> ReadableBytes buf" "on_message_once handle parse (buf, st) = Some (buf, st)"
  shows "message_loop handle parse (buf, st) = None"
proof -
  let ?c = "\<lambda>st. st \<bind> on_message_once handle parse"
  have "(?c ^^ k) (Some (buf, st)) = Some (buf, st)" for k
    using assms(2) by (induction k) simp_all
  then show ?thesis using assms(1) by (simp add: message_loop_def while_option_def)
qed

lemma partial_body_spins:
  assumes "buffer_ok buf" "pending buf = EncodeFixed32 n @ EncodeFixed32 t @ part"
    and "int (length part) < sint n" "sint n < 2 ^ 31 - 8"
  shows "message_loop handle parse (buf, st) = None"
proof (rule loop_spins)
  have readable: "ReadableBytes buf = 8 + int (length part)"
    using length_pending [OF assms(1)] assms(2) by (simp add: codec_length)
  then show "MsgHeader_Bytes \<le> ReadableBytes buf" by (simp add: MsgHeader_Bytes_def)
  have "Buffer_PeekInt32 buf = Some (sint n)" by (rule PeekInt32_ok [OF assms(1,2)])
  then show "on_message_once handle parse (buf, st) = Some (buf, st)"
    using assms(3,4) readable by (simp add: on_message_once_def MsgHeader_Bytes_def)
qed

lemma overflow_aborts:
  assumes "buffer_ok buf" "pending buf = EncodeFixed32 n @ EncodeFixed32 t @ part" "2 ^ 31 - 8 \<le> sint n"
  shows "message_loop handle parse (buf, st) = Some None"
proof -
  have readable: "MsgHeader_Bytes \<le> ReadableBytes buf"
    using length_pending [OF assms(1)] assms(2) by (simp add: codec_length MsgHeader_Bytes_def)
  have "Buffer_PeekInt32 buf = Some (sint n)" by (rule PeekInt32_ok [OF assms(1,2)])
  then have "on_message_once handle parse (buf, st) = None"
    using assms(3) by (simp add: on_message_once_def MsgHeader_Bytes_def)
  with readable show ?thesis unfolding message_loop_def by (simp add: while_option_unfold)
qed

text \<open>Every sequence of bytes can wait in a buffer.\<close>

lemma sample_buffer: "\<exists>buf. buffer_ok buf \<and> pending buf = bs"
proof -
  obtain b where b: "Buffer_new [] (int (length bs) + 2) 1 = Some b" by (simp add: Buffer_new_def)
  from new_ok [OF b] have "buffer_ok b" "pending b = []" "int (length bs) \<le> WritableBytes b" by simp_all
  from Append_fits [OF this(1,3)] this(2) show ?thesis by fastforce
qed

section \<open>Messages of peers\<close>

text \<open>The messages that survive the wire: strings are short enough, and the decoder of
  \<^verbatim>\<open>TimeoutNow\<close> would read past its end.\<close>

fun sendable :: "Msg \<Rightarrow> bool" where
  "sendable (MPing m) \<longleftrightarrow> length (pg_msg m) < 2 ^ 30"
| "sendable (MPingReply m) \<longleftrightarrow> length (pgr_msg m) < 2 ^ 30"
| "sendable (MAppendEntries m) \<longleftrightarrow> AppendEntries_ok m"
| "sendable (MInstallSnapshot m) \<longleftrightarrow> length (is_data m) < 128"
| "sendable (MTimeoutNow m) \<longleftrightarrow> False"
| "sendable _ \<longleftrightarrow> True"

fun stamped :: "u64 \<Rightarrow> Msg \<Rightarrow> Msg" where
  "stamped now (MPing m) = MPing (m\<lparr>pg_elapse := diff_ms now (pg_send_ts m)\<rparr>)"
| "stamped now (MPingReply m) = MPingReply (m\<lparr>pgr_elapse := diff_ms now (pgr_send_ts m)\<rparr>)"
| "stamped now (MRequestVote m) = MRequestVote (m\<lparr>rv_elapse := diff_ms now (rv_send_ts m)\<rparr>)"
| "stamped now (MRequestVoteReply m) = MRequestVoteReply (m\<lparr>rvr_elapse := diff_ms now (rvr_send_ts m)\<rparr>)"
| "stamped now (MAppendEntries m) =
     MAppendEntries ((AppendEntries_canon m)\<lparr>ap_elapse := diff_ms now (ap_send_ts (AppendEntries_canon m))\<rparr>)"
| "stamped now (MAppendEntriesReply m) = MAppendEntriesReply (m\<lparr>aer_elapse := diff_ms now (aer_send_ts m)\<rparr>)"
| "stamped now (MInstallSnapshot m) = MInstallSnapshot (m\<lparr>is_elapse := diff_ms now (is_send_ts m)\<rparr>)"
| "stamped now (MInstallSnapshotReply m) =
     MInstallSnapshotReply (m\<lparr>isr_elapse := diff_ms now (isr_send_ts m)\<rparr>)"
| "stamped now (MTimeoutNow m) = MTimeoutNow (m\<lparr>tn_elapse := diff_ms now (tn_send_ts m)\<rparr>)"

context message_codec
begin

lemma delivered:
  assumes "ok m" "fresh old" "slack = 0" "ToString m (MaxBytes m) \<bind> frame type = Some f"
    and "\<And>p n. parse (MsgType_u32 type) p n = parsed (FromString old p n) g"
  shows "delivers parse f (g (canon m))"
proof -
  obtain bs where bs: "ToString m (MaxBytes m) = Some bs" "length bs < 2 ^ 31 - 8"
    using encoded [OF assms(1)] by auto
  then have f: "f = EncodeFixed32 (of_nat (length bs)) @ EncodeFixed32 (MsgType_u32 type) @ bs"
    using assms(4) by (simp add: frame_def MsgHeader_ToString_def MsgHeader_Bytes_def)
  have "parse (MsgType_u32 type) (bs @ r) (int (length bs)) = Some (g (canon m))" for r
    using decoded [OF assms(1,2) bs(1), of r] assms(3,5) by (auto simp: parsed_def)
  with bs(2) f show ?thesis unfolding delivers_def by blast
qed

end

lemma wire_delivers:
  assumes "wire m = Some f" "sendable m" "ap_entries (raw_AppendEntries raw) = []"
  shows "delivers (parse_body raw now) f (FromPeer (stamped now m))"
proof (cases m)
  case (MPing x)
  with assms show ?thesis
    using ping.delivered [where m = x and f = f and type = kPing and old = "raw_Ping raw" and parse = "parse_body raw now"
      and g = "\<lambda>m. FromPeer (MPing (m\<lparr>pg_elapse := diff_ms now (pg_send_ts m)\<rparr>))"]
    by (simp add: parse_body_def)
next
  case (MPingReply x)
  with assms show ?thesis
    using ping_reply.delivered [where m = x and f = f and type = kPingReply and old = "raw_PingReply raw" and parse = "parse_body raw now"
      and g = "\<lambda>m. FromPeer (MPingReply (m\<lparr>pgr_elapse := diff_ms now (pgr_send_ts m)\<rparr>))"]
    by (simp add: parse_body_def)
next
  case (MRequestVote x)
  with assms show ?thesis
    using request_vote.delivered [where m = x and f = f and type = kRequestVote and old = "raw_RequestVote raw" and parse = "parse_body raw now"
      and g = "\<lambda>m. FromPeer (MRequestVote (m\<lparr>rv_elapse := diff_ms now (rv_send_ts m)\<rparr>))"]
    by (simp add: parse_body_def)
next
  case (MRequestVoteReply x)
  with assms show ?thesis
    using request_vote_reply.delivered [where m = x and f = f and type = kRequestVoteReply and old = "raw_RequestVoteReply raw" and parse = "parse_body raw now"
      and g = "\<lambda>m. FromPeer (MRequestVoteReply (m\<lparr>rvr_elapse := diff_ms now (rvr_send_ts m)\<rparr>))"]
    by (simp add: parse_body_def)
next
  case (MAppendEntries x)
  with assms show ?thesis
    using append_entries.delivered [where m = x and f = f and type = kAppendEntries and old = "raw_AppendEntries raw" and parse = "parse_body raw now"
      and g = "\<lambda>m. FromPeer (MAppendEntries (m\<lparr>ap_elapse := diff_ms now (ap_send_ts m)\<rparr>))"]
    by (simp add: parse_body_def)
next
  case (MAppendEntriesReply x)
  with assms show ?thesis
    using append_entries_reply.delivered [where m = x and f = f and type = kAppendEntriesReply and old = "raw_AppendEntriesReply raw" and parse = "parse_body raw now"
      and g = "\<lambda>m. FromPeer (MAppendEntriesReply (m\<lparr>aer_elapse := diff_ms now (aer_send_ts m)\<rparr>))"]
    by (simp add: parse_body_def)
next
  case (MInstallSnapshot x)
  with assms show ?thesis
    using install_snapshot.delivered [where m = x and f = f and type = kInstallSnapshot and old = "raw_InstallSnapshot raw" and parse = "parse_body raw now"
      and g = "\<lambda>m. FromPeer (MInstallSnapshot (m\<lparr>is_elapse := diff_ms now (is_send_ts m)\<rparr>))"]
    by (simp add: parse_body_def)
next
  case (MInstallSnapshotReply x)
  with assms show ?thesis
    using install_snapshot_reply.delivered [where m = x and f = f and type = kInstallSnapshotReply and old = "raw_InstallSnapshotReply raw" and parse = "parse_body raw now"
      and g = "\<lambda>m. FromPeer (MInstallSnapshotReply (m\<lparr>isr_elapse := diff_ms now (isr_send_ts m)\<rparr>))"]
    by (simp add: parse_body_def)
qed (use assms in simp_all)

lemma wires_deliver:
  assumes "list_all2 (\<lambda>m f. wire m = Some f \<and> sendable m) ms fs" "ap_entries (raw_AppendEntries raw) = []"
  shows "list_all2 (delivers (parse_body raw now)) fs (map (\<lambda>m. FromPeer (stamped now m)) ms)"
  using assms(1) wire_delivers [OF _ _ assms(2)] by (auto simp: list_all2_conv_all_nth)

section \<open>Properties\<close>

text \<open>C24. A server handles what its peers send: when the bytes in the input buffer are the frames of
  messages of peers that the decoders can read back (\<open>sendable\<close>: any but \<^verbatim>\<open>TimeoutNow\<close>, with
  snapshot data, and the values of all log entries but the last of a message, shorter than 128 bytes), with less than a header after them, the loop of \<^verbatim>\<open>OnMessage\<close> ends,
  every message has gone to its handler once and in the order sent (unless a handler aborts or receiving
  is disabled), and the incomplete header is left in the buffer.\<close>

theorem OnMessage_handles_frames:
  assumes "list_all2 (\<lambda>m f. wire m = Some f \<and> sendable m) ms fs"
    and "buffer_ok buf" "pending buf = concat fs @ tail" "length tail < 8"
    and "ap_entries (raw_AppendEntries raw) = []"
  shows "\<exists>buf'. RaftServer_OnMessage resolve L S junk raw now (buf, sv, out) =
      Some (map_option (\<lambda>st. (buf', st))
        (handle_all (handle_incoming resolve L S junk) (map (\<lambda>m. FromPeer (stamped now m)) ms) (sv, out))) \<and>
    buffer_ok buf' \<and> pending buf' = tail"
proof -
  from loop_frames [OF wires_deliver [OF assms(1,5)] assms(2-4)] show ?thesis by (simp add: RaftServer_OnMessage_def)
qed

theorem OnMessage_handles_frames_witness:
  "\<exists>m f buf raw. wire (MRequestVote m) = Some f \<and> pending buf = f @ f \<and>
     (\<forall>sv. RaftServer_OnMessage (\<lambda>_. None) alist_store no_sm 0 raw 0
        (buf, sv :: ((bytes \<times> bytes) list, unit, unit, unit, unit, unit) RaftServer, []) \<noteq> None)"
proof -
  let ?a = "RaftAddr 1 2 3"
  let ?m = "\<lparr>rv_src = ?a, rv_dest = ?a, rv_term = 1, rv_uid = 2, rv_send_ts = 3, rv_elapse = 4,
    rv_last_log_index = 5, rv_last_log_term = 6, rv_leader_transfer = False, rv_pre_vote = False\<rparr>"
  obtain f where f: "wire (MRequestVote ?m) = Some f"
    using request_vote.encoded [of ?m] by (auto simp: frame_def MsgHeader_ToString_def)
  obtain buf where buf: "buffer_ok buf" "pending buf = concat [f, f] @ []" using sample_buffer by blast
  obtain raw :: raw_objects where raw: "ap_entries (raw_AppendEntries raw) = []"
    by (metis AppendEntries.select_convs(10) raw_objects.select_convs(5))
  have "\<exists>buf'. RaftServer_OnMessage (\<lambda>_. None) alist_store no_sm 0 raw 0 (buf, sv, []) =
      Some (map_option (\<lambda>st. (buf', st)) (handle_all (handle_incoming (\<lambda>_. None) alist_store no_sm 0)
        (map (\<lambda>m. FromPeer (stamped 0 m)) [MRequestVote ?m, MRequestVote ?m]) (sv, []))) \<and>
      buffer_ok buf' \<and> pending buf' = []"
    for sv :: "((bytes \<times> bytes) list, unit, unit, unit, unit, unit) RaftServer"
    by (rule OnMessage_handles_frames [OF _ buf _ raw]) (use f in simp_all)
  then have "RaftServer_OnMessage (\<lambda>_. None) alist_store no_sm 0 raw 0 (buf, sv, []) \<noteq> None"
    for sv :: "((bytes \<times> bytes) list, unit, unit, unit, unit, unit) RaftServer"
    by (metis option.distinct(1))
  with f buf(2) show ?thesis by auto
qed

text \<open>C25. A message that arrives in two pieces stops the server: when a header is in the buffer and
  the body it announces is not there completely, the loop of \<^verbatim>\<open>OnMessage\<close> never ends. A header that
  announces a body of \<open>2 ^ 31 - 8\<close> bytes or more makes the sum of the sizes overflow, which is undefined.\<close>

theorem OnMessage_spins_on_partial_body:
  assumes "buffer_ok buf" "pending buf = EncodeFixed32 n @ EncodeFixed32 t @ part"
    and "int (length part) < sint n"
  shows "RaftServer_OnMessage resolve L S junk raw now (buf, sv, out) =
    (if sint n < 2 ^ 31 - 8 then None else Some None)"
  unfolding RaftServer_OnMessage_def
  using partial_body_spins [OF assms] overflow_aborts [OF assms(1,2)] by (cases "sint n < 2 ^ 31 - 8") simp_all

theorem OnMessage_spins_on_partial_body_witness:
  "\<exists>buf. buffer_ok buf \<and> length (pending buf) = 9 \<and>
     (\<forall>raw sv. RaftServer_OnMessage (\<lambda>_. None) alist_store no_sm 0 raw 0
        (buf, sv :: ((bytes \<times> bytes) list, unit, unit, unit, unit, unit) RaftServer, []) = None)"
proof -
  obtain buf where buf: "buffer_ok buf" "pending buf = EncodeFixed32 2 @ EncodeFixed32 2 @ [0]"
    using sample_buffer by blast
  have "RaftServer_OnMessage (\<lambda>_. None) alist_store no_sm 0 raw 0
      (buf, sv :: ((bytes \<times> bytes) list, unit, unit, unit, unit, unit) RaftServer, []) = None" for raw sv
    by (subst OnMessage_spins_on_partial_body [OF buf]) simp_all
  with buf show ?thesis by (auto simp: codec_length)
qed

end
