(* ===== verification/ConsoleSend.thy ===== *)
theory ConsoleSend
  imports Prelude
begin

text \<open>
  How the remote consoles send (\<^verbatim>\<open>Console::Send\<close> in src/src/util/console.cc): the function handed to the event loop holds
  the address of the characters of a string, not the characters, and the string is a local variable of
  the caller. Memory is a partial map from addresses to the strings that live there.
\<close>

type_synonym string_heap = "nat \<rightharpoonup> bytes"

text \<open>The bound call of \<^verbatim>\<open>TcpClient::CopySend\<close>: where the bytes are and how many.\<close>

record send_functor =
  sf_buf :: nat
  sf_size :: nat

text \<open>The function given to \<^verbatim>\<open>RunFunctor\<close>, if the console has a client for its destination.\<close>

definition Console_Send :: "bool \<Rightarrow> nat \<Rightarrow> string_heap \<Rightarrow> send_functor option option" where
  "Console_Send client msg h =
     (if client then do { s \<leftarrow> h msg; Some (Some \<lparr>sf_buf = msg, sf_size = length s\<rparr>) } else Some None)"

text \<open>The call itself, in the memory of the moment it is made: the bytes that go to the client.\<close>

definition run_send :: "send_functor \<Rightarrow> string_heap \<Rightarrow> bytes option" where
  "run_send f h = do { s \<leftarrow> h (sf_buf f); check (sf_size f \<le> length s); Some (take (sf_size f) s) }"

text \<open>The loop thread makes the call before the caller of \<^verbatim>\<open>Send\<close> has left the block of its string, or after.\<close>

datatype send_moment = BeforeReturn | AfterReturn

fun memory_at :: "send_moment \<Rightarrow> nat \<Rightarrow> string_heap \<Rightarrow> string_heap" where
  "memory_at BeforeReturn msg h = h"
| "memory_at AfterReturn msg h = h(msg := None)"

text \<open>A block that makes a string, sends it and ends; the consoles have a client from their construction.\<close>

definition send_local :: "send_moment \<Rightarrow> bytes \<Rightarrow> bytes option" where
  "send_local moment frame = (
     let h = [0 \<mapsto> frame] in do {
       f \<leftarrow> Console_Send True 0 h;
       f \<leftarrow> f;
       run_send f (memory_at moment 0 h) })"

lemma send_local_simps [simp]:
  "send_local BeforeReturn frame = Some frame" "send_local AfterReturn frame = None"
  by (simp_all add: send_local_def Console_Send_def run_send_def)

end
