(* ===== verification/VStore.thy ===== *)
theory VStore
  imports RaftReplication ServerLoop ConsoleSend
begin

text \<open>
  The replicated key-value store (src/src/vstore): the state machine that keeps the pairs in LevelDB
  together with the index and term of the last entry it applied (vstore_sm.cc), as an implementation
  of the state machine interface of the replica, and the console that turns the commands of a user
  into requests (vstore_console.cc).
\<close>

section \<open>The state machine\<close>

definition vs_last_index_key :: bytes where
  "vs_last_index_key = lit ''VSTORE_LAST_INDEX_KEY''"

definition vs_last_term_key :: bytes where
  "vs_last_term_key = lit ''VSTORE_LAST_TERM_KEY''"

text \<open>The entry is decoded from the characters of a \<^verbatim>\<open>std::string\<close>, which end with a zero.\<close>

definition VstoreSm_Apply :: "'db leveldb \<Rightarrow> LogEntry \<Rightarrow> RaftAddr \<Rightarrow> 'db \<Rightarrow> (int \<times> 'db) option" where
  "VstoreSm_Apply L entry addr db = do {
     let value = ae_value (le_append_entry entry);
     (kv, size) \<leftarrow> KV_FromString \<lparr>kv_key = [], kv_value = []\<rparr> (value @ [0]) (int (length value));
     Some (0, ldb_write L True
       [Put vs_last_index_key (EncodeFixed32 (le_index entry)),
        Put vs_last_term_key (EncodeFixed64 (ae_term (le_append_entry entry))),
        Put (kv_key kv) (kv_value kv)] db) }"

definition VstoreSm_LastIndex :: "'db leveldb \<Rightarrow> 'db \<Rightarrow> RaftIndex option" where
  "VstoreSm_LastIndex L db =
     (case ldb_get L db vs_last_index_key of
        Some value \<Rightarrow> do { check (length value = 4); DecodeFixed32 value }
      | None \<Rightarrow> Some 0)"

definition VstoreSm_LastTerm :: "'db leveldb \<Rightarrow> 'db \<Rightarrow> RaftTerm option" where
  "VstoreSm_LastTerm L db =
     (case ldb_get L db vs_last_term_key of
        Some value \<Rightarrow> do { check (length value = 8); DecodeFixed64 value }
      | None \<Rightarrow> Some 0)"

definition VstoreSm_Get :: "'db leveldb \<Rightarrow> bytes \<Rightarrow> 'db \<Rightarrow> int \<times> bytes" where
  "VstoreSm_Get L key db =
     (case ldb_get L db key of Some value \<Rightarrow> (0, value) | None \<Rightarrow> (-2, []))"

text \<open>
  The state machine behind the interface of the replica. Its directory holds the database, so
  \<^verbatim>\<open>CreateVStoreSM\<close> on it finds the state again. The replica asserts that \<^verbatim>\<open>Apply\<close> returns 0, so an
  application that does not survive is one that returns another value. The last index and term are
  read through the interface as plain numbers, 0 where the read itself aborts; which keys lead there
  is proved below on the reads themselves. No snapshot functions are installed.
\<close>

definition VstoreSm :: "'db leveldb \<Rightarrow> ('db, 'db, unit, unit) sm_ops" where
  "VstoreSm L = \<lparr>so_create = Some Some, so_dir = id, so_Restore = id,
     so_Apply = (\<lambda>e addr db. case VstoreSm_Apply L e addr db of Some x \<Rightarrow> x | None \<Rightarrow> (-1, db)),
     so_LastIndex = (\<lambda>db. case VstoreSm_LastIndex L db of Some i \<Rightarrow> i | None \<Rightarrow> 0),
     so_LastTerm = (\<lambda>db. case VstoreSm_LastTerm L db of Some t \<Rightarrow> t | None \<Rightarrow> 0),
     so_Get = VstoreSm_Get L,
     so_create_reader = None, rd_last_index = (\<lambda>_. 0), rd_last_term = (\<lambda>_. 0), rd_offset = (\<lambda>_. 0),
     rd_data = (\<lambda>_. []), rd_done = (\<lambda>_. True), rd_Read = (\<lambda>r. (-1, r)), so_create_writer = None,
     wr_last_index = (\<lambda>_. 0), wr_last_term = (\<lambda>_. 0), wr_stored = (\<lambda>_. 0),
     wr_Write = (\<lambda>_ w. (-1, w)), wr_Finish = (\<lambda>w. (-1, w)), wr_dir = (\<lambda>_. ldb_open L)\<rparr>"

section \<open>What the replica relies on\<close>

text \<open>
  The contract of a state machine: an entry it accepts is applied without an error, the machine
  remembers the index and the term of the last entry, and a machine created on its directory and
  restored is the same machine.
\<close>

locale state_machine =
  fixes S :: "('sm, 'dir, 'rd, 'wr) sm_ops" and accepts :: "LogEntry \<Rightarrow> bool"
  assumes applied: "accepts e \<Longrightarrow> \<exists>sm'. so_Apply S e a sm = (0, sm') \<and>
      so_LastIndex S sm' = le_index e \<and> so_LastTerm S sm' = ae_term (le_append_entry e)"
    and recreated: "\<exists>create. so_create S = Some create \<and> create (so_dir S sm) = Some sm"
    and restored: "so_Restore S sm = sm"
begin

lemma apply_all_last:
  assumes "list_all accepts es" "es \<noteq> []"
  shows "so_LastIndex S (fold (\<lambda>e sm. snd (so_Apply S e a sm)) es sm) = le_index (last es) \<and>
    so_LastTerm S (fold (\<lambda>e sm. snd (so_Apply S e a sm)) es sm) = ae_term (le_append_entry (last es))"
proof (cases es rule: rev_cases)
  case (snoc ds e)
  then show ?thesis
    using applied [of e a "fold (\<lambda>e sm. snd (so_Apply S e a sm)) ds sm"] assms(1) by auto
qed (use assms(2) in simp)

text \<open>A replica that stops and starts again continues after the last entry its machine has.\<close>

lemma restart_last_apply:
  assumes "r_sm r = Some sm" "Raft_Stop S r = Some r1" "Raft_Start L S r1 = Some r2"
  shows "r_sm r2 = Some sm" "r_last_apply r2 = so_LastIndex S sm"
proof -
  obtain create where create: "so_create S = Some create" "create (so_dir S sm) = Some sm"
    using recreated [of sm] by blast
  have r1: "r_sm r1 = None" "r_sm_dir r1 = so_dir S sm"
    using assms(1,2) by (auto simp: Raft_Stop_def Let_def elim!: bind_eq_SomeE)
  obtain tm where "Raft_StepDown L (r_term r1) (r1\<lparr>r_sm := Some sm, r_last_apply := so_LastIndex S sm,
      r_started := True, r_timer_mgr := tm\<rparr>) = Some r2"
    using assms(3) create r1 restored
    by (auto simp: Raft_Start_def Let_def elim!: bind_eq_SomeE split: if_splits)
  then show "r_sm r2 = Some sm" "r_last_apply r2 = so_LastIndex S sm"
    by (auto simp: Raft_StepDown_def Let_def elim!: bind_eq_SomeE split: if_splits)
qed

end

section \<open>The store implements it\<close>

text \<open>A data entry holds a pair whose key is short and not one of the two keys of the machine itself.\<close>

definition kv_entry :: "LogEntry \<Rightarrow> KV \<Rightarrow> bool" where
  "kv_entry e kv \<longleftrightarrow> KV_ToString kv (KV_MaxBytes kv) = Some (ae_value (le_append_entry e)) \<and>
     length (kv_key kv) < 128 \<and> length (kv_value kv) < 2 ^ 30 \<and>
     kv_key kv \<notin> {vs_last_index_key, vs_last_term_key}"

lemma VstoreSm_simps [simp]:
  "so_create (VstoreSm L) = Some Some" "so_dir (VstoreSm L) = id" "so_Restore (VstoreSm L) = id"
  "so_Apply (VstoreSm L) e a db = (case VstoreSm_Apply L e a db of Some x \<Rightarrow> x | None \<Rightarrow> (-1, db))"
  "so_LastIndex (VstoreSm L) db = (case VstoreSm_LastIndex L db of Some i \<Rightarrow> i | None \<Rightarrow> 0)"
  "so_LastTerm (VstoreSm L) db = (case VstoreSm_LastTerm L db of Some t \<Rightarrow> t | None \<Rightarrow> 0)"
  "so_Get (VstoreSm L) = VstoreSm_Get L"
  by (simp_all add: VstoreSm_def)

lemma keys_distinct: "vs_last_index_key \<noteq> vs_last_term_key"
  by (simp add: vs_last_index_key_def vs_last_term_key_def lit_def)

lemma VstoreSm_Apply_kv:
  assumes "kv_entry e kv"
  shows "VstoreSm_Apply L e a db = Some (0, ldb_write L True
       [Put vs_last_index_key (EncodeFixed32 (le_index e)),
        Put vs_last_term_key (EncodeFixed64 (ae_term (le_append_entry e))),
        Put (kv_key kv) (kv_value kv)] db)"
proof -
  obtain sz where "KV_FromString \<lparr>kv_key = [], kv_value = []\<rparr> (ae_value (le_append_entry e) @ [0])
      (int (length (ae_value (le_append_entry e)))) = Some (kv, sz)"
    using kv.decoded [where m = kv and old = "\<lparr>kv_key = [], kv_value = []\<rparr>" and bs = "ae_value (le_append_entry e)"
      and r = "[0]"] assms
    by (auto simp: kv_entry_def)
  then show ?thesis by (simp add: VstoreSm_Apply_def)
qed

context leveldb_store
begin

lemma Apply_read:
  assumes "kv_entry e kv" "VstoreSm_Apply L e a db = Some (rv, db')"
  shows "rv = 0" "VstoreSm_LastIndex L db' = Some (le_index e)"
    "VstoreSm_LastTerm L db' = Some (ae_term (le_append_entry e))"
    "k \<notin> {vs_last_index_key, vs_last_term_key} \<Longrightarrow>
      VstoreSm_Get L k db' = (if k = kv_key kv then (0, kv_value kv) else VstoreSm_Get L k db)"
  using assms(2) assms(1) [unfolded kv_entry_def] keys_distinct
  by (auto simp: VstoreSm_Apply_kv [OF assms(1)] get_write VstoreSm_LastIndex_def VstoreSm_LastTerm_def VstoreSm_Get_def)

lemma vstore_contract: "state_machine (VstoreSm L) (\<lambda>e. \<exists>kv. kv_entry e kv)"
proof (unfold_locales, goal_cases)
  case (1 e a sm)
  then obtain kv where kv: "kv_entry e kv" by blast
  obtain db' where db': "VstoreSm_Apply L e a sm = Some (0, db')"
    by (rule that [OF VstoreSm_Apply_kv [OF kv]])
  show ?case by (rule exI [of _ db']) (simp add: db' Apply_read(2,3) [OF kv db'])
qed simp_all

end

sublocale leveldb_store \<subseteq> vstore: state_machine "VstoreSm L" "\<lambda>e. \<exists>kv. kv_entry e kv"
  by (rule vstore_contract)

text \<open>What a sequence of entries leaves in the store.\<close>

abbreviation kv_pairs :: "KV list \<Rightarrow> (bytes \<times> bytes) list" where
  "kv_pairs kvs \<equiv> rev (map (\<lambda>kv. (kv_key kv, kv_value kv)) kvs)"

context leveldb_store
begin

lemma apply_all_get:
  assumes "list_all2 kv_entry es kvs" "k \<notin> {vs_last_index_key, vs_last_term_key}"
  shows "VstoreSm_Get L k (fold (\<lambda>e db. snd (so_Apply (VstoreSm L) e a db)) es db) =
    (case map_of (kv_pairs kvs) k of Some v \<Rightarrow> (0, v) | None \<Rightarrow> VstoreSm_Get L k db)"
  using assms(1)
proof (induction es kvs arbitrary: db rule: list_all2_induct)
  case (Cons e es kv kvs)
  obtain db' where db': "VstoreSm_Apply L e a db = Some (0, db')"
    by (rule that [OF VstoreSm_Apply_kv [OF Cons.hyps(1)]])
  show ?case
    using Cons.IH [of db'] Apply_read(4) [OF Cons.hyps(1) db' assms(2)]
    by (auto simp: db' map_add_def split: option.splits)
qed simp

end

section \<open>The console\<close>

record VstoreConsole =
  vc_cmd :: bytes
  vc_key :: bytes
  vc_value :: bytes
  vc_leader_transfer :: bytes

definition VstoreConsole_Clear :: VstoreConsole where
  "VstoreConsole_Clear = \<lparr>vc_cmd = [], vc_key = [], vc_value = [], vc_leader_transfer = []\<rparr>"

definition VstoreConsole_Parse :: "bytes \<Rightarrow> VstoreConsole option" where
  "VstoreConsole_Parse cmd_line = (
     let cmd_line2 = DelTails (DelHead cmd_line (lit '' '')) (lit '' ;'');
         result = Split cmd_line2 0x20
     in case result of
          [] \<Rightarrow> None
        | cmd # _ \<Rightarrow> (
            let c = VstoreConsole_Clear\<lparr>vc_cmd := cmd\<rparr>;
                c = (if cmd = lit ''get'' \<and> length result = 2 then c\<lparr>vc_key := result ! 1\<rparr> else c);
                c = (if cmd = lit ''set'' \<and> length result = 3
                     then c\<lparr>vc_key := result ! 1, vc_value := result ! 2\<rparr> else c);
                c = (if cmd = lit ''leader'' \<and> length result = 2
                     then c\<lparr>vc_leader_transfer := result ! 1\<rparr> else c)
            in Some c))"

definition VstoreConsole_HelpString :: bytes where
  "VstoreConsole_HelpString = lit ''help '' @ [0x0A] @ lit ''set kk vv '' @ [0x0A] @ lit ''get kk '' @ [0x0A] @
     lit ''leader 127.0.0.1:9001#0 '' @ [0x0A]"

text \<open>\<^verbatim>\<open>Execute\<close> sends at most one request and may set the result that is shown at once. \<open>moment\<close> is when the loop thread
  makes the sending call.\<close>

definition request_frame :: "ClientRequest \<Rightarrow> bytes option" where
  "request_frame msg = do {
     body_str \<leftarrow> ClientRequest_ToString msg (ClientRequest_MaxBytes msg);
     frame kClientRequet body_str }"

definition VstoreConsole_Execute :: "send_moment \<Rightarrow> u32 \<Rightarrow> VstoreConsole \<Rightarrow> (bytes option \<times> bytes option) option" where
  "VstoreConsole_Execute moment uid c =
     (if vc_cmd c = lit ''help'' then Some (None, Some VstoreConsole_HelpString)
      else if vc_cmd c = lit ''set'' then do {
        let kv = \<lparr>kv_key = vc_key c, kv_value = vc_value c\<rparr>;
        data \<leftarrow> KV_ToString kv (KV_MaxBytes kv);
        f \<leftarrow> request_frame \<lparr>cr_uid = uid, cr_cmd = kCmdPropose, cr_data = data\<rparr>;
        sent \<leftarrow> send_local moment f;
        Some (Some sent, Some (lit ''ok'')) }
      else if vc_cmd c = lit ''get'' then do {
        f \<leftarrow> request_frame \<lparr>cr_uid = uid, cr_cmd = kCmdGet, cr_data = vc_key c\<rparr>;
        sent \<leftarrow> send_local moment f;
        Some (Some sent, None) }
      else if vc_cmd c = lit ''leader'' then do {
        f \<leftarrow> request_frame \<lparr>cr_uid = uid, cr_cmd = kCmdLeaderTransfer, cr_data = vc_leader_transfer c\<rparr>;
        sent \<leftarrow> send_local moment f;
        Some (Some sent, Some (lit ''ok'')) }
      else Some (None, None))"

text \<open>A reply is shown up to its first zero byte, and the whole input is dropped.\<close>

definition VstoreConsole_OnMessage :: "Buffer \<Rightarrow> (bytes \<times> Buffer) option" where
  "VstoreConsole_OnMessage buf = do {
     p \<leftarrow> Buffer_BeginRead buf;
     check (0 \<in> set p);
     Some (c_str p, Buffer_RetrieveAll buf) }"

section \<open>Words of a command\<close>

definition is_word :: "bytes \<Rightarrow> bool" where
  "is_word w \<longleftrightarrow> w \<noteq> [] \<and> 0x20 \<notin> set w \<and> last w \<noteq> 0x3B"

lemma Parse_set:
  assumes "is_word k" "is_word v"
  shows "VstoreConsole_Parse (lit ''set '' @ k @ 0x20 # v) =
    Some \<lparr>vc_cmd = lit ''set'', vc_key = k, vc_value = v, vc_leader_transfer = []\<rparr>"
proof -
  let ?s = "lit ''set '' @ k @ 0x20 # v"
  have "DelTails (DelHead ?s (lit '' '')) (lit '' ;'') = ?s"
    using assms last_in_set [of v]
    by (subst DelHead_none, simp add: lit_def, subst DelTails_none)
      (auto simp: is_word_def lit_def simp del: last_in_set)
  moreover have "Split ?s 0x20 = [lit ''set'', k, v]"
    using assms Split_word(1) [where w = "lit ''set''" and sep = "0x20" and result = "[]" and rest = "k @ 0x20 # v"]
    by (simp add: Split_def is_word_def lit_def Split_word)
  ultimately show ?thesis by (simp add: VstoreConsole_Parse_def VstoreConsole_Clear_def lit_def)
qed

lemma Execute_set:
  assumes "length k < 128" "length v < 2 ^ 29"
  obtains data f where
    "KV_ToString \<lparr>kv_key = k, kv_value = v\<rparr> (KV_MaxBytes \<lparr>kv_key = k, kv_value = v\<rparr>) = Some data"
    "VstoreConsole_Execute BeforeReturn uid \<lparr>vc_cmd = lit ''set'', vc_key = k, vc_value = v, vc_leader_transfer = t\<rparr> =
      Some (Some f, Some (lit ''ok''))"
    "delivers (parse_body raw now) f (FromClient \<lparr>cr_uid = uid, cr_cmd = kCmdPropose, cr_data = data\<rparr>)"
proof -
  let ?kv = "\<lparr>kv_key = k, kv_value = v\<rparr>"
  obtain data where data: "KV_ToString ?kv (KV_MaxBytes ?kv) = Some data" "int (length data) \<le> KV_MaxBytes ?kv"
    using kv.encoded [of ?kv] assms by auto
  let ?m = "\<lparr>cr_uid = uid, cr_cmd = kCmdPropose, cr_data = data\<rparr>"
  have small: "length data < 2 ^ 30" using data(2) assms by (simp add: KV_MaxBytes_def)
  obtain f where f: "request_frame ?m = Some f"
    using client_request.encoded [of ?m] small
    by (auto simp: request_frame_def frame_def MsgHeader_ToString_def MsgHeader_Bytes_def)
  have "delivers (parse_body raw now) f (FromClient ?m)"
    using client_request.delivered [where m = ?m and f = f and type = kClientRequet and
      old = "raw_ClientRequest raw" and parse = "parse_body raw now" and g = FromClient] small f
    by (simp add: parse_body_def request_frame_def)
  moreover have "VstoreConsole_Execute BeforeReturn uid \<lparr>vc_cmd = lit ''set'', vc_key = k, vc_value = v, vc_leader_transfer = t\<rparr> =
      Some (Some f, Some (lit ''ok''))"
    using data(1) f by (simp add: VstoreConsole_Execute_def lit_def)
  ultimately show ?thesis using that data(1) by blast
qed

section \<open>Properties\<close>

text \<open>C13. The store shows what the cluster has committed: when a replica applies the entries up to its
  commit index, each data entry holding a pair whose key has fewer than 128 bytes and is neither of
  the two keys the store uses itself (\<open>kv_entry\<close>), a read of any key but these two returns the value
  of the last of these pairs with that key, and the old value if there is none; the machine remembers
  the index and term of the last pair.\<close>

theorem store_reads_committed:
  assumes "leveldb_store L" "log_rep L (r_log r) b c es" "r_last_apply r = of_nat (b + i)"
    and "r_commit r = of_nat (b + j)" "i < j" "j \<le> length es" "r_sm r = Some db"
    and "list_all2 kv_entry (filter (\<lambda>e. ae_type (le_append_entry e) = kData) (map (stored_entry c b es) [i ..< j])) kvs"
    and "\<forall>k \<in> {i ..< j}. ae_type (es ! k) \<in> {kData, kNoop, kConfig}"
  shows "\<exists>r' db'. Raft_StateMachineApply L (VstoreSm L) r = Some r' \<and> r_sm r' = Some db' \<and>
    (\<forall>k. k \<notin> {vs_last_index_key, vs_last_term_key} \<longrightarrow> so_Get (VstoreSm L) k db' =
      (case map_of (kv_pairs kvs) k of Some v \<Rightarrow> (0, v) | None \<Rightarrow> so_Get (VstoreSm L) k db)) \<and>
    (kvs \<noteq> [] \<longrightarrow> (let e = last (filter (\<lambda>e. ae_type (le_append_entry e) = kData)
        (map (stored_entry c b es) [i ..< j]))
      in so_LastIndex (VstoreSm L) db' = le_index e \<and> so_LastTerm (VstoreSm L) db' = ae_term (le_append_entry e)))"
proof -
  let ?ds = "filter (\<lambda>e. ae_type (le_append_entry e) = kData) (map (stored_entry c b es) [i ..< j])"
  let ?db = "sm_apply_all (VstoreSm L) (Raft_Me r) (map (stored_entry c b es) [i ..< j]) db"
  have accepted: "list_all (\<lambda>e. \<exists>kv. kv_entry e kv) ?ds"
    using assms(8) by (auto simp: list_all2_conv_all_nth list_all_length)
  have ok: "\<forall>k \<in> {i ..< j}. ae_type (es ! k) = kData \<longrightarrow>
      (\<forall>sm. fst (so_Apply (VstoreSm L) (stored_entry c b es k) (Raft_Me r) sm) = 0)"
  proof (intro ballI impI allI)
    fix k sm assume "k \<in> {i ..< j}" "ae_type (es ! k) = kData"
    then have "stored_entry c b es k \<in> set ?ds" by (auto simp: stored_entry_def Let_def)
    then obtain kv where "kv_entry (stored_entry c b es k) kv" using accepted by (auto simp: list_all_iff)
    from VstoreSm_Apply_kv [OF this, of L "Raft_Me r" sm]
    show "fst (so_Apply (VstoreSm L) (stored_entry c b es k) (Raft_Me r) sm) = 0" by simp
  qed
  obtain r' where r': "Raft_StateMachineApply L (VstoreSm L) r = Some r'"
    using StateMachineApply_total [OF assms(2-6) assms(9) ok] by blast
  have sm: "r_sm r' = Some ?db"
    using StateMachineApply_sm [OF assms(2-6) r'] assms(7) by simp
  have all: "?db = fold (\<lambda>e db. snd (so_Apply (VstoreSm L) e (Raft_Me r) db)) ?ds db"
    by (simp only: sm_apply_all_def)
  have get: "so_Get (VstoreSm L) k ?db =
      (case map_of (kv_pairs kvs) k of Some v \<Rightarrow> (0, v) | None \<Rightarrow> so_Get (VstoreSm L) k db)"
    if "k \<notin> {vs_last_index_key, vs_last_term_key}" for k
    using leveldb_store.apply_all_get [OF assms(1,8) that, of "Raft_Me r" db] by (simp only: all VstoreSm_simps)
  have last: "so_LastIndex (VstoreSm L) ?db = le_index (last ?ds) \<and>
      so_LastTerm (VstoreSm L) ?db = ae_term (le_append_entry (last ?ds))" if "kvs \<noteq> []"
  proof -
    have "?ds \<noteq> []" using assms(8) that by (metis list_all2_Nil)
    from state_machine.apply_all_last [OF leveldb_store.vstore_contract [OF assms(1)] accepted this]
    show ?thesis by (simp only: all)
  qed
  show ?thesis using r' sm get last by (auto simp only: Let_def)
qed

theorem store_reads_committed_witness:
  "\<exists>(r :: ((bytes \<times> bytes) list, (bytes \<times> bytes) list, (bytes \<times> bytes) list, unit, unit) Raft) r' db'.
     Raft_StateMachineApply alist_store (VstoreSm alist_store) r = Some r' \<and> r_sm r' = Some db' \<and>
     so_Get (VstoreSm alist_store) [7] db' = (0, [8])"
proof -
  let ?kv = "\<lparr>kv_key = [7], kv_value = [8]\<rparr>"
  obtain data where data: "KV_ToString ?kv (KV_MaxBytes ?kv) = Some data" using kv.encoded [of ?kv] by auto
  let ?e = "\<lparr>ae_term = 1, ae_type = kData, ae_value = data\<rparr>"
  obtain l where l: "log_rep alist_store l 0 0 [?e]" using sample_log [of "[?e]"] by auto
  let ?r = "(Raft_new [] [] \<lparr>sd_term = 1, sd_vote = 0, sd_db = []\<rparr> [] (\<lambda>_. 0) (\<lambda>_. 0) (\<lambda>_. 0)
    \<lparr>rc_me = RaftAddr 1 2 3, rc_peers = []\<rparr>)\<lparr>r_log := l, r_commit := 1, r_sm := Some []\<rparr>"
  have "kv_entry (stored_entry 0 0 [?e] 0) ?kv"
    using data by (simp add: kv_entry_def stored_entry_def Let_def vs_last_index_key_def vs_last_term_key_def lit_def)
  moreover have "ae_type (le_append_entry (stored_entry 0 0 [?e] 0)) = kData"
    by (simp add: stored_entry_def Let_def)
  ultimately have "list_all2 kv_entry (filter (\<lambda>e. ae_type (le_append_entry e) = kData)
      (map (stored_entry 0 0 [?e]) [0 ..< 1])) [?kv]" by simp
  with store_reads_committed [OF alist_store.leveldb_store_axioms, of ?r 0 0 "[?e]" 0 1 "[]" "[?kv]"] l
  obtain r' db' where "Raft_StateMachineApply alist_store (VstoreSm alist_store) ?r = Some r'" "r_sm r' = Some db'"
    "\<forall>k. k \<notin> {vs_last_index_key, vs_last_term_key} \<longrightarrow> so_Get (VstoreSm alist_store) k db' =
      (case map_of (kv_pairs [?kv]) k of Some v \<Rightarrow> (0, v) | None \<Rightarrow> so_Get (VstoreSm alist_store) k [])"
    by (auto simp: Raft_new_def)
  moreover have "[7] \<notin> {vs_last_index_key, vs_last_term_key}"
    by (simp add: vs_last_index_key_def vs_last_term_key_def lit_def)
  ultimately show ?thesis by (intro exI [of _ ?r] exI [of _ r'] exI [of _ db']) auto
qed

text \<open>What a user sets is what the store returns: when the loop thread sends in time, the command \<^verbatim>\<open>set k v\<close> becomes a frame that a server
  takes as a proposal, and applying an entry with the proposed data, anywhere and at any time, makes
  \<open>v\<close> the value of \<open>k\<close>.\<close>

theorem set_command_stored:
  assumes "leveldb_store L" "is_word k" "is_word v" "length k < 128" "length v < 2 ^ 29"
    and "k \<notin> {vs_last_index_key, vs_last_term_key}"
  shows "\<exists>c f m. VstoreConsole_Parse (lit ''set '' @ k @ 0x20 # v) = Some c \<and>
    VstoreConsole_Execute BeforeReturn uid c = Some (Some f, Some (lit ''ok'')) \<and>
    delivers (parse_body raw now) f (FromClient m) \<and> cr_cmd m = kCmdPropose \<and>
    (\<forall>e a db. ae_value (le_append_entry e) = cr_data m \<longrightarrow>
      (\<exists>db'. VstoreSm_Apply L e a db = Some (0, db') \<and> VstoreSm_Get L k db' = (0, v)))"
proof -
  let ?kv = "\<lparr>kv_key = k, kv_value = v\<rparr>"
  obtain data f where data: "KV_ToString ?kv (KV_MaxBytes ?kv) = Some data"
    and run: "VstoreConsole_Execute BeforeReturn uid \<lparr>vc_cmd = lit ''set'', vc_key = k, vc_value = v, vc_leader_transfer = []\<rparr> =
      Some (Some f, Some (lit ''ok''))"
    and sent: "delivers (parse_body raw now) f (FromClient \<lparr>cr_uid = uid, cr_cmd = kCmdPropose, cr_data = data\<rparr>)"
    by (rule Execute_set [OF assms(4,5)])
  have "\<exists>db'. VstoreSm_Apply L e a db = Some (0, db') \<and> VstoreSm_Get L k db' = (0, v)"
    if "ae_value (le_append_entry e) = data" for e a db
  proof -
    have kv: "kv_entry e ?kv" using that data assms(4-6) by (simp add: kv_entry_def)
    obtain db' where db': "VstoreSm_Apply L e a db = Some (0, db')"
      by (rule that [OF VstoreSm_Apply_kv [OF kv]])
    with leveldb_store.Apply_read(4) [OF assms(1) kv db' assms(6)] show ?thesis by auto
  qed
  with Parse_set [OF assms(2,3)] run sent show ?thesis by (intro exI conjI) auto
qed

theorem set_command_stored_witness:
  "\<exists>c f. VstoreConsole_Parse (lit ''set k v'') = Some c \<and>
     VstoreConsole_Execute BeforeReturn 1 c = Some (Some f, Some (lit ''ok''))"
  using set_command_stored [OF alist_store.leveldb_store_axioms, where k = "lit ''k''" and v = "lit ''v''"
    and uid = 1 and raw = undefined and now = 0]
  by (auto simp: is_word_def lit_def vs_last_index_key_def vs_last_term_key_def)

text \<open>The store has no defence of its own keys: a user may set the key under which it keeps the
  last index, and after that the machine aborts when the replica asks for the index (at its next
  start at the latest) unless the value happens to have four bytes.\<close>

theorem reserved_key_aborts:
  assumes "leveldb_store L" "length v < 2 ^ 29" "length v \<noteq> 4"
    and "KV_ToString \<lparr>kv_key = vs_last_index_key, kv_value = v\<rparr>
      (KV_MaxBytes \<lparr>kv_key = vs_last_index_key, kv_value = v\<rparr>) = Some (ae_value (le_append_entry e))"
  shows "\<exists>db'. VstoreSm_Apply L e a db = Some (0, db') \<and> VstoreSm_LastIndex L db' = None"
proof -
  let ?kv = "\<lparr>kv_key = vs_last_index_key, kv_value = v\<rparr>"
  obtain sz where "KV_FromString \<lparr>kv_key = [], kv_value = []\<rparr> (ae_value (le_append_entry e) @ [0])
      (int (length (ae_value (le_append_entry e)))) = Some (?kv, sz)"
    using kv.decoded [where m = ?kv and old = "\<lparr>kv_key = [], kv_value = []\<rparr>" and r = "[0]", OF _ _ assms(4)] assms(2)
    by (auto simp: vs_last_index_key_def lit_def)
  then show ?thesis
    using assms(3) keys_distinct
    by (auto simp: VstoreSm_Apply_def VstoreSm_LastIndex_def leveldb_store.get_write [OF assms(1)])
qed

theorem reserved_key_aborts_witness:
  "\<exists>e db'. VstoreSm_Apply alist_store e (RaftAddr 1 2 3) [] = Some (0, db') \<and>
     VstoreSm_LastIndex alist_store db' = None"
proof -
  let ?kv = "\<lparr>kv_key = vs_last_index_key, kv_value = []\<rparr>"
  obtain data where data: "KV_ToString ?kv (KV_MaxBytes ?kv) = Some data"
    using kv.encoded [of ?kv] by (auto simp: vs_last_index_key_def lit_def)
  let ?e = "\<lparr>le_index = 1, le_pre_chk_all = 0, le_chk_ths = 0, le_chk_all = 0,
    le_append_entry = \<lparr>ae_term = 1, ae_type = kData, ae_value = data\<rparr>\<rparr>"
  show ?thesis
    using reserved_key_aborts [OF alist_store.leveldb_store_axioms, of "[]" ?e "RaftAddr 1 2 3" "[]"] data
    by (intro exI [of _ ?e]) auto
qed

end
