(* ===== verification/MetaCodec.thy ===== *)
theory MetaCodec
  imports Messages "HOL-Library.List_Lexorder"
begin

text \<open>
  The catalogue of the vector database (src/src/vectordb/metadata.h and metadata.cc), first part: the
  names of partitions and replicas, the structs \<^verbatim>\<open>Names\<close>, \<^verbatim>\<open>Replica\<close>, \<^verbatim>\<open>Partition\<close> and \<^verbatim>\<open>Table\<close>, and the
  encoding in which they are stored. Each struct implements the interface of the message codecs.
  Fields of type \<^verbatim>\<open>int32_t\<close> are integers here.
\<close>

section \<open>Ordered maps\<close>

text \<open>A \<^verbatim>\<open>std::map\<close> is an association list in the order of its keys; strings are compared as sequences
  of unsigned bytes. \<open>map_put k v m\<close> is \<^verbatim>\<open>m[k] = v\<close>.\<close>

fun map_put :: "'k::linorder \<Rightarrow> 'v \<Rightarrow> ('k \<times> 'v) list \<Rightarrow> ('k \<times> 'v) list" where
  "map_put k v [] = [(k, v)]"
| "map_put k v ((k', v') # m) =
     (if k < k' then (k, v) # (k', v') # m
      else if k = k' then (k, v) # m
      else (k', v') # map_put k v m)"

abbreviation ordered :: "('k::linorder \<times> 'v) list \<Rightarrow> bool" where
  "ordered m \<equiv> sorted_wrt (<) (map fst m)"

lemma map_of_map_put [simp]: "map_of (map_put k v m) = (map_of m)(k \<mapsto> v)"
  by (induction k v m rule: map_put.induct) (auto simp: fun_eq_iff)

lemma keys_map_put: "fst ` set (map_put k v m) = insert k (fst ` set m)"
  by (induction k v m rule: map_put.induct) auto

lemma ordered_map_put: "ordered m \<Longrightarrow> ordered (map_put k v m)"
proof (induction k v m rule: map_put.induct)
  case (2 k v k' v' m)
  have "\<forall>x \<in> fst ` set (map_put k v m). k' < x" if "k' < k" using 2(2) that by (auto simp: keys_map_put)
  with 2 show ?case by (cases k k' rule: linorder_cases) auto
qed simp

lemma map_put_last: "\<forall>x \<in> fst ` set m. x < k \<Longrightarrow> map_put k v m = m @ [(k, v)]"
  by (induction k v m rule: map_put.induct) auto

lemma fold_map_put_keys:
  assumes "sorted_wrt (<) ks"
  shows "fold (\<lambda>k. map_put k v) ks [] = map (\<lambda>k. (k, v)) ks"
  using assms by (induction ks rule: rev_induct) (auto simp: sorted_wrt_append map_put_last)

text \<open>Ordered maps with the same contents are equal.\<close>

lemma ordered_unique:
  assumes "ordered m" "ordered n" "map_of m = map_of n"
  shows "m = n"
proof -
  have d: "distinct (map fst m)" "distinct (map fst n)" "sorted (map fst m)" "sorted (map fst n)"
    using assms(1,2) by (auto simp: strict_sorted_iff)
  have eq: "set m = set n"
    using map_of_eq_Some_iff [OF d(1)] map_of_eq_Some_iff [OF d(2)] assms(3) by auto
  then have "inj_on fst (set m \<union> set n)" using d(1) by (simp add: distinct_map)
  from map_sorted_distinct_set_unique [OF this d(3,1,4,2) eq] show ?thesis .
qed

section \<open>Numbers in names\<close>

fun dec_nat :: "nat \<Rightarrow> bytes" where
  "dec_nat n = (if n < 10 then [0x30 + of_nat n] else dec_nat (n div 10) @ [0x30 + of_nat (n mod 10)])"

declare dec_nat.simps [simp del]

text \<open>\<^verbatim>\<open>%d\<close>\<close>

definition dec_int :: "int \<Rightarrow> bytes" where
  "dec_int i = (if i < 0 then 0x2D # dec_nat (nat (- i)) else dec_nat (nat i))"

definition is_digit :: "u8 \<Rightarrow> bool" where
  "is_digit b \<longleftrightarrow> 0x30 \<le> b \<and> b \<le> 0x39"

definition digits_value :: "bytes \<Rightarrow> int" where
  "digits_value = foldl (\<lambda>v d. 10 * v + (uint d - 0x30)) 0"

text \<open>\<^verbatim>\<open>atoi\<close>: white space, a sign and digits; what follows is ignored, and a number that does not fit
  is undefined.\<close>

definition atoi :: "bytes \<Rightarrow> int option" where
  "atoi s = (
     let s = dropWhile (\<lambda>b. b = 0x20 \<or> 0x09 \<le> b \<and> b \<le> 0x0D) (c_str s);
         (neg, s) = (case s of b # r \<Rightarrow> (if b = 0x2D then (True, r) else if b = 0x2B then (False, r) else (False, s))
                     | [] \<Rightarrow> (False, s));
         v = digits_value (takeWhile is_digit s);
         v = (if neg then - v else v)
     in do { check (- (2 ^ 31) \<le> v \<and> v < 2 ^ 31); Some v })"

section \<open>Names\<close>

text \<open>\<^verbatim>\<open>snprintf\<close> into a buffer of 256 characters.\<close>

definition PartitionName :: "bytes \<Rightarrow> int \<Rightarrow> bytes" where
  "PartitionName table_name partition_id = take 255 (c_str table_name @ lit ''#'' @ dec_int partition_id)"

definition ReplicaName :: "bytes \<Rightarrow> int \<Rightarrow> bytes" where
  "ReplicaName partition_name replica_id = take 255 (c_str partition_name @ lit ''#'' @ dec_int replica_id)"

definition ReplicaName3 :: "bytes \<Rightarrow> int \<Rightarrow> int \<Rightarrow> bytes" where
  "ReplicaName3 table_name partition_id replica_id = ReplicaName (PartitionName table_name partition_id) replica_id"

definition ParsePartitionName :: "bytes \<Rightarrow> (bytes \<times> int) option" where
  "ParsePartitionName partition_name = (
     let result = Split partition_name 0x23
     in do {
       check (length result = 2);
       partition_id \<leftarrow> atoi (result ! 1);
       Some (result ! 0, partition_id) })"

definition ParseReplicaName :: "bytes \<Rightarrow> (bytes \<times> int \<times> int) option" where
  "ParseReplicaName replica_name = (
     let result = Split replica_name 0x23
     in do {
       check (length result = 3);
       partition_id \<leftarrow> atoi (result ! 1);
       replica_id \<leftarrow> atoi (result ! 2);
       Some (result ! 0, partition_id, replica_id) })"

definition METADATA_TABLES_KEY :: bytes where
  "METADATA_TABLES_KEY = lit ''---|||---''"

section \<open>Codecs\<close>

definition put_i32 :: "int \<Rightarrow> bytes" where
  "put_i32 i = EncodeFixed32 (word_of_int i)"

definition get_i32 :: "cursor \<Rightarrow> (int \<times> cursor) option" where
  "get_i32 c = do { (u32, c) \<leftarrow> get32 c; Some (sint u32, c) }"

text \<open>The loops that read ids and names; the slice given to the decoder of a string ends at \<open>len\<close>.\<close>

fun get_ids :: "nat \<Rightarrow> cursor \<Rightarrow> (int list \<times> cursor) option" where
  "get_ids 0 c = Some ([], c)"
| "get_ids (Suc n) c = do {
     (i32, c) \<leftarrow> get_i32 c;
     (ids, c) \<leftarrow> get_ids n c;
     Some (i32 # ids, c) }"

fun get_names :: "int \<Rightarrow> nat \<Rightarrow> cursor \<Rightarrow> (bytes list \<times> cursor) option" where
  "get_names len 0 c = Some ([], c)"
| "get_names len (Suc n) c = do {
     (name, c) \<leftarrow> get_string [] (size_t (len - snd c)) c;
     (names, c) \<leftarrow> get_names len n c;
     Some (name # names, c) }"

record Names =
  nm_names :: "bytes list"

definition Names_MaxBytes :: "Names \<Rightarrow> int" where
  "Names_MaxBytes m = 4 + (\<Sum>name \<leftarrow> nm_names m. 2 * 4 + int (length name))"

definition Names_ToString :: "Names \<Rightarrow> int \<Rightarrow> bytes option" where
  "Names_ToString m len = (
     let bs = put_i32 (int (length (nm_names m))) @ concat (map EncodeString2 (nm_names m))
     in do { check (int (length bs) \<le> len); Some bs })"

definition Names_FromString :: "Names \<Rightarrow> bytes \<Rightarrow> int \<Rightarrow> (Names \<times> int) option" where
  "Names_FromString old ptr len = do {
     (table_num, c) \<leftarrow> get_i32 (ptr, 0);
     (names, c) \<leftarrow> get_names len (nat table_num) c;
     Some (\<lparr>nm_names = nm_names old @ names\<rparr>, snd c) }"

record Replica =
  rp_id :: int
  rp_name :: bytes
  rp_path :: bytes
  rp_dim :: int
  rp_uid :: u64
  rp_table_name :: bytes
  rp_table_uid :: u64
  rp_partition_name :: bytes
  rp_partition_uid :: u64

definition Replica_MaxBytes :: "Replica \<Rightarrow> int" where
  "Replica_MaxBytes m =
     4 + (2 * 4 + int (length (rp_name m))) + (2 * 4 + int (length (rp_path m))) + 4 + 8 +
     (2 * 4 + int (length (rp_table_name m))) + 8 + (2 * 4 + int (length (rp_partition_name m))) + 8"

definition Replica_ToString :: "Replica \<Rightarrow> int \<Rightarrow> bytes option" where
  "Replica_ToString m len = (
     let bs = put_i32 (rp_id m) @ EncodeString2 (rp_name m) @ EncodeString2 (rp_path m) @
              put_i32 (rp_dim m) @ EncodeFixed64 (rp_uid m) @ EncodeString2 (rp_table_name m) @
              EncodeFixed64 (rp_table_uid m) @ EncodeString2 (rp_partition_name m) @
              EncodeFixed64 (rp_partition_uid m)
     in do { check (int (length bs) \<le> len); Some bs })"

definition Replica_FromString :: "Replica \<Rightarrow> bytes \<Rightarrow> int \<Rightarrow> (Replica \<times> int) option" where
  "Replica_FromString old ptr len = do {
     (id, c) \<leftarrow> get_i32 (ptr, 0);
     (name, c) \<leftarrow> get_string [] (size_t (len - snd c)) c;
     (path, c) \<leftarrow> get_string [] (size_t (len - snd c)) c;
     (dim, c) \<leftarrow> get_i32 c;
     (uid, c) \<leftarrow> get64 c;
     (table_name, c) \<leftarrow> get_string [] (size_t (len - snd c)) c;
     (table_uid, c) \<leftarrow> get64 c;
     (partition_name, c) \<leftarrow> get_string [] (size_t (len - snd c)) c;
     (partition_uid, c) \<leftarrow> get64 c;
     Some (\<lparr>rp_id = id, rp_name = name, rp_path = path, rp_dim = dim, rp_uid = uid,
            rp_table_name = table_name, rp_table_uid = table_uid,
            rp_partition_name = partition_name, rp_partition_uid = partition_uid\<rparr>, snd c) }"

text \<open>The two maps of a partition hold shared pointers to the same replicas; a null pointer is \<open>None\<close>.\<close>

record Partition =
  pt_id :: int
  pt_name :: bytes
  pt_path :: bytes
  pt_replica_num :: int
  pt_dim :: int
  pt_uid :: u64
  pt_table_name :: bytes
  pt_table_uid :: u64
  pt_replicas_by_id :: "(int \<times> Replica option) list"
  pt_replicas_by_name :: "(bytes \<times> Replica option) list"

definition Partition_MaxBytes :: "Partition \<Rightarrow> int" where
  "Partition_MaxBytes m =
     4 + (2 * 4 + int (length (pt_name m))) + (2 * 4 + int (length (pt_path m))) + 4 + 4 + 8 +
     (2 * 4 + int (length (pt_table_name m))) + 8 +
     4 + (\<Sum>item \<leftarrow> pt_replicas_by_id m. 4) +
     4 + (\<Sum>item \<leftarrow> pt_replicas_by_name m. 2 * 4 + int (length (fst item)))"

definition Partition_ToString :: "Partition \<Rightarrow> int \<Rightarrow> bytes option" where
  "Partition_ToString m len = (
     let bs = put_i32 (pt_id m) @ EncodeString2 (pt_name m) @ EncodeString2 (pt_path m) @
              put_i32 (pt_replica_num m) @ put_i32 (pt_dim m) @ EncodeFixed64 (pt_uid m) @
              EncodeString2 (pt_table_name m) @ EncodeFixed64 (pt_table_uid m) @
              concat (map (\<lambda>item. put_i32 (fst item)) (pt_replicas_by_id m)) @
              concat (map (\<lambda>item. EncodeString2 (fst item)) (pt_replicas_by_name m))
     in do { check (int (length bs) \<le> len); Some bs })"

definition Partition_FromString :: "Partition \<Rightarrow> bytes \<Rightarrow> int \<Rightarrow> (Partition \<times> int) option" where
  "Partition_FromString old ptr len = do {
     (id, c) \<leftarrow> get_i32 (ptr, 0);
     (name, c) \<leftarrow> get_string [] (size_t (len - snd c)) c;
     (path, c) \<leftarrow> get_string [] (size_t (len - snd c)) c;
     (replica_num, c) \<leftarrow> get_i32 c;
     (dim, c) \<leftarrow> get_i32 c;
     (uid, c) \<leftarrow> get64 c;
     (table_name, c) \<leftarrow> get_string [] (size_t (len - snd c)) c;
     (table_uid, c) \<leftarrow> get64 c;
     (ids, c) \<leftarrow> get_ids (nat replica_num) c;
     (names, c) \<leftarrow> get_names len (nat replica_num) c;
     Some (\<lparr>pt_id = id, pt_name = name, pt_path = path, pt_replica_num = replica_num, pt_dim = dim,
            pt_uid = uid, pt_table_name = table_name, pt_table_uid = table_uid,
            pt_replicas_by_id = fold (\<lambda>i. map_put i None) ids (pt_replicas_by_id old),
            pt_replicas_by_name = fold (\<lambda>n. map_put n None) names (pt_replicas_by_name old)\<rparr>, snd c) }"

record Table =
  tb_name :: bytes
  tb_path :: bytes
  tb_partition_num :: int
  tb_replica_num :: int
  tb_dim :: int
  tb_uid :: u64
  tb_partitions_by_id :: "(int \<times> Partition option) list"
  tb_partitions_by_name :: "(bytes \<times> Partition option) list"

definition Table_MaxBytes :: "Table \<Rightarrow> int" where
  "Table_MaxBytes m =
     (2 * 4 + int (length (tb_name m))) + (2 * 4 + int (length (tb_path m))) + 4 + 4 + 4 + 8 +
     4 + (\<Sum>item \<leftarrow> tb_partitions_by_id m. 4) +
     4 + (\<Sum>item \<leftarrow> tb_partitions_by_name m. 2 * 4 + int (length (fst item)))"

definition Table_ToString :: "Table \<Rightarrow> int \<Rightarrow> bytes option" where
  "Table_ToString m len = (
     let bs = EncodeString2 (tb_name m) @ EncodeString2 (tb_path m) @
              put_i32 (tb_partition_num m) @ put_i32 (tb_replica_num m) @ put_i32 (tb_dim m) @
              EncodeFixed64 (tb_uid m) @
              concat (map (\<lambda>item. put_i32 (fst item)) (tb_partitions_by_id m)) @
              concat (map (\<lambda>item. EncodeString2 (fst item)) (tb_partitions_by_name m))
     in do { check (int (length bs) \<le> len); Some bs })"

definition Table_FromString :: "Table \<Rightarrow> bytes \<Rightarrow> int \<Rightarrow> (Table \<times> int) option" where
  "Table_FromString old ptr len = do {
     (name, c) \<leftarrow> get_string [] (size_t (len - snd (ptr, 0 :: int))) (ptr, 0);
     (path, c) \<leftarrow> get_string [] (size_t (len - snd c)) c;
     (partition_num, c) \<leftarrow> get_i32 c;
     (replica_num, c) \<leftarrow> get_i32 c;
     (dim, c) \<leftarrow> get_i32 c;
     (uid, c) \<leftarrow> get64 c;
     (ids, c) \<leftarrow> get_ids (nat partition_num) c;
     (names, c) \<leftarrow> get_names len (nat partition_num) c;
     Some (\<lparr>tb_name = name, tb_path = path, tb_partition_num = partition_num,
            tb_replica_num = replica_num, tb_dim = dim, tb_uid = uid,
            tb_partitions_by_id = fold (\<lambda>i. map_put i None) ids (tb_partitions_by_id old),
            tb_partitions_by_name = fold (\<lambda>n. map_put n None) names (tb_partitions_by_name old)\<rparr>, snd c) }"

section \<open>Reading back\<close>

abbreviation int32 :: "int \<Rightarrow> bool" where
  "int32 i \<equiv> - (2 ^ 31) \<le> i \<and> i < 2 ^ 31"

lemma put_i32_length [simp, codec_length]: "length (put_i32 i) = 4"
  by (simp add: put_i32_def)

lemma put_i32_not_Nil [simp]: "put_i32 i \<noteq> []"
  by (metis list.size(3) put_i32_length zero_neq_numeral)

lemma get_i32_put [simp, codec_simps]:
  assumes "int32 i"
  shows "get_i32 (put_i32 i @ r, used) = Some (i, r, used + 4)"
proof -
  have "signed_take_bit 31 i = i" using assms by (intro signed_take_bit_int_eq_self) simp_all
  then show ?thesis by (simp add: get_i32_def put_i32_def get32_def signed_of_int)
qed

lemma get_ids_put:
  assumes "list_all int32 is"
  shows "get_ids (length is) (concat (map put_i32 is) @ r, used) = Some (is, r, used + 4 * int (length is))"
  using assms by (induction "is" arbitrary: used) auto

abbreviation short :: "bytes \<Rightarrow> bool" where
  "short s \<equiv> length s < 128"

lemma length_names:
  "list_all short ss \<Longrightarrow> int (length (concat (map EncodeString2 ss))) = (\<Sum>s \<leftarrow> ss. 1 + int (length s))"
  by (induction ss) (auto simp: EncodeString2_length_short)

lemma get_names_put:
  assumes "list_all short ss" "0 \<le> used" "used + int (length (concat (map EncodeString2 ss))) \<le> len" "len < 2 ^ 31"
  shows "get_names len (length ss) (concat (map EncodeString2 ss) @ r, used) =
    Some (ss, r, used + int (length (concat (map EncodeString2 ss))))"
  using assms
proof (induction ss arbitrary: used)
  case (Cons s ss)
  have s: "length (EncodeString2 s) = 1 + length s" using Cons.prems(1) by (simp add: EncodeString2_length_short)
  have "get_string [] (size_t (len - used)) (EncodeString2 s @ concat (map EncodeString2 ss) @ r, used) =
      Some (s, concat (map EncodeString2 ss) @ r, used + 1 + int (length s))"
    using Cons.prems s by (intro get_string_short) (simp_all add: size_t_small)
  with Cons.IH [of "used + 1 + int (length s)"] Cons.prems s show ?case by simp
qed simp

lemma names_fit:
  assumes "list_all short ss"
  shows "int (length (concat (map EncodeString2 ss))) \<le> (\<Sum>s \<leftarrow> ss. 2 * 4 + int (length s))"
    "int (length (concat (map EncodeString2 ss))) \<le> 128 * int (length ss)"
  using assms by (induction ss) (auto simp: EncodeString2_length_short)

lemma length_ids [simp]: "length (concat (map (\<lambda>x. put_i32 (f x)) xs)) = 4 * length xs"
  by (induction xs) auto

lemma sum_list_4 [simp]: "(\<Sum>x \<leftarrow> xs. 4 :: int) = 4 * int (length xs)"
  by (induction xs) auto

text \<open>The objects the format can hold: short strings, and as many entries in the maps as the number
  field says. Of the maps only the keys are stored.\<close>

definition Names_ok :: "Names \<Rightarrow> bool" where
  "Names_ok m \<longleftrightarrow> list_all short (nm_names m) \<and> length (nm_names m) < 2 ^ 20"

definition Replica_ok :: "Replica \<Rightarrow> bool" where
  "Replica_ok m \<longleftrightarrow> int32 (rp_id m) \<and> int32 (rp_dim m) \<and> short (rp_name m) \<and> short (rp_path m) \<and>
     short (rp_table_name m) \<and> short (rp_partition_name m)"

definition children_ok :: "int \<Rightarrow> (int \<times> 'v) list \<Rightarrow> (bytes \<times> 'v) list \<Rightarrow> bool" where
  "children_ok n by_id by_name \<longleftrightarrow> n = int (length by_id) \<and> n = int (length by_name) \<and> n < 2 ^ 20 \<and>
     ordered by_id \<and> ordered by_name \<and>
     list_all int32 (map fst by_id) \<and> list_all short (map fst by_name)"

definition Partition_ok :: "Partition \<Rightarrow> bool" where
  "Partition_ok m \<longleftrightarrow> int32 (pt_id m) \<and> int32 (pt_dim m) \<and> short (pt_name m) \<and> short (pt_path m) \<and>
     short (pt_table_name m) \<and>
     children_ok (pt_replica_num m) (pt_replicas_by_id m) (pt_replicas_by_name m)"

definition Table_ok :: "Table \<Rightarrow> bool" where
  "Table_ok m \<longleftrightarrow> int32 (tb_replica_num m) \<and> int32 (tb_dim m) \<and> short (tb_name m) \<and> short (tb_path m) \<and>
     children_ok (tb_partition_num m) (tb_partitions_by_id m) (tb_partitions_by_name m)"

abbreviation keys_only :: "('k \<times> 'v option) list \<Rightarrow> ('k \<times> 'v option) list" where
  "keys_only m \<equiv> map (\<lambda>item. (fst item, None)) m"

definition Partition_stored :: "Partition \<Rightarrow> Partition" where
  "Partition_stored m = m\<lparr>pt_replicas_by_id := keys_only (pt_replicas_by_id m),
     pt_replicas_by_name := keys_only (pt_replicas_by_name m)\<rparr>"

definition Table_stored :: "Table \<Rightarrow> Table" where
  "Table_stored m = m\<lparr>tb_partitions_by_id := keys_only (tb_partitions_by_id m),
     tb_partitions_by_name := keys_only (tb_partitions_by_name m)\<rparr>"

text \<open>Both loops over the children.\<close>

lemma children_read:
  assumes "children_ok n by_id by_name" "0 \<le> used" "len < 2 ^ 31"
    and "used + int (length (concat (map (\<lambda>item. put_i32 (fst item)) by_id) @
      concat (map (\<lambda>item. EncodeString2 (fst item)) by_name))) \<le> len"
  obtains used' where
    "get_ids (nat n) (concat (map (\<lambda>item. put_i32 (fst item)) by_id) @
      concat (map (\<lambda>item. EncodeString2 (fst item)) by_name) @ r, used) =
      Some (map fst by_id, concat (map (\<lambda>item. EncodeString2 (fst item)) by_name) @ r, used')"
    "get_names len (nat n) (concat (map (\<lambda>item. EncodeString2 (fst item)) by_name) @ r, used') =
      Some (map fst by_name, r, used' + int (length (concat (map (\<lambda>item. EncodeString2 (fst item)) by_name))))"
    "fold (\<lambda>i. map_put i None) (map fst by_id) [] = keys_only by_id"
    "fold (\<lambda>i. map_put i None) (map fst by_name) [] = keys_only by_name" "used \<le> used'"
proof -
  have n: "nat n = length by_id" "nat n = length by_name" and o: "ordered by_id" "ordered by_name"
    and i: "list_all int32 (map fst by_id)" and s: "list_all short (map fst by_name)"
    using assms(1) by (auto simp: children_ok_def)
  let ?names = "concat (map (\<lambda>item. EncodeString2 (fst item)) by_name)"
  have names: "?names = concat (map EncodeString2 (map fst by_name))" by (simp add: o_def)
  have "get_ids (nat n) (concat (map (\<lambda>item. put_i32 (fst item)) by_id) @ ?names @ r, used) =
      Some (map fst by_id, ?names @ r, used + 4 * int (length by_id))"
    using get_ids_put [OF i, of "?names @ r" used] n(1) by (simp add: o_def)
  moreover have "get_names len (nat n) (?names @ r, used + 4 * int (length by_id)) =
      Some (map fst by_name, r, used + 4 * int (length by_id) + int (length ?names))"
    using get_names_put [OF s, of "used + 4 * int (length by_id)" len r] assms(2-4) n(2) by (simp add: o_def)
  moreover have "fold (\<lambda>i. map_put i None) (map fst by_id) [] = keys_only by_id"
    "fold (\<lambda>i. map_put i None) (map fst by_name) [] = keys_only by_name"
    by (simp_all add: fold_map_put_keys [OF o(1)] fold_map_put_keys [OF o(2)])
  ultimately show ?thesis using that [of "used + 4 * int (length by_id)"] by simp
qed

lemma children_fit:
  assumes "children_ok n by_id by_name"
  shows "int (length (concat (map (\<lambda>item. EncodeString2 (fst item)) by_name))) \<le>
      (\<Sum>item \<leftarrow> by_name. 2 * 4 + int (length (fst item)))"
    "int (length (concat (map (\<lambda>item. EncodeString2 (fst item)) by_name))) \<le> 2 ^ 27" "length by_id < 2 ^ 20"
  using names_fit [of "map fst by_name"] assms by (auto simp: children_ok_def o_def)

section \<open>The structs implement the interface\<close>

interpretation names: message_codec Names_MaxBytes Names_ToString Names_FromString Names_ok
    "\<lambda>m. nm_names m = []" "\<lambda>m. m" 0
proof (unfold_locales, goal_cases)
  case (1 m)
  then show ?case
    using names_fit [of "nm_names m"]
    by (auto simp: Names_ok_def Names_MaxBytes_def Names_ToString_def Let_def)
next
  case (2 m old bs r)
  then show ?case
    using names_fit [of "nm_names m"] get_names_put [of "nm_names m" 4 "int (length bs)" r]
    by (auto simp: Names_ok_def Names_ToString_def Names_FromString_def Let_def split: if_splits)
qed

interpretation replica: message_codec Replica_MaxBytes Replica_ToString Replica_FromString Replica_ok
    "\<lambda>_. True" "\<lambda>m. m" 0
proof (unfold_locales, goal_cases)
  case (1 m)
  then show ?case
    by (simp add: Replica_ok_def Replica_MaxBytes_def Replica_ToString_def Let_def EncodeString2_length_short)
next
  case (2 m old bs r)
  then show ?case
    by (auto simp: Replica_ok_def Replica_ToString_def Replica_FromString_def Let_def
        get_string_short EncodeString2_length_short size_t_small get64_def split: if_splits)
qed

interpretation partition: message_codec Partition_MaxBytes Partition_ToString Partition_FromString Partition_ok
    "\<lambda>m. pt_replicas_by_id m = [] \<and> pt_replicas_by_name m = []" Partition_stored 0
proof (unfold_locales, goal_cases)
  case (1 m)
  then show ?case
    using children_fit [of "pt_replica_num m" "pt_replicas_by_id m" "pt_replicas_by_name m"]
    by (simp add: Partition_ok_def Partition_MaxBytes_def Partition_ToString_def Let_def EncodeString2_length_short)
next
  case (2 m old bs r)
  let ?ids = "concat (map (\<lambda>item. put_i32 (fst item)) (pt_replicas_by_id m))"
  let ?names = "concat (map (\<lambda>item. EncodeString2 (fst item)) (pt_replicas_by_name m))"
  let ?used = "int (31 + length (pt_name m) + length (pt_path m) + length (pt_table_name m))"
  have ch: "children_ok (pt_replica_num m) (pt_replicas_by_id m) (pt_replicas_by_name m)" and i: "int32 (pt_replica_num m)"
    using 2(1) by (auto simp: Partition_ok_def children_ok_def)
  have bs: "bs = put_i32 (pt_id m) @ EncodeString2 (pt_name m) @ EncodeString2 (pt_path m) @
      put_i32 (pt_replica_num m) @ put_i32 (pt_dim m) @ EncodeFixed64 (pt_uid m) @
      EncodeString2 (pt_table_name m) @ EncodeFixed64 (pt_table_uid m) @ ?ids @ ?names"
    using 2(3) by (auto simp: Partition_ToString_def Let_def split: if_splits)
  have len: "int (length bs) = ?used + int (length (?ids @ ?names))" "int (length bs) < 2 ^ 31"
    using 2(1) children_fit [OF ch] unfolding bs by (simp_all add: Partition_ok_def EncodeString2_length_short)
  obtain used' where kids:
    "get_ids (nat (pt_replica_num m)) (?ids @ ?names @ r, ?used) = Some (map fst (pt_replicas_by_id m), ?names @ r, used')"
    "get_names (int (length bs)) (nat (pt_replica_num m)) (?names @ r, used') =
      Some (map fst (pt_replicas_by_name m), r, used' + int (length ?names))"
    "fold (\<lambda>i. map_put i None) (map fst (pt_replicas_by_id m)) [] = keys_only (pt_replicas_by_id m)"
    "fold (\<lambda>i. map_put i None) (map fst (pt_replicas_by_name m)) [] = keys_only (pt_replicas_by_name m)"
    "?used \<le> used'"
    by (rule children_read [OF ch, of "?used" "int (length bs)" r]) (use len in auto)
  show ?case
    using 2(1,2) i kids len
    by (simp add: Partition_FromString_def bs Partition_ok_def Partition_stored_def get_string_short
        EncodeString2_length_short size_t_small get64_def algebra_simps)
qed

interpretation table: message_codec Table_MaxBytes Table_ToString Table_FromString Table_ok
    "\<lambda>m. tb_partitions_by_id m = [] \<and> tb_partitions_by_name m = []" Table_stored 0
proof (unfold_locales, goal_cases)
  case (1 m)
  then show ?case
    using children_fit [of "tb_partition_num m" "tb_partitions_by_id m" "tb_partitions_by_name m"]
    by (auto simp: Table_ok_def Table_MaxBytes_def Table_ToString_def Let_def EncodeString2_length_short
        EncodeString2_def EncodeVarint32_def)
next
  case (2 m old bs r)
  let ?ids = "concat (map (\<lambda>item. put_i32 (fst item)) (tb_partitions_by_id m))"
  let ?names = "concat (map (\<lambda>item. EncodeString2 (fst item)) (tb_partitions_by_name m))"
  let ?used = "int (22 + length (tb_name m) + length (tb_path m))"
  have ch: "children_ok (tb_partition_num m) (tb_partitions_by_id m) (tb_partitions_by_name m)"
    and i: "int32 (tb_partition_num m)"
    using 2(1) by (auto simp: Table_ok_def children_ok_def)
  have bs: "bs = EncodeString2 (tb_name m) @ EncodeString2 (tb_path m) @
      put_i32 (tb_partition_num m) @ put_i32 (tb_replica_num m) @ put_i32 (tb_dim m) @
      EncodeFixed64 (tb_uid m) @ ?ids @ ?names"
    using 2(3) by (auto simp: Table_ToString_def Let_def split: if_splits)
  have len: "int (length bs) = ?used + int (length (?ids @ ?names))" "int (length bs) < 2 ^ 31"
    using 2(1) children_fit [OF ch] unfolding bs by (simp_all add: Table_ok_def EncodeString2_length_short)
  obtain used' where kids:
    "get_ids (nat (tb_partition_num m)) (?ids @ ?names @ r, ?used) = Some (map fst (tb_partitions_by_id m), ?names @ r, used')"
    "get_names (int (length bs)) (nat (tb_partition_num m)) (?names @ r, used') =
      Some (map fst (tb_partitions_by_name m), r, used' + int (length ?names))"
    "fold (\<lambda>i. map_put i None) (map fst (tb_partitions_by_id m)) [] = keys_only (tb_partitions_by_id m)"
    "fold (\<lambda>i. map_put i None) (map fst (tb_partitions_by_name m)) [] = keys_only (tb_partitions_by_name m)"
    "?used \<le> used'"
    by (rule children_read [OF ch, of "?used" "int (length bs)" r]) (use len in auto)
  show ?case
    using 2(1,2) i kids len
    by (simp add: Table_FromString_def bs Table_ok_def Table_stored_def get_string_short
        EncodeString2_length_short size_t_small get64_def algebra_simps)
qed

section \<open>Names are unambiguous\<close>

lemma uint_digit: "n < 10 \<Longrightarrow> uint (0x30 + of_nat n :: u8) = 0x30 + int n"
  by (simp add: uint_word_ariths unsigned_of_nat take_bit_eq_mod)

lemma is_digit_of_nat: "n < 10 \<Longrightarrow> is_digit (0x30 + of_nat n)"
  by (simp add: is_digit_def word_le_def uint_digit)

lemma dec_nat_digits: "list_all is_digit (dec_nat n)"
  by (induction n rule: dec_nat.induct) (subst dec_nat.simps, simp add: is_digit_of_nat)

lemma dec_nat_value: "digits_value (dec_nat n) = int n"
proof (induction n rule: dec_nat.induct)
  case (1 n)
  have step: "digits_value (xs @ [d]) = 10 * digits_value xs + (uint d - 0x30)" for xs d
    by (simp add: digits_value_def)
  show ?case
  proof (cases "n < 10")
    case True
    then show ?thesis by (subst dec_nat.simps) (simp add: digits_value_def uint_digit)
  next
    case False
    then have "digits_value (dec_nat n) = 10 * int (n div 10) + int (n mod 10)"
      using 1 by (subst dec_nat.simps) (simp add: step uint_digit)
    also have "\<dots> = int n" by (metis div_mult_mod_eq mult.commute of_nat_add of_nat_mult of_nat_numeral)
    finally show ?thesis .
  qed
qed

lemma dec_nat_nonempty: "dec_nat n \<noteq> []"
  by (subst dec_nat.simps) simp

lemma dec_nat_length: "n < 10 ^ k \<Longrightarrow> 0 < k \<Longrightarrow> length (dec_nat n) \<le> k"
proof (induction k arbitrary: n)
  case (Suc k)
  show ?case
  proof (cases "n < 10")
    case True
    then show ?thesis by (subst dec_nat.simps) simp
  next
    case False
    then have "0 < k" "n div 10 < 10 ^ k" using Suc.prems by (cases k, auto)
    from Suc.IH [OF this(2,1)] False show ?thesis by (subst dec_nat.simps) simp
  qed
qed simp

text \<open>The characters of a number.\<close>

lemma digit_chars: "b \<in> set (dec_nat n) \<Longrightarrow> b \<noteq> 0x23 \<and> b \<noteq> 0 \<and> is_digit b"
  using dec_nat_digits [of n] by (auto simp: list_all_iff is_digit_def word_le_def)

lemma atoi_dec:
  assumes "0 \<le> i" "i < 2 ^ 31"
  shows "atoi (dec_int i) = Some i"
proof -
  let ?d = "dec_nat (nat i)"
  have c: "c_str ?d = ?d" unfolding c_str_def by (rule takeWhile_eq_all_conv [THEN iffD2]) (auto dest: digit_chars)
  obtain b ds where d: "?d = b # ds" using dec_nat_nonempty [of "nat i"] by (cases ?d) auto
  have b: "is_digit b" using digit_chars [of b "nat i"] d by auto
  have "dropWhile (\<lambda>b. b = 0x20 \<or> 0x09 \<le> b \<and> b \<le> 0x0D) ?d = ?d"
    using b d by (auto simp: is_digit_def word_le_def)
  moreover have "b \<noteq> 0x2D" "b \<noteq> 0x2B" using b by (auto simp: is_digit_def word_le_def)
  moreover have "takeWhile is_digit ?d = ?d"
    using dec_nat_digits [of "nat i"] by (simp add: takeWhile_eq_all_conv list_all_iff)
  ultimately show ?thesis
    using assms c d dec_nat_value [of "nat i"] by (simp add: atoi_def dec_int_def Let_def)
qed

definition table_name_ok :: "bytes \<Rightarrow> bool" where
  "table_name_ok t \<longleftrightarrow> t \<noteq> [] \<and> 0x23 \<notin> set t \<and> 0 \<notin> set t \<and> length t < 64 \<and> t \<noteq> METADATA_TABLES_KEY"

abbreviation small_id :: "int \<Rightarrow> bool" where
  "small_id i \<equiv> 0 \<le> i \<and> i < 2 ^ 20"

lemma dec_int_small: "small_id i \<Longrightarrow> length (dec_int i) \<le> 7"
  using dec_nat_length [of "nat i" 7] by (auto simp: dec_int_def)

lemma dec_int_chars: "0 \<le> i \<Longrightarrow> dec_int i \<noteq> [] \<and> 0x23 \<notin> set (dec_int i) \<and> 0 \<notin> set (dec_int i)"
  using digit_chars [of _ "nat i"] dec_nat_nonempty [of "nat i"] by (auto simp: dec_int_def)

lemma c_str_id: "0 \<notin> set s \<Longrightarrow> c_str s = s"
  unfolding c_str_def by (rule takeWhile_eq_all_conv [THEN iffD2]) auto

lemma PartitionName_eq:
  assumes "table_name_ok t" "small_id i"
  shows "PartitionName t i = t @ 0x23 # dec_int i"
  using assms dec_int_small [of i] by (auto simp: PartitionName_def table_name_ok_def c_str_id lit_def)

lemma ReplicaName_eq:
  assumes "table_name_ok t" "small_id i" "small_id j"
  shows "ReplicaName (PartitionName t i) j = t @ 0x23 # dec_int i @ 0x23 # dec_int j"
  using assms dec_int_small [of i] dec_int_small [of j] dec_int_chars [of i] dec_int_chars [of j]
  by (auto simp: ReplicaName_def PartitionName_eq table_name_ok_def c_str_id lit_def)

lemma Split_names:
  assumes "table_name_ok t" "small_id i" "small_id j"
  shows "Split t 0x23 = [t]" "Split (PartitionName t i) 0x23 = [t, dec_int i]"
    "Split (ReplicaName (PartitionName t i) j) 0x23 = [t, dec_int i, dec_int j]"
  using assms dec_int_chars [of i] dec_int_chars [of j]
  unfolding ReplicaName_eq [OF assms] unfolding PartitionName_eq [OF assms(1,2)]
  by (simp_all add: Split_def table_name_ok_def Split_word)

lemma Parse_names:
  assumes "table_name_ok t" "small_id i" "small_id j"
  shows "ParsePartitionName (PartitionName t i) = Some (t, i)"
    "ParseReplicaName (ReplicaName (PartitionName t i) j) = Some (t, i, j)"
  using Split_names [OF assms] assms atoi_dec [of i] atoi_dec [of j]
  by (simp_all add: ParsePartitionName_def ParseReplicaName_def)

lemma names_short:
  assumes "table_name_ok t" "small_id i" "small_id j"
  shows "length (PartitionName t i) \<le> length t + 8" "length (ReplicaName (PartitionName t i) j) \<le> length t + 16"
  using assms dec_int_small [of i] dec_int_small [of j]
  unfolding ReplicaName_eq [OF assms] unfolding PartitionName_eq [OF assms(1,2)] by auto

end
