(* ===== verification/Metadata.thy ===== *)
theory Metadata
  imports MetaCodec Leveldb
begin

text \<open>
  The catalogue of the vector database, second part: the class \<^verbatim>\<open>Metadata\<close> of
  src/src/vectordb/metadata.cc, which creates tables with their partitions and replicas, finds them
  by name, writes the whole catalogue to LevelDB in one batch and reads it again at the start.

  Tables, partitions and replicas are shared objects; \<^verbatim>\<open>Load\<close> links an object into its parent before
  it fills in the children. No one looks at it in between, so the model links the finished object.
\<close>

section \<open>State\<close>

record TableParam =
  tp_name :: bytes
  tp_path :: bytes
  tp_partition_num :: int
  tp_replica_num :: int
  tp_dim :: int

text \<open>The counters \<^verbatim>\<open>table_uid\<close>, \<^verbatim>\<open>partition_uid\<close> and \<^verbatim>\<open>replica_uid\<close> are static members, that is,
  variables of the process.\<close>

record uids =
  ui_table :: u64
  ui_partition :: u64
  ui_replica :: u64

definition process_start :: uids where
  "process_start = \<lparr>ui_table = 0, ui_partition = 0, ui_replica = 0\<rparr>"

record 'db Metadata =
  md_tables :: "(bytes \<times> Table) list"
  md_db :: 'db
  md_uids :: uids

section \<open>Creating tables\<close>

definition CreateReplica :: "Replica \<Rightarrow> Replica" where
  "CreateReplica param = param"

text \<open>\<^verbatim>\<open>param.partition_uid\<close> in \<^verbatim>\<open>CreatePartition\<close> is the static counter, not a field of the partition.\<close>

definition create_replica :: "Partition \<Rightarrow> int \<Rightarrow> Partition \<times> uids \<Rightarrow> Partition \<times> uids" where
  "create_replica param i = (\<lambda>(p, u). (
     let name = ReplicaName (pt_name param) i;
         r = CreateReplica
           \<lparr>rp_id = i, rp_name = name, rp_path = pt_path param @ lit ''/'' @ name, rp_dim = pt_dim param,
            rp_uid = ui_replica u, rp_table_name = pt_table_name param, rp_table_uid = pt_table_uid param,
            rp_partition_name = pt_name param, rp_partition_uid = ui_partition u\<rparr>
     in (p\<lparr>pt_replicas_by_id := map_put (rp_id r) (Some r) (pt_replicas_by_id p),
           pt_replicas_by_name := map_put (rp_name r) (Some r) (pt_replicas_by_name p)\<rparr>,
         u\<lparr>ui_replica := ui_replica u + 1\<rparr>)))"

definition CreatePartition :: "Partition \<Rightarrow> uids \<Rightarrow> Partition \<times> uids" where
  "CreatePartition param u = fold (create_replica param) [0 .. pt_replica_num param - 1] (param, u)"

definition create_partition :: "int \<Rightarrow> Table \<times> uids \<Rightarrow> Table \<times> uids" where
  "create_partition i = (\<lambda>(t, u). (
     let name = PartitionName (tb_name t) i;
         (p, u) = CreatePartition
           \<lparr>pt_id = i, pt_name = name, pt_path = tb_path t @ lit ''/'' @ name,
            pt_replica_num = tb_replica_num t, pt_dim = tb_dim t, pt_uid = ui_partition u,
            pt_table_name = tb_name t, pt_table_uid = tb_uid t,
            pt_replicas_by_id = [], pt_replicas_by_name = []\<rparr>
           (u\<lparr>ui_partition := ui_partition u + 1\<rparr>)
     in (t\<lparr>tb_partitions_by_id := map_put (pt_id p) (Some p) (tb_partitions_by_id t),
           tb_partitions_by_name := map_put (pt_name p) (Some p) (tb_partitions_by_name t)\<rparr>, u)))"

definition CreateTable :: "TableParam \<Rightarrow> uids \<Rightarrow> Table \<times> uids" where
  "CreateTable param u = (
     let t = \<lparr>tb_name = tp_name param, tb_path = tp_path param @ lit ''/'' @ tp_name param,
              tb_partition_num = tp_partition_num param, tb_replica_num = tp_replica_num param,
              tb_dim = tp_dim param, tb_uid = ui_table u,
              tb_partitions_by_id = [], tb_partitions_by_name = []\<rparr>
     in fold create_partition [0 .. tb_partition_num t - 1] (t, u\<lparr>ui_table := ui_table u + 1\<rparr>))"

section \<open>Writing\<close>

text \<open>Collecting the writes of a loop, any of which may abort.\<close>

fun concat_opt :: "('a \<Rightarrow> 'b list option) \<Rightarrow> 'a list \<Rightarrow> 'b list option" where
  "concat_opt f [] = Some []"
| "concat_opt f (x # xs) = do { ys \<leftarrow> f x; zs \<leftarrow> concat_opt f xs; Some (ys @ zs) }"

definition persist_replica :: "Replica option \<Rightarrow> batch_op list option" where
  "persist_replica x = do {
     r \<leftarrow> x;
     value \<leftarrow> Replica_ToString r (Replica_MaxBytes r);
     Some [Put (rp_name r) value] }"

definition persist_partition :: "Partition option \<Rightarrow> batch_op list option" where
  "persist_partition x = do {
     p \<leftarrow> x;
     value \<leftarrow> Partition_ToString p (Partition_MaxBytes p);
     ops \<leftarrow> concat_opt (\<lambda>item. persist_replica (snd item)) (pt_replicas_by_name p);
     Some (Put (pt_name p) value # ops) }"

definition persist_table :: "Table \<Rightarrow> batch_op list option" where
  "persist_table t = do {
     value \<leftarrow> Table_ToString t (Table_MaxBytes t);
     ops \<leftarrow> concat_opt (\<lambda>item. persist_partition (snd item)) (tb_partitions_by_name t);
     Some (Put (tb_name t) value # ops) }"

definition Metadata_Persist :: "'db leveldb \<Rightarrow> 'db Metadata \<Rightarrow> 'db Metadata option" where
  "Metadata_Persist L md = do {
     let tables = \<lparr>nm_names = map fst (md_tables md)\<rparr>;
     value \<leftarrow> Names_ToString tables (Names_MaxBytes tables);
     ops \<leftarrow> concat_opt (\<lambda>item. persist_table (snd item)) (md_tables md);
     Some (md\<lparr>md_db := ldb_write L True (Put METADATA_TABLES_KEY value # ops) (md_db md)\<rparr>) }"

section \<open>Reading\<close>

definition Table_empty :: Table where
  "Table_empty = \<lparr>tb_name = [], tb_path = [], tb_partition_num = 0, tb_replica_num = 0, tb_dim = 0, tb_uid = 0,
     tb_partitions_by_id = [], tb_partitions_by_name = []\<rparr>"

definition Partition_empty :: Partition where
  "Partition_empty = \<lparr>pt_id = 0, pt_name = [], pt_path = [], pt_replica_num = 0, pt_dim = 0, pt_uid = 0,
     pt_table_name = [], pt_table_uid = 0, pt_replicas_by_id = [], pt_replicas_by_name = []\<rparr>"

definition Replica_empty :: Replica where
  "Replica_empty = \<lparr>rp_id = 0, rp_name = [], rp_path = [], rp_dim = 0, rp_uid = 0, rp_table_name = [],
     rp_table_uid = 0, rp_partition_name = [], rp_partition_uid = 0\<rparr>"

text \<open>The outer \<open>None\<close> is an abort, the inner one the null pointer. The numbers of a fresh object are
  overwritten before they are used.\<close>

definition Metadata_LoadTable :: "'db leveldb \<Rightarrow> 'db \<Rightarrow> bytes \<Rightarrow> Table option option" where
  "Metadata_LoadTable L db name =
     (case ldb_get L db name of
        Some value \<Rightarrow> do {
          (t, size) \<leftarrow> Table_FromString Table_empty (value @ [0]) (int (length value));
          Some (Some t) }
      | None \<Rightarrow> Some None)"

definition Metadata_LoadPartition :: "'db leveldb \<Rightarrow> 'db \<Rightarrow> bytes \<Rightarrow> Partition option option" where
  "Metadata_LoadPartition L db name =
     (case ldb_get L db name of
        Some value \<Rightarrow> do {
          (p, size) \<leftarrow> Partition_FromString Partition_empty (value @ [0]) (int (length value));
          Some (Some p) }
      | None \<Rightarrow> Some None)"

definition Metadata_LoadReplica :: "'db leveldb \<Rightarrow> 'db \<Rightarrow> bytes \<Rightarrow> Replica option option" where
  "Metadata_LoadReplica L db name =
     (case ldb_get L db name of
        Some value \<Rightarrow> do {
          (r, size) \<leftarrow> Replica_FromString Replica_empty (value @ [0]) (int (length value));
          Some (Some r) }
      | None \<Rightarrow> Some None)"

fun load_replicas :: "'db leveldb \<Rightarrow> 'db \<Rightarrow> bytes list \<Rightarrow> Partition \<Rightarrow> Partition option" where
  "load_replicas L db [] p = Some p"
| "load_replicas L db (name # names) p = do {
     x \<leftarrow> Metadata_LoadReplica L db name;
     r \<leftarrow> x;
     load_replicas L db names
       (p\<lparr>pt_replicas_by_name := map_put (rp_name r) (Some r) (pt_replicas_by_name p),
          pt_replicas_by_id := map_put (rp_id r) (Some r) (pt_replicas_by_id p)\<rparr>) }"

fun load_partitions :: "'db leveldb \<Rightarrow> 'db \<Rightarrow> bytes list \<Rightarrow> Table \<Rightarrow> Table option" where
  "load_partitions L db [] t = Some t"
| "load_partitions L db (name # names) t = do {
     x \<leftarrow> Metadata_LoadPartition L db name;
     p \<leftarrow> x;
     p \<leftarrow> load_replicas L db (map fst (pt_replicas_by_name p)) p;
     load_partitions L db names
       (t\<lparr>tb_partitions_by_name := map_put (pt_name p) (Some p) (tb_partitions_by_name t),
          tb_partitions_by_id := map_put (pt_id p) (Some p) (tb_partitions_by_id t)\<rparr>) }"

fun load_tables :: "'db leveldb \<Rightarrow> bytes list \<Rightarrow> 'db Metadata \<Rightarrow> 'db Metadata option" where
  "load_tables L [] md = Some md"
| "load_tables L (name # names) md = do {
     x \<leftarrow> Metadata_LoadTable L (md_db md) name;
     t \<leftarrow> x;
     t \<leftarrow> load_partitions L (md_db md) (map fst (tb_partitions_by_name t)) t;
     load_tables L names (md\<lparr>md_tables := AList.update (tb_name t) t (md_tables md)\<rparr>) }"

definition Metadata_Load :: "'db leveldb \<Rightarrow> 'db Metadata \<Rightarrow> 'db Metadata option" where
  "Metadata_Load L md =
     (case ldb_get L (md_db md) METADATA_TABLES_KEY of
        Some value \<Rightarrow> do {
          (t, size) \<leftarrow> Names_FromString \<lparr>nm_names = []\<rparr> (value @ [0]) (int (length value));
          load_tables L (nm_names t) md }
      | None \<Rightarrow> Some md)"

text \<open>The constructor opens the database (\<open>db\<close> is what is on disk, or a new database) and loads it.\<close>

definition Metadata_new :: "'db leveldb \<Rightarrow> uids \<Rightarrow> 'db \<Rightarrow> 'db Metadata option" where
  "Metadata_new L u db = Metadata_Load L \<lparr>md_tables = [], md_db = db, md_uids = u\<rparr>"

section \<open>Operations\<close>

definition Metadata_GetTable :: "bytes \<Rightarrow> 'db Metadata \<Rightarrow> Table option" where
  "Metadata_GetTable name md = map_of (md_tables md) name"

definition Metadata_AddTable :: "'db leveldb \<Rightarrow> TableParam \<Rightarrow> 'db Metadata \<Rightarrow> (int \<times> 'db Metadata) option" where
  "Metadata_AddTable L param md =
     (case Metadata_GetTable (tp_name param) md of
        Some _ \<Rightarrow> Some (-1, md)
      | None \<Rightarrow> do {
          let (t, u) = CreateTable param (md_uids md);
          md \<leftarrow> Metadata_Persist L (md\<lparr>md_tables := AList.update (tb_name t) t (md_tables md), md_uids := u\<rparr>);
          Some (0, md) })"

definition Metadata_GetPartition :: "bytes \<Rightarrow> 'db Metadata \<Rightarrow> Partition option option" where
  "Metadata_GetPartition name md = do {
     (table_name, partition_id) \<leftarrow> ParsePartitionName name;
     Some (case Metadata_GetTable table_name md of
             Some t \<Rightarrow> (case map_of (tb_partitions_by_id t) partition_id of Some p \<Rightarrow> p | None \<Rightarrow> None)
           | None \<Rightarrow> None) }"

definition Metadata_GetReplica :: "bytes \<Rightarrow> 'db Metadata \<Rightarrow> Replica option option" where
  "Metadata_GetReplica name md = do {
     (table_name, partition_id, replica_id) \<leftarrow> ParseReplicaName name;
     partition \<leftarrow> Metadata_GetPartition (PartitionName table_name partition_id) md;
     Some (case partition of
             Some p \<Rightarrow> (case map_of (pt_replicas_by_id p) replica_id of Some r \<Rightarrow> r | None \<Rightarrow> None)
           | None \<Rightarrow> None) }"

text \<open>The loops that call a function for every table, partition or replica, as the sequence of the
  objects they call it for; \<open>None\<close> when a null pointer is used on the way.\<close>

definition ForEachTable :: "'db Metadata \<Rightarrow> Table list" where
  "ForEachTable md = map snd (md_tables md)"

definition ForEachPartitionInTable :: "bytes \<Rightarrow> 'db Metadata \<Rightarrow> Partition option list" where
  "ForEachPartitionInTable table_name md =
     (case Metadata_GetTable table_name md of
        Some t \<Rightarrow> map snd (tb_partitions_by_name t)
      | None \<Rightarrow> [])"

definition ForEachPartition :: "'db Metadata \<Rightarrow> Partition option list" where
  "ForEachPartition md = concat (map (\<lambda>t. ForEachPartitionInTable (tb_name t) md) (ForEachTable md))"

definition ForEachReplicaInPartition :: "bytes \<Rightarrow> 'db Metadata \<Rightarrow> Replica list option" where
  "ForEachReplicaInPartition partition_name md = do {
     partition \<leftarrow> Metadata_GetPartition partition_name md;
     Some (case partition of
             Some p \<Rightarrow> List.map_filter snd (pt_replicas_by_id p)
           | None \<Rightarrow> []) }"

definition ForEachReplicaInTable :: "bytes \<Rightarrow> 'db Metadata \<Rightarrow> Replica list option" where
  "ForEachReplicaInTable table_name md =
     concat_opt (\<lambda>x. do { p \<leftarrow> x; ForEachReplicaInPartition (pt_name p) md })
       (ForEachPartitionInTable table_name md)"

definition ForEachReplica :: "'db Metadata \<Rightarrow> Replica list option" where
  "ForEachReplica md = concat_opt (\<lambda>t. ForEachReplicaInTable (tb_name t) md) (ForEachTable md)"

definition Metadata_Tables :: "'db Metadata \<Rightarrow> Names \<Rightarrow> Names" where
  "Metadata_Tables md names = names\<lparr>nm_names := nm_names names @ map fst (md_tables md)\<rparr>"

definition Metadata_Partitions :: "'db Metadata \<Rightarrow> Names \<Rightarrow> Names option" where
  "Metadata_Partitions md names = do {
     ns \<leftarrow> concat_opt (\<lambda>x. do { p \<leftarrow> x; Some [pt_name p] }) (ForEachPartition md);
     Some (names\<lparr>nm_names := nm_names names @ ns\<rparr>) }"

definition Metadata_Replicas :: "'db Metadata \<Rightarrow> Names \<Rightarrow> Names option" where
  "Metadata_Replicas md names = do {
     rs \<leftarrow> ForEachReplica md;
     Some (names\<lparr>nm_names := nm_names names @ map rp_name rs\<rparr>) }"

section \<open>Two maps over the same objects\<close>

text \<open>A parent finds its children by id and by name: both maps are in order and hold the same objects.\<close>

definition linked :: "('v \<Rightarrow> int) \<Rightarrow> ('v \<Rightarrow> bytes) \<Rightarrow> (int \<times> 'v option) list \<Rightarrow> (bytes \<times> 'v option) list \<Rightarrow> bool" where
  "linked ident name by_id by_name \<longleftrightarrow> ordered by_id \<and> ordered by_name \<and>
     (\<forall>(i, x) \<in> set by_id. \<exists>v. x = Some v \<and> ident v = i \<and> (name v, Some v) \<in> set by_name) \<and>
     (\<forall>(n, x) \<in> set by_name. \<exists>v. x = Some v \<and> name v = n \<and> (ident v, Some v) \<in> set by_id)"

abbreviation children :: "('k \<times> 'v option) list \<Rightarrow> 'v list" where
  "children m \<equiv> List.map_filter snd m"

lemma ordered_distinct: "ordered m \<Longrightarrow> distinct (map fst m)"
  by (simp add: strict_sorted_iff)

lemma set_map_put: "k \<notin> fst ` set m \<Longrightarrow> set (map_put k v m) = insert (k, v) (set m)"
  by (induction k v m rule: map_put.induct) auto

lemma length_map_put: "k \<notin> fst ` set m \<Longrightarrow> length (map_put k v m) = Suc (length m)"
  by (induction k v m rule: map_put.induct) auto

lemma linked_put:
  assumes "linked ident name by_id by_name" "ident v \<notin> fst ` set by_id" "name v \<notin> fst ` set by_name"
  shows "linked ident name (map_put (ident v) (Some v) by_id) (map_put (name v) (Some v) by_name)"
  using assms unfolding linked_def
  by (simp add: set_map_put ordered_map_put) (fastforce simp: linked_def)

lemma linked_children:
  assumes "linked ident name by_id by_name"
  shows "v \<in> set (children by_name) \<longleftrightarrow> (name v, Some v) \<in> set by_name"
    "(name v, Some v) \<in> set by_name \<longleftrightarrow> (ident v, Some v) \<in> set by_id"
    "map name (children by_name) = map fst by_name"
proof -
  have *: "\<exists>v. x = Some v \<and> name v = n \<and> (ident v, Some v) \<in> set by_id" if "(n, x) \<in> set by_name" for n x
    using assms that by (auto simp: linked_def)
  then show "v \<in> set (children by_name) \<longleftrightarrow> (name v, Some v) \<in> set by_name"
    by (force simp: List.map_filter_def)
  show "(name v, Some v) \<in> set by_name \<longleftrightarrow> (ident v, Some v) \<in> set by_id"
    using assms by (fastforce simp: linked_def)
  have "\<forall>(n, x) \<in> set by_name. \<exists>v. x = Some v \<and> name v = n" using * by blast
  then show "map name (children by_name) = map fst by_name"
    by (induction by_name) (auto simp: List.map_filter_def)
qed

lemma fold_put_ordered: "ordered m \<Longrightarrow> ordered (fold (\<lambda>v. map_put (key v) (Some v)) vs m)"
  by (induction vs arbitrary: m) (simp_all add: ordered_map_put)

text \<open>Putting all children back into maps that have only the keys restores the maps.\<close>

lemma fold_put_keys:
  assumes "ordered m" "\<forall>(k, x) \<in> set m. \<exists>v. x = Some v \<and> key v = k" "set vs = set (children m)"
  shows "fold (\<lambda>v. map_put (key v) (Some v)) vs (keys_only m) = m"
proof (rule ordered_unique)
  have keys: "map fst (keys_only m) = map fst m" by simp
  show "ordered m" by (rule assms(1))
  show "ordered (fold (\<lambda>v. map_put (key v) (Some v)) vs (keys_only m))"
    by (rule fold_put_ordered) (use assms(1) in \<open>simp add: o_def\<close>)
  have vs: "v \<in> set vs \<longleftrightarrow> (key v, Some v) \<in> set m" for v
    using assms(2,3) by (force simp: List.map_filter_def)
  have get: "(k, x) \<in> set m \<longleftrightarrow> map_of m k = Some x" for k x
    using map_of_eq_Some_iff [OF ordered_distinct [OF assms(1)]] by auto
  have "map_of (fold (\<lambda>v. map_put (key v) (Some v)) us n) k =
      (if k \<in> key ` set us then map_of m k else map_of n k)" if "set us \<subseteq> set vs" for us n k
    using that
  proof (induction us arbitrary: n)
    case (Cons u us)
    then have "map_of m (key u) = Some (Some u)" using vs get by auto
    with Cons show ?case by auto
  qed simp
  note this [OF order_refl, of "keys_only m"]
  moreover have "map_of (keys_only m) k = None" if "k \<notin> key ` set vs" "map_of m k = None" for k
    using that by (simp add: map_of_eq_None_iff image_image)
  moreover have "map_of m k = None" if "k \<notin> key ` set vs" for k
  proof (rule ccontr)
    assume "map_of m k \<noteq> None"
    then obtain x where x: "(k, x) \<in> set m" using map_of_SomeD by fastforce
    then obtain v where "x = Some v" "key v = k" using assms(2) by blast
    with x vs that show False by force
  qed
  ultimately show "map_of (fold (\<lambda>v. map_put (key v) (Some v)) vs (keys_only m)) = map_of m"
    by (intro ext) (metis (no_types, lifting))
qed

lemma relink:
  assumes "linked ident name by_id by_name"
  shows "fold (\<lambda>v. map_put (ident v) (Some v)) (children by_name) (keys_only by_id) = by_id"
    "fold (\<lambda>v. map_put (name v) (Some v)) (children by_name) (keys_only by_name) = by_name"
proof -
  have "set (children by_name) = set (children by_id)"
    using assms by (force simp: linked_def List.map_filter_def)
  with assms show "fold (\<lambda>v. map_put (ident v) (Some v)) (children by_name) (keys_only by_id) = by_id"
    by (intro fold_put_keys) (auto simp: linked_def)
  show "fold (\<lambda>v. map_put (name v) (Some v)) (children by_name) (keys_only by_name) = by_name"
    using assms by (intro fold_put_keys) (auto simp: linked_def)
qed

end
