(* ===== verification/MetaStore.thy ===== *)
theory MetaStore
  imports Metadata
begin

text \<open>
  What the catalogue promises: which catalogues are well formed, that creating a table keeps them so,
  that the batch \<^verbatim>\<open>Persist\<close> writes holds the whole catalogue, and that \<^verbatim>\<open>Load\<close> rebuilds it.
\<close>

section \<open>Well-formed catalogues\<close>

definition replica_wf :: "bytes \<Rightarrow> Replica \<Rightarrow> bool" where
  "replica_wf pname r \<longleftrightarrow> Replica_ok r \<and> small_id (rp_id r) \<and> rp_name r = ReplicaName pname (rp_id r)"

definition partition_wf :: "bytes \<Rightarrow> Partition \<Rightarrow> bool" where
  "partition_wf tname p \<longleftrightarrow> Partition_ok p \<and> small_id (pt_id p) \<and> pt_name p = PartitionName tname (pt_id p) \<and>
     linked rp_id rp_name (pt_replicas_by_id p) (pt_replicas_by_name p) \<and>
     (\<forall>r. (rp_name r, Some r) \<in> set (pt_replicas_by_name p) \<longrightarrow> replica_wf (pt_name p) r)"

definition table_wf :: "Table \<Rightarrow> bool" where
  "table_wf t \<longleftrightarrow> table_name_ok (tb_name t) \<and> Table_ok t \<and>
     linked pt_id pt_name (tb_partitions_by_id t) (tb_partitions_by_name t) \<and>
     (\<forall>p. (pt_name p, Some p) \<in> set (tb_partitions_by_name t) \<longrightarrow> partition_wf (tb_name t) p)"

definition meta_wf :: "'db Metadata \<Rightarrow> bool" where
  "meta_wf md \<longleftrightarrow> distinct (map fst (md_tables md)) \<and> length (md_tables md) < 2 ^ 20 \<and>
     (\<forall>(n, t) \<in> set (md_tables md). tb_name t = n \<and> table_wf t)"

section \<open>What is stored\<close>

definition stored_replica :: "(bytes \<rightharpoonup> bytes) \<Rightarrow> Replica \<Rightarrow> bool" where
  "stored_replica g r \<longleftrightarrow> g (rp_name r) = Replica_ToString r (Replica_MaxBytes r)"

definition stored_partition :: "(bytes \<rightharpoonup> bytes) \<Rightarrow> Partition \<Rightarrow> bool" where
  "stored_partition g p \<longleftrightarrow> g (pt_name p) = Partition_ToString p (Partition_MaxBytes p) \<and>
     (\<forall>r. (rp_name r, Some r) \<in> set (pt_replicas_by_name p) \<longrightarrow> stored_replica g r)"

definition stored_table :: "(bytes \<rightharpoonup> bytes) \<Rightarrow> Table \<Rightarrow> bool" where
  "stored_table g t \<longleftrightarrow> g (tb_name t) = Table_ToString t (Table_MaxBytes t) \<and>
     (\<forall>p. (pt_name p, Some p) \<in> set (tb_partitions_by_name t) \<longrightarrow> stored_partition g p)"

definition stored_meta :: "(bytes \<rightharpoonup> bytes) \<Rightarrow> (bytes \<times> Table) list \<Rightarrow> bool" where
  "stored_meta g tables \<longleftrightarrow>
     g METADATA_TABLES_KEY = Names_ToString \<lparr>nm_names = map fst tables\<rparr> (Names_MaxBytes \<lparr>nm_names = map fst tables\<rparr>) \<and>
     (\<forall>(n, t) \<in> set tables. stored_table g t)"

section \<open>Loading what is stored\<close>

lemma LoadReplica_stored:
  assumes "stored_replica (ldb_get L db) r" "replica_wf pname r"
  shows "Metadata_LoadReplica L db (rp_name r) = Some (Some r)"
proof -
  have ok: "Replica_ok r" using assms(2) by (simp add: replica_wf_def)
  obtain v where v: "Replica_ToString r (Replica_MaxBytes r) = Some v" using replica.encoded [OF ok] by blast
  obtain sz where "Replica_FromString Replica_empty (v @ [0]) (int (length v)) = Some (r, sz)"
    using replica.decoded [OF ok _ v, where old = Replica_empty and r = "[0]"] by auto
  with assms(1) v show ?thesis by (simp add: Metadata_LoadReplica_def stored_replica_def)
qed

lemma load_replicas_fold:
  assumes "\<forall>r \<in> set rs. Metadata_LoadReplica L db (rp_name r) = Some (Some r)"
  shows "load_replicas L db (map rp_name rs) p =
    Some (p\<lparr>pt_replicas_by_name := fold (\<lambda>r. map_put (rp_name r) (Some r)) rs (pt_replicas_by_name p),
            pt_replicas_by_id := fold (\<lambda>r. map_put (rp_id r) (Some r)) rs (pt_replicas_by_id p)\<rparr>)"
  using assms by (induction rs arbitrary: p) auto

lemma LoadPartition_stored:
  assumes "stored_partition (ldb_get L db) p" "partition_wf tname p"
  shows "Metadata_LoadPartition L db (pt_name p) = Some (Some (Partition_stored p))"
    "load_replicas L db (map fst (pt_replicas_by_name (Partition_stored p))) (Partition_stored p) = Some p"
proof -
  have ok: "Partition_ok p" and link: "linked rp_id rp_name (pt_replicas_by_id p) (pt_replicas_by_name p)"
    using assms(2) by (simp_all add: partition_wf_def)
  obtain v where v: "Partition_ToString p (Partition_MaxBytes p) = Some v" using partition.encoded [OF ok] by blast
  obtain sz where "Partition_FromString Partition_empty (v @ [0]) (int (length v)) = Some (Partition_stored p, sz)"
    using partition.decoded [OF ok _ v, where old = Partition_empty and r = "[0]"] by (auto simp: Partition_empty_def)
  with assms(1) v show "Metadata_LoadPartition L db (pt_name p) = Some (Some (Partition_stored p))"
    by (simp add: Metadata_LoadPartition_def stored_partition_def)
  have names: "map fst (pt_replicas_by_name (Partition_stored p)) = map rp_name (children (pt_replicas_by_name p))"
    using linked_children(3) [OF link] by (simp add: Partition_stored_def o_def)
  have "\<forall>r \<in> set (children (pt_replicas_by_name p)). Metadata_LoadReplica L db (rp_name r) = Some (Some r)"
  proof
    fix r assume "r \<in> set (children (pt_replicas_by_name p))"
    then have r: "(rp_name r, Some r) \<in> set (pt_replicas_by_name p)" using linked_children(1) [OF link] by simp
    have "stored_replica (ldb_get L db) r" using assms(1) r by (simp add: stored_partition_def)
    moreover have "replica_wf (pt_name p) r" using assms(2) [unfolded partition_wf_def] r by blast
    ultimately show "Metadata_LoadReplica L db (rp_name r) = Some (Some r)" by (rule LoadReplica_stored)
  qed
  from load_replicas_fold [OF this, of "Partition_stored p"]
  show "load_replicas L db (map fst (pt_replicas_by_name (Partition_stored p))) (Partition_stored p) = Some p"
    unfolding names using relink [OF link] by (simp add: Partition_stored_def)
qed

lemma load_partitions_fold:
  assumes "\<forall>p \<in> set ps. stored_partition (ldb_get L db) p \<and> partition_wf tname p"
  shows "load_partitions L db (map pt_name ps) t =
    Some (t\<lparr>tb_partitions_by_name := fold (\<lambda>p. map_put (pt_name p) (Some p)) ps (tb_partitions_by_name t),
            tb_partitions_by_id := fold (\<lambda>p. map_put (pt_id p) (Some p)) ps (tb_partitions_by_id t)\<rparr>)"
  using assms
proof (induction ps arbitrary: t)
  case (Cons p ps)
  then have "stored_partition (ldb_get L db) p" "partition_wf tname p" by simp_all
  note load = LoadPartition_stored [OF this]
  show ?case using Cons load by simp
qed simp

lemma LoadTable_stored:
  assumes "stored_table (ldb_get L db) t" "table_wf t"
  shows "Metadata_LoadTable L db (tb_name t) = Some (Some (Table_stored t))"
    "load_partitions L db (map fst (tb_partitions_by_name (Table_stored t))) (Table_stored t) = Some t"
proof -
  have ok: "Table_ok t" and link: "linked pt_id pt_name (tb_partitions_by_id t) (tb_partitions_by_name t)"
    using assms(2) by (simp_all add: table_wf_def)
  obtain v where v: "Table_ToString t (Table_MaxBytes t) = Some v" using table.encoded [OF ok] by blast
  obtain sz where "Table_FromString Table_empty (v @ [0]) (int (length v)) = Some (Table_stored t, sz)"
    using table.decoded [OF ok _ v, where old = Table_empty and r = "[0]"] by (auto simp: Table_empty_def)
  with assms(1) v show "Metadata_LoadTable L db (tb_name t) = Some (Some (Table_stored t))"
    by (simp add: Metadata_LoadTable_def stored_table_def)
  have names: "map fst (tb_partitions_by_name (Table_stored t)) = map pt_name (children (tb_partitions_by_name t))"
    using linked_children(3) [OF link] by (simp add: Table_stored_def o_def)
  have "\<forall>p \<in> set (children (tb_partitions_by_name t)). stored_partition (ldb_get L db) p \<and> partition_wf (tb_name t) p"
    using assms linked_children(1) [OF link] by (auto simp: table_wf_def stored_table_def)
  from load_partitions_fold [OF this, of "Table_stored t"]
  show "load_partitions L db (map fst (tb_partitions_by_name (Table_stored t))) (Table_stored t) = Some t"
    unfolding names using relink [OF link] by (simp add: Table_stored_def)
qed

lemma update_fresh: "k \<notin> fst ` set m \<Longrightarrow> AList.update k v m = m @ [(k, v)]"
  by (induction m) auto

lemma load_tables_stored:
  assumes "\<forall>(n, t) \<in> set ts. tb_name t = n \<and> table_wf t \<and> stored_table (ldb_get L (md_db md)) t"
    and "distinct (map fst (md_tables md @ ts))"
  shows "load_tables L (map fst ts) md = Some (md\<lparr>md_tables := md_tables md @ ts\<rparr>)"
  using assms
proof (induction ts arbitrary: md)
  case (Cons x ts)
  obtain n t where x: "x = (n, t)" by (cases x)
  have t: "tb_name t = n" "stored_table (ldb_get L (md_db md)) t" "table_wf t" using Cons.prems(1) x by auto
  have load: "Metadata_LoadTable L (md_db md) n = Some (Some (Table_stored t))"
    "load_partitions L (md_db md) (map fst (tb_partitions_by_name (Table_stored t))) (Table_stored t) = Some t"
    using LoadTable_stored [OF t(2,3)] t(1) by simp_all
  have fresh: "n \<notin> fst ` set (md_tables md)" using Cons.prems(2) x by auto
  have "load_tables L (map fst ts) (md\<lparr>md_tables := md_tables md @ [(n, t)]\<rparr>) =
      Some (md\<lparr>md_tables := (md_tables md @ [(n, t)]) @ ts\<rparr>)"
    using Cons.IH [of "md\<lparr>md_tables := md_tables md @ [(n, t)]\<rparr>"] Cons.prems x by auto
  with load t(1) x fresh show ?case by (simp add: update_fresh)
qed simp

lemma Load_stored:
  assumes "meta_wf md" "stored_meta (ldb_get L (md_db md)) (md_tables md)"
  shows "Metadata_new L u (md_db md) = Some \<lparr>md_tables = md_tables md, md_db = md_db md, md_uids = u\<rparr>"
proof -
  let ?n = "\<lparr>nm_names = map fst (md_tables md)\<rparr>"
  have ok: "Names_ok ?n"
    using assms(1) by (auto simp: Names_ok_def meta_wf_def list_all_iff table_wf_def table_name_ok_def)
  obtain v where v: "Names_ToString ?n (Names_MaxBytes ?n) = Some v" using names.encoded [OF ok] by blast
  obtain sz where dec: "Names_FromString \<lparr>nm_names = []\<rparr> (v @ [0]) (int (length v)) = Some (?n, sz)"
    using names.decoded [OF ok _ v, where old = "\<lparr>nm_names = []\<rparr>" and r = "[0]"] by auto
  have "load_tables L (map fst (md_tables md)) \<lparr>md_tables = [], md_db = md_db md, md_uids = u\<rparr> =
      Some (\<lparr>md_tables = [] @ md_tables md, md_db = md_db md, md_uids = u\<rparr>)"
    using load_tables_stored [of "md_tables md" L "\<lparr>md_tables = [], md_db = md_db md, md_uids = u\<rparr>"] assms
    by (auto simp: meta_wf_def stored_meta_def)
  with assms(2) v dec show ?thesis by (simp add: Metadata_new_def Metadata_Load_def stored_meta_def)
qed

section \<open>Storing\<close>

lemma concat_opt_collect:
  assumes "\<And>x. x \<in> set xs \<Longrightarrow> \<exists>ys. f x = Some ys \<and> set ys = F x"
  shows "\<exists>ys. concat_opt f xs = Some ys \<and> set ys = (\<Union>x \<in> set xs. F x)"
  using assms
proof (induction xs)
  case (Cons x xs)
  obtain ys where "f x = Some ys" "set ys = F x" using Cons.prems by auto
  moreover obtain zs where "concat_opt f xs = Some zs" "set zs = (\<Union>x \<in> set xs. F x)" using Cons by auto
  ultimately show ?case by auto
qed simp

text \<open>The writes of a replica, a partition and a table.\<close>

definition replica_ops :: "Replica \<Rightarrow> batch_op set" where
  "replica_ops r = {Put (rp_name r) (the (Replica_ToString r (Replica_MaxBytes r)))}"

definition partition_ops :: "Partition \<Rightarrow> batch_op set" where
  "partition_ops p = insert (Put (pt_name p) (the (Partition_ToString p (Partition_MaxBytes p))))
     (\<Union>r \<in> set (children (pt_replicas_by_name p)). replica_ops r)"

definition table_ops :: "Table \<Rightarrow> batch_op set" where
  "table_ops t = insert (Put (tb_name t) (the (Table_ToString t (Table_MaxBytes t))))
     (\<Union>p \<in> set (children (tb_partitions_by_name t)). partition_ops p)"

lemma persist_replica_ops:
  assumes "replica_wf pname r"
  shows "\<exists>ops. persist_replica (Some r) = Some ops \<and> set ops = replica_ops r"
  using replica.encoded [of r] assms by (auto simp: replica_wf_def persist_replica_def replica_ops_def)

lemma UN_children:
  assumes "\<forall>(n, x) \<in> set m. x \<noteq> None"
  shows "(\<Union>item \<in> set m. F (the (snd item))) = (\<Union>v \<in> set (children m). F v)"
  using assms by (force simp: List.map_filter_def)

lemma persist_partition_ops:
  assumes "partition_wf tname p"
  shows "\<exists>ops. persist_partition (Some p) = Some ops \<and> set ops = partition_ops p"
proof -
  have ok: "Partition_ok p" and link: "linked rp_id rp_name (pt_replicas_by_id p) (pt_replicas_by_name p)"
    using assms by (simp_all add: partition_wf_def)
  have some: "\<forall>(n, x) \<in> set (pt_replicas_by_name p). \<exists>r. x = Some r \<and> n = rp_name r"
    using link by (fastforce simp: linked_def)
  have each: "\<exists>ops. persist_replica (snd item) = Some ops \<and> set ops = replica_ops (the (snd item))"
    if item: "item \<in> set (pt_replicas_by_name p)" for item
  proof -
    obtain r where "item = (rp_name r, Some r)" using some item by (cases item) auto
    with item assms persist_replica_ops [of "pt_name p" r] show ?thesis by (auto simp: partition_wf_def)
  qed
  obtain ops where "concat_opt (\<lambda>item. persist_replica (snd item)) (pt_replicas_by_name p) = Some ops"
    "set ops = (\<Union>item \<in> set (pt_replicas_by_name p). replica_ops (the (snd item)))"
    using concat_opt_collect [of "pt_replicas_by_name p" "\<lambda>item. persist_replica (snd item)"
      "\<lambda>item. replica_ops (the (snd item))"] each by auto
  moreover have "\<forall>(n, x) \<in> set (pt_replicas_by_name p). x \<noteq> None" using some by auto
  ultimately show ?thesis
    using partition.encoded [OF ok] by (auto simp: persist_partition_def partition_ops_def UN_children)
qed

lemma persist_table_ops:
  assumes "table_wf t"
  shows "\<exists>ops. persist_table t = Some ops \<and> set ops = table_ops t"
proof -
  have ok: "Table_ok t" and link: "linked pt_id pt_name (tb_partitions_by_id t) (tb_partitions_by_name t)"
    using assms by (simp_all add: table_wf_def)
  have some: "\<forall>(n, x) \<in> set (tb_partitions_by_name t). \<exists>p. x = Some p \<and> n = pt_name p"
    using link by (fastforce simp: linked_def)
  have each: "\<exists>ops. persist_partition (snd item) = Some ops \<and> set ops = partition_ops (the (snd item))"
    if item: "item \<in> set (tb_partitions_by_name t)" for item
  proof -
    obtain p where "item = (pt_name p, Some p)" using some item by (cases item) auto
    with item assms persist_partition_ops [of "tb_name t" p] show ?thesis by (auto simp: table_wf_def)
  qed
  obtain ops where "concat_opt (\<lambda>item. persist_partition (snd item)) (tb_partitions_by_name t) = Some ops"
    "set ops = (\<Union>item \<in> set (tb_partitions_by_name t). partition_ops (the (snd item)))"
    using concat_opt_collect [of "tb_partitions_by_name t" "\<lambda>item. persist_partition (snd item)"
      "\<lambda>item. partition_ops (the (snd item))"] each by auto
  moreover have "\<forall>(n, x) \<in> set (tb_partitions_by_name t). x \<noteq> None" using some by auto
  ultimately show ?thesis
    using table.encoded [OF ok] by (auto simp: persist_table_def table_ops_def UN_children)
qed

text \<open>A batch of puts that agree on every key leaves each of its values.\<close>

lemma fold_Put_get:
  assumes "\<forall>op \<in> set ops. \<exists>k v. op = Put k v" "Put k v \<in> set ops" "\<forall>w. Put k w \<in> set ops \<longrightarrow> w = v"
  shows "fold apply_op ops g k = Some v"
  using assms
proof (induction ops arbitrary: g rule: rev_induct)
  case (snoc op ops)
  obtain k' v' where op: "op = Put k' v'" using snoc.prems(1) by (metis in_set_conv_decomp)
  show ?case
  proof (cases "k' = k")
    case True
    then have "v' = v" using snoc.prems(3) op by (metis in_set_conv_decomp)
    with True op show ?thesis by simp
  next
    case False
    have "fold apply_op ops g k = Some v"
    proof (rule snoc.IH)
      show "\<forall>op \<in> set ops. \<exists>k v. op = Put k v" using snoc.prems(1) by (metis Un_iff set_append)
      show "Put k v \<in> set ops" using snoc.prems(2) False op by simp
      show "\<forall>w. Put k w \<in> set ops \<longrightarrow> w = v" using snoc.prems(3) by (metis Un_iff set_append)
    qed
    then show ?thesis using op False by simp
  qed
qed simp

text \<open>The key of a write tells what it is about.\<close>

lemma dec_int_inj:
  assumes "small_id i" "small_id j" "dec_int i = dec_int j"
  shows "i = j"
proof -
  have "Some i = atoi (dec_int i)" by (rule atoi_dec [symmetric]) (use assms(1) in simp_all)
  also have "\<dots> = Some j" unfolding assms(3) by (rule atoi_dec) (use assms(2) in simp_all)
  finally show ?thesis by simp
qed

lemma linked_unique:
  assumes "linked ident name by_id by_name" "(name v, Some v) \<in> set by_name" "(name w, Some w) \<in> set by_name"
    and "name v = name w"
  shows "v = w"
  using assms ordered_distinct [of by_name]
  by (metis (mono_tags, lifting) linked_def map_of_is_SomeI option.inject)

lemma table_op_cases:
  assumes "table_wf t" "Put k v \<in> table_ops t"
  obtains (table) "Split k 0x23 = [tb_name t]" "k = tb_name t" "Table_ToString t (Table_MaxBytes t) = Some v"
  | (partition) p where "(pt_name p, Some p) \<in> set (tb_partitions_by_name t)" "k = pt_name p"
      "Split k 0x23 = [tb_name t, dec_int (pt_id p)]" "Partition_ToString p (Partition_MaxBytes p) = Some v"
  | (replica) p r where "(pt_name p, Some p) \<in> set (tb_partitions_by_name t)"
      "(rp_name r, Some r) \<in> set (pt_replicas_by_name p)" "k = rp_name r"
      "Split k 0x23 = [tb_name t, dec_int (pt_id p), dec_int (rp_id r)]"
      "Replica_ToString r (Replica_MaxBytes r) = Some v"
proof -
  have ok: "table_name_ok (tb_name t)" "Table_ok t"
    and link: "linked pt_id pt_name (tb_partitions_by_id t) (tb_partitions_by_name t)"
    using assms(1) by (simp_all add: table_wf_def)
  have t: "Split (tb_name t) 0x23 = [tb_name t]" by (rule Split_names(1) [OF ok(1), of 0 0]) simp_all
  consider "k = tb_name t" "v = the (Table_ToString t (Table_MaxBytes t))"
    | p where "p \<in> set (children (tb_partitions_by_name t))" "Put k v \<in> partition_ops p"
    using assms(2) by (auto simp: table_ops_def)
  then show ?thesis
  proof cases
    case 1
    then show ?thesis using table t table.encoded [OF ok(2)] by auto
  next
    case (2 p)
    have p: "(pt_name p, Some p) \<in> set (tb_partitions_by_name t)" using 2(1) linked_children(1) [OF link] by simp
    have wf: "partition_wf (tb_name t) p" using assms(1) p by (simp add: table_wf_def)
    have pok: "Partition_ok p" "small_id (pt_id p)" "pt_name p = PartitionName (tb_name t) (pt_id p)"
      and plink: "linked rp_id rp_name (pt_replicas_by_id p) (pt_replicas_by_name p)"
      using wf unfolding partition_wf_def by blast+
    consider "k = pt_name p" "v = the (Partition_ToString p (Partition_MaxBytes p))"
      | r where "r \<in> set (children (pt_replicas_by_name p))" "Put k v \<in> replica_ops r"
      using 2(2) by (auto simp: partition_ops_def)
    then show ?thesis
    proof cases
      case 1
      have "Split k 0x23 = [tb_name t, dec_int (pt_id p)]"
        using Split_names(2) [OF ok(1) pok(2), of 0] pok(3) 1(1) by simp
      with 1 p partition.encoded [OF pok(1)] show ?thesis by (intro partition) auto
    next
      case (2 r)
      have r: "(rp_name r, Some r) \<in> set (pt_replicas_by_name p)" using 2(1) linked_children(1) [OF plink] by simp
      have rok: "Replica_ok r" "small_id (rp_id r)" "rp_name r = ReplicaName (pt_name p) (rp_id r)"
        using wf r unfolding partition_wf_def replica_wf_def by blast+
      have kv: "k = rp_name r" "v = the (Replica_ToString r (Replica_MaxBytes r))"
        using 2(2) by (auto simp: replica_ops_def)
      have "Split k 0x23 = [tb_name t, dec_int (pt_id p), dec_int (rp_id r)]"
        using Split_names(3) [OF ok(1) pok(2) rok(2)] rok(3) pok(3) kv(1) by simp
      with kv p r replica.encoded [OF rok(1)] show ?thesis by (intro replica) auto
    qed
  qed
qed

lemma table_ops_functional:
  assumes "table_wf t" "Put k v \<in> table_ops t" "Put k w \<in> table_ops t"
  shows "v = w"
proof -
  have link: "linked pt_id pt_name (tb_partitions_by_id t) (tb_partitions_by_name t)"
    using assms(1) by (simp add: table_wf_def)
  have pid: "small_id (pt_id p)" "pt_name p = PartitionName (tb_name t) (pt_id p)"
    and plink: "linked rp_id rp_name (pt_replicas_by_id p) (pt_replicas_by_name p)"
    if "(pt_name p, Some p) \<in> set (tb_partitions_by_name t)" for p
    using assms(1) that unfolding table_wf_def partition_wf_def by blast+
  from assms(1,2) show ?thesis
  proof (cases rule: table_op_cases)
    case v: table
    from assms(1,3) show ?thesis by (cases rule: table_op_cases) (use v in auto)
  next
    case v: (partition p)
    from assms(1,3) show ?thesis
    proof (cases rule: table_op_cases)
      case w: (partition q)
      have "p = q" by (rule linked_unique [OF link v(1) w(1)]) (use v w in simp)
      with v w show ?thesis by (metis option.inject)
    qed (use v in auto)
  next
    case v: (replica p r)
    from assms(1,3) show ?thesis
    proof (cases rule: table_op_cases)
      case w: (replica q s)
      have "pt_id p = pt_id q" by (rule dec_int_inj [OF pid(1) [OF v(1)] pid(1) [OF w(1)]]) (use v w in simp)
      then have "p = q" using pid(2) [OF v(1)] pid(2) [OF w(1)] by (intro linked_unique [OF link v(1) w(1)]) simp
      moreover from this have "r = s" using v w by (intro linked_unique [OF plink [OF v(1)]]) simp_all
      ultimately show ?thesis using v w by (metis option.inject)
    qed (use v in auto)
  qed
qed

lemma table_ops_head:
  assumes "table_wf t" "Put k v \<in> table_ops t"
  shows "hd (Split k 0x23) = tb_name t" "k \<noteq> METADATA_TABLES_KEY"
proof -
  have key: "Split METADATA_TABLES_KEY 0x23 = [METADATA_TABLES_KEY]"
    by (simp add: METADATA_TABLES_KEY_def lit_def Split_def)
  from assms show "hd (Split k 0x23) = tb_name t" by (cases rule: table_op_cases) simp_all
  from assms show "k \<noteq> METADATA_TABLES_KEY"
    by (cases rule: table_op_cases) (use assms(1) key in \<open>auto simp: table_wf_def table_name_ok_def\<close>)
qed

lemma ops_are_puts: "op \<in> table_ops t \<Longrightarrow> \<exists>k v. op = Put k v"
  by (auto simp: table_ops_def partition_ops_def replica_ops_def)

lemma stored_from_ops:
  assumes "table_wf t" "\<And>k v. Put k v \<in> table_ops t \<Longrightarrow> g k = Some v"
  shows "stored_table g t"
proof -
  have ok: "Table_ok t" and link: "linked pt_id pt_name (tb_partitions_by_id t) (tb_partitions_by_name t)"
    using assms(1) by (simp_all add: table_wf_def)
  have "stored_partition g p" if p: "(pt_name p, Some p) \<in> set (tb_partitions_by_name t)" for p
  proof -
    have wf: "partition_wf (tb_name t) p" using assms(1) p by (simp add: table_wf_def)
    have pok: "Partition_ok p" and plink: "linked rp_id rp_name (pt_replicas_by_id p) (pt_replicas_by_name p)"
      using wf by (simp_all add: partition_wf_def)
    have ops: "partition_ops p \<subseteq> table_ops t" using linked_children(1) [OF link] p by (auto simp: table_ops_def)
    have "stored_replica g r" if r: "(rp_name r, Some r) \<in> set (pt_replicas_by_name p)" for r
    proof -
      have rok: "Replica_ok r" using wf r unfolding partition_wf_def replica_wf_def by blast
      have "replica_ops r \<subseteq> table_ops t" using linked_children(1) [OF plink] r ops by (auto simp: partition_ops_def)
      then show ?thesis using assms(2) replica.encoded [OF rok] by (auto simp: replica_ops_def stored_replica_def)
    qed
    with ops show ?thesis
      using assms(2) partition.encoded [OF pok] by (auto simp: partition_ops_def stored_partition_def)
  qed
  then show ?thesis using assms(2) table.encoded [OF ok] by (auto simp: table_ops_def stored_table_def)
qed

lemma Persist_stored:
  assumes "leveldb_store L" "meta_wf md"
  shows "\<exists>md'. Metadata_Persist L md = Some md' \<and> md_tables md' = md_tables md \<and> md_uids md' = md_uids md \<and>
    stored_meta (ldb_get L (md_db md')) (md_tables md)"
proof -
  let ?n = "\<lparr>nm_names = map fst (md_tables md)\<rparr>"
  have wf: "\<And>n t. (n, t) \<in> set (md_tables md) \<Longrightarrow> tb_name t = n \<and> table_wf t" and d: "distinct (map fst (md_tables md))"
    using assms(2) by (auto simp: meta_wf_def)
  have "Names_ok ?n"
    using assms(2) by (auto simp: Names_ok_def meta_wf_def list_all_iff table_wf_def table_name_ok_def)
  then obtain v where v: "Names_ToString ?n (Names_MaxBytes ?n) = Some v" using names.encoded by blast
  have each: "\<exists>ops. persist_table (snd item) = Some ops \<and> set ops = table_ops (snd item)"
    if "item \<in> set (md_tables md)" for item
    using persist_table_ops [of "snd item"] wf that by (cases item) auto
  obtain ops where ops: "concat_opt (\<lambda>item. persist_table (snd item)) (md_tables md) = Some ops"
    "set ops = (\<Union>item \<in> set (md_tables md). table_ops (snd item))"
    using concat_opt_collect [of "md_tables md" "\<lambda>item. persist_table (snd item)" "\<lambda>item. table_ops (snd item)"] each
    by auto
  let ?all = "Put METADATA_TABLES_KEY v # ops"
  let ?g = "fold apply_op ?all (ldb_get L (md_db md))"
  have puts: "\<forall>op \<in> set ?all. \<exists>k v. op = Put k v" using ops(2) ops_are_puts by auto
  have key: "?g METADATA_TABLES_KEY = Some v"
    by (rule fold_Put_get [OF puts]) (use ops(2) table_ops_head(2) wf in force)+
  have get: "?g k = Some x" if t: "(n, t) \<in> set (md_tables md)" and x: "Put k x \<in> table_ops t" for n t k x
  proof (rule fold_Put_get [OF puts])
    show "Put k x \<in> set ?all" using ops(2) t x by force
    show "\<forall>w. Put k w \<in> set ?all \<longrightarrow> w = x"
    proof (intro allI impI)
      fix w assume "Put k w \<in> set ?all"
      moreover have "k \<noteq> METADATA_TABLES_KEY" using table_ops_head(2) [OF _ x] wf [OF t] by simp
      ultimately obtain m u where u: "(m, u) \<in> set (md_tables md)" "Put k w \<in> table_ops u" using ops(2) by auto
      have "tb_name u = tb_name t"
        using table_ops_head(1) [OF _ x] table_ops_head(1) [OF _ u(2)] wf [OF t] wf [OF u(1)] by simp
      then have "u = t" using wf [OF t] wf [OF u(1)] t u(1) d by (metis Pair_inject eq_key_imp_eq_value)
      then show "w = x" using table_ops_functional [of t k w x] wf [OF t] u(2) x by simp
    qed
  qed
  have "stored_meta ?g (md_tables md)"
    unfolding stored_meta_def using key v get wf by (auto intro!: stored_from_ops)
  moreover have "Metadata_Persist L md = Some (md\<lparr>md_db := ldb_write L True ?all (md_db md)\<rparr>)"
    using v ops(1) by (simp add: Metadata_Persist_def)
  ultimately show ?thesis by (simp add: leveldb_store.get_write [OF assms(1)] del: fold_simps)
qed

section \<open>Creating\<close>

text \<open>Parameters whose names and paths fit the buffers and the format.\<close>

definition TableParam_ok :: "TableParam \<Rightarrow> bool" where
  "TableParam_ok param \<longleftrightarrow> table_name_ok (tp_name param) \<and> small_id (tp_partition_num param) \<and>
     small_id (tp_replica_num param) \<and> int32 (tp_dim param) \<and>
     length (tp_path param) + 3 * length (tp_name param) < 100"

text \<open>The replicas a partition has after \<open>n\<close> rounds of the loop, with the uids they were given.\<close>

definition replicas_made :: "Partition \<Rightarrow> uids \<Rightarrow> nat \<Rightarrow> Partition \<times> uids \<Rightarrow> bool" where
  "replicas_made param u n = (\<lambda>(p, u').
     p = param\<lparr>pt_replicas_by_id := pt_replicas_by_id p, pt_replicas_by_name := pt_replicas_by_name p\<rparr> \<and>
     u' = u\<lparr>ui_replica := ui_replica u + of_nat n\<rparr> \<and>
     linked rp_id rp_name (pt_replicas_by_id p) (pt_replicas_by_name p) \<and>
     length (pt_replicas_by_id p) = n \<and> length (pt_replicas_by_name p) = n \<and>
     fst ` set (pt_replicas_by_id p) = {0 ..< int n} \<and>
     (\<forall>r. (rp_name r, Some r) \<in> set (pt_replicas_by_name p) \<longrightarrow> replica_wf (pt_name param) r \<and>
        rp_uid r = ui_replica u + of_int (rp_id r) \<and> rp_partition_uid r = ui_partition u \<and>
        rp_dim r = pt_dim param \<and> rp_path r = pt_path param @ lit ''/'' @ rp_name r))"

lemma ReplicaName_inj:
  assumes "table_name_ok t" "small_id i" "small_id j" "small_id k"
    and "ReplicaName (PartitionName t i) j = ReplicaName (PartitionName t i) k"
  shows "j = k"
proof -
  have "Some (t, i, j) = Some (t, i, k)"
    using Parse_names(2) [OF assms(1,2,3)] unfolding assms(5) Parse_names(2) [OF assms(1,2,4)] by (rule sym)
  then show ?thesis by simp
qed

lemma PartitionName_inj:
  assumes "table_name_ok t" "small_id i" "small_id j" "PartitionName t i = PartitionName t j"
  shows "i = j"
proof -
  have 0: "small_id 0" by simp
  have "Some (t, i) = Some (t, j)"
    using Parse_names(1) [OF assms(1,2) 0] unfolding assms(4) Parse_names(1) [OF assms(1,3) 0] by (rule sym)
  then show ?thesis by simp
qed

lemma linked_names:
  assumes "linked ident name by_id by_name" "n \<in> fst ` set by_name"
  obtains v where "n = name v" "(name v, Some v) \<in> set by_name" "ident v \<in> fst ` set by_id"
  using assms by (force simp: linked_def)

lemma upto_snoc: "[0 .. int (Suc n) - 1] = [0 .. int n - 1] @ [int n]"
  using upto_rec2 [of 0 "int n"] by simp

lemma replicas_made_put:
  assumes "replicas_made param u n (p, u')" "rp_id r = int n" "rp_name r \<notin> fst ` set (pt_replicas_by_name p)"
    and "replica_wf (pt_name param) r" "rp_uid r = ui_replica u'" "rp_partition_uid r = ui_partition u'"
    and "rp_dim r = pt_dim param" "rp_path r = pt_path param @ lit ''/'' @ rp_name r"
  shows "replicas_made param u (Suc n)
    (p\<lparr>pt_replicas_by_id := map_put (rp_id r) (Some r) (pt_replicas_by_id p),
       pt_replicas_by_name := map_put (rp_name r) (Some r) (pt_replicas_by_name p)\<rparr>,
     u'\<lparr>ui_replica := ui_replica u' + 1\<rparr>)"
proof -
  have p: "p = param\<lparr>pt_replicas_by_id := pt_replicas_by_id p, pt_replicas_by_name := pt_replicas_by_name p\<rparr>"
    and u: "u' = u\<lparr>ui_replica := ui_replica u + of_nat n\<rparr>"
    and link: "linked rp_id rp_name (pt_replicas_by_id p) (pt_replicas_by_name p)"
    and ids: "fst ` set (pt_replicas_by_id p) = {0 ..< int n}"
    and len: "length (pt_replicas_by_id p) = n" "length (pt_replicas_by_name p) = n"
    and rs: "\<And>r. (rp_name r, Some r) \<in> set (pt_replicas_by_name p) \<Longrightarrow> replica_wf (pt_name param) r \<and>
        rp_uid r = ui_replica u + of_int (rp_id r) \<and> rp_partition_uid r = ui_partition u \<and>
        rp_dim r = pt_dim param \<and> rp_path r = pt_path param @ lit ''/'' @ rp_name r"
    using assms(1) by (simp_all add: replicas_made_def)
  have fresh: "rp_id r \<notin> fst ` set (pt_replicas_by_id p)" using ids assms(2) by simp
  have "insert (int n) {0 ..< int n} = {0 ..< int (Suc n)}" by auto
  with u len rs assms(4-8) linked_put [OF link fresh assms(3)] show ?thesis
    unfolding replicas_made_def
    by (subst p) (auto simp: keys_map_put ids assms(2) set_map_put [OF assms(3)] length_map_put [OF assms(3)]
        length_map_put [OF fresh, unfolded assms(2)])
qed

lemma create_replicas:
  assumes "table_name_ok t" "small_id i" "pt_name param = PartitionName t i" "int32 (pt_dim param)"
    and "short (pt_table_name param)" "length (pt_path param) + length t < 110"
    and "pt_replicas_by_id param = []" "pt_replicas_by_name param = []" "n < 2 ^ 20"
  shows "replicas_made param u n (fold (create_replica param) [0 .. int n - 1] (param, u))"
  using assms(9)
proof (induction n)
  case 0
  show ?case using assms(7,8) by (simp add: replicas_made_def linked_def)
next
  case (Suc n)
  obtain p u' where pu: "fold (create_replica param) [0 .. int n - 1] (param, u) = (p, u')"
    by (cases "fold (create_replica param) [0 .. int n - 1] (param, u)")
  have made: "replicas_made param u n (p, u')" using Suc pu by simp
  let ?name = "ReplicaName (pt_name param) (int n)"
  let ?r = "\<lparr>rp_id = int n, rp_name = ?name, rp_path = pt_path param @ lit ''/'' @ ?name, rp_dim = pt_dim param,
    rp_uid = ui_replica u', rp_table_name = pt_table_name param, rp_table_uid = pt_table_uid param,
    rp_partition_name = pt_name param, rp_partition_uid = ui_partition u'\<rparr>"
  let ?p = "p\<lparr>pt_replicas_by_id := map_put (rp_id ?r) (Some ?r) (pt_replicas_by_id p),
    pt_replicas_by_name := map_put (rp_name ?r) (Some ?r) (pt_replicas_by_name p)\<rparr>"
  have step: "fold (create_replica param) [0 .. int (Suc n) - 1] (param, u) =
      (?p, u'\<lparr>ui_replica := ui_replica u' + 1\<rparr>)"
    using pu by (simp only: upto_snoc fold_append) (simp add: create_replica_def CreateReplica_def Let_def)
  have link: "linked rp_id rp_name (pt_replicas_by_id p) (pt_replicas_by_name p)"
    and ids: "fst ` set (pt_replicas_by_id p) = {0 ..< int n}"
    and wf: "\<And>r. (rp_name r, Some r) \<in> set (pt_replicas_by_name p) \<Longrightarrow> replica_wf (pt_name param) r"
    using made by (auto simp: replicas_made_def)
  have n: "small_id (int n)" using Suc.prems by simp
  have fresh_name: "rp_name ?r \<notin> fst ` set (pt_replicas_by_name p)"
  proof
    assume "rp_name ?r \<in> fst ` set (pt_replicas_by_name p)"
    then obtain v where v: "?name = rp_name v" "(rp_name v, Some v) \<in> set (pt_replicas_by_name p)" "rp_id v \<in> {0 ..< int n}"
      using linked_names [OF link] ids by (metis Replica.select_convs(2))
    have "int n = rp_id v"
      using wf [OF v(2)] v(1) assms(3) by (intro ReplicaName_inj [OF assms(1,2) n]) (auto simp: replica_wf_def)
    with v(3) show False by simp
  qed
  have "length ?name \<le> length t + 16" "length (pt_name param) \<le> length t + 8"
    using names_short [OF assms(1,2) n] assms(3) by simp_all
  then have r: "replica_wf (pt_name param) ?r"
    using assms(1,4-6) n by (auto simp: replica_wf_def Replica_ok_def lit_def table_name_ok_def)
  show ?case unfolding step by (rule replicas_made_put [OF made _ fresh_name r]) simp_all
qed

lemma replicas_made_fields:
  assumes "replicas_made param u n (p, u')"
  shows "pt_id p = pt_id param" "pt_name p = pt_name param" "pt_path p = pt_path param" "pt_dim p = pt_dim param"
    "pt_uid p = pt_uid param" "pt_table_name p = pt_table_name param" "pt_replica_num p = pt_replica_num param"
proof -
  have p: "p = param\<lparr>pt_replicas_by_id := pt_replicas_by_id p, pt_replicas_by_name := pt_replicas_by_name p\<rparr>"
    using assms by (simp add: replicas_made_def)
  show "pt_id p = pt_id param" "pt_name p = pt_name param" "pt_path p = pt_path param" "pt_dim p = pt_dim param"
    "pt_uid p = pt_uid param" "pt_table_name p = pt_table_name param" "pt_replica_num p = pt_replica_num param"
    by (subst p, simp)+
qed

lemma CreatePartition_made:
  assumes "table_name_ok t" "small_id i" "pt_name param = PartitionName t i" "int32 (pt_dim param)"
    and "short (pt_table_name param)" "length (pt_path param) + length t < 110" "small_id (pt_replica_num param)"
    and "pt_replicas_by_id param = []" "pt_replicas_by_name param = []" "pt_id param = i"
    and "CreatePartition param u = (p, u')"
  shows "replicas_made param u (nat (pt_replica_num param)) (p, u')" "partition_wf t p"
proof -
  let ?n = "nat (pt_replica_num param)"
  have n: "int ?n = pt_replica_num param" "?n < 2 ^ 20" using assms(7) by auto
  show made: "replicas_made param u ?n (p, u')"
    using create_replicas [OF assms(1-6,8,9) n(2), of u] assms(11) n(1) by (simp add: CreatePartition_def)
  then have link: "linked rp_id rp_name (pt_replicas_by_id p) (pt_replicas_by_name p)"
    and len: "length (pt_replicas_by_id p) = ?n" "length (pt_replicas_by_name p) = ?n"
    and ids: "fst ` set (pt_replicas_by_id p) = {0 ..< int ?n}"
    and wf: "\<And>r. (rp_name r, Some r) \<in> set (pt_replicas_by_name p) \<Longrightarrow> replica_wf (pt_name param) r"
    by (simp_all add: replicas_made_def)
  note f = replicas_made_fields [OF made]
  have "list_all int32 (map fst (pt_replicas_by_id p))"
    using ids n(1) assms(7) by (force simp: list_all_iff)
  moreover have "list_all short (map fst (pt_replicas_by_name p))"
    unfolding list_all_iff
  proof
    fix x assume "x \<in> set (map fst (pt_replicas_by_name p))"
    then have "x \<in> fst ` set (pt_replicas_by_name p)" by simp
    then show "short x" by (rule linked_names [OF link]) (use wf in \<open>auto simp: replica_wf_def Replica_ok_def\<close>)
  qed
  ultimately have "children_ok (pt_replica_num p) (pt_replicas_by_id p) (pt_replicas_by_name p)"
    using len n assms(7) link f by (simp add: children_ok_def linked_def)
  moreover have "length (PartitionName t i) \<le> length t + 8" by (rule names_short(1) [OF assms(1,2), of 0]) simp_all
  ultimately have "Partition_ok p"
    using assms(1-6,10) f by (auto simp: Partition_ok_def table_name_ok_def)
  then show "partition_wf t p"
    using link wf assms(2,3,10) f unfolding partition_wf_def by auto
qed

text \<open>Where a replica of a table is kept: below the table and the partition.\<close>

definition placed :: "int \<Rightarrow> bytes \<Rightarrow> bytes \<Rightarrow> Replica \<Rightarrow> bool" where
  "placed dim path pname r \<longleftrightarrow> rp_dim r = dim \<and> rp_path r = path @ lit ''/'' @ pname @ lit ''/'' @ rp_name r"

text \<open>The partitions a table has after \<open>n\<close> rounds.\<close>

definition partitions_made :: "Table \<Rightarrow> uids \<Rightarrow> nat \<Rightarrow> Table \<times> uids \<Rightarrow> bool" where
  "partitions_made t0 u n = (\<lambda>(t, u').
     t = t0\<lparr>tb_partitions_by_id := tb_partitions_by_id t, tb_partitions_by_name := tb_partitions_by_name t\<rparr> \<and>
     u' = u\<lparr>ui_partition := ui_partition u + of_nat n,
            ui_replica := ui_replica u + of_int (int n * tb_replica_num t0)\<rparr> \<and>
     linked pt_id pt_name (tb_partitions_by_id t) (tb_partitions_by_name t) \<and>
     length (tb_partitions_by_id t) = n \<and> length (tb_partitions_by_name t) = n \<and>
     fst ` set (tb_partitions_by_id t) = {0 ..< int n} \<and>
     (\<forall>p. (pt_name p, Some p) \<in> set (tb_partitions_by_name t) \<longrightarrow> partition_wf (tb_name t0) p \<and>
        pt_uid p = ui_partition u + of_int (pt_id p) \<and>
        fst ` set (pt_replicas_by_id p) = {0 ..< tb_replica_num t0} \<and>
        (\<forall>r. (rp_name r, Some r) \<in> set (pt_replicas_by_name p) \<longrightarrow>
           rp_uid r = ui_replica u + of_int (pt_id p * tb_replica_num t0 + rp_id r) \<and>
           rp_partition_uid r = pt_uid p + 1 \<and> placed (tb_dim t0) (tb_path t0) (pt_name p) r)))"

lemma partitions_made_put:
  assumes "partitions_made t0 u n (t, u')" "pt_id p = int n" "pt_name p \<notin> fst ` set (tb_partitions_by_name t)"
    and "partition_wf (tb_name t0) p" "pt_uid p = ui_partition u'"
    and "fst ` set (pt_replicas_by_id p) = {0 ..< tb_replica_num t0}"
    and "\<And>r. (rp_name r, Some r) \<in> set (pt_replicas_by_name p) \<Longrightarrow>
      rp_uid r = ui_replica u' + of_int (rp_id r) \<and> rp_partition_uid r = pt_uid p + 1 \<and>
      placed (tb_dim t0) (tb_path t0) (pt_name p) r"
    and "0 \<le> tb_replica_num t0"
  shows "partitions_made t0 u (Suc n)
    (t\<lparr>tb_partitions_by_id := map_put (pt_id p) (Some p) (tb_partitions_by_id t),
       tb_partitions_by_name := map_put (pt_name p) (Some p) (tb_partitions_by_name t)\<rparr>,
     u'\<lparr>ui_partition := ui_partition u' + 1, ui_replica := ui_replica u' + of_nat (nat (tb_replica_num t0))\<rparr>)"
proof -
  have t: "t = t0\<lparr>tb_partitions_by_id := tb_partitions_by_id t, tb_partitions_by_name := tb_partitions_by_name t\<rparr>"
    and u: "u' = u\<lparr>ui_partition := ui_partition u + of_nat n,
            ui_replica := ui_replica u + of_int (int n * tb_replica_num t0)\<rparr>"
    and link: "linked pt_id pt_name (tb_partitions_by_id t) (tb_partitions_by_name t)"
    and ids: "fst ` set (tb_partitions_by_id t) = {0 ..< int n}"
    and len: "length (tb_partitions_by_id t) = n" "length (tb_partitions_by_name t) = n"
    and ps: "\<And>p. (pt_name p, Some p) \<in> set (tb_partitions_by_name t) \<Longrightarrow> partition_wf (tb_name t0) p \<and>
        pt_uid p = ui_partition u + of_int (pt_id p) \<and>
        fst ` set (pt_replicas_by_id p) = {0 ..< tb_replica_num t0} \<and>
        (\<forall>r. (rp_name r, Some r) \<in> set (pt_replicas_by_name p) \<longrightarrow>
           rp_uid r = ui_replica u + of_int (pt_id p * tb_replica_num t0 + rp_id r) \<and>
           rp_partition_uid r = pt_uid p + 1 \<and> placed (tb_dim t0) (tb_path t0) (pt_name p) r)"
    using assms(1) by (simp_all add: partitions_made_def)
  have fresh: "pt_id p \<notin> fst ` set (tb_partitions_by_id t)" using ids assms(2) by simp
  have new: "partition_wf (tb_name t0) p \<and> pt_uid p = ui_partition u + of_int (pt_id p) \<and>
        fst ` set (pt_replicas_by_id p) = {0 ..< tb_replica_num t0} \<and>
        (\<forall>r. (rp_name r, Some r) \<in> set (pt_replicas_by_name p) \<longrightarrow>
           rp_uid r = ui_replica u + of_int (pt_id p * tb_replica_num t0 + rp_id r) \<and>
           rp_partition_uid r = pt_uid p + 1 \<and> placed (tb_dim t0) (tb_path t0) (pt_name p) r)"
    using assms(2,4-7) u by (simp add: add.assoc)
  have "insert (int n) {0 ..< int n} = {0 ..< int (Suc n)}" by auto
  moreover have "(of_nat (nat (tb_replica_num t0)) :: u64) = of_int (tb_replica_num t0)" using assms(8) by simp
  ultimately show ?thesis
    using u len ps new linked_put [OF link fresh assms(3)]
    unfolding partitions_made_def
    by (subst t) (auto simp: keys_map_put ids assms(2) set_map_put [OF assms(3)] length_map_put [OF assms(3)]
        length_map_put [OF fresh, unfolded assms(2)] algebra_simps)
qed

lemma create_partitions:
  assumes "table_name_ok (tb_name t0)" "int32 (tb_dim t0)" "small_id (tb_replica_num t0)"
    and "length (tb_path t0) + 2 * length (tb_name t0) < 101"
    and "tb_partitions_by_id t0 = []" "tb_partitions_by_name t0 = []" "n < 2 ^ 20"
  shows "partitions_made t0 u n (fold create_partition [0 .. int n - 1] (t0, u))"
  using assms(7)
proof (induction n)
  case 0
  show ?case using assms(5,6) by (simp add: partitions_made_def linked_def)
next
  case (Suc n)
  obtain t u' where tu: "fold create_partition [0 .. int n - 1] (t0, u) = (t, u')"
    by (cases "fold create_partition [0 .. int n - 1] (t0, u)")
  have made: "partitions_made t0 u n (t, u')" using Suc tu by simp
  have t: "t = t0\<lparr>tb_partitions_by_id := tb_partitions_by_id t, tb_partitions_by_name := tb_partitions_by_name t\<rparr>"
    and link: "linked pt_id pt_name (tb_partitions_by_id t) (tb_partitions_by_name t)"
    and ids: "fst ` set (tb_partitions_by_id t) = {0 ..< int n}"
    and wf: "\<And>p. (pt_name p, Some p) \<in> set (tb_partitions_by_name t) \<Longrightarrow> partition_wf (tb_name t0) p"
    using made by (auto simp: partitions_made_def)
  have fields: "tb_name t = tb_name t0" "tb_path t = tb_path t0" "tb_replica_num t = tb_replica_num t0"
    "tb_dim t = tb_dim t0" "tb_uid t = tb_uid t0" by (subst t, simp)+
  have n: "small_id (int n)" using Suc.prems by simp
  let ?name = "PartitionName (tb_name t0) (int n)"
  let ?param = "\<lparr>pt_id = int n, pt_name = ?name, pt_path = tb_path t0 @ lit ''/'' @ ?name,
    pt_replica_num = tb_replica_num t0, pt_dim = tb_dim t0, pt_uid = ui_partition u',
    pt_table_name = tb_name t0, pt_table_uid = tb_uid t0, pt_replicas_by_id = [], pt_replicas_by_name = []\<rparr>"
  let ?u = "u'\<lparr>ui_partition := ui_partition u' + 1\<rparr>"
  obtain p u2 where p: "CreatePartition ?param ?u = (p, u2)" by (cases "CreatePartition ?param ?u")
  have len: "length ?name \<le> length (tb_name t0) + 8" by (rule names_short(1) [OF assms(1) n, of 0]) simp_all
  have new: "replicas_made ?param ?u (nat (tb_replica_num t0)) (p, u2)" "partition_wf (tb_name t0) p"
    using CreatePartition_made [OF assms(1) n, of ?param ?u p u2] assms len p
    by (auto simp: lit_def table_name_ok_def)
  have pf: "pt_id p = int n" "pt_name p = ?name" "pt_uid p = ui_partition u'"
    using replicas_made_fields [OF new(1)] by simp_all
  have step: "fold create_partition [0 .. int (Suc n) - 1] (t0, u) =
      (t\<lparr>tb_partitions_by_id := map_put (pt_id p) (Some p) (tb_partitions_by_id t),
         tb_partitions_by_name := map_put (pt_name p) (Some p) (tb_partitions_by_name t)\<rparr>, u2)"
    using tu p by (simp only: upto_snoc fold_append) (simp add: create_partition_def Let_def fields)
  have fresh: "pt_name p \<notin> fst ` set (tb_partitions_by_name t)"
  proof
    assume "pt_name p \<in> fst ` set (tb_partitions_by_name t)"
    then obtain v where v: "pt_name p = pt_name v" "(pt_name v, Some v) \<in> set (tb_partitions_by_name t)"
        "pt_id v \<in> {0 ..< int n}"
      using linked_names [OF link] ids by metis
    have "int n = pt_id v"
      using wf [OF v(2)] v(1) pf(2) by (intro PartitionName_inj [OF assms(1) n]) (auto simp: partition_wf_def)
    with v(3) show False by simp
  qed
  have u2: "u2 = u'\<lparr>ui_partition := ui_partition u' + 1, ui_replica := ui_replica u' + of_nat (nat (tb_replica_num t0))\<rparr>"
    and rs: "\<And>r. (rp_name r, Some r) \<in> set (pt_replicas_by_name p) \<Longrightarrow>
      rp_uid r = ui_replica u' + of_int (rp_id r) \<and> rp_partition_uid r = pt_uid p + 1 \<and>
      placed (tb_dim t0) (tb_path t0) (pt_name p) r"
    and rids: "fst ` set (pt_replicas_by_id p) = {0 ..< tb_replica_num t0}"
    using new(1) pf(2,3) assms(3) by (simp_all add: replicas_made_def placed_def)
  show ?case unfolding step u2
    by (rule partitions_made_put [OF made pf(1) fresh new(2) pf(3) rids rs]) (use assms(3) in auto)
qed

lemma CreateTable_made:
  assumes "TableParam_ok param" "CreateTable param u = (t, u')"
  shows "table_wf t" "tb_name t = tp_name param" "tb_partition_num t = tp_partition_num param"
    "tb_replica_num t = tp_replica_num param" "tb_dim t = tp_dim param" "tb_uid t = ui_table u"
    "ui_table u' = ui_table u + 1"
    "ui_replica u' = ui_replica u + of_int (tp_partition_num param * tp_replica_num param)"
    "fst ` set (tb_partitions_by_id t) = {0 ..< tp_partition_num param}"
    "(pt_name p, Some p) \<in> set (tb_partitions_by_name t) \<Longrightarrow>
       fst ` set (pt_replicas_by_id p) = {0 ..< tp_replica_num param} \<and>
       ((rp_name r, Some r) \<in> set (pt_replicas_by_name p) \<longrightarrow>
         rp_uid r = ui_replica u + of_int (pt_id p * tp_replica_num param + rp_id r) \<and> rp_partition_uid r = pt_uid p + 1 \<and>
         placed (tp_dim param) (tp_path param @ lit ''/'' @ tp_name param) (pt_name p) r)"
proof -
  let ?t = "\<lparr>tb_name = tp_name param, tb_path = tp_path param @ lit ''/'' @ tp_name param,
    tb_partition_num = tp_partition_num param, tb_replica_num = tp_replica_num param,
    tb_dim = tp_dim param, tb_uid = ui_table u, tb_partitions_by_id = [], tb_partitions_by_name = []\<rparr>"
  let ?u = "u\<lparr>ui_table := ui_table u + 1\<rparr>" and ?n = "nat (tp_partition_num param)"
  have ok: "table_name_ok (tp_name param)" "int32 (tp_dim param)" "small_id (tp_replica_num param)" "small_id (tp_partition_num param)"
    using assms(1) by (simp_all add: TableParam_ok_def)
  have n: "int ?n = tp_partition_num param" "?n < 2 ^ 20" using ok(4) by auto
  have "partitions_made ?t ?u ?n (t, u')"
    using create_partitions [of ?t ?n ?u] assms ok n
    by (simp add: CreateTable_def Let_def TableParam_ok_def lit_def)
  then have t: "t = ?t\<lparr>tb_partitions_by_id := tb_partitions_by_id t, tb_partitions_by_name := tb_partitions_by_name t\<rparr>"
    and u: "u' = ?u\<lparr>ui_partition := ui_partition u + of_nat ?n,
            ui_replica := ui_replica u + of_int (int ?n * tp_replica_num param)\<rparr>"
    and link: "linked pt_id pt_name (tb_partitions_by_id t) (tb_partitions_by_name t)"
    and ids: "fst ` set (tb_partitions_by_id t) = {0 ..< int ?n}"
    and len: "length (tb_partitions_by_id t) = ?n" "length (tb_partitions_by_name t) = ?n"
    and ps: "\<And>p. (pt_name p, Some p) \<in> set (tb_partitions_by_name t) \<Longrightarrow> partition_wf (tp_name param) p \<and>
        fst ` set (pt_replicas_by_id p) = {0 ..< tp_replica_num param} \<and>
        (\<forall>r. (rp_name r, Some r) \<in> set (pt_replicas_by_name p) \<longrightarrow>
           rp_uid r = ui_replica u + of_int (pt_id p * tp_replica_num param + rp_id r) \<and>
           rp_partition_uid r = pt_uid p + 1 \<and>
           placed (tp_dim param) (tp_path param @ lit ''/'' @ tp_name param) (pt_name p) r)"
    by (simp_all add: partitions_made_def)
  show f: "tb_name t = tp_name param" "tb_partition_num t = tp_partition_num param"
    "tb_replica_num t = tp_replica_num param" "tb_dim t = tp_dim param" "tb_uid t = ui_table u"
    by (subst t, simp)+
  have path: "tb_path t = tp_path param @ lit ''/'' @ tp_name param" by (subst t, simp)
  show "ui_table u' = ui_table u + 1"
    "ui_replica u' = ui_replica u + of_int (tp_partition_num param * tp_replica_num param)"
    using u n(1) by simp_all
  show "fst ` set (tb_partitions_by_id t) = {0 ..< tp_partition_num param}" using ids n(1) by simp
  show "(pt_name p, Some p) \<in> set (tb_partitions_by_name t) \<Longrightarrow>
       fst ` set (pt_replicas_by_id p) = {0 ..< tp_replica_num param} \<and>
       ((rp_name r, Some r) \<in> set (pt_replicas_by_name p) \<longrightarrow>
         rp_uid r = ui_replica u + of_int (pt_id p * tp_replica_num param + rp_id r) \<and> rp_partition_uid r = pt_uid p + 1 \<and>
         placed (tp_dim param) (tp_path param @ lit ''/'' @ tp_name param) (pt_name p) r)"
    using ps by blast
  have "list_all int32 (map fst (tb_partitions_by_id t))" using ids n(1) ok(4) by (force simp: list_all_iff)
  moreover have "list_all short (map fst (tb_partitions_by_name t))"
    unfolding list_all_iff
  proof
    fix x assume "x \<in> set (map fst (tb_partitions_by_name t))"
    then have "x \<in> fst ` set (tb_partitions_by_name t)" by simp
    then show "short x" by (rule linked_names [OF link]) (use ps in \<open>auto simp: partition_wf_def Partition_ok_def\<close>)
  qed
  ultimately have "children_ok (tb_partition_num t) (tb_partitions_by_id t) (tb_partitions_by_name t)"
    using len n ok(4) link f(2) by (simp add: children_ok_def linked_def)
  then have "Table_ok t"
    using assms(1) f path by (auto simp: Table_ok_def TableParam_ok_def table_name_ok_def lit_def)
  with f(1) ok(1) link ps show "table_wf t" by (auto simp: table_wf_def)
qed

section \<open>Reachable catalogues\<close>

text \<open>A process starts on an empty or existing database, adds tables, and may be restarted.\<close>

inductive meta_reachable :: "'db leveldb \<Rightarrow> 'db Metadata \<Rightarrow> bool" for L where
  fresh: "Metadata_new L process_start (ldb_open L) = Some md \<Longrightarrow> meta_reachable L md"
| add: "meta_reachable L md \<Longrightarrow> TableParam_ok param \<Longrightarrow> Suc (length (md_tables md)) < 2 ^ 20 \<Longrightarrow>
    Metadata_AddTable L param md = Some (rv, md') \<Longrightarrow> meta_reachable L md'"
| restart: "meta_reachable L md \<Longrightarrow> Metadata_new L process_start (md_db md) = Some md' \<Longrightarrow> meta_reachable L md'"

definition on_disk_ok :: "'db leveldb \<Rightarrow> 'db Metadata \<Rightarrow> bool" where
  "on_disk_ok L md \<longleftrightarrow> meta_wf md \<and>
     (stored_meta (ldb_get L (md_db md)) (md_tables md) \<or>
      md_tables md = [] \<and> ldb_get L (md_db md) METADATA_TABLES_KEY = None)"

lemma new_reads_disk:
  assumes "on_disk_ok L md"
  shows "Metadata_new L u (md_db md) = Some (md\<lparr>md_uids := u\<rparr>)"
proof (cases "stored_meta (ldb_get L (md_db md)) (md_tables md)")
  case True
  then show ?thesis using Load_stored [OF _ True, of u] assms by (simp add: on_disk_ok_def)
next
  case False
  then show ?thesis using assms by (cases md) (simp add: on_disk_ok_def Metadata_new_def Metadata_Load_def)
qed

lemma AddTable_ok:
  assumes "leveldb_store L" "meta_wf md" "TableParam_ok param" "Suc (length (md_tables md)) < 2 ^ 20"
    and "Metadata_GetTable (tp_name param) md = None"
  obtains t u md' where "CreateTable param (md_uids md) = (t, u)" "Metadata_AddTable L param md = Some (0, md')"
    "md_tables md' = md_tables md @ [(tp_name param, t)]" "md_uids md' = u" "meta_wf md'" "on_disk_ok L md'"
proof -
  obtain t u where t: "CreateTable param (md_uids md) = (t, u)" by (cases "CreateTable param (md_uids md)")
  note made = CreateTable_made(1,2) [OF assms(3) t]
  have fresh: "tp_name param \<notin> fst ` set (md_tables md)"
    using assms(5) by (simp add: Metadata_GetTable_def map_of_eq_None_iff)
  let ?md = "md\<lparr>md_tables := md_tables md @ [(tp_name param, t)], md_uids := u\<rparr>"
  have wf: "meta_wf ?md" using assms(2,4) made fresh by (auto simp: meta_wf_def)
  obtain md' where md': "Metadata_Persist L ?md = Some md'" "md_tables md' = md_tables ?md" "md_uids md' = u"
    "stored_meta (ldb_get L (md_db md')) (md_tables ?md)"
    using Persist_stored [OF assms(1) wf] by auto
  have "Metadata_AddTable L param md = Some (0, md')"
    using assms(5) t md'(1) made(2) fresh by (simp add: Metadata_AddTable_def update_fresh)
  moreover have "meta_wf md'" using wf md'(2) by (simp add: meta_wf_def)
  ultimately show ?thesis using that t md' by (simp add: on_disk_ok_def)
qed

lemma reachable_on_disk:
  assumes "leveldb_store L" "meta_reachable L md"
  shows "on_disk_ok L md"
  using assms(2)
proof induction
  case (fresh md)
  then have "md = \<lparr>md_tables = [], md_db = ldb_open L, md_uids = process_start\<rparr>"
    by (simp add: Metadata_new_def Metadata_Load_def leveldb_store.get_open [OF assms(1)])
  then show ?case by (simp add: on_disk_ok_def meta_wf_def leveldb_store.get_open [OF assms(1)])
next
  case (add md param rv md')
  show ?case
  proof (cases "Metadata_GetTable (tp_name param) md")
    case None
    have "meta_wf md" using add.IH by (simp add: on_disk_ok_def)
    from AddTable_ok [OF assms(1) this add.hyps(2,3) None] add.hyps(4) show ?thesis by auto
  next
    case (Some t)
    then show ?thesis using add by (simp add: Metadata_AddTable_def)
  qed
next
  case (restart md md')
  then have "md' = md\<lparr>md_uids := process_start\<rparr>" using new_reads_disk [of L md process_start] by simp
  with restart.IH show ?case by (simp add: on_disk_ok_def meta_wf_def)
qed

section \<open>Finding replicas\<close>

lemma linked_find:
  assumes "linked ident name by_id by_name" "i \<in> fst ` set by_id"
  obtains v where "map_of by_id i = Some (Some v)" "ident v = i" "(name v, Some v) \<in> set by_name"
proof -
  obtain x where "(i, x) \<in> set by_id" using assms(2) by auto
  moreover from this obtain v where "x = Some v" "ident v = i" "(name v, Some v) \<in> set by_name"
    using assms(1) by (auto simp: linked_def)
  moreover have "distinct (map fst by_id)" using assms(1) ordered_distinct by (auto simp: linked_def)
  ultimately show ?thesis using that by simp
qed

lemma GetReplica_wf:
  assumes "meta_wf md" "map_of (md_tables md) n = Some t" "i \<in> fst ` set (tb_partitions_by_id t)"
  obtains p where "(pt_name p, Some p) \<in> set (tb_partitions_by_name t)" "pt_id p = i"
    "Metadata_GetPartition (PartitionName n i) md = Some (Some p)"
    "\<forall>j \<in> fst ` set (pt_replicas_by_id p). \<exists>r. (rp_name r, Some r) \<in> set (pt_replicas_by_name p) \<and>
       rp_id r = j \<and> Metadata_GetReplica (ReplicaName3 n i j) md = Some (Some r)"
proof -
  have t: "tb_name t = n" "table_wf t" using assms(1) map_of_SomeD [OF assms(2)] by (auto simp: meta_wf_def)
  have n: "table_name_ok n" and link: "linked pt_id pt_name (tb_partitions_by_id t) (tb_partitions_by_name t)"
    using t by (auto simp: table_wf_def)
  obtain p where p: "map_of (tb_partitions_by_id t) i = Some (Some p)" "pt_id p = i"
    "(pt_name p, Some p) \<in> set (tb_partitions_by_name t)"
    by (rule linked_find [OF link assms(3)])
  have wf: "partition_wf n p" using t p(3) by (auto simp: table_wf_def)
  have i: "small_id i" and plink: "linked rp_id rp_name (pt_replicas_by_id p) (pt_replicas_by_name p)"
    using wf p(2) unfolding partition_wf_def by blast+
  have get: "Metadata_GetPartition (PartitionName n i) md = Some (Some p)"
    using Parse_names(1) [OF n i, of 0] assms(2) p(1) by (simp add: Metadata_GetPartition_def Metadata_GetTable_def)
  have "\<exists>r. (rp_name r, Some r) \<in> set (pt_replicas_by_name p) \<and> rp_id r = j \<and>
      Metadata_GetReplica (ReplicaName3 n i j) md = Some (Some r)" if j: "j \<in> fst ` set (pt_replicas_by_id p)" for j
  proof -
    obtain r where r: "map_of (pt_replicas_by_id p) j = Some (Some r)" "rp_id r = j"
      "(rp_name r, Some r) \<in> set (pt_replicas_by_name p)" by (rule linked_find [OF plink j])
    have "small_id j" using wf r unfolding partition_wf_def replica_wf_def by blast
    then show ?thesis
      using r get Parse_names(2) [OF n i, of j] by (auto simp: Metadata_GetReplica_def ReplicaName3_def)
  qed
  with that p get show ?thesis by blast
qed

text \<open>A catalogue with nothing in it, and a parameter that is in order.\<close>

lemma fresh_catalogue:
  assumes "leveldb_store L"
  obtains md where "Metadata_new L process_start (ldb_open L) = Some md" "md_tables md = []"
    "md_uids md = process_start" "meta_reachable L md"
proof -
  have "Metadata_new L process_start (ldb_open L) =
      Some \<lparr>md_tables = [], md_db = ldb_open L, md_uids = process_start\<rparr>"
    by (simp add: Metadata_new_def Metadata_Load_def leveldb_store.get_open [OF assms])
  then show ?thesis using that meta_reachable.fresh by fastforce
qed

definition sample_param :: "bytes \<Rightarrow> TableParam" where
  "sample_param name = \<lparr>tp_name = name, tp_path = lit ''/data'', tp_partition_num = 2, tp_replica_num = 1, tp_dim = 3\<rparr>"

lemma sample_param_ok: "TableParam_ok (sample_param (lit ''a''))" "TableParam_ok (sample_param (lit ''b''))"
  by (simp_all add: TableParam_ok_def sample_param_def table_name_ok_def lit_def METADATA_TABLES_KEY_def)

lemma reachable_add:
  assumes "leveldb_store L" "meta_reachable L md" "TableParam_ok param" "Suc (length (md_tables md)) < 2 ^ 20"
    and "Metadata_GetTable (tp_name param) md = None"
  obtains t u md' where "CreateTable param (md_uids md) = (t, u)" "Metadata_AddTable L param md = Some (0, md')"
    "md_tables md' = md_tables md @ [(tp_name param, t)]" "md_uids md' = u" "meta_wf md'" "meta_reachable L md'"
proof -
  have "meta_wf md" using reachable_on_disk [OF assms(1,2)] by (simp add: on_disk_ok_def)
  then obtain t u md' where "CreateTable param (md_uids md) = (t, u)" "Metadata_AddTable L param md = Some (0, md')"
    "md_tables md' = md_tables md @ [(tp_name param, t)]" "md_uids md' = u" "meta_wf md'"
    by (rule AddTable_ok [OF assms(1) _ assms(3-5)])
  with meta_reachable.add [OF assms(2-4)] that show ?thesis by blast
qed

section \<open>Properties\<close>

text \<open>C23. The catalogue survives a restart: after any number of restarts and of tables added whose names are plain and whose
  paths stay short enough for the decoder (\<open>TableParam_ok\<close>: a name of fewer than 64 bytes without \<open>#\<close>, and path and three
  times the name below 100 bytes), a process that opens the database finds exactly the tables, partitions
  and replicas there were.\<close>

theorem catalogue_survives_restart:
  assumes "leveldb_store L" "meta_reachable L md"
  shows "Metadata_new L u (md_db md) = Some (md\<lparr>md_uids := u\<rparr>)"
  by (rule new_reads_disk [OF reachable_on_disk [OF assms]])

theorem catalogue_survives_restart_witness:
  "\<exists>md t. map_of (md_tables md) (lit ''a'') = Some t \<and>
     Metadata_new alist_store process_start (md_db md) = Some (md\<lparr>md_uids := process_start\<rparr>)"
proof -
  obtain md where md: "meta_reachable alist_store md" "md_tables md = []"
    using fresh_catalogue [OF alist_store.leveldb_store_axioms] by blast
  obtain t u md' where md': "md_tables md' = md_tables md @ [(tp_name (sample_param (lit ''a'')), t)]"
    "meta_reachable alist_store md'"
    by (rule reachable_add [OF alist_store.leveldb_store_axioms md(1) sample_param_ok(1)])
      (use md(2) in \<open>auto simp: Metadata_GetTable_def\<close>)
  then have "map_of (md_tables md') (lit ''a'') = Some t" using md(2) by (simp add: sample_param_def)
  with catalogue_survives_restart [OF alist_store.leveldb_store_axioms md'(2), of process_start] show ?thesis by blast
qed

text \<open>A new table is complete: adding a table under a new name succeeds, leaves the other tables alone,
  and then every replica of every partition is found under the name made of the table name and the
  two numbers, in the partition with the first number; adding it again is refused.\<close>

theorem added_table_found:
  assumes "leveldb_store L" "meta_reachable L md" "TableParam_ok param" "Suc (length (md_tables md)) < 2 ^ 20"
    and "Metadata_GetTable (tp_name param) md = None"
  shows "\<exists>md'. Metadata_AddTable L param md = Some (0, md') \<and>
    (\<forall>name. name \<noteq> tp_name param \<longrightarrow> Metadata_GetTable name md' = Metadata_GetTable name md) \<and>
    Metadata_AddTable L param md' = Some (-1, md') \<and>
    (\<forall>i j. 0 \<le> i \<and> i < tp_partition_num param \<and> 0 \<le> j \<and> j < tp_replica_num param \<longrightarrow>
      (\<exists>p r. Metadata_GetPartition (PartitionName (tp_name param) i) md' = Some (Some p) \<and> pt_id p = i \<and>
        Metadata_GetReplica (ReplicaName3 (tp_name param) i j) md' = Some (Some r) \<and> rp_id r = j \<and>
        (rp_name r, Some r) \<in> set (pt_replicas_by_name p)))"
proof -
  obtain t u md' where add: "CreateTable param (md_uids md) = (t, u)" "Metadata_AddTable L param md = Some (0, md')"
    "md_tables md' = md_tables md @ [(tp_name param, t)]" "meta_wf md'"
    by (rule reachable_add [OF assms])
  have get: "map_of (md_tables md') (tp_name param) = Some t"
    using add(3) assms(5) by (simp add: Metadata_GetTable_def map_add_def)
  have "\<exists>p r. Metadata_GetPartition (PartitionName (tp_name param) i) md' = Some (Some p) \<and> pt_id p = i \<and>
      Metadata_GetReplica (ReplicaName3 (tp_name param) i j) md' = Some (Some r) \<and> rp_id r = j \<and>
      (rp_name r, Some r) \<in> set (pt_replicas_by_name p)"
    if "0 \<le> i" "i < tp_partition_num param" "0 \<le> j" "j < tp_replica_num param" for i j
  proof -
    have "i \<in> fst ` set (tb_partitions_by_id t)" using CreateTable_made(9) [OF assms(3) add(1)] that by simp
    then obtain p where p: "(pt_name p, Some p) \<in> set (tb_partitions_by_name t)" "pt_id p = i"
      "Metadata_GetPartition (PartitionName (tp_name param) i) md' = Some (Some p)"
      "\<forall>j \<in> fst ` set (pt_replicas_by_id p). \<exists>r. (rp_name r, Some r) \<in> set (pt_replicas_by_name p) \<and>
         rp_id r = j \<and> Metadata_GetReplica (ReplicaName3 (tp_name param) i j) md' = Some (Some r)"
      by (rule GetReplica_wf [OF add(4) get])
    have "j \<in> fst ` set (pt_replicas_by_id p)" using CreateTable_made(10) [OF assms(3) add(1) p(1)] that by simp
    with p show ?thesis by blast
  qed
  moreover have "Metadata_GetTable name md' = Metadata_GetTable name md" if "name \<noteq> tp_name param" for name
    using that by (simp add: Metadata_GetTable_def add(3) map_add_def split: option.split)
  moreover have "Metadata_AddTable L param md' = Some (-1, md')"
    using get by (simp add: Metadata_AddTable_def Metadata_GetTable_def)
  ultimately show ?thesis using add(2) by blast
qed

theorem added_table_found_witness:
  "\<exists>(md :: (bytes \<times> bytes) list Metadata) r.
     Metadata_GetReplica (ReplicaName3 (lit ''a'') 1 0) md = Some (Some r) \<and> rp_id r = 0"
proof -
  obtain md where md: "meta_reachable alist_store md" "md_tables md = []"
    using fresh_catalogue [OF alist_store.leveldb_store_axioms] by blast
  have name: "tp_name (sample_param (lit ''a'')) = lit ''a''"
    and num: "1 < tp_partition_num (sample_param (lit ''a''))" "0 < tp_replica_num (sample_param (lit ''a''))"
    by (simp_all add: sample_param_def)
  have "Suc (length (md_tables md)) < 2 ^ 20" "Metadata_GetTable (tp_name (sample_param (lit ''a''))) md = None"
    using md(2) by (simp_all add: Metadata_GetTable_def)
  from added_table_found [OF alist_store.leveldb_store_axioms md(1) sample_param_ok(1) this]
  show ?thesis
  proof (elim exE conjE)
    fix md' :: "(bytes \<times> bytes) list Metadata"
    assume "\<forall>i j. 0 \<le> i \<and> i < tp_partition_num (sample_param (lit ''a'')) \<and> 0 \<le> j \<and>
      j < tp_replica_num (sample_param (lit ''a'')) \<longrightarrow>
      (\<exists>p r. Metadata_GetPartition (PartitionName (tp_name (sample_param (lit ''a''))) i) md' = Some (Some p) \<and> pt_id p = i \<and>
        Metadata_GetReplica (ReplicaName3 (tp_name (sample_param (lit ''a''))) i j) md' = Some (Some r) \<and> rp_id r = j \<and>
        (rp_name r, Some r) \<in> set (pt_replicas_by_name p))"
    from this [rule_format, of 1 0] num show ?thesis unfolding name by auto
  qed
qed

text \<open>Uids are not unique over restarts: the counters start at zero again, so when a process adds a
  table, restarts and adds another, the first replicas of both tables have the same uid; and the
  partition uid a replica records is never that of its partition.\<close>

theorem restart_repeats_uids:
  assumes "leveldb_store L" "TableParam_ok a" "TableParam_ok b" "tp_name a \<noteq> tp_name b"
    and "0 < tp_partition_num a" "0 < tp_replica_num a" "0 < tp_partition_num b" "0 < tp_replica_num b"
  shows "\<exists>md0 md1 md2 md3 p r s. Metadata_new L process_start (ldb_open L) = Some md0 \<and>
    Metadata_AddTable L a md0 = Some (0, md1) \<and> Metadata_new L process_start (md_db md1) = Some md2 \<and>
    Metadata_AddTable L b md2 = Some (0, md3) \<and>
    Metadata_GetReplica (ReplicaName3 (tp_name a) 0 0) md3 = Some (Some r) \<and>
    Metadata_GetReplica (ReplicaName3 (tp_name b) 0 0) md3 = Some (Some s) \<and> rp_uid r = rp_uid s \<and>
    Metadata_GetPartition (PartitionName (tp_name b) 0) md3 = Some (Some p) \<and> rp_partition_uid s = pt_uid p + 1"
proof -
  obtain md0 where md0: "Metadata_new L process_start (ldb_open L) = Some md0" "md_tables md0 = []"
    "md_uids md0 = process_start" "meta_reachable L md0" by (rule fresh_catalogue [OF assms(1)])
  obtain t u md1 where md1: "CreateTable a (md_uids md0) = (t, u)" "Metadata_AddTable L a md0 = Some (0, md1)"
    "md_tables md1 = md_tables md0 @ [(tp_name a, t)]" "meta_reachable L md1"
    by (rule reachable_add [OF assms(1) md0(4) assms(2)]) (use md0(2) in \<open>auto simp: Metadata_GetTable_def\<close>)
  let ?md2 = "md1\<lparr>md_uids := process_start\<rparr>"
  have md2: "Metadata_new L process_start (md_db md1) = Some ?md2"
    by (rule new_reads_disk [OF reachable_on_disk [OF assms(1) md1(4)]])
  have reach2: "meta_reachable L ?md2" by (rule meta_reachable.restart [OF md1(4) md2])
  obtain t' u' md3 where md3: "CreateTable b (md_uids ?md2) = (t', u')" "Metadata_AddTable L b ?md2 = Some (0, md3)"
    "md_tables md3 = md_tables ?md2 @ [(tp_name b, t')]" "meta_wf md3"
    by (rule reachable_add [OF assms(1) reach2 assms(3)])
      (use md1(3) md0(2) assms(4) in \<open>auto simp: Metadata_GetTable_def\<close>)
  have gets: "map_of (md_tables md3) (tp_name a) = Some t" "map_of (md_tables md3) (tp_name b) = Some t'"
    using md3(3) md1(3) md0(2) assms(4) by simp_all
  note ta = CreateTable_made(9,10) [OF assms(2) md1(1)] and tb = CreateTable_made(9,10) [OF assms(3) md3(1)]
  have 0: "0 \<in> fst ` set (tb_partitions_by_id t)" "0 \<in> fst ` set (tb_partitions_by_id t')"
    using ta(1) tb(1) assms(5,7) by simp_all
  obtain p where p: "(pt_name p, Some p) \<in> set (tb_partitions_by_name t)" "pt_id p = 0"
    "\<forall>j \<in> fst ` set (pt_replicas_by_id p). \<exists>r. (rp_name r, Some r) \<in> set (pt_replicas_by_name p) \<and>
         rp_id r = j \<and> Metadata_GetReplica (ReplicaName3 (tp_name a) 0 j) md3 = Some (Some r)"
    by (rule GetReplica_wf [OF md3(4) gets(1) 0(1)])
  obtain q where q: "(pt_name q, Some q) \<in> set (tb_partitions_by_name t')" "pt_id q = 0"
    "Metadata_GetPartition (PartitionName (tp_name b) 0) md3 = Some (Some q)"
    "\<forall>j \<in> fst ` set (pt_replicas_by_id q). \<exists>r. (rp_name r, Some r) \<in> set (pt_replicas_by_name q) \<and>
         rp_id r = j \<and> Metadata_GetReplica (ReplicaName3 (tp_name b) 0 j) md3 = Some (Some r)"
    by (rule GetReplica_wf [OF md3(4) gets(2) 0(2)])
  obtain r s where r: "(rp_name r, Some r) \<in> set (pt_replicas_by_name p)" "rp_id r = 0"
      "Metadata_GetReplica (ReplicaName3 (tp_name a) 0 0) md3 = Some (Some r)"
    and s: "(rp_name s, Some s) \<in> set (pt_replicas_by_name q)" "rp_id s = 0"
      "Metadata_GetReplica (ReplicaName3 (tp_name b) 0 0) md3 = Some (Some s)"
    using bspec [OF p(3), of 0] bspec [OF q(4), of 0] ta(2) [OF p(1)] tb(2) [OF q(1)] assms(6,8) by auto
  have "rp_uid r = 0" "rp_uid s = 0" "rp_partition_uid s = pt_uid q + 1"
    using ta(2) [OF p(1), of r] tb(2) [OF q(1), of s] r s p(2) q(2) md0(3) by (simp_all add: process_start_def)
  with md0(1) md1(2) md2 md3(2) r(3) s(3) q(3) show ?thesis by auto
qed

theorem restart_repeats_uids_witness:
  "\<exists>(md :: (bytes \<times> bytes) list Metadata) r s.
     Metadata_GetReplica (ReplicaName3 (lit ''a'') 0 0) md = Some (Some r) \<and>
     Metadata_GetReplica (ReplicaName3 (lit ''b'') 0 0) md = Some (Some s) \<and> rp_uid r = rp_uid s"
proof -
  have name: "tp_name (sample_param x) = x" and num: "0 < tp_partition_num (sample_param x)"
    "0 < tp_replica_num (sample_param x)" for x
    by (simp_all add: sample_param_def)
  have "tp_name (sample_param (lit ''a'')) \<noteq> tp_name (sample_param (lit ''b''))"
    unfolding name by (simp add: lit_def)
  from restart_repeats_uids [OF alist_store.leveldb_store_axioms sample_param_ok this num num]
  show ?thesis unfolding name by blast
qed

end
