(* ===== verification/VecCodec.thy ===== *)
theory VecCodec
  imports MetaStore "HOL-Library.Multiset"
begin

text \<open>
  What the vector engine stores (src/src/vectordb/vengine.cc and vindex.cc): vectors, values with an
  attachment, objects, and the parameters of an index. A \<^verbatim>\<open>float\<close> is its 32-bit pattern, which is
  all that \<^verbatim>\<open>EncodeFloat\<close> and \<^verbatim>\<open>DecodeFloat\<close> use; the order of floats is that of IEEE 754.
\<close>

section \<open>Floats\<close>

type_synonym f32 = u32

definition EncodeFloat :: "f32 \<Rightarrow> bytes" where
  "EncodeFloat value = EncodeFixed32 value"

definition DecodeFloat :: "bytes \<Rightarrow> f32 option" where
  "DecodeFloat ptr = DecodeFixed32 ptr"

definition get_float :: "cursor \<Rightarrow> (f32 \<times> cursor) option" where
  "get_float c = (case c of (p, used) \<Rightarrow> do { v \<leftarrow> DecodeFloat p; Some (v, drop 4 p, used + 4) })"

text \<open>An exponent of ones with a fraction is not a number; the other patterns are ordered by sign and
  magnitude, with one zero.\<close>

definition f32_nan :: "f32 \<Rightarrow> bool" where
  "f32_nan f \<longleftrightarrow> 0x7F800000 < uint (f AND 0x7FFFFFFF)"

definition f32_rank :: "f32 \<Rightarrow> int" where
  "f32_rank f = (if bit f 31 then - uint (f AND 0x7FFFFFFF) else uint (f AND 0x7FFFFFFF))"

definition f32_less :: "f32 \<Rightarrow> f32 \<Rightarrow> bool" where
  "f32_less a b \<longleftrightarrow> \<not> f32_nan a \<and> \<not> f32_nan b \<and> f32_rank a < f32_rank b"

section \<open>Vectors\<close>

record Vec =
  vec_data :: "f32 list"

definition Vec_dim :: "Vec \<Rightarrow> int" where
  "Vec_dim v = sint (of_nat (length (vec_data v)) :: u32)"

definition Vec_MaxBytes :: "Vec \<Rightarrow> int" where
  "Vec_MaxBytes v = 4 + (\<Sum>_ \<leftarrow> vec_data v. 4)"

definition Vec_ToString :: "Vec \<Rightarrow> int \<Rightarrow> bytes option" where
  "Vec_ToString v len = (
     let bs = EncodeFixed32 (of_nat (length (vec_data v))) @ concat (map EncodeFloat (vec_data v))
     in do { check (int (length bs) \<le> len); Some bs })"

text \<open>The loop pushes onto the data that is there already.\<close>

fun get_floats :: "nat \<Rightarrow> cursor \<Rightarrow> (f32 list \<times> cursor) option" where
  "get_floats 0 c = Some ([], c)"
| "get_floats (Suc n) c = do {
     (f, c) \<leftarrow> get_float c;
     (fs, c) \<leftarrow> get_floats n c;
     Some (f # fs, c) }"

definition Vec_FromString :: "Vec \<Rightarrow> bytes \<Rightarrow> int \<Rightarrow> (Vec \<times> int) option" where
  "Vec_FromString old ptr len = do {
     (u32, c) \<leftarrow> get32 (ptr, 0);
     (fs, c) \<leftarrow> get_floats (unat u32) c;
     Some (\<lparr>vec_data = vec_data old @ fs\<rparr>, snd c) }"

record VecValue =
  vv_vec :: Vec
  vv_attach_value :: bytes

definition VecValue_empty :: VecValue where
  "VecValue_empty = \<lparr>vv_vec = \<lparr>vec_data = []\<rparr>, vv_attach_value = []\<rparr>"

definition VecValue_dim :: "VecValue \<Rightarrow> int" where
  "VecValue_dim vv = Vec_dim (vv_vec vv)"

definition VecValue_MaxBytes :: "VecValue \<Rightarrow> int" where
  "VecValue_MaxBytes vv = Vec_MaxBytes (vv_vec vv) + 2 * 4 + int (length (vv_attach_value vv))"

definition VecValue_ToString :: "VecValue \<Rightarrow> int \<Rightarrow> bytes option" where
  "VecValue_ToString vv len = do {
     v \<leftarrow> Vec_ToString (vv_vec vv) len;
     check (0 < length v);
     let bs = v @ EncodeString2 (vv_attach_value vv);
     check (int (length bs) \<le> len);
     Some bs }"

definition VecValue_FromString :: "VecValue \<Rightarrow> bytes \<Rightarrow> int \<Rightarrow> (VecValue \<times> int) option" where
  "VecValue_FromString old ptr len = do {
     (v, sz) \<leftarrow> Vec_FromString (vv_vec old) ptr len;
     check (0 \<le> sz);
     (attach_value, c) \<leftarrow> get_string [] (size_t (len - sz)) (drop (nat sz) ptr, sz);
     Some (\<lparr>vv_vec = v, vv_attach_value = attach_value\<rparr>, snd c) }"

record VecObj =
  vo_key :: bytes
  vo_vv :: VecValue

definition VecObj_dim :: "VecObj \<Rightarrow> int" where
  "VecObj_dim vo = VecValue_dim (vo_vv vo)"

definition VecObj_MaxBytes :: "VecObj \<Rightarrow> int" where
  "VecObj_MaxBytes vo = 2 * 4 + int (length (vo_key vo)) + VecValue_MaxBytes (vo_vv vo)"

definition VecObj_ToString :: "VecObj \<Rightarrow> int \<Rightarrow> bytes option" where
  "VecObj_ToString vo len = do {
     let k = EncodeString2 (vo_key vo);
     v \<leftarrow> VecValue_ToString (vo_vv vo) (len - int (length k));
     check (0 < length v);
     check (int (length (k @ v)) \<le> len);
     Some (k @ v) }"

definition VecObj_FromString :: "VecObj \<Rightarrow> bytes \<Rightarrow> int \<Rightarrow> (VecObj \<times> int) option" where
  "VecObj_FromString old ptr len = do {
     (key, c) \<leftarrow> get_string [] (size_t len) (ptr, 0);
     (vv, bytes) \<leftarrow> VecValue_FromString (vo_vv old) (fst c) (len - snd c);
     check (0 \<le> bytes);
     Some (\<lparr>vo_key = key, vo_vv = vv\<rparr>, snd c + bytes) }"

section \<open>Index parameters\<close>

datatype VIndexType = kIndexAnnoy | kIndexNum

fun VIndexType_u8 :: "VIndexType \<Rightarrow> u8" where
  "VIndexType_u8 kIndexAnnoy = 0"
| "VIndexType_u8 kIndexNum = 1"

definition U82VIndexType :: "u8 \<Rightarrow> VIndexType option" where
  "U82VIndexType u8 = (if u8 = 0 then Some kIndexAnnoy else None)"

fun VIndexType2Str :: "VIndexType \<Rightarrow> bytes" where
  "VIndexType2Str kIndexAnnoy = lit ''IndexAnnoy''"
| "VIndexType2Str kIndexNum = lit ''UnknownIndexType''"

datatype DistanceType = kCosine | kInnerProduct | kEuclidean

fun DistanceType_u8 :: "DistanceType \<Rightarrow> u8" where
  "DistanceType_u8 kCosine = 0"
| "DistanceType_u8 kInnerProduct = 1"
| "DistanceType_u8 kEuclidean = 2"

definition U82DistanceType :: "u8 \<Rightarrow> DistanceType option" where
  "U82DistanceType u8 =
     (if u8 = 0 then Some kCosine else if u8 = 1 then Some kInnerProduct
      else if u8 = 2 then Some kEuclidean else None)"

fun DistanceType2Str :: "DistanceType \<Rightarrow> bytes" where
  "DistanceType2Str kCosine = lit ''Cosine''"
| "DistanceType2Str kInnerProduct = lit ''InnerProduct''"
| "DistanceType2Str kEuclidean = lit ''Euclidean''"

record VIndexParam =
  ip_path :: bytes
  ip_timestamp :: u64
  ip_dim :: int
  ip_index_type :: VIndexType
  ip_distance_type :: DistanceType
  ip_annoy_tree_num :: int

definition VIndexParam_MaxBytes :: "VIndexParam \<Rightarrow> int" where
  "VIndexParam_MaxBytes m = 2 * 4 + int (length (ip_path m)) + 8 + 4 + 1 + 1 + 4"

definition VIndexParam_ToString :: "VIndexParam \<Rightarrow> int \<Rightarrow> bytes option" where
  "VIndexParam_ToString m len = (
     let bs = EncodeString2 (ip_path m) @ EncodeFixed64 (ip_timestamp m) @ put_i32 (ip_dim m) @
       EncodeFixed8 (VIndexType_u8 (ip_index_type m)) @ EncodeFixed8 (DistanceType_u8 (ip_distance_type m)) @
       put_i32 (ip_annoy_tree_num m)
     in do { check (int (length bs) \<le> len); Some bs })"

definition VIndexParam_FromString :: "bytes \<Rightarrow> int \<Rightarrow> (VIndexParam \<times> int) option" where
  "VIndexParam_FromString ptr len = do {
     (path, c) \<leftarrow> get_string [] (size_t len) (ptr, 0);
     (timestamp, c) \<leftarrow> get64 c;
     (dim, c) \<leftarrow> get_i32 c;
     (u8, c) \<leftarrow> get8 c;
     index_type \<leftarrow> U82VIndexType u8;
     (u8, c) \<leftarrow> get8 c;
     distance_type \<leftarrow> U82DistanceType u8;
     (annoy_tree_num, c) \<leftarrow> get_i32 c;
     Some (\<lparr>ip_path = path, ip_timestamp = timestamp, ip_dim = dim, ip_index_type = index_type,
            ip_distance_type = distance_type, ip_annoy_tree_num = annoy_tree_num\<rparr>, snd c) }"

section \<open>Search results\<close>

record VecResult =
  vr_key :: bytes
  vr_attach_value :: bytes
  vr_distance :: f32

definition VecResult_less :: "VecResult \<Rightarrow> VecResult \<Rightarrow> bool" where
  "VecResult_less a b = f32_less (vr_distance a) (vr_distance b)"

text \<open>\<^verbatim>\<open>std::sort\<close> on results. The comparison is an order as long as no distance is a NaN; otherwise the
  call is undefined. Of results at the same distance the first stays first here, an order
  \<^verbatim>\<open>std::sort\<close> leaves open and no theorem uses.\<close>

definition sort_results :: "VecResult list \<Rightarrow> VecResult list option" where
  "sort_results rs = do {
     check (length rs \<le> 1 \<or> list_all (\<lambda>r. \<not> f32_nan (vr_distance r)) rs);
     Some (sort_key (\<lambda>r. f32_rank (vr_distance r)) rs) }"

section \<open>Reading back\<close>

lemma EncodeFloat_length [simp, codec_length]: "length (EncodeFloat f) = 4"
  by (simp add: EncodeFloat_def)

lemma get_float_put [simp, codec_simps]: "get_float (EncodeFloat f @ r, used) = Some (f, r, used + 4)"
  by (simp add: get_float_def EncodeFloat_def DecodeFloat_def)

lemma length_floats [simp]: "length (concat (map EncodeFloat fs)) = 4 * length fs"
  by (induction fs) auto

lemma get_floats_put:
  "get_floats (length fs) (concat (map EncodeFloat fs) @ r, used) = Some (fs, r, used + 4 * int (length fs))"
  by (induction fs arbitrary: used) auto

lemma U82VIndexType_u8 [simp, codec_simps]: "U82VIndexType (VIndexType_u8 kIndexAnnoy) = Some kIndexAnnoy"
  by (simp add: U82VIndexType_def)

lemma U82DistanceType_u8 [simp, codec_simps]: "U82DistanceType (DistanceType_u8 t) = Some t"
  by (cases t) (simp_all add: U82DistanceType_def)

definition Vec_ok :: "Vec \<Rightarrow> bool" where
  "Vec_ok v \<longleftrightarrow> length (vec_data v) < 2 ^ 20"

definition VecValue_ok :: "VecValue \<Rightarrow> bool" where
  "VecValue_ok vv \<longleftrightarrow> Vec_ok (vv_vec vv) \<and> short (vv_attach_value vv)"

definition VecObj_ok :: "VecObj \<Rightarrow> bool" where
  "VecObj_ok vo \<longleftrightarrow> short (vo_key vo) \<and> VecValue_ok (vo_vv vo)"

definition VIndexParam_ok :: "VIndexParam \<Rightarrow> bool" where
  "VIndexParam_ok m \<longleftrightarrow> short (ip_path m) \<and> int32 (ip_dim m) \<and> ip_index_type m = kIndexAnnoy \<and>
     int32 (ip_annoy_tree_num m)"

lemma Vec_dim_ok: "Vec_ok v \<Longrightarrow> Vec_dim v = int (length (vec_data v))"
  by (simp add: Vec_ok_def Vec_dim_def sint_of_nat_small)

definition vec_enc :: "Vec \<Rightarrow> bytes" where
  "vec_enc v = EncodeFixed32 (of_nat (length (vec_data v))) @ concat (map EncodeFloat (vec_data v))"

definition vec_value_enc :: "VecValue \<Rightarrow> bytes" where
  "vec_value_enc vv = vec_enc (vv_vec vv) @ EncodeString2 (vv_attach_value vv)"

lemma vec_enc_length [simp]: "length (vec_enc v) = 4 + 4 * length (vec_data v)"
  by (simp add: vec_enc_def)

lemma vec_enc_not_Nil [simp]: "vec_enc v \<noteq> []"
  by (simp flip: length_0_conv)

lemma vec_value_enc_not_Nil [simp]: "vec_value_enc v \<noteq> []"
  by (simp add: vec_value_enc_def)

lemma vec_value_enc_length:
  "VecValue_ok vv \<Longrightarrow> length (vec_value_enc vv) = 5 + 4 * length (vec_data (vv_vec vv)) + length (vv_attach_value vv)"
  by (simp add: vec_value_enc_def VecValue_ok_def EncodeString2_length_short)

lemma Vec_encoded: "Vec_MaxBytes v \<le> len \<Longrightarrow> Vec_ToString v len = Some (vec_enc v)"
  by (simp add: Vec_ToString_def Vec_MaxBytes_def Let_def flip: vec_enc_def)

lemma Vec_decoded:
  assumes "Vec_ok v"
  shows "Vec_FromString \<lparr>vec_data = []\<rparr> (vec_enc v @ r) len = Some (v, int (length (vec_enc v)))"
proof -
  have "unat (of_nat (length (vec_data v)) :: u32) = length (vec_data v)"
    using assms by (simp add: Vec_ok_def unat_of_nat take_bit_nat_eq_self)
  then show ?thesis by (simp add: Vec_FromString_def get32_def get_floats_put vec_enc_def)
qed

lemma VecValue_encoded:
  assumes "VecValue_ok vv" "VecValue_MaxBytes vv \<le> len"
  shows "VecValue_ToString vv len = Some (vec_value_enc vv)"
proof -
  have "Vec_MaxBytes (vv_vec vv) \<le> len" "int (length (vec_value_enc vv)) \<le> len"
    using assms(2) vec_value_enc_length [OF assms(1)] by (simp_all add: VecValue_MaxBytes_def Vec_MaxBytes_def)
  then show ?thesis by (simp add: VecValue_ToString_def Vec_encoded vec_value_enc_def)
qed

lemma VecValue_decoded:
  assumes "VecValue_ok vv" "vv_vec old = \<lparr>vec_data = []\<rparr>" "int (length (vec_value_enc vv)) \<le> len" "len < 2 ^ 31"
  shows "VecValue_FromString old (vec_value_enc vv @ r) len = Some (vv, int (length (vec_value_enc vv)))"
proof -
  let ?n = "length (vec_enc (vv_vec vv))" and ?a = "vv_attach_value vv"
  have ok: "Vec_ok (vv_vec vv)" "short ?a" using assms(1) by (simp_all add: VecValue_ok_def)
  have "Suc (length ?a) \<le> size_t (len - int ?n)"
    using assms(3,4) vec_value_enc_length [OF assms(1)] by (simp add: size_t_small)
  from get_string_short [OF ok(2) this]
  have str: "get_string [] (size_t (len - int ?n)) (EncodeString2 ?a @ r, int ?n) = Some (?a, r, int ?n + 1 + int (length ?a))" .
  have "drop (nat (int ?n)) (vec_enc (vv_vec vv) @ EncodeString2 ?a @ r) = EncodeString2 ?a @ r" by simp
  with str show ?thesis
    using Vec_decoded [OF ok(1), of "EncodeString2 ?a @ r" len] vec_value_enc_length [OF assms(1)]
    by (simp add: VecValue_FromString_def assms(2) vec_value_enc_def del: nat_int)
qed

section \<open>The structs implement the interface\<close>

interpretation vec: message_codec Vec_MaxBytes Vec_ToString Vec_FromString Vec_ok
    "\<lambda>v. v = \<lparr>vec_data = []\<rparr>" "\<lambda>v. v" 0
proof (unfold_locales, goal_cases)
  case (1 v)
  then show ?case
    using Vec_encoded [OF order.refl, of v] by (simp add: Vec_MaxBytes_def Vec_ok_def)
next
  case (2 v old bs r)
  then show ?case using Vec_encoded [OF order.refl, of v] Vec_decoded [OF 2(1)] by auto
qed

interpretation vec_value: message_codec VecValue_MaxBytes VecValue_ToString VecValue_FromString VecValue_ok
    "\<lambda>vv. vv_vec vv = \<lparr>vec_data = []\<rparr>" "\<lambda>vv. vv" 0
proof (unfold_locales, goal_cases)
  case (1 vv)
  then show ?case
    using VecValue_encoded [OF 1 order.refl] vec_value_enc_length [OF 1]
    by (simp add: VecValue_MaxBytes_def Vec_MaxBytes_def VecValue_ok_def Vec_ok_def)
next
  case (2 vv old bs r)
  have "length (vec_value_enc vv) < 2 ^ 31" "0 < length (vec_value_enc vv)"
    using vec_value_enc_length [OF 2(1)] 2(1) by (simp_all add: VecValue_ok_def Vec_ok_def)
  then show ?case
    using VecValue_encoded [OF 2(1) order.refl] VecValue_decoded [OF 2(1,2), of _ r] 2(3) by fastforce
qed

interpretation vec_obj: message_codec VecObj_MaxBytes VecObj_ToString VecObj_FromString VecObj_ok
    "\<lambda>vo. vv_vec (vo_vv vo) = \<lparr>vec_data = []\<rparr>" "\<lambda>vo. vo" 0
proof (unfold_locales, goal_cases)
  case (1 vo)
  then have ok: "short (vo_key vo)" "VecValue_ok (vo_vv vo)" by (simp_all add: VecObj_ok_def)
  then show ?case
    using VecValue_encoded [OF ok(2)] vec_value_enc_length [OF ok(2)]
    by (simp add: VecObj_MaxBytes_def VecObj_ToString_def VecValue_MaxBytes_def Vec_MaxBytes_def
        EncodeString2_length_short Vec_ok_def VecValue_ok_def)
next
  case (2 vo old bs r)
  then have ok: "short (vo_key vo)" "VecValue_ok (vo_vv vo)" by (simp_all add: VecObj_ok_def)
  let ?v = "vec_value_enc (vo_vv vo)"
  have small: "length ?v < 2 ^ 30" using ok(2) vec_value_enc_length [OF ok(2)] by (simp add: VecValue_ok_def Vec_ok_def)
  have bs: "bs = EncodeString2 (vo_key vo) @ ?v"
    using 2(3) VecValue_encoded [OF ok(2)] ok(1)
    by (auto simp: VecObj_ToString_def VecObj_MaxBytes_def EncodeString2_length_short split: if_splits)
  have "get_string [] (size_t (int (length bs))) (EncodeString2 (vo_key vo) @ ?v @ r, 0) =
      Some (vo_key vo, ?v @ r, 0 + 1 + int (length (vo_key vo)))"
    using ok(1) small bs by (intro get_string_short) (simp_all add: EncodeString2_length_short size_t_small)
  moreover have "VecValue_FromString (vo_vv old) (?v @ r) (int (length ?v)) = Some (vo_vv vo, int (length ?v))"
    using small by (intro VecValue_decoded ok(2) 2(2)) simp_all
  ultimately show ?case using ok(1) by (simp add: VecObj_FromString_def bs EncodeString2_length_short)
qed

interpretation vindex_param: message_codec VIndexParam_MaxBytes VIndexParam_ToString "\<lambda>_. VIndexParam_FromString"
    VIndexParam_ok "\<lambda>_. True" "\<lambda>m. m" 0
proof (unfold_locales, goal_cases)
  case (1 m)
  then show ?case
    by (simp add: VIndexParam_ok_def VIndexParam_MaxBytes_def VIndexParam_ToString_def Let_def EncodeString2_length_short)
next
  case (2 m old bs r)
  then have "short (ip_path m)" "int32 (ip_dim m)" "int32 (ip_annoy_tree_num m)" "ip_index_type m = kIndexAnnoy"
    by (simp_all add: VIndexParam_ok_def)
  with 2(3) show ?case
    by (auto simp: VIndexParam_ToString_def VIndexParam_FromString_def Let_def get_string_short get64_def get8_def
        EncodeString2_length_short size_t_small U82VIndexType_def EncodeFixed8_def split: if_splits)
qed

section \<open>Order of floats\<close>

text \<open>The comparison is a strict weak order on the patterns that are numbers, which is what
  \<^verbatim>\<open>std::sort\<close> needs.\<close>

lemma f32_less_irrefl: "\<not> f32_less a a"
  by (simp add: f32_less_def)

lemma f32_less_trans: "f32_less a b \<Longrightarrow> f32_less b c \<Longrightarrow> f32_less a c"
  by (simp add: f32_less_def)

lemma sort_results_sorted:
  assumes "sort_results rs = Some rs'"
  shows "mset rs' = mset rs" "sorted_wrt (\<lambda>a b. \<not> VecResult_less b a) rs'"
proof -
  let ?f = "\<lambda>r. f32_rank (vr_distance r)"
  have rs': "rs' = sort_key ?f rs" using assms by (simp add: sort_results_def split: if_splits)
  then show "mset rs' = mset rs" by simp
  have "sorted_wrt (\<lambda>a b. ?f a \<le> ?f b) rs'"
    using sorted_sort_key [of ?f rs] by (simp add: rs' sorted_map)
  then show "sorted_wrt (\<lambda>a b. \<not> VecResult_less b a) rs'"
    by (rule sorted_wrt_mono_rel [rotated]) (simp add: VecResult_less_def f32_less_def)
qed

end
