(* ===== verification/VdbParser.thy ===== *)
theory VdbParser
  imports VecCodec
begin

text \<open>
  The command language of the vector database (src/src/vectordb/parser.cc): the words of a line, the
  command they name, and the parameters that follow it. The option library is a parameter.
\<close>

section \<open>Commands\<close>

datatype VectordbCmd = kCmdError | kCmdHelp | kCmdVersion | kCmdQuit | kCmdMeta | kCmdPut | kCmdGet | kCmdDelete |
  kCmdGetKNN | kCmdGetKNN2 | kCmdLoad | kCmdCreateTable | kCmdBuildIndex | kDescTable | kDescPartition |
  kDescDescReplica | kDescDescEngine | kShowTables | kShowPartitions | kShowReplicas | kCmdEnd

fun CmdStr :: "VectordbCmd \<Rightarrow> bytes" where
  "CmdStr kCmdError = lit ''kCmdError''"
| "CmdStr kCmdHelp = lit ''kCmdHelp''"
| "CmdStr kCmdVersion = lit ''kCmdVersion''"
| "CmdStr kCmdQuit = lit ''kCmdQuit''"
| "CmdStr kCmdMeta = lit ''kMeta''"
| "CmdStr kCmdPut = lit ''kCmdPut''"
| "CmdStr kCmdGet = lit ''kCmdGet''"
| "CmdStr kCmdDelete = lit ''kCmdDelete''"
| "CmdStr kCmdGetKNN = lit ''kCmdGetKNN''"
| "CmdStr kCmdGetKNN2 = lit ''kCmdGetKNN2''"
| "CmdStr kCmdLoad = lit ''kCmdLoad''"
| "CmdStr kCmdCreateTable = lit ''kCmdCreateTable''"
| "CmdStr kCmdBuildIndex = lit ''kCmdBuildIndex''"
| "CmdStr kDescTable = lit ''kDescTable''"
| "CmdStr kDescPartition = lit ''kDescPartition''"
| "CmdStr kDescDescReplica = lit ''kDescDescReplica''"
| "CmdStr kDescDescEngine = lit ''kDescDescEngine''"
| "CmdStr kShowTables = lit ''kShowTables''"
| "CmdStr kShowPartitions = lit ''kShowPartitions''"
| "CmdStr kShowReplicas = lit ''kShowReplicas''"
| "CmdStr kCmdEnd = lit ''kCmdError''"

fun example_cmdstr :: "VectordbCmd \<Rightarrow> bytes" where
  "example_cmdstr kCmdHelp = lit ''help''"
| "example_cmdstr kCmdVersion = lit ''version''"
| "example_cmdstr kCmdQuit = lit ''quit''"
| "example_cmdstr kCmdMeta = lit ''meta''"
| "example_cmdstr kCmdPut = lit ''put --table=test-table --key=key_0 '' @
     lit ''--vec=0.435852,0.031869,0.161108,0.055670,0.846847,0.604385,0.'' @
     lit ''075282,0.386435,0.407000,0.101307 '' @ lit ''--attach_value=aaavvv''"
| "example_cmdstr kCmdGet = lit ''get --table=test-table --key=key_0''"
| "example_cmdstr kCmdDelete = lit ''del --table=test-table --key=key_0''"
| "example_cmdstr kCmdGetKNN = lit ''getknn --table=test-table --key=key_0 --limit=20''"
| "example_cmdstr kCmdGetKNN2 = lit ''getknn --table=test-table '' @
     lit ''--vec=0.435852,0.031869,0.161108,0.055670,0.846847,0.604385,0.'' @
     lit ''075282,0.386435,0.407000,0.101307 '' @ lit ''--limit=20''"
| "example_cmdstr kCmdLoad = lit ''load --table=test-table --file=/tmp/vec.txt''"
| "example_cmdstr kCmdCreateTable = lit ''create table --name=test-table --partition_num=10 --replica_num=3 '' @ lit ''--dim=10''"
| "example_cmdstr kCmdBuildIndex = lit ''build index --table=test-table --annoy_tree_num=10''"
| "example_cmdstr kDescTable = lit ''desc table test-table''"
| "example_cmdstr kDescPartition = lit ''desc partition test-table#0''"
| "example_cmdstr kDescDescReplica = lit ''desc replica test-table#0#0''"
| "example_cmdstr kDescDescEngine = lit ''desc engine test-table#0#0''"
| "example_cmdstr kShowTables = lit ''show tables''"
| "example_cmdstr kShowPartitions = lit ''show partitions''"
| "example_cmdstr kShowReplicas = lit ''show replicas''"
| "example_cmdstr cmd = []"

text \<open>The commands from \<^verbatim>\<open>kCmdHelp\<close> up to \<^verbatim>\<open>kCmdEnd\<close>.\<close>

definition help_cmds :: "VectordbCmd list" where
  "help_cmds = [kCmdHelp, kCmdVersion, kCmdQuit, kCmdMeta, kCmdPut, kCmdGet, kCmdDelete, kCmdGetKNN, kCmdGetKNN2,
     kCmdLoad, kCmdCreateTable, kCmdBuildIndex, kDescTable, kDescPartition, kDescDescReplica, kDescDescEngine,
     kShowTables, kShowPartitions, kShowReplicas]"

definition HelpStr :: bytes where
  "HelpStr = lit ''example:'' @ [0x0A, 0x0A] @ concat (map (\<lambda>cmd. example_cmdstr cmd @ [0x0A]) help_cmds)"

section \<open>Words\<close>

definition MergeString :: "bytes list \<Rightarrow> bytes" where
  "MergeString strs = concat (map (\<lambda>s. s @ lit '' '') strs)"

text \<open>Reading words from a stream skips white space; each is then copied up to its first zero.\<close>

definition is_space :: "u8 \<Rightarrow> bool" where
  "is_space c \<longleftrightarrow> c = 0x20 \<or> 0x09 \<le> c \<and> c \<le> 0x0D"

fun stream_words :: "bytes \<Rightarrow> bytes \<Rightarrow> bytes list" where
  "stream_words token [] = (if token = [] then [] else [token])"
| "stream_words token (c # cs) =
     (if is_space c then (if token = [] then stream_words [] cs else token # stream_words [] cs)
      else stream_words (token @ [c]) cs)"

definition ConvertStringToArgcArgv :: "bytes \<Rightarrow> bytes list" where
  "ConvertStringToArgcArgv s = map c_str (stream_words [] s)"

section \<open>The command of a line\<close>

text \<open>The two commands of two words. Comparing the second word reads past the end of a line of one.\<close>

definition two_words :: "VectordbCmd \<Rightarrow> bytes \<Rightarrow> bytes list \<Rightarrow> (VectordbCmd \<times> bytes list) option" where
  "two_words cmd cmd_arg2 result = do {
     check (1 < length result);
     Some (if result ! 1 = cmd_arg2 \<and> 2 < length result
           then (cmd, ConvertStringToArgcArgv (CmdStr cmd @ lit '' '' @ MergeString (drop 2 result)))
           else (kCmdError, [])) }"

definition desc_words :: "bytes list \<Rightarrow> VectordbCmd \<times> bytes list" where
  "desc_words result =
     (if length result = 3 then
        let cmd = (if result ! 1 = lit ''table'' then kDescTable
                   else if result ! 1 = lit ''partition'' then kDescPartition
                   else if result ! 1 = lit ''replica'' then kDescDescReplica
                   else if result ! 1 = lit ''engine'' then kDescDescEngine
                   else kCmdError)
        in if cmd = kCmdError then (kCmdError, [])
           else (cmd, ConvertStringToArgcArgv (CmdStr cmd @ lit '' --name='' @ result ! 2))
      else (kCmdError, []))"

definition show_words :: "bytes list \<Rightarrow> VectordbCmd \<times> bytes list" where
  "show_words result =
     (if length result = 2 then
        let cmd = (if result ! 1 = lit ''tables'' then kShowTables
                   else if result ! 1 = lit ''partitions'' then kShowPartitions
                   else if result ! 1 = lit ''replicas'' then kShowReplicas
                   else kCmdError)
        in if cmd = kCmdError then (kCmdError, []) else (cmd, ConvertStringToArgcArgv (CmdStr cmd))
      else (kCmdError, []))"

text \<open>A command alone on its line, and a command whose whole line becomes the arguments.\<close>

definition one_word :: "VectordbCmd \<Rightarrow> bytes list \<Rightarrow> VectordbCmd \<times> bytes list" where
  "one_word cmd result = (if length result = 1 then (cmd, ConvertStringToArgcArgv (CmdStr cmd)) else (kCmdError, []))"

definition whole_line :: "VectordbCmd \<Rightarrow> nat list \<Rightarrow> bytes list \<Rightarrow> bytes \<Rightarrow> VectordbCmd \<times> bytes list" where
  "whole_line cmd sizes result cmd_line =
     (if length result \<in> set sizes then (cmd, ConvertStringToArgcArgv cmd_line) else (kCmdError, []))"

definition GetCmd :: "bytes \<Rightarrow> (VectordbCmd \<times> bytes list) option" where
  "GetCmd cmd_line = (
     let result = Split cmd_line 0x20 in
     if length result = 0 then Some (kCmdError, [])
     else if result ! 0 = lit ''create'' then two_words kCmdCreateTable (lit ''table'') result
     else if result ! 0 = lit ''build'' then two_words kCmdBuildIndex (lit ''index'') result
     else if result ! 0 = lit ''desc'' then Some (desc_words result)
     else if result ! 0 = lit ''show'' then Some (show_words result)
     else if result ! 0 = lit ''help'' then Some (one_word kCmdHelp result)
     else if result ! 0 = lit ''version'' then Some (one_word kCmdVersion result)
     else if result ! 0 = lit ''quit'' then Some (one_word kCmdQuit result)
     else if result ! 0 = lit ''meta'' then Some (one_word kCmdMeta result)
     else if result ! 0 = lit ''put'' then Some (whole_line kCmdPut [4, 5] result cmd_line)
     else if result ! 0 = lit ''get'' then Some (whole_line kCmdGet [3] result cmd_line)
     else if result ! 0 = lit ''del'' then Some (whole_line kCmdDelete [3] result cmd_line)
     else if result ! 0 = lit ''getknn'' then Some (whole_line kCmdGetKNN [4] result cmd_line)
     else if result ! 0 = lit ''load'' then Some (whole_line kCmdLoad [3] result cmd_line)
     else Some (kCmdError, []))"

section \<open>Options\<close>

text \<open>The option library: from declarations and arguments to the values given, by name; \<open>None\<close> is the
  exception it throws. A value is there only when the option was given, whatever its default.\<close>

datatype opt_kind = OptString | OptInt32

record opt_values =
  ov_string :: "bytes \<rightharpoonup> bytes"
  ov_int :: "bytes \<rightharpoonup> int"

type_synonym cxxopts = "(bytes \<times> opt_kind \<times> bytes) list \<Rightarrow> bytes list \<Rightarrow> opt_values option"

definition parser_options :: "(bytes \<times> opt_kind \<times> bytes) list" where
  "parser_options = [(lit ''name'', OptString, []), (lit ''partition_num'', OptInt32, lit ''0''),
     (lit ''replica_num'', OptInt32, lit ''0''), (lit ''dim'', OptInt32, lit ''0''),
     (lit ''annoy_tree_num'', OptInt32, lit ''10''), (lit ''key'', OptString, []), (lit ''attach_value'', OptString, []),
     (lit ''vec'', OptString, []), (lit ''table'', OptString, []), (lit ''limit'', OptInt32, lit ''0''),
     (lit ''file'', OptString, [])]"

record Parser =
  ps_argv :: "bytes list"
  ps_cmd :: VectordbCmd
  ps_cmd_line :: bytes
  ps_name :: bytes
  ps_partition_num :: int
  ps_replica_num :: int
  ps_dim :: int
  ps_annoy_tree_num :: int
  ps_key :: bytes
  ps_vec :: "f32 list"
  ps_attach_value :: bytes
  ps_table :: bytes
  ps_limit :: int
  ps_file :: bytes

text \<open>The numbers of a vector: a part that is not a number leaves the variable without a value.\<close>

definition scan_floats :: "(bytes \<Rightarrow> f32 option) \<Rightarrow> bytes \<Rightarrow> f32 list option" where
  "scan_floats sscanf float_vec_str = (
     let result = Split float_vec_str 0x2C
     in do { check (list_all (\<lambda>item. sscanf item \<noteq> None) result); Some (List.map_filter sscanf result) })"

definition take_options :: "(bytes \<Rightarrow> f32 option) \<Rightarrow> opt_values \<Rightarrow> Parser \<Rightarrow> Parser option" where
  "take_options sscanf v p = do {
     let str = (\<lambda>name old. case ov_string v (lit name) of Some s \<Rightarrow> s | None \<Rightarrow> old);
     let num = (\<lambda>name old. case ov_int v (lit name) of Some i \<Rightarrow> i | None \<Rightarrow> old);
     vec \<leftarrow> (case ov_string v (lit ''vec'') of
               Some s \<Rightarrow> do { fs \<leftarrow> scan_floats sscanf s; Some (ps_vec p @ fs) }
             | None \<Rightarrow> Some (ps_vec p));
     Some (p\<lparr>ps_name := str ''name'' (ps_name p), ps_partition_num := num ''partition_num'' (ps_partition_num p),
       ps_replica_num := num ''replica_num'' (ps_replica_num p), ps_dim := num ''dim'' (ps_dim p),
       ps_annoy_tree_num := num ''annoy_tree_num'' (ps_annoy_tree_num p), ps_key := str ''key'' (ps_key p),
       ps_attach_value := str ''attach_value'' (ps_attach_value p), ps_table := str ''table'' (ps_table p),
       ps_vec := vec, ps_limit := num ''limit'' (ps_limit p), ps_file := str ''file'' (ps_file p)\<rparr>) }"

definition Parser_Parse :: "cxxopts \<Rightarrow> (bytes \<Rightarrow> f32 option) \<Rightarrow> Parser \<Rightarrow> Parser option" where
  "Parser_Parse opts sscanf p = do {
     let cmd_line = DelTails (DelHead (ps_cmd_line p) (lit '' '')) (lit '' ;'');
     (cmd, argv) \<leftarrow> GetCmd cmd_line;
     let p = p\<lparr>ps_cmd_line := cmd_line, ps_cmd := cmd, ps_argv := argv\<rparr>;
     if cmd \<noteq> kCmdError then do {
       check (argv \<noteq> []);
       v \<leftarrow> opts parser_options argv;
       take_options sscanf v p }
     else Some p }"

definition Parser_new :: "cxxopts \<Rightarrow> (bytes \<Rightarrow> f32 option) \<Rightarrow> bytes \<Rightarrow> Parser option" where
  "Parser_new opts sscanf cmd_line = Parser_Parse opts sscanf
     \<lparr>ps_argv = [], ps_cmd = kCmdError, ps_cmd_line = cmd_line, ps_name = [], ps_partition_num = 0, ps_replica_num = 0,
      ps_dim = 0, ps_annoy_tree_num = 0, ps_key = [], ps_vec = [], ps_attach_value = [], ps_table = [], ps_limit = 0,
      ps_file = []\<rparr>"

section \<open>Lines of words\<close>

definition plain_word :: "bytes \<Rightarrow> bool" where
  "plain_word w \<longleftrightarrow> w \<noteq> [] \<and> list_all (\<lambda>c. \<not> is_space c \<and> c \<noteq> 0) w"

definition line_of :: "bytes \<Rightarrow> bytes list \<Rightarrow> bytes" where
  "line_of w ws = w @ concat (map (\<lambda>v. 0x20 # v) ws)"

lemma plain_wordD:
  assumes "plain_word w"
  shows "w \<noteq> []" "0x20 \<notin> set w" "0 \<notin> set w" "c \<in> set w \<Longrightarrow> \<not> is_space c" "c_str w = w"
  using assms by (auto simp: plain_word_def list_all_iff is_space_def c_str_id)

lemma line_of_Cons: "line_of w (v # ws) = w @ 0x20 # line_of v ws"
  by (simp add: line_of_def)

lemma Split_line:
  assumes "list_all plain_word (w # ws)"
  shows "Split (line_of w ws) 0x20 = w # ws"
proof -
  have "Split_loop 0x20 [] result (line_of w ws) = result @ w # ws" for result
    using assms
  proof (induction ws arbitrary: w result)
    case Nil
    then show ?case using plain_wordD(1,2) [of w] by (simp add: line_of_def Split_word(2))
  next
    case (Cons v ws)
    then show ?case using plain_wordD(1,2) [of w] by (simp add: line_of_Cons Split_word(1))
  qed
  then show ?thesis by (simp add: Split_def)
qed

lemma stream_words_skip:
  assumes "\<forall>c \<in> set w. \<not> is_space c"
  shows "stream_words token (w @ cs) = stream_words (token @ w) cs"
  using assms by (induction w arbitrary: token) auto

lemma stream_words_line:
  assumes "list_all plain_word (w # ws)"
  shows "stream_words [] (line_of w ws) = w # ws"
  using assms
proof (induction ws arbitrary: w)
  case Nil
  then show ?case using stream_words_skip [of w "[]" "[]"] plain_wordD(1,4) [of w] by (simp add: line_of_def)
next
  case (Cons v ws)
  have "stream_words [] (w @ 0x20 # line_of v ws) = stream_words w (0x20 # line_of v ws)"
    using stream_words_skip [of w "[]" "0x20 # line_of v ws"] plain_wordD(4) [of w] Cons.prems by simp
  also have "\<dots> = w # stream_words [] (line_of v ws)" using plain_wordD(1) [of w] Cons.prems by (simp add: is_space_def)
  also have "\<dots> = w # v # ws" using Cons by simp
  finally show ?case by (simp add: line_of_Cons)
qed

lemma argv_line:
  assumes "list_all plain_word (w # ws)"
  shows "ConvertStringToArgcArgv (line_of w ws) = w # ws"
  unfolding ConvertStringToArgcArgv_def stream_words_line [OF assms]
  using assms by (intro map_idI) (auto simp: list_all_iff plain_wordD(5))

lemma argv_merged:
  assumes "list_all plain_word (w # ws)"
  shows "ConvertStringToArgcArgv (w @ lit '' '' @ MergeString ws) = w # ws"
proof -
  have "stream_words [] (line_of w ws @ lit '' '') = stream_words [] (line_of w ws)" 
    using assms
  proof (induction ws arbitrary: w)
    case Nil
    then show ?case
      using stream_words_skip [of w "[]" "lit '' ''"] stream_words_skip [of w "[]" "[]"] plain_wordD(1,4) [of w]
      by (simp add: line_of_def lit_def is_space_def)
  next
    case (Cons v ws)
    have skip: "stream_words [] (w @ cs) = stream_words w cs" for cs
      using stream_words_skip [of w "[]" cs] plain_wordD(4) [of w] Cons.prems by simp
    show ?case using Cons plain_wordD(1) [of w] by (simp add: line_of_Cons skip is_space_def)
  qed
  moreover have "w @ lit '' '' @ MergeString ws = line_of w ws @ lit '' ''"
    by (induction ws arbitrary: w) (simp_all add: line_of_def MergeString_def lit_def)
  ultimately have "stream_words [] (w @ lit '' '' @ MergeString ws) = w # ws" using stream_words_line [OF assms] by simp
  then show ?thesis
    unfolding ConvertStringToArgcArgv_def using assms by (simp add: list_all_iff plain_wordD(5) map_idI)
qed

lemma trimmed_line:
  assumes "list_all plain_word (w # ws)" "last (last (w # ws)) \<noteq> 0x3B"
  shows "DelTails (DelHead (line_of w ws) (lit '' '')) (lit '' ;'') = line_of w ws"
proof -
  have ends: "line_of w ws \<noteq> []" "hd (line_of w ws) \<noteq> 0x20" "last (line_of w ws) = last (last (w # ws))"
    if "list_all plain_word (w # ws)" for w ws
    using that
  proof (induction ws arbitrary: w)
    case Nil
    case 1 then show ?case using plain_wordD(1) [of w] by (simp add: line_of_def)
    case 2 then show ?case using plain_wordD(1,2) [of w] by (cases w) (auto simp: line_of_def)
    case 3 then show ?case by (simp add: line_of_def)
  next
    case (Cons v ws)
    case 1 then show ?case by (simp add: line_of_Cons)
    case 2 then show ?case using plain_wordD(1,2) [of w] by (cases w) (auto simp: line_of_Cons)
    case 3 then show ?case using Cons by (simp add: line_of_Cons)
  qed
  have "last (w # ws) \<in> set (w # ws)" by (rule last_in_set) simp
  then have "plain_word (last (w # ws))" using assms(1) unfolding list_all_iff by blast
  then have "last (last (w # ws)) \<noteq> 0x20" using plain_wordD(1,2) [of "last (w # ws)"] last_in_set by metis
  then show ?thesis
    using ends [OF assms(1)] assms(2) by (subst DelHead_none) (simp_all add: DelTails_none lit_def)
qed

section \<open>The contract of the option library\<close>

definition option_arg :: "bytes \<times> bytes \<Rightarrow> bytes" where
  "option_arg x = lit ''--'' @ fst x @ 0x3D # snd x"

definition kind_of :: "(bytes \<times> opt_kind \<times> bytes) list \<Rightarrow> bytes \<rightharpoonup> opt_kind" where
  "kind_of decls = map_of (map (\<lambda>(n, k, d). (n, k)) decls)"

definition option_ok :: "(bytes \<times> opt_kind \<times> bytes) list \<Rightarrow> bytes \<times> bytes \<Rightarrow> bool" where
  "option_ok decls x \<longleftrightarrow> 1 < length (fst x) \<and> 0x3D \<notin> set (fst x) \<and> plain_word (snd x) \<and>
     (case kind_of decls (fst x) of
        None \<Rightarrow> False
      | Some OptString \<Rightarrow> True
      | Some OptInt32 \<Rightarrow> list_all is_digit (snd x) \<and> length (snd x) < 10)"

definition option_values :: "(bytes \<times> opt_kind \<times> bytes) list \<Rightarrow> (bytes \<times> bytes) list \<Rightarrow> opt_values" where
  "option_values decls xs =
     \<lparr>ov_string = (\<lambda>n. if kind_of decls n = Some OptString then map_of xs n else None),
      ov_int = (\<lambda>n. if kind_of decls n = Some OptInt32 then map_option digits_value (map_of xs n) else None)\<rparr>"

text \<open>Declared options, each given once as \<^verbatim>\<open>--name=value\<close>, are read as they are given.\<close>

locale cxxopts_lib =
  fixes opts :: cxxopts
  assumes options_read: "list_all (option_ok decls) xs \<Longrightarrow> distinct (map fst xs) \<Longrightarrow>
    opts decls (program # map option_arg xs) = Some (option_values decls xs)"

definition read_option :: "(bytes \<times> opt_kind \<times> bytes) list \<Rightarrow> bytes \<Rightarrow> (bytes \<times> bytes) option" where
  "read_option decls a = (
     let b = drop 2 a; x = (takeWhile (\<lambda>c. c \<noteq> 0x3D) b, tl (dropWhile (\<lambda>c. c \<noteq> 0x3D) b))
     in if take 2 a = lit ''--'' \<and> option_ok decls x then Some x else None)"

definition long_opts :: cxxopts where
  "long_opts decls argv = do {
     xs \<leftarrow> those (map (read_option decls) (tl argv));
     check (distinct (map fst xs));
     Some (option_values decls xs) }"

interpretation long_opts: cxxopts_lib long_opts
proof
  fix decls xs and program :: bytes
  assume ok: "list_all (option_ok decls) xs" "distinct (map fst xs)"
  have "read_option decls (option_arg x) = Some x" if "option_ok decls x" for x
  proof -
    have "0x3D \<notin> set (fst x)" using that by (simp add: option_ok_def)
    then have "takeWhile (\<lambda>c. c \<noteq> 0x3D) (fst x @ 0x3D # snd x) = fst x" "dropWhile (\<lambda>c. c \<noteq> 0x3D) (fst x @ 0x3D # snd x) = 0x3D # snd x"
      by (subst takeWhile_append2, auto) (subst dropWhile_append2, auto)
    then show ?thesis using that by (simp add: read_option_def option_arg_def lit_def)
  qed
  then have "those (map (read_option decls) (map option_arg xs)) = Some xs"
    using ok(1) by (induction xs) auto
  then show "long_opts decls (program # map option_arg xs) = Some (option_values decls xs)"
    using ok(2) by (simp add: long_opts_def)
qed

section \<open>Parsing commands\<close>

lemma option_word:
  assumes "option_ok parser_options x"
  shows "plain_word (option_arg x)" "last (option_arg x) = last (snd x)"
proof -
  have "kind_of parser_options (fst x) \<noteq> None" using assms by (auto simp: option_ok_def split: option.splits)
  then have "plain_word (fst x)"
    by (auto simp: kind_of_def parser_options_def plain_word_def lit_def is_space_def split: if_splits)
  moreover have "plain_word (snd x)" using assms by (simp add: option_ok_def)
  ultimately show "plain_word (option_arg x)" "last (option_arg x) = last (snd x)"
    by (auto simp: plain_word_def option_arg_def lit_def is_space_def)
qed

lemma option_words:
  assumes "list_all (option_ok parser_options) xs" "plain_word w"
  shows "list_all plain_word (w # map option_arg xs)"
  using assms option_word(1) by (auto simp: list_all_iff)

lemma GetCmd_whole_line:
  assumes "list_all plain_word (w # ws)"
    and "(w, cmd) \<in> {(lit ''put'', kCmdPut), (lit ''get'', kCmdGet), (lit ''del'', kCmdDelete), (lit ''getknn'', kCmdGetKNN), (lit ''load'', kCmdLoad)}"
    and "length ws \<in> (if cmd = kCmdPut then {3, 4} else if cmd = kCmdGetKNN then {3} else {2})"
  shows "GetCmd (line_of w ws) = Some (cmd, w # ws)"
  using assms(2,3) argv_line [OF assms(1)] unfolding GetCmd_def Split_line [OF assms(1)]
  by (auto simp: whole_line_def lit_def)

lemma GetCmd_create:
  assumes "list_all plain_word ws" "ws \<noteq> []"
  shows "GetCmd (line_of (lit ''create'') (lit ''table'' # ws)) = Some (kCmdCreateTable, lit ''kCmdCreateTable'' # ws)"
proof -
  have plain: "list_all plain_word (lit ''create'' # lit ''table'' # ws)" "list_all plain_word (lit ''kCmdCreateTable'' # ws)"
    using assms(1) by (simp_all add: plain_word_def lit_def is_space_def)
  show ?thesis
    using assms(2) unfolding GetCmd_def Split_line [OF plain(1)]
    by (simp add: two_words_def argv_merged [OF plain(2)])
qed

text \<open>A line of a command and its options, as the parser reads it.\<close>

lemma Parser_new_command:
  assumes "cxxopts_lib opts" "list_all plain_word (w # ws)" "last (last (w # ws)) \<noteq> 0x3B"
    and "GetCmd (line_of w ws) = Some (cmd, program # map option_arg xs)" "cmd \<noteq> kCmdError"
    and "list_all (option_ok parser_options) xs" "distinct (map fst xs)"
  shows "Parser_new opts sscanf (line_of w ws) = take_options sscanf (option_values parser_options xs)
    \<lparr>ps_argv = program # map option_arg xs, ps_cmd = cmd, ps_cmd_line = line_of w ws, ps_name = [], ps_partition_num = 0,
     ps_replica_num = 0, ps_dim = 0, ps_annoy_tree_num = 0, ps_key = [], ps_vec = [], ps_attach_value = [], ps_table = [],
     ps_limit = 0, ps_file = []\<rparr>"
  using assms(4,5) cxxopts_lib.options_read [OF assms(1,6,7), of program]
  by (simp add: Parser_new_def Parser_Parse_def trimmed_line [OF assms(2,3)])

section \<open>Properties\<close>

text \<open>The help teaches the language the parser reads: every example it prints is parsed as the command it is an
  example of, where the two forms of a search are one command.\<close>

theorem help_examples_parse:
  "list_all (\<lambda>cmd. \<exists>argv. GetCmd (example_cmdstr cmd) = Some (if cmd = kCmdGetKNN2 then kCmdGetKNN else cmd, argv) \<and> argv \<noteq> [])
    help_cmds"
  by (simp add: help_cmds_def GetCmd_def Split_def lit_def two_words_def desc_words_def show_words_def one_word_def
    whole_line_def ConvertStringToArgcArgv_def is_space_def MergeString_def)

end
