(* ===== verification/VEngine.thy ===== *)
theory VEngine
  imports VecCodec
begin

text \<open>
  The engine of one replica (src/src/vectordb/vengine.cc) with its parts: the dimension kept by
  \<^verbatim>\<open>EngineMeta\<close>, the indices with \<^verbatim>\<open>VindexMeta\<close>, \<^verbatim>\<open>KeyidMeta\<close> and the Annoy library, and the
  \<^verbatim>\<open>VindexManager\<close>. An engine object owns its directory while it is open, because LevelDB locks a
  database; \<open>VEngine_dir\<close> is what it leaves on disk.
\<close>

section \<open>Databases and directories\<close>

definition DB_Open :: "'db leveldb \<Rightarrow> 'db option \<Rightarrow> 'db" where
  "DB_Open L on_disk = (case on_disk of Some db \<Rightarrow> db | None \<Rightarrow> ldb_open L)"

text \<open>The order of LevelDB's default comparator.\<close>

definition BytewiseCompare :: comparator where
  "BytewiseCompare a b = Some (if a < b then - 1 else if b < a then 1 else 0)"

text \<open>\<^verbatim>\<open>mkdir -p\<close> through a command in a buffer of \<open>n\<close> bytes: the directory is there afterwards when
  the command fits and the shell takes the path as one word. Otherwise LevelDB finds no directory to
  open its database in, and the code aborts.\<close>

definition shell_char :: "u8 \<Rightarrow> bool" where
  "shell_char c \<longleftrightarrow> is_digit c \<or> 0x41 \<le> c \<and> c \<le> 0x5A \<or> 0x61 \<le> c \<and> c \<le> 0x7A \<or> c \<in> set (lit ''/._-#:'')"

definition mkdir_p :: "nat \<Rightarrow> bytes \<Rightarrow> bool" where
  "mkdir_p n path \<longleftrightarrow> 9 + length path < n \<and> list_all shell_char path \<and>
     path \<noteq> [] \<and> hd path \<noteq> 0x23 \<and> hd path \<noteq> 0x2D"

section \<open>Dimension\<close>

definition ENGINE_META_KEY_DIM :: bytes where
  "ENGINE_META_KEY_DIM = lit ''dim''"

record 'db EngineMeta =
  em_db :: 'db
  em_dim :: int

definition EngineMeta_PersistDim :: "'db leveldb \<Rightarrow> 'db EngineMeta \<Rightarrow> 'db EngineMeta" where
  "EngineMeta_PersistDim L m =
     m\<lparr>em_db := ldb_write L False [Put ENGINE_META_KEY_DIM (put_i32 (em_dim m))] (em_db m)\<rparr>"

definition EngineMeta_SetDim :: "'db leveldb \<Rightarrow> int \<Rightarrow> 'db EngineMeta \<Rightarrow> 'db EngineMeta" where
  "EngineMeta_SetDim L dim m = EngineMeta_PersistDim L (m\<lparr>em_dim := dim\<rparr>)"

definition EngineMeta_new :: "'db leveldb \<Rightarrow> 'db option \<Rightarrow> 'db EngineMeta option" where
  "EngineMeta_new L on_disk = (
     let db = DB_Open L on_disk in
     case ldb_get L db ENGINE_META_KEY_DIM of
       None \<Rightarrow> Some \<lparr>em_db = ldb_write L False [Put ENGINE_META_KEY_DIM (put_i32 0)] db, em_dim = 0\<rparr>
     | Some value \<Rightarrow> do {
         check (length value = 4);
         u32 \<leftarrow> DecodeFixed32 value;
         Some \<lparr>em_db = db, em_dim = sint u32\<rparr> })"

section \<open>Keys and item numbers of an index\<close>

definition ANNOY_KEY_PREFIX :: bytes where
  "ANNOY_KEY_PREFIX = lit ''key_''"

definition EncodeAnnoyKey :: "bytes \<Rightarrow> bytes" where
  "EncodeAnnoyKey key = ANNOY_KEY_PREFIX @ key"

definition DecodeAnnoyKey :: "bytes \<Rightarrow> bytes option" where
  "DecodeAnnoyKey key = do {
     check (length ANNOY_KEY_PREFIX < length key);
     Some (drop (length ANNOY_KEY_PREFIX) key) }"

definition KeyidMeta_Put_key :: "'db leveldb \<Rightarrow> bytes \<Rightarrow> int \<Rightarrow> 'db \<Rightarrow> 'db" where
  "KeyidMeta_Put_key L vkey ident db = ldb_write L True [Put vkey (put_i32 ident)] db"

definition KeyidMeta_Put_id :: "'db leveldb \<Rightarrow> int \<Rightarrow> bytes \<Rightarrow> 'db \<Rightarrow> 'db" where
  "KeyidMeta_Put_id L ident vkey db = ldb_write L True [Put (put_i32 ident) (EncodeAnnoyKey vkey)] db"

text \<open>The code of the result is followed by the number, or the key, that was found.\<close>

definition KeyidMeta_Get_key :: "'db leveldb \<Rightarrow> bytes \<Rightarrow> 'db \<Rightarrow> (int \<times> int) option" where
  "KeyidMeta_Get_key L vkey db =
     (case ldb_get L db vkey of
        Some value \<Rightarrow> do { u32 \<leftarrow> DecodeFixed32 (value @ [0]); Some (0, sint u32) }
      | None \<Rightarrow> Some (-2, 0))"

definition KeyidMeta_Get_id :: "'db leveldb \<Rightarrow> int \<Rightarrow> 'db \<Rightarrow> (int \<times> bytes) option" where
  "KeyidMeta_Get_id L ident db =
     (case ldb_get L db (put_i32 ident) of
        Some value \<Rightarrow> do { vkey \<leftarrow> DecodeAnnoyKey value; Some (0, vkey) }
      | None \<Rightarrow> Some (-2, []))"

section \<open>Parameters of an index on disk\<close>

definition VINDEX_META_KEY :: bytes where
  "VINDEX_META_KEY = lit ''0''"

record 'db VindexMeta =
  vm_db :: 'db
  vm_param :: VIndexParam

definition VindexMeta_Persist :: "'db leveldb \<Rightarrow> 'db VindexMeta \<Rightarrow> 'db VindexMeta option" where
  "VindexMeta_Persist L m = do {
     value \<leftarrow> VIndexParam_ToString (vm_param m) (VIndexParam_MaxBytes (vm_param m));
     Some (m\<lparr>vm_db := ldb_write L False [Put VINDEX_META_KEY value] (vm_db m)\<rparr>) }"

definition VindexMeta_new :: "'db leveldb \<Rightarrow> 'db option \<Rightarrow> VIndexParam \<Rightarrow> 'db VindexMeta option" where
  "VindexMeta_new L on_disk param =
     (case on_disk of
        None \<Rightarrow> VindexMeta_Persist L \<lparr>vm_db = DB_Open L None, vm_param = param\<rparr>
      | Some db \<Rightarrow> do {
          let value = (case ldb_get L db VINDEX_META_KEY of Some v \<Rightarrow> v | None \<Rightarrow> []);
          (tmp_param, bytes) \<leftarrow> VIndexParam_FromString (value @ [0]) (int (length value));
          check (0 < bytes);
          Some \<lparr>vm_db = db, vm_param = tmp_param\<rparr> })"

section \<open>The Annoy library\<close>

text \<open>The operations of an Annoy index: create, add an item, build the trees, and the two searches, which
  return items and distances. The file that \<^verbatim>\<open>save\<close> writes and \<^verbatim>\<open>load\<close> reads is the built index.\<close>

record 'ann annoy =
  an_new :: "DistanceType \<Rightarrow> int \<Rightarrow> 'ann"
  an_add_item :: "int \<Rightarrow> f32 list \<Rightarrow> 'ann \<Rightarrow> 'ann"
  an_build :: "int \<Rightarrow> 'ann \<Rightarrow> 'ann"
  an_nns_by_item :: "'ann \<Rightarrow> int \<Rightarrow> int \<Rightarrow> int \<Rightarrow> int list \<times> f32 list"
  an_nns_by_vector :: "'ann \<Rightarrow> f32 list \<Rightarrow> int \<Rightarrow> int \<Rightarrow> int list \<times> f32 list"

definition SEARCH_K :: int where
  "SEARCH_K = 1000000"

definition CreateAnnoy :: "'ann annoy \<Rightarrow> VIndexParam \<Rightarrow> 'ann" where
  "CreateAnnoy A param =
     (case ip_distance_type param of
        kCosine \<Rightarrow> an_new A kCosine (ip_dim param)
      | kInnerProduct \<Rightarrow> an_new A kInnerProduct (ip_dim param)
      | kEuclidean \<Rightarrow> an_new A kEuclidean (ip_dim param))"

section \<open>An index\<close>

text \<open>Its directory, and the object. After the constructor nothing in the directory changes.\<close>

record ('db, 'ann) index_dir =
  xd_meta :: "'db option"
  xd_keyid :: "'db option"
  xd_annoy :: "'ann option"

record ('db, 'ann) VindexAnnoy =
  va_param :: VIndexParam
  va_meta :: "'db VindexMeta"
  va_keyid :: 'db
  va_annoy :: 'ann

text \<open>One turn of the loop in \<^verbatim>\<open>Build\<close>; the inner \<open>None\<close> is the return of -1.\<close>

definition build_item :: "'ann annoy \<Rightarrow> 'db leveldb \<Rightarrow> VIndexParam \<Rightarrow> bytes \<times> bytes \<Rightarrow> int \<times> 'db \<times> 'ann \<Rightarrow>
    (int \<times> 'db \<times> 'ann) option option" where
  "build_item A L param row state = (
     let (key, value) = row; (annoy_index_id, keyid, annoy_index) = state in do {
       (vv, bytes) \<leftarrow> VecValue_FromString VecValue_empty (value @ [0]) (int (length value));
       check (0 < bytes);
       if VecValue_dim vv \<noteq> ip_dim param then Some None
       else do {
         let arr = vec_data (vv_vec vv);
         check (arr \<noteq> []);
         let annoy_index = an_add_item A annoy_index_id arr annoy_index;
         let keyid = KeyidMeta_Put_id L annoy_index_id key (KeyidMeta_Put_key L key annoy_index_id keyid);
         check (annoy_index_id < 2 ^ 31 - 1);
         Some (Some (annoy_index_id + 1, keyid, annoy_index)) } })"

fun build_loop :: "'ann annoy \<Rightarrow> 'db leveldb \<Rightarrow> VIndexParam \<Rightarrow> (bytes \<times> bytes) list \<Rightarrow> int \<times> 'db \<times> 'ann \<Rightarrow>
    (int \<times> 'db \<times> 'ann) option option" where
  "build_loop A L param [] state = Some (Some state)"
| "build_loop A L param (row # rows) state = do {
     r \<leftarrow> build_item A L param row state;
     (case r of None \<Rightarrow> Some None | Some state \<Rightarrow> build_loop A L param rows state) }"

definition VindexAnnoy_Build :: "'ann annoy \<Rightarrow> 'db leveldb \<Rightarrow> VIndexParam \<Rightarrow> 'db \<Rightarrow> 'db \<Rightarrow> 'ann \<Rightarrow>
    (int \<times> 'db \<times> 'ann) option" where
  "VindexAnnoy_Build A L param engine_db keyid annoy_index = do {
     r \<leftarrow> build_loop A L param (ldb_scan L BytewiseCompare engine_db) (0, keyid, annoy_index);
     (case r of
        None \<Rightarrow> Some (-1, keyid, annoy_index)
      | Some (_, keyid, annoy_index) \<Rightarrow> Some (0, keyid, an_build A (ip_annoy_tree_num param) annoy_index)) }"

text \<open>The constructor on the directory that is there (\<open>None\<close> when there is none), for an engine with the
  database \<open>engine_db\<close>.\<close>

definition VindexAnnoy_Init :: "'ann annoy \<Rightarrow> 'db leveldb \<Rightarrow> VIndexParam \<Rightarrow> 'db \<Rightarrow> ('db, 'ann) index_dir option \<Rightarrow>
    ('db, 'ann) VindexAnnoy option" where
  "VindexAnnoy_Init A L param engine_db dir = do {
     d \<leftarrow> (case dir of
             None \<Rightarrow> do {
               check (mkdir_p 128 (ip_path param));
               Some \<lparr>xd_meta = None, xd_keyid = None, xd_annoy = None\<rparr> }
           | Some d \<Rightarrow> Some d);
     meta \<leftarrow> VindexMeta_new L (xd_meta d) param;
     let param = vm_param meta;
     let keyid = DB_Open L (xd_keyid d);
     let annoy_index = CreateAnnoy A param;
     (case xd_annoy d of
        None \<Rightarrow> do {
          (rv, keyid, annoy_index) \<leftarrow> VindexAnnoy_Build A L param engine_db keyid annoy_index;
          check (rv = 0);
          Some \<lparr>va_param = param, va_meta = meta, va_keyid = keyid, va_annoy = annoy_index\<rparr> }
      | Some file \<Rightarrow> Some \<lparr>va_param = param, va_meta = meta, va_keyid = keyid, va_annoy = file\<rparr>) }"

definition VindexAnnoy_dir :: "('db, 'ann) VindexAnnoy \<Rightarrow> ('db, 'ann) index_dir" where
  "VindexAnnoy_dir i = \<lparr>xd_meta = Some (vm_db (va_meta i)), xd_keyid = Some (va_keyid i), xd_annoy = Some (va_annoy i)\<rparr>"

section \<open>Managing indices\<close>

text \<open>The indices by their time stamps, in order.\<close>

type_synonym ('db, 'ann) VindexManager = "(u64 \<times> ('db, 'ann) VindexAnnoy) list"

definition VindexManager_HasIndex :: "('db, 'ann) VindexManager \<Rightarrow> bool" where
  "VindexManager_HasIndex m \<longleftrightarrow> 0 < length m"

definition VindexManager_Add :: "('db, 'ann) VindexAnnoy \<Rightarrow> ('db, 'ann) VindexManager \<Rightarrow> ('db, 'ann) VindexManager" where
  "VindexManager_Add index m = map_put (ip_timestamp (va_param index)) index m"

definition VindexManager_Del :: "u64 \<Rightarrow> ('db, 'ann) VindexManager \<Rightarrow> ('db, 'ann) VindexManager" where
  "VindexManager_Del timestamp m = AList.delete timestamp m"

definition VindexManager_Get :: "u64 \<Rightarrow> ('db, 'ann) VindexManager \<Rightarrow> ('db, 'ann) VindexAnnoy option" where
  "VindexManager_Get timestamp m = map_of m timestamp"

definition VindexManager_GetNewest :: "('db, 'ann) VindexManager \<Rightarrow> ('db, 'ann) VindexAnnoy option" where
  "VindexManager_GetNewest m = (if 0 < length m then Some (snd (last m)) else None)"

section \<open>The engine\<close>

record ('db, 'ann) engine_dir =
  ed_meta :: "'db option"
  ed_data :: "'db option"
  ed_index :: "(bytes \<times> ('db, 'ann) index_dir) list"

record ('db, 'ann) VEngine =
  ve_path :: bytes
  ve_meta :: "'db EngineMeta"
  ve_db :: 'db
  ve_index_dirs :: "(bytes \<times> ('db, 'ann) index_dir) list"
  ve_index_manager :: "('db, 'ann) VindexManager"

definition VEngine_dir :: "('db, 'ann) VEngine \<Rightarrow> ('db, 'ann) engine_dir" where
  "VEngine_dir ve = \<lparr>ed_meta = Some (em_db (ve_meta ve)), ed_data = Some (ve_db ve), ed_index = ve_index_dirs ve\<rparr>"

definition VEngine_Init :: "'db leveldb \<Rightarrow> bytes \<Rightarrow> ('db, 'ann) engine_dir \<Rightarrow> ('db, 'ann) VEngine option" where
  "VEngine_Init L path d = do {
     meta \<leftarrow> EngineMeta_new L (ed_meta d);
     Some \<lparr>ve_path = path, ve_meta = meta, ve_db = DB_Open L (ed_data d), ve_index_dirs = ed_index d,
           ve_index_manager = []\<rparr> }"

definition VEngine_new :: "'db leveldb \<Rightarrow> bytes \<Rightarrow> int \<Rightarrow> ('db, 'ann) engine_dir option \<Rightarrow> ('db, 'ann) VEngine option" where
  "VEngine_new L path dim dir = do {
     d \<leftarrow> (case dir of
             None \<Rightarrow> do {
               check (mkdir_p 256 path);
               meta \<leftarrow> EngineMeta_new L None;
               Some \<lparr>ed_meta = Some (em_db (EngineMeta_SetDim L dim meta)), ed_data = None, ed_index = []\<rparr> }
           | Some d \<Rightarrow> Some d);
     VEngine_Init L path d }"

definition VEngine_Dim :: "('db, 'ann) VEngine \<Rightarrow> int" where
  "VEngine_Dim ve = em_dim (ve_meta ve)"

definition VEngine_Put :: "'db leveldb \<Rightarrow> bytes \<Rightarrow> VecValue \<Rightarrow> ('db, 'ann) VEngine \<Rightarrow> (int \<times> ('db, 'ann) VEngine) option" where
  "VEngine_Put L key vv ve =
     (if Vec_dim (vv_vec vv) \<noteq> em_dim (ve_meta ve) then Some (-1, ve)
      else do {
        value \<leftarrow> VecValue_ToString vv (VecValue_MaxBytes vv);
        Some (0, ve\<lparr>ve_db := ldb_write L True [Put key value] (ve_db ve)\<rparr>) })"

text \<open>\<open>vo\<close> is the object the caller passes in; it is left alone when nothing is found.\<close>

definition VEngine_Get :: "'db leveldb \<Rightarrow> bytes \<Rightarrow> VecObj \<Rightarrow> ('db, 'ann) VEngine \<Rightarrow> (int \<times> VecObj) option" where
  "VEngine_Get L key vo ve =
     (case ldb_get L (ve_db ve) key of
        Some value \<Rightarrow> do {
          (vv, bytes) \<leftarrow> VecValue_FromString VecValue_empty (value @ [0]) (int (length value));
          check (0 < bytes);
          Some (0, \<lparr>vo_key = key, vo_vv = vv\<rparr>) }
      | None \<Rightarrow> Some (-2, vo))"

definition VEngine_Delete :: "'db leveldb \<Rightarrow> bytes \<Rightarrow> ('db, 'ann) VEngine \<Rightarrow> int \<times> ('db, 'ann) VEngine" where
  "VEngine_Delete L key ve = (0, ve\<lparr>ve_db := ldb_write L True [Delete key] (ve_db ve)\<rparr>)"

text \<open>A line of a data file: key, numbers and attachment between semicolons. \<open>sscanf\<close> reads one number;
  when it reads none the variable has no value. The inner \<open>None\<close> is a line with the wrong number of parts.\<close>

definition load_line :: "(bytes \<Rightarrow> f32 option) \<Rightarrow> bytes \<Rightarrow> (bytes \<times> VecValue) option option" where
  "load_line sscanf line = (
     let result = Split (DelSpace line) 0x3B in
     if length result \<noteq> 3 then Some None
     else do {
       let r = Split (result ! 1) 0x2C;
       check (list_all (\<lambda>f_str. sscanf f_str \<noteq> None) r);
       Some (Some (result ! 0,
         \<lparr>vv_vec = \<lparr>vec_data = List.map_filter sscanf r\<rparr>, vv_attach_value = result ! 2\<rparr>)) })"

fun VEngine_load_lines :: "'db leveldb \<Rightarrow> (bytes \<Rightarrow> f32 option) \<Rightarrow> bytes list \<Rightarrow> ('db, 'ann) VEngine \<Rightarrow>
    (int \<times> ('db, 'ann) VEngine) option" where
  "VEngine_load_lines L sscanf [] ve = Some (0, ve)"
| "VEngine_load_lines L sscanf (line # lines) ve = do {
     x \<leftarrow> load_line sscanf line;
     (case x of
        None \<Rightarrow> Some (-1, ve)
      | Some (key, vv) \<Rightarrow> do {
          (rv, ve) \<leftarrow> VEngine_Put L key vv ve;
          if rv \<noteq> 0 then Some (rv, ve) else VEngine_load_lines L sscanf lines ve }) }"

text \<open>The lines of the file, or \<open>None\<close> when it cannot be opened.\<close>

definition VEngine_Load :: "'db leveldb \<Rightarrow> (bytes \<Rightarrow> f32 option) \<Rightarrow> bytes list option \<Rightarrow> ('db, 'ann) VEngine \<Rightarrow>
    (int \<times> ('db, 'ann) VEngine) option" where
  "VEngine_Load L sscanf file ve =
     (case file of None \<Rightarrow> Some (-1, ve) | Some lines \<Rightarrow> VEngine_load_lines L sscanf lines ve)"

section \<open>Indices of an engine\<close>

definition VEngine_HasIndex :: "('db, 'ann) VEngine \<Rightarrow> bool" where
  "VEngine_HasIndex ve = VindexManager_HasIndex (ve_index_manager ve)"

record AddIndexParam =
  ai_timestamp :: u64
  ai_dim :: int
  ai_index_type :: VIndexType
  ai_distance_type :: DistanceType
  ai_annoy_tree_num :: int

text \<open>Both ways to an index end here: the object is made on its directory, unless that is in use, and
  handed to the manager.\<close>

definition open_index :: "'ann annoy \<Rightarrow> 'db leveldb \<Rightarrow> VIndexParam \<Rightarrow> ('db, 'ann) VEngine \<Rightarrow> ('db, 'ann) VEngine option" where
  "open_index A L param ve = do {
     check (ip_path param \<notin> (\<lambda>x. ip_path (va_param (snd x))) ` set (ve_index_manager ve));
     index \<leftarrow> VindexAnnoy_Init A L param (ve_db ve) (map_of (ve_index_dirs ve) (ip_path param));
     Some (ve\<lparr>ve_index_dirs := AList.update (ip_path param) (VindexAnnoy_dir index) (ve_index_dirs ve),
              ve_index_manager := VindexManager_Add index (ve_index_manager ve)\<rparr>) }"

definition new_index_path :: "AddIndexParam \<Rightarrow> ('db, 'ann) VEngine \<Rightarrow> bytes" where
  "new_index_path add_param ve =
     take 255 (c_str (ve_path ve @ lit ''/index'') @ lit ''/'' @ VIndexType2Str (ai_index_type add_param) @
       lit ''_'' @ dec_nat (unat (ai_timestamp add_param)))"

definition VEngine_AddIndex :: "'ann annoy \<Rightarrow> 'db leveldb \<Rightarrow> AddIndexParam \<Rightarrow> ('db, 'ann) VEngine \<Rightarrow>
    (int \<times> ('db, 'ann) VEngine) option" where
  "VEngine_AddIndex A L add_param ve = do {
     ve \<leftarrow> open_index A L
       \<lparr>ip_path = new_index_path add_param ve, ip_timestamp = ai_timestamp add_param, ip_dim = ai_dim add_param,
        ip_index_type = ai_index_type add_param, ip_distance_type = ai_distance_type add_param,
        ip_annoy_tree_num = ai_annoy_tree_num add_param\<rparr> ve;
     Some (0, ve) }"

fun load_indices :: "'ann annoy \<Rightarrow> 'db leveldb \<Rightarrow> bytes list \<Rightarrow> ('db, 'ann) VEngine \<Rightarrow> ('db, 'ann) VEngine option" where
  "load_indices A L [] ve = Some ve"
| "load_indices A L (path # paths) ve = do {
     ve \<leftarrow> open_index A L
       \<lparr>ip_path = path, ip_timestamp = 0, ip_dim = em_dim (ve_meta ve), ip_index_type = kIndexAnnoy,
        ip_distance_type = kCosine, ip_annoy_tree_num = 0\<rparr> ve;
     load_indices A L paths ve }"

definition VEngine_LoadIndex :: "'ann annoy \<Rightarrow> 'db leveldb \<Rightarrow> ('db, 'ann) VEngine \<Rightarrow> ('db, 'ann) VEngine option" where
  "VEngine_LoadIndex A L ve = load_indices A L (map fst (ve_index_dirs ve)) ve"

section \<open>Searching\<close>

definition VecObj_empty :: VecObj where
  "VecObj_empty = \<lparr>vo_key = [], vo_vv = VecValue_empty\<rparr>"

fun prepare_loop :: "'db leveldb \<Rightarrow> 'db \<Rightarrow> ('db, 'ann) VEngine \<Rightarrow> (int \<times> f32) list \<Rightarrow> VecResult list option" where
  "prepare_loop L keyid ve [] = Some []"
| "prepare_loop L keyid ve ((ident, distance) # rest) = do {
     (rv, find_key) \<leftarrow> KeyidMeta_Get_id L ident keyid;
     check (rv = 0);
     (rv, vo) \<leftarrow> VEngine_Get L find_key VecObj_empty ve;
     check (rv = 0);
     check (find_key = vo_key vo);
     rs \<leftarrow> prepare_loop L keyid ve rest;
     Some (\<lparr>vr_key = vo_key vo, vr_attach_value = vv_attach_value (vo_vv vo), vr_distance = distance\<rparr> # rs) }"

definition VindexAnnoy_PrepareResults :: "'db leveldb \<Rightarrow> ('db, 'ann) VindexAnnoy \<Rightarrow> ('db, 'ann) VEngine \<Rightarrow>
    int list \<times> f32 list \<Rightarrow> VecResult list option" where
  "VindexAnnoy_PrepareResults L index ve found = do {
     check (length (fst found) = length (snd found));
     rs \<leftarrow> prepare_loop L (va_keyid index) ve (zip (fst found) (snd found));
     sort_results rs }"

definition VindexAnnoy_GetKNN_key :: "'ann annoy \<Rightarrow> 'db leveldb \<Rightarrow> bytes \<Rightarrow> int \<Rightarrow> ('db, 'ann) VindexAnnoy \<Rightarrow>
    ('db, 'ann) VEngine \<Rightarrow> (int \<times> VecResult list) option" where
  "VindexAnnoy_GetKNN_key A L key limit index ve =
     (if 0 < limit then do {
        (rv, ident) \<leftarrow> KeyidMeta_Get_key L key (va_keyid index);
        if rv \<noteq> 0 then Some (-1, [])
        else do {
          rs \<leftarrow> VindexAnnoy_PrepareResults L index ve (an_nns_by_item A (va_annoy index) ident limit SEARCH_K);
          Some (0, rs) } }
      else Some (0, []))"

definition VindexAnnoy_GetKNN_vec :: "'ann annoy \<Rightarrow> 'db leveldb \<Rightarrow> f32 list \<Rightarrow> int \<Rightarrow> ('db, 'ann) VindexAnnoy \<Rightarrow>
    ('db, 'ann) VEngine \<Rightarrow> (int \<times> VecResult list) option" where
  "VindexAnnoy_GetKNN_vec A L vec limit index ve =
     (if Vec_dim \<lparr>vec_data = vec\<rparr> \<noteq> ip_dim (va_param index) then Some (-1, [])
      else if 0 < limit then do {
        rs \<leftarrow> VindexAnnoy_PrepareResults L index ve (an_nns_by_vector A (va_annoy index) vec limit SEARCH_K);
        Some (0, rs) }
      else Some (0, []))"

definition VEngine_GetKNN_key :: "'ann annoy \<Rightarrow> 'db leveldb \<Rightarrow> bytes \<Rightarrow> int \<Rightarrow> ('db, 'ann) VEngine \<Rightarrow>
    (int \<times> VecResult list) option" where
  "VEngine_GetKNN_key A L key limit ve =
     (case VindexManager_GetNewest (ve_index_manager ve) of
        Some index \<Rightarrow> VindexAnnoy_GetKNN_key A L key limit index ve
      | None \<Rightarrow> Some (-1, []))"

definition VEngine_GetKNN_vec :: "'ann annoy \<Rightarrow> 'db leveldb \<Rightarrow> f32 list \<Rightarrow> int \<Rightarrow> ('db, 'ann) VEngine \<Rightarrow>
    (int \<times> VecResult list) option" where
  "VEngine_GetKNN_vec A L vec limit ve =
     (case VindexManager_GetNewest (ve_index_manager ve) of
        Some index \<Rightarrow> VindexAnnoy_GetKNN_vec A L vec limit index ve
      | None \<Rightarrow> Some (-1, []))"

end
