(* ===== verification/VEngineStore.thy ===== *)
theory VEngineStore
  imports VEngine
begin

text \<open>
  The engine as a store of vectors: its operations refine a map from keys to values of the right
  dimension, and what is stored survives closing and opening the engine.
\<close>

section \<open>The contract of a vector store\<close>

locale vector_store =
  fixes put :: "bytes \<Rightarrow> VecValue \<Rightarrow> 'e \<Rightarrow> (int \<times> 'e) option"
    and get :: "bytes \<Rightarrow> VecObj \<Rightarrow> 'e \<Rightarrow> (int \<times> VecObj) option"
    and del :: "bytes \<Rightarrow> 'e \<Rightarrow> int \<times> 'e"
    and dim :: "'e \<Rightarrow> int" and inv :: "'e \<Rightarrow> bool" and contents :: "'e \<Rightarrow> bytes \<rightharpoonup> VecValue"
  assumes put_ok: "inv e \<Longrightarrow> VecValue_ok vv \<Longrightarrow> VecValue_dim vv = dim e \<Longrightarrow>
      \<exists>e'. put key vv e = Some (0, e') \<and> inv e' \<and> dim e' = dim e \<and> contents e' = (contents e)(key \<mapsto> vv)"
    and put_refused: "VecValue_dim vv \<noteq> dim e \<Longrightarrow> put key vv e = Some (-1, e)"
    and get_reads: "inv e \<Longrightarrow> get key vo e =
      Some (case contents e key of Some vv \<Rightarrow> (0, \<lparr>vo_key = key, vo_vv = vv\<rparr>) | None \<Rightarrow> (-2, vo))"
    and del_ok: "inv e \<Longrightarrow>
      \<exists>e'. del key e = (0, e') \<and> inv e' \<and> dim e' = dim e \<and> contents e' = (contents e)(key := None)"

text \<open>Commands, what they do to a map, and what they do to an engine.\<close>

datatype vec_op = PutOp bytes VecValue | DelOp bytes

fun vec_op_ok :: "vec_op \<Rightarrow> bool" where
  "vec_op_ok (PutOp key vv) \<longleftrightarrow> VecValue_ok vv"
| "vec_op_ok (DelOp key) \<longleftrightarrow> True"

fun map_op :: "int \<Rightarrow> vec_op \<Rightarrow> (bytes \<rightharpoonup> VecValue) \<Rightarrow> (bytes \<rightharpoonup> VecValue)" where
  "map_op dim (PutOp key vv) m = (if VecValue_dim vv = dim then m(key \<mapsto> vv) else m)"
| "map_op dim (DelOp key) m = m(key := None)"

fun run_ops :: "(bytes \<Rightarrow> VecValue \<Rightarrow> 'e \<Rightarrow> (int \<times> 'e) option) \<Rightarrow> (bytes \<Rightarrow> 'e \<Rightarrow> int \<times> 'e) \<Rightarrow> vec_op list \<Rightarrow> 'e \<Rightarrow> 'e option" where
  "run_ops put del [] e = Some e"
| "run_ops put del (PutOp key vv # ops) e = do { (rv, e) \<leftarrow> put key vv e; run_ops put del ops e }"
| "run_ops put del (DelOp key # ops) e = run_ops put del ops (snd (del key e))"

context vector_store
begin

lemma run_ops_map:
  assumes "inv e" "list_all vec_op_ok ops"
  shows "\<exists>e'. run_ops put del ops e = Some e' \<and> inv e' \<and> dim e' = dim e \<and>
    contents e' = fold (map_op (dim e)) ops (contents e)"
  using assms
proof (induction ops arbitrary: e)
  case (Cons op ops)
  obtain e' where e': "run_ops put del (op # ops) e = run_ops put del ops e'" "inv e'" "dim e' = dim e"
    "contents e' = map_op (dim e) op (contents e)"
  proof (cases op)
    case (PutOp key vv)
    show ?thesis
    proof (cases "VecValue_dim vv = dim e")
      case True
      with put_ok [OF Cons.prems(1) _ True, of key] PutOp Cons.prems(2) that show ?thesis by auto
    next
      case False
      with put_refused [OF False, of key] PutOp Cons.prems(1) that show ?thesis by simp
    qed
  next
    case (DelOp key)
    with del_ok [OF Cons.prems(1), of key] that show ?thesis by auto
  qed
  then show ?case using Cons.IH [OF e'(2)] Cons.prems(2) by simp
qed simp

end

section \<open>The engine implements it\<close>

definition contents :: "'db leveldb \<Rightarrow> ('db, 'ann) VEngine \<Rightarrow> bytes \<rightharpoonup> VecValue" where
  "contents L ve key = do {
     value \<leftarrow> ldb_get L (ve_db ve) key;
     (vv, bytes) \<leftarrow> VecValue_FromString VecValue_empty (value @ [0]) (int (length value));
     Some vv }"

definition engine_ok :: "'db leveldb \<Rightarrow> ('db, 'ann) VEngine \<Rightarrow> bool" where
  "engine_ok L ve \<longleftrightarrow> int32 (em_dim (ve_meta ve)) \<and>
     ldb_get L (em_db (ve_meta ve)) ENGINE_META_KEY_DIM = Some (put_i32 (em_dim (ve_meta ve))) \<and>
     (\<forall>key value. ldb_get L (ve_db ve) key = Some value \<longrightarrow>
       (\<exists>vv. value = vec_value_enc vv \<and> VecValue_ok vv \<and> VecValue_dim vv = em_dim (ve_meta ve)))"

lemma stored_value:
  assumes "VecValue_ok vv"
  shows "VecValue_FromString VecValue_empty (vec_value_enc vv @ [0]) (int (length (vec_value_enc vv))) =
    Some (vv, int (length (vec_value_enc vv)))" "0 < length (vec_value_enc vv)"
proof -
  have "length (vec_value_enc vv) < 2 ^ 31"
    using vec_value_enc_length [OF assms] assms by (simp add: VecValue_ok_def Vec_ok_def)
  then show "VecValue_FromString VecValue_empty (vec_value_enc vv @ [0]) (int (length (vec_value_enc vv))) =
    Some (vv, int (length (vec_value_enc vv)))"
    using VecValue_decoded [OF assms, of VecValue_empty "int (length (vec_value_enc vv))" "[0]"]
    by (simp add: VecValue_empty_def)
  show "0 < length (vec_value_enc vv)" by simp
qed

lemma contents_row:
  assumes "engine_ok L ve"
  shows "contents L ve key = None \<longleftrightarrow> ldb_get L (ve_db ve) key = None"
    "contents L ve key = Some vv \<longleftrightarrow> ldb_get L (ve_db ve) key = Some (vec_value_enc vv) \<and> VecValue_ok vv"
    "contents L ve key = Some vv \<Longrightarrow> VecValue_dim vv = em_dim (ve_meta ve)"
proof -
  have row: "\<exists>vv. bs = vec_value_enc vv \<and> VecValue_ok vv \<and> VecValue_dim vv = em_dim (ve_meta ve) \<and>
      contents L ve key = Some vv" if "ldb_get L (ve_db ve) key = Some bs" for bs
  proof -
    note row = that
    obtain vv where "bs = vec_value_enc vv" "VecValue_ok vv" "VecValue_dim vv = em_dim (ve_meta ve)"
      using assms row unfolding engine_ok_def by blast
    with row show ?thesis by (auto simp: contents_def stored_value)
  qed
  show "contents L ve key = None \<longleftrightarrow> ldb_get L (ve_db ve) key = None"
    using row by (cases "ldb_get L (ve_db ve) key") (auto simp: contents_def)
  show "contents L ve key = Some vv \<longleftrightarrow> ldb_get L (ve_db ve) key = Some (vec_value_enc vv) \<and> VecValue_ok vv"
    using row by (cases "ldb_get L (ve_db ve) key") (auto simp: contents_def stored_value)
  show "VecValue_dim vv = em_dim (ve_meta ve)" if "contents L ve key = Some vv"
    using row that by (cases "ldb_get L (ve_db ve) key") (auto simp: contents_def)
qed

sublocale leveldb_store \<subseteq> engine: vector_store "VEngine_Put L" "VEngine_Get L" "VEngine_Delete L" VEngine_Dim
    "engine_ok L" "contents L"
proof (unfold_locales, goal_cases)
  case (1 ve vv key)
  let ?ve = "ve\<lparr>ve_db := ldb_write L True [Put key (vec_value_enc vv)] (ve_db ve)\<rparr>"
  have "VEngine_Put L key vv ve = Some (0, ?ve)"
    using 1(2,3) VecValue_encoded [OF 1(2) order.refl]
    by (simp add: VEngine_Put_def VEngine_Dim_def VecValue_dim_def)
  moreover have "engine_ok L ?ve" using 1 by (auto simp: engine_ok_def get_write VEngine_Dim_def)
  moreover have "contents L ?ve = (contents L ve)(key \<mapsto> vv)"
    by (auto simp: contents_def get_write fun_eq_iff stored_value [OF 1(2)])
  ultimately show ?case by (simp add: VEngine_Dim_def)
next
  case (2 vv ve key)
  then show ?case by (simp add: VEngine_Put_def VEngine_Dim_def VecValue_dim_def)
next
  case (3 ve key vo)
  show ?case
  proof (cases "contents L ve key")
    case None
    then have "ldb_get L (ve_db ve) key = None" using contents_row(1) [OF 3] by blast
    with None show ?thesis by (simp add: VEngine_Get_def)
  next
    case (Some vv)
    then have "ldb_get L (ve_db ve) key = Some (vec_value_enc vv)" "VecValue_ok vv"
      using contents_row(2) [OF 3] by blast+
    with Some show ?thesis by (simp add: VEngine_Get_def stored_value)
  qed
next
  case (4 ve key)
  have "engine_ok L (ve\<lparr>ve_db := ldb_write L True [Delete key] (ve_db ve)\<rparr>)"
    using 4 by (auto simp: engine_ok_def get_write)
  moreover have "contents L (ve\<lparr>ve_db := ldb_write L True [Delete key] (ve_db ve)\<rparr>) = (contents L ve)(key := None)"
    by (auto simp: contents_def get_write fun_eq_iff)
  ultimately show ?case by (simp add: VEngine_Delete_def VEngine_Dim_def)
qed

section \<open>Opening an engine\<close>

context leveldb_store
begin

lemmas engine_run_ops = engine.run_ops_map
lemmas engine_get_reads = engine.get_reads

lemma EngineMeta_reads:
  assumes "ldb_get L db ENGINE_META_KEY_DIM = Some (put_i32 d)" "int32 d"
  shows "EngineMeta_new L (Some db) = Some \<lparr>em_db = db, em_dim = d\<rparr>"
proof -
  have "signed_take_bit 31 d = d" using assms(2) by (intro signed_take_bit_int_eq_self) simp_all
  with assms(1) show ?thesis
    by (simp add: EngineMeta_new_def DB_Open_def put_i32_def signed_of_int)
qed

lemma VEngine_new_fresh:
  assumes "mkdir_p 256 path" "int32 dim"
  obtains ve where "VEngine_new L path dim None = Some ve" "engine_ok L ve" "VEngine_Dim ve = dim"
    "contents L ve = Map.empty" "ve_path ve = path" "ve_index_manager ve = []" "ve_index_dirs ve = []"
proof -
  let ?db = "ldb_write L False [Put ENGINE_META_KEY_DIM (put_i32 dim)]
    (ldb_write L False [Put ENGINE_META_KEY_DIM (put_i32 0)] (ldb_open L))"
  have row: "ldb_get L ?db ENGINE_META_KEY_DIM = Some (put_i32 dim)" by (simp add: get_write)
  have "EngineMeta_new L None = Some \<lparr>em_db = ldb_write L False [Put ENGINE_META_KEY_DIM (put_i32 0)] (ldb_open L), em_dim = 0\<rparr>"
    by (simp add: EngineMeta_new_def DB_Open_def get_open)
  then have "VEngine_new L path dim None = Some \<lparr>ve_path = path, ve_meta = \<lparr>em_db = ?db, em_dim = dim\<rparr>,
      ve_db = ldb_open L, ve_index_dirs = [], ve_index_manager = []\<rparr>"
    using assms(1) EngineMeta_reads [OF row assms(2)]
    by (simp add: VEngine_new_def VEngine_Init_def EngineMeta_SetDim_def EngineMeta_PersistDim_def DB_Open_def)
  then show ?thesis
    by (rule that) (use assms(2) row in \<open>auto simp: engine_ok_def VEngine_Dim_def contents_def get_open fun_eq_iff\<close>)
qed

lemma VEngine_reopen:
  assumes "engine_ok L ve"
  shows "VEngine_new L path dim (Some (VEngine_dir ve)) = Some (ve\<lparr>ve_path := path, ve_index_manager := []\<rparr>)"
  using assms EngineMeta_reads [of "em_db (ve_meta ve)" "em_dim (ve_meta ve)"]
  by (simp add: VEngine_new_def VEngine_Init_def VEngine_dir_def DB_Open_def engine_ok_def)

end

section \<open>Properties\<close>

text \<open>C14. An engine is a map from keys to vectors that survives a restart: any sequence of puts and deletes
  on a new engine returns, puts of another dimension are refused, and after the engine is closed and
  opened again, whatever dimension the caller then names, a get gives the last value put under the
  key, or says that there is none.\<close>

theorem engine_is_durable_map:
  assumes "leveldb_store (L :: 'db leveldb)" "mkdir_p 256 path" "int32 dim" "list_all vec_op_ok ops"
  shows "\<exists>(ve :: ('db, 'ann) VEngine) ve' re. VEngine_new L path dim None = Some ve \<and>
    run_ops (VEngine_Put L) (VEngine_Delete L) ops ve = Some ve' \<and>
    VEngine_new L path dim' (Some (VEngine_dir ve')) = Some re \<and> VEngine_Dim re = dim \<and>
    (\<forall>key vo. VEngine_Get L key vo re =
      Some (case fold (map_op dim) ops Map.empty key of
              Some vv \<Rightarrow> (0, \<lparr>vo_key = key, vo_vv = vv\<rparr>)
            | None \<Rightarrow> (-2, vo)))"
proof -
  obtain ve :: "('db, 'ann) VEngine" where ve: "VEngine_new L path dim None = Some ve" "engine_ok L ve"
    "VEngine_Dim ve = dim" "contents L ve = Map.empty"
    by (rule leveldb_store.VEngine_new_fresh [OF assms(1-3)])
  obtain ve' where ve': "run_ops (VEngine_Put L) (VEngine_Delete L) ops ve = Some ve'" "engine_ok L ve'"
    "VEngine_Dim ve' = dim" "contents L ve' = fold (map_op dim) ops Map.empty"
    using leveldb_store.engine_run_ops [OF assms(1) ve(2) assms(4)] ve(3,4) by auto
  let ?re = "ve'\<lparr>ve_path := path, ve_index_manager := []\<rparr>"
  have "engine_ok L ?re" "contents L ?re = contents L ve'"
    using ve'(2) by (simp_all add: engine_ok_def contents_def fun_eq_iff)
  then have "\<forall>key vo. VEngine_Get L key vo ?re =
      Some (case fold (map_op dim) ops Map.empty key of
              Some vv \<Rightarrow> (0, \<lparr>vo_key = key, vo_vv = vv\<rparr>) | None \<Rightarrow> (-2, vo))"
    using leveldb_store.engine_get_reads [OF assms(1)] ve'(4) by metis
  moreover have "VEngine_Dim ?re = dim" using ve'(3) by (simp add: VEngine_Dim_def)
  ultimately show ?thesis
    using ve(1) ve'(1) leveldb_store.VEngine_reopen [OF assms(1) ve'(2)] by blast
qed

definition sample_value :: "f32 list \<Rightarrow> VecValue" where
  "sample_value fs = \<lparr>vv_vec = \<lparr>vec_data = fs\<rparr>, vv_attach_value = lit ''note''\<rparr>"

theorem engine_is_durable_map_witness:
  "\<exists>re :: ((bytes \<times> bytes) list, unit) VEngine.
     VEngine_Get alist_store (lit ''a'') VecObj_empty re = Some (0, \<lparr>vo_key = lit ''a'', vo_vv = sample_value [1, 2]\<rparr>) \<and>
     VEngine_Get alist_store (lit ''b'') VecObj_empty re = Some (-2, VecObj_empty)"
proof -
  let ?ops = "[PutOp (lit ''a'') (sample_value [1, 2]), PutOp (lit ''b'') (sample_value [3]),
    PutOp (lit ''c'') (sample_value [4, 5]), DelOp (lit ''c'')]"
  have "list_all vec_op_ok ?ops" "mkdir_p 256 (lit ''/tmp/x'')" "int32 2"
    by (simp_all add: sample_value_def VecValue_ok_def Vec_ok_def lit_def mkdir_p_def shell_char_def is_digit_def)
  from engine_is_durable_map [OF alist_store.leveldb_store_axioms this(2,3,1), of 7]
  obtain re :: "((bytes \<times> bytes) list, unit) VEngine" where re:
    "\<forall>key vo. VEngine_Get alist_store key vo re = Some (case fold (map_op 2) ?ops Map.empty key of
       Some vv \<Rightarrow> (0, \<lparr>vo_key = key, vo_vv = vv\<rparr>) | None \<Rightarrow> (-2, vo))"
    by blast
  have "fold (map_op 2) ?ops Map.empty (lit ''a'') = Some (sample_value [1, 2])"
    "fold (map_op 2) ?ops Map.empty (lit ''b'') = None"
    by (simp_all add: sample_value_def VecValue_dim_def Vec_dim_def lit_def)
  then have "VEngine_Get alist_store (lit ''a'') VecObj_empty re = Some (0, \<lparr>vo_key = lit ''a'', vo_vv = sample_value [1, 2]\<rparr>)"
    "VEngine_Get alist_store (lit ''b'') VecObj_empty re = Some (-2, VecObj_empty)"
    unfolding re [rule_format] by (simp_all only: option.case)
  then show ?thesis by blast
qed

end
