(* ===== verification/VSearch.thy ===== *)
theory VSearch
  imports VEngineStore
begin

text \<open>
  Searching for neighbours: what the code relies on of the Annoy library, what an index built over an
  engine holds, and what the searches of an engine then return.
\<close>

section \<open>What the code relies on of Annoy\<close>

text \<open>The documented behaviour of an Annoy index, with the set of the items that were added: a search for
  the \<open>n\<close> nearest neighbours gives at most \<open>n\<close> different items of the index, each with its distance. Nothing is
  assumed of the distances: they may be NaNs, as they are for vectors with NaN or huge components.\<close>

locale annoy_lib =
  fixes A :: "'ann annoy" and items :: "'ann \<Rightarrow> int set"
  assumes items_new: "items (an_new A t d) = {}"
    and items_add: "items (an_add_item A i v a) = insert i (items a)"
    and items_build: "items (an_build A n a) = items a"
    and nns_by_item: "i \<in> items a \<Longrightarrow> 0 < n \<Longrightarrow> an_nns_by_item A a i n k = (ids, ds) \<Longrightarrow>
      length ids = length ds \<and> int (length ids) \<le> n \<and> distinct ids \<and> set ids \<subseteq> items a"
    and nns_by_vector: "0 < n \<Longrightarrow> an_nns_by_vector A a v n k = (ids, ds) \<Longrightarrow>
      length ids = length ds \<and> int (length ids) \<le> n \<and> distinct ids \<and> set ids \<subseteq> items a"

text \<open>Distances that results can be sorted by.\<close>

definition sortable :: "f32 list \<Rightarrow> bool" where
  "sortable ds \<longleftrightarrow> length ds \<le> 1 \<or> list_all (\<lambda>d. \<not> f32_nan d) ds"

text \<open>An index that answers with the items in the order they were added satisfies the laws.\<close>

definition list_annoy :: "int list annoy" where
  "list_annoy = \<lparr>an_new = (\<lambda>_ _. []), an_add_item = (\<lambda>i _ a. List.insert i a), an_build = (\<lambda>_ a. a),
     an_nns_by_item = (\<lambda>a i n k. let ids = take (nat n) (remdups a) in (ids, map (\<lambda>_. 0) ids)),
     an_nns_by_vector = (\<lambda>a v n k. let ids = take (nat n) (remdups a) in (ids, map (\<lambda>_. 0) ids))\<rparr>"

interpretation list_annoy: annoy_lib list_annoy set
  by unfold_locales
     (auto simp: list_annoy_def Let_def dest: in_set_takeD)

section \<open>Order of the scan\<close>

lemma Bytewise_less [simp]: "cmp_less BytewiseCompare a b \<longleftrightarrow> a < b"
  by (auto simp: cmp_less_def BytewiseCompare_def)

lemma Bytewise_orders: "orders BytewiseCompare K"
  by (auto simp: orders_def)

context leveldb_store
begin

lemma scan_rows:
  shows "map_of (ldb_scan L BytewiseCompare db) = ldb_get L db"
    "distinct (map fst (ldb_scan L BytewiseCompare db))"
    "fst ` set (ldb_scan L BytewiseCompare db) = dom (ldb_get L db)"
    "length (ldb_scan L BytewiseCompare db) = card (dom (ldb_get L db))"
proof -
  let ?rows = "ldb_scan L BytewiseCompare db"
  have rows: "sorted_rows BytewiseCompare ?rows" "map_of ?rows = ldb_get L db"
    using scan [OF Bytewise_orders] by auto
  show "map_of ?rows = ldb_get L db" by (rule rows(2))
  show d: "distinct (map fst ?rows)" by (rule sorted_rows_distinct [OF Bytewise_orders rows(1)])
  show dom: "fst ` set ?rows = dom (ldb_get L db)" by (metis rows(2) dom_map_of_conv_image_fst)
  show "length ?rows = card (dom (ldb_get L db))"
    using distinct_card [OF d] by (simp flip: dom)
qed

end

section \<open>Building an index\<close>

lemma put_i32_inj: "int32 i \<Longrightarrow> int32 j \<Longrightarrow> put_i32 i = put_i32 j \<longleftrightarrow> i = j"
  by (metis get_i32_put option.inject prod.inject)

text \<open>A key that is not four bytes long is never taken for an item number.\<close>

lemma key_not_id: "length key \<noteq> 4 \<Longrightarrow> key \<noteq> put_i32 i"
  by auto

definition row_ok :: "int \<Rightarrow> bytes \<times> bytes \<Rightarrow> bool" where
  "row_ok dim row \<longleftrightarrow> length (fst row) \<noteq> 4 \<and>
     (\<exists>vv. snd row = vec_value_enc vv \<and> VecValue_ok vv \<and> VecValue_dim vv = dim \<and> vec_data (vv_vec vv) \<noteq> [])"


text \<open>After a turn both rows of the item are in the table of keys, and nothing else changed in it.\<close>

context leveldb_store
begin

lemma build_item_ok:
  assumes "row_ok (ip_dim param) (key, bs)" "0 \<le> i" "i < 2 ^ 31 - 1"
  obtains keyid' v where
    "build_item A L param (key, bs) (i, keyid, ann) = Some (Some (i + 1, keyid', an_add_item A i v ann))"
    "ldb_get L keyid' = (ldb_get L keyid)(key \<mapsto> put_i32 i, put_i32 i \<mapsto> EncodeAnnoyKey key)"
proof -
  obtain vv where vv: "bs = vec_value_enc vv" "VecValue_ok vv" "VecValue_dim vv = ip_dim param" "vec_data (vv_vec vv) \<noteq> []"
    using assms(1) by (auto simp: row_ok_def)
  let ?keyid = "KeyidMeta_Put_id L i key (KeyidMeta_Put_key L key i keyid)"
  have "build_item A L param (key, bs) (i, keyid, ann) =
      Some (Some (i + 1, ?keyid, an_add_item A i (vec_data (vv_vec vv)) ann))"
    using vv assms(3) stored_value [OF vv(2)] by (simp add: build_item_def)
  then show ?thesis
    by (rule that) (simp add: KeyidMeta_Put_id_def KeyidMeta_Put_key_def get_write)
qed

lemma build_loop_ok:
  assumes "annoy_lib A items" "list_all (row_ok (ip_dim param)) rows" "distinct (map fst rows)"
    and "0 \<le> i" "i + int (length rows) < 2 ^ 31"
  shows "\<exists>keyid' ann'. build_loop A L param rows (i, keyid, ann) = Some (Some (i + int (length rows), keyid', ann')) \<and>
    items ann' = items ann \<union> {i..<i + int (length rows)} \<and>
    (\<forall>n < length rows. ldb_get L keyid' (fst (rows ! n)) = Some (put_i32 (i + int n)) \<and>
      ldb_get L keyid' (put_i32 (i + int n)) = Some (EncodeAnnoyKey (fst (rows ! n)))) \<and>
    (\<forall>k. k \<notin> fst ` set rows \<and> k \<notin> put_i32 ` {i..<i + int (length rows)} \<longrightarrow> ldb_get L keyid' k = ldb_get L keyid k)"
  using assms(2-)
proof (induction rows arbitrary: i keyid ann)
  case (Cons row rows)
  obtain key bs where row: "row = (key, bs)" by force
  obtain k1 v where item:
    "build_item A L param (key, bs) (i, keyid, ann) = Some (Some (i + 1, k1, an_add_item A i v ann))"
    "ldb_get L k1 = (ldb_get L keyid)(key \<mapsto> put_i32 i, put_i32 i \<mapsto> EncodeAnnoyKey key)"
    by (rule build_item_ok [of param key bs i]) (use Cons.prems row in auto)
  obtain keyid' ann' where IH:
    "build_loop A L param rows (i + 1, k1, an_add_item A i v ann) = Some (Some (i + 1 + int (length rows), keyid', ann'))"
    "items ann' = items (an_add_item A i v ann) \<union> {i + 1..<i + 1 + int (length rows)}"
    "\<And>n. n < length rows \<Longrightarrow> ldb_get L keyid' (fst (rows ! n)) = Some (put_i32 (i + 1 + int n)) \<and>
      ldb_get L keyid' (put_i32 (i + 1 + int n)) = Some (EncodeAnnoyKey (fst (rows ! n)))"
    "\<And>k. k \<notin> fst ` set rows \<Longrightarrow> k \<notin> put_i32 ` {i + 1..<i + 1 + int (length rows)} \<Longrightarrow> ldb_get L keyid' k = ldb_get L k1 k"
    using Cons.IH [of "i + 1" k1 "an_add_item A i v ann"] Cons.prems by auto
  have keys: "length key \<noteq> 4" "\<forall>x \<in> fst ` set rows. length x \<noteq> 4" "key \<notin> fst ` set rows"
    using Cons.prems(1,2) row by (auto simp: row_ok_def list_all_iff)
  have "put_i32 i \<notin> put_i32 ` {i + 1..<i + 1 + int (length rows)}"
    using Cons.prems(3,4) by (auto simp: put_i32_inj)
  moreover have "put_i32 i \<notin> fst ` set rows" using keys(2) put_i32_length by blast
  moreover have "key \<notin> put_i32 ` S" for S using keys(1) by auto
  ultimately have first: "ldb_get L keyid' key = Some (put_i32 i)" "ldb_get L keyid' (put_i32 i) = Some (EncodeAnnoyKey key)"
    using IH(4) [of key] IH(4) [of "put_i32 i"] keys key_not_id [OF keys(1), of i] by (simp_all add: item(2))
  have "ldb_get L keyid' (fst ((row # rows) ! n)) = Some (put_i32 (i + int n)) \<and>
      ldb_get L keyid' (put_i32 (i + int n)) = Some (EncodeAnnoyKey (fst ((row # rows) ! n)))" if "n < length (row # rows)" for n
    using first IH(3) [of "n - 1"] that row by (cases n) (auto simp: algebra_simps)
  moreover have "ldb_get L keyid' k = ldb_get L keyid k"
    if "k \<notin> fst ` set (row # rows)" "k \<notin> put_i32 ` {i..<i + int (length (row # rows))}" for k
  proof -
    have "k \<noteq> key" "k \<notin> fst ` set rows" using that(1) row by auto
    moreover have "k \<noteq> put_i32 i" "k \<notin> put_i32 ` {i + 1..<i + 1 + int (length rows)}" using that(2) by auto
    ultimately show ?thesis using IH(4) [of k] by (simp add: item(2))
  qed
  moreover have "items ann' = items ann \<union> {i..<i + int (length (row # rows))}"
    using IH(2) annoy_lib.items_add [OF assms(1)] by auto
  moreover have "build_loop A L param (row # rows) (i, keyid, ann) = Some (Some (i + int (length (row # rows)), keyid', ann'))"
    using item(1) IH(1) row by simp
  ultimately show ?case by blast
qed simp

end

section \<open>What an index holds\<close>

text \<open>The items of an index are numbered by the list of the keys it was built from.\<close>

definition index_for :: "'db leveldb \<Rightarrow> ('ann \<Rightarrow> int set) \<Rightarrow> bytes list \<Rightarrow> ('db, 'ann) VindexAnnoy \<Rightarrow> bool" where
  "index_for L items keys index \<longleftrightarrow> distinct keys \<and> [] \<notin> set keys \<and> length keys < 2 ^ 31 \<and>
     items (va_annoy index) = {0..<int (length keys)} \<and>
     (\<forall>n < length keys. ldb_get L (va_keyid index) (keys ! n) = Some (put_i32 (int n)) \<and>
       ldb_get L (va_keyid index) (put_i32 (int n)) = Some (EncodeAnnoyKey (keys ! n)))"

lemma index_for_get:
  assumes "index_for L items keys index" "n < length keys"
  shows "KeyidMeta_Get_key L (keys ! n) (va_keyid index) = Some (0, int n)"
    "KeyidMeta_Get_id L (int n) (va_keyid index) = Some (0, keys ! n)"
proof -
  have rows: "ldb_get L (va_keyid index) (keys ! n) = Some (put_i32 (int n))"
    "ldb_get L (va_keyid index) (put_i32 (int n)) = Some (EncodeAnnoyKey (keys ! n))"
    and "int32 (int n)"
    using assms by (simp_all add: index_for_def)
  moreover have "keys ! n \<noteq> []" using assms nth_mem [OF assms(2)] unfolding index_for_def by metis
  ultimately show "KeyidMeta_Get_id L (int n) (va_keyid index) = Some (0, keys ! n)"
    by (simp add: KeyidMeta_Get_id_def DecodeAnnoyKey_def EncodeAnnoyKey_def)
  have "sint (of_nat n :: u32) = int n" using \<open>int32 (int n)\<close> by (simp add: sint_of_nat_small)
  with rows show "KeyidMeta_Get_key L (keys ! n) (va_keyid index) = Some (0, int n)"
    by (simp add: KeyidMeta_Get_key_def put_i32_def)
qed

text \<open>What a search returns of a found item.\<close>

abbreviation found_result :: "'db leveldb \<Rightarrow> ('db, 'ann) VEngine \<Rightarrow> bytes list \<Rightarrow> int \<times> f32 \<Rightarrow> VecResult" where
  "found_result L ve keys x \<equiv>
     \<lparr>vr_key = keys ! nat (fst x), vr_attach_value = vv_attach_value (the (contents L ve (keys ! nat (fst x)))),
      vr_distance = snd x\<rparr>"

definition answers :: "'db leveldb \<Rightarrow> ('db, 'ann) VEngine \<Rightarrow> int \<Rightarrow> VecResult list \<Rightarrow> bool" where
  "answers L ve limit rs \<longleftrightarrow> int (length rs) \<le> limit \<and> distinct (map vr_key rs) \<and>
     sorted_wrt (\<lambda>a b. \<not> VecResult_less b a) rs \<and>
     (\<forall>r \<in> set rs. \<exists>vv. contents L ve (vr_key r) = Some vv \<and> vr_attach_value r = vv_attach_value vv)"

context leveldb_store
begin

lemma prepare_loop_ok:
  assumes "index_for L items keys index" "engine_ok L ve" "set keys \<subseteq> dom (contents L ve)"
    and "\<forall>x \<in> set xs. fst x \<in> {0..<int (length keys)}"
  shows "prepare_loop L (va_keyid index) ve xs = Some (map (found_result L ve keys) xs)"
  using assms(4)
proof (induction xs)
  case (Cons x xs)
  obtain i d where x: "x = (i, d)" by force
  then have i: "nat i < length keys" "0 \<le> i" using Cons.prems by auto
  then obtain vv where vv: "contents L ve (keys ! nat i) = Some vv" using assms(3) nth_mem [OF i(1)] by blast
  have "KeyidMeta_Get_id L i (va_keyid index) = Some (0, keys ! nat i)"
    using index_for_get(2) [OF assms(1) i(1)] i(2) by simp
  moreover have "VEngine_Get L (keys ! nat i) VecObj_empty ve = Some (0, \<lparr>vo_key = keys ! nat i, vo_vv = vv\<rparr>)"
    by (simp add: engine.get_reads [OF assms(2)] vv)
  moreover have "prepare_loop L (va_keyid index) ve xs = Some (map (found_result L ve keys) xs)"
    using Cons by simp
  ultimately show ?case by (simp add: x vv)
qed simp

lemma PrepareResults_ok:
  assumes "index_for L items keys index" "engine_ok L ve" "set keys \<subseteq> dom (contents L ve)"
    and "length ids = length ds" "int (length ids) \<le> limit" "distinct ids" "set ids \<subseteq> items (va_annoy index)"
  shows "if sortable ds then \<exists>rs. VindexAnnoy_PrepareResults L index ve (ids, ds) = Some rs \<and> answers L ve limit rs
    else VindexAnnoy_PrepareResults L index ve (ids, ds) = None"
proof -
  let ?rs = "map (found_result L ve keys) (zip ids ds)"
  have ids: "set ids \<subseteq> {0..<int (length keys)}" and keys: "distinct keys"
    using assms(1,7) by (auto simp: index_for_def)
  have "\<forall>x \<in> set (zip ids ds). fst x \<in> {0..<int (length keys)}" using ids by (auto dest: set_zip_leftD)
  from prepare_loop_ok [OF assms(1-3) this]
  have prep: "prepare_loop L (va_keyid index) ve (zip ids ds) = Some ?rs" .
  have "map vr_distance ?rs = map snd (zip ids ds)" by simp
  then have ds: "map vr_distance ?rs = ds" using assms(4) by (simp only: map_snd_zip)
  then have "list_all (\<lambda>r. \<not> f32_nan (vr_distance r)) ?rs \<longleftrightarrow> list_all (\<lambda>d. \<not> f32_nan d) ds"
    by (metis (no_types, lifting) list.pred_map comp_def list.pred_cong)
  then have sort: "sort_results ?rs = (if sortable ds then Some (sort_key (\<lambda>r. f32_rank (vr_distance r)) ?rs) else None)"
    using assms(4) by (auto simp: sort_results_def sortable_def)
  show ?thesis
  proof (cases "sortable ds")
    case False
    then show ?thesis using prep sort assms(4) by (simp add: VindexAnnoy_PrepareResults_def)
  next
    case True
    then obtain rs where rs: "sort_results ?rs = Some rs" using sort by simp
    have mset: "mset rs = mset ?rs" and sorted: "sorted_wrt (\<lambda>a b. \<not> VecResult_less b a) rs"
      using sort_results_sorted [OF rs] by auto
    have "map vr_key ?rs = map (\<lambda>i. keys ! nat i) (map fst (zip ids ds))" by simp
    then have "map vr_key ?rs = map (\<lambda>i. keys ! nat i) ids" using assms(4) by (simp only: map_fst_zip)
    moreover have "inj_on (\<lambda>i. keys ! nat i) (set ids)"
    proof (rule inj_onI)
      fix x y
      assume "x \<in> set ids" "y \<in> set ids" "keys ! nat x = keys ! nat y"
      moreover from this have "x \<in> {0..<int (length keys)}" "y \<in> {0..<int (length keys)}" using ids by blast+
      then have "0 \<le> x" "0 \<le> y" "nat x < length keys" "nat y < length keys" by (simp_all add: nat_less_iff)
      ultimately show "x = y" using keys by (simp add: nth_eq_iff_index_eq)
    qed
    ultimately have d: "distinct (map vr_key ?rs)" using assms(6) by (simp add: distinct_map)
    have "mset (map vr_key rs) = mset (map vr_key ?rs)" using mset by (simp only: mset_map)
    from mset_eq_imp_distinct_iff [OF this, THEN iffD2, OF d] have "distinct (map vr_key rs)" .
    moreover have "length rs = length ids" using mset_eq_length [OF mset] assms(4) by simp
    moreover have "\<exists>vv. contents L ve (vr_key r) = Some vv \<and> vr_attach_value r = vv_attach_value vv" if "r \<in> set rs" for r
    proof -
      have "r \<in> set ?rs" using that mset_eq_setD [OF mset] by blast
      then obtain x where x: "x \<in> set (zip ids ds)" "r = found_result L ve keys x" by auto
      then have "fst x \<in> set ids" using set_zip_leftD [of "fst x" "snd x" ids ds] by simp
      then have "fst x \<in> {0..<int (length keys)}" using ids by blast
      then have "keys ! nat (fst x) \<in> set keys" by (intro nth_mem) (simp add: nat_less_iff)
      with x assms(3) show ?thesis by force
    qed
    ultimately have "answers L ve limit rs" using assms(5) sorted by (simp add: answers_def)
    then show ?thesis using True prep rs assms(4) by (simp add: VindexAnnoy_PrepareResults_def)
  qed
qed

lemma newest_answers:
  assumes "annoy_lib A items" "VindexManager_GetNewest (ve_index_manager ve) = Some index"
    and "index_for L items keys index" "engine_ok L ve" "set keys \<subseteq> dom (contents L ve)" "0 < limit"
  shows "Vec_dim \<lparr>vec_data = vec\<rparr> = ip_dim (va_param index) \<Longrightarrow>
      if sortable (snd (an_nns_by_vector A (va_annoy index) vec limit SEARCH_K))
      then \<exists>rs. VEngine_GetKNN_vec A L vec limit ve = Some (0, rs) \<and> answers L ve limit rs
      else VEngine_GetKNN_vec A L vec limit ve = None"
    and "key \<in> set keys \<Longrightarrow> \<exists>n. KeyidMeta_Get_key L key (va_keyid index) = Some (0, n) \<and>
      (if sortable (snd (an_nns_by_item A (va_annoy index) n limit SEARCH_K))
       then \<exists>rs. VEngine_GetKNN_key A L key limit ve = Some (0, rs) \<and> answers L ve limit rs
       else VEngine_GetKNN_key A L key limit ve = None)"
proof -
  obtain ids ds where found: "an_nns_by_vector A (va_annoy index) vec limit SEARCH_K = (ids, ds)" by force
  have "if sortable ds then \<exists>rs. VindexAnnoy_PrepareResults L index ve (ids, ds) = Some rs \<and> answers L ve limit rs
      else VindexAnnoy_PrepareResults L index ve (ids, ds) = None"
    using PrepareResults_ok [OF assms(3-5)] annoy_lib.nns_by_vector [OF assms(1,6) found] by blast
  with assms(2,6) found show "if sortable (snd (an_nns_by_vector A (va_annoy index) vec limit SEARCH_K))
      then \<exists>rs. VEngine_GetKNN_vec A L vec limit ve = Some (0, rs) \<and> answers L ve limit rs
      else VEngine_GetKNN_vec A L vec limit ve = None"
    if "Vec_dim \<lparr>vec_data = vec\<rparr> = ip_dim (va_param index)"
    using that by (auto simp: VEngine_GetKNN_vec_def VindexAnnoy_GetKNN_vec_def split: if_splits)
next
  assume "key \<in> set keys"
  then obtain n where n: "n < length keys" "keys ! n = key" by (auto simp: in_set_conv_nth)
  have i: "int n \<in> items (va_annoy index)" using assms(3) n(1) by (auto simp: index_for_def)
  obtain ids ds where found: "an_nns_by_item A (va_annoy index) (int n) limit SEARCH_K = (ids, ds)" by force
  have "if sortable ds then \<exists>rs. VindexAnnoy_PrepareResults L index ve (ids, ds) = Some rs \<and> answers L ve limit rs
      else VindexAnnoy_PrepareResults L index ve (ids, ds) = None"
    using PrepareResults_ok [OF assms(3-5)] annoy_lib.nns_by_item [OF assms(1) i assms(6) found] by blast
  with assms(2,6) found index_for_get(1) [OF assms(3) n(1)] n(2)
  show "\<exists>n. KeyidMeta_Get_key L key (va_keyid index) = Some (0, n) \<and>
      (if sortable (snd (an_nns_by_item A (va_annoy index) n limit SEARCH_K))
       then \<exists>rs. VEngine_GetKNN_key A L key limit ve = Some (0, rs) \<and> answers L ve limit rs
       else VEngine_GetKNN_key A L key limit ve = None)"
    by (intro exI [of _ "int n"]) (auto simp: VEngine_GetKNN_key_def VindexAnnoy_GetKNN_key_def split: if_splits)
qed

end

section \<open>Adding an index\<close>

text \<open>When an index can be added: the parameters fit the engine, the path is short, plain and new, the time
  stamp is the latest, and no key is empty or as long as an item number.\<close>

definition can_add_index :: "'db leveldb \<Rightarrow> AddIndexParam \<Rightarrow> ('db, 'ann) VEngine \<Rightarrow> bool" where
  "can_add_index L p ve \<longleftrightarrow> 0 < VEngine_Dim ve \<and> ai_dim p = VEngine_Dim ve \<and> ai_index_type p = kIndexAnnoy \<and>
     int32 (ai_annoy_tree_num p) \<and> mkdir_p 128 (new_index_path p ve) \<and>
     new_index_path p ve \<notin> fst ` set (ve_index_dirs ve) \<and>
     (\<forall>(t, i) \<in> set (ve_index_manager ve). t < ai_timestamp p \<and> ip_path (va_param i) \<noteq> new_index_path p ve) \<and>
     (\<forall>key \<in> dom (contents L ve). key \<noteq> [] \<and> length key \<noteq> 4) \<and> card (dom (contents L ve)) < 2 ^ 31"

abbreviation index_param :: "AddIndexParam \<Rightarrow> ('db, 'ann) VEngine \<Rightarrow> VIndexParam" where
  "index_param p ve \<equiv> \<lparr>ip_path = new_index_path p ve, ip_timestamp = ai_timestamp p, ip_dim = ai_dim p,
     ip_index_type = ai_index_type p, ip_distance_type = ai_distance_type p, ip_annoy_tree_num = ai_annoy_tree_num p\<rparr>"

context leveldb_store
begin

lemma VindexMeta_persisted:
  assumes "VIndexParam_ok param"
  obtains db where "VindexMeta_new L None param = Some \<lparr>vm_db = db, vm_param = param\<rparr>"
    "\<forall>param'. VindexMeta_new L (Some db) param' = Some \<lparr>vm_db = db, vm_param = param\<rparr>"
proof -
  obtain bs where bs: "VIndexParam_ToString param (VIndexParam_MaxBytes param) = Some bs"
    using vindex_param.encoded [OF assms] by blast
  obtain sz where sz: "VIndexParam_FromString (bs @ [0]) (int (length bs)) = Some (param, sz)" "0 < sz"
    using vindex_param.decoded [OF assms TrueI bs] by auto
  let ?db = "ldb_write L False [Put VINDEX_META_KEY bs] (ldb_open L)"
  show ?thesis
    by (rule that [of ?db])
      (use bs sz in \<open>simp_all add: VindexMeta_new_def VindexMeta_Persist_def DB_Open_def get_write\<close>)
qed

lemma engine_rows_ok:
  assumes "engine_ok L ve" "0 < VEngine_Dim ve" "\<forall>key \<in> dom (contents L ve). length key \<noteq> 4"
  shows "list_all (row_ok (VEngine_Dim ve)) (ldb_scan L BytewiseCompare (ve_db ve))"
proof -
  have "row_ok (VEngine_Dim ve) (key, bs)" if "(key, bs) \<in> set (ldb_scan L BytewiseCompare (ve_db ve))" for key bs
  proof -
    have row: "ldb_get L (ve_db ve) key = Some bs"
      using that scan_rows(1,2) [of "ve_db ve"] by (metis map_of_eq_Some_iff)
    then obtain vv where vv: "bs = vec_value_enc vv" "VecValue_ok vv" "VecValue_dim vv = VEngine_Dim ve"
      using assms(1) unfolding engine_ok_def VEngine_Dim_def by blast
    then have "key \<in> dom (contents L ve)" using row contents_row(2) [OF assms(1)] by blast
    moreover have "vec_data (vv_vec vv) \<noteq> []" using vv(3) assms(2) by (auto simp: VecValue_dim_def Vec_dim_def)
    ultimately show ?thesis using vv assms(3) by (auto simp: row_ok_def)
  qed
  then show ?thesis by (auto simp: list_all_iff)
qed

lemma Init_builds:
  assumes "annoy_lib A items" "engine_ok L ve" "can_add_index L p ve"
  obtains index keys where
    "VindexAnnoy_Init A L (index_param p ve) (ve_db ve) None = Some index"
    "va_param index = index_param p ve" "index_for L items keys index" "set keys = dom (contents L ve)"
    "\<forall>param' db. VindexAnnoy_Init A L param' db (Some (VindexAnnoy_dir index)) = Some index"
proof -
  let ?param = "index_param p ve" and ?rows = "ldb_scan L BytewiseCompare (ve_db ve)"
  have add: "0 < VEngine_Dim ve" "ai_dim p = VEngine_Dim ve" "mkdir_p 128 (new_index_path p ve)"
    "\<forall>key \<in> dom (contents L ve). key \<noteq> [] \<and> length key \<noteq> 4" "card (dom (contents L ve)) < 2 ^ 31"
    using assms(3) by (simp_all add: can_add_index_def)
  have ok: "VIndexParam_ok ?param"
    using assms(2,3) by (auto simp: VIndexParam_ok_def can_add_index_def mkdir_p_def engine_ok_def VEngine_Dim_def)
  obtain mdb where meta: "VindexMeta_new L None ?param = Some \<lparr>vm_db = mdb, vm_param = ?param\<rparr>"
    "\<forall>param'. VindexMeta_new L (Some mdb) param' = Some \<lparr>vm_db = mdb, vm_param = ?param\<rparr>"
    by (rule VindexMeta_persisted [OF ok])
  have dom: "dom (contents L ve) = dom (ldb_get L (ve_db ve))" using contents_row(1) [OF assms(2)] by (simp add: dom_def)
  have rows: "list_all (row_ok (ip_dim ?param)) ?rows" "0 + int (length ?rows) < 2 ^ 31"
    using engine_rows_ok [OF assms(2) add(1)] add(2,4,5) scan_rows(4) [of "ve_db ve"] dom by simp_all
  obtain keyid ann where build:
    "build_loop A L ?param ?rows (0, ldb_open L, CreateAnnoy A ?param) = Some (Some (int (length ?rows), keyid, ann))"
    "items ann = items (CreateAnnoy A ?param) \<union> {0..<int (length ?rows)}"
    "\<forall>n < length ?rows. ldb_get L keyid (fst (?rows ! n)) = Some (put_i32 (int n)) \<and>
      ldb_get L keyid (put_i32 (int n)) = Some (EncodeAnnoyKey (fst (?rows ! n)))"
    using build_loop_ok [OF assms(1) rows(1) scan_rows(2) order.refl rows(2), of "ldb_open L" "CreateAnnoy A ?param"] by auto
  let ?index = "\<lparr>va_param = ?param, va_meta = \<lparr>vm_db = mdb, vm_param = ?param\<rparr>, va_keyid = keyid,
    va_annoy = an_build A (ai_annoy_tree_num p) ann\<rparr>"
  have "items (CreateAnnoy A ?param) = {}"
    using annoy_lib.items_new [OF assms(1)] by (simp add: CreateAnnoy_def split: DistanceType.split)
  then have "index_for L items (map fst ?rows) ?index"
    using build(2,3) rows(2) scan_rows(2,3) [of "ve_db ve"] add(4) dom annoy_lib.items_build [OF assms(1)]
    by (auto simp: index_for_def)
  moreover have "VindexAnnoy_Init A L ?param (ve_db ve) None = Some ?index"
    using meta(1) build(1) add(3) by (simp add: VindexAnnoy_Init_def VindexAnnoy_Build_def DB_Open_def Let_def)
  moreover have "VindexAnnoy_Init A L param' db (Some (VindexAnnoy_dir ?index)) = Some ?index" for param' db
    using meta(2) by (simp add: VindexAnnoy_Init_def VindexAnnoy_dir_def DB_Open_def)
  moreover have "set (map fst ?rows) = dom (contents L ve)" using scan_rows(3) dom by simp
  ultimately show ?thesis using that by simp
qed

lemma AddIndex_ok:
  assumes "annoy_lib A items" "engine_ok L ve" "can_add_index L p ve"
  obtains index keys ve' where
    "VEngine_AddIndex A L p ve = Some (0, ve')" "index_for L items keys index" "set keys = dom (contents L ve)"
    "va_param index = index_param p ve"
    "\<forall>param' db. VindexAnnoy_Init A L param' db (Some (VindexAnnoy_dir index)) = Some index"
    "ve' = ve\<lparr>ve_index_dirs := ve_index_dirs ve @ [(new_index_path p ve, VindexAnnoy_dir index)],
      ve_index_manager := ve_index_manager ve @ [(ai_timestamp p, index)]\<rparr>"
proof -
  obtain index keys where index: "VindexAnnoy_Init A L (index_param p ve) (ve_db ve) None = Some index"
    "va_param index = index_param p ve" "index_for L items keys index" "set keys = dom (contents L ve)"
    "\<forall>param' db. VindexAnnoy_Init A L param' db (Some (VindexAnnoy_dir index)) = Some index"
    by (rule Init_builds [OF assms])
  let ?path = "new_index_path p ve"
  have new: "?path \<notin> fst ` set (ve_index_dirs ve)"
    and late: "\<forall>(t, i) \<in> set (ve_index_manager ve). t < ai_timestamp p \<and> ip_path (va_param i) \<noteq> ?path"
    using assms(3) by (simp_all add: can_add_index_def)
  have "map_of (ve_index_dirs ve) ?path = None" using new by (simp add: map_of_eq_None_iff)
  moreover have "?path \<notin> (\<lambda>x. ip_path (va_param (snd x))) ` set (ve_index_manager ve)" using late by force
  moreover have "VindexManager_Add index (ve_index_manager ve) = ve_index_manager ve @ [(ai_timestamp p, index)]"
    using late index(2) map_put_last [of "ve_index_manager ve" "ai_timestamp p" index]
    by (force simp: VindexManager_Add_def)
  ultimately have "VEngine_AddIndex A L p ve = Some (0, ve\<lparr>ve_index_dirs := ve_index_dirs ve @ [(?path, VindexAnnoy_dir index)],
      ve_index_manager := ve_index_manager ve @ [(ai_timestamp p, index)]\<rparr>)"
    using index(1) new by (simp add: VEngine_AddIndex_def open_index_def update_fresh)
  then show ?thesis using index by (intro that) auto
qed

end


lemma index_added_frame:
  assumes "ve' = ve\<lparr>ve_index_dirs := x, ve_index_manager := y\<rparr>"
  shows "engine_ok L ve' = engine_ok L ve" "contents L ve' = contents L ve" "VEngine_Dim ve' = VEngine_Dim ve"
  using assms by (simp_all add: engine_ok_def contents_def VEngine_Dim_def fun_eq_iff)

section \<open>Properties\<close>


text \<open>C16. A deleted key breaks the search: when a key is deleted after an index was built over it, a search
  that finds its item fails an assertion.\<close>

theorem deleted_key_aborts_search:
  assumes "leveldb_store L" "annoy_lib A items" "engine_ok L ve" "can_add_index L p ve"
    and "key \<in> dom (contents L ve)" "0 < limit" "Vec_dim \<lparr>vec_data = vec\<rparr> = VEngine_Dim ve"
  shows "\<exists>ve1 index n. VEngine_AddIndex A L p ve = Some (0, ve1) \<and>
    VindexManager_GetNewest (ve_index_manager ve1) = Some index \<and>
    KeyidMeta_Get_key L key (va_keyid index) = Some (0, n) \<and> n \<in> items (va_annoy index) \<and>
    (n \<in> set (fst (an_nns_by_vector A (va_annoy index) vec limit SEARCH_K)) \<longrightarrow>
      VEngine_GetKNN_vec A L vec limit (snd (VEngine_Delete L key ve1)) = None)"
proof -
  obtain index keys ve1 where add: "VEngine_AddIndex A L p ve = Some (0, ve1)" "index_for L items keys index"
    "set keys = dom (contents L ve)" "va_param index = index_param p ve"
    "ve1 = ve\<lparr>ve_index_dirs := ve_index_dirs ve @ [(new_index_path p ve, VindexAnnoy_dir index)],
      ve_index_manager := ve_index_manager ve @ [(ai_timestamp p, index)]\<rparr>"
    by (rule leveldb_store.AddIndex_ok [OF assms(1-4)])
  obtain n where n: "n < length keys" "keys ! n = key" using assms(5) add(3) by (metis in_set_conv_nth)
  let ?ve = "snd (VEngine_Delete L key ve1)"
  have ids: "KeyidMeta_Get_key L key (va_keyid index) = Some (0, int n)"
    "KeyidMeta_Get_id L (int n) (va_keyid index) = Some (0, key)"
    using index_for_get [OF add(2) n(1)] n(2) by simp_all
  have get: "VEngine_Get L key vo ?ve = Some (-2, vo)" for vo
    using leveldb_store.get_write [OF assms(1)] by (simp add: VEngine_Get_def VEngine_Delete_def)
  have stuck: "prepare_loop L (va_keyid index) ?ve xs = None" if "int n \<in> fst ` set xs" for xs
    using that
  proof (induction xs)
    case (Cons x xs)
    obtain i d where x: "x = (i, d)" by force
    show ?case
    proof (cases "i = int n")
      case True
      then show ?thesis using ids(2) get by (simp add: x)
    next
      case False
      then have "prepare_loop L (va_keyid index) ?ve xs = None" using Cons by (auto simp: x)
      then show ?thesis by (cases "KeyidMeta_Get_id L i (va_keyid index)") (auto simp: x bind_eq_None_conv split: prod.splits)
    qed
  qed simp
  have newest: "VindexManager_GetNewest (ve_index_manager ve1) = Some index"
    "VindexManager_GetNewest (ve_index_manager ?ve) = Some index"
    by (simp_all add: VindexManager_GetNewest_def VEngine_Delete_def add(5))
  have "VEngine_GetKNN_vec A L vec limit ?ve = None"
    if n: "int n \<in> set (fst (an_nns_by_vector A (va_annoy index) vec limit SEARCH_K))"
  proof -
    obtain ids ds where found: "an_nns_by_vector A (va_annoy index) vec limit SEARCH_K = (ids, ds)" by force
    have "length ids = length ds" using annoy_lib.nns_by_vector [OF assms(2,6) found] by simp
    then have "fst ` set (zip ids ds) = set ids" by (metis list.set_map map_fst_zip)
    then have "prepare_loop L (va_keyid index) ?ve (zip ids ds) = None" using n found by (intro stuck) simp
    moreover have "Vec_dim \<lparr>vec_data = vec\<rparr> = ip_dim (va_param index)"
      using assms(4,7) add(4) by (simp add: can_add_index_def)
    ultimately show ?thesis
      using newest(2) assms(6) found
      by (simp add: VEngine_GetKNN_vec_def VindexAnnoy_GetKNN_vec_def VindexAnnoy_PrepareResults_def)
  qed
  moreover have "int n \<in> items (va_annoy index)" using add(2) n(1) by (simp add: index_for_def)
  ultimately show ?thesis using add(1) newest(1) ids(1) by blast
qed

text \<open>An index survives a restart: an engine that is closed and opened again loads the index it had.\<close>

theorem index_survives_restart:
  assumes "leveldb_store L" "annoy_lib A items" "engine_ok L ve" "can_add_index L p ve"
    and "ve_index_manager ve = []" "ve_index_dirs ve = []"
  shows "\<exists>ve1 re. VEngine_AddIndex A L p ve = Some (0, ve1) \<and>
    VEngine_new L (ve_path ve) dim (Some (VEngine_dir ve1)) = Some re \<and> VEngine_LoadIndex A L re = Some ve1"
proof -
  obtain index keys ve1 where add: "VEngine_AddIndex A L p ve = Some (0, ve1)" "va_param index = index_param p ve"
    "\<forall>param' db. VindexAnnoy_Init A L param' db (Some (VindexAnnoy_dir index)) = Some index"
    "ve1 = ve\<lparr>ve_index_dirs := ve_index_dirs ve @ [(new_index_path p ve, VindexAnnoy_dir index)],
      ve_index_manager := ve_index_manager ve @ [(ai_timestamp p, index)]\<rparr>"
    by (rule leveldb_store.AddIndex_ok [OF assms(1-4)])
  let ?re = "ve1\<lparr>ve_path := ve_path ve, ve_index_manager := []\<rparr>"
  have "engine_ok L ve1" using index_added_frame(1) [OF add(4)] assms(3) by simp
  then have "VEngine_new L (ve_path ve) dim (Some (VEngine_dir ve1)) = Some ?re"
    by (rule leveldb_store.VEngine_reopen [OF assms(1)])
  moreover have "VEngine_LoadIndex A L ?re = Some ve1"
    using add(2,3) assms(5,6)
    by (simp add: VEngine_LoadIndex_def open_index_def add(4) VindexManager_Add_def)
  ultimately show ?thesis using add(1) by blast
qed

section \<open>Witnesses\<close>

definition sample_index :: AddIndexParam where
  "sample_index = \<lparr>ai_timestamp = 7, ai_dim = 1, ai_index_type = kIndexAnnoy, ai_distance_type = kEuclidean,
     ai_annoy_tree_num = 10\<rparr>"

text \<open>An engine with one vector.\<close>

definition sample_engine :: "((bytes \<times> bytes) list, int list) VEngine" where
  "sample_engine = \<lparr>ve_path = lit ''/d'', ve_meta = \<lparr>em_db = [(ENGINE_META_KEY_DIM, put_i32 1)], em_dim = 1\<rparr>,
     ve_db = [(lit ''a'', vec_value_enc (sample_value [0x3F800000]))], ve_index_dirs = [], ve_index_manager = []\<rparr>"

lemma sample_engine_ok:
  "engine_ok alist_store sample_engine" "dom (contents alist_store sample_engine) = {lit ''a''}"
  "can_add_index alist_store sample_index sample_engine"
proof -
  let ?vv = "sample_value [0x3F800000]"
  have vv: "VecValue_ok ?vv" "VecValue_dim ?vv = 1"
    by (simp_all add: sample_value_def VecValue_ok_def Vec_ok_def VecValue_dim_def Vec_dim_def lit_def)
  show "engine_ok alist_store sample_engine"
    using vv by (auto simp: engine_ok_def sample_engine_def alist_store_def)
  show dom: "dom (contents alist_store sample_engine) = {lit ''a''}"
    using stored_value(1) [OF vv(1)] by (auto simp: contents_def sample_engine_def alist_store_def dom_def split: if_splits)
  have "dec_nat 7 = [0x37]" by (subst dec_nat.simps) simp
  then have "mkdir_p 128 (new_index_path sample_index sample_engine)"
    by (simp add: mkdir_p_def new_index_path_def sample_index_def sample_engine_def lit_def c_str_def shell_char_def is_digit_def)
  then show "can_add_index alist_store sample_index sample_engine"
    by (simp add: can_add_index_def dom) (simp add: sample_engine_def sample_index_def VEngine_Dim_def lit_def)
qed


lemma sample_index_items:
  assumes "VEngine_AddIndex list_annoy alist_store sample_index sample_engine = Some (0, ve1)"
    and "VindexManager_GetNewest (ve_index_manager ve1) = Some index"
  shows "va_annoy index = [0]"
proof -
  let ?vv = "sample_value [0x3F800000]"
  have vv: "VecValue_ok ?vv" "VecValue_dim ?vv = 1"
    by (simp_all add: sample_value_def VecValue_ok_def Vec_ok_def VecValue_dim_def Vec_dim_def lit_def)
  let ?param = "index_param sample_index sample_engine"
  have scan: "ldb_scan alist_store BytewiseCompare (ve_db sample_engine) = [(lit ''a'', vec_value_enc ?vv)]"
    by (simp add: alist_store_def sample_engine_def)
  have "ip_dim ?param = 1" by (simp add: sample_index_def)
  then have build: "VindexAnnoy_Build list_annoy alist_store ?param (ve_db sample_engine) keyid [] = Some (rv, k, ann) \<Longrightarrow> ann = [0]"
    for keyid rv k ann
    using stored_value [OF vv(1)] vv(2)
    by (auto simp: VindexAnnoy_Build_def scan build_item_def sample_value_def list_annoy_def List.insert_def)
  obtain i where "VindexAnnoy_Init list_annoy alist_store ?param (ve_db sample_engine) None = Some i"
    "ve_index_manager ve1 = VindexManager_Add i []"
    using assms(1) by (auto simp: VEngine_AddIndex_def open_index_def sample_engine_def elim!: bind_eq_SomeE split: if_splits)
  moreover from this have "i = index" using assms(2) by (simp add: VindexManager_GetNewest_def VindexManager_Add_def)
  moreover have "CreateAnnoy list_annoy ?param = []" by (simp add: CreateAnnoy_def list_annoy_def split: DistanceType.split)
  ultimately show ?thesis
    using build by (auto simp: VindexAnnoy_Init_def VindexMeta_new_def VindexMeta_Persist_def Let_def
        simp del: VIndexParam.simps elim!: bind_eq_SomeE split: if_splits)
qed

theorem deleted_key_aborts_search_witness:
  "\<exists>ve1. VEngine_AddIndex list_annoy alist_store sample_index sample_engine = Some (0, ve1) \<and>
     VEngine_GetKNN_vec list_annoy alist_store [0] 3 (snd (VEngine_Delete alist_store (lit ''a'') ve1)) = None"
proof -
  have "lit ''a'' \<in> dom (contents alist_store sample_engine)" "0 < (3 :: int)" "Vec_dim \<lparr>vec_data = [0]\<rparr> = VEngine_Dim sample_engine"
    using sample_engine_ok(2) by (simp_all add: Vec_dim_def VEngine_Dim_def sample_engine_def)
  from deleted_key_aborts_search [OF alist_store.leveldb_store_axioms list_annoy.annoy_lib_axioms sample_engine_ok(1,3) this]
  show ?thesis
  proof (elim exE conjE)
    fix ve1 index n
    assume add: "VEngine_AddIndex list_annoy alist_store sample_index sample_engine = Some (0, ve1)"
      and newest: "VindexManager_GetNewest (ve_index_manager ve1) = Some index"
      and n: "n \<in> set (va_annoy index)"
      and abort: "n \<in> set (fst (an_nns_by_vector list_annoy (va_annoy index) [0] 3 SEARCH_K)) \<longrightarrow>
        VEngine_GetKNN_vec list_annoy alist_store [0] 3 (snd (VEngine_Delete alist_store (lit ''a'') ve1)) = None"
    have "n \<in> set (fst (an_nns_by_vector list_annoy (va_annoy index) [0] 3 SEARCH_K))"
      using n by (simp add: sample_index_items [OF add newest] list_annoy_def)
    with abort add show ?thesis by blast
  qed
qed

theorem index_survives_restart_witness:
  "\<exists>ve1 re. VEngine_AddIndex list_annoy alist_store sample_index sample_engine = Some (0, ve1) \<and>
     VEngine_LoadIndex list_annoy alist_store re = Some ve1"
  using index_survives_restart [OF alist_store.leveldb_store_axioms list_annoy.annoy_lib_axioms sample_engine_ok(1,3)]
  by (simp add: sample_engine_def) blast

end
