(* ===== verification/VdbEngine.thy ===== *)
theory VdbEngine
  imports VSearch
begin

text \<open>
  The vector database (src/src/vectordb/vdb_engine.cc): the catalogue of tables, one open engine per
  replica, and the operations that route a key to the engine of its partition.
\<close>

section \<open>State\<close>

record AddTableParam =
  at_name :: bytes
  at_partition_num :: int
  at_replica_num :: int
  at_dim :: int

text \<open>The engines are found by the uid of their replica. \<open>vd_disk\<close> holds the directories of engines that are
  not open, by path.\<close>

record ('db, 'ann) VdbEngine =
  vd_path :: bytes
  vd_meta :: "'db Metadata"
  vd_engines :: "(u64 \<times> ('db, 'ann) VEngine) list"
  vd_disk :: "(bytes \<times> ('db, 'ann) engine_dir) list"

definition open_paths :: "('db, 'ann) VdbEngine \<Rightarrow> bytes list" where
  "open_paths vd = map (\<lambda>x. ve_path (snd x)) (vd_engines vd)"

text \<open>Opening fails on a directory that is in use. The assignment to the map closes the engine that had the uid.\<close>

definition VdbEngine_CreateVEngine :: "'ann annoy \<Rightarrow> 'db leveldb \<Rightarrow> Replica \<Rightarrow> ('db, 'ann) VdbEngine \<Rightarrow>
    (int \<times> ('db, 'ann) VdbEngine) option" where
  "VdbEngine_CreateVEngine A L replica vd = do {
     check (rp_path replica \<notin> set (open_paths vd));
     ve \<leftarrow> VEngine_new L (rp_path replica) (rp_dim replica) (map_of (vd_disk vd) (rp_path replica));
     let disk = AList.delete (rp_path replica) (vd_disk vd);
     let disk = (case map_of (vd_engines vd) (rp_uid replica) of
                   Some old \<Rightarrow> AList.update (ve_path old) (VEngine_dir old) disk
                 | None \<Rightarrow> disk);
     ve \<leftarrow> (if \<not> VEngine_HasIndex ve then VEngine_LoadIndex A L ve else Some ve);
     Some (0, vd\<lparr>vd_engines := AList.update (rp_uid replica) ve (vd_engines vd), vd_disk := disk\<rparr>) }"

fun create_engines :: "'ann annoy \<Rightarrow> 'db leveldb \<Rightarrow> Replica list \<Rightarrow> ('db, 'ann) VdbEngine \<Rightarrow> ('db, 'ann) VdbEngine option" where
  "create_engines A L [] vd = Some vd"
| "create_engines A L (r # rs) vd = do {
     (rv, vd) \<leftarrow> VdbEngine_CreateVEngine A L r vd;
     check (rv = 0);
     create_engines A L rs vd }"

section \<open>Start and restart\<close>

text \<open>What a database leaves on disk, and the constructor on it (\<open>None\<close> when there is no directory).\<close>

record ('db, 'ann) vdb_dir =
  vr_meta :: "'db option"
  vr_engines :: "(bytes \<times> ('db, 'ann) engine_dir) list"

definition VdbEngine_dir :: "('db, 'ann) VdbEngine \<Rightarrow> ('db, 'ann) vdb_dir" where
  "VdbEngine_dir vd = \<lparr>vr_meta = Some (md_db (vd_meta vd)),
     vr_engines = map (\<lambda>x. (ve_path (snd x), VEngine_dir (snd x))) (vd_engines vd) @ vd_disk vd\<rparr>"

definition VdbEngine_new :: "'ann annoy \<Rightarrow> 'db leveldb \<Rightarrow> bytes \<Rightarrow> ('db, 'ann) vdb_dir option \<Rightarrow> ('db, 'ann) VdbEngine option" where
  "VdbEngine_new A L path dir = do {
     d \<leftarrow> (case dir of
             None \<Rightarrow> do { check (mkdir_p 256 path); Some \<lparr>vr_meta = None, vr_engines = []\<rparr> }
           | Some d \<Rightarrow> Some d);
     md \<leftarrow> Metadata_new L process_start (DB_Open L (vr_meta d));
     rs \<leftarrow> ForEachReplica md;
     create_engines A L rs \<lparr>vd_path = path, vd_meta = md, vd_engines = [], vd_disk = vr_engines d\<rparr> }"

section \<open>Operations\<close>

definition VdbEngine_AddTable :: "'ann annoy \<Rightarrow> 'db leveldb \<Rightarrow> AddTableParam \<Rightarrow> ('db, 'ann) VdbEngine \<Rightarrow>
    (int \<times> ('db, 'ann) VdbEngine) option" where
  "VdbEngine_AddTable A L param vd = do {
     (rv, md) \<leftarrow> Metadata_AddTable L
       \<lparr>tp_name = at_name param, tp_path = vd_path vd @ lit ''/data'', tp_partition_num = at_partition_num param,
        tp_replica_num = at_replica_num param, tp_dim = at_dim param\<rparr> (vd_meta vd);
     let vd = vd\<lparr>vd_meta := md\<rparr>;
     if rv \<noteq> 0 then Some (-1, vd)
     else do {
       rs \<leftarrow> ForEachReplicaInTable (at_name param) md;
       vd \<leftarrow> create_engines A L rs vd;
       Some (0, vd) } }"

text \<open>The engine for a key of a table, as the uid it is found under; the inner \<open>None\<close> is the null pointer.\<close>

definition VdbEngine_GetVEngine :: "bytes \<Rightarrow> bytes \<Rightarrow> ('db, 'ann) VdbEngine \<Rightarrow> u64 option option" where
  "VdbEngine_GetVEngine table key vd =
     (case Metadata_GetTable table (vd_meta vd) of
        None \<Rightarrow> Some None
      | Some t \<Rightarrow> do {
          partition_id \<leftarrow> PartitionId key (tb_partition_num t);
          replica \<leftarrow> Metadata_GetReplica (ReplicaName3 table partition_id 0) (vd_meta vd);
          Some (case replica of
                  None \<Rightarrow> None
                | Some r \<Rightarrow> if map_of (vd_engines vd) (rp_uid r) = None then None else Some (rp_uid r)) })"

definition VdbEngine_GetVEngine_replica :: "bytes \<Rightarrow> ('db, 'ann) VdbEngine \<Rightarrow> ('db, 'ann) VEngine option option" where
  "VdbEngine_GetVEngine_replica replica_name vd = do {
     replica \<leftarrow> Metadata_GetReplica replica_name (vd_meta vd);
     Some (case replica of None \<Rightarrow> None | Some r \<Rightarrow> map_of (vd_engines vd) (rp_uid r)) }"

definition VdbEngine_Put :: "'db leveldb \<Rightarrow> bytes \<Rightarrow> bytes \<Rightarrow> VecValue \<Rightarrow> ('db, 'ann) VdbEngine \<Rightarrow>
    (int \<times> ('db, 'ann) VdbEngine) option" where
  "VdbEngine_Put L table key vv vd = do {
     h \<leftarrow> VdbEngine_GetVEngine table key vd;
     (case h of
        None \<Rightarrow> Some (-1, vd)
      | Some u \<Rightarrow> do {
          ve \<leftarrow> map_of (vd_engines vd) u;
          (rv, ve) \<leftarrow> VEngine_Put L key vv ve;
          Some (rv, vd\<lparr>vd_engines := AList.update u ve (vd_engines vd)\<rparr>) }) }"

definition VdbEngine_Get :: "'db leveldb \<Rightarrow> bytes \<Rightarrow> bytes \<Rightarrow> VecObj \<Rightarrow> ('db, 'ann) VdbEngine \<Rightarrow> (int \<times> VecObj) option" where
  "VdbEngine_Get L table key vo vd = do {
     h \<leftarrow> VdbEngine_GetVEngine table key vd;
     (case h of
        None \<Rightarrow> Some (-1, vo)
      | Some u \<Rightarrow> do { ve \<leftarrow> map_of (vd_engines vd) u; VEngine_Get L key vo ve }) }"

definition VdbEngine_Delete :: "'db leveldb \<Rightarrow> bytes \<Rightarrow> bytes \<Rightarrow> ('db, 'ann) VdbEngine \<Rightarrow>
    (int \<times> ('db, 'ann) VdbEngine) option" where
  "VdbEngine_Delete L table key vd = do {
     h \<leftarrow> VdbEngine_GetVEngine table key vd;
     (case h of
        None \<Rightarrow> Some (-1, vd)
      | Some u \<Rightarrow> do {
          ve \<leftarrow> map_of (vd_engines vd) u;
          let (rv, ve) = VEngine_Delete L key ve;
          Some (rv, vd\<lparr>vd_engines := AList.update u ve (vd_engines vd)\<rparr>) }) }"

fun VdbEngine_load_lines :: "'db leveldb \<Rightarrow> (bytes \<Rightarrow> f32 option) \<Rightarrow> bytes \<Rightarrow> bytes list \<Rightarrow> ('db, 'ann) VdbEngine \<Rightarrow>
    (int \<times> ('db, 'ann) VdbEngine) option" where
  "VdbEngine_load_lines L sscanf table [] vd = Some (0, vd)"
| "VdbEngine_load_lines L sscanf table (line # lines) vd = do {
     x \<leftarrow> load_line sscanf line;
     (case x of
        None \<Rightarrow> Some (-1, vd)
      | Some (key, vv) \<Rightarrow> do {
          (rv, vd) \<leftarrow> VdbEngine_Put L table key vv vd;
          if rv \<noteq> 0 then Some (rv, vd) else VdbEngine_load_lines L sscanf table lines vd }) }"

definition VdbEngine_Load :: "'db leveldb \<Rightarrow> (bytes \<Rightarrow> f32 option) \<Rightarrow> bytes \<Rightarrow> bytes list option \<Rightarrow> ('db, 'ann) VdbEngine \<Rightarrow>
    (int \<times> ('db, 'ann) VdbEngine) option" where
  "VdbEngine_Load L sscanf table file vd =
     (case file of None \<Rightarrow> Some (-1, vd) | Some lines \<Rightarrow> VdbEngine_load_lines L sscanf table lines vd)"

section \<open>Indices and search\<close>

definition VdbEngine_HasIndex :: "bytes \<Rightarrow> ('db, 'ann) VdbEngine \<Rightarrow> bool option" where
  "VdbEngine_HasIndex table vd = do {
     rs \<leftarrow> ForEachReplicaInTable table (vd_meta vd);
     Some (list_all (\<lambda>r. case map_of (vd_engines vd) (rp_uid r) of None \<Rightarrow> False | Some ve \<Rightarrow> VEngine_HasIndex ve) rs) }"

fun add_indices :: "'ann annoy \<Rightarrow> 'db leveldb \<Rightarrow> AddIndexParam \<Rightarrow> Replica list \<Rightarrow> ('db, 'ann) VdbEngine \<Rightarrow>
    ('db, 'ann) VdbEngine option" where
  "add_indices A L param [] vd = Some vd"
| "add_indices A L param (r # rs) vd =
     (case map_of (vd_engines vd) (rp_uid r) of
        None \<Rightarrow> add_indices A L param rs vd
      | Some ve \<Rightarrow> do {
          (rv, ve) \<leftarrow> VEngine_AddIndex A L param ve;
          add_indices A L param rs (vd\<lparr>vd_engines := AList.update (rp_uid r) ve (vd_engines vd)\<rparr>) })"

definition VdbEngine_AddIndex :: "'ann annoy \<Rightarrow> 'db leveldb \<Rightarrow> bytes \<Rightarrow> AddIndexParam \<Rightarrow> ('db, 'ann) VdbEngine \<Rightarrow>
    (int \<times> ('db, 'ann) VdbEngine) option" where
  "VdbEngine_AddIndex A L table param vd = do {
     rs \<leftarrow> ForEachReplicaInTable table (vd_meta vd);
     vd \<leftarrow> add_indices A L param rs vd;
     Some (0, vd) }"

definition EveryLimit :: "int \<Rightarrow> int \<Rightarrow> int" where
  "EveryLimit limit partition_num = limit"

text \<open>Both searches collect what the engines of the table return, whatever their codes, sort it and cut it.
  \<open>search\<close> is the search of one engine with the limit it is given.\<close>

definition collect_results :: "(int \<Rightarrow> ('db, 'ann) VEngine \<Rightarrow> (int \<times> VecResult list) option) \<Rightarrow> bytes \<Rightarrow> VecResult list \<Rightarrow> int \<Rightarrow>
    ('db, 'ann) VdbEngine \<Rightarrow> (int \<times> VecResult list) option" where
  "collect_results search table results limit vd =
     (if limit \<le> 0 then Some (-1, results)
      else case Metadata_GetTable table (vd_meta vd) of
        None \<Rightarrow> Some (-1, results)
      | Some t \<Rightarrow> do {
          rs \<leftarrow> ForEachReplicaInTable table (vd_meta vd);
          found \<leftarrow> concat_opt (\<lambda>r. case map_of (vd_engines vd) (rp_uid r) of
                     None \<Rightarrow> Some []
                   | Some ve \<Rightarrow> do {
                       (rv, part_results) \<leftarrow> search (EveryLimit limit (tb_partition_num t)) ve;
                       Some part_results }) rs;
          sorted \<leftarrow> sort_results found;
          Some (0, take (nat limit) sorted) })"

definition VdbEngine_GetKNN_key :: "'ann annoy \<Rightarrow> 'db leveldb \<Rightarrow> bytes \<Rightarrow> bytes \<Rightarrow> VecResult list \<Rightarrow> int \<Rightarrow>
    ('db, 'ann) VdbEngine \<Rightarrow> (int \<times> VecResult list) option" where
  "VdbEngine_GetKNN_key A L table key results limit vd =
     collect_results (VEngine_GetKNN_key A L key) table results limit vd"

definition VdbEngine_GetKNN_vec :: "'ann annoy \<Rightarrow> 'db leveldb \<Rightarrow> bytes \<Rightarrow> f32 list \<Rightarrow> VecResult list \<Rightarrow> int \<Rightarrow>
    ('db, 'ann) VdbEngine \<Rightarrow> (int \<times> VecResult list) option" where
  "VdbEngine_GetKNN_vec A L table vec results limit vd =
     collect_results (VEngine_GetKNN_vec A L vec) table results limit vd"

end
