(* ===== verification/VdbStore.thy ===== *)
theory VdbStore
  imports VdbEngine
begin

text \<open>
  The database as tables of vectors: which states are in order, that every operation keeps them so, that
  a sequence of operations refines tables of maps, and what becomes of the tables over a restart.
\<close>

section \<open>Partitions of keys\<close>

lemma PartitionId_bounds:
  assumes "0 < n" "n < 2 ^ 31"
  obtains i where "PartitionId key n = Some i" "0 \<le> i" "i < n" "i = uint (Crc32 key) mod n"
proof -
  let ?i = "uint (Crc32 key) mod n"
  have n: "n mod 2 ^ 32 = n" using assms by (intro mod_pos_pos_trivial) simp_all
  have i: "0 \<le> ?i" "?i < n" using assms by simp_all
  have "?i < 2 ^ 31" using i(2) assms(2) by (rule less_trans)
  moreover have "- (2 ^ 31) \<le> ?i" using i(1) by (rule order.trans [rotated]) simp
  ultimately have "signed_take_bit 31 ?i = ?i" by (intro signed_take_bit_int_eq_self)
  then have "PartitionId key n = Some ?i"
    using assms n by (simp add: PartitionId_def signed_of_int)
  then show ?thesis using that i by simp
qed

section \<open>Replicas of a table\<close>

definition in_table :: "Table \<Rightarrow> Partition \<Rightarrow> Replica \<Rightarrow> bool" where
  "in_table t p r \<longleftrightarrow> (pt_name p, Some p) \<in> set (tb_partitions_by_name t) \<and>
     (rp_name r, Some r) \<in> set (pt_replicas_by_name p)"

lemma table_wfD:
  assumes "table_wf t" "in_table t p r"
  shows "table_name_ok (tb_name t)" "partition_wf (tb_name t) p" "replica_wf (pt_name p) r"
    "rp_name r = ReplicaName3 (tb_name t) (pt_id p) (rp_id r)" "small_id (pt_id p)" "small_id (rp_id r)"
proof -
  show n: "table_name_ok (tb_name t)" and p: "partition_wf (tb_name t) p"
    using assms by (auto simp: table_wf_def in_table_def)
  show r: "replica_wf (pt_name p) r" using p assms(2) by (auto simp: partition_wf_def in_table_def)
  show "rp_name r = ReplicaName3 (tb_name t) (pt_id p) (rp_id r)" "small_id (pt_id p)" "small_id (rp_id r)"
    using p r by (auto simp: partition_wf_def replica_wf_def ReplicaName3_def)
qed

lemma ReplicaName3_inj:
  assumes "table_name_ok m" "small_id i" "small_id j" "table_name_ok n" "small_id k" "small_id l"
    and "ReplicaName3 m i j = ReplicaName3 n k l"
  shows "m = n" "i = k" "j = l"
proof -
  have "Some (m, i, j) = ParseReplicaName (ReplicaName3 m i j)"
    unfolding ReplicaName3_def by (rule Parse_names(2) [OF assms(1-3), symmetric])
  also have "\<dots> = ParseReplicaName (ReplicaName3 n k l)" unfolding assms(7) ..
  also have "\<dots> = Some (n, k, l)" unfolding ReplicaName3_def by (rule Parse_names(2) [OF assms(4-6)])
  finally show "m = n" "i = k" "j = l" by simp_all
qed

lemma replica_name_determines:
  assumes "table_wf t" "in_table t p r" "table_wf t'" "in_table t' p' r'" "rp_name r = rp_name r'"
  shows "tb_name t = tb_name t'" "pt_id p = pt_id p'" "rp_id r = rp_id r'"
  using ReplicaName3_inj [OF table_wfD(1,5,6) [OF assms(1,2)] table_wfD(1,5,6) [OF assms(3,4)]]
    table_wfD(4) [OF assms(1,2)] table_wfD(4) [OF assms(3,4)] assms(5) by auto

lemma children_by_id:
  assumes "linked ident name by_id by_name"
  shows "map ident (children by_id) = map fst by_id" "v \<in> set (children by_id) \<longleftrightarrow> (name v, Some v) \<in> set by_name"
proof -
  have some: "\<exists>v. x = Some v \<and> ident v = i" if "(i, x) \<in> set by_id" for i x
    using assms that by (auto simp: linked_def)
  have "map ident (children m) = map fst m" if "set m \<subseteq> set by_id" for m
    using that by (induction m) (auto simp: map_filter_simps split: prod.splits dest!: some)
  then show "map ident (children by_id) = map fst by_id" by blast
  have "v \<in> set (children by_id) \<longleftrightarrow> (ident v, Some v) \<in> set by_id"
    using some by (force simp: map_filter_def)
  then show "v \<in> set (children by_id) \<longleftrightarrow> (name v, Some v) \<in> set by_name"
    using linked_children(2) [OF assms] by simp
qed

lemma concat_opt_distinct:
  assumes "\<And>x. x \<in> set xs \<Longrightarrow> f x = Some (g x)" "\<And>x. x \<in> set xs \<Longrightarrow> distinct (g x)"
    and "\<And>x y. x \<in> set xs \<Longrightarrow> y \<in> set xs \<Longrightarrow> x \<noteq> y \<Longrightarrow> set (g x) \<inter> set (g y) = {}" "distinct xs"
  shows "concat_opt f xs = Some (concat (map g xs)) \<and> distinct (concat (map g xs))"
  using assms
proof (induction xs)
  case (Cons x xs)
  then have IH: "concat_opt f xs = Some (concat (map g xs)) \<and> distinct (concat (map g xs))" by simp
  have "set (g x) \<inter> set (g y) = {}" if "y \<in> set xs" for y
    using Cons.prems(3) [of x y] Cons.prems(4) that by auto
  then have "set (g x) \<inter> set (concat (map g xs)) = {}" by auto
  then show ?case using IH Cons.prems(1,2) [of x] by simp
qed simp

lemma ForEachReplicaInTable_wf:
  assumes "meta_wf md" "map_of (md_tables md) n = Some t"
  obtains rs where "ForEachReplicaInTable n md = Some rs" "set rs = {r. \<exists>p. in_table t p r}" "distinct rs"
proof -
  have t: "tb_name t = n" "table_wf t" using assms(1) map_of_SomeD [OF assms(2)] by (auto simp: meta_wf_def)
  have link: "linked pt_id pt_name (tb_partitions_by_id t) (tb_partitions_by_name t)" using t(2) by (simp add: table_wf_def)
  let ?ps = "map snd (tb_partitions_by_name t)" and ?g = "\<lambda>x. children (pt_replicas_by_id (the x))"
  have part: "\<exists>p. x = Some p \<and> (pt_name p, Some p) \<in> set (tb_partitions_by_name t)" if "x \<in> set ?ps" for x
    using that link by (force simp: linked_def)
  have wf: "partition_wf n p" "linked rp_id rp_name (pt_replicas_by_id p) (pt_replicas_by_name p)"
    if "(pt_name p, Some p) \<in> set (tb_partitions_by_name t)" for p
    using t that by (auto simp: table_wf_def partition_wf_def)
  have find: "Metadata_GetPartition (pt_name p) md = Some (Some p)"
    if p: "(pt_name p, Some p) \<in> set (tb_partitions_by_name t)" for p
  proof -
    have i: "pt_id p \<in> fst ` set (tb_partitions_by_id t)" using p linked_children(2) [OF link] by force
    obtain q where q: "(pt_name q, Some q) \<in> set (tb_partitions_by_name t)" "pt_id q = pt_id p"
      "Metadata_GetPartition (PartitionName n (pt_id p)) md = Some (Some q)"
      by (rule GetReplica_wf [OF assms i])
    have "pt_name q = pt_name p" "pt_name p = PartitionName n (pt_id p)"
      using wf(1) [OF p] wf(1) [OF q(1)] q(2) by (simp_all add: partition_wf_def)
    moreover have "distinct (map fst (tb_partitions_by_name t))" using link ordered_distinct by (auto simp: linked_def)
    ultimately have "q = p" using p q(1) by (metis eq_key_imp_eq_value option.inject)
    with q(3) \<open>pt_name p = PartitionName n (pt_id p)\<close> show ?thesis by simp
  qed
  let ?f = "\<lambda>x. do { p \<leftarrow> x; ForEachReplicaInPartition (pt_name p) md }"
  have dist: "distinct ?ps"
  proof -
    have "distinct (map fst (tb_partitions_by_name t))" using link ordered_distinct by (auto simp: linked_def)
    moreover have "inj_on snd (set (tb_partitions_by_name t))"
    proof (rule inj_onI)
      fix x y
      assume xy: "x \<in> set (tb_partitions_by_name t)" "y \<in> set (tb_partitions_by_name t)" "snd x = snd y"
      have "\<exists>v. snd z = Some v \<and> pt_name v = fst z" if "z \<in> set (tb_partitions_by_name t)" for z
        using link that by (cases z) (auto simp: linked_def)
      from this [OF xy(1)] this [OF xy(2)] xy(3) show "x = y" by (auto simp: prod_eq_iff)
    qed
    ultimately show ?thesis by (simp add: distinct_map)
  qed
  have "concat_opt ?f ?ps = Some (concat (map ?g ?ps)) \<and> distinct (concat (map ?g ?ps))"
  proof (rule concat_opt_distinct [OF _ _ _ dist])
    fix x assume x: "x \<in> set ?ps"
    then obtain p where p: "x = Some p" "(pt_name p, Some p) \<in> set (tb_partitions_by_name t)" using part by blast
    show "?f x = Some (?g x)" using find [OF p(2)] p(1) by (simp add: ForEachReplicaInPartition_def)
    have "distinct (map rp_id (children (pt_replicas_by_id p)))"
      unfolding children_by_id(1) [OF wf(2) [OF p(2)]] using wf(2) [OF p(2)] ordered_distinct by (auto simp: linked_def)
    then show "distinct (?g x)" using p(1) by (simp add: distinct_map)
    fix y assume y: "y \<in> set ?ps" "x \<noteq> y"
    then obtain q where q: "y = Some q" "(pt_name q, Some q) \<in> set (tb_partitions_by_name t)" using part by blast
    show "set (?g x) \<inter> set (?g y) = {}"
    proof (rule ccontr)
      assume "set (?g x) \<inter> set (?g y) \<noteq> {}"
      then obtain r where r: "in_table t p r" "in_table t q r"
        using p q children_by_id(2) [OF wf(2) [OF p(2)]] children_by_id(2) [OF wf(2) [OF q(2)]] by (auto simp: in_table_def)
      have "pt_id p = pt_id q" by (rule replica_name_determines(2) [OF t(2) r(1) t(2) r(2) refl])
      then have "pt_name p = pt_name q" using wf(1) [OF p(2)] wf(1) [OF q(2)] by (simp add: partition_wf_def)
      then have "p = q" by (rule linked_unique [OF link p(2) q(2)])
      with p(1) q(1) y(2) show False by simp
    qed
  qed
  moreover have "set (concat (map ?g ?ps)) = {r. \<exists>p. in_table t p r}"
  proof -
    have "r \<in> set (concat (map ?g ?ps)) \<longleftrightarrow> (\<exists>p. (pt_name p, Some p) \<in> set (tb_partitions_by_name t) \<and>
        r \<in> set (children (pt_replicas_by_id p)))" for r
      using part by force
    also have "(\<exists>p. (pt_name p, Some p) \<in> set (tb_partitions_by_name t) \<and> r \<in> set (children (pt_replicas_by_id p))) \<longleftrightarrow>
        (\<exists>p. in_table t p r)" for r
      using children_by_id(2) [OF wf(2)] unfolding in_table_def by blast
    finally show ?thesis by blast
  qed
  ultimately show ?thesis
    using that assms(2) by (simp add: ForEachReplicaInTable_def ForEachPartitionInTable_def Metadata_GetTable_def)
qed

section \<open>Opening engines\<close>

definition opens :: "'db leveldb \<Rightarrow> (bytes \<times> ('db, 'ann) engine_dir) list \<Rightarrow> Replica \<Rightarrow> ('db, 'ann) VEngine \<Rightarrow> bool" where
  "opens L disk r ve \<longleftrightarrow> VEngine_new L (rp_path r) (rp_dim r) (map_of disk (rp_path r)) = Some ve \<and>
     ve_index_dirs ve = [] \<and> ve_index_manager ve = [] \<and> ve_path ve = rp_path r"

lemma set_alist_update: "set (AList.update k v m) \<subseteq> insert (k, v) (set m)"
  by (induction m) auto

lemma CreateVEngine_opens:
  assumes "opens L (vd_disk vd) r ve" "rp_path r \<notin> set (open_paths vd)"
  obtains vd' where "VdbEngine_CreateVEngine A L r vd = Some (0, vd')" "vd_meta vd' = vd_meta vd" "vd_path vd' = vd_path vd"
    "map_of (vd_engines vd') = (map_of (vd_engines vd))(rp_uid r \<mapsto> ve)"
    "set (open_paths vd') \<subseteq> insert (rp_path r) (set (open_paths vd))"
    "\<And>path. path \<noteq> rp_path r \<Longrightarrow> path \<notin> set (open_paths vd) \<Longrightarrow> map_of (vd_disk vd') path = map_of (vd_disk vd) path"
    "map_of (vd_engines vd) (rp_uid r) = None \<Longrightarrow> vd_disk vd' = AList.delete (rp_path r) (vd_disk vd)"
    "fst ` set (vd_engines vd') = insert (rp_uid r) (fst ` set (vd_engines vd))"
    "distinct (map fst (vd_engines vd)) \<Longrightarrow> distinct (map fst (vd_engines vd'))"
proof -
  let ?disk = "case map_of (vd_engines vd) (rp_uid r) of
      Some old \<Rightarrow> AList.update (ve_path old) (VEngine_dir old) (AList.delete (rp_path r) (vd_disk vd))
    | None \<Rightarrow> AList.delete (rp_path r) (vd_disk vd)"
  let ?vd = "vd\<lparr>vd_engines := AList.update (rp_uid r) ve (vd_engines vd), vd_disk := ?disk\<rparr>"
  have "VdbEngine_CreateVEngine A L r vd = Some (0, ?vd)"
    using assms by (simp add: VdbEngine_CreateVEngine_def opens_def VEngine_HasIndex_def VindexManager_HasIndex_def VEngine_LoadIndex_def Let_def)
  moreover have "set (open_paths ?vd) \<subseteq> insert (rp_path r) (set (open_paths vd))"
    using assms(1) set_alist_update [of "rp_uid r" ve "vd_engines vd"] by (auto simp: open_paths_def opens_def)
  moreover have "map_of ?disk path = map_of (vd_disk vd) path"
    if "path \<noteq> rp_path r" "path \<notin> set (open_paths vd)" for path
  proof (cases "map_of (vd_engines vd) (rp_uid r)")
    case (Some old)
    then have "ve_path old \<in> set (open_paths vd)" by (force simp: open_paths_def dest: map_of_SomeD)
    with Some that show ?thesis by (auto simp: delete_conv' update_conv')
  qed (use that in \<open>simp add: delete_conv'\<close>)
  moreover have "map_of (AList.update (rp_uid r) ve (vd_engines vd)) = (map_of (vd_engines vd))(rp_uid r \<mapsto> ve)"
    by (simp add: update_conv')
  ultimately show ?thesis by (intro that [of ?vd]) (simp_all add: dom_update distinct_update)
qed

lemma disjoint_insertI: "a \<notin> X \<Longrightarrow> X \<inter> P = {} \<Longrightarrow> Q \<subseteq> insert a P \<Longrightarrow> X \<inter> Q = {}"
  by blast

lemma create_engines_opens:
  assumes "\<forall>r \<in> set rs. opens L (vd_disk vd) r (E r)" "distinct (map rp_path rs)" "distinct (map rp_uid rs)"
    and "rp_path ` set rs \<inter> set (open_paths vd) = {}"
  shows "\<exists>vd'. create_engines A L rs vd = Some vd' \<and> vd_meta vd' = vd_meta vd \<and> vd_path vd' = vd_path vd \<and>
    map_of (vd_engines vd') = map_of (vd_engines vd) ++ map_of (map (\<lambda>r. (rp_uid r, E r)) rs) \<and>
    set (open_paths vd') \<subseteq> rp_path ` set rs \<union> set (open_paths vd) \<and>
    (rp_uid ` set rs \<inter> fst ` set (vd_engines vd) = {} \<longrightarrow>
       vd_disk vd' = filter (\<lambda>x. fst x \<notin> rp_path ` set rs) (vd_disk vd)) \<and>
    (distinct (map fst (vd_engines vd)) \<longrightarrow> distinct (map fst (vd_engines vd')))"
  using assms
proof (induction rs arbitrary: vd)
  case (Cons r rs)
  have 1: "opens L (vd_disk vd) r (E r)" "rp_path r \<notin> set (open_paths vd)" using Cons.prems(1,4) by auto
  obtain v1 where v1: "VdbEngine_CreateVEngine A L r vd = Some (0, v1)" "vd_meta v1 = vd_meta vd" "vd_path v1 = vd_path vd"
    "map_of (vd_engines v1) = (map_of (vd_engines vd))(rp_uid r \<mapsto> E r)"
    "set (open_paths v1) \<subseteq> insert (rp_path r) (set (open_paths vd))"
    "\<And>path. path \<noteq> rp_path r \<Longrightarrow> path \<notin> set (open_paths vd) \<Longrightarrow> map_of (vd_disk v1) path = map_of (vd_disk vd) path"
    "map_of (vd_engines vd) (rp_uid r) = None \<Longrightarrow> vd_disk v1 = AList.delete (rp_path r) (vd_disk vd)"
    "fst ` set (vd_engines v1) = insert (rp_uid r) (fst ` set (vd_engines vd))"
    "distinct (map fst (vd_engines vd)) \<Longrightarrow> distinct (map fst (vd_engines v1))"
    using CreateVEngine_opens [OF 1] by blast
  have "opens L (vd_disk v1) s (E s)" if s: "s \<in> set rs" for s
  proof -
    have "rp_path s \<in> rp_path ` set rs" using s by blast
    then have "rp_path s \<noteq> rp_path r" "rp_path s \<notin> set (open_paths vd)" using Cons.prems(2,4) by auto
    then have "map_of (vd_disk v1) (rp_path s) = map_of (vd_disk vd) (rp_path s)" by (rule v1(6))
    then show ?thesis using Cons.prems(1) s by (simp add: opens_def)
  qed
  moreover have sep: "rp_path r \<notin> rp_path ` set rs" "rp_path ` set rs \<inter> set (open_paths vd) = {}"
    using Cons.prems(2,4) by auto
  from disjoint_insertI [OF this v1(5)] have "rp_path ` set rs \<inter> set (open_paths v1) = {}" .
  ultimately obtain v2 where v2: "create_engines A L rs v1 = Some v2" "vd_meta v2 = vd_meta v1" "vd_path v2 = vd_path v1"
    "map_of (vd_engines v2) = map_of (vd_engines v1) ++ map_of (map (\<lambda>r. (rp_uid r, E r)) rs)"
    "set (open_paths v2) \<subseteq> rp_path ` set rs \<union> set (open_paths v1)"
    "rp_uid ` set rs \<inter> fst ` set (vd_engines v1) = {} \<longrightarrow>
       vd_disk v2 = filter (\<lambda>x. fst x \<notin> rp_path ` set rs) (vd_disk v1)"
    "distinct (map fst (vd_engines v1)) \<longrightarrow> distinct (map fst (vd_engines v2))"
    using Cons.IH [of v1] Cons.prems(2,3) by auto
  have "rp_uid r \<notin> rp_uid ` set rs" using Cons.prems(3) by auto
  then have "map_of (map (\<lambda>r. (rp_uid r, E r)) rs) (rp_uid r) = None" by (simp add: map_of_eq_None_iff image_image)
  then have engines: "map_of (vd_engines v2) = map_of (vd_engines vd) ++ map_of (map (\<lambda>r. (rp_uid r, E r)) (r # rs))"
    using v2(4) v1(4) by (auto simp: map_add_def fun_eq_iff split: option.split)
  have disk: "vd_disk v2 = filter (\<lambda>x. fst x \<notin> rp_path ` set (r # rs)) (vd_disk vd)"
    if apart: "rp_uid ` set (r # rs) \<inter> fst ` set (vd_engines vd) = {}"
  proof -
    have "map_of (vd_engines vd) (rp_uid r) = None" using apart by (simp add: map_of_eq_None_iff)
    then have "vd_disk v1 = AList.delete (rp_path r) (vd_disk vd)" by (rule v1(7))
    moreover have "rp_uid ` set rs \<inter> fst ` set (vd_engines v1) = {}"
      using apart v1(8) \<open>rp_uid r \<notin> rp_uid ` set rs\<close> by auto
    ultimately show ?thesis using v2(6) by (auto simp: AList.delete_eq intro!: filter_cong)
  qed
  have paths: "set (open_paths v2) \<subseteq> rp_path ` set (r # rs) \<union> set (open_paths vd)" using v1(5) v2(5) by auto
  have "create_engines A L (r # rs) vd = Some v2" "vd_meta v2 = vd_meta vd" "vd_path v2 = vd_path vd"
    using v1(1-3) v2(1-3) by simp_all
  with engines disk paths v1(9) v2(7) show ?case by blast
qed simp

section \<open>States in order\<close>

definition replica_of :: "'db Metadata \<Rightarrow> Table \<Rightarrow> Partition \<Rightarrow> Replica \<Rightarrow> bool" where
  "replica_of md t p r \<longleftrightarrow> (tb_name t, t) \<in> set (md_tables md) \<and> in_table t p r"

lemma ForEachReplica_wf:
  assumes "meta_wf md"
  obtains rs where "ForEachReplica md = Some rs" "set rs = {r. \<exists>t p. replica_of md t p r}" "distinct rs"
proof -
  let ?f = "\<lambda>t. ForEachReplicaInTable (tb_name t) md" and ?ts = "ForEachTable md"
  have t: "(tb_name t, t) \<in> set (md_tables md)" "table_wf t" if "t \<in> set ?ts" for t
    using assms that by (auto simp: meta_wf_def ForEachTable_def)
  have names: "distinct (map fst (md_tables md))" using assms by (simp add: meta_wf_def)
  have ex: "\<exists>rs. ?f t = Some rs \<and> set rs = {r. \<exists>p. in_table t p r} \<and> distinct rs" if "t \<in> set ?ts" for t
  proof -
    have "map_of (md_tables md) (tb_name t) = Some t" using t(1) [OF that] names by simp
    from ForEachReplicaInTable_wf [OF assms this] show ?thesis by metis
  qed
  then obtain g where g: "\<And>t. t \<in> set ?ts \<Longrightarrow> ?f t = Some (g t) \<and> set (g t) = {r. \<exists>p. in_table t p r} \<and> distinct (g t)"
    by metis
  have tabs: "map tb_name ?ts = map fst (md_tables md)"
    using assms by (auto simp: ForEachTable_def meta_wf_def)
  then have dist: "distinct ?ts" using names by (metis distinct_map)
  have apart: "set (g t) \<inter> set (g t') = {}" if ts: "t \<in> set ?ts" "t' \<in> set ?ts" "t \<noteq> t'" for t t'
  proof (rule ccontr)
    assume "set (g t) \<inter> set (g t') \<noteq> {}"
    then obtain r p p' where "in_table t p r" "in_table t' p' r" using g [OF ts(1)] g [OF ts(2)] by blast
    then have "tb_name t = tb_name t'" by (intro replica_name_determines(1) [OF t(2) [OF ts(1)] _ t(2) [OF ts(2)]]) auto
    then show False using t(1) [OF ts(1)] t(1) [OF ts(2)] names ts(3) by (metis eq_key_imp_eq_value)
  qed
  have "concat_opt ?f ?ts = Some (concat (map g ?ts)) \<and> distinct (concat (map g ?ts))"
    by (rule concat_opt_distinct) (use g apart dist in auto)
  moreover have "set (concat (map g ?ts)) = {r. \<exists>t p. replica_of md t p r}"
  proof -
    have "t \<in> set ?ts \<longleftrightarrow> (tb_name t, t) \<in> set (md_tables md)" for t
      using t(1) by (force simp: ForEachTable_def)
    then show ?thesis using g by (auto simp: replica_of_def)
  qed
  ultimately show ?thesis using that by (simp add: ForEachReplica_def)
qed

text \<open>The tables have partitions and replicas in full number, and replicas are kept under their names.\<close>

definition tables_ok :: "'db Metadata \<Rightarrow> bool" where
  "tables_ok md \<longleftrightarrow> meta_wf md \<and>
     (\<forall>(n, t) \<in> set (md_tables md). 0x2F \<notin> set n \<and> 0 < tb_partition_num t \<and>
        fst ` set (tb_partitions_by_id t) = {0..<tb_partition_num t}) \<and>
     (\<forall>t p. (tb_name t, t) \<in> set (md_tables md) \<and> (pt_name p, Some p) \<in> set (tb_partitions_by_name t) \<longrightarrow>
        0 \<in> fst ` set (pt_replicas_by_id p)) \<and>
     (\<forall>t p r. replica_of md t p r \<longrightarrow> rp_dim r = tb_dim t \<and> (\<exists>d. rp_path r = d @ 0x2F # rp_name r))"

definition uids_distinct :: "'db Metadata \<Rightarrow> bool" where
  "uids_distinct md \<longleftrightarrow> (\<forall>t p r t' p' r'. replica_of md t p r \<and> replica_of md t' p' r' \<and> rp_uid r = rp_uid r' \<longrightarrow> r = r')"

text \<open>Every replica has its engine, and there are no other engines.\<close>

definition engines_ok :: "'db leveldb \<Rightarrow> ('db, 'ann) VdbEngine \<Rightarrow> bool" where
  "engines_ok L vd \<longleftrightarrow> tables_ok (vd_meta vd) \<and> uids_distinct (vd_meta vd) \<and>
     (\<forall>t p r. replica_of (vd_meta vd) t p r \<longrightarrow>
        (\<exists>ve. map_of (vd_engines vd) (rp_uid r) = Some ve \<and> engine_ok L ve \<and> VEngine_Dim ve = tb_dim t \<and>
           ve_path ve = rp_path r)) \<and>
     (\<forall>u \<in> fst ` set (vd_engines vd). \<exists>t p r. replica_of (vd_meta vd) t p r \<and> rp_uid r = u) \<and>
     distinct (map fst (vd_engines vd))"

lemma engine_owner:
  assumes "engines_ok L vd" "u \<in> fst ` set (vd_engines vd)"
  obtains t p r where "replica_of (vd_meta vd) t p r" "rp_uid r = u"
proof -
  have "\<forall>u \<in> fst ` set (vd_engines vd). \<exists>t p r. replica_of (vd_meta vd) t p r \<and> rp_uid r = u"
    using assms(1) unfolding engines_ok_def by (elim conjE)
  then show ?thesis using that assms(2) by metis
qed

text \<open>A database in order: what is on disk is what is open, and the engines have no indices.\<close>

definition vdb_sound :: "'db leveldb \<Rightarrow> ('db, 'ann) VdbEngine \<Rightarrow> bool" where
  "vdb_sound L vd \<longleftrightarrow> engines_ok L vd \<and> vd_disk vd = [] \<and> mkdir_p 256 (vd_path vd) \<and> on_disk_ok L (vd_meta vd) \<and>
     (\<forall>u ve. map_of (vd_engines vd) u = Some ve \<longrightarrow> ve_index_dirs ve = [] \<and> ve_index_manager ve = [])"

text \<open>While no process but the first has used the database, the uids in use are below the counter.\<close>

definition vdb_ok :: "'db leveldb \<Rightarrow> ('db, 'ann) VdbEngine \<Rightarrow> bool" where
  "vdb_ok L vd \<longleftrightarrow> vdb_sound L vd \<and>
     (\<forall>t p r. replica_of (vd_meta vd) t p r \<longrightarrow> uint (rp_uid r) < uint (ui_replica (md_uids (vd_meta vd)))) \<and>
     uint (ui_replica (md_uids (vd_meta vd))) \<le> 2 ^ 40 * int (length (md_tables (vd_meta vd)))"

text \<open>The tables a state stands for.\<close>

definition vdb_map :: "'db leveldb \<Rightarrow> ('db, 'ann) VdbEngine \<Rightarrow> bytes \<Rightarrow> bytes \<rightharpoonup> VecValue" where
  "vdb_map L vd table key =
     (case VdbEngine_GetVEngine table key vd of
        Some (Some u) \<Rightarrow> (case map_of (vd_engines vd) u of Some ve \<Rightarrow> contents L ve key | None \<Rightarrow> None)
      | _ \<Rightarrow> None)"

definition table_dim :: "('db, 'ann) VdbEngine \<Rightarrow> bytes \<rightharpoonup> int" where
  "table_dim vd table = map_option tb_dim (Metadata_GetTable table (vd_meta vd))"

section \<open>Routing\<close>

lemma table_row:
  assumes "tables_ok md" "Metadata_GetTable n md = Some t"
  shows "(n, t) \<in> set (md_tables md)" "tb_name t = n" "table_wf t" "0 < tb_partition_num t" "tb_partition_num t < 2 ^ 20"
proof -
  show row: "(n, t) \<in> set (md_tables md)" using assms(2) by (auto simp: Metadata_GetTable_def dest: map_of_SomeD)
  then show "tb_name t = n" "table_wf t" "0 < tb_partition_num t"
    using assms(1) by (auto simp: tables_ok_def meta_wf_def)
  then show "tb_partition_num t < 2 ^ 20" by (simp add: table_wf_def Table_ok_def children_ok_def)
qed

lemma route:
  assumes "tables_ok md" "Metadata_GetTable n md = Some t"
  obtains i p r where "PartitionId key (tb_partition_num t) = Some i" "replica_of md t p r" "pt_id p = i" "rp_id r = 0"
    "Metadata_GetReplica (ReplicaName3 n i 0) md = Some (Some r)"
proof -
  note t = table_row [OF assms]
  have wf: "meta_wf md" using assms(1) by (simp add: tables_ok_def)
  obtain i where i: "PartitionId key (tb_partition_num t) = Some i" "0 \<le> i" "i < tb_partition_num t"
    by (rule PartitionId_bounds [of "tb_partition_num t" key]) (use t in auto)
  have "i \<in> fst ` set (tb_partitions_by_id t)" using assms(1) t(1) i by (auto simp: tables_ok_def)
  then obtain p where p: "(pt_name p, Some p) \<in> set (tb_partitions_by_name t)" "pt_id p = i"
    "\<forall>j \<in> fst ` set (pt_replicas_by_id p). \<exists>r. (rp_name r, Some r) \<in> set (pt_replicas_by_name p) \<and>
       rp_id r = j \<and> Metadata_GetReplica (ReplicaName3 n i j) md = Some (Some r)"
    by (rule GetReplica_wf [OF wf assms(2) [unfolded Metadata_GetTable_def]])
  have "0 \<in> fst ` set (pt_replicas_by_id p)" using assms(1) t(1,2) p(1) by (auto simp: tables_ok_def)
  with p(3) obtain r where r: "(rp_name r, Some r) \<in> set (pt_replicas_by_name p)" "rp_id r = 0"
    "Metadata_GetReplica (ReplicaName3 n i 0) md = Some (Some r)" by blast
  have "replica_of md t p r" using t(1,2) p(1) r(1) by (simp add: replica_of_def in_table_def)
  then show ?thesis using that i(1) p(2) r by blast
qed

lemma GetVEngine_route:
  assumes "engines_ok L vd" "Metadata_GetTable n (vd_meta vd) = Some t"
  obtains p r ve where "VdbEngine_GetVEngine n key vd = Some (Some (rp_uid r))" "replica_of (vd_meta vd) t p r"
    "map_of (vd_engines vd) (rp_uid r) = Some ve" "engine_ok L ve" "VEngine_Dim ve = tb_dim t"
    "vdb_map L vd n key = contents L ve key"
proof -
  have ok: "tables_ok (vd_meta vd)" using assms(1) by (simp add: engines_ok_def)
  obtain i p r where r: "PartitionId key (tb_partition_num t) = Some i" "replica_of (vd_meta vd) t p r"
    "Metadata_GetReplica (ReplicaName3 n i 0) (vd_meta vd) = Some (Some r)" by (rule route [OF ok assms(2)])
  obtain ve where ve: "map_of (vd_engines vd) (rp_uid r) = Some ve" "engine_ok L ve" "VEngine_Dim ve = tb_dim t"
    using assms(1) r(2) unfolding engines_ok_def by blast
  have "VdbEngine_GetVEngine n key vd = Some (Some (rp_uid r))"
    using assms(2) r(1,3) ve(1) by (simp add: VdbEngine_GetVEngine_def)
  with that r(2) ve show ?thesis by (simp add: vdb_map_def)
qed

text \<open>Two tables never share an engine.\<close>

lemma replica_table:
  assumes "tables_ok md" "uids_distinct md" "replica_of md t p r" "replica_of md t' p' r'" "rp_uid r = rp_uid r'"
  shows "t = t'"
proof -
  have r: "r = r'" using assms(2-5) unfolding uids_distinct_def by blast
  have wf: "table_wf t" "table_wf t'" "distinct (map fst (md_tables md))"
    using assms(1,3,4) by (auto simp: tables_ok_def meta_wf_def replica_of_def)
  have "tb_name t = tb_name t'"
    using replica_name_determines(1) [OF wf(1) _ wf(2), of p r p' r'] assms(3,4) r by (simp add: replica_of_def)
  with assms(3,4) wf(3) show ?thesis by (metis eq_key_imp_eq_value replica_of_def)
qed

lemma GetVEngine_table:
  assumes "engines_ok L vd" "VdbEngine_GetVEngine n key vd = Some (Some u)" "VdbEngine_GetVEngine m key' vd = Some (Some u)"
  shows "n = m"
proof -
  have ok: "tables_ok (vd_meta vd)" "uids_distinct (vd_meta vd)" using assms(1) by (simp_all add: engines_ok_def)
  have own: "\<exists>t p r. Metadata_GetTable n (vd_meta vd) = Some t \<and> replica_of (vd_meta vd) t p r \<and> rp_uid r = u"
    if found: "VdbEngine_GetVEngine n key vd = Some (Some u)" for n key
  proof -
    obtain t where t: "Metadata_GetTable n (vd_meta vd) = Some t"
      using found by (cases "Metadata_GetTable n (vd_meta vd)") (auto simp: VdbEngine_GetVEngine_def)
    obtain p r where "VdbEngine_GetVEngine n key vd = Some (Some (rp_uid r))" "replica_of (vd_meta vd) t p r"
      by (rule GetVEngine_route [OF assms(1) t])
    with t found show ?thesis by auto
  qed
  obtain t p r t' p' r' where "Metadata_GetTable n (vd_meta vd) = Some t" "Metadata_GetTable m (vd_meta vd) = Some t'"
    "replica_of (vd_meta vd) t p r" "replica_of (vd_meta vd) t' p' r'" "rp_uid r = rp_uid r'"
    using own [OF assms(2)] own [OF assms(3)] by metis
  moreover from this have "t = t'" by (intro replica_table [OF ok])
  ultimately show ?thesis using table_row(2) [OF ok(1)] by metis
qed

section \<open>Changing an engine\<close>

text \<open>Putting another engine in the place of one leaves the catalogue and the routes alone.\<close>

lemma update_engine_ok:
  assumes "engines_ok L vd" "map_of (vd_engines vd) u = Some ve" "engine_ok L ve'" "VEngine_Dim ve' = VEngine_Dim ve"
    and "ve_path ve' = ve_path ve"
  shows "engines_ok L (vd\<lparr>vd_engines := AList.update u ve' (vd_engines vd)\<rparr>)"
proof -
  let ?vd = "vd\<lparr>vd_engines := AList.update u ve' (vd_engines vd)\<rparr>"
  have eng: "map_of (vd_engines ?vd) = (map_of (vd_engines vd))(u \<mapsto> ve')" by (simp add: update_conv')
  have keys: "fst ` set (vd_engines ?vd) = fst ` set (vd_engines vd)"
    using assms(2) by (force simp: dom_update dest: map_of_SomeD)
  have "\<exists>e. map_of (vd_engines ?vd) (rp_uid r) = Some e \<and> engine_ok L e \<and> VEngine_Dim e = tb_dim t \<and> ve_path e = rp_path r"
    if r: "replica_of (vd_meta vd) t p r" for t p r
  proof (cases "rp_uid r = u")
    case True
    then have "VEngine_Dim ve = tb_dim t" "ve_path ve = rp_path r"
      using assms(1,2) r unfolding engines_ok_def by (metis option.inject)+
    with True eng assms(3-5) show ?thesis by simp
  next
    case False
    then have same: "map_of (vd_engines ?vd) (rp_uid r) = map_of (vd_engines vd) (rp_uid r)" using eng by simp
    show ?thesis unfolding same using assms(1) r unfolding engines_ok_def by blast
  qed
  moreover have "distinct (map fst (vd_engines ?vd))" using assms(1) by (simp add: engines_ok_def distinct_update)
  ultimately show ?thesis using assms(1) keys unfolding engines_ok_def by simp
qed

lemma update_engine_route:
  assumes "map_of (vd_engines vd) u = Some ve"
  shows "VdbEngine_GetVEngine n key (vd\<lparr>vd_engines := AList.update u ve' (vd_engines vd)\<rparr>) = VdbEngine_GetVEngine n key vd"
  using assms by (auto simp: VdbEngine_GetVEngine_def update_conv' split: option.split intro!: bind_option_cong)

lemma update_engine_map:
  assumes "engines_ok L vd" "VdbEngine_GetVEngine n key vd = Some (Some u)" "map_of (vd_engines vd) u = Some ve"
    and "contents L ve' = (contents L ve)(key := x)"
  shows "vdb_map L (vd\<lparr>vd_engines := AList.update u ve' (vd_engines vd)\<rparr>) = (vdb_map L vd)(n := (vdb_map L vd n)(key := x))"
proof (intro ext)
  fix m k
  let ?vd = "vd\<lparr>vd_engines := AList.update u ve' (vd_engines vd)\<rparr>"
  note route = update_engine_route [OF assms(3), of _ _ ve']
  show "vdb_map L ?vd m k = ((vdb_map L vd)(n := (vdb_map L vd n)(key := x))) m k"
  proof (cases "VdbEngine_GetVEngine m k vd = Some (Some u)")
    case True
    then have "m = n" using GetVEngine_table [OF assms(1) True assms(2)] by simp
    with True assms(3,4) route show ?thesis by (simp add: vdb_map_def update_conv')
  next
    case False
    then have "m \<noteq> n \<or> k \<noteq> key" using assms(2) by auto
    with False route show ?thesis
      by (auto simp: vdb_map_def update_conv' split: option.split)
  qed
qed

section \<open>Names and paths\<close>

lemma last_component:
  assumes "a @ c # x = b @ c # y" "c \<notin> set x" "c \<notin> set y"
  shows "x = y"
proof -
  have last: "takeWhile (\<lambda>z. z \<noteq> c) (rev (a @ c # x)) = rev x" if "c \<notin> set x" for a x
  proof -
    have "takeWhile (\<lambda>z. z \<noteq> c) (rev x @ c # rev a) = rev x"
      using that by (subst takeWhile_append2) auto
    then show ?thesis by simp
  qed
  have "rev x = rev y" using last [OF assms(2), of a] last [OF assms(3), of b] unfolding assms(1) by (rule trans [OF sym])
  then show ?thesis by simp
qed

lemma shell_chars: "shell_char 0x23" "shell_char 0x2F" "is_digit c \<Longrightarrow> shell_char c"
  by (simp_all add: shell_char_def lit_def)

lemma dec_int_plain:
  assumes "0 \<le> i"
  shows "list_all shell_char (dec_int i)" "0x2F \<notin> set (dec_int i)"
proof -
  have d: "is_digit c" if "c \<in> set (dec_int i)" for c
    using that assms digit_chars [of c "nat i"] by (simp add: dec_int_def)
  then show "list_all shell_char (dec_int i)" by (simp add: list_all_iff shell_chars(3))
  have "\<not> is_digit 0x2F" by (simp add: is_digit_def)
  then show "0x2F \<notin> set (dec_int i)" using d by blast
qed

lemma replica_name_plain:
  assumes "table_wf t" "in_table t p r" "0x2F \<notin> set (tb_name t)"
  shows "0x2F \<notin> set (rp_name r)"
    "list_all shell_char (tb_name t) \<Longrightarrow> list_all shell_char (pt_name p) \<and> list_all shell_char (rp_name r)"
proof -
  note w = table_wfD [OF assms(1,2)]
  have names: "rp_name r = tb_name t @ 0x23 # dec_int (pt_id p) @ 0x23 # dec_int (rp_id r)"
    "pt_name p = tb_name t @ 0x23 # dec_int (pt_id p)"
    using w(2,4) ReplicaName_eq [OF w(1,5,6)] PartitionName_eq [OF w(1,5)]
    by (simp_all add: ReplicaName3_def partition_wf_def)
  show "0x2F \<notin> set (rp_name r)" using assms(3) w(5,6) by (simp add: names dec_int_plain)
  show "list_all shell_char (tb_name t) \<Longrightarrow> list_all shell_char (pt_name p) \<and> list_all shell_char (rp_name r)"
    using w(5,6) by (simp add: names dec_int_plain shell_chars)
qed

text \<open>A replica is determined by its name, and by its path.\<close>

lemma replica_by_name:
  assumes "meta_wf md" "replica_of md t p r" "replica_of md t' p' r'" "rp_name r = rp_name r'"
  shows "r = r' \<and> t = t'"
proof -
  have wf: "table_wf t" "table_wf t'" "distinct (map fst (md_tables md))" "in_table t p r" "in_table t' p' r'"
    using assms(1-3) by (auto simp: meta_wf_def replica_of_def)
  note same = replica_name_determines [OF wf(1,4) wf(2,5) assms(4)]
  have t: "t = t'" using same(1) assms(2,3) wf(3) by (metis eq_key_imp_eq_value replica_of_def)
  have "partition_wf (tb_name t) p" "partition_wf (tb_name t) p'"
    using table_wfD(2) [OF wf(1,4)] table_wfD(2) [OF wf(2,5)] t by simp_all
  then have "pt_name p = pt_name p'" using same(2) by (simp add: partition_wf_def)
  moreover have "linked pt_id pt_name (tb_partitions_by_id t) (tb_partitions_by_name t)" using wf(1) by (simp add: table_wf_def)
  moreover have "(pt_name p, Some p) \<in> set (tb_partitions_by_name t)" "(pt_name p', Some p') \<in> set (tb_partitions_by_name t)"
    using wf(4,5) t by (simp_all add: in_table_def)
  ultimately have p: "p = p'" using linked_unique by metis
  have "linked rp_id rp_name (pt_replicas_by_id p) (pt_replicas_by_name p)"
    using \<open>partition_wf (tb_name t) p\<close> by (simp add: partition_wf_def)
  moreover have "(rp_name r, Some r) \<in> set (pt_replicas_by_name p)" "(rp_name r', Some r') \<in> set (pt_replicas_by_name p)"
    using wf(4,5) p by (simp_all add: in_table_def)
  ultimately have "r = r'" using assms(4) linked_unique by metis
  with t show ?thesis by simp
qed

lemma replica_by_path:
  assumes "tables_ok md" "replica_of md t p r" "replica_of md t' p' r'" "rp_path r = rp_path r'"
  shows "r = r' \<and> t = t'"
proof -
  have wf: "meta_wf md" "table_wf t" "table_wf t'" "in_table t p r" "in_table t' p' r'"
    "0x2F \<notin> set (tb_name t)" "0x2F \<notin> set (tb_name t')"
    using assms(1-3) by (auto simp: tables_ok_def meta_wf_def replica_of_def)
  have path: "\<exists>d. rp_path r = d @ 0x2F # rp_name r" if "replica_of md t p r" for t p r
    using assms(1) that unfolding tables_ok_def by blast
  obtain d where d: "rp_path r = d @ 0x2F # rp_name r" using path [OF assms(2)] by blast
  obtain d' where d': "rp_path r' = d' @ 0x2F # rp_name r'" using path [OF assms(3)] by blast
  have "d @ 0x2F # rp_name r = d' @ 0x2F # rp_name r'" using assms(4) unfolding d d' .
  then have "rp_name r = rp_name r'"
    by (rule last_component [OF _ replica_name_plain(1) [OF wf(2,4,6)] replica_name_plain(1) [OF wf(3,5,7)]])
  then show ?thesis by (rule replica_by_name [OF wf(1) assms(2,3)])
qed

end
