(* ===== verification/VdbTables.thy ===== *)
theory VdbTables
  imports VdbStore
begin

text \<open>
  The operations of the database on states in order: what adding a table, storing, reading and deleting
  do, that sequences of them refine tables of maps, and what a restart followed by a new table breaks.
\<close>

section \<open>Adding a table to the catalogue\<close>

definition table_param :: "bytes \<Rightarrow> AddTableParam \<Rightarrow> TableParam" where
  "table_param path p = \<lparr>tp_name = at_name p, tp_path = path @ lit ''/data'', tp_partition_num = at_partition_num p,
     tp_replica_num = at_replica_num p, tp_dim = at_dim p\<rparr>"

definition AddTableParam_ok :: "bytes \<Rightarrow> AddTableParam \<Rightarrow> bool" where
  "AddTableParam_ok path p \<longleftrightarrow> TableParam_ok (table_param path p) \<and> 0 < at_partition_num p \<and> 0 < at_replica_num p \<and>
     0x2F \<notin> set (at_name p) \<and> list_all shell_char (at_name p)"

text \<open>A table that has just been created, and its replicas.\<close>

definition new_table :: "bytes \<Rightarrow> AddTableParam \<Rightarrow> uids \<Rightarrow> Table \<Rightarrow> uids \<Rightarrow> bool" where
  "new_table path p u t u' \<longleftrightarrow> AddTableParam_ok path p \<and> CreateTable (table_param path p) u = (t, u')"

lemma new_table_param:
  assumes "new_table path p u t u'"
  shows "TableParam_ok (table_param path p)" "0 < at_partition_num p" "0 < at_replica_num p"
    "at_partition_num p < 2 ^ 20" "at_replica_num p < 2 ^ 20"
  using assms by (auto simp: new_table_def AddTableParam_ok_def TableParam_ok_def table_param_def)

lemma new_table_fields:
  assumes "new_table path p u t u'"
  shows "table_wf t" "tb_name t = at_name p" "tb_partition_num t = at_partition_num p" "tb_dim t = at_dim p"
    "fst ` set (tb_partitions_by_id t) = {0..<at_partition_num p}"
proof -
  have c: "CreateTable (table_param path p) u = (t, u')" using assms by (simp add: new_table_def)
  show "table_wf t" "tb_name t = at_name p" "tb_partition_num t = at_partition_num p" "tb_dim t = at_dim p"
    "fst ` set (tb_partitions_by_id t) = {0..<at_partition_num p}"
    using CreateTable_made(1-3,5,9) [OF new_table_param(1) [OF assms] c] by (simp_all add: table_param_def)
qed

lemma new_table_partition:
  assumes "new_table path p u t u'" "(pt_name q, Some q) \<in> set (tb_partitions_by_name t)"
  shows "fst ` set (pt_replicas_by_id q) = {0..<at_replica_num p}"
proof -
  have "CreateTable (table_param path p) u = (t, u')" using assms(1) by (simp add: new_table_def)
  from CreateTable_made(10) [OF new_table_param(1) [OF assms(1)] this assms(2)]
  show ?thesis by (simp add: table_param_def)
qed

lemma new_table_replica:
  assumes "new_table path p u t u'" "in_table t q r"
  shows "pt_id q \<in> {0..<at_partition_num p}" "rp_id r \<in> {0..<at_replica_num p}"
    "rp_uid r = ui_replica u + of_int (pt_id q * at_replica_num p + rp_id r)"
    "rp_dim r = at_dim p" "rp_path r = (path @ lit ''/data/'' @ at_name p @ lit ''/'' @ pt_name q) @ 0x2F # rp_name r"
proof -
  note t = new_table_fields [OF assms(1)]
  have c: "CreateTable (table_param path p) u = (t, u')" using assms(1) by (simp add: new_table_def)
  have q: "(pt_name q, Some q) \<in> set (tb_partitions_by_name t)" and r: "(rp_name r, Some r) \<in> set (pt_replicas_by_name q)"
    using assms(2) by (simp_all add: in_table_def)
  have f: "rp_uid r = ui_replica u + of_int (pt_id q * at_replica_num p + rp_id r)"
    "placed (at_dim p) ((path @ lit ''/data'') @ lit ''/'' @ at_name p) (pt_name q) r"
    using CreateTable_made(10) [OF new_table_param(1) [OF assms(1)] c q, of r] r by (simp_all add: table_param_def)
  have link: "linked pt_id pt_name (tb_partitions_by_id t) (tb_partitions_by_name t)" using t(1) by (simp add: table_wf_def)
  have plink: "linked rp_id rp_name (pt_replicas_by_id q) (pt_replicas_by_name q)"
    using table_wfD(2) [OF t(1) assms(2)] by (simp add: partition_wf_def)
  show "pt_id q \<in> {0..<at_partition_num p}" using linked_children(2) [OF link] q t(5) by force
  show "rp_id r \<in> {0..<at_replica_num p}"
    using linked_children(2) [OF plink] r new_table_partition [OF assms(1) q] by force
  show "rp_uid r = ui_replica u + of_int (pt_id q * at_replica_num p + rp_id r)" by (rule f(1))
  show "rp_dim r = at_dim p" "rp_path r = (path @ lit ''/data/'' @ at_name p @ lit ''/'' @ pt_name q) @ 0x2F # rp_name r"
    using f(2) by (simp_all add: placed_def lit_def)
qed

lemma replica_index:
  assumes "new_table path p u t u'" "in_table t q r"
  shows "0 \<le> pt_id q * at_replica_num p + rp_id r" "pt_id q * at_replica_num p + rp_id r < at_partition_num p * at_replica_num p"
proof -
  have i: "0 \<le> pt_id q" "pt_id q \<le> at_partition_num p - 1" "0 \<le> rp_id r" "rp_id r < at_replica_num p"
    using new_table_replica(1,2) [OF assms] by auto
  show "0 \<le> pt_id q * at_replica_num p + rp_id r" using i by simp
  have "pt_id q * at_replica_num p \<le> (at_partition_num p - 1) * at_replica_num p"
    using i by (intro mult_right_mono) simp_all
  then show "pt_id q * at_replica_num p + rp_id r < at_partition_num p * at_replica_num p"
    using i(4) by (simp add: left_diff_distrib)
qed

lemma new_table_size:
  assumes "new_table path p u t u'"
  shows "at_partition_num p * at_replica_num p < 2 ^ 40" "0 < at_partition_num p * at_replica_num p"
proof -
  note b = new_table_param(2-5) [OF assms]
  have "at_partition_num p * at_replica_num p \<le> (2 ^ 20 - 1) * (2 ^ 20 - 1)"
    using b by (intro mult_mono) simp_all
  then show "at_partition_num p * at_replica_num p < 2 ^ 40" by simp
  show "0 < at_partition_num p * at_replica_num p" using b by simp
qed

lemma uid_value:
  assumes "new_table path p u t u'" "uint (ui_replica u) + 2 ^ 40 < 2 ^ 64"
  shows "in_table t q r \<Longrightarrow> uint (rp_uid r) = uint (ui_replica u) + (pt_id q * at_replica_num p + rp_id r)"
    "uint (ui_replica u') = uint (ui_replica u) + at_partition_num p * at_replica_num p"
proof -
  note b = new_table_size [OF assms(1)]
  have add: "uint (ui_replica u + of_int k) = uint (ui_replica u) + k" if "0 \<le> k" "k < 2 ^ 40" for k
  proof -
    have "uint (of_int k :: u64) = k" using that by (simp add: unsigned_of_int take_bit_int_eq_self)
    then show ?thesis using that assms(2) by (simp add: uint_word_ariths mod_pos_pos_trivial)
  qed
  show "uint (rp_uid r) = uint (ui_replica u) + (pt_id q * at_replica_num p + rp_id r)" if "in_table t q r"
    unfolding new_table_replica(3) [OF assms(1) that] using replica_index [OF assms(1) that] b(1) by (intro add) auto
  have c: "CreateTable (table_param path p) u = (t, u')" using assms(1) by (simp add: new_table_def)
  have "ui_replica u' = ui_replica u + of_int (at_partition_num p * at_replica_num p)"
    using CreateTable_made(8) [OF new_table_param(1) [OF assms(1)] c] by (simp add: table_param_def)
  moreover have "uint (ui_replica u + of_int (at_partition_num p * at_replica_num p)) =
      uint (ui_replica u) + at_partition_num p * at_replica_num p" using b by (intro add) auto
  ultimately show "uint (ui_replica u') = uint (ui_replica u) + at_partition_num p * at_replica_num p" by (simp only:)
qed

lemma index_determines:
  assumes "new_table path p u t u'" "in_table t q r" "in_table t q' r'"
    and "pt_id q * at_replica_num p + rp_id r = pt_id q' * at_replica_num p + rp_id r'"
  shows "rp_name r = rp_name r'"
proof -
  have i: "rp_id r = (pt_id q * at_replica_num p + rp_id r) mod at_replica_num p"
    "pt_id q = (pt_id q * at_replica_num p + rp_id r) div at_replica_num p" if "in_table t q r" for q r
    using new_table_replica(2) [OF assms(1) that] by (simp_all add: mod_pos_pos_trivial div_pos_pos_trivial)
  have "pt_id q = pt_id q'" "rp_id r = rp_id r'"
    using i(2) [OF assms(2)] i(2) [OF assms(3)] i(1) [OF assms(2)] i(1) [OF assms(3)] unfolding assms(4) by metis+
  then show ?thesis
    using table_wfD(4) [OF new_table_fields(1) [OF assms(1)] assms(2)]
      table_wfD(4) [OF new_table_fields(1) [OF assms(1)] assms(3)] by simp
qed

text \<open>The directory of a new replica can be made.\<close>

lemma new_table_mkdir:
  assumes "new_table path p u t u'" "in_table t q r" "mkdir_p 256 path"
  shows "mkdir_p 256 (rp_path r)"
proof -
  note t = new_table_fields [OF assms(1)] and path = new_table_replica(5) [OF assms(1,2)]
  have name: "0x2F \<notin> set (at_name p)" "list_all shell_char (at_name p)"
    using assms(1) by (simp_all add: new_table_def AddTableParam_ok_def)
  have "short (rp_path r)" using table_wfD(3) [OF t(1) assms(2)] by (simp add: replica_wf_def Replica_ok_def)
  moreover have "list_all shell_char (rp_path r)"
    using replica_name_plain(2) [OF t(1) assms(2)] name assms(3) t(2)
    unfolding path by (simp add: mkdir_p_def shell_chars lit_def) (simp add: shell_char_def lit_def)
  moreover have "path \<noteq> []" using assms(3) by (simp add: mkdir_p_def)
  moreover from this have "hd (rp_path r) = hd path" "rp_path r \<noteq> []" unfolding path by simp_all
  ultimately show ?thesis using assms(3) by (simp add: mkdir_p_def)
qed

section \<open>The catalogue with the new table\<close>

lemma replica_of_add:
  assumes "new_table path p u0 t u" "md_tables md' = md_tables md @ [(at_name p, t)]"
  shows "replica_of md' t' q r \<longleftrightarrow> replica_of md t' q r \<or> t' = t \<and> in_table t q r"
  using assms(2) new_table_fields(2) [OF assms(1)] by (auto simp: replica_of_def)

lemma tables_ok_add:
  assumes "tables_ok md" "new_table path p u0 t u" "md_tables md' = md_tables md @ [(at_name p, t)]" "meta_wf md'"
  shows "tables_ok md'"
proof -
  note t = new_table_fields [OF assms(2)] and new = replica_of_add [OF assms(2,3)]
  have "0x2F \<notin> set (at_name p)" using assms(2) by (simp add: new_table_def AddTableParam_ok_def)
  moreover have "0 \<in> fst ` set (pt_replicas_by_id q)" if "(pt_name q, Some q) \<in> set (tb_partitions_by_name t)" for q
    using new_table_partition [OF assms(2) that] new_table_param(3) [OF assms(2)] by simp
  moreover have "rp_dim r = tb_dim t \<and> (\<exists>d. rp_path r = d @ 0x2F # rp_name r)" if "in_table t q r" for q r
    using new_table_replica(4,5) [OF assms(2) that] t(4) by metis
  ultimately show ?thesis
    using assms(1,3,4) t new_table_param(2) [OF assms(2)] unfolding tables_ok_def new by auto
qed

lemma uids_distinct_add:
  assumes "tables_ok md'" "uids_distinct md" "new_table path p (md_uids md) t u"
    and "md_tables md' = md_tables md @ [(at_name p, t)]"
    and "\<And>t p r. replica_of md t p r \<Longrightarrow> uint (rp_uid r) < uint (ui_replica (md_uids md))"
    and "uint (ui_replica (md_uids md)) + 2 ^ 40 < 2 ^ 64"
  shows "uids_distinct md'"
proof -
  note new = replica_of_add [OF assms(3,4)] and uid = uid_value(1) [OF assms(3,6)]
  have old_new: "rp_uid r \<noteq> rp_uid r'" if "replica_of md t1 q r" "in_table t q' r'" for t1 q r q' r'
  proof -
    have "uint (rp_uid r) < uint (rp_uid r')"
      using assms(5) [OF that(1)] uid [OF that(2)] replica_index(1) [OF assms(3) that(2)] by linarith
    then show ?thesis by auto
  qed
  have new_new: "r = r'" if "in_table t q r" "in_table t q' r'" "rp_uid r = rp_uid r'" for q r q' r'
  proof -
    have "uint (ui_replica (md_uids md)) + (pt_id q * at_replica_num p + rp_id r) =
        uint (ui_replica (md_uids md)) + (pt_id q' * at_replica_num p + rp_id r')"
      using uid [OF that(1)] uid [OF that(2)] that(3) by metis
    then have "rp_name r = rp_name r'" by (intro index_determines [OF assms(3) that(1,2)]) simp
    moreover have "replica_of md' t q r" "replica_of md' t q' r'" using that(1,2) new by simp_all
    moreover have "meta_wf md'" using assms(1) by (simp add: tables_ok_def)
    ultimately show ?thesis using replica_by_name by blast
  qed
  show ?thesis
    unfolding uids_distinct_def
  proof (intro allI impI, elim conjE)
    fix t1 p1 r1 t2 p2 r2
    assume r: "replica_of md' t1 p1 r1" "replica_of md' t2 p2 r2" "rp_uid r1 = rp_uid r2"
    consider "replica_of md t1 p1 r1" "replica_of md t2 p2 r2" | "replica_of md t1 p1 r1" "in_table t p2 r2"
      | "in_table t p1 r1" "replica_of md t2 p2 r2" | "in_table t p1 r1" "in_table t p2 r2"
      using r(1,2) new by blast
    then show "r1 = r2"
    proof cases
      case 1
      then show ?thesis using assms(2) r(3) unfolding uids_distinct_def by blast
    next
      case 2
      then show ?thesis using old_new r(3) by blast
    next
      case 3
      then show ?thesis using old_new r(3) by metis
    next
      case 4
      then show ?thesis using new_new r(3) by blast
    qed
  qed
qed

section \<open>Adding a table\<close>

text \<open>The engines of new replicas, each fresh in its own directory.\<close>

lemma new_engines:
  assumes "leveldb_store L" "new_table path p u t u'" "mkdir_p 256 path" "in_table t q r"
    and "map_of (disk :: (bytes \<times> ('db, 'ann) engine_dir) list) (rp_path r) = None"
  obtains ve where "opens L disk r ve" "engine_ok L ve" "VEngine_Dim ve = tb_dim t" "contents L ve = Map.empty"
proof -
  have "int32 (rp_dim r)"
    using table_wfD(3) [OF new_table_fields(1) [OF assms(2)] assms(4)] by (simp add: replica_wf_def Replica_ok_def)
  then obtain ve :: "('db, 'ann) VEngine" where "VEngine_new L (rp_path r) (rp_dim r) None = Some ve"
    "engine_ok L ve" "VEngine_Dim ve = rp_dim r"
    "contents L ve = Map.empty" "ve_path ve = rp_path r" "ve_index_manager ve = []" "ve_index_dirs ve = []"
    by (rule leveldb_store.VEngine_new_fresh [OF assms(1) new_table_mkdir [OF assms(2,4,3)]])
  moreover have "rp_dim r = tb_dim t" using new_table_replica(4) [OF assms(2,4)] new_table_fields(4) [OF assms(2)] by simp
  ultimately show ?thesis using that assms(5) by (simp add: opens_def)
qed

lemma GetReplica_other_table:
  assumes "Metadata_GetTable m md' = Metadata_GetTable m md" "table_name_ok m" "small_id i" "small_id j"
  shows "Metadata_GetReplica (ReplicaName3 m i j) md' = Metadata_GetReplica (ReplicaName3 m i j) md"
  using assms(1) Parse_names [OF assms(2-4)]
  by (simp add: Metadata_GetReplica_def Metadata_GetPartition_def ReplicaName3_def)

text \<open>New replicas have paths that no replica had, and uids and paths of their own.\<close>

lemma new_replica_path:
  assumes "tables_ok md'" "new_table path p u0 t u" "md_tables md' = md_tables md @ [(at_name p, t)]"
    and "Metadata_GetTable (at_name p) md = None" "in_table t q r" "replica_of md t' q' r'"
  shows "rp_path r \<noteq> rp_path r'"
proof
  assume eq: "rp_path r = rp_path r'"
  have "replica_of md' t q r" "replica_of md' t' q' r'" using assms(5,6) replica_of_add [OF assms(2,3)] by blast+
  then have "t = t'" using replica_by_path [OF assms(1)] eq by blast
  then have "(at_name p, t) \<in> set (md_tables md)" using assms(6) new_table_fields(2) [OF assms(2)] by (simp add: replica_of_def)
  then show False using assms(4) by (force simp: Metadata_GetTable_def map_of_eq_None_iff)
qed

lemma new_replicas_inj:
  fixes md md' :: "'db Metadata"
  assumes "tables_ok md'" "new_table path p u0 t u" "md_tables md' = md_tables md @ [(at_name p, t)]"
    and "uint (ui_replica u0) + 2 ^ 40 < 2 ^ 64" "in_table t q r" "in_table t q' r'"
  shows "rp_path r = rp_path r' \<Longrightarrow> r = r'" "rp_uid r = rp_uid r' \<Longrightarrow> r = r'"
proof -
  have of: "replica_of md' t q r" "replica_of md' t q' r'" using assms(5,6) replica_of_add [OF assms(2,3)] by blast+
  show "r = r'" if "rp_path r = rp_path r'" using replica_by_path [OF assms(1) of that] by blast
  show "r = r'" if "rp_uid r = rp_uid r'"
  proof -
    have "pt_id q * at_replica_num p + rp_id r = pt_id q' * at_replica_num p + rp_id r'"
      using uid_value(1) [OF assms(2,4,5)] uid_value(1) [OF assms(2,4,6)] that by simp
    then have "rp_name r = rp_name r'" by (rule index_determines [OF assms(2,5,6)])
    then show ?thesis using replica_by_name [OF _ of] assms(1) by (simp add: tables_ok_def)
  qed
qed

text \<open>Adding a table to a database whose open engines are those of replicas: the catalogue has the new table,
  and the engines of its replicas take the places of their uids.\<close>

lemma AddTable_runs:
  assumes "leveldb_store L" "tables_ok (vd_meta vd)" "AddTableParam_ok (vd_path vd) p" "mkdir_p 256 (vd_path vd)"
    and "Suc (length (md_tables (vd_meta vd))) < 2 ^ 20" "Metadata_GetTable (at_name p) (vd_meta vd) = None"
    and "uint (ui_replica (md_uids (vd_meta vd))) + 2 ^ 40 < 2 ^ 64"
    and "\<And>path. path \<in> set (open_paths vd) \<union> fst ` set (vd_disk vd) \<Longrightarrow> \<exists>t q r. replica_of (vd_meta vd) t q r \<and> path = rp_path r"
  obtains t u rs E vd' where "new_table (vd_path vd) p (md_uids (vd_meta vd)) t u"
    "VdbEngine_AddTable A L p vd = Some (0, vd')" "vd_path vd' = vd_path vd"
    "md_tables (vd_meta vd') = md_tables (vd_meta vd) @ [(at_name p, t)]" "md_uids (vd_meta vd') = u"
    "on_disk_ok L (vd_meta vd')" "tables_ok (vd_meta vd')"
    "map_of (vd_engines vd') = map_of (vd_engines vd) ++ map_of (map (\<lambda>r. (rp_uid r, E r)) rs)"
    "set rs = {r. \<exists>q. in_table t q r}" "distinct (map rp_uid rs)"
    "\<forall>r \<in> set rs. engine_ok L (E r) \<and> VEngine_Dim (E r) = tb_dim t \<and> contents L (E r) = Map.empty \<and> ve_path (E r) = rp_path r \<and>
      ve_index_dirs (E r) = [] \<and> ve_index_manager (E r) = []"
    "rp_uid ` set rs \<inter> fst ` set (vd_engines vd) = {} \<Longrightarrow> vd_disk vd = [] \<Longrightarrow> vd_disk vd' = []"
    "distinct (map fst (vd_engines vd)) \<Longrightarrow> distinct (map fst (vd_engines vd'))"
proof -
  let ?md = "vd_meta vd" and ?tp = "table_param (vd_path vd) p"
  have tp: "TableParam_ok ?tp" "tp_name ?tp = at_name p" using assms(3) by (simp_all add: AddTableParam_ok_def table_param_def)
  have wf: "meta_wf ?md" using assms(2) by (simp add: tables_ok_def)
  have none: "Metadata_GetTable (tp_name ?tp) ?md = None" using assms(6) tp(2) by simp
  obtain t u md' where add: "CreateTable ?tp (md_uids ?md) = (t, u)" "Metadata_AddTable L ?tp ?md = Some (0, md')"
    "md_tables md' = md_tables ?md @ [(tp_name ?tp, t)]" "md_uids md' = u" "meta_wf md'" "on_disk_ok L md'"
    by (rule AddTable_ok [OF assms(1) wf tp(1) assms(5) none])
  have new: "new_table (vd_path vd) p (md_uids ?md) t u" using assms(3) add(1) by (simp add: new_table_def)
  have tabs: "md_tables md' = md_tables ?md @ [(at_name p, t)]" using add(3) tp(2) by simp
  have ok: "tables_ok md'" by (rule tables_ok_add [OF assms(2) new tabs add(5)])
  have get: "map_of (md_tables md') (at_name p) = Some t"
    using tabs assms(6) by (simp add: Metadata_GetTable_def map_add_def)
  obtain rs where rs: "ForEachReplicaInTable (at_name p) md' = Some rs" "set rs = {r. \<exists>q. in_table t q r}" "distinct rs"
    by (rule ForEachReplicaInTable_wf [OF add(5) get])
  have of: "\<exists>q. in_table t q r" if "r \<in> set rs" for r using that rs(2) by blast
  have fresh: "rp_path r \<notin> set (open_paths vd) \<union> fst ` set (vd_disk vd)" if "r \<in> set rs" for r
    using of [OF that] assms(8) new_replica_path [OF ok new tabs assms(6)] by metis
  have ex: "\<exists>ve. opens L (vd_disk vd) r ve \<and> engine_ok L ve \<and> VEngine_Dim ve = tb_dim t \<and> contents L ve = Map.empty" if r: "r \<in> set rs" for r
  proof -
    obtain q where "in_table t q r" using of [OF r] by blast
    moreover have "map_of (vd_disk vd) (rp_path r) = None" using fresh [OF r] by (simp add: map_of_eq_None_iff)
    ultimately show ?thesis using new_engines [OF assms(1) new assms(4)] by metis
  qed
  then obtain E where E: "\<And>r. r \<in> set rs \<Longrightarrow> opens L (vd_disk vd) r (E r) \<and> engine_ok L (E r) \<and> VEngine_Dim (E r) = tb_dim t \<and> contents L (E r) = Map.empty"
    by metis
  have inj: "inj_on rp_path (set rs)" "inj_on rp_uid (set rs)"
    using of new_replicas_inj [OF ok new tabs assms(7)] by (meson inj_onI)+
  let ?vd = "vd\<lparr>vd_meta := md'\<rparr>"
  have "\<forall>r \<in> set rs. opens L (vd_disk ?vd) r (E r)" "distinct (map rp_path rs)" "distinct (map rp_uid rs)"
    "rp_path ` set rs \<inter> set (open_paths ?vd) = {}"
    using E rs(3) inj fresh by (auto simp: distinct_map open_paths_def)
  from create_engines_opens [OF this, of A] obtain vd' where vd': "create_engines A L rs ?vd = Some vd'" "vd_meta vd' = md'"
    "vd_path vd' = vd_path vd" "map_of (vd_engines vd') = map_of (vd_engines vd) ++ map_of (map (\<lambda>r. (rp_uid r, E r)) rs)"
    "rp_uid ` set rs \<inter> fst ` set (vd_engines vd) = {} \<longrightarrow> vd_disk vd' = filter (\<lambda>x. fst x \<notin> rp_path ` set rs) (vd_disk vd)"
    "distinct (map fst (vd_engines vd)) \<longrightarrow> distinct (map fst (vd_engines vd'))"
    by auto
  have run: "VdbEngine_AddTable A L p vd = Some (0, vd')"
    using add(2) rs(1) vd'(1) by (simp add: VdbEngine_AddTable_def table_param_def)
  show ?thesis
  proof (rule that [OF new run vd'(3)])
    show "md_tables (vd_meta vd') = md_tables ?md @ [(at_name p, t)]" "md_uids (vd_meta vd') = u"
      "on_disk_ok L (vd_meta vd')" "tables_ok (vd_meta vd')"
      using vd'(2) tabs add(4,6) ok by simp_all
    show "map_of (vd_engines vd') = map_of (vd_engines vd) ++ map_of (map (\<lambda>r. (rp_uid r, E r)) rs)" by (rule vd'(4))
    show "set rs = {r. \<exists>q. in_table t q r}" by (rule rs(2))
    show "distinct (map rp_uid rs)" using rs(3) inj(2) by (simp add: distinct_map)
  qed (use E vd'(5,6) in \<open>auto simp: opens_def\<close>)
qed

lemma vdb_ok_paths:
  assumes "engines_ok L vd" "path \<in> set (open_paths vd)"
  shows "\<exists>t q r. replica_of (vd_meta vd) t q r \<and> path = rp_path r"
proof -
  obtain u ve where ve: "(u, ve) \<in> set (vd_engines vd)" "path = ve_path ve" using assms(2) by (auto simp: open_paths_def)
  then obtain t q r where r: "replica_of (vd_meta vd) t q r" "rp_uid r = u"
    using assms(1) unfolding engines_ok_def by force
  have "map_of (vd_engines vd) u = Some ve" using ve(1) assms(1) by (simp add: engines_ok_def)
  moreover obtain ve' where "map_of (vd_engines vd) (rp_uid r) = Some ve'" "ve_path ve' = rp_path r"
    using assms(1) r(1) unfolding engines_ok_def by blast
  ultimately show ?thesis using r ve(2) by auto
qed

text \<open>Engines added under new uids.\<close>

lemma added_engines:
  assumes "map_of es' = map_of es ++ map_of (map (\<lambda>r. (rp_uid r, E r)) rs)" "distinct (map rp_uid rs)"
  shows "r \<in> set rs \<Longrightarrow> map_of es' (rp_uid r) = Some (E r)"
    "w \<notin> rp_uid ` set rs \<Longrightarrow> map_of es' w = map_of es w"
    "fst ` set es' = fst ` set es \<union> rp_uid ` set rs"
proof -
  show "map_of es' (rp_uid r) = Some (E r)" if "r \<in> set rs"
  proof -
    have "map_of (map (\<lambda>r. (rp_uid r, E r)) rs) (rp_uid r) = Some (E r)"
      using that assms(2) by (intro map_of_is_SomeI) (auto simp: o_def)
    then show ?thesis by (simp add: assms(1))
  qed
  show "map_of es' w = map_of es w" if "w \<notin> rp_uid ` set rs"
  proof -
    have "map_of (map (\<lambda>r. (rp_uid r, E r)) rs) w = None" using that by (simp add: map_of_eq_None_iff image_image)
    then show ?thesis by (simp add: assms(1) map_add_def)
  qed
  show "fst ` set es' = fst ` set es \<union> rp_uid ` set rs"
    unfolding dom_map_of_conv_image_fst [symmetric] assms(1) by (auto simp: dom_map_of_conv_image_fst image_image)
qed

lemma engines_ok_add:
  assumes "engines_ok L vd" "tables_ok (vd_meta vd')" "uids_distinct (vd_meta vd')"
    and "\<And>t' q r. replica_of (vd_meta vd') t' q r \<longleftrightarrow> replica_of (vd_meta vd) t' q r \<or> t' = t \<and> in_table t q r"
    and "map_of (vd_engines vd') = map_of (vd_engines vd) ++ map_of (map (\<lambda>r. (rp_uid r, E r)) rs)"
    and "distinct (map rp_uid rs)" "set rs = {r. \<exists>q. in_table t q r}"
    and "\<forall>r \<in> set rs. engine_ok L (E r) \<and> VEngine_Dim (E r) = tb_dim t \<and> contents L (E r) = Map.empty \<and> ve_path (E r) = rp_path r \<and>
      ve_index_dirs (E r) = [] \<and> ve_index_manager (E r) = []"
    and "rp_uid ` set rs \<inter> fst ` set (vd_engines vd) = {}"
  shows "distinct (map fst (vd_engines vd')) \<Longrightarrow> engines_ok L vd'"
    "replica_of (vd_meta vd) t' q r \<Longrightarrow> map_of (vd_engines vd') (rp_uid r) = map_of (vd_engines vd) (rp_uid r)"
proof -
  note e = added_engines [OF assms(5,6)]
  have has: "\<exists>ve. map_of (vd_engines vd) (rp_uid r) = Some ve \<and> engine_ok L ve \<and> VEngine_Dim ve = tb_dim t' \<and> ve_path ve = rp_path r"
    if "replica_of (vd_meta vd) t' q r" for t' q r
    using assms(1) that unfolding engines_ok_def by blast
  show old: "map_of (vd_engines vd') (rp_uid r) = map_of (vd_engines vd) (rp_uid r)" if r: "replica_of (vd_meta vd) t' q r" for t' q r
  proof (rule e(2))
    have "rp_uid r \<in> fst ` set (vd_engines vd)" using has [OF r] by (metis domI dom_map_of_conv_image_fst)
    then show "rp_uid r \<notin> rp_uid ` set rs" using assms(9) by blast
  qed
  assume d: "distinct (map fst (vd_engines vd'))"
  have "\<exists>ve. map_of (vd_engines vd') (rp_uid r) = Some ve \<and> engine_ok L ve \<and> VEngine_Dim ve = tb_dim t' \<and> ve_path ve = rp_path r"
    if r: "replica_of (vd_meta vd') t' q r" for t' q r
  proof (cases "replica_of (vd_meta vd) t' q r")
    case True
    then show ?thesis unfolding old [OF True] by (rule has)
  next
    case False
    then have "t' = t" "r \<in> set rs" using r assms(4,7) by auto
    then show ?thesis using e(1) assms(8) by blast
  qed
  moreover have "\<exists>t' q r. replica_of (vd_meta vd') t' q r \<and> rp_uid r = w" if w: "w \<in> fst ` set (vd_engines vd')" for w
  proof (cases "w \<in> fst ` set (vd_engines vd)")
    case True
    then have "\<exists>t q r. replica_of (vd_meta vd) t q r \<and> rp_uid r = w" using assms(1) unfolding engines_ok_def by blast
    then show ?thesis using assms(4) by blast
  next
    case False
    then obtain r q where "in_table t q r" "rp_uid r = w" using w e(3) assms(7) by auto
    then show ?thesis using assms(4) by blast
  qed
  ultimately show "engines_ok L vd'" using assms(2,3) d unfolding engines_ok_def by blast
qed

text \<open>The routes of the other tables are as before, and the new table is empty.\<close>

lemma vdb_map_add:
  assumes "engines_ok L vd" "engines_ok L vd'" "md_tables (vd_meta vd') = md_tables (vd_meta vd) @ [(tb_name t, t)]"
    and "Metadata_GetTable (tb_name t) (vd_meta vd) = None"
    and "\<And>t' q r. replica_of (vd_meta vd) t' q r \<Longrightarrow> map_of (vd_engines vd') (rp_uid r) = map_of (vd_engines vd) (rp_uid r)"
    and "\<And>q r. in_table t q r \<Longrightarrow> \<exists>ve. map_of (vd_engines vd') (rp_uid r) = Some ve \<and> contents L ve = Map.empty"
  shows "vdb_map L vd' = vdb_map L vd"
proof (intro ext)
  fix m key
  have ok: "tables_ok (vd_meta vd)" "tables_ok (vd_meta vd')" using assms(1,2) by (simp_all add: engines_ok_def)
  have gets: "Metadata_GetTable m (vd_meta vd') = (if m = tb_name t then Some t else Metadata_GetTable m (vd_meta vd))"
    using assms(3,4) by (auto simp: Metadata_GetTable_def map_add_def split: option.split)
  show "vdb_map L vd' m key = vdb_map L vd m key"
  proof (cases "m = tb_name t")
    case True
    then obtain q r ve where r: "replica_of (vd_meta vd') t q r" "map_of (vd_engines vd') (rp_uid r) = Some ve"
      "vdb_map L vd' m key = contents L ve key"
      using GetVEngine_route [OF assms(2), of m t key] gets by (metis (full_types))
    then have "contents L ve = Map.empty" using assms(6) [of q r] by (auto simp: replica_of_def)
    moreover have "vdb_map L vd m key = None" using True assms(4) by (simp add: vdb_map_def VdbEngine_GetVEngine_def)
    ultimately show ?thesis using r(3) by simp
  next
    case False
    show ?thesis
    proof (cases "Metadata_GetTable m (vd_meta vd)")
      case None
      then show ?thesis using False gets by (simp add: vdb_map_def VdbEngine_GetVEngine_def)
    next
      case (Some s)
      obtain i q r where r: "PartitionId key (tb_partition_num s) = Some i" "replica_of (vd_meta vd) s q r" "pt_id q = i"
        "Metadata_GetReplica (ReplicaName3 m i 0) (vd_meta vd) = Some (Some r)" by (rule route [OF ok(1) Some])
      have s: "tb_name s = m" "table_wf s" using table_row [OF ok(1) Some] by auto
      have "table_name_ok m" "small_id i" using table_wfD(1,5) [OF s(2), of q r] r(2,3) s(1) by (auto simp: replica_of_def)
      then have "Metadata_GetReplica (ReplicaName3 m i 0) (vd_meta vd') = Some (Some r)"
        using GetReplica_other_table [of m "vd_meta vd'" "vd_meta vd" i 0] gets False r(4) by simp
      then show ?thesis
        using r(1,4) Some gets False assms(5) [OF r(2)] by (simp add: vdb_map_def VdbEngine_GetVEngine_def)
    qed
  qed
qed

lemma AddTable_keeps:
  assumes "leveldb_store L" "vdb_ok L vd" "AddTableParam_ok (vd_path vd) p"
    and "Suc (length (md_tables (vd_meta vd))) < 2 ^ 20" "Metadata_GetTable (at_name p) (vd_meta vd) = None"
  obtains vd' where "VdbEngine_AddTable A L p vd = Some (0, vd')" "vdb_ok L vd'" "vd_path vd' = vd_path vd"
    "length (md_tables (vd_meta vd')) = Suc (length (md_tables (vd_meta vd)))"
    "vdb_map L vd' = vdb_map L vd" "table_dim vd' = (table_dim vd)(at_name p \<mapsto> at_dim p)"
proof -
  let ?md = "vd_meta vd" and ?c = "uint (ui_replica (md_uids (vd_meta vd)))"
  have e: "engines_ok L vd" "vd_disk vd = []" "mkdir_p 256 (vd_path vd)"
    and plain: "\<And>u ve. map_of (vd_engines vd) u = Some ve \<Longrightarrow> ve_index_dirs ve = [] \<and> ve_index_manager ve = []"
    and below: "\<And>t p r. replica_of ?md t p r \<Longrightarrow> uint (rp_uid r) < ?c" and c: "?c \<le> 2 ^ 40 * int (length (md_tables ?md))"
    using assms(2) by (simp_all add: vdb_ok_def vdb_sound_def)
  have ok: "tables_ok ?md" "uids_distinct ?md" "distinct (map fst (vd_engines vd))" using e(1) by (simp_all add: engines_ok_def)
  have room: "?c + 2 ^ 40 < 2 ^ 64" using c assms(4) by simp
  obtain t u rs E vd' where add: "new_table (vd_path vd) p (md_uids ?md) t u"
    "VdbEngine_AddTable A L p vd = Some (0, vd')" "vd_path vd' = vd_path vd"
    "md_tables (vd_meta vd') = md_tables ?md @ [(at_name p, t)]" "md_uids (vd_meta vd') = u"
    "tables_ok (vd_meta vd')"
    "map_of (vd_engines vd') = map_of (vd_engines vd) ++ map_of (map (\<lambda>r. (rp_uid r, E r)) rs)"
    "set rs = {r. \<exists>q. in_table t q r}" "distinct (map rp_uid rs)"
    "\<forall>r \<in> set rs. engine_ok L (E r) \<and> VEngine_Dim (E r) = tb_dim t \<and> contents L (E r) = Map.empty \<and> ve_path (E r) = rp_path r \<and>
      ve_index_dirs (E r) = [] \<and> ve_index_manager (E r) = []"
    "rp_uid ` set rs \<inter> fst ` set (vd_engines vd) = {} \<Longrightarrow> vd_disk vd = [] \<Longrightarrow> vd_disk vd' = []"
    "distinct (map fst (vd_engines vd)) \<Longrightarrow> distinct (map fst (vd_engines vd'))" "on_disk_ok L (vd_meta vd')"
    by (rule AddTable_runs [OF assms(1) ok(1) assms(3) e(3) assms(4,5) room, where A = A])
      (use vdb_ok_paths [OF e(1)] e(2) in auto)
  note new = replica_of_add [OF add(1,4)] and uid = uid_value [OF add(1) room] and t = new_table_fields [OF add(1)]
  have uids: "uids_distinct (vd_meta vd')" by (rule uids_distinct_add [OF add(6) ok(2) add(1,4) below room])
  have above: "?c \<le> uint (rp_uid r)" "uint (rp_uid r) < uint (ui_replica u)" if "in_table t q r" for q r
    using uid(1) [OF that] uid(2) replica_index [OF add(1) that] by simp_all
  have apart: "rp_uid ` set rs \<inter> fst ` set (vd_engines vd) = {}"
  proof (rule ccontr)
    assume "rp_uid ` set rs \<inter> fst ` set (vd_engines vd) \<noteq> {}"
    then obtain r w where r: "r \<in> set rs" "rp_uid r = w" "w \<in> fst ` set (vd_engines vd)" by blast
    then obtain t' q' r' where "replica_of ?md t' q' r'" "rp_uid r' = w" using e(1) unfolding engines_ok_def by blast
    moreover obtain q where "in_table t q r" using r(1) add(8) by blast
    ultimately show False using below above(1) r(2) by fastforce
  qed
  note eng = engines_ok_add [OF e(1) add(6) uids new add(7,9,8,10) apart]
  have eok: "engines_ok L vd'" by (rule eng(1) [OF add(12) [OF ok(3)]])
  have empty: "\<exists>ve. map_of (vd_engines vd') (rp_uid r) = Some ve \<and> contents L ve = Map.empty" if "in_table t q r" for q r
    using added_engines(1) [OF add(7,9)] add(8,10) that by blast
  have "uint (ui_replica u) \<le> 2 ^ 40 * int (Suc (length (md_tables ?md)))" "?c < uint (ui_replica u)"
    using uid(2) new_table_size [OF add(1)] c by (simp_all add: algebra_simps)
  moreover have "ve_index_dirs ve = [] \<and> ve_index_manager ve = []" if "map_of (vd_engines vd') w = Some ve" for w ve
  proof (cases "map_of (map (\<lambda>r. (rp_uid r, E r)) rs) w")
    case None
    then show ?thesis using that plain unfolding add(7) by (simp add: map_add_def)
  next
    case (Some x)
    then obtain r where "r \<in> set rs" "x = E r" by (auto dest!: map_of_SomeD)
    moreover have "ve = x" using that Some unfolding add(7) by simp
    ultimately show ?thesis using add(10) by blast
  qed
  moreover have "uint (rp_uid r) < uint (ui_replica u)" if "replica_of (vd_meta vd') t' q r" for t' q r
    using that below [of t' q r] above(2) [of q r] calculation(2) new by auto
  ultimately have "vdb_ok L vd'"
    using eok add(3,4,5,13) add(11) [OF apart e(2)] e(3) unfolding vdb_ok_def vdb_sound_def by auto
  moreover have "vdb_map L vd' = vdb_map L vd"
    by (rule vdb_map_add [OF e(1) eok _ _ eng(2) empty]) (use add(4) t(2) assms(5) in auto)
  moreover have "table_dim vd' = (table_dim vd)(at_name p \<mapsto> at_dim p)"
    using add(4) t(4) assms(5) by (auto simp: table_dim_def Metadata_GetTable_def map_add_def fun_eq_iff split: option.split)
  ultimately show ?thesis using that add(2-4) by simp
qed

end
