(* ===== verification/VdbProps.thy ===== *)
theory VdbProps
  imports VdbTables
begin

text \<open>
  The database as a whole: storing, reading and deleting through the catalogue, restarts, the refinement of
  tables of maps, and the loss of data when a table is added after a restart.
\<close>

section \<open>Storing, reading and deleting\<close>

context leveldb_store
begin

lemmas engine_put_ok = engine.put_ok
lemmas engine_put_refused = engine.put_refused
lemmas engine_del_ok = engine.del_ok

end

lemma engine_fields_kept:
  shows "VEngine_Put L key vv ve = Some (rv, ve') \<Longrightarrow>
      ve_path ve' = ve_path ve \<and> ve_index_dirs ve' = ve_index_dirs ve \<and> ve_index_manager ve' = ve_index_manager ve"
    "VEngine_Delete L key ve = (rv, ve') \<Longrightarrow>
      ve_path ve' = ve_path ve \<and> ve_index_dirs ve' = ve_index_dirs ve \<and> ve_index_manager ve' = ve_index_manager ve"
  by (auto simp: VEngine_Put_def VEngine_Delete_def check_def Let_def split: if_splits elim!: bind_eq_SomeE)

lemma GetVEngine_engine:
  assumes "engines_ok L vd" "Metadata_GetTable n (vd_meta vd) = Some t"
  obtains u ve where "VdbEngine_GetVEngine n key vd = Some (Some u)" "map_of (vd_engines vd) u = Some ve" "engine_ok L ve"
    "VEngine_Dim ve = tb_dim t" "vdb_map L vd n key = contents L ve key"
  by (rule GetVEngine_route [OF assms, where key = key])

lemma Get_reads:
  assumes "leveldb_store L" "engines_ok L vd"
  shows "VdbEngine_Get L table key vo vd = Some (case table_dim vd table of
      None \<Rightarrow> (-1, vo)
    | Some d \<Rightarrow> (case vdb_map L vd table key of
        Some vv \<Rightarrow> (0, \<lparr>vo_key = key, vo_vv = vv\<rparr>)
      | None \<Rightarrow> (-2, vo)))"
proof (cases "Metadata_GetTable table (vd_meta vd)")
  case None
  then show ?thesis by (simp add: VdbEngine_Get_def VdbEngine_GetVEngine_def table_dim_def)
next
  case (Some t)
  obtain u ve where "VdbEngine_GetVEngine table key vd = Some (Some u)" "map_of (vd_engines vd) u = Some ve" "engine_ok L ve"
    "VEngine_Dim ve = tb_dim t" "vdb_map L vd table key = contents L ve key"
    by (rule GetVEngine_engine [OF assms(2) Some])
  with Some show ?thesis
    by (simp add: VdbEngine_Get_def table_dim_def leveldb_store.engine_get_reads [OF assms(1)] split: option.split)
qed

text \<open>Changing one engine through its own operations keeps the database in order.\<close>

lemma vdb_sound_update:
  assumes "vdb_sound L vd" "map_of (vd_engines vd) u = Some ve" "engine_ok L ve'" "VEngine_Dim ve' = VEngine_Dim ve"
    and "ve_path ve' = ve_path ve \<and> ve_index_dirs ve' = ve_index_dirs ve \<and> ve_index_manager ve' = ve_index_manager ve"
  shows "vdb_sound L (vd\<lparr>vd_engines := AList.update u ve' (vd_engines vd)\<rparr>)"
proof -
  have e: "engines_ok L vd" using assms(1) by (simp add: vdb_sound_def)
  have "engines_ok L (vd\<lparr>vd_engines := AList.update u ve' (vd_engines vd)\<rparr>)"
    by (rule update_engine_ok [OF e assms(2-4)]) (use assms(5) in simp)
  then show ?thesis using assms(1,2,5) unfolding vdb_sound_def by (auto simp: update_conv')
qed

lemma Put_keeps:
  assumes "leveldb_store L" "vdb_sound L vd" "VecValue_ok vv"
  shows "\<exists>vd'. VdbEngine_Put L n key vv vd = Some (if table_dim vd n = Some (VecValue_dim vv) then 0 else -1, vd') \<and>
    vdb_sound L vd' \<and> vd_path vd' = vd_path vd \<and> vd_meta vd' = vd_meta vd \<and>
    vdb_map L vd' = (if table_dim vd n = Some (VecValue_dim vv)
      then (vdb_map L vd)(n := (vdb_map L vd n)(key \<mapsto> vv)) else vdb_map L vd)"
proof (cases "Metadata_GetTable n (vd_meta vd)")
  case None
  then show ?thesis using assms(2) by (simp add: VdbEngine_Put_def VdbEngine_GetVEngine_def table_dim_def)
next
  case (Some t)
  have e: "engines_ok L vd" using assms(2) by (simp add: vdb_sound_def)
  obtain u ve where r: "VdbEngine_GetVEngine n key vd = Some (Some u)" "map_of (vd_engines vd) u = Some ve" "engine_ok L ve"
    "VEngine_Dim ve = tb_dim t" "vdb_map L vd n key = contents L ve key"
    by (rule GetVEngine_engine [OF e Some])
  have d: "table_dim vd n = Some (VEngine_Dim ve)" using Some r(4) by (simp add: table_dim_def)
  show ?thesis
  proof (cases "VecValue_dim vv = VEngine_Dim ve")
    case True
    obtain ve' where ve': "VEngine_Put L key vv ve = Some (0, ve')" "engine_ok L ve'" "VEngine_Dim ve' = VEngine_Dim ve"
      "contents L ve' = (contents L ve)(key \<mapsto> vv)"
      using leveldb_store.engine_put_ok [OF assms(1) r(3) assms(3) True, of key] by blast
    show ?thesis
      using r(1,2) d True ve'(1) vdb_sound_update [OF assms(2) r(2) ve'(2,3) engine_fields_kept(1) [OF ve'(1)]]
        update_engine_map [OF e r(1,2) ve'(4)]
      by (simp add: VdbEngine_Put_def)
  next
    case False
    have "AList.update u ve (vd_engines vd) = vd_engines vd" using r(2) by (rule update_triv)
    then show ?thesis
      using r(1,2) d False leveldb_store.engine_put_refused [OF assms(1) False] assms(2) by (simp add: VdbEngine_Put_def)
  qed
qed

lemma Delete_keeps:
  assumes "leveldb_store L" "vdb_sound L vd"
  shows "\<exists>vd'. VdbEngine_Delete L n key vd = Some (if table_dim vd n = None then -1 else 0, vd') \<and>
    vdb_sound L vd' \<and> vd_path vd' = vd_path vd \<and> vd_meta vd' = vd_meta vd \<and>
    vdb_map L vd' = (vdb_map L vd)(n := (vdb_map L vd n)(key := None))"
proof (cases "Metadata_GetTable n (vd_meta vd)")
  case None
  then have "vdb_map L vd n = Map.empty" by (auto simp: vdb_map_def VdbEngine_GetVEngine_def)
  then show ?thesis using None assms(2)
    by (simp add: VdbEngine_Delete_def VdbEngine_GetVEngine_def table_dim_def fun_upd_idem)
next
  case (Some t)
  have e: "engines_ok L vd" using assms(2) by (simp add: vdb_sound_def)
  obtain u ve where r: "VdbEngine_GetVEngine n key vd = Some (Some u)" "map_of (vd_engines vd) u = Some ve" "engine_ok L ve"
    "VEngine_Dim ve = tb_dim t" "vdb_map L vd n key = contents L ve key"
    by (rule GetVEngine_engine [OF e Some])
  obtain ve' where ve': "VEngine_Delete L key ve = (0, ve')" "engine_ok L ve'" "VEngine_Dim ve' = VEngine_Dim ve"
    "contents L ve' = (contents L ve)(key := None)"
    using leveldb_store.engine_del_ok [OF assms(1) r(3), of key] by blast
  show ?thesis
    using r(1,2) Some ve'(1) vdb_sound_update [OF assms(2) r(2) ve'(2,3) engine_fields_kept(2) [OF ve'(1)]]
      update_engine_map [OF e r(1,2) ve'(4)]
    by (simp add: VdbEngine_Delete_def table_dim_def)
qed

section \<open>Start and restart\<close>

lemma vdb_map_cong:
  assumes "md_tables (vd_meta vd') = md_tables (vd_meta vd)" "map_of (vd_engines vd') = map_of (vd_engines vd)"
  shows "vdb_map L vd' = vdb_map L vd" "table_dim vd' = table_dim vd"
proof -
  have "Metadata_GetTable n (vd_meta vd') = Metadata_GetTable n (vd_meta vd)" for n
    using assms(1) by (simp add: Metadata_GetTable_def)
  then have "Metadata_GetReplica n (vd_meta vd') = Metadata_GetReplica n (vd_meta vd)"
    "Metadata_GetTable n (vd_meta vd') = Metadata_GetTable n (vd_meta vd)" for n
    by (simp_all add: Metadata_GetReplica_def Metadata_GetPartition_def)
  then show "vdb_map L vd' = vdb_map L vd" "table_dim vd' = table_dim vd"
    using assms(2) by (intro ext, simp add: vdb_map_def VdbEngine_GetVEngine_def table_dim_def cong: option.case_cong)+
qed

lemma start_fresh:
  assumes "leveldb_store (L :: 'db leveldb)" "mkdir_p 256 path"
  obtains vd :: "('db, 'ann) VdbEngine" where "VdbEngine_new A L path None = Some vd" "vdb_ok L vd" "vd_path vd = path"
    "md_tables (vd_meta vd) = []" "md_uids (vd_meta vd) = process_start" "vdb_map L vd = (\<lambda>_. Map.empty)"
    "table_dim vd = Map.empty"
proof -
  obtain md where md: "Metadata_new L process_start (ldb_open L) = Some md" "md_tables md = []"
    "md_uids md = process_start" "meta_reachable L md" by (rule fresh_catalogue [OF assms(1)])
  have disk: "on_disk_ok L md" by (rule reachable_on_disk [OF assms(1) md(4)])
  let ?vd = "\<lparr>vd_path = path, vd_meta = md, vd_engines = [], vd_disk = []\<rparr> :: ('db, 'ann) VdbEngine"
  have none: "\<not> replica_of md t p r" for t p r using md(2) by (simp add: replica_of_def)
  have "VdbEngine_new A L path None = Some ?vd"
    using assms(2) md(1,2) by (simp add: VdbEngine_new_def DB_Open_def ForEachReplica_def ForEachTable_def)
  moreover have "tables_ok md" using disk md(2) by (simp add: tables_ok_def on_disk_ok_def none)
  then have "vdb_ok L ?vd"
    using assms(2) md disk none
    by (simp add: vdb_ok_def vdb_sound_def engines_ok_def uids_distinct_def process_start_def)
  moreover have "vdb_map L ?vd = (\<lambda>_. Map.empty)" "table_dim ?vd = Map.empty"
    using md(2) by (auto simp: vdb_map_def VdbEngine_GetVEngine_def table_dim_def Metadata_GetTable_def fun_eq_iff)
  ultimately show ?thesis using that md(2,3) by simp
qed

text \<open>The engines a database leaves on disk, by path.\<close>

lemma engine_on_disk:
  assumes "engines_ok L vd" "vd_disk vd = []" "replica_of (vd_meta vd) t p r" "map_of (vd_engines vd) (rp_uid r) = Some ve"
  shows "map_of (vr_engines (VdbEngine_dir vd)) (rp_path r) = Some (VEngine_dir ve)"
proof -
  let ?path = "\<lambda>x. ve_path (snd x)"
  have ok: "tables_ok (vd_meta vd)" "distinct (map fst (vd_engines vd))" using assms(1) by (simp_all add: engines_ok_def)
  have own: "\<exists>t p r. replica_of (vd_meta vd) t p r \<and> rp_uid r = fst x \<and> ?path x = rp_path r" if x: "x \<in> set (vd_engines vd)" for x
  proof -
    obtain t p r where r: "replica_of (vd_meta vd) t p r" "rp_uid r = fst x"
      using assms(1) x unfolding engines_ok_def by blast
    moreover have "map_of (vd_engines vd) (fst x) = Some (snd x)" using x ok(2) by simp
    ultimately show ?thesis using assms(1) unfolding engines_ok_def by (metis option.inject)
  qed
  have "inj_on ?path (set (vd_engines vd))"
  proof (rule inj_onI)
    fix x y assume xy: "x \<in> set (vd_engines vd)" "y \<in> set (vd_engines vd)" "?path x = ?path y"
    then have "fst x = fst y" using own [OF xy(1)] own [OF xy(2)] replica_by_path [OF ok(1)] by metis
    then show "x = y" using xy(1,2) ok(2) by (metis eq_key_imp_eq_value prod.collapse)
  qed
  then have "distinct (map ?path (vd_engines vd))" using ok(2) by (simp add: distinct_map)
  moreover have "ve_path ve = rp_path r" using assms(1,3,4) unfolding engines_ok_def by (metis option.inject)
  ultimately show ?thesis
    using map_of_SomeD [OF assms(4)] assms(2)
    by (intro map_of_is_SomeI) (force simp: VdbEngine_dir_def o_def)+
qed

lemma engine_reopens:
  assumes "leveldb_store L" "vdb_sound L vd" "replica_of (vd_meta vd) t p r"
  shows "\<exists>ve. map_of (vd_engines vd) (rp_uid r) = Some ve \<and> opens L (vr_engines (VdbEngine_dir vd)) r ve"
proof -
  have e: "engines_ok L vd" "vd_disk vd = []"
    and plain: "\<And>u ve. map_of (vd_engines vd) u = Some ve \<Longrightarrow> ve_index_dirs ve = [] \<and> ve_index_manager ve = []"
    using assms(2) by (simp_all add: vdb_sound_def)
  obtain ve where ve: "map_of (vd_engines vd) (rp_uid r) = Some ve" "engine_ok L ve" "ve_path ve = rp_path r"
    using e(1) assms(3) unfolding engines_ok_def by blast
  have "ve\<lparr>ve_path := rp_path r, ve_index_manager := []\<rparr> = ve" using plain [OF ve(1)] ve(3) by simp
  then have "VEngine_new L (rp_path r) (rp_dim r) (map_of (vr_engines (VdbEngine_dir vd)) (rp_path r)) = Some ve"
    unfolding engine_on_disk [OF e assms(3) ve(1)] leveldb_store.VEngine_reopen [OF assms(1) ve(2)] by simp
  then show ?thesis using ve plain [OF ve(1)] by (auto simp: opens_def)
qed

lemma restart_keeps:
  assumes "leveldb_store L" "vdb_sound L vd"
  obtains vd' where "VdbEngine_new A L (vd_path vd) (Some (VdbEngine_dir vd)) = Some vd'" "vdb_sound L vd'"
    "vd_path vd' = vd_path vd" "vd_meta vd' = (vd_meta vd)\<lparr>md_uids := process_start\<rparr>"
    "map_of (vd_engines vd') = map_of (vd_engines vd)"
proof -
  let ?md = "(vd_meta vd)\<lparr>md_uids := process_start\<rparr>" and ?disk = "vr_engines (VdbEngine_dir vd)"
  let ?E = "\<lambda>r. the (map_of (vd_engines vd) (rp_uid r))"
  have e: "engines_ok L vd" "vd_disk vd = []" "mkdir_p 256 (vd_path vd)" "on_disk_ok L (vd_meta vd)"
    and plain: "\<And>u ve. map_of (vd_engines vd) u = Some ve \<Longrightarrow> ve_index_dirs ve = [] \<and> ve_index_manager ve = []"
    using assms(2) by (simp_all add: vdb_sound_def)
  have of: "replica_of ?md = replica_of (vd_meta vd)" by (simp add: replica_of_def fun_eq_iff)
  have ok: "tables_ok (vd_meta vd)" "uids_distinct (vd_meta vd)" "distinct (map fst (vd_engines vd))"
    using e(1) by (simp_all add: engines_ok_def)
  have ok': "tables_ok ?md" "uids_distinct ?md" "on_disk_ok L ?md"
    using ok(1,2) e(4) by (simp_all add: tables_ok_def uids_distinct_def of meta_wf_def on_disk_ok_def)
  obtain rs where rs: "ForEachReplica ?md = Some rs" "set rs = {r. \<exists>t p. replica_of (vd_meta vd) t p r}" "distinct rs"
    by (rule ForEachReplica_wf [of ?md]) (use ok'(1) of in \<open>simp_all add: tables_ok_def\<close>)
  have own: "u \<in> rp_uid ` set rs" if u: "u \<in> fst ` set (vd_engines vd)" for u
  proof -
    obtain t p r where r: "replica_of (vd_meta vd) t p r" "rp_uid r = u" by (rule engine_owner [OF e(1) u])
    then have "r \<in> set rs" using rs(2) by auto
    with r(2) show ?thesis by blast
  qed
  have engine: "\<exists>ve. map_of (vd_engines vd) (rp_uid r) = Some ve \<and> opens L ?disk r ve" if "r \<in> set rs" for r
    using that rs(2) engine_reopens [OF assms] by blast
  let ?vd = "\<lparr>vd_path = vd_path vd, vd_meta = ?md, vd_engines = [], vd_disk = ?disk\<rparr>"
  have inj: "inj_on rp_path (set rs)" using rs(2) replica_by_path [OF ok(1)] unfolding inj_on_def by blast
  have "r = r'" if "r \<in> set rs" "r' \<in> set rs" "rp_uid r = rp_uid r'" for r r'
    using that ok(2) unfolding rs(2) uids_distinct_def mem_Collect_eq by metis
  then have inj': "inj_on rp_uid (set rs)" by (intro inj_onI)
  have "\<forall>r \<in> set rs. opens L ?disk r (?E r)" using engine by fastforce
  then have 1: "\<forall>r \<in> set rs. opens L (vd_disk ?vd) r (?E r)" "distinct (map rp_path rs)" "distinct (map rp_uid rs)"
    "rp_path ` set rs \<inter> set (open_paths ?vd) = {}"
    using inj inj' rs(3) by (auto simp: distinct_map open_paths_def)
  from create_engines_opens [OF 1, of A] obtain vd' where vd': "create_engines A L rs ?vd = Some vd'" "vd_meta vd' = ?md"
    "vd_path vd' = vd_path vd" "map_of (vd_engines vd') = map_of (map (\<lambda>r. (rp_uid r, ?E r)) rs)"
    "vd_disk vd' = filter (\<lambda>x. fst x \<notin> rp_path ` set rs) ?disk" "distinct (map fst (vd_engines vd'))"
    by auto
  have same: "map_of (vd_engines vd') = map_of (vd_engines vd)"
  proof
    fix u
    show "map_of (vd_engines vd') u = map_of (vd_engines vd) u"
    proof (cases "u \<in> rp_uid ` set rs")
      case True
      then obtain r where r: "r \<in> set rs" "u = rp_uid r" by blast
      then have "map_of (map (\<lambda>r. (rp_uid r, ?E r)) rs) u = Some (?E r)"
        using 1(3) by (intro map_of_is_SomeI) (auto simp: o_def)
      then show ?thesis using engine [OF r(1)] r(2) vd'(4) by auto
    next
      case False
      then have "map_of (vd_engines vd) u = None" using own by (auto simp: map_of_eq_None_iff)
      moreover have "map_of (map (\<lambda>r. (rp_uid r, ?E r)) rs) u = None" using False by (simp add: map_of_eq_None_iff image_image)
      ultimately show ?thesis unfolding vd'(4) by (rule trans [OF _ sym, rotated])
    qed
  qed
  have "fst x \<in> rp_path ` set rs" if "x \<in> set ?disk" for x
  proof -
    have "fst x \<in> set (open_paths vd)" using that e(2) by (force simp: VdbEngine_dir_def open_paths_def)
    then show ?thesis using vdb_ok_paths [OF e(1)] rs(2) by blast
  qed
  then have "vd_disk vd' = []" unfolding vd'(5) by (simp add: filter_empty_conv)
  moreover have keys: "fst ` set (vd_engines vd') = fst ` set (vd_engines vd)"
    using same by (metis dom_map_of_conv_image_fst)
  have "engines_ok L vd'"
    using e(1) ok'(1,2) vd'(6) unfolding engines_ok_def vd'(2) of same keys by (elim conjE, intro conjI)
  ultimately have sound: "vdb_sound L vd'"
    using e(3) plain same vd'(2,3) ok'(3) by (simp add: vdb_sound_def)
  have "VdbEngine_new A L (vd_path vd) (Some (VdbEngine_dir vd)) = Some vd'"
    using new_reads_disk [OF e(4), of process_start] rs(1) vd'(1) e(2)
    by (simp add: VdbEngine_new_def DB_Open_def) (simp add: VdbEngine_dir_def)
  then show ?thesis using that sound vd'(2,3) same by blast
qed

section \<open>Sequences of operations\<close>

datatype vdb_op = AddTableOp AddTableParam | PutVec bytes bytes VecValue | DelVec bytes bytes | Restart

fun run_op :: "'ann annoy \<Rightarrow> 'db leveldb \<Rightarrow> vdb_op \<Rightarrow> ('db, 'ann) VdbEngine \<Rightarrow> ('db, 'ann) VdbEngine option" where
  "run_op A L (AddTableOp p) vd = map_option snd (VdbEngine_AddTable A L p vd)"
| "run_op A L (PutVec n key vv) vd = map_option snd (VdbEngine_Put L n key vv vd)"
| "run_op A L (DelVec n key) vd = map_option snd (VdbEngine_Delete L n key vd)"
| "run_op A L Restart vd = VdbEngine_new A L (vd_path vd) (Some (VdbEngine_dir vd))"

fun run_vdb :: "'ann annoy \<Rightarrow> 'db leveldb \<Rightarrow> vdb_op list \<Rightarrow> ('db, 'ann) VdbEngine \<Rightarrow> ('db, 'ann) VdbEngine option" where
  "run_vdb A L [] vd = Some vd"
| "run_vdb A L (op # ops) vd = do { vd \<leftarrow> run_op A L op vd; run_vdb A L ops vd }"

text \<open>The specification: a dimension for every table there is, and what the tables hold.\<close>

type_synonym vdb_spec = "(bytes \<rightharpoonup> int) \<times> (bytes \<Rightarrow> bytes \<rightharpoonup> VecValue)"

fun spec_op :: "vdb_op \<Rightarrow> vdb_spec \<Rightarrow> vdb_spec" where
  "spec_op (AddTableOp p) (d, m) = (case d (at_name p) of None \<Rightarrow> (d(at_name p \<mapsto> at_dim p), m) | Some _ \<Rightarrow> (d, m))"
| "spec_op (PutVec n key vv) (d, m) = (d, if d n = Some (VecValue_dim vv) then m(n := (m n)(key \<mapsto> vv)) else m)"
| "spec_op (DelVec n key) (d, m) = (d, m(n := (m n)(key := None)))"
| "spec_op Restart s = s"

fun is_AddTable :: "vdb_op \<Rightarrow> bool" where
  "is_AddTable (AddTableOp p) \<longleftrightarrow> True"
| "is_AddTable op \<longleftrightarrow> False"

text \<open>No table is added once the database has been restarted.\<close>

fun vdb_ops_ok :: "bytes \<Rightarrow> vdb_op list \<Rightarrow> bool" where
  "vdb_ops_ok path [] \<longleftrightarrow> True"
| "vdb_ops_ok path (AddTableOp p # ops) \<longleftrightarrow> AddTableParam_ok path p \<and> vdb_ops_ok path ops"
| "vdb_ops_ok path (PutVec n key vv # ops) \<longleftrightarrow> VecValue_ok vv \<and> vdb_ops_ok path ops"
| "vdb_ops_ok path (DelVec n key # ops) \<longleftrightarrow> vdb_ops_ok path ops"
| "vdb_ops_ok path (Restart # ops) \<longleftrightarrow> vdb_ops_ok path ops \<and> \<not> (\<exists>op \<in> set ops. is_AddTable op)"

definition spec_of :: "'db leveldb \<Rightarrow> ('db, 'ann) VdbEngine \<Rightarrow> vdb_spec" where
  "spec_of L vd = (table_dim vd, vdb_map L vd)"

text \<open>Adding a table under a name that is taken is refused.\<close>

lemma AddTable_taken:
  assumes "Metadata_GetTable (at_name p) (vd_meta vd) = Some t"
  shows "VdbEngine_AddTable A L p vd = Some (-1, vd)"
  using assms by (simp add: VdbEngine_AddTable_def Metadata_AddTable_def)

lemma run_op_spec:
  assumes "leveldb_store L" "vdb_sound L vd" "is_AddTable op \<Longrightarrow> vdb_ok L vd" "vdb_ops_ok (vd_path vd) [op]"
    and "Suc (length (md_tables (vd_meta vd))) < 2 ^ 20"
  shows "\<exists>vd'. run_op A L op vd = Some vd' \<and> vdb_sound L vd' \<and> vd_path vd' = vd_path vd \<and> spec_of L vd' = spec_op op (spec_of L vd) \<and>
    length (md_tables (vd_meta vd')) \<le> Suc (length (md_tables (vd_meta vd))) \<and> (op \<noteq> Restart \<and> vdb_ok L vd \<longrightarrow> vdb_ok L vd')"
proof (cases op)
  case (AddTableOp p)
  have ok: "vdb_ok L vd" "AddTableParam_ok (vd_path vd) p" using assms(3,4) AddTableOp by simp_all
  show ?thesis
  proof (cases "Metadata_GetTable (at_name p) (vd_meta vd)")
    case None
    show ?thesis
      by (rule AddTable_keeps [OF assms(1) ok assms(5) None, where A = A])
        (use None AddTableOp in \<open>auto simp: spec_of_def table_dim_def vdb_ok_def\<close>)
  next
    case (Some t)
    from AddTable_taken [OF this] show ?thesis using Some AddTableOp assms(2) ok(1) by (auto simp: spec_of_def table_dim_def)
  qed
next
  case (PutVec n key vv)
  then have "VecValue_ok vv" using assms(4) by simp
  from Put_keeps [OF assms(1,2) this, of n key] show ?thesis
    using PutVec by (auto simp: spec_of_def table_dim_def vdb_ok_def fun_eq_iff)
next
  case (DelVec n key)
  from Delete_keeps [OF assms(1,2), of n key] show ?thesis
    using DelVec by (auto simp: spec_of_def table_dim_def vdb_ok_def fun_eq_iff)
next
  case Restart
  obtain vd' where vd': "VdbEngine_new A L (vd_path vd) (Some (VdbEngine_dir vd)) = Some vd'" "vdb_sound L vd'"
    "vd_path vd' = vd_path vd" "vd_meta vd' = (vd_meta vd)\<lparr>md_uids := process_start\<rparr>"
    "map_of (vd_engines vd') = map_of (vd_engines vd)"
    by (rule restart_keeps [OF assms(1,2), where A = A])
  then show ?thesis using Restart vdb_map_cong [OF _ vd'(5)] by (simp add: spec_of_def)
qed

lemma run_vdb_spec:
  assumes "leveldb_store L" "vdb_sound L vd" "\<exists>op \<in> set ops. is_AddTable op \<Longrightarrow> vdb_ok L vd" "vdb_ops_ok (vd_path vd) ops"
    and "length (md_tables (vd_meta vd)) + length ops < 2 ^ 20"
  shows "\<exists>vd'. run_vdb A L ops vd = Some vd' \<and> vdb_sound L vd' \<and> vd_path vd' = vd_path vd \<and> spec_of L vd' = fold spec_op ops (spec_of L vd)"
  using assms(2-)
proof (induction ops arbitrary: vd)
  case (Cons op ops)
  have op: "vdb_ops_ok (vd_path vd) [op]" "vdb_ops_ok (vd_path vd) ops" using Cons.prems(3) by (cases op; simp)+
  have "is_AddTable op \<Longrightarrow> vdb_ok L vd" "Suc (length (md_tables (vd_meta vd))) < 2 ^ 20" using Cons.prems(2,4) by auto
  from run_op_spec [OF assms(1) Cons.prems(1) this(1) op(1) this(2), of A]
  obtain v1 where v1: "run_op A L op vd = Some v1" "vdb_sound L v1" "vd_path v1 = vd_path vd" "spec_of L v1 = spec_op op (spec_of L vd)"
    "length (md_tables (vd_meta v1)) \<le> Suc (length (md_tables (vd_meta vd)))" "op \<noteq> Restart \<and> vdb_ok L vd \<longrightarrow> vdb_ok L v1"
    by blast
  have "vdb_ok L v1" if add: "\<exists>op \<in> set ops. is_AddTable op"
  proof -
    have "op \<noteq> Restart" using add Cons.prems(3) by auto
    moreover have "vdb_ok L vd" using add Cons.prems(2) by simp
    ultimately show ?thesis using v1(6) by simp
  qed
  moreover have "length (md_tables (vd_meta v1)) + length ops < 2 ^ 20" using v1(5) Cons.prems(4) by simp
  ultimately obtain v2 where "run_vdb A L ops v1 = Some v2" "vdb_sound L v2" "vd_path v2 = vd_path v1"
    "spec_of L v2 = fold spec_op ops (spec_of L v1)"
    using Cons.IH [OF v1(2)] op(2) v1(3) by auto
  then show ?case using v1 by simp
qed simp

lemma vdb_runs:
  assumes "leveldb_store (L :: 'db leveldb)" "mkdir_p 256 path" "vdb_ops_ok path ops" "length ops < 2 ^ 20"
  obtains vd vd' :: "('db, 'ann) VdbEngine" where "VdbEngine_new A L path None = Some vd" "run_vdb A L ops vd = Some vd'"
    "vdb_sound L vd'" "spec_of L vd' = fold spec_op ops (Map.empty, \<lambda>_. Map.empty)"
proof -
  obtain vd :: "('db, 'ann) VdbEngine" where vd: "VdbEngine_new A L path None = Some vd" "vdb_ok L vd" "vd_path vd = path"
    "md_tables (vd_meta vd) = []" "md_uids (vd_meta vd) = process_start" "vdb_map L vd = (\<lambda>_. Map.empty)"
    "table_dim vd = Map.empty"
    by (rule start_fresh [OF assms(1,2)])
  have "vdb_sound L vd" using vd(2) by (simp add: vdb_ok_def)
  from run_vdb_spec [OF assms(1) this, of ops A] obtain vd' where "run_vdb A L ops vd = Some vd'" "vdb_sound L vd'"
    "spec_of L vd' = fold spec_op ops (spec_of L vd)"
    using vd(2-4) assms(3,4) by auto
  then show ?thesis using that vd(1,6,7) by (simp add: spec_of_def)
qed

section \<open>Properties\<close>

definition sample_table :: "bytes \<Rightarrow> AddTableParam" where
  "sample_table name = \<lparr>at_name = name, at_partition_num = 3, at_replica_num = 1, at_dim = 2\<rparr>"

lemma sample_table_ok: "AddTableParam_ok (lit ''/tmp/x'') (sample_table (lit ''a''))"
  "AddTableParam_ok (lit ''/tmp/x'') (sample_table (lit ''b''))" "mkdir_p 256 (lit ''/tmp/x'')"
  by (simp_all add: AddTableParam_ok_def table_param_def sample_table_def TableParam_ok_def table_name_ok_def lit_def
    METADATA_TABLES_KEY_def mkdir_p_def shell_char_def is_digit_def)

lemma sample_value_ok: "VecValue_ok (sample_value [1, 2])" "VecValue_dim (sample_value [1, 2]) = 2"
  "VecValue_ok (sample_value [3])" "VecValue_dim (sample_value [3]) = 1"
  by (simp_all add: sample_value_def VecValue_ok_def Vec_ok_def VecValue_dim_def Vec_dim_def lit_def)

text \<open>C12. The database refines tables of maps. For every sequence of operations in which tables are added before the
  first restart, with at least one partition and one replica and a plain name short enough for its paths
  (\<open>AddTableParam_ok\<close>), and in which vectors have fewer than \<open>2 ^ 20\<close> components and attachments fewer than 128
  bytes (\<open>VecValue_ok\<close>), every operation returns, and a get answers \<open>-1\<close> for a table that was never added, \<open>-2\<close> for a key
  that has no value, and otherwise gives the value last stored, where a put of another dimension than the
  table's stores nothing.\<close>

theorem database_is_tables_of_vectors:
  assumes "leveldb_store (L :: 'db leveldb)" "mkdir_p 256 path" "vdb_ops_ok path ops" "length ops < 2 ^ 20"
    and "fold spec_op ops (Map.empty, \<lambda>_. Map.empty) = (dims, tables)"
  shows "\<exists>(vd :: ('db, 'ann) VdbEngine) vd'. VdbEngine_new A L path None = Some vd \<and> run_vdb A L ops vd = Some vd' \<and>
    (\<forall>table key vo. VdbEngine_Get L table key vo vd' =
      Some (case dims table of
              None \<Rightarrow> (-1, vo)
            | Some d \<Rightarrow> (case tables table key of
                None \<Rightarrow> (-2, vo)
              | Some vv \<Rightarrow> (0, \<lparr>vo_key = key, vo_vv = vv\<rparr>))))"
proof -
  obtain vd vd' :: "('db, 'ann) VdbEngine" where vd: "VdbEngine_new A L path None = Some vd" "run_vdb A L ops vd = Some vd'"
    "vdb_sound L vd'" "spec_of L vd' = fold spec_op ops (Map.empty, \<lambda>_. Map.empty)"
    by (rule vdb_runs [OF assms(1-4)])
  have "table_dim vd' = dims" "vdb_map L vd' = tables" using vd(4) assms(5) by (simp_all add: spec_of_def)
  moreover have "engines_ok L vd'" using vd(3) by (simp add: vdb_sound_def)
  ultimately show ?thesis
    using vd(1,2) Get_reads [OF assms(1), of vd'] by (auto split: option.split)
qed

theorem database_is_tables_of_vectors_witness:
  "\<exists>(vd :: ((bytes \<times> bytes) list, unit) VdbEngine).
     VdbEngine_Get alist_store (lit ''a'') (lit ''k'') VecObj_empty vd = Some (0, \<lparr>vo_key = lit ''k'', vo_vv = sample_value [1, 2]\<rparr>) \<and>
     VdbEngine_Get alist_store (lit ''b'') (lit ''k'') VecObj_empty vd = Some (-2, VecObj_empty) \<and>
     VdbEngine_Get alist_store (lit ''c'') (lit ''k'') VecObj_empty vd = Some (-1, VecObj_empty)"
proof -
  let ?ops = "[AddTableOp (sample_table (lit ''a'')), PutVec (lit ''a'') (lit ''k'') (sample_value [1, 2]),
    AddTableOp (sample_table (lit ''b'')), PutVec (lit ''b'') (lit ''k'') (sample_value [3]), Restart,
    DelVec (lit ''a'') (lit ''l''), Restart]"
  let ?d = "[lit ''a'' \<mapsto> 2, lit ''b'' \<mapsto> 2] :: bytes \<rightharpoonup> int"
  let ?m = "(\<lambda>_. Map.empty) (lit ''a'' := [lit ''k'' \<mapsto> sample_value [1, 2]])"
  have "vdb_ops_ok (lit ''/tmp/x'') ?ops" by (simp add: sample_table_ok sample_value_ok)
  moreover have "lit ''a'' \<noteq> lit ''b''" "lit ''a'' \<noteq> lit ''c''" "lit ''b'' \<noteq> lit ''c''" "lit ''k'' \<noteq> lit ''l''" by (simp_all add: lit_def)
  note neq = this
  have "fold spec_op ?ops (Map.empty, \<lambda>_. Map.empty) = (?d, ?m)"
    using neq by (auto simp: sample_value_ok sample_table_def fun_eq_iff)
  ultimately obtain vd :: "((bytes \<times> bytes) list, unit) VdbEngine" where
    "\<forall>table key vo. VdbEngine_Get alist_store table key vo vd =
      Some (case ?d table of None \<Rightarrow> (-1, vo) | Some d \<Rightarrow> (case ?m table key of
        None \<Rightarrow> (-2, vo) | Some vv \<Rightarrow> (0, \<lparr>vo_key = key, vo_vv = vv\<rparr>)))"
    using database_is_tables_of_vectors [OF alist_store.leveldb_store_axioms sample_table_ok(3), of ?ops ?d ?m undefined] by auto
  then show ?thesis using neq by (intro exI [of _ vd]) simp
qed

text \<open>C17. Tables are typed by their dimension: after every sequence of operations in which tables are added before the first
  restart, under the same conditions on tables and vectors as above, a vector that a get finds is one the encoding can
  hold, and it has the dimension the catalogue has for its table. (After a restart the uids repeat, and a table
  added then may take over the engine of another, of whatever dimension.)\<close>

theorem stored_vectors_typed:
  assumes "leveldb_store L" "mkdir_p 256 path" "vdb_ops_ok path ops" "length ops < 2 ^ 20"
    and "VdbEngine_new A L path None = Some vd" "run_vdb A L ops vd = Some vd'"
    and "VdbEngine_Get L table key vo vd' = Some (0, vo')"
  shows "vo_key vo' = key \<and> VecValue_ok (vo_vv vo') \<and>
    (\<exists>t. Metadata_GetTable table (vd_meta vd') = Some t \<and> VecValue_dim (vo_vv vo') = tb_dim t)"
proof -
  obtain v v' where "VdbEngine_new A L path None = Some v" "run_vdb A L ops v = Some v'" "vdb_sound L v'"
    "spec_of L v' = fold spec_op ops (Map.empty, \<lambda>_. Map.empty)"
    by (rule vdb_runs [OF assms(1-4)])
  then have ok: "engines_ok L vd'" using assms(5,6) by (simp add: vdb_sound_def)
  from assms(7) obtain t where t: "Metadata_GetTable table (vd_meta vd') = Some t" and vo': "vo_key vo' = key"
    "vdb_map L vd' table key = Some (vo_vv vo')"
    unfolding Get_reads [OF assms(1) ok] by (auto simp: table_dim_def split: option.splits)
  obtain u ve where ve: "VdbEngine_GetVEngine table key vd' = Some (Some u)" "map_of (vd_engines vd') u = Some ve" "engine_ok L ve"
    "VEngine_Dim ve = tb_dim t" "vdb_map L vd' table key = contents L ve key"
    by (rule GetVEngine_engine [OF ok t])
  then have "contents L ve key = Some (vo_vv vo')" using vo'(2) by simp
  then show ?thesis using contents_row(2,3) [OF ve(3), of key "vo_vv vo'"] t vo'(1) ve(4) by (simp add: VEngine_Dim_def)
qed

theorem stored_vectors_typed_witness:
  "\<exists>vd :: ((bytes \<times> bytes) list, unit) VdbEngine. \<exists>t. Metadata_GetTable (lit ''a'') (vd_meta vd) = Some t \<and>
     VecValue_dim (sample_value [1, 2]) = tb_dim t"
proof -
  let ?ops = "[AddTableOp (sample_table (lit ''a'')), PutVec (lit ''a'') (lit ''k'') (sample_value [1, 2])]"
  have ops: "vdb_ops_ok (lit ''/tmp/x'') ?ops" "length ?ops < 2 ^ 20" by (simp_all add: sample_table_ok sample_value_ok)
  obtain vd vd' :: "((bytes \<times> bytes) list, unit) VdbEngine" where
    vd: "VdbEngine_new undefined alist_store (lit ''/tmp/x'') None = Some vd" "run_vdb undefined alist_store ?ops vd = Some vd'"
    "vdb_sound alist_store vd'" "spec_of alist_store vd' = fold spec_op ?ops (Map.empty, \<lambda>_. Map.empty)"
    by (rule vdb_runs [OF alist_store.leveldb_store_axioms sample_table_ok(3) ops])
  have "engines_ok alist_store vd'" using vd(3) by (simp add: vdb_sound_def)
  then have "VdbEngine_Get alist_store (lit ''a'') (lit ''k'') VecObj_empty vd' = Some (0, \<lparr>vo_key = lit ''k'', vo_vv = sample_value [1, 2]\<rparr>)"
    using Get_reads [OF alist_store.leveldb_store_axioms, of vd'] vd(4) by (auto simp: spec_of_def sample_table_def sample_value_ok)
  from stored_vectors_typed [OF alist_store.leveldb_store_axioms sample_table_ok(3) ops vd(1,2) this]
  show ?thesis by auto
qed

text \<open>C18. Routing stays within a table: with at least one partition, every key has a partition, and its number is below
  the number of partitions, whatever the checksum of the key; with none, the call divides by zero.\<close>

theorem partition_in_range:
  assumes "int32 n" "0 \<le> n"
  shows "if n = 0 then PartitionId key n = None
    else \<exists>i. PartitionId key n = Some i \<and> 0 \<le> i \<and> i < n \<and> i = uint (Crc32 key) mod n"
proof (cases "n = 0")
  case True
  then show ?thesis by (simp add: PartitionId_def)
next
  case False
  then have "0 < n" "n < 2 ^ 31" using assms by simp_all
  from PartitionId_bounds [OF this, of key] False show ?thesis by auto
qed

theorem partition_in_range_witness: "\<exists>i. PartitionId (lit ''key'') 7 = Some i \<and> 0 \<le> i \<and> i < 7"
  using partition_in_range [of 7 "lit ''key''"] by auto

text \<open>Every number below the size of a new table is the index of one of its replicas.\<close>

lemma index_exists:
  assumes "new_table path p u t u'" "0 \<le> k" "k < at_partition_num p * at_replica_num p"
  obtains q r where "in_table t q r" "pt_id q * at_replica_num p + rp_id r = k"
proof -
  have n: "0 < at_replica_num p" by (rule new_table_param(3) [OF assms(1)])
  have link: "linked pt_id pt_name (tb_partitions_by_id t) (tb_partitions_by_name t)"
    using new_table_fields(1) [OF assms(1)] by (simp add: table_wf_def)
  have "k div at_replica_num p * at_replica_num p \<le> k" using pos_mod_sign [OF n, of k] div_mult_mod_eq [of k "at_replica_num p"] by linarith
  then have "k div at_replica_num p * at_replica_num p < at_partition_num p * at_replica_num p" using assms(3) by (rule le_less_trans)
  then have "k div at_replica_num p < at_partition_num p" using n by (simp add: mult_less_cancel_right)
  then have "k div at_replica_num p \<in> fst ` set (tb_partitions_by_id t)"
    unfolding new_table_fields(5) [OF assms(1)] using assms(2,3) n by (simp add: pos_imp_zdiv_nonneg_iff)
  then obtain q where q: "(pt_id q, Some q) \<in> set (tb_partitions_by_id t)" "pt_id q = k div at_replica_num p"
    using link by (fastforce simp: linked_def)
  then have by_name: "(pt_name q, Some q) \<in> set (tb_partitions_by_name t)" using linked_children(2) [OF link] by simp
  have plink: "linked rp_id rp_name (pt_replicas_by_id q) (pt_replicas_by_name q)"
    using new_table_fields(1) [OF assms(1)] by_name by (auto simp: table_wf_def partition_wf_def)
  have "k mod at_replica_num p \<in> fst ` set (pt_replicas_by_id q)"
    unfolding new_table_partition [OF assms(1) by_name] using n by simp
  then obtain r where r: "(rp_id r, Some r) \<in> set (pt_replicas_by_id q)" "rp_id r = k mod at_replica_num p"
    using plink by (fastforce simp: linked_def)
  have "in_table t q r" using by_name linked_children(2) [OF plink] r(1) by (simp add: in_table_def)
  then show ?thesis using that q(2) r(2) by simp
qed

lemma Get_empty_engine:
  assumes "leveldb_store L" "VdbEngine_GetVEngine n key vd = Some (Some u)" "map_of (vd_engines vd) u = Some ve" "engine_ok L ve"
    and "contents L ve = Map.empty"
  shows "VdbEngine_Get L n key vo vd = Some (-2, vo)"
  using assms leveldb_store.engine_get_reads [OF assms(1,4)] by (simp add: VdbEngine_Get_def)

text \<open>A table that is added when the uid counter has started again, beside the first table of the database.\<close>

lemma added_after_restart:
  assumes "leveldb_store L" "engines_ok L vd" "vd_disk vd = []" "mkdir_p 256 (vd_path vd)" "AddTableParam_ok (vd_path vd) b"
    and "md_tables (vd_meta vd) = [(at_name a, t)]" "md_uids (vd_meta vd) = process_start" "new_table path a process_start t u"
    and "at_name a \<noteq> at_name b" "at_partition_num a * at_replica_num a \<le> at_partition_num b * at_replica_num b"
  obtains vd' where "VdbEngine_AddTable A L b vd = Some (0, vd')" "VdbEngine_Get L (at_name a) key vo vd' = Some (-2, vo)"
proof -
  have room: "uint (ui_replica process_start) + 2 ^ 40 < 2 ^ 64" by (simp add: process_start_def)
  have pre: "tables_ok (vd_meta vd)" "Suc (length (md_tables (vd_meta vd))) < 2 ^ 20"
    "Metadata_GetTable (at_name b) (vd_meta vd) = None"
    using assms(2,6,9) by (simp_all add: engines_ok_def Metadata_GetTable_def)
  obtain t' u' rs E vd' where b: "new_table (vd_path vd) b (md_uids (vd_meta vd)) t' u'"
    "VdbEngine_AddTable A L b vd = Some (0, vd')" "vd_path vd' = vd_path vd"
    "md_tables (vd_meta vd') = md_tables (vd_meta vd) @ [(at_name b, t')]" "md_uids (vd_meta vd') = u'"
    "on_disk_ok L (vd_meta vd')" "tables_ok (vd_meta vd')"
    "map_of (vd_engines vd') = map_of (vd_engines vd) ++ map_of (map (\<lambda>r. (rp_uid r, E r)) rs)"
    "set rs = {r. \<exists>q. in_table t' q r}" "distinct (map rp_uid rs)"
    "\<forall>r \<in> set rs. engine_ok L (E r) \<and> VEngine_Dim (E r) = tb_dim t' \<and> contents L (E r) = Map.empty \<and> ve_path (E r) = rp_path r \<and>
      ve_index_dirs (E r) = [] \<and> ve_index_manager (E r) = []"
    by (rule AddTable_runs [OF assms(1) pre(1) assms(5,4) pre(2,3) room [folded assms(7)], where A = A])
      (use vdb_ok_paths [OF assms(2)] assms(3) in auto)
  have get: "Metadata_GetTable (at_name a) (vd_meta vd') = Some t" using b(4) assms(6) by (simp add: Metadata_GetTable_def)
  obtain i p r where r: "PartitionId key (tb_partition_num t) = Some i" "replica_of (vd_meta vd') t p r" "pt_id p = i" "rp_id r = 0"
    "Metadata_GetReplica (ReplicaName3 (at_name a) i 0) (vd_meta vd') = Some (Some r)"
    by (rule route [OF b(7) get])
  let ?k = "pt_id p * at_replica_num a + rp_id r"
  have inr: "in_table t p r" using r(2) by (simp add: replica_of_def)
  have k: "0 \<le> ?k" "?k < at_partition_num b * at_replica_num b" using replica_index [OF assms(8) inr] assms(10) by auto
  obtain q r' where r': "in_table t' q r'" "pt_id q * at_replica_num b + rp_id r' = ?k" by (rule index_exists [OF b(1) k])
  have "uint (rp_uid r') = uint (rp_uid r)"
    using uid_value(1) [OF assms(8) room inr] uid_value(1) [OF b(1) _ r'(1)] r'(2) room assms(7) by simp
  then have uid: "rp_uid r' = rp_uid r" by (simp add: word_uint_eq_iff)
  have "r' \<in> set rs" using r'(1) b(9) by blast
  then have e: "map_of (vd_engines vd') (rp_uid r) = Some (E r')" "engine_ok L (E r')" "contents L (E r') = Map.empty"
    using added_engines(1) [OF b(8,10), of r'] b(11) unfolding uid by blast+
  have "VdbEngine_GetVEngine (at_name a) key vd' = Some (Some (rp_uid r))"
    using get r(1,5) e(1) by (simp add: VdbEngine_GetVEngine_def)
  then show ?thesis using that b(2) Get_empty_engine [OF assms(1) _ e] by blast
qed

text \<open>A table added after a restart takes the data of a table from before it away: the counter of replica uids
  starts again, the engines of the new table replace those of the old one that have the same uids, and what
  was stored is no longer found, though it had still been there after the restart.\<close>

theorem new_table_hides_old:
  assumes "leveldb_store (L :: 'db leveldb)" "mkdir_p 256 path" "AddTableParam_ok path a" "AddTableParam_ok path b"
    and "at_name a \<noteq> at_name b" "VecValue_ok vv" "VecValue_dim vv = at_dim a"
    and "at_partition_num a * at_replica_num a \<le> at_partition_num b * at_replica_num b"
  shows "\<exists>(vd :: ('db, 'ann) VdbEngine) vd1 vd2. VdbEngine_new A L path None = Some vd \<and>
    run_vdb A L [AddTableOp a, PutVec (at_name a) key vv, Restart] vd = Some vd1 \<and>
    VdbEngine_Get L (at_name a) key vo vd1 = Some (0, \<lparr>vo_key = key, vo_vv = vv\<rparr>) \<and>
    VdbEngine_AddTable A L b vd1 = Some (0, vd2) \<and>
    VdbEngine_Get L (at_name a) key vo vd2 = Some (-2, vo)"
proof -
  obtain vd :: "('db, 'ann) VdbEngine" where vd: "VdbEngine_new A L path None = Some vd" "vdb_ok L vd" "vd_path vd = path"
    "md_tables (vd_meta vd) = []" "md_uids (vd_meta vd) = process_start" "vdb_map L vd = (\<lambda>_. Map.empty)"
    "table_dim vd = Map.empty"
    by (rule start_fresh [OF assms(1,2)])
  have none: "Metadata_GetTable (at_name a) (vd_meta vd) = None" using vd(4) by (simp add: Metadata_GetTable_def)
  have sound: "vdb_sound L vd" using vd(2) by (simp add: vdb_ok_def)
  then have e: "engines_ok L vd" "vd_disk vd = []" by (simp_all add: vdb_sound_def)
  then have tables: "tables_ok (vd_meta vd)" by (simp add: engines_ok_def)
  have room: "uint (ui_replica (md_uids (vd_meta vd))) + 2 ^ 40 < 2 ^ 64" using vd(5) by (simp add: process_start_def)
  have a_ok: "AddTableParam_ok (vd_path vd) a" "mkdir_p 256 (vd_path vd)" "Suc (length (md_tables (vd_meta vd))) < 2 ^ 20"
    using assms(2,3) vd(3,4) by simp_all
  obtain t u rs E v1 where a: "new_table (vd_path vd) a (md_uids (vd_meta vd)) t u"
    "VdbEngine_AddTable A L a vd = Some (0, v1)" "vd_path v1 = vd_path vd"
    "md_tables (vd_meta v1) = md_tables (vd_meta vd) @ [(at_name a, t)]"
    by (rule AddTable_runs [OF assms(1) tables a_ok none room, where A = A])
      (use vdb_ok_paths [OF e(1)] e(2) in auto)
  obtain v1' where "VdbEngine_AddTable A L a vd = Some (0, v1')" "vdb_ok L v1'"
    "table_dim v1' = (table_dim vd)(at_name a \<mapsto> at_dim a)"
    by (rule AddTable_keeps [OF assms(1) vd(2) a_ok(1,3) none, where A = A])
  with a(2) have v1: "vdb_sound L v1" "table_dim v1 (at_name a) = Some (at_dim a)" by (simp_all add: vdb_ok_def)
  obtain v2 where v2: "VdbEngine_Put L (at_name a) key vv v1 = Some (0, v2)" "vdb_sound L v2" "vd_path v2 = vd_path v1"
    "vd_meta v2 = vd_meta v1" "vdb_map L v2 (at_name a) key = Some vv"
    using Put_keeps [OF assms(1) v1(1) assms(6), of "at_name a" key] v1(2) assms(7) by auto
  obtain v3 where v3: "VdbEngine_new A L (vd_path v2) (Some (VdbEngine_dir v2)) = Some v3" "vdb_sound L v3"
    "vd_path v3 = vd_path v2" "vd_meta v3 = (vd_meta v2)\<lparr>md_uids := process_start\<rparr>"
    "map_of (vd_engines v3) = map_of (vd_engines v2)"
    by (rule restart_keeps [OF assms(1) v2(2), where A = A])
  have e3: "engines_ok L v3" "vd_disk v3 = []" using v3(2) by (simp_all add: vdb_sound_def)
  have "table_dim v3 (at_name a) = Some (at_dim a)" "vdb_map L v3 (at_name a) key = Some vv"
    using v1(2) v2(4,5) v3(4) vdb_map_cong [OF _ v3(5)] by (simp_all add: table_dim_def)
  then have found: "VdbEngine_Get L (at_name a) key vo v3 = Some (0, \<lparr>vo_key = key, vo_vv = vv\<rparr>)"
    using Get_reads [OF assms(1) e3(1)] by simp
  have tabs: "md_tables (vd_meta v3) = [(at_name a, t)]" "md_uids (vd_meta v3) = process_start" "vd_path v3 = path"
    using a(3,4) v2(3,4) v3(3,4) vd(3,4) by simp_all
  obtain v4 where v4: "VdbEngine_AddTable A L b v3 = Some (0, v4)" "VdbEngine_Get L (at_name a) key vo v4 = Some (-2, vo)"
    by (rule added_after_restart [OF assms(1) e3 _ assms(4) [folded tabs(3)] tabs(1,2) a(1) [unfolded vd(5)] assms(5,8), where A = A])
      (use assms(2) tabs(3) in auto)
  have "run_vdb A L [AddTableOp a, PutVec (at_name a) key vv, Restart] vd = Some v3" using a(2) v2(1) v3(1) by simp
  then show ?thesis using vd(1) found v4 by blast
qed

theorem new_table_hides_old_witness:
  "\<exists>vd1 (vd2 :: ((bytes \<times> bytes) list, unit) VdbEngine).
     VdbEngine_Get alist_store (lit ''a'') (lit ''k'') VecObj_empty vd1 = Some (0, \<lparr>vo_key = lit ''k'', vo_vv = sample_value [1, 2]\<rparr>) \<and>
     VdbEngine_AddTable undefined alist_store (sample_table (lit ''b'')) vd1 = Some (0, vd2) \<and>
     VdbEngine_Get alist_store (lit ''a'') (lit ''k'') VecObj_empty vd2 = Some (-2, VecObj_empty)"
proof -
  have names: "at_name (sample_table n) = n" "at_dim (sample_table n) = 2" for n by (simp_all add: sample_table_def)
  have neq: "at_name (sample_table (lit ''a'')) \<noteq> at_name (sample_table (lit ''b''))" by (simp add: names lit_def)
  have size: "at_partition_num (sample_table (lit ''a'')) * at_replica_num (sample_table (lit ''a''))
      \<le> at_partition_num (sample_table (lit ''b'')) * at_replica_num (sample_table (lit ''b''))" by (simp add: sample_table_def)
  have dim: "VecValue_dim (sample_value [1, 2]) = at_dim (sample_table (lit ''a''))" by (simp add: names sample_value_ok)
  from new_table_hides_old [OF alist_store.leveldb_store_axioms sample_table_ok(3,1,2) neq sample_value_ok(1) dim size,
    of undefined "lit ''k''" VecObj_empty]
  show ?thesis unfolding names by blast
qed

end
