(* ===== verification/VdbShell.thy ===== *)
theory VdbShell
  imports VdbParser VdbProps
begin

text \<open>
  The console on a local database (src/src/vectordb/local_console.cc) and the loop it runs in
  (src/src/util/console.cc): a line is parsed, executed on the engine, and its result shown.
\<close>

section \<open>State\<close>

text \<open>What is shown: a text, or the print of an object.\<close>

datatype ('db, 'ann) shown = Text bytes | PrintMeta "('db, 'ann) VdbEngine" | PrintNames Names | PrintTable Table |
  PrintPartition Partition | PrintReplica Replica | PrintEngine "('db, 'ann) VEngine" | PrintVecObj VecObj |
  PrintResults "VecResult list"

record ('db, 'ann) LocalConsole =
  lc_start :: bool
  lc_result :: "('db, 'ann) shown"
  lc_parser :: "Parser option"
  lc_vdb :: "('db, 'ann) VdbEngine"

definition LocalConsole_new :: "'ann annoy \<Rightarrow> 'db leveldb \<Rightarrow> bytes \<Rightarrow> ('db, 'ann) vdb_dir option \<Rightarrow> ('db, 'ann) LocalConsole option" where
  "LocalConsole_new A L path dir = do {
     vdb \<leftarrow> VdbEngine_new A L path dir;
     Some \<lparr>lc_start = False, lc_result = Text [], lc_parser = None, lc_vdb = vdb\<rparr> }"

definition set_result :: "('db, 'ann) shown \<Rightarrow> ('db, 'ann) LocalConsole \<Rightarrow> ('db, 'ann) LocalConsole" where
  "set_result result c = c\<lparr>lc_result := result\<rparr>"

definition LocalConsole_Clear :: "('db, 'ann) LocalConsole \<Rightarrow> ('db, 'ann) LocalConsole" where
  "LocalConsole_Clear c = c\<lparr>lc_parser := None\<rparr>"

definition LocalConsole_Parse :: "cxxopts \<Rightarrow> (bytes \<Rightarrow> f32 option) \<Rightarrow> bytes \<Rightarrow> ('db, 'ann) LocalConsole \<Rightarrow>
    (int \<times> ('db, 'ann) LocalConsole) option" where
  "LocalConsole_Parse opts sscanf cmd_line c = do {
     let c = LocalConsole_Clear c;
     p \<leftarrow> Parser_new opts sscanf cmd_line;
     Some (0, c\<lparr>lc_parser := Some p\<rparr>) }"

section \<open>Commands\<close>

text \<open>Answers to codes of the engine, and the guard that every command has.\<close>

definition ok_or_error :: "int \<Rightarrow> ('db, 'ann) shown" where
  "ok_or_error rv = (if rv = 0 then Text (lit ''ok'') else Text (lit ''error''))"

definition with_parser :: "(Parser \<Rightarrow> ('db, 'ann) LocalConsole \<Rightarrow> ('db, 'ann) LocalConsole option) \<Rightarrow>
    ('db, 'ann) LocalConsole \<Rightarrow> ('db, 'ann) LocalConsole option" where
  "with_parser f c = (case lc_parser c of Some p \<Rightarrow> f p c | None \<Rightarrow> Some c)"

definition LocalConsole_Help :: "('db, 'ann) LocalConsole \<Rightarrow> ('db, 'ann) LocalConsole" where
  "LocalConsole_Help c = set_result (Text HelpStr) c"

definition LocalConsole_Error :: "('db, 'ann) LocalConsole \<Rightarrow> ('db, 'ann) LocalConsole" where
  "LocalConsole_Error c = set_result (Text (lit ''error command'')) c"

definition LocalConsole_Quit :: "('db, 'ann) LocalConsole \<Rightarrow> ('db, 'ann) LocalConsole" where
  "LocalConsole_Quit c = (LocalConsole_Clear c)\<lparr>lc_start := False\<rparr>"

definition VECTORDB_VERSION :: bytes where
  "VECTORDB_VERSION = lit ''v0.11''"

definition LocalConsole_Version :: "('db, 'ann) LocalConsole \<Rightarrow> ('db, 'ann) LocalConsole" where
  "LocalConsole_Version c = set_result (Text VECTORDB_VERSION) c"

definition LocalConsole_Meta :: "('db, 'ann) LocalConsole \<Rightarrow> ('db, 'ann) LocalConsole" where
  "LocalConsole_Meta c = set_result (PrintMeta (lc_vdb c)) c"

definition LocalConsole_CreateTable :: "'ann annoy \<Rightarrow> 'db leveldb \<Rightarrow> ('db, 'ann) LocalConsole \<Rightarrow> ('db, 'ann) LocalConsole option" where
  "LocalConsole_CreateTable A L = with_parser (\<lambda>p c. do {
     (rv, vdb) \<leftarrow> VdbEngine_AddTable A L
       \<lparr>at_name = ps_name p, at_partition_num = ps_partition_num p, at_replica_num = ps_replica_num p, at_dim = ps_dim p\<rparr> (lc_vdb c);
     Some (set_result (ok_or_error rv) (c\<lparr>lc_vdb := vdb\<rparr>)) })"

text \<open>\<open>files\<close> gives the lines of a file that can be opened.\<close>

definition LocalConsole_Load :: "'db leveldb \<Rightarrow> (bytes \<Rightarrow> f32 option) \<Rightarrow> (bytes \<Rightarrow> bytes list option) \<Rightarrow> ('db, 'ann) LocalConsole \<Rightarrow>
    ('db, 'ann) LocalConsole option" where
  "LocalConsole_Load L sscanf files = with_parser (\<lambda>p c. do {
     (rv, vdb) \<leftarrow> VdbEngine_Load L sscanf (ps_table p) (files (ps_file p)) (lc_vdb c);
     Some (set_result (ok_or_error rv) (c\<lparr>lc_vdb := vdb\<rparr>)) })"

definition LocalConsole_GetKNN :: "'ann annoy \<Rightarrow> 'db leveldb \<Rightarrow> ('db, 'ann) LocalConsole \<Rightarrow> ('db, 'ann) LocalConsole option" where
  "LocalConsole_GetKNN A L = with_parser (\<lambda>p c. do {
     (rv, results) \<leftarrow> (if ps_key p \<noteq> [] then VdbEngine_GetKNN_key A L (ps_table p) (ps_key p) [] (ps_limit p) (lc_vdb c)
                       else VdbEngine_GetKNN_vec A L (ps_table p) (ps_vec p) [] (ps_limit p) (lc_vdb c));
     Some (set_result (if rv = 0 then PrintResults results else Text (lit ''error'')) c) })"

definition LocalConsole_BuildIndex :: "'ann annoy \<Rightarrow> 'db leveldb \<Rightarrow> u64 \<Rightarrow> ('db, 'ann) LocalConsole \<Rightarrow> ('db, 'ann) LocalConsole option" where
  "LocalConsole_BuildIndex A L now = with_parser (\<lambda>p c.
     (case Metadata_GetTable (ps_table p) (vd_meta (lc_vdb c)) of
        None \<Rightarrow> Some c
      | Some table \<Rightarrow> do {
          (rv, vdb) \<leftarrow> VdbEngine_AddIndex A L (ps_table p)
            \<lparr>ai_timestamp = now, ai_dim = tb_dim table, ai_index_type = kIndexAnnoy, ai_distance_type = kCosine,
             ai_annoy_tree_num = ps_annoy_tree_num p\<rparr> (lc_vdb c);
          Some (set_result (ok_or_error rv) (c\<lparr>lc_vdb := vdb\<rparr>)) }))"

definition Names_empty :: Names where
  "Names_empty = \<lparr>nm_names = []\<rparr>"

definition LocalConsole_ShowTables :: "('db, 'ann) LocalConsole \<Rightarrow> ('db, 'ann) LocalConsole option" where
  "LocalConsole_ShowTables = with_parser (\<lambda>p c. Some (set_result (PrintNames (Metadata_Tables (vd_meta (lc_vdb c)) Names_empty)) c))"

definition LocalConsole_ShowPartitions :: "('db, 'ann) LocalConsole \<Rightarrow> ('db, 'ann) LocalConsole option" where
  "LocalConsole_ShowPartitions = with_parser (\<lambda>p c. do {
     names \<leftarrow> Metadata_Partitions (vd_meta (lc_vdb c)) Names_empty;
     Some (set_result (PrintNames names) c) })"

definition LocalConsole_ShowReplicas :: "('db, 'ann) LocalConsole \<Rightarrow> ('db, 'ann) LocalConsole option" where
  "LocalConsole_ShowReplicas = with_parser (\<lambda>p c. do {
     names \<leftarrow> Metadata_Replicas (vd_meta (lc_vdb c)) Names_empty;
     Some (set_result (PrintNames names) c) })"

text \<open>An object that is not there leaves the result as it is.\<close>

definition show_if :: "('x \<Rightarrow> ('db, 'ann) shown) \<Rightarrow> 'x option \<Rightarrow> ('db, 'ann) LocalConsole \<Rightarrow> ('db, 'ann) LocalConsole" where
  "show_if print x c = (case x of Some v \<Rightarrow> set_result (print v) c | None \<Rightarrow> c)"

definition LocalConsole_DescTable :: "('db, 'ann) LocalConsole \<Rightarrow> ('db, 'ann) LocalConsole option" where
  "LocalConsole_DescTable = with_parser (\<lambda>p c. Some (show_if PrintTable (Metadata_GetTable (ps_name p) (vd_meta (lc_vdb c))) c))"

definition LocalConsole_DescPartition :: "('db, 'ann) LocalConsole \<Rightarrow> ('db, 'ann) LocalConsole option" where
  "LocalConsole_DescPartition = with_parser (\<lambda>p c. do {
     x \<leftarrow> Metadata_GetPartition (ps_name p) (vd_meta (lc_vdb c));
     Some (show_if PrintPartition x c) })"

definition LocalConsole_DescDescReplica :: "('db, 'ann) LocalConsole \<Rightarrow> ('db, 'ann) LocalConsole option" where
  "LocalConsole_DescDescReplica = with_parser (\<lambda>p c. do {
     x \<leftarrow> Metadata_GetReplica (ps_name p) (vd_meta (lc_vdb c));
     Some (show_if PrintReplica x c) })"

definition LocalConsole_DescDescEngine :: "('db, 'ann) LocalConsole \<Rightarrow> ('db, 'ann) LocalConsole option" where
  "LocalConsole_DescDescEngine = with_parser (\<lambda>p c. do {
     x \<leftarrow> VdbEngine_GetVEngine_replica (ps_name p) (lc_vdb c);
     Some (show_if PrintEngine x c) })"

definition LocalConsole_Get :: "'db leveldb \<Rightarrow> ('db, 'ann) LocalConsole \<Rightarrow> ('db, 'ann) LocalConsole option" where
  "LocalConsole_Get L = with_parser (\<lambda>p c. do {
     (rv, vo) \<leftarrow> VdbEngine_Get L (ps_table p) (ps_key p) VecObj_empty (lc_vdb c);
     Some (set_result (if rv = 0 then PrintVecObj vo else Text (lit ''error'')) c) })"

definition LocalConsole_Put :: "'db leveldb \<Rightarrow> ('db, 'ann) LocalConsole \<Rightarrow> ('db, 'ann) LocalConsole option" where
  "LocalConsole_Put L = with_parser (\<lambda>p c. do {
     (rv, vdb) \<leftarrow> VdbEngine_Put L (ps_table p) (ps_key p)
       \<lparr>vv_vec = \<lparr>vec_data = ps_vec p\<rparr>, vv_attach_value = ps_attach_value p\<rparr> (lc_vdb c);
     Some (set_result (ok_or_error rv) (c\<lparr>lc_vdb := vdb\<rparr>)) })"

definition LocalConsole_Delete :: "'db leveldb \<Rightarrow> ('db, 'ann) LocalConsole \<Rightarrow> ('db, 'ann) LocalConsole option" where
  "LocalConsole_Delete L = with_parser (\<lambda>p c. do {
     (rv, vdb) \<leftarrow> VdbEngine_Delete L (ps_table p) (ps_key p) (lc_vdb c);
     Some (set_result (ok_or_error rv) (c\<lparr>lc_vdb := vdb\<rparr>)) })"

definition LocalConsole_Execute :: "'ann annoy \<Rightarrow> 'db leveldb \<Rightarrow> (bytes \<Rightarrow> f32 option) \<Rightarrow> (bytes \<Rightarrow> bytes list option) \<Rightarrow> u64 \<Rightarrow>
    ('db, 'ann) LocalConsole \<Rightarrow> ('db, 'ann) LocalConsole option" where
  "LocalConsole_Execute A L sscanf files now c =
     (case lc_parser c of
        None \<Rightarrow> Some c
      | Some p \<Rightarrow> (case ps_cmd p of
          kCmdError \<Rightarrow> Some (LocalConsole_Error c)
        | kCmdHelp \<Rightarrow> Some (LocalConsole_Help c)
        | kCmdVersion \<Rightarrow> Some (LocalConsole_Version c)
        | kCmdQuit \<Rightarrow> Some (LocalConsole_Quit c)
        | kCmdMeta \<Rightarrow> Some (LocalConsole_Meta c)
        | kCmdPut \<Rightarrow> LocalConsole_Put L c
        | VectordbCmd.kCmdGet \<Rightarrow> LocalConsole_Get L c
        | kCmdDelete \<Rightarrow> LocalConsole_Delete L c
        | kCmdGetKNN \<Rightarrow> LocalConsole_GetKNN A L c
        | kCmdLoad \<Rightarrow> LocalConsole_Load L sscanf files c
        | kCmdCreateTable \<Rightarrow> LocalConsole_CreateTable A L c
        | kCmdBuildIndex \<Rightarrow> LocalConsole_BuildIndex A L now c
        | kDescTable \<Rightarrow> LocalConsole_DescTable c
        | kDescPartition \<Rightarrow> LocalConsole_DescPartition c
        | kDescDescReplica \<Rightarrow> LocalConsole_DescDescReplica c
        | kDescDescEngine \<Rightarrow> LocalConsole_DescDescEngine c
        | kShowTables \<Rightarrow> LocalConsole_ShowTables c
        | kShowPartitions \<Rightarrow> LocalConsole_ShowPartitions c
        | kShowReplicas \<Rightarrow> LocalConsole_ShowReplicas c
        | _ \<Rightarrow> Some (LocalConsole_Error c)))"

section \<open>The loop\<close>

text \<open>The lines typed, each with the time it is executed at, and what is shown for them. The result is ready
  when \<^verbatim>\<open>Execute\<close> returns, so there is nothing to wait for.\<close>

definition Console_Reset :: "('db, 'ann) LocalConsole \<Rightarrow> ('db, 'ann) LocalConsole" where
  "Console_Reset c = set_result (Text []) c"

fun Console_loop :: "'ann annoy \<Rightarrow> 'db leveldb \<Rightarrow> cxxopts \<Rightarrow> (bytes \<Rightarrow> f32 option) \<Rightarrow> (bytes \<Rightarrow> bytes list option) \<Rightarrow> (bytes \<times> u64) list \<Rightarrow>
    ('db, 'ann) LocalConsole \<Rightarrow> (('db, 'ann) shown list \<times> ('db, 'ann) LocalConsole) option" where
  "Console_loop A L opts sscanf files [] c =
     Some (if lc_start c then ([Text (lit ''error input or eof ...'')], Console_Reset c) else ([], c))"
| "Console_loop A L opts sscanf files ((cmd_line, now) # input) c =
     (if \<not> lc_start c then Some ([], c)
      else do {
        let c = Console_Reset c;
        if cmd_line = [] then Console_loop A L opts sscanf files input c
        else do {
          (rv, c) \<leftarrow> LocalConsole_Parse opts sscanf cmd_line c;
          if rv \<noteq> 0 then Console_loop A L opts sscanf files input c
          else do {
            c \<leftarrow> LocalConsole_Execute A L sscanf files now c;
            (shown, c') \<leftarrow> Console_loop A L opts sscanf files input c;
            Some (lc_result c # shown, c') } } })"

definition Console_Run :: "'ann annoy \<Rightarrow> 'db leveldb \<Rightarrow> cxxopts \<Rightarrow> (bytes \<Rightarrow> f32 option) \<Rightarrow> (bytes \<Rightarrow> bytes list option) \<Rightarrow> (bytes \<times> u64) list \<Rightarrow>
    ('db, 'ann) LocalConsole \<Rightarrow> (('db, 'ann) shown list \<times> ('db, 'ann) LocalConsole) option" where
  "Console_Run A L opts sscanf files input c = Console_loop A L opts sscanf files input (c\<lparr>lc_start := True\<rparr>)"

section \<open>Lines and what they do\<close>

definition create_line :: "bytes \<Rightarrow> nat \<Rightarrow> nat \<Rightarrow> nat \<Rightarrow> bytes" where
  "create_line table partitions replicas dim = line_of (lit ''create'') (lit ''table'' # map option_arg
     [(lit ''name'', table), (lit ''partition_num'', dec_nat partitions), (lit ''replica_num'', dec_nat replicas), (lit ''dim'', dec_nat dim)])"

definition put_line :: "bytes \<Rightarrow> bytes \<Rightarrow> bytes \<Rightarrow> bytes \<Rightarrow> bytes" where
  "put_line table key vec attach = line_of (lit ''put'') (map option_arg
     [(lit ''table'', table), (lit ''key'', key), (lit ''vec'', vec), (lit ''attach_value'', attach)])"

definition key_line :: "bytes \<Rightarrow> bytes \<Rightarrow> bytes \<Rightarrow> bytes" where
  "key_line cmd table key = line_of cmd (map option_arg [(lit ''table'', table), (lit ''key'', key)])"

lemma option_ok_string:
  "plain_word v \<Longrightarrow> n \<in> {''name'', ''key'', ''attach_value'', ''vec'', ''table'', ''file''} \<Longrightarrow> option_ok parser_options (lit n, v)"
  by (auto simp: option_ok_def kind_of_def parser_options_def lit_def)

lemma option_ok_number:
  assumes "n < 10 ^ 9" "x \<in> {''partition_num'', ''replica_num'', ''dim'', ''annoy_tree_num'', ''limit''}"
  shows "option_ok parser_options (lit x, dec_nat n)"
proof -
  have "length (dec_nat n) < 10" using dec_nat_length [OF assms(1)] by simp
  moreover have "plain_word (dec_nat n)"
    using dec_nat_nonempty [of n] dec_nat_digits [of n]
    by (auto simp: plain_word_def list_all_iff is_digit_def is_space_def word_le_def)
  ultimately show ?thesis
    using assms(2) dec_nat_digits [of n] by (auto simp: option_ok_def kind_of_def parser_options_def lit_def)
qed

lemma last_digit: "last (dec_nat n) \<noteq> 0x3B"
proof -
  have "last (dec_nat n) \<in> set (dec_nat n)" using dec_nat_nonempty by (rule last_in_set)
  then show ?thesis using digit_chars [of "0x3B" n] by (auto simp: is_digit_def word_le_def)
qed

lemmas options_taken = take_options_def option_values_def kind_of_def parser_options_def lit_def

lemma kCmds: "kCmdCreateTable \<noteq> kCmdError" "kCmdPut \<noteq> kCmdError"
  by simp_all

lemma parse_create:
  assumes "cxxopts_lib opts" "plain_word table" "partitions < 10 ^ 9" "replicas < 10 ^ 9" "dim < 10 ^ 9"
  obtains p where "Parser_new opts sscanf (create_line table partitions replicas dim) = Some p" "ps_cmd p = kCmdCreateTable"
    "ps_name p = table" "ps_partition_num p = int partitions" "ps_replica_num p = int replicas" "ps_dim p = int dim"
proof -
  let ?xs = "[(lit ''name'', table), (lit ''partition_num'', dec_nat partitions), (lit ''replica_num'', dec_nat replicas), (lit ''dim'', dec_nat dim)]"
  have ok: "list_all (option_ok parser_options) ?xs" using assms by (simp add: option_ok_string option_ok_number)
  have words: "plain_word (lit ''create'')" "plain_word (lit ''table'')" by (simp_all add: plain_word_def lit_def is_space_def)
  have plain: "list_all plain_word (lit ''create'' # lit ''table'' # map option_arg ?xs)" "list_all plain_word (map option_arg ?xs)"
    using option_words [OF ok words(2)] words(1) by simp_all
  have last: "last (last (lit ''create'' # lit ''table'' # map option_arg ?xs)) \<noteq> 0x3B"
    using ok last_digit [of dim] option_word(2) [of "(lit ''dim'', dec_nat dim)"] by simp
  have dist: "distinct (map fst ?xs)" by (simp add: lit_def)
  have cmd: "GetCmd (line_of (lit ''create'') (lit ''table'' # map option_arg ?xs)) = Some (kCmdCreateTable, lit ''kCmdCreateTable'' # map option_arg ?xs)"
    by (rule GetCmd_create [OF plain(2)]) simp
  have "\<exists>p. Parser_new opts sscanf (create_line table partitions replicas dim) = Some p \<and> ps_cmd p = kCmdCreateTable \<and>
      ps_name p = table \<and> ps_partition_num p = int partitions \<and> ps_replica_num p = int replicas \<and> ps_dim p = int dim"
    unfolding create_line_def Parser_new_command [OF assms(1) plain(1) last cmd kCmds(1) ok dist]
    by (simp add: options_taken dec_nat_value)
  then show ?thesis using that by blast
qed

lemma parse_put:
  assumes "cxxopts_lib opts" "list_all plain_word [table, key, vec, attach]" "last attach \<noteq> 0x3B" "scan_floats sscanf vec = Some fs"
  obtains p where "Parser_new opts sscanf (put_line table key vec attach) = Some p" "ps_cmd p = kCmdPut"
    "ps_table p = table" "ps_key p = key" "ps_vec p = fs" "ps_attach_value p = attach"
proof -
  let ?xs = "[(lit ''table'', table), (lit ''key'', key), (lit ''vec'', vec), (lit ''attach_value'', attach)]"
  have ok: "list_all (option_ok parser_options) ?xs" using assms(2) by (simp add: option_ok_string)
  have "plain_word (lit ''put'')" by (simp add: plain_word_def lit_def is_space_def)
  note plain = option_words [OF ok this]
  have last: "last (last (lit ''put'' # map option_arg ?xs)) \<noteq> 0x3B"
    using ok assms(3) option_word(2) [of "(lit ''attach_value'', attach)"] by simp
  have dist: "distinct (map fst ?xs)" by (simp add: lit_def)
  have cmd: "GetCmd (line_of (lit ''put'') (map option_arg ?xs)) = Some (kCmdPut, lit ''put'' # map option_arg ?xs)"
    by (rule GetCmd_whole_line [OF plain]) auto
  have "\<exists>p. Parser_new opts sscanf (put_line table key vec attach) = Some p \<and> ps_cmd p = kCmdPut \<and>
      ps_table p = table \<and> ps_key p = key \<and> ps_vec p = fs \<and> ps_attach_value p = attach"
    using assms(4) unfolding put_line_def Parser_new_command [OF assms(1) plain last cmd kCmds(2) ok dist]
    by (simp add: options_taken)
  then show ?thesis using that by blast
qed

lemma parse_key:
  assumes "cxxopts_lib opts" "list_all plain_word [table, key]" "last key \<noteq> 0x3B"
    and "(w, cmd) \<in> {(lit ''get'', VectordbCmd.kCmdGet), (lit ''del'', kCmdDelete)}"
  obtains p where "Parser_new opts sscanf (key_line w table key) = Some p" "ps_cmd p = cmd" "ps_table p = table" "ps_key p = key"
proof -
  let ?xs = "[(lit ''table'', table), (lit ''key'', key)]"
  have ok: "list_all (option_ok parser_options) ?xs" using assms(2) by (simp add: option_ok_string)
  have "plain_word w" using assms(4) by (auto simp: plain_word_def lit_def is_space_def)
  note plain = option_words [OF ok this]
  have last: "last (last (w # map option_arg ?xs)) \<noteq> 0x3B"
    using ok assms(3) option_word(2) [of "(lit ''key'', key)"] by simp
  have dist: "distinct (map fst ?xs)" by (simp add: lit_def)
  have cmd: "GetCmd (line_of w (map option_arg ?xs)) = Some (cmd, w # map option_arg ?xs)"
    by (rule GetCmd_whole_line [OF plain]) (use assms(4) in auto)
  have "cmd \<noteq> kCmdError" using assms(4) by auto
  then have "\<exists>p. Parser_new opts sscanf (key_line w table key) = Some p \<and> ps_cmd p = cmd \<and> ps_table p = table \<and> ps_key p = key"
    unfolding key_line_def Parser_new_command [OF assms(1) plain last cmd \<open>cmd \<noteq> kCmdError\<close> ok dist]
    by (simp add: options_taken)
  then show ?thesis using that by blast
qed

lemmas console_defs = LocalConsole_Execute_def LocalConsole_CreateTable_def LocalConsole_Put_def LocalConsole_Get_def
  LocalConsole_Delete_def with_parser_def set_result_def Console_Reset_def ok_or_error_def

text \<open>What is shown for a line, and the console after it.\<close>

definition shows_line :: "'ann annoy \<Rightarrow> 'db leveldb \<Rightarrow> cxxopts \<Rightarrow> (bytes \<Rightarrow> f32 option) \<Rightarrow> (bytes \<Rightarrow> bytes list option) \<Rightarrow> bytes \<times> u64 \<Rightarrow>
    ('db, 'ann) LocalConsole \<Rightarrow> ('db, 'ann) shown \<Rightarrow> ('db, 'ann) LocalConsole \<Rightarrow> bool" where
  "shows_line A L opts sscanf files x c s c1 \<longleftrightarrow> lc_start c1 \<and>
     (\<forall>input. Console_loop A L opts sscanf files (x # input) c = do {
        (shown, c') \<leftarrow> Console_loop A L opts sscanf files input c1;
        Some (s # shown, c') })"

lemma shows_lineI:
  assumes "lc_start c" "Parser_new opts sscanf line = Some p" "line \<noteq> []"
    and "LocalConsole_Execute A L sscanf files now ((Console_Reset c)\<lparr>lc_parser := Some p\<rparr>) = Some c1"
    and "lc_start c1" "lc_result c1 = s"
  shows "shows_line A L opts sscanf files (line, now) c s c1"
  using assms by (simp add: shows_line_def LocalConsole_Parse_def LocalConsole_Clear_def Console_Reset_def set_result_def)

lemma line_nonempty: "line_of w ws = [] \<longleftrightarrow> w = [] \<and> ws = []"
  by (cases ws) (auto simp: line_of_def)

lemma shows_create:
  assumes "cxxopts_lib opts" "plain_word table" "partitions < 10 ^ 9" "replicas < 10 ^ 9" "dim < 10 ^ 9" "lc_start c"
    and "VdbEngine_AddTable A L \<lparr>at_name = table, at_partition_num = int partitions, at_replica_num = int replicas, at_dim = int dim\<rparr> (lc_vdb c) = Some (rv, vd)"
  shows "\<exists>c1. shows_line A L opts sscanf files (create_line table partitions replicas dim, now) c (ok_or_error rv) c1 \<and> lc_vdb c1 = vd"
proof -
  obtain p where p: "Parser_new opts sscanf (create_line table partitions replicas dim) = Some p" "ps_cmd p = kCmdCreateTable"
    "ps_name p = table" "ps_partition_num p = int partitions" "ps_replica_num p = int replicas" "ps_dim p = int dim"
    by (rule parse_create [OF assms(1-5)])
  show ?thesis
    by (intro exI [of _ "set_result (ok_or_error rv) ((Console_Reset c)\<lparr>lc_parser := Some p, lc_vdb := vd\<rparr>)"] conjI shows_lineI [OF assms(6) p(1)])
      (use assms(6,7) p in \<open>simp_all add: console_defs create_line_def line_nonempty\<close>)
qed

lemma shows_put:
  assumes "cxxopts_lib opts" "list_all plain_word [table, key, vec, attach]" "last attach \<noteq> 0x3B" "scan_floats sscanf vec = Some fs"
    and "lc_start c" "VdbEngine_Put L table key \<lparr>vv_vec = \<lparr>vec_data = fs\<rparr>, vv_attach_value = attach\<rparr> (lc_vdb c) = Some (rv, vd)"
  shows "\<exists>c1. shows_line A L opts sscanf files (put_line table key vec attach, now) c (ok_or_error rv) c1 \<and> lc_vdb c1 = vd"
proof -
  obtain p where p: "Parser_new opts sscanf (put_line table key vec attach) = Some p" "ps_cmd p = kCmdPut"
    "ps_table p = table" "ps_key p = key" "ps_vec p = fs" "ps_attach_value p = attach"
    by (rule parse_put [OF assms(1-4)])
  show ?thesis
    by (intro exI [of _ "set_result (ok_or_error rv) ((Console_Reset c)\<lparr>lc_parser := Some p, lc_vdb := vd\<rparr>)"] conjI shows_lineI [OF assms(5) p(1)])
      (use assms(5,6) p in \<open>simp_all add: console_defs put_line_def line_nonempty\<close>)
qed

lemma shows_get:
  assumes "cxxopts_lib opts" "list_all plain_word [table, key]" "last key \<noteq> 0x3B" "lc_start c"
    and "VdbEngine_Get L table key VecObj_empty (lc_vdb c) = Some (rv, vo)"
  shows "\<exists>c1. shows_line A L opts sscanf files (key_line (lit ''get'') table key, now) c
    (if rv = 0 then PrintVecObj vo else Text (lit ''error'')) c1 \<and> lc_vdb c1 = lc_vdb c"
proof -
  obtain p where p: "Parser_new opts sscanf (key_line (lit ''get'') table key) = Some p" "ps_cmd p = VectordbCmd.kCmdGet"
    "ps_table p = table" "ps_key p = key"
    by (rule parse_key [OF assms(1-3)]) auto
  show ?thesis
    by (intro exI [of _ "set_result (if rv = 0 then PrintVecObj vo else Text (lit ''error'')) ((Console_Reset c)\<lparr>lc_parser := Some p\<rparr>)"] conjI shows_lineI [OF assms(4) p(1)])
      (use assms(4,5) p in \<open>simp_all add: console_defs key_line_def line_nonempty\<close>)
qed

lemma shows_delete:
  assumes "cxxopts_lib opts" "list_all plain_word [table, key]" "last key \<noteq> 0x3B" "lc_start c"
    and "VdbEngine_Delete L table key (lc_vdb c) = Some (rv, vd)"
  shows "\<exists>c1. shows_line A L opts sscanf files (key_line (lit ''del'') table key, now) c (ok_or_error rv) c1 \<and> lc_vdb c1 = vd"
proof -
  obtain p where p: "Parser_new opts sscanf (key_line (lit ''del'') table key) = Some p" "ps_cmd p = kCmdDelete"
    "ps_table p = table" "ps_key p = key"
    by (rule parse_key [OF assms(1-3), where w = "lit ''del''" and cmd = kCmdDelete]) auto
  show ?thesis
    by (intro exI [of _ "set_result (ok_or_error rv) ((Console_Reset c)\<lparr>lc_parser := Some p, lc_vdb := vd\<rparr>)"] conjI shows_lineI [OF assms(4) p(1)])
      (use assms(4,5) p in \<open>simp_all add: console_defs key_line_def line_nonempty\<close>)
qed

section \<open>A session on the database\<close>

lemma session_database:
  assumes "leveldb_store (L :: 'db leveldb)" "mkdir_p 256 path" "AddTableParam_ok path p" "VecValue_ok vv" "VecValue_dim vv = at_dim p"
  obtains vd :: "('db, 'ann) VdbEngine" and v1 v2 v3
  where "VdbEngine_new A L path None = Some vd" "VdbEngine_AddTable A L p vd = Some (0, v1)"
    "VdbEngine_Put L (at_name p) k vv v1 = Some (0, v2)"
    "VdbEngine_Get L (at_name p) k VecObj_empty v2 = Some (0, \<lparr>vo_key = k, vo_vv = vv\<rparr>)"
    "VdbEngine_Delete L (at_name p) k v2 = Some (0, v3)" "VdbEngine_Get L (at_name p) k VecObj_empty v3 = Some (-2, VecObj_empty)"
proof -
  let ?t = "at_name p"
  obtain vd :: "('db, 'ann) VdbEngine" where vd: "VdbEngine_new A L path None = Some vd" "vdb_ok L vd" "vd_path vd = path"
    "md_tables (vd_meta vd) = []" "md_uids (vd_meta vd) = process_start" "vdb_map L vd = (\<lambda>_. Map.empty)"
    "table_dim vd = Map.empty"
    by (rule start_fresh [OF assms(1,2)])
  have pre: "AddTableParam_ok (vd_path vd) p" "Suc (length (md_tables (vd_meta vd))) < 2 ^ 20"
    "Metadata_GetTable ?t (vd_meta vd) = None"
    using assms(3) vd(3,4) by (simp_all add: Metadata_GetTable_def)
  obtain v1 where v1: "VdbEngine_AddTable A L p vd = Some (0, v1)" "vdb_ok L v1"
    "table_dim v1 = (table_dim vd)(?t \<mapsto> at_dim p)"
    by (rule AddTable_keeps [OF assms(1) vd(2) pre, where A = A])
  then have sound: "vdb_sound L v1" and d1: "table_dim v1 ?t = Some (at_dim p)" by (simp_all add: vdb_ok_def)
  obtain v2 where v2: "VdbEngine_Put L ?t k vv v1 = Some (0, v2)" "vdb_sound L v2" "vd_meta v2 = vd_meta v1"
    "vdb_map L v2 ?t k = Some vv"
    using Put_keeps [OF assms(1) sound assms(4), of ?t k] d1 assms(5) by auto
  have e2: "engines_ok L v2" and d2: "table_dim v2 ?t = Some (at_dim p)"
    using d1 v2(2,3) by (simp_all add: table_dim_def vdb_sound_def)
  obtain v3 where v3: "VdbEngine_Delete L ?t k v2 = Some (0, v3)" "vdb_sound L v3" "vd_meta v3 = vd_meta v2" "vdb_map L v3 ?t k = None"
    using Delete_keeps [OF assms(1) v2(2), of ?t k] d2 by auto
  have e3: "engines_ok L v3" and d3: "table_dim v3 ?t = Some (at_dim p)" using v3(2,3) d2 by (simp_all add: vdb_sound_def table_dim_def)
  have "VdbEngine_Get L ?t k VecObj_empty v2 = Some (0, \<lparr>vo_key = k, vo_vv = vv\<rparr>)"
    "VdbEngine_Get L ?t k VecObj_empty v3 = Some (-2, VecObj_empty)"
    using Get_reads [OF assms(1) e2] d2 v2(4) Get_reads [OF assms(1) e3] d3 v3(4) by simp_all
  then show ?thesis by (rule that [OF vd(1) v1(1) v2(1) _ v3(1)])
qed

section \<open>Properties\<close>

text \<open>C19. A session at the console: on a new database a table is created, a vector is put, read, deleted and looked for
  again. Each line is parsed into the command that was typed and executed, and what is shown is
  \<^verbatim>\<open>ok\<close>, \<^verbatim>\<open>ok\<close>, the vector with its attachment, \<^verbatim>\<open>ok\<close>, and \<^verbatim>\<open>error\<close> for the key that is gone.\<close>

theorem console_session:
  assumes "leveldb_store (L :: 'db leveldb)" "cxxopts_lib opts" "mkdir_p 256 path"
    and "AddTableParam_ok path \<lparr>at_name = t, at_partition_num = int n, at_replica_num = int r, at_dim = int d\<rparr>" "d < 10 ^ 9"
    and "list_all plain_word [t, k, v, a]" "last k \<noteq> 0x3B" "last a \<noteq> 0x3B" "scan_floats sscanf v = Some fs" "length fs = d"
    and "VecValue_ok \<lparr>vv_vec = \<lparr>vec_data = fs\<rparr>, vv_attach_value = a\<rparr>"
  shows "\<exists>(c :: ('db, 'ann) LocalConsole) c'. LocalConsole_new A L path None = Some c \<and>
    Console_Run A L opts sscanf files
      [(create_line t n r d, now), (put_line t k v a, now), (key_line (lit ''get'') t k, now),
       (key_line (lit ''del'') t k, now), (key_line (lit ''get'') t k, now)] c =
    Some ([Text (lit ''ok''), Text (lit ''ok''),
       PrintVecObj \<lparr>vo_key = k, vo_vv = \<lparr>vv_vec = \<lparr>vec_data = fs\<rparr>, vv_attach_value = a\<rparr>\<rparr>,
       Text (lit ''ok''), Text (lit ''error''), Text (lit ''error input or eof ...'')], c')"
proof -
  let ?p = "\<lparr>at_name = t, at_partition_num = int n, at_replica_num = int r, at_dim = int d\<rparr>"
  let ?vv = "\<lparr>vv_vec = \<lparr>vec_data = fs\<rparr>, vv_attach_value = a\<rparr>"
  have dim: "VecValue_dim ?vv = at_dim ?p" using assms(10,11) by (simp add: VecValue_dim_def Vec_dim_ok VecValue_ok_def)
  obtain vd :: "('db, 'ann) VdbEngine" and v1 v2 v3 where vd: "VdbEngine_new A L path None = Some vd"
    "VdbEngine_AddTable A L ?p vd = Some (0, v1)" "VdbEngine_Put L t k ?vv v1 = Some (0, v2)"
    "VdbEngine_Get L t k VecObj_empty v2 = Some (0, \<lparr>vo_key = k, vo_vv = ?vv\<rparr>)"
    "VdbEngine_Delete L t k v2 = Some (0, v3)" "VdbEngine_Get L t k VecObj_empty v3 = Some (-2, VecObj_empty)"
    by (rule session_database [OF assms(1,3,4,11) dim, where A = A and k = k, unfolded AddTableParam.select_convs])
  let ?c = "\<lparr>lc_start = False, lc_result = Text [], lc_parser = None, lc_vdb = vd\<rparr>"
  have new: "LocalConsole_new A L path None = Some ?c" using vd(1) by (simp add: LocalConsole_new_def)
  have nums: "n < 10 ^ 9" "r < 10 ^ 9" using assms(4) by (simp_all add: AddTableParam_ok_def TableParam_ok_def table_param_def)
  have words: "plain_word t" "list_all plain_word [t, k]" using assms(6) by simp_all
  note lines = shows_line_def [of A L opts sscanf files]
  obtain c1 where c1: "shows_line A L opts sscanf files (create_line t n r d, now) (?c\<lparr>lc_start := True\<rparr>) (ok_or_error 0) c1" "lc_vdb c1 = v1"
    using shows_create [OF assms(2) words(1) nums assms(5), of "?c\<lparr>lc_start := True\<rparr>" A L 0 v1 sscanf files now] vd(2) by auto
  obtain c2 where c2: "shows_line A L opts sscanf files (put_line t k v a, now) c1 (ok_or_error 0) c2" "lc_vdb c2 = v2"
    using shows_put [OF assms(2,6,8,9), of c1 L 0 v2 A files now] c1 vd(3) by (auto simp: lines)
  obtain c3 where c3: "shows_line A L opts sscanf files (key_line (lit ''get'') t k, now) c2 (PrintVecObj \<lparr>vo_key = k, vo_vv = ?vv\<rparr>) c3" "lc_vdb c3 = v2"
    using shows_get [OF assms(2) words(2) assms(7), of c2 L 0 _ A sscanf files now] c2 vd(4) by (auto simp: lines)
  obtain c4 where c4: "shows_line A L opts sscanf files (key_line (lit ''del'') t k, now) c3 (ok_or_error 0) c4" "lc_vdb c4 = v3"
    using shows_delete [OF assms(2) words(2) assms(7), of c3 L 0 v3 A sscanf files now] c3 vd(5) by (auto simp: lines)
  obtain c5 where c5: "shows_line A L opts sscanf files (key_line (lit ''get'') t k, now) c4 (Text (lit ''error'')) c5" "lc_vdb c5 = v3"
    using shows_get [OF assms(2) words(2) assms(7), of c4 L "-2" _ A sscanf files now] c4 vd(6) by (auto simp: lines)
  show ?thesis
    using new c1(1) c2(1) c3(1) c4(1) c5(1) by (auto simp: Console_Run_def lines ok_or_error_def)
qed

theorem console_session_witness:
  "\<exists>(c :: ((bytes \<times> bytes) list, int list) LocalConsole) c'.
    Console_Run list_annoy alist_store long_opts (\<lambda>w. Some (of_nat (length w))) (\<lambda>_. None)
      [(create_line (lit ''a'') 3 1 2, 7), (put_line (lit ''a'') (lit ''k'') (lit ''1,22'') (lit ''note''), 7),
       (key_line (lit ''get'') (lit ''a'') (lit ''k''), 7), (key_line (lit ''del'') (lit ''a'') (lit ''k''), 7),
       (key_line (lit ''get'') (lit ''a'') (lit ''k''), 7)] c =
    Some ([Text (lit ''ok''), Text (lit ''ok''), PrintVecObj \<lparr>vo_key = lit ''k'', vo_vv = sample_value [1, 2]\<rparr>,
       Text (lit ''ok''), Text (lit ''error''), Text (lit ''error input or eof ...'')], c')"
proof -
  let ?t = "\<lparr>at_name = lit ''a'', at_partition_num = int 3, at_replica_num = int 1, at_dim = int 2\<rparr>"
  have table: "AddTableParam_ok (lit ''/tmp/x'') ?t" using sample_table_ok(1) by (simp add: sample_table_def)
  have words: "list_all plain_word [lit ''a'', lit ''k'', lit ''1,22'', lit ''note'']"
    "last (lit ''k'') \<noteq> 0x3B" "last (lit ''note'') \<noteq> 0x3B"
    by (simp_all add: plain_word_def lit_def is_space_def)
  have scan: "scan_floats (\<lambda>w. Some (of_nat (length w))) (lit ''1,22'') = Some [1, 2]"
    by (simp add: scan_floats_def Split_def lit_def map_filter_simps)
  have val: "VecValue_ok \<lparr>vv_vec = \<lparr>vec_data = [1, 2]\<rparr>, vv_attach_value = lit ''note''\<rparr>"
    using sample_value_ok(1) by (simp add: sample_value_def)
  have "length [1 :: f32, 2] = 2" "2 < (10 :: nat) ^ 9" by simp_all
  from console_session [OF alist_store.leveldb_store_axioms long_opts.cxxopts_lib_axioms sample_table_ok(3) table this(2) words scan this(1) val,
    of list_annoy "\<lambda>_. None" 7]
  show ?thesis unfolding sample_value_def by blast
qed

text \<open>A line that only says \<^verbatim>\<open>create\<close> or \<^verbatim>\<open>build\<close> ends the console: the parser reads a second word that is not there.\<close>

theorem create_alone_aborts:
  "Console_Run A L opts sscanf files [(lit ''create'', now)] c = None \<and> Console_Run A L opts sscanf files [(lit ''build'', now)] c = None"
  by (simp add: Console_Run_def LocalConsole_Parse_def Parser_new_def Parser_Parse_def GetCmd_def two_words_def Split_def
    DelHead_none DelTails_none lit_def)

end
