(* ===== verification/VdbServer.thy ===== *)
theory VdbServer
  imports VdbShell Buffer ConsoleSend
begin

text \<open>
  The vector database behind a socket: the version messages (src/src/vectordb/msg_version.cc and
  msg_version_reply.cc), the server (src/src/vectordb/vectordb.cc) and the console that talks to it
  (src/src/vectordb/vdb_console.cc).
\<close>

section \<open>Messages\<close>

datatype VdbMsgType = kVersion | kVersionReply

fun VdbMsgType_u32 :: "VdbMsgType \<Rightarrow> u32" where
  "VdbMsgType_u32 kVersion = 100"
| "VdbMsgType_u32 kVersionReply = 101"

record MsgVersion =
  mvn_seqid :: u64

definition MsgVersion_MaxBytes :: "MsgVersion \<Rightarrow> int" where
  "MsgVersion_MaxBytes m = 8"

definition MsgVersion_ToString :: "MsgVersion \<Rightarrow> int \<Rightarrow> bytes option" where
  "MsgVersion_ToString m len = (
     let bs = EncodeFixed64 (mvn_seqid m)
     in do { check (int (length bs) \<le> len); Some bs })"

definition MsgVersion_FromString :: "MsgVersion \<Rightarrow> bytes \<Rightarrow> int \<Rightarrow> (MsgVersion \<times> int) option" where
  "MsgVersion_FromString old ptr len = do {
     (seqid, c) \<leftarrow> get64 (ptr, 0);
     Some (\<lparr>mvn_seqid = seqid\<rparr>, snd c) }"

record MsgVersionReply =
  mvr_seqid :: u64
  mvr_version :: bytes

definition MsgVersionReply_MaxBytes :: "MsgVersionReply \<Rightarrow> int" where
  "MsgVersionReply_MaxBytes m = 8 + 2 * 4 + int (length (mvr_version m))"

definition MsgVersionReply_ToString :: "MsgVersionReply \<Rightarrow> int \<Rightarrow> bytes option" where
  "MsgVersionReply_ToString m len = (
     let bs = EncodeFixed64 (mvr_seqid m) @ EncodeString2 (mvr_version m)
     in do { check (int (length bs) \<le> len); Some bs })"

definition MsgVersionReply_FromString :: "MsgVersionReply \<Rightarrow> bytes \<Rightarrow> int \<Rightarrow> (MsgVersionReply \<times> int) option" where
  "MsgVersionReply_FromString old ptr len = do {
     (seqid, c) \<leftarrow> get64 (ptr, 0);
     (version, c) \<leftarrow> get_string (mvr_version old) (size_t (len - snd c)) c;
     Some (\<lparr>mvr_seqid = seqid, mvr_version = version\<rparr>, snd c) }"

interpretation msg_version: message_codec MsgVersion_MaxBytes MsgVersion_ToString MsgVersion_FromString
    "\<lambda>_. True" "\<lambda>_. True" "\<lambda>m. m" 0
  by unfold_locales
    (auto simp: MsgVersion_MaxBytes_def MsgVersion_ToString_def MsgVersion_FromString_def codec_length codec_simps Let_def)

interpretation msg_version_reply: message_codec MsgVersionReply_MaxBytes MsgVersionReply_ToString MsgVersionReply_FromString
    "\<lambda>m. length (mvr_version m) < 2 ^ 30" "\<lambda>_. True" "\<lambda>m. m" 0
proof (unfold_locales, goal_cases)
  case (1 m)
  then show ?case
    using EncodeString2_length [of "mvr_version m"]
    by (simp add: MsgVersionReply_MaxBytes_def MsgVersionReply_ToString_def Let_def)
next
  case (2 m old bs r)
  then show ?case
    using EncodeString2_length [of "mvr_version m"]
    by (auto simp: MsgVersionReply_MaxBytes_def MsgVersionReply_ToString_def MsgVersionReply_FromString_def Let_def
        get_string_encoded get_string_short EncodeString2_length_short size_t_small
        split: if_splits)
qed

text \<open>Header and body, as both sides send them.\<close>

definition vdb_frame :: "VdbMsgType \<Rightarrow> bytes \<Rightarrow> bytes option" where
  "vdb_frame type body = do {
     header_str \<leftarrow> MsgHeader_ToString
       \<lparr>mh_body_bytes = of_nat (length body), mh_type = VdbMsgType_u32 type\<rparr> MsgHeader_Bytes;
     Some (header_str @ body) }"

section \<open>The server\<close>

text \<open>\<open>ds_disk\<close> holds the directories of engines that are not open, as in the engine of the local console.\<close>

record ('db, 'ann) VectorDB =
  ds_start :: bool
  ds_path :: bytes
  ds_meta :: "'db Metadata"
  ds_engines :: "(u64 \<times> ('db, 'ann) VEngine) list"
  ds_disk :: "(bytes \<times> ('db, 'ann) engine_dir) list"
  ds_seqid :: u64

text \<open>The constructor reads the catalogue and opens no engine.\<close>

definition VectorDB_new :: "'db leveldb \<Rightarrow> bytes \<Rightarrow> ('db, 'ann) vdb_dir \<Rightarrow> ('db, 'ann) VectorDB option" where
  "VectorDB_new L path dir = do {
     md \<leftarrow> Metadata_new L process_start (DB_Open L (vr_meta dir));
     Some \<lparr>ds_start = False, ds_path = path, ds_meta = md, ds_engines = [], ds_disk = vr_engines dir, ds_seqid = 0\<rparr> }"

definition VectorDB_Start :: "('db, 'ann) VectorDB \<Rightarrow> ('db, 'ann) VectorDB" where
  "VectorDB_Start s = s\<lparr>ds_start := True\<rparr>"

definition VectorDB_CreateVEngine :: "'db leveldb \<Rightarrow> Replica \<Rightarrow> ('db, 'ann) VectorDB \<Rightarrow> (int \<times> ('db, 'ann) VectorDB) option" where
  "VectorDB_CreateVEngine L replica s = do {
     check (rp_path replica \<notin> (\<lambda>x. ve_path (snd x)) ` set (ds_engines s));
     ve \<leftarrow> VEngine_new L (rp_path replica) (rp_dim replica) (map_of (ds_disk s) (rp_path replica));
     let disk = AList.delete (rp_path replica) (ds_disk s);
     let disk = (case map_of (ds_engines s) (rp_uid replica) of
                   Some old \<Rightarrow> AList.update (ve_path old) (VEngine_dir old) disk
                 | None \<Rightarrow> disk);
     Some (0, s\<lparr>ds_engines := AList.update (rp_uid replica) ve (ds_engines s), ds_disk := disk\<rparr>) }"

fun server_engines :: "'db leveldb \<Rightarrow> Replica list \<Rightarrow> ('db, 'ann) VectorDB \<Rightarrow> ('db, 'ann) VectorDB option" where
  "server_engines L [] s = Some s"
| "server_engines L (r # rs) s = do {
     (rv, s) \<leftarrow> VectorDB_CreateVEngine L r s;
     check (rv = 0);
     server_engines L rs s }"

definition VectorDB_AddTable :: "'db leveldb \<Rightarrow> TableParam \<Rightarrow> ('db, 'ann) VectorDB \<Rightarrow> (int \<times> ('db, 'ann) VectorDB) option" where
  "VectorDB_AddTable L param s = do {
     (rv, md) \<leftarrow> Metadata_AddTable L param (ds_meta s);
     let s = s\<lparr>ds_meta := md\<rparr>;
     if rv \<noteq> 0 then Some (-1, s)
     else do {
       rs \<leftarrow> ForEachReplicaInTable (tp_name param) md;
       s \<leftarrow> server_engines L rs s;
       Some (0, s) } }"

text \<open>The reply to a request for the version; \<open>raw\<close> is what the message on the stack holds.\<close>

definition VectorDB_OnMsgVersion :: "MsgVersionReply \<Rightarrow> MsgVersion \<Rightarrow> ('db, 'ann) VectorDB \<Rightarrow> bytes option option" where
  "VectorDB_OnMsgVersion raw msg s =
     (if ds_start s then do {
        let reply = raw\<lparr>mvr_version := VECTORDB_VERSION\<rparr>;
        reply_str \<leftarrow> MsgVersionReply_ToString reply (MsgVersionReply_MaxBytes reply);
        f \<leftarrow> vdb_frame kVersionReply reply_str;
        Some (Some f) }
      else Some None)"

text \<open>At most one message is taken from the buffer; the result has the bytes sent on the connection. The sum of header and
  body size is an \<^verbatim>\<open>int32_t\<close>, and undefined when it overflows.\<close>

definition VectorDB_OnMessage :: "MsgVersion \<Rightarrow> MsgVersionReply \<Rightarrow> Buffer \<Rightarrow> ('db, 'ann) VectorDB \<Rightarrow>
    (bytes option \<times> Buffer \<times> ('db, 'ann) VectorDB) option" where
  "VectorDB_OnMessage raw raw_reply buf s =
     (if ReadableBytes buf \<ge> MsgHeader_Bytes then do {
        body_bytes \<leftarrow> Buffer_PeekInt32 buf;
        check (MsgHeader_Bytes + body_bytes < 2 ^ 31);
        if ReadableBytes buf \<ge> MsgHeader_Bytes + body_bytes then do {
          p \<leftarrow> Buffer_BeginRead buf;
          header \<leftarrow> MsgHeader_FromString p MsgHeader_Bytes;
          buf \<leftarrow> Buffer_Retrieve MsgHeader_Bytes buf;
          check (mh_type header = VdbMsgType_u32 kVersion);
          p \<leftarrow> Buffer_BeginRead buf;
          (msg, sz) \<leftarrow> MsgVersion_FromString raw p body_bytes;
          check (sz > 0);
          buf \<leftarrow> Buffer_Retrieve body_bytes buf;
          let msg = msg\<lparr>mvn_seqid := ds_seqid s\<rparr>;
          let s = s\<lparr>ds_seqid := ds_seqid s + 1\<rparr>;
          reply \<leftarrow> VectorDB_OnMsgVersion raw_reply msg s;
          Some (reply, buf, s) }
        else Some (None, buf, s) }
      else Some (None, buf, s))"

section \<open>The console\<close>

record VdbConsole =
  rc_start :: bool
  rc_result :: bytes
  rc_ready :: bool
  rc_cmd :: bytes

definition VdbConsole_Clear :: "VdbConsole \<Rightarrow> VdbConsole" where
  "VdbConsole_Clear c = c\<lparr>rc_cmd := []\<rparr>"

text \<open>The command is the first word; there are no options, and without a word there is no \<^verbatim>\<open>argv[0]\<close>.\<close>

definition VdbConsole_Parse :: "cxxopts \<Rightarrow> bytes \<Rightarrow> VdbConsole \<Rightarrow> (int \<times> VdbConsole) option" where
  "VdbConsole_Parse opts cmd_line c = do {
     let c = VdbConsole_Clear c;
     let argv = ConvertStringToArgcArgv cmd_line;
     check (argv \<noteq> []);
     v \<leftarrow> opts [] argv;
     Some (0, c\<lparr>rc_cmd := ToLower (hd argv)\<rparr>) }"

definition VdbConsole_HelpText :: bytes where
  "VdbConsole_HelpText = lit ''help'' @ [0x0A] @ lit ''quit'' @ [0x0A] @ lit ''version''"

definition VdbConsole_Version :: "MsgVersion \<Rightarrow> bytes option" where
  "VdbConsole_Version raw = do {
     msg_str \<leftarrow> MsgVersion_ToString raw (MsgVersion_MaxBytes raw);
     vdb_frame kVersion msg_str }"

text \<open>The bytes handed to the client of the server, and the console, whose result may be ready at once. \<open>moment\<close> is when
  the loop thread makes the call.\<close>

definition VdbConsole_Execute :: "send_moment \<Rightarrow> MsgVersion \<Rightarrow> VdbConsole \<Rightarrow> (bytes option \<times> VdbConsole) option" where
  "VdbConsole_Execute moment raw c =
     (if rc_cmd c = lit ''help'' then Some (None, c\<lparr>rc_result := VdbConsole_HelpText, rc_ready := True\<rparr>)
      else if rc_cmd c = lit ''version'' then do {
        f \<leftarrow> VdbConsole_Version raw;
        sent \<leftarrow> send_local moment f;
        Some (Some sent, c) }
      else if rc_cmd c = lit ''quit'' then Some (None, (VdbConsole_Clear c)\<lparr>rc_start := False, rc_ready := True\<rparr>)
      else Some (None, c\<lparr>rc_result := lit ''error command'', rc_ready := True\<rparr>))"

definition VdbConsole_OnMessage :: "MsgVersionReply \<Rightarrow> Buffer \<Rightarrow> VdbConsole \<Rightarrow> (Buffer \<times> VdbConsole) option" where
  "VdbConsole_OnMessage raw buf c = do {
     (buf, c) \<leftarrow>
       (if ReadableBytes buf \<ge> MsgHeader_Bytes then do {
          body_bytes \<leftarrow> Buffer_PeekInt32 buf;
          check (MsgHeader_Bytes + body_bytes < 2 ^ 31);
          if ReadableBytes buf \<ge> MsgHeader_Bytes + body_bytes then do {
            p \<leftarrow> Buffer_BeginRead buf;
            header \<leftarrow> MsgHeader_FromString p MsgHeader_Bytes;
            buf \<leftarrow> Buffer_Retrieve MsgHeader_Bytes buf;
            check (mh_type header = VdbMsgType_u32 kVersionReply);
            p \<leftarrow> Buffer_BeginRead buf;
            (msg, sz) \<leftarrow> MsgVersionReply_FromString raw p body_bytes;
            check (sz > 0);
            buf \<leftarrow> Buffer_Retrieve body_bytes buf;
            Some (buf, c\<lparr>rc_result := mvr_version msg\<rparr>) }
          else Some (buf, c) }
        else Some (buf, c));
     Some (buf, c\<lparr>rc_ready := True\<rparr>) }"

section \<open>Receiving a frame\<close>

lemma take_frame:
  assumes "buffer_ok b" "vdb_frame type body = Some f" "pending b = f" "length body < 2 ^ 31"
  obtains p b1 q b2 where "ReadableBytes b = 8 + int (length body)" "Buffer_PeekInt32 b = Some (int (length body))"
    "Buffer_BeginRead b = Some p" "MsgHeader_FromString p 8 = Some \<lparr>mh_body_bytes = of_nat (length body), mh_type = VdbMsgType_u32 type\<rparr>"
    "Buffer_Retrieve 8 b = Some b1" "Buffer_BeginRead b1 = Some (body @ q)"
    "Buffer_Retrieve (int (length body)) b1 = Some b2" "buffer_ok b2" "pending b2 = []"
proof -
  let ?n = "of_nat (length body) :: u32"
  have f: "pending b = EncodeFixed32 ?n @ EncodeFixed32 (VdbMsgType_u32 type) @ body"
    using assms(2,3) by (simp add: vdb_frame_def MsgHeader_ToString_def MsgHeader_Bytes_def)
  have n: "sint ?n = int (length body)" using assms(4) by (simp add: sint_of_nat_small)
  have read: "ReadableBytes b = 8 + int (length body)" using length_pending [OF assms(1)] f by (simp add: codec_length)
  have peek: "Buffer_PeekInt32 b = Some (int (length body))" using PeekInt32_ok [OF assms(1) f] n by simp
  obtain q0 where p: "Buffer_BeginRead b = Some (pending b @ q0)" using BeginRead_pending [OF assms(1)] by auto
  have head: "MsgHeader_FromString (pending b @ q0) 8 = Some \<lparr>mh_body_bytes = ?n, mh_type = VdbMsgType_u32 type\<rparr>"
    by (simp add: f MsgHeader_FromString_def MsgHeader_Bytes_def codec_simps)
  have "8 \<le> length (pending b)" by (simp add: f codec_length)
  from Retrieve_ok [OF assms(1) this] obtain b1 where b1: "Buffer_Retrieve 8 b = Some b1" "buffer_ok b1" "pending b1 = body"
    by (auto simp: f codec_length)
  obtain q where q: "Buffer_BeginRead b1 = Some (body @ q)" using BeginRead_pending [OF b1(2)] b1(3) by auto
  have "length body \<le> length (pending b1)" using b1(3) by simp
  from Retrieve_ok [OF b1(2) this] obtain b2 where "Buffer_Retrieve (int (length body)) b1 = Some b2" "buffer_ok b2" "pending b2 = []"
    using b1(3) by auto
  then show ?thesis using that read peek p head b1(1) q by blast
qed

lemma arrives:
  assumes "buffer_ok b" "pending b = []" "int (length f) \<le> WritableBytes b"
  obtains b' where "Buffer_Append grow f b = Some b'" "buffer_ok b'" "pending b' = f"
  using Append_fits [OF assms(1,3), of grow] assms(2) by auto

definition sample_buffer64 :: Buffer where
  "sample_buffer64 = \<lparr>bf_init_bytes = 64, bf_max_waste_bytes = 8, bf_mem = replicate 64 0, bf_size = 0, bf_read_index = 0, bf_write_index = 0\<rparr>"

definition sample_server :: "((bytes \<times> bytes) list, unit) VectorDB" where
  "sample_server = \<lparr>ds_start = True, ds_path = lit ''/tmp/x'', ds_meta = \<lparr>md_tables = [], md_db = ldb_open alist_store, md_uids = process_start\<rparr>,
     ds_engines = [], ds_disk = [], ds_seqid = 0\<rparr>"

section \<open>Properties\<close>

text \<open>C20. Asking a server for its version. When the loop thread makes the sending call before \<^verbatim>\<open>Version\<close> returns and
  the connection carries the bytes, the line typed becomes a request, the started server takes the request
  from its buffer and answers it, and the console, when the answer has arrived in its buffer, shows the
  version of the server, whatever the fields of the messages that nobody sets contain. When the loop
  thread makes the call later, it reads the memory of a string that has been destroyed.\<close>

theorem version_answered:
  assumes "cxxopts_lib opts" "ds_start s" "buffer_ok b" "pending b = []" "64 \<le> WritableBytes b"
    and "buffer_ok b'" "pending b' = []" "64 \<le> WritableBytes b'"
  shows "\<exists>c1 f b1 g b2 s2 b1' b2' c2. VdbConsole_Parse opts (lit ''version'') c = Some (0, c1) \<and>
    VdbConsole_Execute AfterReturn raw c1 = None \<and>
    VdbConsole_Execute BeforeReturn raw c1 = Some (Some f, c1) \<and> Buffer_Append grow f b = Some b1 \<and>
    VectorDB_OnMessage raw1 raw2 b1 s = Some (Some g, b2, s2) \<and> pending b2 = [] \<and> ds_seqid s2 = ds_seqid s + 1 \<and>
    Buffer_Append grow g b' = Some b1' \<and> VdbConsole_OnMessage raw3 b1' c1 = Some (b2', c2) \<and>
    rc_result c2 = VECTORDB_VERSION \<and> rc_ready c2"
proof -
  have word: "ConvertStringToArgcArgv (lit ''version'') = [lit ''version'']"
    by (simp add: ConvertStringToArgcArgv_def lit_def is_space_def c_str_def)
  have "opts [] [lit ''version''] = Some (option_values [] [])"
    using cxxopts_lib.options_read [OF assms(1), of "[]" "[]" "lit ''version''"] by simp
  moreover have "ToLower (lit ''version'') = lit ''version''" by (simp add: ToLower_def lit_def)
  ultimately have parse: "VdbConsole_Parse opts (lit ''version'') c = Some (0, (VdbConsole_Clear c)\<lparr>rc_cmd := lit ''version''\<rparr>)"
    using word by (simp add: VdbConsole_Parse_def)
  let ?c = "(VdbConsole_Clear c)\<lparr>rc_cmd := lit ''version''\<rparr>"
  let ?body = "EncodeFixed64 (mvn_seqid raw)" and ?reply = "EncodeFixed64 (mvr_seqid raw2) @ EncodeString2 VECTORDB_VERSION"
  obtain f where f: "vdb_frame kVersion ?body = Some f" "length f = 16"
    by (simp add: vdb_frame_def MsgHeader_ToString_def MsgHeader_Bytes_def codec_length)
  have exec: "VdbConsole_Execute BeforeReturn raw ?c = Some (Some f, ?c)" "VdbConsole_Execute AfterReturn raw ?c = None"
    using f(1) by (simp_all add: VdbConsole_Execute_def VdbConsole_Version_def MsgVersion_ToString_def MsgVersion_MaxBytes_def codec_length lit_def)
  obtain b1 where b1: "Buffer_Append grow f b = Some b1" "buffer_ok b1" "pending b1 = f"
    by (rule arrives [OF assms(3,4)]) (use f(2) assms(5) in auto)
  obtain p1 b12 q1 b2 where r1: "ReadableBytes b1 = 8 + int (length ?body)" "Buffer_PeekInt32 b1 = Some (int (length ?body))"
    "Buffer_BeginRead b1 = Some p1" "MsgHeader_FromString p1 8 = Some \<lparr>mh_body_bytes = of_nat (length ?body), mh_type = VdbMsgType_u32 kVersion\<rparr>"
    "Buffer_Retrieve 8 b1 = Some b12" "Buffer_BeginRead b12 = Some (?body @ q1)"
    "Buffer_Retrieve (int (length ?body)) b12 = Some b2" "buffer_ok b2" "pending b2 = []"
    by (rule take_frame [OF b1(2) f(1) b1(3)]) (simp add: codec_length)
  let ?m = "raw2\<lparr>mvr_version := VECTORDB_VERSION\<rparr>"
  have ok: "length (mvr_version ?m) < 2 ^ 30" by (simp add: VECTORDB_VERSION_def lit_def)
  obtain bs where bs: "MsgVersionReply_ToString ?m (MsgVersionReply_MaxBytes ?m) = Some bs" "length bs < 22"
    using msg_version_reply.encoded [OF ok] by (auto simp: MsgVersionReply_MaxBytes_def VECTORDB_VERSION_def lit_def)
  obtain g where g: "vdb_frame kVersionReply bs = Some g" "length g = 8 + length bs"
    by (simp add: vdb_frame_def MsgHeader_ToString_def MsgHeader_Bytes_def codec_length)
  let ?s = "s\<lparr>ds_seqid := ds_seqid s + 1\<rparr>"
  have answer: "VectorDB_OnMessage raw1 raw2 b1 s = Some (Some g, b2, ?s)"
    using r1 assms(2) bs(1) g(1)
    by (simp add: VectorDB_OnMessage_def VectorDB_OnMsgVersion_def MsgHeader_Bytes_def MsgVersion_FromString_def codec_simps codec_length)
  obtain b1' where b1': "Buffer_Append grow g b' = Some b1'" "buffer_ok b1'" "pending b1' = g"
    by (rule arrives [OF assms(6,7)]) (use g(2) bs(2) assms(8) in auto)
  obtain p2 b12' q2 b2' where r2: "ReadableBytes b1' = 8 + int (length bs)" "Buffer_PeekInt32 b1' = Some (int (length bs))"
    "Buffer_BeginRead b1' = Some p2" "MsgHeader_FromString p2 8 = Some \<lparr>mh_body_bytes = of_nat (length bs), mh_type = VdbMsgType_u32 kVersionReply\<rparr>"
    "Buffer_Retrieve 8 b1' = Some b12'" "Buffer_BeginRead b12' = Some (bs @ q2)"
    "Buffer_Retrieve (int (length bs)) b12' = Some b2'" "buffer_ok b2'" "pending b2' = []"
    by (rule take_frame [OF b1'(2) g(1) b1'(3)]) (use bs(2) in simp)
  obtain sz where "MsgVersionReply_FromString raw3 (bs @ q2) (int (length bs)) = Some (?m, sz)" "0 < sz"
    using msg_version_reply.decoded [OF ok _ bs(1), where old = raw3 and r = q2] by auto
  then have shown: "VdbConsole_OnMessage raw3 b1' ?c = Some (b2', ?c\<lparr>rc_result := VECTORDB_VERSION, rc_ready := True\<rparr>)"
    using r2 bs(2) by (simp add: VdbConsole_OnMessage_def MsgHeader_Bytes_def)
  show ?thesis
    by (rule exI [of _ ?c], rule exI [of _ f], rule exI [of _ b1], rule exI [of _ g], rule exI [of _ b2], rule exI [of _ ?s],
      rule exI [of _ b1'], rule exI [of _ b2'], rule exI [of _ "?c\<lparr>rc_result := VECTORDB_VERSION, rc_ready := True\<rparr>"])
      (use parse exec b1(1) answer r1(9) b1'(1) shown in simp)
qed

theorem version_answered_witness:
  "\<exists>c1 f b1 g b2 (s2 :: ((bytes \<times> bytes) list, unit) VectorDB) b1' b2' c2.
    VdbConsole_Parse long_opts (lit ''version'') \<lparr>rc_start = True, rc_result = [], rc_ready = False, rc_cmd = []\<rparr> = Some (0, c1) \<and>
    VdbConsole_Execute BeforeReturn \<lparr>mvn_seqid = 3\<rparr> c1 = Some (Some f, c1) \<and> Buffer_Append (\<lambda>_. 0) f (sample_buffer64) = Some b1 \<and>
    VectorDB_OnMessage \<lparr>mvn_seqid = 0\<rparr> \<lparr>mvr_seqid = 9, mvr_version = []\<rparr> b1 sample_server = Some (Some g, b2, s2) \<and>
    Buffer_Append (\<lambda>_. 0) g sample_buffer64 = Some b1' \<and>
    VdbConsole_OnMessage \<lparr>mvr_seqid = 0, mvr_version = []\<rparr> b1' c1 = Some (b2', c2) \<and> rc_result c2 = VECTORDB_VERSION"
proof -
  have b: "buffer_ok sample_buffer64" "pending sample_buffer64 = []" "64 \<le> WritableBytes sample_buffer64"
    by (simp_all add: sample_buffer64_def buffer_ok_def pending_def ReadableBytes_def WritableBytes_def)
  have s: "ds_start (sample_server :: ((bytes \<times> bytes) list, unit) VectorDB)" by (simp add: sample_server_def)
  from version_answered [OF long_opts.cxxopts_lib_axioms s b b, of "\<lparr>rc_start = True, rc_result = [], rc_ready = False, rc_cmd = []\<rparr>"
    "\<lparr>mvn_seqid = 3\<rparr>" "\<lambda>_. 0" "\<lparr>mvn_seqid = 0\<rparr>" "\<lparr>mvr_seqid = 9, mvr_version = []\<rparr>" "\<lparr>mvr_seqid = 0, mvr_version = []\<rparr>"]
  show ?thesis by blast
qed

end
