(* ===== verification/WorkThread.thy ===== *)
theory WorkThread
  imports Util "HOL-Library.Sublist"
begin

text \<open>
  Worker threads (src/src/seda/work_thread.h and work_thread.cc): a bounded queue of jobs between the
  threads that push and the thread that runs, and a pool that sends the jobs of an id to one
  thread. The critical sections under the mutex are the atomic steps; a thread that waits on a condition
  variable is one that has no step. A job is a name; what is kept of running it is that it was run.
\<close>

section \<open>One thread\<close>

text \<open>The jobs of users, and the one \<^verbatim>\<open>Stop\<close> pushes, which clears \<^verbatim>\<open>started_\<close>.\<close>

datatype 'j work_item = Job 'j | StopJob

text \<open>Where \<^verbatim>\<open>Run\<close> is: before \<^verbatim>\<open>Start\<close>, at the head of its loop, with jobs it has taken, or returned.\<close>

datatype 'j run_pc = NotStarted | AtWhile | Running "'j work_item list" | Returned

record 'j WorkThread =
  wt_max_queue_size :: int
  wt_started :: bool
  wt_detach :: bool
  wt_functors :: "'j work_item list"
  wt_pc :: "'j run_pc"
  wt_joinable :: bool
  wt_done :: "'j work_item list"

definition WorkThread_new :: "int \<Rightarrow> bool \<Rightarrow> 'j WorkThread" where
  "WorkThread_new max_queue_size detach = \<lparr>wt_max_queue_size = max_queue_size, wt_started = False, wt_detach = detach,
     wt_functors = [], wt_pc = NotStarted, wt_joinable = False, wt_done = []\<rparr>"

text \<open>Assigning to a thread that can be joined ends the process. A thread that has been joined, or was detached and has
  returned, may be started again; a detached one that is started again while it runs, which gives the queue
  two consumers, is outside the model.\<close>

definition WorkThread_Start :: "'j WorkThread \<Rightarrow> 'j WorkThread option" where
  "WorkThread_Start w = do {
     check (\<not> wt_joinable w);
     check (wt_pc w = NotStarted \<or> wt_pc w = Returned);
     Some (w\<lparr>wt_started := True, wt_pc := AtWhile, wt_joinable := \<not> wt_detach w\<rparr>) }"

text \<open>The producer waits until there is room. The size is compared as a \<^verbatim>\<open>size_t\<close>.\<close>

definition queue_limit :: "int \<Rightarrow> nat" where
  "queue_limit max_queue_size = nat (max_queue_size mod 2 ^ 64)"

definition has_room :: "'j WorkThread \<Rightarrow> bool" where
  "has_room w \<longleftrightarrow> length (wt_functors w) < queue_limit (wt_max_queue_size w)"

definition WorkThread_Push :: "'j work_item \<Rightarrow> 'j WorkThread \<Rightarrow> 'j WorkThread option" where
  "WorkThread_Push func w = do {
     check (has_room w);
     Some (w\<lparr>wt_functors := wt_functors w @ [func]\<rparr>) }"

definition WorkThread_Stop :: "'j WorkThread \<Rightarrow> 'j WorkThread option" where
  "WorkThread_Stop w = WorkThread_Push StopJob w"

definition run_item :: "'j work_item \<Rightarrow> 'j WorkThread \<Rightarrow> 'j WorkThread" where
  "run_item item w = (let w = w\<lparr>wt_done := wt_done w @ [item]\<rparr>
     in case item of Job j \<Rightarrow> w | StopJob \<Rightarrow> w\<lparr>wt_started := False\<rparr>)"

text \<open>The next step of the thread; \<open>None\<close> when it waits or is not there.\<close>

definition WorkThread_Run :: "'j WorkThread \<Rightarrow> 'j WorkThread option" where
  "WorkThread_Run w = (case wt_pc w of
      NotStarted \<Rightarrow> None
    | AtWhile \<Rightarrow>
        if \<not> wt_started w then Some (w\<lparr>wt_pc := Returned\<rparr>)
        else if wt_functors w = [] then None
        else Some (w\<lparr>wt_pc := Running (wt_functors w), wt_functors := []\<rparr>)
    | Running [] \<Rightarrow> Some (w\<lparr>wt_pc := AtWhile\<rparr>)
    | Running (item # items) \<Rightarrow> Some (run_item item (w\<lparr>wt_pc := Running items\<rparr>))
    | Returned \<Rightarrow> None)"

text \<open>\<^verbatim>\<open>Join\<close> waits until \<^verbatim>\<open>Run\<close> has returned, and ends the process if there is nothing to join.\<close>

definition WorkThread_Join :: "'j WorkThread \<Rightarrow> 'j WorkThread option" where
  "WorkThread_Join w = do {
     check (\<not> wt_detach w);
     check (wt_joinable w);
     check (wt_pc w = Returned);
     Some (w\<lparr>wt_joinable := False\<rparr>) }"

section \<open>Interleavings\<close>

text \<open>The thread together with the list of everything pushed so far, by any thread.\<close>

inductive work_step :: "'j WorkThread \<times> 'j work_item list \<Rightarrow> 'j WorkThread \<times> 'j work_item list \<Rightarrow> bool" where
  start: "WorkThread_Start w = Some w' \<Longrightarrow> work_step (w, ps) (w', ps)"
| push: "has_room w \<Longrightarrow> WorkThread_Push f w = Some w' \<Longrightarrow> work_step (w, ps) (w', ps @ [f])"
| run: "WorkThread_Run w = Some w' \<Longrightarrow> work_step (w, ps) (w', ps)"
| join: "WorkThread_Join w = Some w' \<Longrightarrow> work_step (w, ps) (w', ps)"

inductive work_reachable :: "int \<Rightarrow> bool \<Rightarrow> 'j WorkThread \<times> 'j work_item list \<Rightarrow> bool" for n d where
  init: "work_reachable n d (WorkThread_new n d, [])"
| step: "work_reachable n d s \<Longrightarrow> work_step s s' \<Longrightarrow> work_reachable n d s'"

fun taken :: "'j run_pc \<Rightarrow> 'j work_item list" where
  "taken (Running js) = js"
| "taken _ = []"

definition unfinished :: "'j WorkThread \<Rightarrow> 'j work_item list" where
  "unfinished w = taken (wt_pc w) @ wt_functors w"

definition work_ok :: "int \<Rightarrow> 'j WorkThread \<times> 'j work_item list \<Rightarrow> bool" where
  "work_ok n s \<longleftrightarrow> (case s of (w, ps) \<Rightarrow> wt_max_queue_size w = n \<and> wt_done w @ unfinished w = ps \<and>
     length (wt_functors w) \<le> queue_limit n \<and> (wt_pc w = NotStarted \<longrightarrow> \<not> wt_started w \<and> wt_done w = []) \<and>
     (wt_pc w = Returned \<longrightarrow> \<not> wt_started w) \<and>
     (wt_pc w \<noteq> NotStarted \<longrightarrow> wt_started w \<or> StopJob \<in> set (wt_done w)))"

lemma Run_keeps:
  assumes "WorkThread_Run w = Some w'" "work_ok n (w, ps)"
  shows "work_ok n (w', ps)"
  using assms
  by (auto simp: WorkThread_Run_def work_ok_def unfinished_def run_item_def Let_def split: run_pc.splits if_splits list.splits work_item.splits)

lemma Start_keeps:
  assumes "WorkThread_Start w = Some w'" "work_ok n (w, ps)"
  shows "work_ok n (w', ps)"
  using assms by (auto simp: WorkThread_Start_def work_ok_def unfinished_def split: if_splits)

lemma Join_keeps:
  assumes "WorkThread_Join w = Some w'" "work_ok n (w, ps)"
  shows "work_ok n (w', ps)"
  using assms by (auto simp: WorkThread_Join_def work_ok_def unfinished_def split: if_splits)

lemma Push_keeps_order:
  assumes "WorkThread_Push f w = Some w'" "work_ok n (w, ps)"
  shows "work_ok n (w', ps @ [f])"
  using assms by (auto simp: WorkThread_Push_def work_ok_def unfinished_def has_room_def split: if_splits)

lemma reachable_work_ok: "work_reachable n d s \<Longrightarrow> work_ok n s"
proof (induction rule: work_reachable.induct)
  case init
  show ?case by (simp add: work_ok_def WorkThread_new_def unfinished_def)
next
  case (step s s')
  from step.hyps(2) step.IH show ?case
    by cases (auto intro: Start_keeps Run_keeps Push_keeps_order Join_keeps)
qed

section \<open>The queue drains\<close>

fun run_steps :: "nat \<Rightarrow> 'j WorkThread \<Rightarrow> 'j WorkThread option" where
  "run_steps 0 w = Some w"
| "run_steps (Suc n) w = do { w \<leftarrow> WorkThread_Run w; run_steps n w }"

lemma run_steps_add: "run_steps m w = Some w1 \<Longrightarrow> run_steps n w1 = Some w2 \<Longrightarrow> run_steps (m + n) w = Some w2"
  by (induction m arbitrary: w) (auto elim!: bind_eq_SomeE)

text \<open>The jobs taken are run one after the other, and the thread is back at the head of its loop.\<close>

lemma run_taken:
  "wt_pc w = Running js \<Longrightarrow> StopJob \<notin> set js \<Longrightarrow>
    run_steps (Suc (length js)) w = Some (w\<lparr>wt_pc := AtWhile, wt_done := wt_done w @ js\<rparr>)"
proof (induction js arbitrary: w)
  case Nil
  then show ?case by (simp add: WorkThread_Run_def)
next
  case (Cons j js)
  then obtain x where x: "j = Job x" by (cases j) auto
  with Cons show ?case by (simp add: WorkThread_Run_def run_item_def Let_def)
qed

lemma run_queued:
  assumes "wt_pc w = AtWhile" "wt_started w" "StopJob \<notin> set (wt_functors w)"
  shows "\<exists>n w'. run_steps n w = Some w' \<and> wt_done w' = wt_done w @ wt_functors w \<and> wt_functors w' = [] \<and> wt_pc w' = AtWhile"
proof (cases "wt_functors w = []")
  case True
  then show ?thesis using assms(1) by (intro exI [of _ 0] exI [of _ w]) simp
next
  case False
  let ?w = "w\<lparr>wt_pc := Running (wt_functors w), wt_functors := []\<rparr>"
  have "run_steps (Suc (Suc (length (wt_functors w)))) w = Some (?w\<lparr>wt_pc := AtWhile, wt_done := wt_done w @ wt_functors w\<rparr>)"
    using run_taken [of ?w "wt_functors w"] assms False by (simp add: WorkThread_Run_def del: run_steps.simps(2)) (simp add: WorkThread_Run_def)
  then show ?thesis by fastforce
qed

section \<open>The pool\<close>

text \<open>\<^verbatim>\<open>threads_\<close> from partition to thread; the jobs of the pool carry the id they are pushed with.\<close>

type_synonym 'j WorkThreadPool = "(u64 \<times> 'j WorkThread) list"

definition WorkThreadPool_new :: "int \<Rightarrow> int \<Rightarrow> 'j WorkThreadPool" where
  "WorkThreadPool_new thread_num max_queue_size =
     map (\<lambda>i. (of_nat i, WorkThread_new max_queue_size False)) [0..<nat thread_num]"

definition WorkThreadPool_PartitionId :: "u64 \<Rightarrow> 'j WorkThreadPool \<Rightarrow> u64 option" where
  "WorkThreadPool_PartitionId uid p = do { check (p \<noteq> []); Some (uid mod of_nat (length p)) }"

definition WorkThreadPool_GetThread :: "u64 \<Rightarrow> 'j WorkThreadPool \<Rightarrow> 'j WorkThread option" where
  "WorkThreadPool_GetThread partition_id p = map_of p partition_id"

definition WorkThreadPool_Push :: "u64 \<Rightarrow> 'j work_item \<Rightarrow> 'j WorkThreadPool \<Rightarrow> 'j WorkThreadPool option" where
  "WorkThreadPool_Push uid func p = do {
     partition_id \<leftarrow> WorkThreadPool_PartitionId uid p;
     w \<leftarrow> WorkThreadPool_GetThread partition_id p;
     w \<leftarrow> WorkThread_Push func w;
     Some (AList.update partition_id w p) }"

fun each_thread :: "('j WorkThread \<Rightarrow> 'j WorkThread option) \<Rightarrow> 'j WorkThreadPool \<Rightarrow> 'j WorkThreadPool option" where
  "each_thread f [] = Some []"
| "each_thread f ((i, w) # p) = do { w \<leftarrow> f w; p \<leftarrow> each_thread f p; Some ((i, w) # p) }"

definition WorkThreadPool_Start :: "'j WorkThreadPool \<Rightarrow> 'j WorkThreadPool option" where
  "WorkThreadPool_Start p = each_thread WorkThread_Start p"

definition WorkThreadPool_Stop :: "'j WorkThreadPool \<Rightarrow> 'j WorkThreadPool option" where
  "WorkThreadPool_Stop p = each_thread WorkThread_Stop p"

definition WorkThreadPool_Join :: "'j WorkThreadPool \<Rightarrow> 'j WorkThreadPool option" where
  "WorkThreadPool_Join p = each_thread WorkThread_Join p"

text \<open>Any order of starting, pushing, stopping and running; the list has the jobs pushed, with their ids.\<close>

inductive pool_step :: "(u64 \<times> 'j) WorkThreadPool \<times> (u64 \<times> 'j) list \<Rightarrow> (u64 \<times> 'j) WorkThreadPool \<times> (u64 \<times> 'j) list \<Rightarrow> bool" where
  start: "WorkThreadPool_GetThread i p = Some w \<Longrightarrow> WorkThread_Start w = Some w' \<Longrightarrow> pool_step (p, ps) (AList.update i w' p, ps)"
| push: "WorkThreadPool_Push uid (Job (uid, j)) p = Some p' \<Longrightarrow> pool_step (p, ps) (p', ps @ [(uid, j)])"
| join: "WorkThreadPool_GetThread i p = Some w \<Longrightarrow> WorkThread_Join w = Some w' \<Longrightarrow> pool_step (p, ps) (AList.update i w' p, ps)"
| stop: "WorkThreadPool_GetThread i p = Some w \<Longrightarrow> WorkThread_Stop w = Some w' \<Longrightarrow> pool_step (p, ps) (AList.update i w' p, ps)"
| run: "WorkThreadPool_GetThread i p = Some w \<Longrightarrow> WorkThread_Run w = Some w' \<Longrightarrow> pool_step (p, ps) (AList.update i w' p, ps)"

inductive pool_reachable :: "int \<Rightarrow> int \<Rightarrow> (u64 \<times> 'j) WorkThreadPool \<times> (u64 \<times> 'j) list \<Rightarrow> bool" for n k where
  init: "pool_reachable n k (WorkThreadPool_new n k, [])"
| step: "pool_reachable n k s \<Longrightarrow> pool_step s s' \<Longrightarrow> pool_reachable n k s'"

definition jobs_of :: "'j work_item list \<Rightarrow> 'j list" where
  "jobs_of fs = List.map_filter (\<lambda>f. case f of Job j \<Rightarrow> Some j | StopJob \<Rightarrow> None) fs"

lemma jobs_of_simps [simp]:
  "jobs_of [] = []" "jobs_of (Job j # fs) = j # jobs_of fs" "jobs_of (StopJob # fs) = jobs_of fs"
  "jobs_of (fs @ gs) = jobs_of fs @ jobs_of gs"
  by (simp_all add: jobs_of_def map_filter_def)

text \<open>What a thread has been given, in the order it was given.\<close>

definition given :: "'j WorkThread \<Rightarrow> 'j work_item list" where
  "given w = wt_done w @ unfinished w"

lemma given_steps:
  "WorkThread_Start w = Some w' \<Longrightarrow> given w' = given w"
  "WorkThread_Push f w = Some w' \<Longrightarrow> given w' = given w @ [f]"
  "WorkThread_Run w = Some w' \<Longrightarrow> given w' = given w"
  "WorkThread_Join w = Some w' \<Longrightarrow> given w' = given w"
  by (auto simp: WorkThread_Join_def WorkThread_Start_def WorkThread_Push_def WorkThread_Run_def given_def unfinished_def run_item_def Let_def
    split: run_pc.splits if_splits list.splits work_item.splits)

definition pool_ok :: "int \<Rightarrow> (u64 \<times> 'j) WorkThreadPool \<times> (u64 \<times> 'j) list \<Rightarrow> bool" where
  "pool_ok n s \<longleftrightarrow> (case s of (p, ps) \<Rightarrow> length p = nat n \<and>
     (\<forall>i w. map_of p i = Some w \<longrightarrow> jobs_of (given w) = filter (\<lambda>x. fst x mod of_nat (nat n) = i) ps))"

lemma length_AList_update: "map_of p i = Some w \<Longrightarrow> length (AList.update i w' p) = length p"
  by (induction p) (auto split: if_splits)

lemma pool_ok_update:
  assumes "pool_ok n (p, ps)" "map_of p i = Some w" "jobs_of (given w') = jobs_of (given w)"
  shows "pool_ok n (AList.update i w' p, ps)"
  using assms by (auto simp: pool_ok_def update_conv' length_AList_update)

lemma pool_ok_push:
  assumes "pool_ok n (p, ps)" "WorkThreadPool_Push uid (Job (uid, j)) p = Some p'"
  shows "pool_ok n (p', ps @ [(uid, j)])"
proof -
  let ?i = "uid mod of_nat (nat n)"
  obtain w w' where w: "map_of p ?i = Some w" "WorkThread_Push (Job (uid, j)) w = Some w'" "p' = AList.update ?i w' p"
    using assms by (auto simp: WorkThreadPool_Push_def WorkThreadPool_PartitionId_def WorkThreadPool_GetThread_def pool_ok_def
      elim!: bind_eq_SomeE split: if_splits)
  then show ?thesis using assms(1) given_steps(2) [OF w(2)] by (auto simp: pool_ok_def update_conv' length_AList_update)
qed

lemma reachable_pool_ok: "pool_reachable n k s \<Longrightarrow> pool_ok n s"
proof (induction rule: pool_reachable.induct)
  case init
  show ?case
    by (auto simp: pool_ok_def WorkThreadPool_new_def WorkThread_new_def given_def unfinished_def dest!: map_of_SomeD)
next
  case (step s s')
  from step.hyps(2) step.IH show ?case
    by cases (auto simp: WorkThreadPool_GetThread_def WorkThread_Stop_def given_steps pool_ok_push intro!: pool_ok_update)
qed

text \<open>Two jobs and a stop: the second job comes too late.\<close>

lemma work_start: "work_reachable n d (w, ps) \<Longrightarrow> WorkThread_Start w = Some w' \<Longrightarrow> work_reachable n d (w', ps)"
  by (rule work_reachable.step [OF _ work_step.start])

lemma work_push:
  assumes "work_reachable n d (w, ps)" "WorkThread_Push f w = Some w'"
  shows "work_reachable n d (w', ps @ [f])"
  using assms(2) by (intro work_reachable.step [OF assms(1) work_step.push]) (simp_all add: WorkThread_Push_def split: if_splits)

lemma work_run: "work_reachable n d (w, ps) \<Longrightarrow> WorkThread_Run w = Some w' \<Longrightarrow> work_reachable n d (w', ps)"
  by (rule work_reachable.step [OF _ work_step.run])

lemma sample_started:
  "work_reachable 4 False (\<lparr>wt_max_queue_size = 4, wt_started = True, wt_detach = False, wt_functors = [], wt_pc = AtWhile, wt_joinable = True, wt_done = []\<rparr>, [])"
  using work_start [OF work_reachable.init [of 4 False]] by (simp add: WorkThread_new_def WorkThread_Start_def)

lemma sample_session:
  "work_reachable 4 False (\<lparr>wt_max_queue_size = 4, wt_started = False, wt_detach = False, wt_functors = [Job False], wt_pc = Returned,
     wt_joinable = True, wt_done = [Job True, StopJob]\<rparr>, [Job True, StopJob, Job False])"
proof -
  let ?w = "\<lambda>st fs pc ds. \<lparr>wt_max_queue_size = 4, wt_started = st, wt_detach = False, wt_functors = fs, wt_pc = pc, wt_joinable = True, wt_done = ds\<rparr>"
  note sims = WorkThread_Push_def WorkThread_Run_def has_room_def queue_limit_def run_item_def
  have "work_reachable 4 False (?w True [Job True] AtWhile [], [Job True])"
    using work_push [OF sample_started, where f = "Job True"] by (simp add: sims)
  then have "work_reachable 4 False (?w True [Job True, StopJob] AtWhile [], [Job True, StopJob])"
    using work_push [where f = StopJob] by (fastforce simp: sims)
  then have "work_reachable 4 False (?w True [] (Running [Job True, StopJob]) [], [Job True, StopJob])" using work_run by (fastforce simp: sims)
  then have "work_reachable 4 False (?w True [] (Running [StopJob]) [Job True], [Job True, StopJob])" using work_run by (fastforce simp: sims)
  then have "work_reachable 4 False (?w True [Job False] (Running [StopJob]) [Job True], [Job True, StopJob, Job False])"
    using work_push [where f = "Job False"] by (fastforce simp: sims)
  then have "work_reachable 4 False (?w False [Job False] (Running []) [Job True, StopJob], [Job True, StopJob, Job False])" using work_run by (fastforce simp: sims)
  then have "work_reachable 4 False (?w False [Job False] AtWhile [Job True, StopJob], [Job True, StopJob, Job False])" using work_run by (fastforce simp: sims)
  then show ?thesis using work_run by (fastforce simp: sims)
qed

section \<open>Properties\<close>

text \<open>C34. However the pushing threads and the worker interleave, the jobs that have run, then those the worker has taken,
  then those in the queue, are the jobs pushed, in that order: none is lost, run twice or overtaken, and the
  queue never exceeds its limit. When the worker has returned, a stop was pushed and every job pushed before
  the first stop has run.\<close>

theorem jobs_run_in_order:
  assumes "work_reachable n d (w, ps)"
  shows "wt_done w @ taken (wt_pc w) @ wt_functors w = ps \<and> length (wt_functors w) \<le> queue_limit n \<and>
    (wt_pc w = Returned \<longrightarrow> StopJob \<in> set (wt_done w) \<and> prefix (takeWhile (\<lambda>f. f \<noteq> StopJob) ps) (wt_done w))"
proof -
  have "takeWhile (\<lambda>f. f \<noteq> StopJob) (xs @ ys) = takeWhile (\<lambda>f. f \<noteq> StopJob) xs" if "StopJob \<in> set xs" for xs ys :: "'a work_item list"
    using that by (simp add: takeWhile_append1)
  moreover have "work_ok n (w, ps)" by (rule reachable_work_ok [OF assms])
  ultimately show ?thesis
    by (auto simp: work_ok_def unfinished_def takeWhile_is_prefix)
qed

theorem jobs_run_in_order_witness:
  "\<exists>w. work_reachable 4 False (w, [Job True, StopJob, Job False]) \<and> wt_pc w = Returned \<and>
     prefix (takeWhile (\<lambda>f. f \<noteq> StopJob) [Job True, StopJob, Job False]) (wt_done w)"
proof -
  let ?w = "\<lparr>wt_max_queue_size = 4, wt_started = False, wt_detach = False, wt_functors = [Job False], wt_pc = Returned, wt_joinable = True, wt_done = [Job True, StopJob]\<rparr>"
  have "work_reachable 4 False (?w, [Job True, StopJob, Job False])"
    by (rule sample_session)
  from jobs_run_in_order [OF this] this show ?thesis by (intro exI [of _ ?w]) simp
qed

text \<open>C35. A worker that has been started and not stopped runs everything that was pushed: left alone, it reaches after
  finitely many steps a state in which all jobs have run.\<close>

theorem queue_drains:
  assumes "work_reachable n d (w, ps)" "wt_pc w \<noteq> NotStarted" "StopJob \<notin> set ps"
  shows "\<exists>m w'. run_steps m w = Some w' \<and> wt_done w' = ps \<and> wt_functors w' = []"
proof -
  have ok: "work_ok n (w, ps)" by (rule reachable_work_ok [OF assms(1)])
  have started: "wt_started w" using ok assms(2,3) by (auto simp: work_ok_def)
  have pc: "wt_pc w = AtWhile \<or> (\<exists>js. wt_pc w = Running js)" using ok started assms(2) by (cases "wt_pc w") (auto simp: work_ok_def)
  have all: "ps = wt_done w @ taken (wt_pc w) @ wt_functors w" using ok by (simp add: work_ok_def unfinished_def)
  obtain m w1 where w1: "run_steps m w = Some w1" "wt_pc w1 = AtWhile" "wt_started w1" "wt_functors w1 = wt_functors w"
    "wt_done w1 = wt_done w @ taken (wt_pc w)"
    using pc
  proof
    assume "wt_pc w = AtWhile"
    then show thesis using started by (intro that [of 0 w]) simp_all
  next
    assume "\<exists>js. wt_pc w = Running js"
    then obtain js where "wt_pc w = Running js" by blast
    then show thesis using run_taken [of w js] assms(3) started all by (intro that [of "Suc (length js)" "w\<lparr>wt_pc := AtWhile, wt_done := wt_done w @ js\<rparr>"]) auto
  qed
  obtain k w2 where "run_steps k w1 = Some w2" "wt_done w2 = wt_done w1 @ wt_functors w1" "wt_functors w2 = []"
    using run_queued [OF w1(2,3)] w1(4) assms(3) all by auto
  then show ?thesis using run_steps_add [OF w1(1)] w1(4,5) all by auto
qed

theorem queue_drains_witness:
  "\<exists>w m w'. work_reachable 4 False (w, [Job True]) \<and> run_steps m w = Some w' \<and> wt_done w' = [Job True]"
proof -
  let ?w = "\<lparr>wt_max_queue_size = 4, wt_started = True, wt_detach = False, wt_functors = [Job True], wt_pc = AtWhile, wt_joinable = True, wt_done = []\<rparr>"
  have r: "work_reachable 4 False (?w, [Job True])"
    using work_push [OF sample_started, where f = "Job True"] by (simp add: WorkThread_Push_def has_room_def queue_limit_def)
  have "wt_pc ?w \<noteq> NotStarted" "StopJob \<notin> set [Job True]" by simp_all
  from queue_drains [OF r this] r show ?thesis by blast
qed

text \<open>C36. A pool keeps the order of the jobs of an id, whatever happens between them: all of them go to one thread, and
  those that have run are the first ones that were pushed.\<close>

theorem pool_keeps_order_per_id:
  assumes "pool_reachable n k (p, ps)" "WorkThreadPool_GetThread i p = Some w"
  shows "if i = uid mod of_nat (nat n) then prefix (filter (\<lambda>x. fst x = uid) (jobs_of (wt_done w))) (filter (\<lambda>x. fst x = uid) ps)
    else filter (\<lambda>x. fst x = uid) (jobs_of (wt_done w)) = []"
proof -
  have "jobs_of (given w) = filter (\<lambda>x. fst x mod of_nat (nat n) = i) ps"
    using reachable_pool_ok [OF assms(1)] assms(2) by (simp add: pool_ok_def WorkThreadPool_GetThread_def)
  then have "filter (\<lambda>x. fst x = uid) (jobs_of (wt_done w) @ jobs_of (unfinished w)) =
      filter (\<lambda>x. fst x = uid) (filter (\<lambda>x. fst x mod of_nat (nat n) = i) ps)" by (simp add: given_def)
  also have "\<dots> = (if i = uid mod of_nat (nat n) then filter (\<lambda>x. fst x = uid) ps else [])"
    by (auto intro!: filter_cong filter_False)
  finally show ?thesis by (auto simp: prefix_def intro: sym split: if_splits)
qed

theorem pool_keeps_order_per_id_witness:
  "\<exists>p w. pool_reachable 2 4 (p, [(5 :: u64, True), (5, False)]) \<and> WorkThreadPool_GetThread 1 p = Some w \<and>
     prefix (filter (\<lambda>x. fst x = 5) (jobs_of (wt_done w))) [(5, True), (5, False)]"
proof -
  let ?p = "\<lambda>fs. [(0 :: u64, WorkThread_new 4 False), (1, (WorkThread_new 4 False)\<lparr>wt_functors := fs\<rparr>)]"
  note sims = WorkThreadPool_Push_def WorkThreadPool_PartitionId_def WorkThreadPool_GetThread_def WorkThread_Push_def has_room_def
    queue_limit_def WorkThread_new_def
  have "pool_reachable 2 4 (?p [], [] :: (u64 \<times> bool) list)"
    using pool_reachable.init [of 2 4] by (simp add: WorkThreadPool_new_def WorkThread_new_def upt_rec numeral_2_eq_2)
  moreover have "pool_step (?p [], [] :: (u64 \<times> bool) list) (?p [Job (5, True)], [] @ [(5, True)])" by (rule pool_step.push) (simp add: sims)
  ultimately have "pool_reachable 2 4 (?p [Job (5, True)], [(5, True)])" using pool_reachable.step by fastforce
  moreover have "pool_step (?p [Job (5, True)], [(5, True)]) (?p [Job (5, True), Job (5, False)], [(5, True)] @ [(5, False)])"
    by (rule pool_step.push) (simp add: sims)
  ultimately have r: "pool_reachable 2 4 (?p [Job (5, True), Job (5, False)], [(5, True), (5, False)])"
    using pool_reachable.step by fastforce
  have "WorkThreadPool_GetThread 1 (?p [Job (5, True), Job (5, False)]) = Some ((WorkThread_new 4 False)\<lparr>wt_functors := [Job (5, True), Job (5, False)]\<rparr>)"
    by (simp add: WorkThreadPool_GetThread_def)
  from pool_keeps_order_per_id [OF r this, of 5] r this show ?thesis by fastforce
qed

end
