(* ===== verification/UvStream.thy ===== *)
theory UvStream
  imports Prelude
begin

text \<open>
  The stream handle of libuv (src/third_party/libuv/src/unix/stream.c, tcp.c and core.c) as far as the TCP
  classes use it: the flags of the handle, what its watcher polls for, the connect request, and the queues of
  write requests. What the system calls return is an argument. \<open>us_sent\<close> collects the bytes that
  \<^verbatim>\<open>write(2)\<close> has accepted. Platform variants other than Linux, shutdown requests and the passing of
  descriptors are left out.
\<close>

section \<open>The handle\<close>

text \<open>The callback of a write request, one of the two functions of tcp\_connection.cc.\<close>

datatype write_cb = WriteComplete | BufWriteComplete

record UvStream =
  us_active :: bool
  us_closing :: bool
  us_closed :: bool
  us_readable :: bool
  us_writable :: bool
  us_reading :: bool
  us_fd :: bool
  us_pollin :: bool
  us_pollout :: bool
  us_connect_req :: bool
  us_write_queue :: "(bytes \<times> write_cb) list"
  us_write_queue_size :: int
  us_write_completed_queue :: "(bytes \<times> write_cb \<times> int) list"
  us_sent :: bytes

definition uv_tcp_init :: UvStream where
  "uv_tcp_init = \<lparr>us_active = False, us_closing = False, us_closed = False, us_readable = False, us_writable = False,
     us_reading = False, us_fd = False, us_pollin = False, us_pollout = False, us_connect_req = False,
     us_write_queue = [], us_write_queue_size = 0, us_write_completed_queue = [], us_sent = []\<rparr>"

definition UV_EBADF :: int where "UV_EBADF = -9"

definition UV_EINVAL :: int where "UV_EINVAL = -22"

definition UV_EPIPE :: int where "UV_EPIPE = -32"

definition UV_ENOBUFS :: int where "UV_ENOBUFS = -105"

definition UV_ENOTCONN :: int where "UV_ENOTCONN = -107"

definition UV_EALREADY :: int where "UV_EALREADY = -114"

definition UV_ECANCELED :: int where "UV_ECANCELED = -125"

definition UV_EOF :: int where "UV_EOF = -4095"

definition uv_is_closing :: "UvStream \<Rightarrow> bool" where
  "uv_is_closing st \<longleftrightarrow> us_closing st \<or> us_closed st"

section \<open>Reading\<close>

definition uv_read_start :: "UvStream \<Rightarrow> (int \<times> UvStream) option" where
  "uv_read_start st =
     (if us_closing st then Some (UV_EINVAL, st)
      else if \<not> us_readable st then Some (UV_ENOTCONN, st)
      else do {
        check (us_fd st);
        Some (0, st\<lparr>us_reading := True, us_pollin := True, us_active := True\<rparr>) })"

text \<open>The handle is stopped when nothing is polled for any more.\<close>

definition stop_reading :: "UvStream \<Rightarrow> UvStream" where
  "stop_reading st = st\<lparr>us_reading := False, us_pollin := False, us_active := us_active st \<and> us_pollout st\<rparr>"

definition uv_read_stop :: "UvStream \<Rightarrow> UvStream" where
  "uv_read_stop st = (if \<not> us_reading st then st else stop_reading st)"

section \<open>Writing\<close>

datatype sys_write = Wrote nat | WouldBlock | WriteError int

definition uv__write :: "sys_write \<Rightarrow> UvStream \<Rightarrow> UvStream option" where
  "uv__write r st = do {
     check (us_fd st);
     (case us_write_queue st of
        [] \<Rightarrow> Some st
      | (buf, cb) # q \<Rightarrow> (case r of
          Wrote n \<Rightarrow> do {
            check (int n \<le> us_write_queue_size st \<and> n \<le> length buf);
            let st = st\<lparr>us_write_queue_size := us_write_queue_size st - int n, us_sent := us_sent st @ take n buf\<rparr>;
            if n = length buf
            then Some (st\<lparr>us_write_queue := q, us_write_completed_queue := us_write_completed_queue st @ [([], cb, 0)]\<rparr>)
            else Some (st\<lparr>us_write_queue := (drop n buf, cb) # q, us_pollout := True\<rparr>) }
        | WouldBlock \<Rightarrow> Some (st\<lparr>us_pollout := True\<rparr>)
        | WriteError e \<Rightarrow> Some (st\<lparr>us_write_queue := q,
            us_write_completed_queue := us_write_completed_queue st @ [(buf, cb, e)],
            us_pollout := False, us_active := us_active st \<and> us_pollin st\<rparr>))) }"

definition uv_write :: "sys_write \<Rightarrow> bytes \<Rightarrow> write_cb \<Rightarrow> UvStream \<Rightarrow> (int \<times> UvStream) option" where
  "uv_write r buf cb st =
     (if \<not> us_fd st then Some (UV_EBADF, st)
      else if \<not> us_writable st then Some (UV_EPIPE, st)
      else do {
        let empty_queue = (us_write_queue_size st = 0);
        let st = st\<lparr>us_write_queue_size := us_write_queue_size st + int (length buf),
                    us_write_queue := us_write_queue st @ [(buf, cb)]\<rparr>;
        if us_connect_req st then Some (0, st)
        else if empty_queue then do { st \<leftarrow> uv__write r st; Some (0, st) }
        else Some (0, st\<lparr>us_pollout := True\<rparr>) })"

text \<open>The callbacks of the requests that are done, with their status. A request that was written has no buffers left.\<close>

definition uv__write_callbacks :: "UvStream \<Rightarrow> (write_cb \<times> int) list \<times> UvStream" where
  "uv__write_callbacks st = (map (\<lambda>(buf, cb, e). (cb, e)) (us_write_completed_queue st),
     st\<lparr>us_write_completed_queue := [],
        us_write_queue_size := us_write_queue_size st -
          (\<Sum>(buf, cb, e) \<leftarrow> us_write_completed_queue st. int (length buf))\<rparr>)"

definition uv__stream_flush_write_queue :: "int \<Rightarrow> UvStream \<Rightarrow> UvStream" where
  "uv__stream_flush_write_queue error st = st\<lparr>us_write_queue := [],
     us_write_completed_queue := us_write_completed_queue st @ map (\<lambda>(buf, cb). (buf, cb, error)) (us_write_queue st)\<rparr>"

section \<open>Connecting and closing\<close>

text \<open>\<open>sock_err\<close> is the outcome of making the socket, \<open>conn_err\<close> an error of \<^verbatim>\<open>connect(2)\<close> that is reported at once.\<close>

definition uv__tcp_connect :: "int \<Rightarrow> int \<Rightarrow> UvStream \<Rightarrow> int \<times> UvStream" where
  "uv__tcp_connect sock_err conn_err st =
     (if us_connect_req st then (UV_EALREADY, st)
      else if sock_err \<noteq> 0 then (sock_err, st)
      else let st = st\<lparr>us_fd := True, us_readable := True, us_writable := True\<rparr>
           in if conn_err \<noteq> 0 then (conn_err, st) else (0, st\<lparr>us_connect_req := True, us_pollout := True\<rparr>))"

definition uv__stream_close :: "UvStream \<Rightarrow> UvStream" where
  "uv__stream_close st = (uv_read_stop (st\<lparr>us_pollin := False, us_pollout := False\<rparr>))
     \<lparr>us_active := False, us_readable := False, us_writable := False, us_fd := False\<rparr>"

definition uv_close :: "UvStream \<Rightarrow> UvStream option" where
  "uv_close st = do {
     check (\<not> uv_is_closing st);
     Some (uv__stream_close (st\<lparr>us_closing := True\<rparr>)) }"

text \<open>The end of closing: a connect request and the write requests left are cancelled. The result says whether
  there was a connect request, and which write callbacks run; the close callback follows.\<close>

definition uv__finish_close :: "UvStream \<Rightarrow> (bool \<times> (write_cb \<times> int) list \<times> UvStream) option" where
  "uv__finish_close st = do {
     check (us_closing st \<and> \<not> us_closed st);
     let connect_req = us_connect_req st;
     let st = st\<lparr>us_closed := True, us_connect_req := False\<rparr>;
     let (cbs, st) = uv__write_callbacks (uv__stream_flush_write_queue UV_ECANCELED st);
     check (us_write_queue_size st = 0);
     Some (connect_req, cbs, st) }"

section \<open>What is queued and what is sent\<close>

definition queued :: "UvStream \<Rightarrow> bytes" where
  "queued st = concat (map fst (us_write_queue st))"

text \<open>The size the handle keeps is that of the requests in its queue and of the failed ones.\<close>

definition stream_ok :: "UvStream \<Rightarrow> bool" where
  "stream_ok st \<longleftrightarrow> us_write_queue_size st = int (length (queued st)) +
     (\<Sum>(buf, cb, e) \<leftarrow> us_write_completed_queue st. int (length buf))"

lemma uv_tcp_init_ok: "stream_ok uv_tcp_init"
  by (simp add: stream_ok_def uv_tcp_init_def queued_def)

lemma uv__write_ok:
  assumes "uv__write r st = Some st'" "stream_ok st"
  shows "stream_ok st'"
  using assms by (auto simp: uv__write_def stream_ok_def queued_def Let_def split: list.splits sys_write.splits if_splits prod.splits elim!: bind_eq_SomeE)

text \<open>Writing sends a prefix of the queue, unless the socket reports an error, which drops a request.\<close>

lemma uv__write_sends:
  assumes "uv__write r st = Some st'" "\<forall>e. r \<noteq> WriteError e"
  shows "us_sent st' @ queued st' = us_sent st @ queued st"
  using assms by (auto simp: uv__write_def queued_def Let_def split: list.splits sys_write.splits if_splits prod.splits elim!: bind_eq_SomeE)

lemma uv__write_fd: "uv__write r st = Some st' \<Longrightarrow> us_fd st'"
  by (auto simp: uv__write_def Let_def split: list.splits sys_write.splits if_splits prod.splits elim!: bind_eq_SomeE)

lemma uv_write_sends:
  assumes "uv_write r buf cb st = Some (rv, st')" "us_fd st" "us_writable st" "\<forall>e. r \<noteq> WriteError e"
  shows "us_sent st' @ queued st' = us_sent st @ queued st @ buf \<and> us_fd st'"
proof -
  let ?st = "st\<lparr>us_write_queue_size := us_write_queue_size st + int (length buf), us_write_queue := us_write_queue st @ [(buf, cb)]\<rparr>"
  have st: "us_sent ?st @ queued ?st = us_sent st @ queued st @ buf" "us_fd ?st" using assms(2) by (simp_all add: queued_def)
  consider "st' = ?st" | "st' = ?st\<lparr>us_pollout := True\<rparr>" | "uv__write r ?st = Some st'"
    using assms(1-3) by (auto simp: uv_write_def Let_def elim!: bind_eq_SomeE split: if_splits)
  then show ?thesis
    by cases (use st uv__write_sends [OF _ assms(4)] uv__write_fd in \<open>auto simp: queued_def\<close>)
qed

lemma uv__write_flags:
  "uv__write r st = Some st' \<Longrightarrow> us_closed st' = us_closed st \<and> us_closing st' = us_closing st \<and> us_reading st' = us_reading st"
  by (auto simp: uv__write_def Let_def split: list.splits sys_write.splits if_splits prod.splits elim!: bind_eq_SomeE)

lemma uv_write_ok:
  assumes "uv_write r buf cb st = Some (rv, st')" "stream_ok st"
  shows "stream_ok st' \<and> us_closed st' = us_closed st \<and> us_closing st' = us_closing st \<and> us_reading st' = us_reading st"
proof -
  let ?st = "st\<lparr>us_write_queue_size := us_write_queue_size st + int (length buf), us_write_queue := us_write_queue st @ [(buf, cb)]\<rparr>"
  have ok: "stream_ok ?st" using assms(2) by (simp add: stream_ok_def queued_def)
  consider "st' = st" | "st' = ?st" | "st' = ?st\<lparr>us_pollout := True\<rparr>" | "uv__write r ?st = Some st'"
    using assms(1) by (auto simp: uv_write_def Let_def elim!: bind_eq_SomeE split: if_splits)
  then show ?thesis
  proof cases
    case 4
    from uv__write_ok [OF 4 ok] uv__write_flags [OF 4] show ?thesis by simp
  qed (use ok assms(2) in \<open>simp_all add: stream_ok_def queued_def\<close>)
qed

end
