(* ===== verification/TcpConnection.thy ===== *)
theory TcpConnection
  imports ServerLoop UvStream
begin

text \<open>
  A TCP connection (src/src/seda/tcp\_connection.h and tcp\_connection.cc) over the stream handle of libuv: sending,
  receiving into the input buffer, completing writes and closing. Everything here runs in the thread of the
  event loop. The callback for messages is an argument: it takes from the buffer and changes a state of its
  own; \<open>None\<close> covers a callback that never returns.
\<close>

section \<open>The connection\<close>

record TcpConnection =
  tc_name :: bytes
  tc_conn :: UvStream
  tc_input_buf :: Buffer
  tc_freed :: nat
  tc_write_completed :: nat
  tc_removed :: bool

type_synonym 's on_message = "(Buffer \<times> 's \<Rightarrow> (Buffer \<times> 's) option) option"

text \<open>Its addresses are asked for and must be there, which they are for a socket.\<close>

definition TcpConnection_new :: "bytes \<Rightarrow> bytes \<Rightarrow> UvStream \<Rightarrow> TcpConnection option" where
  "TcpConnection_new junk name conn = do {
     buf \<leftarrow> Buffer_default junk;
     check (us_fd conn);
     Some \<lparr>tc_name = name, tc_conn = conn, tc_input_buf = buf, tc_freed = 0, tc_write_completed = 0, tc_removed = False\<rparr> }"

definition TcpConnection_Start :: "TcpConnection \<Rightarrow> (int \<times> TcpConnection) option" where
  "TcpConnection_Start c = do {
     (rv, st) \<leftarrow> uv_read_start (tc_conn c);
     Some (rv, c\<lparr>tc_conn := st\<rparr>) }"

definition TcpConnection_Close :: "TcpConnection \<Rightarrow> (int \<times> TcpConnection) option" where
  "TcpConnection_Close c =
     (if \<not> uv_is_closing (tc_conn c) then do {
        st \<leftarrow> uv_close (tc_conn c);
        Some (0, c\<lparr>tc_conn := st\<rparr>) }
      else Some (0, c))"

definition TcpConnection_Connected :: "TcpConnection \<Rightarrow> bool" where
  "TcpConnection_Connected c \<longleftrightarrow> us_active (tc_conn c) \<and> us_readable (tc_conn c) \<and> us_writable (tc_conn c)"

section \<open>Sending\<close>

text \<open>The three ways to send differ in who owns the memory; the result of the write itself is ignored.\<close>

definition conn_send :: "write_cb \<Rightarrow> sys_write \<Rightarrow> bytes \<Rightarrow> TcpConnection \<Rightarrow> (int \<times> TcpConnection) option" where
  "conn_send cb r buf c =
     (if \<not> TcpConnection_Connected c then Some (-1, c)
      else do {
        (rv, st) \<leftarrow> uv_write r buf cb (tc_conn c);
        Some (0, c\<lparr>tc_conn := st\<rparr>) })"

definition TcpConnection_Send :: "sys_write \<Rightarrow> bytes \<Rightarrow> TcpConnection \<Rightarrow> (int \<times> TcpConnection) option" where
  "TcpConnection_Send = conn_send WriteComplete"

definition TcpConnection_CopySend :: "sys_write \<Rightarrow> bytes \<Rightarrow> TcpConnection \<Rightarrow> (int \<times> TcpConnection) option" where
  "TcpConnection_CopySend = conn_send BufWriteComplete"

definition TcpConnection_BufSend :: "sys_write \<Rightarrow> bytes \<Rightarrow> TcpConnection \<Rightarrow> (int \<times> TcpConnection) option" where
  "TcpConnection_BufSend = conn_send BufWriteComplete"

text \<open>The callbacks of a write: the request is freed, and with \<^verbatim>\<open>BufWriteComplete\<close> the copy of the data too.\<close>

definition write_complete :: "write_cb \<times> int \<Rightarrow> TcpConnection \<Rightarrow> TcpConnection option" where
  "write_complete x c = (case x of (cb, status) \<Rightarrow> do {
     check (status = 0);
     let n = (case cb of WriteComplete \<Rightarrow> 1 | BufWriteComplete \<Rightarrow> 2);
     Some (c\<lparr>tc_freed := tc_freed c + n, tc_write_completed := Suc (tc_write_completed c)\<rparr>) })"

fun write_completes :: "(write_cb \<times> int) list \<Rightarrow> TcpConnection \<Rightarrow> TcpConnection option" where
  "write_completes [] c = Some c"
| "write_completes (x # xs) c = do { c \<leftarrow> write_complete x c; write_completes xs c }"

text \<open>The socket has become writable.\<close>

definition uv_writable_event :: "sys_write \<Rightarrow> TcpConnection \<Rightarrow> TcpConnection option" where
  "uv_writable_event r c = do {
     check (\<not> us_closing (tc_conn c));
     st \<leftarrow> uv__write r (tc_conn c);
     let (cbs, st) = uv__write_callbacks st;
     c \<leftarrow> write_completes cbs (c\<lparr>tc_conn := st\<rparr>);
     Some (if us_write_queue (tc_conn c) = [] then c\<lparr>tc_conn := (tc_conn c)\<lparr>us_pollout := False\<rparr>\<rparr> else c) }"

text \<open>The loop finishes closing: the requests left are completed with an error, then the close callback removes
  the connection from its owner.\<close>

definition HandleClientClose :: "TcpConnection \<Rightarrow> TcpConnection option" where
  "HandleClientClose c = do {
     (_, cbs, st) \<leftarrow> uv__finish_close (tc_conn c);
     c \<leftarrow> write_completes cbs (c\<lparr>tc_conn := st\<rparr>);
     Some (c\<lparr>tc_removed := True\<rparr>) }"

section \<open>Receiving\<close>

definition TcpConnection_OnMessage :: "(nat \<Rightarrow> nat) \<Rightarrow> 's on_message \<Rightarrow> bytes \<Rightarrow> TcpConnection \<times> 's \<Rightarrow> (TcpConnection \<times> 's) option" where
  "TcpConnection_OnMessage grow on_message_cb data = (\<lambda>(c, s). do {
     buf \<leftarrow> Buffer_Append grow data (tc_input_buf c);
     (case on_message_cb of
        Some cb \<Rightarrow> do {
          (buf, s) \<leftarrow> cb (buf, s);
          Some (c\<lparr>tc_input_buf := buf\<rparr>, s) }
      | None \<Rightarrow> Some (c\<lparr>tc_input_buf := Buffer_RetrieveAll buf\<rparr>, s)) })"

text \<open>Anything but data is taken for an error.\<close>

definition TcpConnectionHandleRead :: "(nat \<Rightarrow> nat) \<Rightarrow> 's on_message \<Rightarrow> int \<Rightarrow> bytes \<Rightarrow> TcpConnection \<times> 's \<Rightarrow> (TcpConnection \<times> 's) option" where
  "TcpConnectionHandleRead grow cb nread data = (\<lambda>(c, s).
     if nread > 0 then TcpConnection_OnMessage grow cb data (c, s)
     else do {
       st \<leftarrow> uv_close (tc_conn c);
       Some (c\<lparr>tc_conn := st\<rparr>, s) })"

text \<open>What a \<^verbatim>\<open>read(2)\<close> finds: data, nothing at the moment, the end, an error.\<close>

datatype sys_read = Data bytes | Again | EndOfFile | ReadError int

text \<open>libuv reads straight into the free part of the input buffer, up to 32 times in a row, and goes on only if a read
  has filled all of it. When the list of reads is used up there is nothing to read at the moment.\<close>

fun uv__read :: "(nat \<Rightarrow> nat) \<Rightarrow> 's on_message \<Rightarrow> nat \<Rightarrow> sys_read list \<Rightarrow> TcpConnection \<times> 's \<Rightarrow> (TcpConnection \<times> 's) option" where
  "uv__read grow cb 0 reads x = Some x"
| "uv__read grow cb (Suc count) reads (c, s) =
     (if \<not> us_reading (tc_conn c) then Some (c, s)
      else let len = WritableBytes (tc_input_buf c) in
      if len = 0 then TcpConnectionHandleRead grow cb UV_ENOBUFS [] (c, s)
      else do {
        check (us_fd (tc_conn c));
        (case reads of
           [] \<Rightarrow> TcpConnectionHandleRead grow cb 0 [] (c, s)
         | Again # _ \<Rightarrow> TcpConnectionHandleRead grow cb 0 [] (c, s)
         | ReadError e # _ \<Rightarrow> do {
             check (e < 0);
             (c, s) \<leftarrow> TcpConnectionHandleRead grow cb e [] (c, s);
             Some (c\<lparr>tc_conn := uv_read_stop (tc_conn c)\<rparr>, s) }
         | EndOfFile # _ \<Rightarrow> TcpConnectionHandleRead grow cb UV_EOF [] (c\<lparr>tc_conn := stop_reading (tc_conn c)\<rparr>, s)
         | Data d # reads' \<Rightarrow> do {
             check (d \<noteq> [] \<and> int (length d) \<le> len);
             (c, s) \<leftarrow> TcpConnectionHandleRead grow cb (int (length d)) d (c, s);
             if int (length d) < len then Some (c, s) else uv__read grow cb count reads' (c, s) }) })"

definition uv_readable_event :: "(nat \<Rightarrow> nat) \<Rightarrow> 's on_message \<Rightarrow> sys_read list \<Rightarrow> TcpConnection \<times> 's \<Rightarrow> (TcpConnection \<times> 's) option" where
  "uv_readable_event grow cb reads x = do {
     check (\<not> us_closing (tc_conn (fst x)));
     uv__read grow cb 32 reads x }"

section \<open>What arrives\<close>

definition conn_open :: "TcpConnection \<Rightarrow> bool" where
  "conn_open c \<longleftrightarrow> us_reading (tc_conn c) \<and> us_fd (tc_conn c) \<and> \<not> uv_is_closing (tc_conn c) \<and> buffer_ok (tc_input_buf c)"

text \<open>A read that does not fill the buffer puts its data behind what is pending and calls the callback once.\<close>

lemma read_event:
  assumes "conn_open c" "d \<noteq> []" "int (length d) < WritableBytes (tc_input_buf c)"
  shows "\<exists>buf. buffer_ok buf \<and> pending buf = pending (tc_input_buf c) @ d \<and>
    uv_readable_event grow (Some cb) (Data d # reads) (c, s) = do { (buf, s) \<leftarrow> cb (buf, s); Some (c\<lparr>tc_input_buf := buf\<rparr>, s) }"
proof -
  obtain buf where buf: "Buffer_Append grow d (tc_input_buf c) = Some buf" "buffer_ok buf" "pending buf = pending (tc_input_buf c) @ d"
    using Append_fits [of "tc_input_buf c" d grow] assms by (auto simp: conn_open_def)
  have "uv_readable_event grow (Some cb) (Data d # reads) (c, s) = do { (buf, s) \<leftarrow> cb (buf, s); Some (c\<lparr>tc_input_buf := buf\<rparr>, s) }"
    using assms buf(1)
    by (auto simp: uv_readable_event_def conn_open_def uv_is_closing_def numeral_eq_Suc Let_def TcpConnectionHandleRead_def
      TcpConnection_OnMessage_def split: Option.bind_splits)
  with buf show ?thesis by blast
qed

section \<open>What is sent\<close>

text \<open>Frames are sent one after the other; between them and afterwards the socket takes more of the queue.\<close>

datatype send_event = SendFrame bytes sys_write | Writable sys_write

fun send_run :: "send_event list \<Rightarrow> TcpConnection \<Rightarrow> TcpConnection option" where
  "send_run [] c = Some c"
| "send_run (SendFrame f r # es) c = do {
     (rv, c) \<leftarrow> TcpConnection_CopySend r f c;
     check (rv = 0);
     send_run es c }"
| "send_run (Writable r # es) c = do { c \<leftarrow> uv_writable_event r c; send_run es c }"

fun frames_of :: "send_event list \<Rightarrow> bytes list" where
  "frames_of [] = []"
| "frames_of (SendFrame f r # es) = f # frames_of es"
| "frames_of (Writable r # es) = frames_of es"

fun sys_ok :: "send_event \<Rightarrow> bool" where
  "sys_ok (SendFrame f (WriteError e)) = False"
| "sys_ok (Writable (WriteError e)) = False"
| "sys_ok _ = True"

lemma write_completes_conn: "write_completes cbs c = Some c' \<Longrightarrow> tc_conn c' = tc_conn c \<and> tc_input_buf c' = tc_input_buf c"
  by (induction cbs arbitrary: c) (auto simp: write_complete_def Let_def elim!: bind_eq_SomeE split: if_splits)

lemma failed_write_aborts: "(cb, e) \<in> set cbs \<Longrightarrow> e \<noteq> 0 \<Longrightarrow> write_completes cbs c = None"
  by (induction cbs arbitrary: c) (auto simp: write_complete_def split: Option.bind_splits)

lemma CopySend_queues:
  assumes "TcpConnection_CopySend r f c = Some (0, c')" "\<forall>e. r \<noteq> WriteError e" "us_fd (tc_conn c)"
  shows "us_sent (tc_conn c') @ queued (tc_conn c') = us_sent (tc_conn c) @ queued (tc_conn c) @ f \<and> us_fd (tc_conn c')"
proof -
  obtain rv where "uv_write r f BufWriteComplete (tc_conn c) = Some (rv, tc_conn c')" "us_writable (tc_conn c)"
    using assms(1) by (auto simp: TcpConnection_CopySend_def conn_send_def TcpConnection_Connected_def elim!: bind_eq_SomeE split: if_splits)
  then show ?thesis using uv_write_sends assms(2,3) by blast
qed

lemma writable_event_sends:
  assumes "uv_writable_event r c = Some c'" "\<forall>e. r \<noteq> WriteError e"
  shows "us_sent (tc_conn c') @ queued (tc_conn c') = us_sent (tc_conn c) @ queued (tc_conn c) \<and> us_fd (tc_conn c')"
proof -
  obtain st c1 where st: "uv__write r (tc_conn c) = Some st"
    "write_completes (fst (uv__write_callbacks st)) (c\<lparr>tc_conn := snd (uv__write_callbacks st)\<rparr>) = Some c1"
    "tc_conn c' = tc_conn c1 \<or> tc_conn c' = (tc_conn c1)\<lparr>us_pollout := False\<rparr>"
    using assms(1) by (auto simp: uv_writable_event_def Let_def elim!: bind_eq_SomeE split: if_splits prod.splits)
  have "us_sent (tc_conn c') = us_sent st \<and> queued (tc_conn c') = queued st \<and> us_fd (tc_conn c') = us_fd st"
    using st(3) write_completes_conn [OF st(2)] by (auto simp: uv__write_callbacks_def queued_def)
  then show ?thesis using uv__write_sends [OF st(1) assms(2)] uv__write_fd [OF st(1)] by simp
qed

text \<open>What the network has been given and what is still queued are the frames sent, in order.\<close>

lemma send_run_order:
  assumes "send_run es c = Some c'" "list_all sys_ok es" "us_fd (tc_conn c)"
  shows "us_sent (tc_conn c') @ queued (tc_conn c') = us_sent (tc_conn c) @ queued (tc_conn c) @ concat (frames_of es)"
  using assms
proof (induction es arbitrary: c)
  case (Cons e es)
  show ?case
  proof (cases e)
    case (SendFrame f r)
    then obtain c1 where c1: "TcpConnection_CopySend r f c = Some (0, c1)" "send_run es c1 = Some c'"
      using Cons.prems(1) by (auto elim!: bind_eq_SomeE split: if_splits)
    have "\<forall>e. r \<noteq> WriteError e" using Cons.prems(2) SendFrame by auto
    from CopySend_queues [OF c1(1) this Cons.prems(3)] Cons.IH [OF c1(2)] Cons.prems(2) SendFrame show ?thesis by simp
  next
    case (Writable r)
    then obtain c1 where c1: "uv_writable_event r c = Some c1" "send_run es c1 = Some c'"
      using Cons.prems(1) by (auto elim!: bind_eq_SomeE)
    have "\<forall>e. r \<noteq> WriteError e" using Cons.prems(2) Writable by auto
    from writable_event_sends [OF c1(1) this] Cons.IH [OF c1(2)] Cons.prems(2) Writable show ?thesis by simp
  qed
qed simp

text \<open>A connection on which nothing has happened yet.\<close>

definition sample_stream :: UvStream where
  "sample_stream = uv_tcp_init\<lparr>us_active := True, us_readable := True, us_writable := True, us_reading := True, us_fd := True, us_pollin := True\<rparr>"

definition sample_conn :: "Buffer \<Rightarrow> TcpConnection" where
  "sample_conn buf = \<lparr>tc_name = [], tc_conn = sample_stream, tc_input_buf = buf, tc_freed = 0, tc_write_completed = 0, tc_removed = False\<rparr>"

lemmas sample_defs = sample_conn_def sample_stream_def uv_tcp_init_def

lemma sample_send:
  "\<exists>c'. send_run [SendFrame f (Wrote (length f))] (sample_conn buf) = Some c' \<and> us_sent (tc_conn c') = f \<and> us_write_queue (tc_conn c') = []"
  by (simp add: sample_defs TcpConnection_CopySend_def conn_send_def TcpConnection_Connected_def uv_write_def uv__write_def Let_def)

lemma sample_conn_open: "buffer_ok buf \<Longrightarrow> conn_open (sample_conn buf)"
  by (simp add: conn_open_def sample_defs uv_is_closing_def)

section \<open>Properties\<close>

text \<open>C28. Messages travel from server to server: when one side sends over a connection the frames of messages that the decoders
  can read back (\<open>sendable\<close>), whatever parts of them the socket takes at a time, and all of the bytes are there when the
  other side, whose buffer has room for more, reads, then every message is handled once, in the order sent,
  and the buffer of the receiver is empty again.\<close>

theorem messages_travel:
  assumes "list_all2 (\<lambda>m f. wire m = Some f \<and> sendable m) ms (frames_of es)" "ap_entries (raw_AppendEntries raw) = []" "ms \<noteq> []"
    and "send_run es c = Some c'" "list_all sys_ok es" "us_fd (tc_conn c)" "us_sent (tc_conn c) = []" "us_write_queue (tc_conn c) = []"
    and "us_write_queue (tc_conn c') = []" "conn_open d" "pending (tc_input_buf d) = []"
    and "int (length (us_sent (tc_conn c'))) < WritableBytes (tc_input_buf d)"
  shows "\<exists>buf. uv_readable_event grow (Some (\<lambda>x. RaftServer_OnMessage resolve L S junk raw now x \<bind> id))
      (Data (us_sent (tc_conn c')) # reads) (d, sv, out) =
    map_option (\<lambda>st. (d\<lparr>tc_input_buf := buf\<rparr>, st))
      (handle_all (handle_incoming resolve L S junk) (map (\<lambda>m. FromPeer (stamped now m)) ms) (sv, out)) \<and> pending buf = []"
proof -
  have sent: "us_sent (tc_conn c') = concat (frames_of es)"
    using send_run_order [OF assms(4-6)] assms(7-9) by (simp add: queued_def)
  have deliver: "list_all2 (delivers (parse_body raw now)) (frames_of es) (map (\<lambda>m. FromPeer (stamped now m)) ms)"
    by (rule wires_deliver [OF assms(1,2)])
  then have "us_sent (tc_conn c') \<noteq> []"
    using sent assms(3) by (cases ms; cases "frames_of es") (auto simp: delivers_def)
  then obtain buf where buf: "buffer_ok buf" "pending buf = concat (frames_of es) @ []"
    and event: "uv_readable_event grow (Some (\<lambda>x. RaftServer_OnMessage resolve L S junk raw now x \<bind> id))
      (Data (us_sent (tc_conn c')) # reads) (d, sv, out) =
      do { (buf, s) \<leftarrow> RaftServer_OnMessage resolve L S junk raw now (buf, sv, out) \<bind> id; Some (d\<lparr>tc_input_buf := buf\<rparr>, s) }"
    using read_event [OF assms(10) _ assms(12)] sent assms(11) by fastforce
  from loop_frames [OF deliver buf, of "handle_incoming resolve L S junk" "(sv, out)"] obtain buf' where
    "RaftServer_OnMessage resolve L S junk raw now (buf, sv, out) =
      Some (map_option (\<lambda>st. (buf', st)) (handle_all (handle_incoming resolve L S junk) (map (\<lambda>m. FromPeer (stamped now m)) ms) (sv, out)))"
    "pending buf' = []" by (auto simp: RaftServer_OnMessage_def)
  with event show ?thesis by (auto simp: map_option_case split: option.splits)
qed

theorem messages_travel_witness:
  "\<exists>m f c' d buf raw. wire (MRequestVote m) = Some f \<and> send_run [SendFrame f (Wrote (length f))] (sample_conn d) = Some c' \<and>
     (\<forall>sv :: ((bytes \<times> bytes) list, unit, unit, unit, unit, unit) RaftServer. \<exists>buf'.
       uv_readable_event id (Some (\<lambda>x. RaftServer_OnMessage (\<lambda>_. None) alist_store no_sm 0 raw 0 x \<bind> id)) [Data (us_sent (tc_conn c'))]
         (sample_conn buf, sv, []) =
       map_option (\<lambda>st. ((sample_conn buf)\<lparr>tc_input_buf := buf'\<rparr>, st))
         (handle_all (handle_incoming (\<lambda>_. None) alist_store no_sm 0) [FromPeer (stamped 0 (MRequestVote m))] (sv, [])))"
proof -
  let ?a = "RaftAddr 1 2 3"
  let ?m = "\<lparr>rv_src = ?a, rv_dest = ?a, rv_term = 1, rv_uid = 2, rv_send_ts = 3, rv_elapse = 4,
    rv_last_log_index = 5, rv_last_log_term = 6, rv_leader_transfer = False, rv_pre_vote = False\<rparr>"
  obtain f where f: "wire (MRequestVote ?m) = Some f"
    using request_vote.encoded [of ?m] by (auto simp: frame_def MsgHeader_ToString_def)
  obtain raw :: raw_objects where raw: "ap_entries (raw_AppendEntries raw) = []"
    by (metis AppendEntries.select_convs(10) raw_objects.select_convs(5))
  obtain buf where "Buffer_new [] (int (length f) + 2) 1 = Some buf" by (simp add: Buffer_new_def)
  note buf = new_ok [OF this]
  obtain c' where c': "send_run [SendFrame f (Wrote (length f))] (sample_conn buf) = Some c'" "us_sent (tc_conn c') = f" "us_write_queue (tc_conn c') = []"
    using sample_send by blast
  have "\<exists>buf'. uv_readable_event id (Some (\<lambda>x. RaftServer_OnMessage (\<lambda>_. None) alist_store no_sm 0 raw 0 x \<bind> id)) [Data (us_sent (tc_conn c'))]
         (sample_conn buf, sv, []) =
       map_option (\<lambda>st. ((sample_conn buf)\<lparr>tc_input_buf := buf'\<rparr>, st))
         (handle_all (handle_incoming (\<lambda>_. None) alist_store no_sm 0) (map (\<lambda>m. FromPeer (stamped 0 m)) [MRequestVote ?m]) (sv, [])) \<and> pending buf' = []"
    for sv :: "((bytes \<times> bytes) list, unit, unit, unit, unit, unit) RaftServer"
    by (rule messages_travel [OF _ raw _ c'(1) _ _ _ _ c'(3)]) (use f buf c'(2) sample_conn_open in \<open>auto simp: sample_defs\<close>)
  then have "\<forall>sv :: ((bytes \<times> bytes) list, unit, unit, unit, unit, unit) RaftServer. \<exists>buf'.
       uv_readable_event id (Some (\<lambda>x. RaftServer_OnMessage (\<lambda>_. None) alist_store no_sm 0 raw 0 x \<bind> id)) [Data (us_sent (tc_conn c'))]
         (sample_conn buf, sv, []) =
       map_option (\<lambda>st. ((sample_conn buf)\<lparr>tc_input_buf := buf'\<rparr>, st))
         (handle_all (handle_incoming (\<lambda>_. None) alist_store no_sm 0) [FromPeer (stamped 0 (MRequestVote ?m))] (sv, []))"
    by (simp only: list.map) blast
  with f c'(1) show ?thesis by blast
qed

text \<open>C29. A read that fills the free part of the input buffer when no more bytes have arrived ends the connection, even
  if the callback has handled all of the data: libuv reads again and reports that there is nothing to
  read at the moment, or that there is no buffer, and the connection takes both for errors and closes.\<close>

theorem full_read_closes:
  assumes "conn_open c" "d \<noteq> []" "int (length d) = WritableBytes (tc_input_buf c)"
    and "\<And>buf. buffer_ok buf \<Longrightarrow> pending buf = pending (tc_input_buf c) @ d \<Longrightarrow> \<exists>buf' s'. cb (buf, s) = Some (buf', s')"
  shows "\<exists>c' s'. uv_readable_event grow (Some cb) [Data d] (c, s) = Some (c', s') \<and> us_closing (tc_conn c') \<and> \<not> us_reading (tc_conn c')"
proof -
  obtain buf where buf: "Buffer_Append grow d (tc_input_buf c) = Some buf" "buffer_ok buf" "pending buf = pending (tc_input_buf c) @ d"
    using Append_fits [of "tc_input_buf c" d grow] assms by (auto simp: conn_open_def)
  obtain buf' s' where "cb (buf, s) = Some (buf', s')" using assms(4) [OF buf(2,3)] by blast
  with assms(1-3) buf show ?thesis
    by (auto simp: uv_readable_event_def conn_open_def uv_is_closing_def numeral_eq_Suc Let_def TcpConnectionHandleRead_def
      TcpConnection_OnMessage_def UV_ENOBUFS_def uv_close_def uv__stream_close_def uv_read_stop_def stop_reading_def)
qed

theorem full_read_closes_witness:
  "\<exists>buf c' s'. Buffer_new [] 4 2 = Some buf \<and>
     uv_readable_event id (Some (\<lambda>(b, n). Some (Buffer_RetrieveAll b, Suc n))) [Data [1, 2, 3, 4]] (sample_conn buf, 0) = Some (c', s') \<and>
     us_closing (tc_conn c')"
proof -
  obtain buf where new: "Buffer_new [] 4 2 = Some buf" by (simp add: Buffer_new_def)
  note buf = new_ok [OF new]
  have "\<exists>c' s'. uv_readable_event id (Some (\<lambda>(b, n). Some (Buffer_RetrieveAll b, Suc n))) [Data [1, 2, 3, 4]] (sample_conn buf, 0) = Some (c', s') \<and>
     us_closing (tc_conn c') \<and> \<not> us_reading (tc_conn c')"
    by (rule full_read_closes) (use buf sample_conn_open in \<open>auto simp: sample_conn_def\<close>)
  with new show ?thesis by blast
qed

text \<open>C30. Closing a connection that has data left to send ends the process: the requests in the queue are completed with
  an error, which the callback asserts not to see.\<close>

theorem close_with_unsent_data_aborts:
  assumes "us_write_queue (tc_conn c) \<noteq> []" "\<not> uv_is_closing (tc_conn c)"
  shows "\<exists>c'. TcpConnection_Close c = Some (0, c') \<and> HandleClientClose c' = None"
proof -
  obtain buf cb q where q: "us_write_queue (tc_conn c) = (buf, cb) # q" using assms(1) by (cases "us_write_queue (tc_conn c)") auto
  obtain st where st: "uv_close (tc_conn c) = Some st" "us_write_queue st = (buf, cb) # q"
    using assms(2) q by (simp add: uv_close_def uv__stream_close_def uv_read_stop_def stop_reading_def)
  have "(cb, UV_ECANCELED) \<in> set cbs" if "uv__finish_close st = Some (b, cbs, st')" for b cbs st'
    using that st(2)
    by (auto simp: uv__finish_close_def uv__write_callbacks_def uv__stream_flush_write_queue_def Let_def image_iff split: if_splits)
  then have "write_completes cbs c1 = None" if "uv__finish_close st = Some (b, cbs, st')" for b cbs st' c1
    using that failed_write_aborts by (force simp: UV_ECANCELED_def)
  then have "HandleClientClose (c\<lparr>tc_conn := st\<rparr>) = None"
    by (auto simp: HandleClientClose_def split: Option.bind_splits)
  with st(1) assms(2) show ?thesis by (auto simp: TcpConnection_Close_def)
qed

theorem close_with_unsent_data_aborts_witness:
  "\<exists>c c'. TcpConnection_CopySend WouldBlock [7] (sample_conn undefined) = Some (0, c) \<and> TcpConnection_Close c = Some (0, c') \<and>
     HandleClientClose c' = None"
proof -
  obtain c where c: "TcpConnection_CopySend WouldBlock [7] (sample_conn undefined) = Some (0, c)" "us_write_queue (tc_conn c) \<noteq> []"
    "\<not> uv_is_closing (tc_conn c)"
    by (simp add: sample_defs TcpConnection_CopySend_def conn_send_def TcpConnection_Connected_def uv_write_def uv__write_def Let_def uv_is_closing_def)
  from close_with_unsent_data_aborts [OF c(2,3)] c(1) show ?thesis by blast
qed

end
