(* ===== verification/TcpClient.thy ===== *)
theory TcpClient
  imports TcpConnection
begin

text \<open>
  The client side of a connection (src/src/seda/connector.cc and tcp\_client.cc), and how a server sends through the
  clients it keeps, one for each peer (src/src/raft/raft\_server.cc). Everything here runs in the thread of the
  event loop, so that \<^verbatim>\<open>RunFunctor\<close> calls at once. The outcomes of making a socket and of connecting are
  arguments, as is what the allocated memory of a new input buffer contains.
\<close>

section \<open>Connector\<close>

record Connector =
  cn_conn :: "UvStream option"
  cn_retry_timer :: Timer
  cn_timer_closed :: bool
  cn_close_cb :: bool
  cn_closed :: nat

definition retry_interval_ms :: u64 where
  "retry_interval_ms = 1000"

definition Connector_new :: Connector where
  "Connector_new = \<lparr>cn_conn = Some uv_tcp_init, cn_retry_timer = Timer_new 0 retry_interval_ms TimerConnectCb,
     cn_timer_closed = False, cn_close_cb = False, cn_closed = 0\<rparr>"

text \<open>The handle is moved to the connection when one is made; connecting without it follows a null pointer.\<close>

definition Connector_Connect :: "int \<times> int \<Rightarrow> Connector \<Rightarrow> (int \<times> Connector) option" where
  "Connector_Connect env c = do {
     st \<leftarrow> cn_conn c;
     let (rv, st) = uv__tcp_connect (fst env) (snd env) st;
     Some (rv, c\<lparr>cn_conn := Some st\<rparr>) }"

fun connect_loop :: "nat \<Rightarrow> (nat \<Rightarrow> int \<times> int) \<Rightarrow> int \<Rightarrow> Connector \<Rightarrow> (int \<times> Connector) option" where
  "connect_loop 0 env rv c = Some (rv, c)"
| "connect_loop (Suc n) env rv c = do {
     (rv, c) \<leftarrow> Connector_Connect (env 0) c;
     if rv = 0 then Some (rv, c) else connect_loop n (\<lambda>i. env (Suc i)) rv c }"

definition Connector_Connect_times :: "int \<Rightarrow> (nat \<Rightarrow> int \<times> int) \<Rightarrow> Connector \<Rightarrow> (int \<times> Connector) option" where
  "Connector_Connect_times retry_times env c = connect_loop (nat retry_times) env 0 c"

definition Connector_TimerConnect :: "int \<Rightarrow> Connector \<Rightarrow> (int \<times> Connector) option" where
  "Connector_TimerConnect retry_times c =
     (if retry_times > 0 then do {
        t \<leftarrow> Timer_Start (Timer_set_repeat_times retry_times (cn_retry_timer c));
        Some (0, c\<lparr>cn_retry_timer := t\<rparr>) }
      else Some (0, c))"

text \<open>The callback of the retry timer.\<close>

definition Connector_on_timer :: "int \<times> int \<Rightarrow> Connector \<Rightarrow> Connector option" where
  "Connector_on_timer env c =
     (if t_repeat_counter (cn_retry_timer c) > 0 then do {
        let c = c\<lparr>cn_retry_timer := Timer_RepeatDecr (cn_retry_timer c)\<rparr>;
        (r, c) \<leftarrow> Connector_Connect env c;
        Some c }
      else Some (c\<lparr>cn_retry_timer := Timer_Stop (cn_retry_timer c)\<rparr>))"

definition Connector_Close :: "Connector \<Rightarrow> (int \<times> Connector) option" where
  "Connector_Close c = do {
     let c = c\<lparr>cn_retry_timer := Timer_Close (cn_retry_timer c)\<rparr>;
     c \<leftarrow> (case cn_conn c of
              Some st \<Rightarrow> do { st \<leftarrow> uv_close st; Some (c\<lparr>cn_conn := Some st\<rparr>) }
            | None \<Rightarrow> Some c);
     Some (0, if cn_close_cb c then c\<lparr>cn_closed := Suc (cn_closed c)\<rparr> else c) }"

text \<open>The loop has finished closing the retry timer.\<close>

definition Connector_timer_closed :: "Connector \<Rightarrow> Connector option" where
  "Connector_timer_closed c = do {
     check (uv_closing (cn_retry_timer c) \<and> \<not> cn_timer_closed c);
     Some (c\<lparr>cn_timer_closed := True\<rparr>) }"

section \<open>Client\<close>

record TcpClient =
  cl_name :: bytes
  cl_connector :: Connector
  cl_connection :: "TcpConnection option"
  cl_close_cb :: bool

definition TcpClient_new :: "bytes \<Rightarrow> TcpClient" where
  "TcpClient_new name = \<lparr>cl_name = name, cl_connector = Connector_new, cl_connection = None, cl_close_cb = False\<rparr>"

definition TcpClient_Connect_times :: "int \<Rightarrow> (nat \<Rightarrow> int \<times> int) \<Rightarrow> TcpClient \<Rightarrow> (int \<times> TcpClient) option" where
  "TcpClient_Connect_times retry_times env c = do {
     (rv, cn) \<leftarrow> Connector_Connect_times retry_times env ((cl_connector c)\<lparr>cn_close_cb := cl_close_cb c\<rparr>);
     Some (rv, c\<lparr>cl_connector := cn\<rparr>) }"

definition TcpClient_Connect :: "int \<times> int \<Rightarrow> TcpClient \<Rightarrow> (int \<times> TcpClient) option" where
  "TcpClient_Connect env c = do {
     (rv, cn) \<leftarrow> Connector_Connect env ((cl_connector c)\<lparr>cn_close_cb := cl_close_cb c\<rparr>);
     Some (rv, c\<lparr>cl_connector := cn\<rparr>) }"

definition TcpClient_TimerConnect :: "int \<Rightarrow> TcpClient \<Rightarrow> (int \<times> TcpClient) option" where
  "TcpClient_TimerConnect retry_times c = do {
     (rv, cn) \<leftarrow> Connector_TimerConnect retry_times ((cl_connector c)\<lparr>cn_close_cb := cl_close_cb c\<rparr>);
     Some (rv, c\<lparr>cl_connector := cn\<rparr>) }"

definition TcpClient_Connected :: "TcpClient \<Rightarrow> bool" where
  "TcpClient_Connected c = (case cl_connection c of Some conn \<Rightarrow> TcpConnection_Connected conn | None \<Rightarrow> False)"

definition client_send :: "(TcpConnection \<Rightarrow> (int \<times> TcpConnection) option) \<Rightarrow> TcpClient \<Rightarrow> (int \<times> TcpClient) option" where
  "client_send send c = (case cl_connection c of
      Some conn \<Rightarrow> do { (rv, conn) \<leftarrow> send conn; Some (rv, c\<lparr>cl_connection := Some conn\<rparr>) }
    | None \<Rightarrow> Some (-1, c))"

definition TcpClient_Send :: "sys_write \<Rightarrow> bytes \<Rightarrow> TcpClient \<Rightarrow> (int \<times> TcpClient) option" where
  "TcpClient_Send r buf = client_send (TcpConnection_Send r buf)"

definition TcpClient_CopySend :: "sys_write \<Rightarrow> bytes \<Rightarrow> TcpClient \<Rightarrow> (int \<times> TcpClient) option" where
  "TcpClient_CopySend r buf = client_send (TcpConnection_CopySend r buf)"

definition TcpClient_BufSend :: "sys_write \<Rightarrow> bytes \<Rightarrow> TcpClient \<Rightarrow> (int \<times> TcpClient) option" where
  "TcpClient_BufSend r buf = client_send (TcpConnection_BufSend r buf)"

text \<open>The name of a connection: that of its owner and the two addresses, as text.\<close>

definition conn_name :: "bytes \<Rightarrow> bytes \<times> bytes \<Rightarrow> bytes" where
  "conn_name name addrs = name @ lit ''#'' @ fst addrs @ lit ''#'' @ snd addrs"

definition TcpClient_NewConnection :: "bytes \<Rightarrow> bytes \<times> bytes \<Rightarrow> UvStream \<Rightarrow> TcpClient \<Rightarrow> TcpClient option" where
  "TcpClient_NewConnection junk addrs client c = do {
     check (us_fd client);
     conn \<leftarrow> TcpConnection_new junk (conn_name (cl_name c) addrs) client;
     check (case cl_connection c of Some old \<Rightarrow> us_closed (tc_conn old) | None \<Rightarrow> True);
     (r, conn) \<leftarrow> TcpConnection_Start conn;
     check (r = 0);
     Some (c\<lparr>cl_connection := Some conn\<rparr>) }"

text \<open>libuv reports the outcome of connecting (\<^verbatim>\<open>uv__stream_connect\<close>) to \<^verbatim>\<open>ConnectFinish\<close>.\<close>

definition ConnectFinish :: "bytes \<Rightarrow> bytes \<times> bytes \<Rightarrow> int \<Rightarrow> TcpClient \<Rightarrow> TcpClient option" where
  "ConnectFinish junk addrs status c = do {
     let cn = cl_connector c;
     st \<leftarrow> cn_conn cn;
     check (us_connect_req st);
     let st = st\<lparr>us_connect_req := False, us_pollout := us_pollout st \<and> \<not> (status < 0 \<or> us_write_queue st = [])\<rparr>;
     if status = 0 then do {
       check (us_fd st);
       c \<leftarrow> TcpClient_NewConnection junk addrs st (c\<lparr>cl_connector := cn\<lparr>cn_conn := None\<rparr>\<rparr>);
       let cn = cl_connector c;
       Some (c\<lparr>cl_connector := (if uv_active (cn_retry_timer cn)
         then cn\<lparr>cn_retry_timer := Timer_Stop (cn_retry_timer cn)\<rparr> else cn)\<rparr>) }
     else Some (c\<lparr>cl_connector := cn\<lparr>cn_conn := Some st\<rparr>\<rparr>) }"

definition TcpClient_Close :: "TcpClient \<Rightarrow> (int \<times> TcpClient) option" where
  "TcpClient_Close c = do {
     c \<leftarrow> (case cl_connection c of
              Some conn \<Rightarrow> do { (rv, conn) \<leftarrow> TcpConnection_Close conn; check (rv = 0); Some (c\<lparr>cl_connection := Some conn\<rparr>) }
            | None \<Rightarrow> Some c);
     (rv, cn) \<leftarrow> Connector_Close (cl_connector c);
     check (rv = 0);
     Some (rv, c\<lparr>cl_connector := cn\<rparr>) }"

definition TcpClient_Stop :: "TcpClient \<Rightarrow> TcpClient option" where
  "TcpClient_Stop c = do { (rv, c) \<leftarrow> TcpClient_Close c; Some c }"

text \<open>The close callback of the connection drops it.\<close>

definition TcpClient_RemoveConnection :: "TcpClient \<Rightarrow> TcpClient" where
  "TcpClient_RemoveConnection c = c\<lparr>cl_connection := None\<rparr>"

definition client_conn_closed :: "TcpClient \<Rightarrow> TcpClient option" where
  "client_conn_closed c = do {
     conn \<leftarrow> cl_connection c;
     conn \<leftarrow> HandleClientClose conn;
     Some (TcpClient_RemoveConnection c) }"

text \<open>The destructor releases the memory of the timer and of the handles. libuv has them in its lists, and may call
  back into them, until it has finished closing them; releasing one before is undefined behaviour.\<close>

definition TcpClient_delete :: "TcpClient \<Rightarrow> unit option" where
  "TcpClient_delete c = do {
     check (cn_timer_closed (cl_connector c));
     check (case cn_conn (cl_connector c) of Some st \<Rightarrow> us_closed st | None \<Rightarrow> True);
     check (case cl_connection c of Some conn \<Rightarrow> us_closed (tc_conn conn) | None \<Rightarrow> True);
     Some () }"

section \<open>Sending to a peer\<close>

type_synonym ('db, 'sm, 'dir, 'rd, 'wr) raft_server = "('db, 'sm, 'dir, 'rd, 'wr, TcpClient) RaftServer"

definition RaftServer_GetClient :: "u64 \<Rightarrow> ('db, 'sm, 'dir, 'rd, 'wr) raft_server \<Rightarrow> TcpClient option" where
  "RaftServer_GetClient dest_addr sv = map_of (sv_clients sv) dest_addr"

definition RaftServer_GetClientOrCreate :: "(nat \<Rightarrow> int \<times> int) \<Rightarrow> u64 \<Rightarrow> ('db, 'sm, 'dir, 'rd, 'wr) raft_server \<Rightarrow>
    (TcpClient option \<times> ('db, 'sm, 'dir, 'rd, 'wr) raft_server) option" where
  "RaftServer_GetClientOrCreate env dest_addr sv = do {
     (ptr, sv) \<leftarrow> (case RaftServer_GetClient dest_addr sv of
        Some c \<Rightarrow> (if \<not> TcpClient_Connected c then do {
            TcpClient_delete c;
            Some (None, sv\<lparr>sv_clients := AList.delete dest_addr (sv_clients sv)\<rparr>) }
          else Some (Some c, sv))
      | None \<Rightarrow> Some (None, sv));
     (case ptr of
        Some c \<Rightarrow> Some (Some c, sv)
      | None \<Rightarrow> do {
          (rv, c) \<leftarrow> TcpClient_Connect_times 100 env (TcpClient_new (lit ''raft-client''));
          if rv = 0 then Some (Some c, sv\<lparr>sv_clients := AList.update dest_addr c (sv_clients sv)\<rparr>)
          else do { TcpClient_delete c; Some (None, sv) } }) }"

definition RaftServer_Send :: "(nat \<Rightarrow> int \<times> int) \<Rightarrow> sys_write \<Rightarrow> u64 \<Rightarrow> bytes \<Rightarrow> ('db, 'sm, 'dir, 'rd, 'wr) raft_server \<Rightarrow>
    (int \<times> ('db, 'sm, 'dir, 'rd, 'wr) raft_server) option" where
  "RaftServer_Send env r dest_addr buf sv =
     (if sv_enable_send sv then do {
        (client, sv) \<leftarrow> RaftServer_GetClientOrCreate env dest_addr sv;
        (case client of
           Some c \<Rightarrow> do {
             (rv, c) \<leftarrow> TcpClient_CopySend r buf c;
             Some (rv, sv\<lparr>sv_clients := AList.update dest_addr c (sv_clients sv)\<rparr>) }
         | None \<Rightarrow> Some (-1, sv)) }
      else Some (-2, sv))"

fun stop_clients :: "(u64 \<times> TcpClient) list \<Rightarrow> (u64 \<times> TcpClient) list option" where
  "stop_clients [] = Some []"
| "stop_clients ((a, c) # cs) = do { c \<leftarrow> TcpClient_Stop c; cs \<leftarrow> stop_clients cs; Some ((a, c) # cs) }"

definition RaftServer_Stop :: "('sm, 'dir, 'rd, 'wr) sm_ops \<Rightarrow> ('db, 'sm, 'dir, 'rd, 'wr) raft_server \<Rightarrow>
    ('db, 'sm, 'dir, 'rd, 'wr) raft_server option" where
  "RaftServer_Stop S sv = do {
     r \<leftarrow> Raft_Stop S (sv_raft sv);
     clients \<leftarrow> stop_clients (sv_clients sv);
     Some (sv\<lparr>sv_raft := r, sv_clients := clients\<rparr>) }"

text \<open>A peer has accepted the connection of its client.\<close>

definition peer_connected :: "bytes \<Rightarrow> bytes \<times> bytes \<Rightarrow> u64 \<Rightarrow> ('db, 'sm, 'dir, 'rd, 'wr) raft_server \<Rightarrow>
    ('db, 'sm, 'dir, 'rd, 'wr) raft_server option" where
  "peer_connected junk addrs dest_addr sv = do {
     c \<leftarrow> RaftServer_GetClient dest_addr sv;
     c \<leftarrow> ConnectFinish junk addrs 0 c;
     Some (sv\<lparr>sv_clients := AList.update dest_addr c (sv_clients sv)\<rparr>) }"

text \<open>The peer has closed the connection, and the loop has finished closing it.\<close>

definition peer_lost :: "(nat \<Rightarrow> nat) \<Rightarrow> u64 \<Rightarrow> ('db, 'sm, 'dir, 'rd, 'wr) raft_server \<Rightarrow>
    ('db, 'sm, 'dir, 'rd, 'wr) raft_server option" where
  "peer_lost grow dest_addr sv = do {
     c \<leftarrow> RaftServer_GetClient dest_addr sv;
     conn \<leftarrow> cl_connection c;
     (conn, _) \<leftarrow> uv_readable_event grow (None :: unit on_message) [EndOfFile] (conn, ());
     c \<leftarrow> client_conn_closed (c\<lparr>cl_connection := Some conn\<rparr>);
     Some (sv\<lparr>sv_clients := AList.update dest_addr c (sv_clients sv)\<rparr>) }"

section \<open>The life of a client\<close>

lemmas client_defs = TcpClient_Connect_times_def Connector_Connect_times_def Connector_Connect_def TcpClient_new_def Connector_new_def
  uv__tcp_connect_def uv_tcp_init_def

definition connecting_client :: TcpClient where
  "connecting_client = (TcpClient_new (lit ''raft-client''))\<lparr>cl_connector := Connector_new
     \<lparr>cn_conn := Some (uv_tcp_init\<lparr>us_fd := True, us_readable := True, us_writable := True, us_connect_req := True, us_pollout := True\<rparr>)\<rparr>\<rparr>"

lemma first_send:
  assumes "sv_enable_send sv" "RaftServer_GetClient dest sv = None" "env 0 = (0, 0)"
  shows "RaftServer_Send env r dest f sv = Some (-1, sv\<lparr>sv_clients := AList.update dest connecting_client (sv_clients sv)\<rparr>)"
proof -
  have "TcpClient_Connect_times 100 env (TcpClient_new (lit ''raft-client'')) = Some (0, connecting_client)"
    using assms(3) by (simp add: client_defs connecting_client_def numeral_eq_Suc)
  then show ?thesis
    using assms(1,2) by (simp add: RaftServer_Send_def RaftServer_GetClientOrCreate_def TcpClient_CopySend_def client_send_def
      connecting_client_def TcpClient_new_def)
qed

text \<open>A client that is there, not connected, and not closed cannot be replaced.\<close>

lemma send_deletes_client:
  assumes "sv_enable_send sv" "RaftServer_GetClient dest sv = Some c" "\<not> TcpClient_Connected c" "\<not> cn_timer_closed (cl_connector c)"
  shows "RaftServer_Send env r dest f sv = None"
  using assms by (simp add: RaftServer_Send_def RaftServer_GetClientOrCreate_def TcpClient_delete_def)

lemma connect_done:
  "\<exists>c conn. ConnectFinish junk addrs 0 connecting_client = Some c \<and> cl_connection c = Some conn \<and> conn_open conn \<and>
    TcpConnection_Connected conn \<and> us_sent (tc_conn conn) = [] \<and> us_write_queue (tc_conn conn) = [] \<and>
    us_write_queue_size (tc_conn conn) = 0 \<and> us_write_completed_queue (tc_conn conn) = [] \<and>
    \<not> cn_timer_closed (cl_connector c) \<and> WritableBytes (tc_input_buf conn) = BUF_INIT_BYTES"
proof -
  obtain buf where buf: "Buffer_default junk = Some buf" by (simp add: Buffer_default_def Buffer_new_def BUF_INIT_BYTES_def BUF_MAX_WASTE_BYTES_def)
  have "buffer_ok buf" "WritableBytes buf = BUF_INIT_BYTES" using new_ok buf by (auto simp: Buffer_default_def)
  with buf show ?thesis
    by (simp add: ConnectFinish_def connecting_client_def client_defs TcpClient_NewConnection_def TcpConnection_new_def
      TcpConnection_Start_def uv_read_start_def Timer_new_def conn_open_def uv_is_closing_def TcpConnection_Connected_def Let_def)
qed

lemma accepted:
  assumes "RaftServer_GetClient dest sv = Some connecting_client"
  obtains c conn where "peer_connected junk addrs dest sv = Some (sv\<lparr>sv_clients := AList.update dest c (sv_clients sv)\<rparr>)"
    "cl_connection c = Some conn" "conn_open conn" "TcpConnection_Connected conn" "us_sent (tc_conn conn) = []"
    "us_write_queue (tc_conn conn) = []" "us_write_queue_size (tc_conn conn) = 0" "us_write_completed_queue (tc_conn conn) = []"
    "\<not> cn_timer_closed (cl_connector c)" "WritableBytes (tc_input_buf conn) = BUF_INIT_BYTES"
  using connect_done [of junk addrs] assms that by (auto simp: peer_connected_def)

text \<open>A connected client sends.\<close>

lemma connected_send:
  assumes "sv_enable_send sv" "RaftServer_GetClient dest sv = Some c" "cl_connection c = Some conn" "TcpConnection_Connected conn"
    and "TcpConnection_CopySend r f conn = Some (rv, conn')"
  shows "RaftServer_Send env r dest f sv =
    Some (rv, sv\<lparr>sv_clients := AList.update dest (c\<lparr>cl_connection := Some conn'\<rparr>) (sv_clients sv)\<rparr>)"
  using assms by (simp add: RaftServer_Send_def RaftServer_GetClientOrCreate_def TcpClient_Connected_def TcpClient_CopySend_def client_send_def)

lemma GetClient_update [simp]:
  "RaftServer_GetClient dest (sv\<lparr>sv_clients := AList.update dest c cs\<rparr>) = Some c"
  by (simp add: RaftServer_GetClient_def update_conv')

lemma idle_send:
  assumes "conn_open conn" "TcpConnection_Connected conn" "us_write_queue (tc_conn conn) = []" "us_write_queue_size (tc_conn conn) = 0"
    and "\<forall>e. w \<noteq> WriteError e" "\<forall>n. w = Wrote n \<longrightarrow> n \<le> length g"
  shows "\<exists>conn'. TcpConnection_CopySend w g conn = Some (0, conn')"
proof -
  have "\<exists>st. uv__write w ((tc_conn conn)\<lparr>us_write_queue_size := int (length g), us_write_queue := [(g, BufWriteComplete)]\<rparr>) = Some st"
    using assms(1,5,6) by (cases w) (simp_all add: uv__write_def conn_open_def Let_def)
  then show ?thesis
    using assms(1-4) by (auto simp: TcpConnection_CopySend_def conn_send_def uv_write_def TcpConnection_Connected_def conn_open_def Let_def)
qed

text \<open>The end of the stream closes an idle connection.\<close>

lemma lost:
  assumes "RaftServer_GetClient dest sv = Some c" "cl_connection c = Some conn" "conn_open conn" "us_write_queue (tc_conn conn) = []"
    and "us_write_queue_size (tc_conn conn) = 0" "us_write_completed_queue (tc_conn conn) = []" "WritableBytes (tc_input_buf conn) \<noteq> 0"
  shows "peer_lost grow dest sv = Some (sv\<lparr>sv_clients := AList.update dest (c\<lparr>cl_connection := None\<rparr>) (sv_clients sv)\<rparr>)"
  using assms
  by (simp add: peer_lost_def uv_readable_event_def conn_open_def uv_is_closing_def numeral_eq_Suc Let_def TcpConnectionHandleRead_def
    UV_EOF_def uv_close_def uv__stream_close_def uv_read_stop_def stop_reading_def client_conn_closed_def HandleClientClose_def
    uv__finish_close_def uv__write_callbacks_def uv__stream_flush_write_queue_def TcpClient_RemoveConnection_def)

section \<open>Properties\<close>

text \<open>C31. The first message to a peer starts the connection and is lost; after the peer has accepted the connection, a
  message is handed to the socket, which takes all of it or keeps the rest in its queue.\<close>

theorem first_send_connects:
  assumes "sv_enable_send sv" "RaftServer_GetClient dest sv = None" "env 0 = (0, 0)" "\<forall>e. w \<noteq> WriteError e" "\<forall>n. w = Wrote n \<longrightarrow> n \<le> length g"
  shows "\<exists>sv1 sv2 sv3 c conn. RaftServer_Send env r dest f sv = Some (-1, sv1) \<and> peer_connected junk addrs dest sv1 = Some sv2 \<and>
    RaftServer_Send env' w dest g sv2 = Some (0, sv3) \<and> RaftServer_GetClient dest sv3 = Some c \<and> cl_connection c = Some conn \<and>
    us_sent (tc_conn conn) @ queued (tc_conn conn) = g"
proof -
  let ?sv1 = "sv\<lparr>sv_clients := AList.update dest connecting_client (sv_clients sv)\<rparr>"
  have send1: "RaftServer_Send env r dest f sv = Some (-1, ?sv1)" by (rule first_send) (use assms in simp_all)
  obtain c conn where c: "peer_connected junk addrs dest ?sv1 = Some (?sv1\<lparr>sv_clients := AList.update dest c (sv_clients ?sv1)\<rparr>)"
    "cl_connection c = Some conn" "conn_open conn" "TcpConnection_Connected conn" "us_sent (tc_conn conn) = []"
    "us_write_queue (tc_conn conn) = []" "us_write_queue_size (tc_conn conn) = 0" "us_write_completed_queue (tc_conn conn) = []"
    "\<not> cn_timer_closed (cl_connector c)" "WritableBytes (tc_input_buf conn) = BUF_INIT_BYTES"
    by (rule accepted [of dest ?sv1]) simp
  let ?sv2 = "?sv1\<lparr>sv_clients := AList.update dest c (sv_clients ?sv1)\<rparr>"
  obtain conn' where conn': "TcpConnection_CopySend w g conn = Some (0, conn')"
    using idle_send [OF c(3,4,6,7) assms(4,5)] by blast
  have sent: "us_sent (tc_conn conn') @ queued (tc_conn conn') = g"
    using CopySend_queues [OF conn' assms(4)] c(3,5,6) by (simp add: conn_open_def queued_def)
  have "RaftServer_Send env' w dest g ?sv2 =
      Some (0, ?sv2\<lparr>sv_clients := AList.update dest (c\<lparr>cl_connection := Some conn'\<rparr>) (sv_clients ?sv2)\<rparr>)"
    by (rule connected_send [OF _ _ c(2,4) conn']) (use assms(1) in simp_all)
  with send1 c(1) sent show ?thesis by fastforce
qed

theorem first_send_connects_witness:
  "\<forall>raft :: ((bytes \<times> bytes) list, unit, unit, unit, unit) Raft. \<exists>sv1 sv2 sv3.
    RaftServer_Send (\<lambda>_. (0, 0)) WouldBlock 5 [1] \<lparr>sv_clients = [], sv_enable_send = True, sv_enable_recv = True, sv_raft = raft\<rparr> = Some (-1, sv1) \<and>
    peer_connected [] ([], []) 5 sv1 = Some sv2 \<and> RaftServer_Send (\<lambda>_. (0, 0)) (Wrote 1) 5 [2, 3] sv2 = Some (0, sv3)"
proof
  fix raft :: "((bytes \<times> bytes) list, unit, unit, unit, unit) Raft"
  let ?sv = "\<lparr>sv_clients = [], sv_enable_send = True, sv_enable_recv = True, sv_raft = raft\<rparr> :: ((bytes \<times> bytes) list, unit, unit, unit, unit) raft_server"
  have sv: "sv_enable_send ?sv" "RaftServer_GetClient 5 ?sv = None" "\<forall>e. Wrote 1 \<noteq> WriteError e" "\<forall>n. Wrote 1 = Wrote n \<longrightarrow> n \<le> length [2 :: u8, 3]"
    by (simp_all add: RaftServer_GetClient_def)
  from first_send_connects [where env = "\<lambda>_. (0, 0)", OF sv(1,2) refl sv(3,4), of WouldBlock "[1]" "[]" "([], [])" "\<lambda>_. (0, 0)"]
  show "\<exists>sv1 sv2 sv3. RaftServer_Send (\<lambda>_. (0, 0)) WouldBlock 5 [1] ?sv = Some (-1, sv1) \<and>
    peer_connected [] ([], []) 5 sv1 = Some sv2 \<and> RaftServer_Send (\<lambda>_. (0, 0)) (Wrote 1) 5 [2, 3] sv2 = Some (0, sv3)" by blast
qed

text \<open>C32. A client cannot be replaced. When a second message is sent before the connection has been made, or a message is sent
  after the connection has been lost, the server deletes the client together with a timer, and in the first
  case a connecting socket, that the event loop still uses, which is undefined behaviour.\<close>

theorem client_cannot_be_replaced:
  assumes "sv_enable_send sv" "RaftServer_GetClient dest sv = None" "env 0 = (0, 0)"
  shows "\<exists>sv1 sv2 sv3. RaftServer_Send env r dest f sv = Some (-1, sv1) \<and> RaftServer_Send env' r' dest g sv1 = None \<and>
    peer_connected junk addrs dest sv1 = Some sv2 \<and> peer_lost grow dest sv2 = Some sv3 \<and> RaftServer_Send env' r' dest g sv3 = None"
proof -
  let ?sv1 = "sv\<lparr>sv_clients := AList.update dest connecting_client (sv_clients sv)\<rparr>"
  have send1: "RaftServer_Send env r dest f sv = Some (-1, ?sv1)" by (rule first_send) (use assms in simp_all)
  have "\<not> TcpClient_Connected connecting_client" "\<not> cn_timer_closed (cl_connector connecting_client)"
    by (simp_all add: TcpClient_Connected_def connecting_client_def client_defs Timer_new_def)
  then have none1: "RaftServer_Send env' r' dest g ?sv1 = None"
    using assms(1) by (intro send_deletes_client [where c = connecting_client]) simp_all
  obtain c conn where c: "peer_connected junk addrs dest ?sv1 = Some (?sv1\<lparr>sv_clients := AList.update dest c (sv_clients ?sv1)\<rparr>)"
    "cl_connection c = Some conn" "conn_open conn" "TcpConnection_Connected conn" "us_sent (tc_conn conn) = []"
    "us_write_queue (tc_conn conn) = []" "us_write_queue_size (tc_conn conn) = 0" "us_write_completed_queue (tc_conn conn) = []"
    "\<not> cn_timer_closed (cl_connector c)" "WritableBytes (tc_input_buf conn) = BUF_INIT_BYTES"
    by (rule accepted [of dest ?sv1]) simp
  let ?sv2 = "?sv1\<lparr>sv_clients := AList.update dest c (sv_clients ?sv1)\<rparr>"
  let ?sv3 = "?sv2\<lparr>sv_clients := AList.update dest (c\<lparr>cl_connection := None\<rparr>) (sv_clients ?sv2)\<rparr>"
  have lost: "peer_lost grow dest ?sv2 = Some ?sv3"
    by (rule lost [OF _ c(2,3,6,7,8)]) (use c(10) in \<open>simp_all add: BUF_INIT_BYTES_def\<close>)
  have "RaftServer_Send env' r' dest g ?sv3 = None"
    by (rule send_deletes_client [where c = "c\<lparr>cl_connection := None\<rparr>"]) (use assms(1) c(9) in \<open>simp_all add: TcpClient_Connected_def\<close>)
  with send1 none1 c(1) lost show ?thesis by blast
qed

theorem client_cannot_be_replaced_witness:
  "\<forall>raft :: ((bytes \<times> bytes) list, unit, unit, unit, unit) Raft. \<exists>sv1.
    RaftServer_Send (\<lambda>_. (0, 0)) WouldBlock 5 [1] \<lparr>sv_clients = [], sv_enable_send = True, sv_enable_recv = True, sv_raft = raft\<rparr> = Some (-1, sv1) \<and>
    RaftServer_Send (\<lambda>_. (0, 0)) WouldBlock 5 [2] sv1 = None"
proof
  fix raft :: "((bytes \<times> bytes) list, unit, unit, unit, unit) Raft"
  let ?sv = "\<lparr>sv_clients = [], sv_enable_send = True, sv_enable_recv = True, sv_raft = raft\<rparr> :: ((bytes \<times> bytes) list, unit, unit, unit, unit) raft_server"
  have sv: "sv_enable_send ?sv" "RaftServer_GetClient 5 ?sv = None" by (simp_all add: RaftServer_GetClient_def)
  from client_cannot_be_replaced [where env = "\<lambda>_. (0, 0)", OF sv refl, of WouldBlock "[1]" "\<lambda>_. (0, 0)" WouldBlock "[2]" "[]" "([], [])" id]
  show "\<exists>sv1. RaftServer_Send (\<lambda>_. (0, 0)) WouldBlock 5 [1] ?sv = Some (-1, sv1) \<and>
    RaftServer_Send (\<lambda>_. (0, 0)) WouldBlock 5 [2] sv1 = None" by blast
qed

end
