(* ===== verification/TcpServer.thy ===== *)
theory TcpServer
  imports TcpClient MetaCodec
begin

text \<open>
  The server side of connections (src/src/seda/acceptor.cc and tcp\_server.cc): a listening handle and a table of the
  connections it has accepted, by name. Everything runs in the thread of the event loop.
\<close>

section \<open>Acceptor\<close>

record Acceptor =
  ac_server :: UvStream
  ac_close_cb :: bool
  ac_closed :: nat

definition Acceptor_new :: Acceptor where
  "Acceptor_new = \<lparr>ac_server = uv_tcp_init, ac_close_cb = False, ac_closed = 0\<rparr>"

text \<open>\<open>bind_rv\<close> and \<open>listen_rv\<close> are what binding and listening return.\<close>

definition Acceptor_Start :: "int \<Rightarrow> int \<Rightarrow> Acceptor \<Rightarrow> (int \<times> Acceptor) option" where
  "Acceptor_Start bind_rv listen_rv a = do {
     check (bind_rv = 0);
     check (listen_rv = 0);
     Some (listen_rv, a\<lparr>ac_server := (ac_server a)\<lparr>us_fd := True, us_pollin := True, us_active := True\<rparr>\<rparr>) }"

definition Acceptor_Close :: "Acceptor \<Rightarrow> (int \<times> Acceptor) option" where
  "Acceptor_Close a =
     (if \<not> uv_is_closing (ac_server a) then do {
        st \<leftarrow> uv_close (ac_server a);
        Some (0, a\<lparr>ac_server := st\<rparr>) }
      else Some (0, a))"

definition Acceptor_Active :: "Acceptor \<Rightarrow> bool" where
  "Acceptor_Active a \<longleftrightarrow> us_active (ac_server a)"

definition AcceptorCloseCb :: "Acceptor \<Rightarrow> Acceptor option" where
  "AcceptorCloseCb a = do {
     (_, _, st) \<leftarrow> uv__finish_close (ac_server a);
     Some (a\<lparr>ac_server := st, ac_closed := (if ac_close_cb a then Suc (ac_closed a) else ac_closed a)\<rparr>) }"

section \<open>Server\<close>

record TcpServer =
  ts_name :: bytes
  ts_connections :: "(bytes \<times> TcpConnection) list"
  ts_acceptor :: Acceptor
  ts_close_cb :: bool

definition TcpServer_new :: "bytes \<Rightarrow> TcpServer" where
  "TcpServer_new name = \<lparr>ts_name = name, ts_connections = [], ts_acceptor = Acceptor_new, ts_close_cb = False\<rparr>"

definition TcpServer_Start :: "int \<Rightarrow> int \<Rightarrow> TcpServer \<Rightarrow> (int \<times> TcpServer) option" where
  "TcpServer_Start bind_rv listen_rv s = do {
     (rv, a) \<leftarrow> Acceptor_Start bind_rv listen_rv ((ts_acceptor s)\<lparr>ac_close_cb := ts_close_cb s\<rparr>);
     check (rv = 0);
     Some (rv, s\<lparr>ts_acceptor := a\<rparr>) }"

text \<open>An entry of the same name is overwritten, which deletes its connection; libuv uses the handle until it is closed.\<close>

definition TcpServer_AddConnection :: "TcpConnection \<Rightarrow> TcpServer \<Rightarrow> TcpServer option" where
  "TcpServer_AddConnection conn s = do {
     check (case map_of (ts_connections s) (tc_name conn) of Some old \<Rightarrow> us_closed (tc_conn old) | None \<Rightarrow> True);
     (rv, conn) \<leftarrow> TcpConnection_Start conn;
     check (rv = 0);
     Some (s\<lparr>ts_connections := map_put (tc_name conn) conn (ts_connections s)\<rparr>) }"

definition TcpServer_RemoveConnection :: "TcpConnection \<Rightarrow> TcpServer \<Rightarrow> TcpServer" where
  "TcpServer_RemoveConnection conn s = s\<lparr>ts_connections := AList.delete (tc_name conn) (ts_connections s)\<rparr>"

definition TcpServer_NewConnection :: "bytes \<Rightarrow> bytes \<times> bytes \<Rightarrow> UvStream \<Rightarrow> TcpServer \<Rightarrow> TcpServer option" where
  "TcpServer_NewConnection junk addrs client s = do {
     check (us_fd client);
     conn \<leftarrow> TcpConnection_new junk (conn_name (ts_name s) addrs) client;
     TcpServer_AddConnection conn s }"

text \<open>A connection has arrived. When accepting it fails, its handle is closed and, at the end of the block, released while
  the loop is still closing it.\<close>

definition AcceptorHandleRead :: "bytes \<Rightarrow> bytes \<times> bytes \<Rightarrow> int \<Rightarrow> int \<Rightarrow> TcpServer \<Rightarrow> TcpServer option" where
  "AcceptorHandleRead junk addrs status accept_rv s = do {
     check (status = 0);
     check (accept_rv = 0);
     TcpServer_NewConnection junk addrs (uv_tcp_init\<lparr>us_fd := True, us_readable := True, us_writable := True\<rparr>) s }"

fun close_conns :: "(bytes \<times> TcpConnection) list \<Rightarrow> (bytes \<times> TcpConnection) list option" where
  "close_conns [] = Some []"
| "close_conns ((n, c) # cs) = do {
     (rv, c) \<leftarrow> TcpConnection_Close c;
     check (rv = 0);
     cs \<leftarrow> close_conns cs;
     Some ((n, c) # cs) }"

definition TcpServer_Close :: "TcpServer \<Rightarrow> (int \<times> TcpServer) option" where
  "TcpServer_Close s = do {
     cs \<leftarrow> close_conns (ts_connections s);
     (rv, a) \<leftarrow> Acceptor_Close (ts_acceptor s);
     check (rv = 0);
     Some (rv, s\<lparr>ts_connections := cs, ts_acceptor := a\<rparr>) }"

text \<open>The events of a connection in the table: it can be read, it can be written, its closing is finished.\<close>

definition conn_readable :: "(nat \<Rightarrow> nat) \<Rightarrow> 's on_message \<Rightarrow> sys_read list \<Rightarrow> bytes \<Rightarrow> TcpServer \<times> 's \<Rightarrow> (TcpServer \<times> 's) option" where
  "conn_readable grow cb reads name = (\<lambda>(s, x). do {
     c \<leftarrow> map_of (ts_connections s) name;
     (c, x) \<leftarrow> uv_readable_event grow cb reads (c, x);
     Some (s\<lparr>ts_connections := map_put name c (ts_connections s)\<rparr>, x) })"

definition conn_writable :: "sys_write \<Rightarrow> bytes \<Rightarrow> TcpServer \<Rightarrow> TcpServer option" where
  "conn_writable r name s = do {
     c \<leftarrow> map_of (ts_connections s) name;
     c \<leftarrow> uv_writable_event r c;
     Some (s\<lparr>ts_connections := map_put name c (ts_connections s)\<rparr>) }"

definition conn_closed :: "bytes \<Rightarrow> TcpServer \<Rightarrow> TcpServer option" where
  "conn_closed name s = do {
     c \<leftarrow> map_of (ts_connections s) name;
     c \<leftarrow> HandleClientClose c;
     Some (TcpServer_RemoveConnection c s) }"

text \<open>A callback sends on the connection it was called for.\<close>

definition conn_sends :: "sys_write \<Rightarrow> bytes \<Rightarrow> bytes \<Rightarrow> TcpServer \<Rightarrow> (int \<times> TcpServer) option" where
  "conn_sends r buf name s = do {
     c \<leftarrow> map_of (ts_connections s) name;
     (rv, c) \<leftarrow> TcpConnection_CopySend r buf c;
     Some (rv, s\<lparr>ts_connections := map_put name c (ts_connections s)\<rparr>) }"

section \<open>The table of connections\<close>

text \<open>A connection in the table is under its name, is read from or being closed, and is not closed yet.\<close>

definition conn_ok :: "bytes \<Rightarrow> TcpConnection \<Rightarrow> bool" where
  "conn_ok n c \<longleftrightarrow> tc_name c = n \<and> stream_ok (tc_conn c) \<and> \<not> us_closed (tc_conn c) \<and> (us_reading (tc_conn c) \<or> us_closing (tc_conn c))"

definition table_ok :: "TcpServer \<Rightarrow> bool" where
  "table_ok s \<longleftrightarrow> ordered (ts_connections s) \<and> list_all (\<lambda>(n, c). conn_ok n c) (ts_connections s)"

lemmas stream_defs = uv_close_def uv__stream_close_def uv_read_stop_def stop_reading_def uv_is_closing_def

lemma uv_close_ok: "uv_close st = Some st' \<Longrightarrow> stream_ok st \<Longrightarrow> stream_ok st' \<and> us_closing st' \<and> us_closed st' = us_closed st"
  by (auto simp: stream_defs stream_ok_def queued_def split: if_splits)

lemma HandleRead_ok:
  assumes "TcpConnectionHandleRead grow cb nread d (c, s) = Some (c', s')"
    and "tc_name c = n" "stream_ok (tc_conn c)" "\<not> us_closed (tc_conn c)" "nread > 0 \<longrightarrow> us_reading (tc_conn c)"
  shows "conn_ok n c'"
  using assms uv_close_ok
  by (auto simp: TcpConnectionHandleRead_def TcpConnection_OnMessage_def conn_ok_def elim!: bind_eq_SomeE split: if_splits option.splits)

lemma uv_read_stop_ok:
  assumes "conn_ok n c" "us_closing (tc_conn c)"
  shows "conn_ok n (c\<lparr>tc_conn := uv_read_stop (tc_conn c)\<rparr>)"
  using assms by (simp add: conn_ok_def uv_read_stop_def stop_reading_def stream_ok_def queued_def)

lemma HandleRead_closing:
  "TcpConnectionHandleRead grow cb nread d (c, s) = Some (c', s') \<Longrightarrow> nread \<le> 0 \<Longrightarrow> us_closing (tc_conn c')"
  by (auto simp: TcpConnectionHandleRead_def stream_defs split: if_splits)

lemma stop_reading_fields [simp]: "stream_ok (stop_reading st) = stream_ok st" "us_closed (stop_reading st) = us_closed st"
  by (simp_all add: stop_reading_def stream_ok_def queued_def)

lemma uv__read_ok:
  "uv__read grow cb n reads (c, s) = Some (c', s') \<Longrightarrow> conn_ok name c \<Longrightarrow> conn_ok name c'"
proof (induction n arbitrary: reads c s)
  case (Suc n)
  have ok: "tc_name c = name" "stream_ok (tc_conn c)" "\<not> us_closed (tc_conn c)" using Suc.prems(2) by (simp_all add: conn_ok_def)
  show ?case
  proof (cases "us_reading (tc_conn c) \<and> WritableBytes (tc_input_buf c) \<noteq> 0")
    case False
    then show ?thesis using Suc.prems HandleRead_ok [OF _ ok] by (auto simp: Let_def UV_ENOBUFS_def split: if_splits)
  next
    case True
    then have run: "us_reading (tc_conn c)" and fd: "us_fd (tc_conn c)" using Suc.prems(1) by (auto simp: Let_def split: if_splits)
    note step = Suc.prems(1) [unfolded uv__read.simps Let_def]
    show ?thesis
    proof (cases reads)
      case Nil
      then show ?thesis using step True fd HandleRead_ok [OF _ ok] by auto
    next
      case (Cons x reads')
      show ?thesis
      proof (cases x)
        case (Data d)
        then obtain c1 s1 where c1: "TcpConnectionHandleRead grow cb (int (length d)) d (c, s) = Some (c1, s1)"
          "(if int (length d) < WritableBytes (tc_input_buf c) then Some (c1, s1) else uv__read grow cb n reads' (c1, s1)) = Some (c', s')"
          using step True fd Cons by (auto elim!: bind_eq_SomeE split: if_splits)
        have "conn_ok name c1" using HandleRead_ok [OF c1(1) ok] run by simp
        with c1(2) Suc.IH show ?thesis by (auto split: if_splits)
      next
        case Again
        then show ?thesis using step True fd Cons HandleRead_ok [OF _ ok] by auto
      next
        case EndOfFile
        then have h: "TcpConnectionHandleRead grow cb UV_EOF [] (c\<lparr>tc_conn := stop_reading (tc_conn c)\<rparr>, s) = Some (c', s')"
          using step True fd Cons by simp
        show ?thesis by (rule HandleRead_ok [OF h]) (use ok in \<open>simp_all add: UV_EOF_def\<close>)
      next
        case (ReadError e)
        then obtain c1 where c1: "TcpConnectionHandleRead grow cb e [] (c, s) = Some (c1, s')" "c' = c1\<lparr>tc_conn := uv_read_stop (tc_conn c1)\<rparr>" "e < 0"
          using step True fd Cons by (auto elim!: bind_eq_SomeE split: if_splits)
        have "conn_ok name c1" using HandleRead_ok [OF c1(1) ok] c1(3) by simp
        then show ?thesis using uv_read_stop_ok HandleRead_closing [OF c1(1)] c1(2,3) by simp
      qed
    qed
  qed
qed simp

lemma write_completes_name: "write_completes cbs c = Some c' \<Longrightarrow> tc_name c' = tc_name c"
  by (induction cbs arbitrary: c) (auto simp: write_complete_def Let_def elim!: bind_eq_SomeE split: if_splits)

lemma write_callbacks_ok: "stream_ok st \<Longrightarrow> stream_ok (snd (uv__write_callbacks st))"
  by (simp add: stream_ok_def uv__write_callbacks_def queued_def)

lemma writable_event_ok:
  assumes "uv_writable_event r c = Some c'" "conn_ok n c"
  shows "conn_ok n c'"
proof -
  obtain st c1 where st: "uv__write r (tc_conn c) = Some st"
    "write_completes (fst (uv__write_callbacks st)) (c\<lparr>tc_conn := snd (uv__write_callbacks st)\<rparr>) = Some c1"
    "c' = c1 \<or> c' = c1\<lparr>tc_conn := (tc_conn c1)\<lparr>us_pollout := False\<rparr>\<rparr>"
    using assms(1) by (auto simp: uv_writable_event_def Let_def elim!: bind_eq_SomeE split: if_splits prod.splits)
  have "stream_ok (snd (uv__write_callbacks st))" using uv__write_ok [OF st(1)] assms(2) write_callbacks_ok by (simp add: conn_ok_def)
  then show ?thesis
    using assms(2) st(3) uv__write_flags [OF st(1)] write_completes_conn [OF st(2)] write_completes_name [OF st(2)]
    by (auto simp: conn_ok_def uv__write_callbacks_def stream_ok_def queued_def)
qed

lemma CopySend_ok:
  assumes "TcpConnection_CopySend r f c = Some (rv, c')" "conn_ok n c"
  shows "conn_ok n c'"
  using assms uv_write_ok by (auto simp: TcpConnection_CopySend_def conn_send_def conn_ok_def elim!: bind_eq_SomeE split: if_splits)

lemma Close_ok:
  assumes "TcpConnection_Close c = Some (rv, c')" "conn_ok n c"
  shows "conn_ok n c' \<and> us_closing (tc_conn c')"
  using assms uv_close_ok by (auto simp: TcpConnection_Close_def conn_ok_def uv_is_closing_def elim!: bind_eq_SomeE split: if_splits)

section \<open>Runs of a server\<close>

text \<open>A callback that keeps no state of its own stands for any: it may leave in the buffer what it likes.\<close>

inductive server_step :: "TcpServer \<Rightarrow> TcpServer \<Rightarrow> bool" where
  accepts: "AcceptorHandleRead junk addrs status rv s = Some s' \<Longrightarrow> server_step s s'"
| reads: "conn_readable grow (cb :: unit on_message) reads name (s, x) = Some (s', x') \<Longrightarrow> server_step s s'"
| writes: "conn_writable r name s = Some s' \<Longrightarrow> server_step s s'"
| sends: "conn_sends r buf name s = Some (rv, s') \<Longrightarrow> server_step s s'"
| closes: "conn_closed name s = Some s' \<Longrightarrow> server_step s s'"

inductive server_reachable :: "bytes \<Rightarrow> TcpServer \<Rightarrow> bool" for name where
  start: "TcpServer_Start b l (TcpServer_new name) = Some (rv, s) \<Longrightarrow> server_reachable name s"
| step: "server_reachable name s \<Longrightarrow> server_step s s' \<Longrightarrow> server_reachable name s'"

lemma table_ok_get: "table_ok s \<Longrightarrow> map_of (ts_connections s) n = Some c \<Longrightarrow> conn_ok n c"
  by (auto simp: table_ok_def list_all_iff dest!: map_of_SomeD)

lemma set_map_put_sub: "set (map_put k v m) \<subseteq> insert (k, v) (set m)"
  by (induction k v m rule: map_put.induct) auto

lemma table_ok_put: "table_ok s \<Longrightarrow> conn_ok n c \<Longrightarrow> table_ok (s\<lparr>ts_connections := map_put n c (ts_connections s)\<rparr>)"
  using set_map_put_sub [of n c "ts_connections s"] by (auto simp: table_ok_def list_all_iff ordered_map_put)

lemma table_ok_delete: "table_ok s \<Longrightarrow> table_ok (s\<lparr>ts_connections := AList.delete n (ts_connections s)\<rparr>)"
  by (auto simp: table_ok_def list_all_iff AList.delete_eq sorted_wrt_map intro!: sorted_wrt_filter)

lemma started_ok:
  assumes "TcpConnection_new junk n (uv_tcp_init\<lparr>us_fd := True, us_readable := True, us_writable := True\<rparr>) = Some c"
    and "TcpConnection_Start c = Some (rv, c')"
  shows "conn_ok n c'"
  using assms by (auto simp: TcpConnection_new_def TcpConnection_Start_def uv_read_start_def uv_tcp_init_def conn_ok_def stream_ok_def queued_def
    elim!: bind_eq_SomeE split: if_splits)

lemma accept_ok:
  assumes "AcceptorHandleRead junk addrs status rv s = Some s'" "table_ok s"
  shows "table_ok s'"
proof -
  obtain c rv c' where c: "TcpConnection_new junk (conn_name (ts_name s) addrs) (uv_tcp_init\<lparr>us_fd := True, us_readable := True, us_writable := True\<rparr>) = Some c"
    "TcpConnection_Start c = Some (rv, c')" "s' = s\<lparr>ts_connections := map_put (tc_name c') c' (ts_connections s)\<rparr>"
    using assms(1) by (auto simp: AcceptorHandleRead_def TcpServer_NewConnection_def TcpServer_AddConnection_def elim!: bind_eq_SomeE split: if_splits)
  have "conn_ok (conn_name (ts_name s) addrs) c'" by (rule started_ok [OF c(1,2)])
  moreover from this have "tc_name c' = conn_name (ts_name s) addrs" by (simp add: conn_ok_def)
  ultimately show ?thesis using table_ok_put [OF assms(2)] c(3) by simp
qed

lemma reachable_table_ok: "server_reachable name s \<Longrightarrow> table_ok s"
proof (induction rule: server_reachable.induct)
  case (start b l rv s)
  then show ?case by (auto simp: TcpServer_Start_def TcpServer_new_def Acceptor_Start_def table_ok_def elim!: bind_eq_SomeE split: if_splits)
next
  case (step s s')
  from step.hyps(2) step.IH show ?case
  proof cases
    case (reads grow cb reads name x x')
    then show ?thesis using step.IH table_ok_get table_ok_put uv__read_ok
      by (fastforce simp: conn_readable_def uv_readable_event_def elim!: bind_eq_SomeE split: if_splits)
  qed (auto simp: conn_writable_def conn_sends_def conn_closed_def TcpServer_RemoveConnection_def elim!: bind_eq_SomeE
      intro: accept_ok table_ok_put table_ok_delete writable_event_ok CopySend_ok table_ok_get)
qed

section \<open>Closing the server\<close>

text \<open>Nothing waits to be sent, and no write has failed.\<close>

definition all_sent :: "TcpConnection \<Rightarrow> bool" where
  "all_sent c \<longleftrightarrow> us_write_queue (tc_conn c) = [] \<and> list_all (\<lambda>(buf, cb, e). e = 0) (us_write_completed_queue (tc_conn c))"

definition can_close :: "bytes \<times> TcpConnection \<Rightarrow> bool" where
  "can_close x \<longleftrightarrow> conn_ok (fst x) (snd x) \<and> us_closing (tc_conn (snd x)) \<and> all_sent (snd x)"

lemma Close_total:
  assumes "conn_ok n c" "all_sent c"
  shows "\<exists>c'. TcpConnection_Close c = Some (0, c') \<and> can_close (n, c')"
  using assms by (auto simp: TcpConnection_Close_def can_close_def conn_ok_def all_sent_def stream_defs stream_ok_def queued_def)

lemma close_conns_total:
  "list_all (\<lambda>(n, c). conn_ok n c \<and> all_sent c) cs \<Longrightarrow> \<exists>cs'. close_conns cs = Some cs' \<and> map fst cs' = map fst cs \<and> list_all can_close cs'"
proof (induction cs)
  case (Cons x cs)
  obtain n c where x: "x = (n, c)" by fastforce
  obtain c' where "TcpConnection_Close c = Some (0, c')" "can_close (n, c')" using Close_total [of n c] Cons.prems x by auto
  with Cons x show ?case by auto
qed simp

lemma write_completes_total:
  "list_all (\<lambda>x. snd x = 0) cbs \<Longrightarrow> \<exists>c'. write_completes cbs c = Some c' \<and> tc_name c' = tc_name c"
proof (induction cbs arbitrary: c)
  case (Cons x cbs)
  obtain c1 where "write_complete x c = Some c1" "tc_name c1 = tc_name c" using Cons.prems by (cases x) (simp add: write_complete_def Let_def)
  with Cons.IH [of c1] Cons.prems show ?case by simp
qed simp

lemma HandleClientClose_total:
  assumes "can_close (n, c)"
  shows "\<exists>c'. HandleClientClose c = Some c' \<and> tc_name c' = n"
proof -
  let ?st = "(tc_conn c)\<lparr>us_closed := True, us_connect_req := False\<rparr>"
  let ?cbs = "map (\<lambda>(buf, cb, e). (cb, e)) (us_write_completed_queue (tc_conn c))"
  obtain st where st: "uv__finish_close (tc_conn c) = Some (us_connect_req (tc_conn c), ?cbs, st)"
    using assms by (simp add: can_close_def conn_ok_def all_sent_def uv__finish_close_def uv__write_callbacks_def uv__stream_flush_write_queue_def
      stream_ok_def queued_def Let_def)
  have "list_all (\<lambda>x. snd x = 0) ?cbs" using assms by (auto simp: can_close_def all_sent_def list_all_iff)
  from write_completes_total [OF this, of "c\<lparr>tc_conn := st\<rparr>"] st assms show ?thesis
    by (auto simp: HandleClientClose_def can_close_def conn_ok_def)
qed

fun close_events :: "bytes list \<Rightarrow> TcpServer \<Rightarrow> TcpServer option" where
  "close_events [] s = Some s"
| "close_events (n # ns) s = do { s \<leftarrow> conn_closed n s; close_events ns s }"

lemma close_events_total:
  assumes "list_all can_close (ts_connections s)" "distinct (map fst (ts_connections s))" "distinct ns" "set ns = fst ` set (ts_connections s)"
  shows "\<exists>s'. close_events ns s = Some s' \<and> ts_connections s' = []"
  using assms
proof (induction ns arbitrary: s)
  case (Cons n ns)
  obtain c where c: "map_of (ts_connections s) n = Some c" using Cons.prems(4) by (metis list.set_intros(1) map_of_eq_None_iff not_Some_eq)
  have "can_close (n, c)" using Cons.prems(1) map_of_SomeD [OF c] by (auto simp: list_all_iff)
  from HandleClientClose_total [OF this]
  have closed: "conn_closed n s = Some (s\<lparr>ts_connections := AList.delete n (ts_connections s)\<rparr>)"
    using c by (auto simp: conn_closed_def TcpServer_RemoveConnection_def)
  let ?s = "s\<lparr>ts_connections := AList.delete n (ts_connections s)\<rparr>"
  have "\<exists>s'. close_events ns ?s = Some s' \<and> ts_connections s' = []"
  proof (rule Cons.IH)
    show "list_all can_close (ts_connections ?s)" using Cons.prems(1) by (auto simp: list_all_iff AList.delete_eq)
    show "distinct (map fst (ts_connections ?s))" using Cons.prems(2) by (simp add: AList.distinct_delete)
    show "set ns = fst ` set (ts_connections ?s)" using Cons.prems(3,4) arg_cong [OF AList.delete_keys, of set n "ts_connections s"] by auto
  qed (use Cons.prems(3) in simp)
  with closed show ?case by simp
qed simp

section \<open>Properties\<close>

text \<open>C33. A server can always be closed when everything has been sent: closing it asks every connection it has accepted to
  close, and when the event loop has finished closing them, in whatever order, its table is empty.\<close>

theorem server_close_empties:
  assumes "server_reachable name s" "list_all (\<lambda>(n, c). all_sent c) (ts_connections s)"
    and "distinct ns" "set ns = fst ` set (ts_connections s)"
  shows "\<exists>s' s''. TcpServer_Close s = Some (0, s') \<and> close_events ns s' = Some s'' \<and> ts_connections s'' = [] \<and>
    uv_is_closing (ac_server (ts_acceptor s'))"
proof -
  have ok: "table_ok s" by (rule reachable_table_ok [OF assms(1)])
  then have "list_all (\<lambda>(n, c). conn_ok n c \<and> all_sent c) (ts_connections s)" using assms(2) by (auto simp: table_ok_def list_all_iff)
  then obtain cs where cs: "close_conns (ts_connections s) = Some cs" "map fst cs = map fst (ts_connections s)" "list_all can_close cs"
    using close_conns_total by blast
  obtain a where a: "Acceptor_Close (ts_acceptor s) = Some (0, a)" "uv_is_closing (ac_server a)"
    by (cases "uv_is_closing (ac_server (ts_acceptor s))") (auto simp: Acceptor_Close_def stream_defs)
  let ?s = "s\<lparr>ts_connections := cs, ts_acceptor := a\<rparr>"
  have keys: "distinct (map fst (ts_connections ?s))" "set ns = fst ` set (ts_connections ?s)"
    using ok cs(2) assms(4) by (auto simp: table_ok_def strict_sorted_iff simp flip: set_map)
  have "\<exists>s''. close_events ns ?s = Some s'' \<and> ts_connections s'' = []"
    by (rule close_events_total [OF _ keys(1) assms(3) keys(2)]) (use cs(3) in simp)
  with cs(1) a show ?thesis by (auto simp: TcpServer_Close_def)
qed

theorem server_close_empties_witness:
  "\<exists>s s' s''. server_reachable (lit ''s'') s \<and> length (ts_connections s) = 1 \<and> TcpServer_Close s = Some (0, s') \<and>
     close_events (map fst (ts_connections s)) s' = Some s'' \<and> ts_connections s'' = []"
proof -
  obtain rv s0 where s0: "TcpServer_Start 0 0 (TcpServer_new (lit ''s'')) = Some (rv, s0)" "ts_connections s0 = []"
    by (simp add: TcpServer_Start_def Acceptor_Start_def TcpServer_new_def)
  obtain buf where "Buffer_default [] = Some buf"
    by (simp add: Buffer_default_def Buffer_new_def BUF_INIT_BYTES_def BUF_MAX_WASTE_BYTES_def)
  then have "\<exists>s c. AcceptorHandleRead [] (lit ''a'', lit ''b'') 0 0 s0 = Some s \<and> ts_connections s = [(tc_name c, c)] \<and> all_sent c"
    using s0(2) by (simp add: AcceptorHandleRead_def TcpServer_NewConnection_def TcpServer_AddConnection_def TcpConnection_new_def
      TcpConnection_Start_def uv_read_start_def uv_tcp_init_def all_sent_def)
  then obtain s c where s: "AcceptorHandleRead [] (lit ''a'', lit ''b'') 0 0 s0 = Some s" "ts_connections s = [(tc_name c, c)]" "all_sent c" by blast
  have r: "server_reachable (lit ''s'') s"
    by (rule server_reachable.step [OF server_reachable.start [OF s0(1)] server_step.accepts [OF s(1)]])
  have "list_all (\<lambda>(n, c). all_sent c) (ts_connections s)" "distinct (map fst (ts_connections s))"
    "set (map fst (ts_connections s)) = fst ` set (ts_connections s)" using s(2,3) by simp_all
  from server_close_empties [OF r this] r s(2) show ?thesis by auto
qed

end
