(* ===== verification/EventLoop.thy ===== *)
theory EventLoop
  imports Timers
begin

text \<open>
  The event loop (src/src/seda/eventloop.cc) with the queue through which other threads hand it functions
  (async\_queue.cc) or ask it to stop (async\_stop.cc) and the latch they wait on (count\_down.cc). A function is a name; what is kept of calling it is that
  it was called. The parts of \<^verbatim>\<open>Push\<close> inside and outside the lock are separate steps, and libuv merges
  notifications that have not been delivered yet.
\<close>

section \<open>Latch\<close>

record CountDownLatch =
  ld_count :: int
  ld_count_imm :: int

definition CountDownLatch_new :: "int \<Rightarrow> CountDownLatch option" where
  "CountDownLatch_new count = do { check (count \<ge> 0); Some \<lparr>ld_count = count, ld_count_imm = count\<rparr> }"

text \<open>Whether \<^verbatim>\<open>Wait\<close> returns.\<close>

definition CountDownLatch_Wait :: "CountDownLatch \<Rightarrow> bool" where
  "CountDownLatch_Wait l \<longleftrightarrow> ld_count l = 0"

definition CountDownLatch_Reset :: "CountDownLatch \<Rightarrow> CountDownLatch" where
  "CountDownLatch_Reset l = l\<lparr>ld_count := ld_count_imm l\<rparr>"

definition CountDownLatch_CountDown :: "CountDownLatch \<Rightarrow> CountDownLatch" where
  "CountDownLatch_CountDown l = l\<lparr>ld_count := ld_count l - 1\<rparr>"

section \<open>Queue of functions\<close>

text \<open>\<open>aq_todo\<close> is what \<^verbatim>\<open>DoFunctor\<close> has swapped out and not called yet, \<open>aq_senders\<close> the number of threads that have pushed
  and not yet notified, \<open>aq_pending\<close> the notification on its way to the loop, \<open>aq_closing\<close> that the handle is closing, and
  \<open>aq_gone\<close> that the loop has dropped the queue.\<close>

record 'f AsyncQueue =
  aq_functors :: "'f list"
  aq_todo :: "'f list"
  aq_done :: "'f list"
  aq_senders :: nat
  aq_pending :: bool
  aq_closing :: bool
  aq_gone :: bool

definition AsyncQueue_new :: "'f AsyncQueue" where
  "AsyncQueue_new = \<lparr>aq_functors = [], aq_todo = [], aq_done = [], aq_senders = 0, aq_pending = False, aq_closing = False,
     aq_gone = False\<rparr>"

definition AsyncQueue_push_locked :: "'f \<Rightarrow> 'f AsyncQueue \<Rightarrow> 'f AsyncQueue option" where
  "AsyncQueue_push_locked func q = do {
     check (\<not> aq_gone q);
     Some (q\<lparr>aq_functors := aq_functors q @ [func], aq_senders := Suc (aq_senders q)\<rparr>) }"

text \<open>Notifying a queue the loop has dropped is an access to freed memory.\<close>

definition AsyncQueue_notify :: "'f AsyncQueue \<Rightarrow> 'f AsyncQueue option" where
  "AsyncQueue_notify q = do { check (aq_senders q > 0); check (\<not> aq_gone q); Some (q\<lparr>aq_senders := aq_senders q - 1, aq_pending := True\<rparr>) }"

text \<open>The loop delivers a notification when it is not in a callback; the steps of \<^verbatim>\<open>DoFunctor\<close>.\<close>

definition AsyncQueueCb :: "'f AsyncQueue \<Rightarrow> 'f AsyncQueue option" where
  "AsyncQueueCb q = do {
     check (aq_pending q \<and> aq_todo q = [] \<and> \<not> aq_closing q);
     Some (q\<lparr>aq_pending := False, aq_todo := aq_functors q, aq_functors := []\<rparr>) }"

definition AsyncQueue_call :: "'f AsyncQueue \<Rightarrow> 'f AsyncQueue option" where
  "AsyncQueue_call q = (case aq_todo q of [] \<Rightarrow> None
     | func # todo \<Rightarrow> Some (q\<lparr>aq_todo := todo, aq_done := aq_done q @ [func]\<rparr>))"

text \<open>libuv asserts that a handle is closed once.\<close>

definition AsyncQueue_Close :: "'f AsyncQueue \<Rightarrow> 'f AsyncQueue option" where
  "AsyncQueue_Close q = do { check (\<not> aq_gone q \<and> \<not> aq_closing q); Some (q\<lparr>aq_closing := True\<rparr>) }"

definition AsyncQueueCloseCb :: "'f AsyncQueue \<Rightarrow> 'f AsyncQueue option" where
  "AsyncQueueCloseCb q = do { check (aq_closing q \<and> aq_todo q = [] \<and> \<not> aq_gone q); Some (q\<lparr>aq_gone := True\<rparr>) }"

section \<open>Stop request\<close>

record AsyncStop =
  as_pending :: bool
  as_closing :: bool
  as_gone :: bool

definition AsyncStop_Notify :: "AsyncStop \<Rightarrow> AsyncStop option" where
  "AsyncStop_Notify s = do { check (\<not> as_gone s); Some (s\<lparr>as_pending := True\<rparr>) }"

definition AsyncStop_Close :: "AsyncStop \<Rightarrow> AsyncStop option" where
  "AsyncStop_Close s = do { check (\<not> as_gone s \<and> \<not> as_closing s); Some (s\<lparr>as_closing := True\<rparr>) }"

definition AsyncStopCloseCb :: "AsyncStop \<Rightarrow> AsyncStop option" where
  "AsyncStopCloseCb s = do { check (as_closing s \<and> \<not> as_gone s); Some (s\<lparr>as_gone := True\<rparr>) }"

section \<open>Loop\<close>

text \<open>\<open>el_ran\<close> has the functions run at once, by the thread that called \<^verbatim>\<open>RunFunctor\<close>.\<close>

record 'f EventLoop =
  el_latch :: CountDownLatch
  el_started :: bool
  el_tid :: int
  el_functors :: "'f AsyncQueue"
  el_stop :: AsyncStop
  el_ran :: "'f list"
  el_timers :: "(int \<times> Timer) list"
  el_stopped :: bool

text \<open>Before \<^verbatim>\<open>Loop\<close> has run every thread counts as that of the loop.\<close>

definition EventLoop_IsInLoopThread :: "int \<Rightarrow> 'f EventLoop \<Rightarrow> bool" where
  "EventLoop_IsInLoopThread gettid e \<longleftrightarrow> (if el_tid e \<noteq> 0 then gettid = el_tid e else True)"

definition EventLoop_AddTimer :: "int \<Rightarrow> int \<Rightarrow> Timer \<Rightarrow> 'f EventLoop \<Rightarrow> 'f EventLoop option" where
  "EventLoop_AddTimer gettid uid timer e = do {
     check (EventLoop_IsInLoopThread gettid e);
     timer \<leftarrow> Timer_Start timer;
     Some (e\<lparr>el_timers := AList.update uid timer (el_timers e)\<rparr>) }"

definition EventLoop_RemoveTimer :: "int \<Rightarrow> int \<Rightarrow> 'f EventLoop \<Rightarrow> 'f EventLoop option" where
  "EventLoop_RemoveTimer gettid uid e = do {
     check (EventLoop_IsInLoopThread gettid e);
     Some (e\<lparr>el_timers := AList.delete uid (el_timers e)\<rparr>) }"

text \<open>The constructor and \<^verbatim>\<open>Init\<close>; \<open>uid\<close> is the identifier the start timer gets.\<close>

definition EventLoop_new :: "'f EventLoop option" where
  "EventLoop_new = do {
     latch \<leftarrow> CountDownLatch_new 1;
     Some \<lparr>el_latch = latch, el_started = False, el_tid = 0, el_functors = AsyncQueue_new,
           el_stop = \<lparr>as_pending = False, as_closing = False, as_gone = False\<rparr>, el_ran = [], el_timers = [], el_stopped = False\<rparr> }"

definition EventLoop_Init :: "int \<Rightarrow> int \<Rightarrow> 'f EventLoop \<Rightarrow> 'f EventLoop option" where
  "EventLoop_Init gettid uid e = EventLoop_AddTimer gettid uid (Timer_new 0 0 Started_func)
     (e\<lparr>el_functors := AsyncQueue_new, el_stop := \<lparr>as_pending = False, as_closing = False, as_gone = False\<rparr>\<rparr>)"

definition EventLoop_Loop :: "int \<Rightarrow> 'f EventLoop \<Rightarrow> 'f EventLoop" where
  "EventLoop_Loop gettid e = e\<lparr>el_tid := gettid\<rparr>"

definition EventLoop_RunFunctor :: "int \<Rightarrow> 'f \<Rightarrow> 'f EventLoop \<Rightarrow> 'f EventLoop option" where
  "EventLoop_RunFunctor gettid func e =
     (if EventLoop_IsInLoopThread gettid e then Some (e\<lparr>el_ran := el_ran e @ [func]\<rparr>)
      else do { q \<leftarrow> AsyncQueue_push_locked func (el_functors e); Some (e\<lparr>el_functors := q\<rparr>) })"

definition Started :: "int \<Rightarrow> 'f EventLoop \<Rightarrow> 'f EventLoop option" where
  "Started gettid e = do {
     check (EventLoop_IsInLoopThread gettid e);
     Some (e\<lparr>el_started := True, el_latch := CountDownLatch_CountDown (el_latch e)\<rparr>) }"

text \<open>The start timer expires and its callback runs.\<close>

definition start_timer_expires :: "int \<Rightarrow> int \<Rightarrow> 'f EventLoop \<Rightarrow> 'f EventLoop option" where
  "start_timer_expires gettid uid e = do {
     t \<leftarrow> map_of (el_timers e) uid;
     check (t_cb t = Started_func);
     t \<leftarrow> uv_expire t;
     Started gettid (e\<lparr>el_timers := AList.update uid t (el_timers e)\<rparr>) }"

definition EventLoop_WaitStarted :: "'f EventLoop \<Rightarrow> bool" where
  "EventLoop_WaitStarted e = CountDownLatch_Wait (el_latch e)"

definition EventLoop_Close :: "int \<Rightarrow> 'f EventLoop \<Rightarrow> 'f EventLoop option" where
  "EventLoop_Close gettid e = do {
     check (EventLoop_IsInLoopThread gettid e);
     s \<leftarrow> AsyncStop_Close (el_stop e);
     q \<leftarrow> AsyncQueue_Close (el_functors e);
     Some (e\<lparr>el_timers := map (\<lambda>(uid, t). (uid, Timer_Close (Timer_Stop t))) (el_timers e),
             el_stop := s, el_functors := q, el_stopped := True\<rparr>) }"

definition EventLoop_Stop :: "int \<Rightarrow> 'f EventLoop \<Rightarrow> 'f EventLoop option" where
  "EventLoop_Stop gettid e =
     (if EventLoop_IsInLoopThread gettid e then EventLoop_Close gettid e
      else do { s \<leftarrow> AsyncStop_Notify (el_stop e); Some (e\<lparr>el_stop := s\<rparr>) })"

text \<open>The loop delivers a stop request.\<close>

definition StopLoop :: "int \<Rightarrow> 'f EventLoop \<Rightarrow> 'f EventLoop option" where
  "StopLoop gettid e = do {
     check (as_pending (el_stop e) \<and> \<not> as_closing (el_stop e));
     EventLoop_Close gettid (e\<lparr>el_stop := (el_stop e)\<lparr>as_pending := False\<rparr>\<rparr>) }"

section \<open>Interleavings\<close>

text \<open>The loop runs in thread \<open>t\<close>, its start timer is \<open>uid\<close>; the list has the functions other threads have pushed.\<close>

inductive loop_step :: "int \<Rightarrow> int \<Rightarrow> 'f EventLoop \<times> 'f list \<Rightarrow> 'f EventLoop \<times> 'f list \<Rightarrow> bool" for t uid where
  local: "EventLoop_RunFunctor t f e = Some e' \<Longrightarrow> loop_step t uid (e, ps) (e', ps)"
| push: "gettid \<noteq> t \<Longrightarrow> EventLoop_RunFunctor gettid f e = Some e' \<Longrightarrow> loop_step t uid (e, ps) (e', ps @ [f])"
| notify: "AsyncQueue_notify (el_functors e) = Some q \<Longrightarrow> loop_step t uid (e, ps) (e\<lparr>el_functors := q\<rparr>, ps)"
| deliver: "AsyncQueueCb (el_functors e) = Some q \<Longrightarrow> loop_step t uid (e, ps) (e\<lparr>el_functors := q\<rparr>, ps)"
| call: "AsyncQueue_call (el_functors e) = Some q \<Longrightarrow> loop_step t uid (e, ps) (e\<lparr>el_functors := q\<rparr>, ps)"
| start: "start_timer_expires t uid e = Some e' \<Longrightarrow> loop_step t uid (e, ps) (e', ps)"
| stop: "EventLoop_Stop gettid e = Some e' \<Longrightarrow> loop_step t uid (e, ps) (e', ps)"
| stop_loop: "StopLoop t e = Some e' \<Longrightarrow> loop_step t uid (e, ps) (e', ps)"
| closed: "AsyncQueueCloseCb (el_functors e) = Some q \<Longrightarrow> loop_step t uid (e, ps) (e\<lparr>el_functors := q\<rparr>, ps)"
| stop_closed: "AsyncStopCloseCb (el_stop e) = Some s \<Longrightarrow> loop_step t uid (e, ps) (e\<lparr>el_stop := s\<rparr>, ps)"

inductive loop_reachable :: "int \<Rightarrow> int \<Rightarrow> 'f EventLoop \<times> 'f list \<Rightarrow> bool" for t uid where
  init: "EventLoop_new = Some e \<Longrightarrow> EventLoop_Init gettid uid e = Some e' \<Longrightarrow> loop_reachable t uid (EventLoop_Loop t e', [])"
| step: "loop_reachable t uid x \<Longrightarrow> loop_step t uid x y \<Longrightarrow> loop_reachable t uid y"

definition loop_ok :: "int \<Rightarrow> 'f EventLoop \<times> 'f list \<Rightarrow> bool" where
  "loop_ok t x \<longleftrightarrow> (case x of (e, ps) \<Rightarrow> let q = el_functors e in
     el_tid e = t \<and> aq_done q @ aq_todo q @ aq_functors q = ps \<and> (aq_functors q \<noteq> [] \<longrightarrow> aq_senders q > 0 \<or> aq_pending q) \<and>
     (aq_gone q \<longrightarrow> aq_closing q))"

text \<open>The latch opens when the start timer has fired, which it does once.\<close>

definition start_ok :: "int \<Rightarrow> 'f EventLoop \<Rightarrow> bool" where
  "start_ok uid e \<longleftrightarrow> ld_count (el_latch e) = (if el_started e then 0 else 1) \<and>
     (\<forall>t. map_of (el_timers e) uid = Some t \<longrightarrow> uv_repeat t = 0 \<and> (el_started e \<longrightarrow> \<not> uv_active t))"

lemmas queue_defs = AsyncQueue_push_locked_def AsyncQueue_notify_def AsyncQueueCb_def AsyncQueue_call_def AsyncQueue_Close_def
  AsyncQueueCloseCb_def AsyncStop_Notify_def AsyncStop_Close_def AsyncStopCloseCb_def

lemmas eventloop_defs = EventLoop_RunFunctor_def EventLoop_IsInLoopThread_def Started_def start_timer_expires_def
  EventLoop_Close_def EventLoop_Stop_def StopLoop_def

lemma loop_ok_step:
  assumes "loop_step t uid x y" "loop_ok t x" "t \<noteq> 0"
  shows "loop_ok t y"
  using assms
  by cases (auto simp: loop_ok_def Let_def eventloop_defs queue_defs split: if_splits list.splits elim!: bind_eq_SomeE)

lemma map_of_closed_timers:
  "map_of (map (\<lambda>(u, t). (u, Timer_Close (Timer_Stop t))) ts) uid = map_option (\<lambda>t. Timer_Close (Timer_Stop t)) (map_of ts uid)"
  by (induction ts) auto

lemma closed_timer [simp]:
  "uv_repeat (Timer_Close (Timer_Stop t)) = uv_repeat t" "uv_active (Timer_Close (Timer_Stop t)) \<Longrightarrow> uv_active t"
  by (auto simp: Timer_Close_def Timer_Stop_def UvTimerStop_def split: if_splits)

lemma start_ok_step:
  assumes "loop_step t uid x y" "start_ok uid (fst x)"
  shows "start_ok uid (fst y)"
  using assms
  by cases (auto simp: start_ok_def eventloop_defs queue_defs uv_expire_def UvTimerStop_def UvTimerStart_def map_of_closed_timers
      CountDownLatch_CountDown_def Let_def update_conv split: if_splits list.splits elim!: bind_eq_SomeE dest: closed_timer(2))

lemma reachable_loop_ok:
  assumes "loop_reachable t uid x" "t \<noteq> 0"
  shows "loop_ok t x"
  using assms(1)
proof (induction rule: loop_reachable.induct)
  case init
  then show ?case by (auto simp: EventLoop_Init_def EventLoop_AddTimer_def loop_ok_def EventLoop_Loop_def AsyncQueue_new_def Let_def
      split: if_splits elim!: bind_eq_SomeE)
next
  case (step x y)
  then show ?case using loop_ok_step assms(2) by blast
qed

lemma reachable_start_ok: "loop_reachable t uid x \<Longrightarrow> start_ok uid (fst x)"
proof (induction rule: loop_reachable.induct)
  case init
  then show ?case
    by (auto simp: EventLoop_new_def CountDownLatch_new_def EventLoop_Init_def EventLoop_AddTimer_def start_ok_def EventLoop_Loop_def
        Timer_Start_def UvTimerStart_def Timer_new_def update_conv split: if_splits elim!: bind_eq_SomeE)
next
  case (step x y)
  then show ?case using start_ok_step by blast
qed

text \<open>The steps the loop and the notifying threads take on their own.\<close>

inductive serve :: "'f AsyncQueue \<Rightarrow> 'f AsyncQueue \<Rightarrow> bool" where
  notify: "AsyncQueue_notify q = Some q' \<Longrightarrow> serve q q'"
| deliver: "AsyncQueueCb q = Some q' \<Longrightarrow> serve q q'"
| call: "AsyncQueue_call q = Some q' \<Longrightarrow> serve q q'"

section \<open>Properties\<close>

text \<open>C37. The functions that other threads hand to the loop are called once each and in the order they were pushed, whatever
  the loop runs in between, and no wake-up is lost: as long as functions wait and the loop is not stopped, a notification
  is on its way or a thread is about to send one, or functions taken out before are still being called. A thread that
  waits for the start of the loop goes on exactly when the start timer has fired.\<close>

theorem functors_run_in_order:
  assumes "loop_reachable t uid (e, ps)" "t \<noteq> 0"
  shows "aq_done (el_functors e) @ aq_todo (el_functors e) @ aq_functors (el_functors e) = ps \<and>
    (aq_done (el_functors e) \<noteq> ps \<and> \<not> aq_closing (el_functors e) \<longrightarrow> (\<exists>q. serve (el_functors e) q)) \<and>
    (EventLoop_WaitStarted e \<longleftrightarrow> el_started e)"
proof -
  let ?q = "el_functors e"
  have ok: "aq_done ?q @ aq_todo ?q @ aq_functors ?q = ps" "aq_functors ?q \<noteq> [] \<longrightarrow> aq_senders ?q > 0 \<or> aq_pending ?q"
    "aq_gone ?q \<longrightarrow> aq_closing ?q"
    using reachable_loop_ok [OF assms] by (auto simp: loop_ok_def Let_def)
  have start: "EventLoop_WaitStarted e \<longleftrightarrow> el_started e"
    using reachable_start_ok [OF assms(1)] by (auto simp: start_ok_def EventLoop_WaitStarted_def CountDownLatch_Wait_def)
  have "\<exists>q. serve ?q q" if "aq_done ?q \<noteq> ps" "\<not> aq_closing ?q"
  proof (cases "aq_todo ?q")
    case Nil
    then have "aq_functors ?q \<noteq> []" using that ok(1) by auto
    then consider "aq_senders ?q > 0" | "aq_pending ?q" using ok(2) by auto
    then show ?thesis
    proof cases
      case 1
      then show ?thesis using that(2) ok(3) by (intro exI [of _ "the (AsyncQueue_notify ?q)"] serve.notify) (auto simp: AsyncQueue_notify_def)
    next
      case 2
      with Nil that(2) show ?thesis by (intro exI [of _ "the (AsyncQueueCb ?q)"] serve.deliver) (simp add: AsyncQueueCb_def)
    qed
  next
    case (Cons f fs)
    then show ?thesis by (intro exI [of _ "the (AsyncQueue_call ?q)"] serve.call) (simp add: AsyncQueue_call_def)
  qed
  with ok(1) start show ?thesis by blast
qed

text \<open>A loop in thread 1 with start timer 0, to which thread 2 has handed one function.\<close>

definition sample_loop :: "nat EventLoop" where
  "sample_loop = the (EventLoop_RunFunctor 2 7 (EventLoop_Loop 1 (the (EventLoop_Init 1 0 (the EventLoop_new)))))"

lemmas sample_loop_defs = EventLoop_new_def CountDownLatch_new_def EventLoop_Init_def EventLoop_AddTimer_def EventLoop_Loop_def
  Timer_Start_def UvTimerStart_def Timer_new_def AsyncQueue_new_def eventloop_defs queue_defs

lemma sample_loop_reachable: "loop_reachable 1 0 (sample_loop, [7])"
proof -
  define e :: "nat EventLoop" where "e = EventLoop_Loop 1 (the (EventLoop_Init 1 0 (the EventLoop_new)))"
  have "loop_reachable 1 0 (e, [])" unfolding e_def
    by (rule loop_reachable.init [of "the EventLoop_new" 1]) (simp_all add: sample_loop_defs)
  moreover have "loop_step 1 0 (e, []) (sample_loop, [] @ [7])" unfolding sample_loop_def
    by (rule loop_step.push [of 2]) (simp_all add: e_def sample_loop_defs)
  ultimately show ?thesis using loop_reachable.step by fastforce
qed

theorem functors_run_in_order_witness:
  "loop_reachable 1 0 (sample_loop, [7]) \<and> (\<exists>q. serve (el_functors sample_loop) q) \<and> \<not> EventLoop_WaitStarted sample_loop"
proof -
  have "aq_done (el_functors sample_loop) = []" "\<not> aq_closing (el_functors sample_loop)" "\<not> el_started sample_loop"
    by (simp_all add: sample_loop_def sample_loop_defs)
  then show ?thesis using sample_loop_reachable functors_run_in_order [OF sample_loop_reachable] by simp
qed

text \<open>A loop is stopped once: stopping it again in its own thread aborts, whether the handles are still closing or gone.\<close>

theorem second_stop_aborts:
  assumes "EventLoop_Stop t e = Some e'" "EventLoop_IsInLoopThread t e"
  shows "EventLoop_Stop t e' = None \<and>
    (\<forall>s. AsyncStopCloseCb (el_stop e') = Some s \<longrightarrow> EventLoop_Stop t (e'\<lparr>el_stop := s\<rparr>) = None)"
  using assms by (auto simp: eventloop_defs queue_defs elim!: bind_eq_SomeE split: if_splits)

end
