(* ===== verification/Spec2Isabelle.thy ===== *)
theory Spec2Isabelle
  imports Messages RaftTimers Cluster VStore VdbServer WorkThread TcpServer EventLoop
begin

text \<open>
  A verification development of vraft: a Raft consensus library in C++ with its LevelDB backed log,
  and the two programs built beside it, a replicated key-value store (vstore) and a vector database
  (vectordb). Paths below are relative to src/src.

  \<^bold>\<open>The program and its parts.\<close> Bytes from a connection are collected in a \<^verbatim>\<open>Buffer\<close> (seda/buffer.h);
  \<^verbatim>\<open>RaftServer::OnMessage\<close> cuts them into messages (raft/message.h and one file per message), each
  decoded with util/coding.cc, and calls the handler of the replica, the class \<^verbatim>\<open>Raft\<close> (raft/raft.cc,
  raft_core.cc and one file per remote call). The replica owns a persistent log (raft/raft_log.cc), its
  term and vote (raft/solid_data.cc), the configuration (raft/config_manager.cc), timers
  (raft/timer_manager.cc), the counts of votes and of replicated entries (vote_manager.cc,
  index_manager.cc) and a state machine it feeds with committed entries (vstore/vstore_sm.cc). The
  vector database keeps a catalogue of tables, partitions and replicas (vectordb/metadata.cc), an engine
  per replica (vengine.cc) with indices over its vectors (vindex_annoy.cc), and is driven by a console
  on a local database (local_console.cc) or by messages (vectordb.cc, vdb_console.cc).

  \<^bold>\<open>Conventions.\<close> A class is a record, a method \<^verbatim>\<open>C::M\<close> the function \<open>C_M\<close> that takes the object last and
  returns it changed; an overload has a suffix. \<open>None\<close> is a call the process does not survive: a failed
  \<^verbatim>\<open>assert\<close> (\<^verbatim>\<open>NDEBUG\<close> is never defined), a null pointer that is followed, an access outside the memory
  given or in memory that has been freed, a value read before it is set, a division by zero, an overflow of a signed sum of
  sizes a peer controls, an exception nobody catches. Error codes the
  code returns are integers. Integers that can wrap have their width (\<open>u8\<close> to \<open>u64\<close>); \<^verbatim>\<open>int32_t\<close> sizes are
  integers, with bounds where the code could exceed them. A \<^verbatim>\<open>std::map\<close> is an ordered association list,
  a shared pointer the value it points to, a file or database directory a value that is passed in when
  the object is made and read off it when the object dies, which is how a crash and a restart are
  expressed. A field that a constructor leaves unset is an argument, so that nothing is proved by
  assuming what memory contains.

  \<^bold>\<open>Parameters.\<close> Code that is not part of the repository is an argument of the definitions that use it,
  with its documented behaviour as the assumptions of a locale: LevelDB (\<open>leveldb_store\<close>, satisfied by
  \<open>alist_store\<close>), the Annoy index (\<open>annoy_lib\<close>, \<open>list_annoy\<close>), the option parser cxxopts (\<open>cxxopts_lib\<close>,
  \<open>long_opts\<close>). The state machine and its snapshots (\<open>sm_ops\<close>), the clock, random numbers, unique ids,
  the results of system calls on sockets, the numbers of threads, \<^verbatim>\<open>sscanf\<close> and the growth policy of \<^verbatim>\<open>std::vector\<close> are arguments without assumptions
  unless a theorem names one.

  \<^bold>\<open>Theories, from the bottom.\<close>

    \<^item> \<open>Prelude\<close>: machine types, the abort monad, lemmas on lists, maps and words.
    \<^item> \<open>Coding\<close>: util/coding.cc and util/slice.h. Fixed width and variable length codecs, strings with
      their length; they round trip and do not depend on the byte order of the machine.
    \<^item> \<open>Util\<close>: util/util.cc. CRC-32 (every burst of at most 32 changed bits is detected), the partition of
      a key, splitting and trimming strings.
    \<^item> \<open>RaftConfig\<close>, \<open>LogEntry\<close>, \<open>Messages\<close>: raft_addr, raft_config, config_manager, log entries and all
      messages. The locale \<open>message_codec\<close> states what sender and receiver need of a codec and is interpreted
      for every message; two messages whose decoders misread have theorems that show it.
    \<^item> \<open>Leveldb\<close>: the contract of the store, batches and iteration.
    \<^item> \<open>RaftLog\<close>: raft_log.cc. The rows of the database represent a list of entries with chained
      checksums; appending, deleting a suffix, reading and opening refine the operations on that list.
    \<^item> \<open>Quorum\<close>, \<open>SolidData\<close>, \<open>Timers\<close>: index_manager, vote_manager, peer_manager, snapshot_manager,
      solid_data, timer_manager and seda/timer. Quorums meet for an odd number of servers, and for an
      even number they need not; term and vote survive a restart.
    \<^item> \<open>Raft\<close>, \<open>RaftRpc\<close>: the replica, every handler, timer callback and client call; \<open>Raft_step\<close> handles one
      event. \<open>RaftServer\<close> sets a replica up and starts it; \<open>ServerLoop\<close> is the receive loop, where the loop
      is \<open>while_option\<close>: it ends on complete frames and does not end on a partial body. \<open>Buffer\<close> is its queue
      of bytes.
    \<^item> \<open>RaftSteps\<close>: the interface \<open>replica_steps\<close>, a relation that contains the primitive changes of a
      replica contains every handler. \<open>RaftSafety\<close>, \<open>RaftTimers\<close>, \<open>RaftVotes\<close> are interpretations of it: the
      term never falls and a term has one vote, commit and apply indices only grow, the running timers
      agree with the role, a leader has been voted for by a quorum.
    \<^item> \<open>Cluster\<close>: replicas, a network that loses, repeats and reorders messages, and crashes; no term has
      two leaders. \<open>RaftReplication\<close>: a follower's log after an append request is its common prefix with the
      leader's followed by the new entries, a leader commits only entries of its own term that a quorum
      has, and what is committed is applied once and in order.
    \<^item> \<open>VStore\<close>: vstore_sm.cc and vstore_console.cc. Applying committed entries is the map of the pairs they
      hold, and reading sees it.
    \<^item> \<open>MetaCodec\<close>, \<open>Metadata\<close>, \<open>MetaStore\<close>: metadata.cc. The catalogue is rebuilt from its rows after any
      history of adding tables and restarting; its unique ids start again with the process.
    \<^item> \<open>VecCodec\<close>, \<open>VEngine\<close>, \<open>VEngineStore\<close>, \<open>VSearch\<close>: vengine.cc, vindex.cc, engine_meta.cc, keyid_meta.cc,
      vindex_meta.cc, vindex_manager.cc, vindex_annoy.cc. An engine is a durable map from keys to vectors of
      one dimension (the locale \<open>vector_store\<close>), an index answers with stored keys in order of distance.
    \<^item> \<open>VdbEngine\<close>, \<open>VdbStore\<close>, \<open>VdbTables\<close>, \<open>VdbProps\<close>: vdb_engine.cc. The database refines tables of maps for
      any history of its operations, up to a restart followed by a new table, which loses sight of old data.
    \<^item> \<open>VdbParser\<close>, \<open>VdbShell\<close>, \<open>VdbServer\<close>: parser.cc, local_console.cc, util/console.cc, vectordb.cc,
      vdb_console.cc and the version messages. What is typed is executed on the engine and shown; a version
      request travels to the server and back if it is sent in time. \<open>ConsoleSend\<close> is \<^verbatim>\<open>Console::Send\<close>, which keeps an
      address instead of the bytes.

    \<^item> \<open>UvStream\<close>, \<open>TcpConnection\<close>, \<open>TcpClient\<close>, \<open>TcpServer\<close>: the streams of libuv (third_party/libuv), seda/tcp_connection,
      connector, tcp_client, acceptor, tcp_server and the clients of raft_server.cc. The frames a server sends are
      handled by the other side once and in order whatever the sockets take at a time; a full buffer, unsent
      data or a lost connection ends the connection or the process; a closed server is left without connections.
    \<^item> \<open>WorkThread\<close>, \<open>EventLoop\<close>: seda/work_thread, eventloop, async_queue, async_stop, count_down. Threads are steps
      between their locks; for every interleaving jobs and functions run once each and in order, none is
      forgotten, and a pool keeps the order of each identifier.

  \<^bold>\<open>Bounds.\<close> Lengths travel as \<^verbatim>\<open>int32_t\<close> and tables hold counts of that type: strings of at most
  \<open>2 ^ 30\<close> bytes, at most \<open>2 ^ 20\<close> entries in a message, tables in a catalogue and operations in a history keep
  every sum of lengths below \<open>2 ^ 31\<close>. The checksum of a log entry is that
  of the code for values shorter than \<open>2 ^ 28\<close> bytes. Where \<^verbatim>\<open>DecodeString2\<close> is used on strings inside a catalogue they are
  shorter than 128 bytes, because its result is too small by the extra length bytes of longer ones. Indices
  and terms wrap at 32 and 64 bits: a server whose term is the largest one takes no further step in
  \<open>Cluster\<close>. Paths fit the buffer of \<^verbatim>\<open>mkdir\<close> (\<open>mkdir_p\<close>). No definition has fuel: all but the receive
  loop are total functions, and for that loop termination is proved; the count of \<open>uv__read\<close> is libuv's own limit
  on the reads of one event.

  \<^bold>\<open>Limits of the theorems.\<close> Election safety is for a fixed membership: \<open>member_view\<close> is a guard of the
  steps, so histories with a configuration change are outside it, and a server crashes between two events
  and finds in its databases what it had written. The clocks of \<open>Timers\<close> are those of one event loop
  thread. A search is shown to return stored keys in order and no more than asked for; how near they are
  is a matter of Annoy.

  \<^bold>\<open>Not modelled.\<close> The threads that own an event loop (loop_thread, server_thread, client_thread) forward calls
  to what is modelled, and host names are resolved by the C library; the emulator and checker (remu,
  checker.cc) and the tests drive replicas; configuration files,
  loggers, the tracer and the functions that print values as JSON do not change the state; the main
  programs, examples and the Python binding wire the parts together; the remaining helpers of
  util/util.cc read the network, the clock and the file system.
\<close>

end
